(* ===== verification/Seshat_Prelude.thy ===== *)
theory Seshat_Prelude
  imports Complex_Main "HOL-Library.Word"
begin

text \<open>
  Types and helpers shared by every component of the development.

  \<^item> Rust's fixed-width unsigned integers are words (\<open>u8\<close> .. \<open>u64\<close>): \<open>+\<close>, \<open>-\<close>, \<open>*\<close> wrap, which
    is what the release profile of \<open>Cargo.toml\<close> compiles (overflow checks are off there); the
    saturating operations of the standard library are written out below. Lengths, indices and
    counts of in-memory collections (\<open>usize\<close>) are natural numbers.
  \<^item> \<open>f64\<close> is a datatype: a finite value, the two infinities and NaN. Special values propagate as in
    IEEE 754; arithmetic on finite values is exact (rounding is not modelled, and zero has one sign).
  \<^item> \<open>fle\<close>, \<open>flt\<close>, \<open>feq\<close> are the partial IEEE comparisons, false on NaN, while the \<open>linorder\<close> instance
    is \<open>f64::total_cmp\<close>, the order the code sorts by.
  \<^item> Strings are lists of characters; the case and whitespace functions are the ASCII part of
    Rust's.
\<close>

section \<open>Collections of rewrite rules\<close>

named_theorems f64_simps \<open>arithmetic and comparison of finite f64 values\<close>
named_theorems sat_simps \<open>saturating machine arithmetic read as natural numbers\<close>

section \<open>Machine integers\<close>

type_synonym u8 = "8 word"
type_synonym u16 = "16 word"
type_synonym u32 = "32 word"
type_synonym u64 = "64 word"

definition sat_add :: "'a::len word \<Rightarrow> 'a word \<Rightarrow> 'a word" where
  "sat_add a b = (if unat a + unat b < 2 ^ LENGTH('a) then a + b else - 1)"

definition sat_sub :: "'a::len word \<Rightarrow> 'a word \<Rightarrow> 'a word" where
  "sat_sub a b = (if b \<le> a then a - b else 0)"

definition sat_mul :: "'a::len word \<Rightarrow> 'a word \<Rightarrow> 'a word" where
  "sat_mul a b = (if unat a * unat b < 2 ^ LENGTH('a) then a * b else - 1)"

lemma unat_lt2p: "unat (w :: 'a::len word) < 2 ^ LENGTH('a)"
  by (rule unsigned_less)

lemma unat_max_word: "unat (- 1 :: 'a::len word) = 2 ^ LENGTH('a) - 1"
  by (simp add: unsigned_minus_1_eq_mask mask_eq_exp_minus_1)

lemma unat_of_nat_u64: "n < 2 ^ 64 \<Longrightarrow> unat (of_nat n :: u64) = n"
  by (simp add: unat_of_nat)

lemma unat_sat_add [sat_simps]:
  "unat (sat_add a b) = min (unat a + unat b) (2 ^ LENGTH('a) - 1)" for a b :: "'a::len word"
  by (auto simp: sat_add_def unat_max_word unat_word_ariths min_def)

lemma unat_sat_sub [sat_simps]: "unat (sat_sub a b) = unat a - unat b"
  by (auto simp: sat_sub_def word_le_nat_alt unat_sub)

lemma unat_sat_mul [sat_simps]:
  "unat (sat_mul a b) = min (unat a * unat b) (2 ^ LENGTH('a) - 1)" for a b :: "'a::len word"
proof (cases "unat a * unat b < 2 ^ LENGTH('a)")
  case True
  then have "min (unat a * unat b) (2 ^ LENGTH('a) - 1) = unat a * unat b" by linarith
  with True show ?thesis by (simp add: sat_mul_def unat_word_ariths)
next
  case False
  then have "min (unat a * unat b) (2 ^ LENGTH('a) - 1) = (2 ^ LENGTH('a) - 1 :: nat)" by linarith
  with False show ?thesis by (simp add: sat_mul_def unat_max_word)
qed

lemma sat_add_ge: "a \<le> sat_add a b" for a b :: "'a::len word"
proof -
  have "unat a \<le> min (unat a + unat b) (2 ^ LENGTH('a) - 1)"
    using unat_lt2p [of a] by linarith
  then show ?thesis by (simp add: word_le_nat_alt unat_sat_add)
qed

text \<open>Little-endian byte strings: \<open>to_le_bytes\<close> and \<open>from_le_bytes\<close> of the integer types.\<close>

fun le_digits :: "nat \<Rightarrow> nat \<Rightarrow> u8 list" where
  "le_digits 0 n = []"
| "le_digits (Suc k) n = of_nat (n mod 256) # le_digits k (n div 256)"

fun le_value :: "u8 list \<Rightarrow> nat" where
  "le_value [] = 0"
| "le_value (b # bs) = unat b + 256 * le_value bs"

definition to_le_bytes :: "nat \<Rightarrow> 'a::len word \<Rightarrow> u8 list" where
  "to_le_bytes k w = le_digits k (unat w)"

definition from_le_bytes :: "u8 list \<Rightarrow> 'a::len word" where
  "from_le_bytes bs = of_nat (le_value bs)"

lemma length_le_digits [simp]: "length (le_digits k n) = k"
  by (induction k arbitrary: n) auto

lemma length_to_le_bytes [simp]: "length (to_le_bytes k w) = k"
  by (simp add: to_le_bytes_def)

lemma unat_of_nat_byte: "unat (of_nat (n mod 256) :: u8) = n mod 256"
  by (simp add: unat_of_nat)

lemma le_value_le_digits: "le_value (le_digits k n) = n mod 256 ^ k"
proof (induction k arbitrary: n)
  case 0
  then show ?case by simp
next
  case (Suc k)
  then show ?case by (simp add: unat_of_nat_byte mod_mult2_eq)
qed

lemma from_to_le_bytes:
  assumes "LENGTH('a::len) \<le> 8 * k"
  shows "from_le_bytes (to_le_bytes k (w :: 'a word)) = w"
proof -
  have "unat w < 2 ^ LENGTH('a)" by (rule unat_lt2p)
  also have "(2::nat) ^ LENGTH('a) \<le> 2 ^ (8 * k)" using assms by simp
  also have "(2::nat) ^ (8 * k) = 256 ^ k" by (simp add: power_mult)
  finally show ?thesis by (simp add: from_le_bytes_def to_le_bytes_def le_value_le_digits)
qed

lemma le_value_bound: "le_value bs < 256 ^ length bs"
proof (induction bs)
  case Nil
  then show ?case by simp
next
  case (Cons b bs)
  have "unat b < 256" using unat_lt2p [of b] by simp
  with Cons show ?case by simp
qed

lemma le_digits_le_value: "length bs = k \<Longrightarrow> le_digits k (le_value bs) = bs"
proof (induction bs arbitrary: k)
  case Nil
  then show ?case by simp
next
  case (Cons b bs)
  have "unat b < 256" using unat_lt2p [of b] by simp
  then show ?case using Cons by (cases k) auto
qed

lemma to_from_le_bytes:
  assumes "length bs = k" and "8 * k = LENGTH('a::len)"
  shows "to_le_bytes k (from_le_bytes bs :: 'a word) = bs"
proof -
  have "le_value bs < 256 ^ k" using le_value_bound [of bs] assms(1) by simp
  also have "(256::nat) ^ k = 2 ^ LENGTH('a)" by (simp add: assms(2) [symmetric] power_mult)
  finally have "unat (from_le_bytes bs :: 'a word) = le_value bs"
    by (simp add: from_le_bytes_def unat_of_nat)
  then show ?thesis by (simp add: to_le_bytes_def le_digits_le_value assms(1))
qed


section \<open>Floating point\<close>

datatype f64 = NInf | Fin real | PInf | NaN

instantiation f64 :: "{zero, one, plus, minus, times, inverse, uminus}"
begin

definition zero_f64 :: f64 where "zero_f64 = Fin 0"
definition one_f64 :: f64 where "one_f64 = Fin 1"

fun uminus_f64 :: "f64 \<Rightarrow> f64" where
  "uminus_f64 (Fin a) = Fin (- a)"
| "uminus_f64 PInf = NInf"
| "uminus_f64 NInf = PInf"
| "uminus_f64 NaN = NaN"

fun plus_f64 :: "f64 \<Rightarrow> f64 \<Rightarrow> f64" where
  "plus_f64 (Fin a) (Fin b) = Fin (a + b)"
| "plus_f64 NaN _ = NaN"
| "plus_f64 _ NaN = NaN"
| "plus_f64 PInf NInf = NaN"
| "plus_f64 NInf PInf = NaN"
| "plus_f64 PInf _ = PInf"
| "plus_f64 NInf _ = NInf"
| "plus_f64 _ PInf = PInf"
| "plus_f64 _ NInf = NInf"

definition minus_f64 :: "f64 \<Rightarrow> f64 \<Rightarrow> f64" where
  "minus_f64 a b = a + (- b)"

definition f_sgn :: "real \<Rightarrow> f64" where
  "f_sgn r = (if r = 0 then NaN else if 0 < r then PInf else NInf)"

fun times_f64 :: "f64 \<Rightarrow> f64 \<Rightarrow> f64" where
  "times_f64 (Fin a) (Fin b) = Fin (a * b)"
| "times_f64 NaN _ = NaN"
| "times_f64 _ NaN = NaN"
| "times_f64 (Fin a) PInf = f_sgn a"
| "times_f64 (Fin a) NInf = f_sgn (- a)"
| "times_f64 PInf (Fin b) = f_sgn b"
| "times_f64 NInf (Fin b) = f_sgn (- b)"
| "times_f64 PInf PInf = PInf"
| "times_f64 NInf NInf = PInf"
| "times_f64 _ _ = NInf"

fun divide_f64 :: "f64 \<Rightarrow> f64 \<Rightarrow> f64" where
  "divide_f64 (Fin a) (Fin b) = (if b = 0 then f_sgn a else Fin (a / b))"
| "divide_f64 NaN _ = NaN"
| "divide_f64 _ NaN = NaN"
| "divide_f64 (Fin a) _ = Fin 0"
| "divide_f64 PInf (Fin b) = (if 0 \<le> b then PInf else NInf)"
| "divide_f64 NInf (Fin b) = (if 0 \<le> b then NInf else PInf)"
| "divide_f64 _ _ = NaN"

definition inverse_f64 :: "f64 \<Rightarrow> f64" where
  "inverse_f64 x = divide_class.divide (Fin 1) x"

instance ..

end

lemma Fin_arith [f64_simps]:
  "Fin a + Fin b = Fin (a + b)" "Fin a - Fin b = Fin (a - b)" "Fin a * Fin b = Fin (a * b)"
  "b \<noteq> 0 \<Longrightarrow> Fin a / Fin b = Fin (a / b)" "(0::f64) = Fin 0" "(1::f64) = Fin 1"
  by (simp_all add: minus_f64_def zero_f64_def one_f64_def)

text \<open>\<open>f64::total_cmp\<close> as the linear order of the type.\<close>

instantiation f64 :: linorder
begin

fun less_eq_f64 :: "f64 \<Rightarrow> f64 \<Rightarrow> bool" where
  "less_eq_f64 NInf _ = True"
| "less_eq_f64 _ NInf = False"
| "less_eq_f64 (Fin a) (Fin b) = (a \<le> b)"
| "less_eq_f64 (Fin _) _ = True"
| "less_eq_f64 _ (Fin _) = False"
| "less_eq_f64 PInf _ = True"
| "less_eq_f64 NaN b = (b = NaN)"

definition less_f64 :: "f64 \<Rightarrow> f64 \<Rightarrow> bool" where
  "less_f64 a b = (a \<le> b \<and> \<not> b \<le> a)"

instance
proof
  fix x y z :: f64
  show "(x < y) = (x \<le> y \<and> \<not> y \<le> x)" by (simp add: less_f64_def)
  show "x \<le> x" by (cases x) auto
  show "x \<le> y \<Longrightarrow> y \<le> z \<Longrightarrow> x \<le> z" by (cases x; cases y; cases z) auto
  show "x \<le> y \<Longrightarrow> y \<le> x \<Longrightarrow> x = y" by (cases x; cases y) auto
  show "x \<le> y \<or> y \<le> x" by (cases x; cases y) auto
qed

end

lemma Fin_le_iff [f64_simps]: "Fin a \<le> Fin b \<longleftrightarrow> a \<le> b"
  by simp

lemma Fin_less_iff [f64_simps]: "Fin a < Fin b \<longleftrightarrow> a < b"
  by (auto simp: less_f64_def)

text \<open>The IEEE comparison operators: every comparison with NaN is false.\<close>

definition fle :: "f64 \<Rightarrow> f64 \<Rightarrow> bool" where
  "fle a b = (a \<noteq> NaN \<and> b \<noteq> NaN \<and> a \<le> b)"

definition flt :: "f64 \<Rightarrow> f64 \<Rightarrow> bool" where
  "flt a b = (a \<noteq> NaN \<and> b \<noteq> NaN \<and> a < b)"

definition is_finite :: "f64 \<Rightarrow> bool" where
  "is_finite a = (case a of Fin _ \<Rightarrow> True | _ \<Rightarrow> False)"

text \<open>\<open>f64::max\<close>, \<open>f64::min\<close>: a NaN argument is ignored.\<close>

definition fmax :: "f64 \<Rightarrow> f64 \<Rightarrow> f64" where
  "fmax a b = (if a = NaN then b else if b = NaN then a else max a b)"

definition fmin :: "f64 \<Rightarrow> f64 \<Rightarrow> f64" where
  "fmin a b = (if a = NaN then b else if b = NaN then a else min a b)"

fun fabs :: "f64 \<Rightarrow> f64" where
  "fabs (Fin a) = Fin \<bar>a\<bar>"
| "fabs NaN = NaN"
| "fabs _ = PInf"

fun fsqrt :: "f64 \<Rightarrow> f64" where
  "fsqrt (Fin a) = (if a < 0 then NaN else Fin (sqrt a))"
| "fsqrt PInf = PInf"
| "fsqrt _ = NaN"

fun ffloor :: "f64 \<Rightarrow> f64" where
  "ffloor (Fin a) = Fin (of_int \<lfloor>a\<rfloor>)"
| "ffloor x = x"

fun fceil :: "f64 \<Rightarrow> f64" where
  "fceil (Fin a) = Fin (of_int \<lceil>a\<rceil>)"
| "fceil x = x"

text \<open>\<open>x as u64\<close>: truncate, saturate at the ends of the range, NaN gives 0.\<close>

fun f_to_nat :: "f64 \<Rightarrow> nat" where
  "f_to_nat (Fin a) = min (nat \<lfloor>a\<rfloor>) (2 ^ 64 - 1)"
| "f_to_nat PInf = 2 ^ 64 - 1"
| "f_to_nat _ = 0"

text \<open>
  \<open>x as usize\<close>, for indices and counts: the same, on naturals, where a finite value does not reach
  the end of the range.
\<close>

fun f_to_usize :: "f64 \<Rightarrow> nat" where
  "f_to_usize (Fin a) = nat \<lfloor>a\<rfloor>"
| "f_to_usize PInf = 2 ^ 64 - 1"
| "f_to_usize _ = 0"

text \<open>\<open>f64::clamp\<close>: NaN stays NaN.\<close>

definition fclamp :: "f64 \<Rightarrow> f64 \<Rightarrow> f64 \<Rightarrow> f64" where
  "fclamp x lo hi = (if flt x lo then lo else if flt hi x then hi else x)"

definition f_to_u64 :: "f64 \<Rightarrow> u64" where
  "f_to_u64 x = of_nat (f_to_nat x)"

definition f_of_nat :: "nat \<Rightarrow> f64" where
  "f_of_nat n = Fin (real n)"

definition f_of_word :: "'a::len word \<Rightarrow> f64" where
  "f_of_word w = Fin (real (unat w))"

text \<open>\<open>iter().sum::<f64>()\<close>\<close>

definition fsum :: "f64 list \<Rightarrow> f64" where
  "fsum xs = foldl (+) 0 xs"

lemma fle_Fin [f64_simps]: "fle (Fin a) (Fin b) \<longleftrightarrow> a \<le> b"
  and flt_Fin [f64_simps]: "flt (Fin a) (Fin b) \<longleftrightarrow> a < b"
  and fmax_Fin [f64_simps]: "fmax (Fin a) (Fin b) = Fin (max a b)"
  and fmin_Fin [f64_simps]: "fmin (Fin a) (Fin b) = Fin (min a b)"
  by (auto simp: fle_def flt_def fmax_def fmin_def max_def min_def less_f64_def)

lemma fclamp_Fin [f64_simps]:
  "lo \<le> hi \<Longrightarrow> fclamp (Fin x) (Fin lo) (Fin hi) = Fin (max lo (min hi x))"
  by (auto simp: fclamp_def flt_Fin max_def min_def)

lemma fabs_Fin [f64_simps]: "fabs (Fin a) = Fin \<bar>a\<bar>"
  by simp

lemma f_of_nat_Fin [f64_simps]: "f_of_nat n = Fin (real n)" "f_of_word w = Fin (real (unat w))"
  by (simp_all add: f_of_nat_def f_of_word_def)

lemma foldl_plus_Fin: "foldl (+) (Fin a) (map Fin xs) = Fin (a + sum_list xs)"
  by (induction xs arbitrary: a) (auto simp: f64_simps)

lemma fsum_Fin [f64_simps]: "fsum (map Fin xs) = Fin (sum_list xs)"
  by (simp add: fsum_def zero_f64_def foldl_plus_Fin)

lemma f_to_nat_bound: "f_to_nat x < 2 ^ 64"
  by (cases x) auto

lemma unat_f_to_u64 [simp]: "unat (f_to_u64 x) = f_to_nat x"
  using f_to_nat_bound [of x] by (simp add: f_to_u64_def unat_of_nat)

lemma map_Fin_inj: "map Fin xs = map Fin ys \<longleftrightarrow> xs = ys"
  by (rule inj_map_eq_map) (auto simp: inj_def)


section \<open>State machines that emit a value at each step\<close>

fun unfold_n :: "('s \<Rightarrow> 'd \<times> 's) \<Rightarrow> nat \<Rightarrow> 's \<Rightarrow> 'd list" where
  "unfold_n nx 0 s = []"
| "unfold_n nx (Suc n) s = (case nx s of (d, s') \<Rightarrow> d # unfold_n nx n s')"

lemma length_unfold_n [simp]: "length (unfold_n nx n s) = n"
  by (induction n arbitrary: s) (auto split: prod.split)

lemma nth_unfold_n: "k < n \<Longrightarrow> unfold_n nx n s ! k = fst (nx (((\<lambda>s. snd (nx s)) ^^ k) s))"
proof (induction n arbitrary: s k)
  case 0
  then show ?case by simp
next
  case (Suc n)
  then show ?case
    by (cases k) (auto simp: funpow_Suc_right split_beta simp del: funpow.simps(2))
qed


section \<open>Loops that end at the first error\<close>

fun try_fold :: "('a \<Rightarrow> 's \<Rightarrow> 'e + 's) \<Rightarrow> 'a list \<Rightarrow> 's \<Rightarrow> 'e + 's" where
  "try_fold f [] s = Inr s"
| "try_fold f (x # xs) s = (case f x s of Inl e \<Rightarrow> Inl e | Inr s' \<Rightarrow> try_fold f xs s')"

definition and_then :: "'e + 'a \<Rightarrow> ('a \<Rightarrow> 'e + 'b) \<Rightarrow> 'e + 'b" where
  "and_then r f = (case r of Inl e \<Rightarrow> Inl e | Inr x \<Rightarrow> f x)"

lemma and_then_simps [simp]: "and_then (Inl e) f = Inl e" "and_then (Inr x) f = f x"
  by (simp_all add: and_then_def)

lemma and_then_assoc: "and_then (and_then r f) g = and_then r (\<lambda>x. and_then (f x) g)"
  by (cases r) simp_all

lemma and_then_Inr: "and_then r f = Inr y \<longleftrightarrow> (\<exists>x. r = Inr x \<and> f x = Inr y)"
  by (cases r) simp_all

lemma try_fold_append: "try_fold f (xs @ ys) s = and_then (try_fold f xs s) (try_fold f ys)"
  by (induction xs arbitrary: s) (auto split: sum.split)

lemma try_fold_concat: "try_fold f (concat (map g xs)) s = try_fold (\<lambda>x. try_fold f (g x)) xs s"
  by (induction xs arbitrary: s) (auto simp: try_fold_append and_then_def split: sum.split)

section \<open>Extremal elements\<close>

text \<open>\<open>Iterator::max_by\<close> and \<open>max_by_key\<close>: the last of the largest elements.\<close>

definition max_by :: "('a \<Rightarrow> 'b::linorder) \<Rightarrow> 'a list \<Rightarrow> 'a option" where
  "max_by f xs = (case xs of
      [] \<Rightarrow> None
    | x # xs \<Rightarrow> Some (foldl (\<lambda>best y. if f best \<le> f y then y else best) x xs))"

text \<open>\<open>Iterator::min_by\<close> and \<open>min_by_key\<close>: the first of the smallest elements.\<close>

definition min_by :: "('a \<Rightarrow> 'b::linorder) \<Rightarrow> 'a list \<Rightarrow> 'a option" where
  "min_by f xs = (case xs of
      [] \<Rightarrow> None
    | x # xs \<Rightarrow> Some (foldl (\<lambda>best y. if f y < f best then y else best) x xs))"

lemma max_by_None [simp]: "max_by f xs = None \<longleftrightarrow> xs = []"
  and min_by_None [simp]: "min_by f xs = None \<longleftrightarrow> xs = []"
  by (simp_all add: max_by_def min_by_def split: list.split)

lemma foldl_max:
  "foldl (\<lambda>best y. if f best \<le> f y then y else best) x xs \<in> insert x (set xs)
   \<and> (\<forall>y\<in>insert x (set xs). f y \<le> f (foldl (\<lambda>best y. if f best \<le> f y then y else best) x xs))"
  for f :: "'a \<Rightarrow> 'b::linorder"
proof (induction xs arbitrary: x)
  case Nil
  then show ?case by simp
next
  case (Cons z zs)
  show ?case using Cons [of "if f x \<le> f z then z else x"] by (fastforce split: if_splits)
qed

lemma foldl_min:
  "foldl (\<lambda>best y. if f y < f best then y else best) x xs \<in> insert x (set xs)
   \<and> (\<forall>y\<in>insert x (set xs). f (foldl (\<lambda>best y. if f y < f best then y else best) x xs) \<le> f y)"
  for f :: "'a \<Rightarrow> 'b::linorder"
proof (induction xs arbitrary: x)
  case Nil
  then show ?case by simp
next
  case (Cons z zs)
  show ?case using Cons [of "if f z < f x then z else x"] by (fastforce split: if_splits)
qed

lemma max_by_in: "max_by f xs = Some x \<Longrightarrow> x \<in> set xs"
  and max_by_le: "max_by f xs = Some x \<Longrightarrow> y \<in> set xs \<Longrightarrow> f y \<le> f x"
  by (cases xs; use foldl_max [of f] in \<open>auto simp: max_by_def\<close>)+

lemma min_by_in: "min_by f xs = Some x \<Longrightarrow> x \<in> set xs"
  and min_by_le: "min_by f xs = Some x \<Longrightarrow> y \<in> set xs \<Longrightarrow> f x \<le> f y"
  by (cases xs; use foldl_min [of f] in \<open>auto simp: min_by_def\<close>)+

end
