(* ===== verification/Stats.thy ===== *)
theory Stats
  imports Seshat_Prelude "HOL-Library.Multiset" "HOL-Library.Sublist"
begin

text \<open>
  Descriptive statistics, \<open>src/src/metrics/stats.rs\<close>, over \<open>f64\<close> samples. The routines are total: an
  empty sample gives the code's own neutral values (0, NaN). The lemmas lift each of them to real
  arithmetic on finite samples; percentiles are the piecewise linear interpolation \<open>interp_at\<close> of the
  sorted sample, which is monotone in the rank.
\<close>

record summary =
  sm_n :: nat
  sm_mean :: f64
  sm_median :: f64
  sm_stddev :: f64
  sm_min :: f64
  sm_max :: f64
  sm_p50 :: f64
  sm_p90 :: f64
  sm_p95 :: f64
  sm_p99 :: f64
  sm_p999 :: f64
  sm_ci95 :: f64
  sm_cov :: f64

definition summary_empty :: summary where
  "summary_empty = \<lparr>sm_n = 0, sm_mean = 0, sm_median = 0, sm_stddev = 0, sm_min = 0, sm_max = 0,
     sm_p50 = 0, sm_p90 = 0, sm_p95 = 0, sm_p99 = 0, sm_p999 = 0, sm_ci95 = 0, sm_cov = 0\<rparr>"

definition mean :: "f64 list \<Rightarrow> f64" where
  "mean xs = (if xs = [] then 0 else fsum xs / f_of_nat (length xs))"

definition stddev :: "f64 list \<Rightarrow> f64" where
  "stddev xs =
     (let n = length xs in
      if n < 2 then 0
      else let m = mean xs;
               var = fsum (map (\<lambda>x. (x - m) * (x - m)) xs) / (f_of_nat n - 1)
           in fsqrt var)"

definition percentile :: "f64 list \<Rightarrow> f64 \<Rightarrow> f64" where
  "percentile srt p =
     (if length srt = 0 then NaN
      else if length srt = 1 then srt ! 0
      else
        let p = fclamp p (Fin 0) (Fin 100);
            rank = (p / Fin 100) * (f_of_nat (length srt) - 1);
            lo = f_to_usize (ffloor rank);
            hi = f_to_usize (fceil rank)
        in if lo = hi then srt ! lo
           else let frac = rank - f_of_nat lo
                in srt ! lo * (1 - frac) + srt ! hi * frac)"

definition t_table :: "(nat \<times> f64) list" where
  "t_table =
     [(1, Fin (12706 / 1000)), (2, Fin (4303 / 1000)), (3, Fin (3182 / 1000)),
      (4, Fin (2776 / 1000)), (5, Fin (2571 / 1000)), (6, Fin (2447 / 1000)),
      (7, Fin (2365 / 1000)), (8, Fin (2306 / 1000)), (9, Fin (2262 / 1000)),
      (10, Fin (2228 / 1000)), (12, Fin (2179 / 1000)), (15, Fin (2131 / 1000)),
      (20, Fin (2086 / 1000)), (24, Fin (2064 / 1000)), (30, Fin (2042 / 1000)),
      (40, Fin (2021 / 1000)), (60, Fin (2000 / 1000)), (120, Fin (1980 / 1000))]"

fun t_lookup :: "nat \<Rightarrow> (nat \<times> f64) list \<Rightarrow> f64" where
  "t_lookup df [] = Fin (1960 / 1000)"
| "t_lookup df ((d, t) # rest) = (if df \<le> d then t else t_lookup df rest)"

definition t_value_95 :: "nat \<Rightarrow> f64" where
  "t_value_95 df =
     (if df = 0 then 0
      else if 120 \<le> df then Fin (1960 / 1000)
      else t_lookup df t_table)"

definition ci95_halfwidth :: "f64 list \<Rightarrow> f64" where
  "ci95_halfwidth xs =
     (let n = length xs in
      if n < 2 then 0
      else t_value_95 (n - 1) * stddev xs / fsqrt (f_of_nat n))"

definition coefficient_of_variation :: "f64 list \<Rightarrow> f64" where
  "coefficient_of_variation xs =
     (let m = mean xs in if flt (fabs m) (Fin (1 / 2 ^ 52)) then 0 else stddev xs / m)"

definition remove_outliers_iqr :: "f64 list \<Rightarrow> f64 list \<times> nat" where
  "remove_outliers_iqr xs =
     (if length xs < 4 then (xs, 0)
      else
        let srt = sort xs;
            q1 = percentile srt (Fin 25);
            q3 = percentile srt (Fin 75);
            iqr = q3 - q1;
            lo = q1 - Fin (3 / 2) * iqr;
            hi = q3 + Fin (3 / 2) * iqr;
            kept = filter (\<lambda>x. fle lo x \<and> fle x hi) xs
        in (kept, length xs - length kept))"

definition summarize :: "f64 list \<Rightarrow> summary" where
  "summarize xs =
     (if xs = [] then summary_empty
      else
        let srt = sort xs; m = mean xs in
        \<lparr>sm_n = length xs, sm_mean = m,
         sm_median = percentile srt (Fin 50),
         sm_stddev = stddev xs,
         sm_min = srt ! 0,
         sm_max = srt ! (length srt - 1),
         sm_p50 = percentile srt (Fin 50),
         sm_p90 = percentile srt (Fin 90),
         sm_p95 = percentile srt (Fin 95),
         sm_p99 = percentile srt (Fin 99),
         sm_p999 = percentile srt (Fin (999 / 10)),
         sm_ci95 = ci95_halfwidth xs,
         sm_cov = coefficient_of_variation xs\<rparr>)"

section \<open>Lifting to real arithmetic\<close>

definition rmean :: "real list \<Rightarrow> real" where
  "rmean rs = (if rs = [] then 0 else sum_list rs / real (length rs))"

definition rvar :: "real list \<Rightarrow> real" where
  "rvar rs = sum_list (map (\<lambda>x. (x - rmean rs) * (x - rmean rs)) rs) / (real (length rs) - 1)"

lemma mean_Fin [f64_simps]: "mean (map Fin rs) = Fin (rmean rs)"
  by (simp add: mean_def rmean_def f64_simps)

lemma rvar_nonneg: "2 \<le> length rs \<Longrightarrow> 0 \<le> rvar rs"
  unfolding rvar_def by (intro divide_nonneg_nonneg sum_list_nonneg) auto

lemma stddev_Fin [f64_simps]:
  "stddev (map Fin rs) = Fin (if length rs < 2 then 0 else sqrt (rvar rs))"
proof (cases "length rs < 2")
  case True
  then show ?thesis by (simp add: stddev_def f64_simps)
next
  case False
  let ?m = "rmean rs"
  have "map (\<lambda>x. (x - mean (map Fin rs)) * (x - mean (map Fin rs))) (map Fin rs)
      = map Fin (map (\<lambda>x. (x - ?m) * (x - ?m)) rs)"
    by (simp add: f64_simps comp_def)
  then have "fsum (map (\<lambda>x. (x - mean (map Fin rs)) * (x - mean (map Fin rs))) (map Fin rs))
      / (f_of_nat (length (map Fin rs)) - 1) = Fin (rvar rs)"
    using False by (simp only: fsum_Fin) (simp add: f64_simps rvar_def)
  then show ?thesis using False rvar_nonneg [of rs] by (simp add: stddev_def)
qed

lemma sort_Fin [f64_simps]: "sort (map Fin rs) = map Fin (sort rs)"
proof (rule properties_for_sort)
  show "mset (map Fin (sort rs)) = mset (map Fin rs)" by (metis mset_map mset_sort)
  show "sorted (map Fin (sort rs))" by (simp add: sorted_map f64_simps)
qed

text \<open>The interpolated order statistic at rank \<open>r\<close>.\<close>

definition interp_at :: "real list \<Rightarrow> real \<Rightarrow> real" where
  "interp_at rs r = rs ! nat \<lfloor>r\<rfloor> + (rs ! nat \<lceil>r\<rceil> - rs ! nat \<lfloor>r\<rfloor>) * (r - of_int \<lfloor>r\<rfloor>)"

lemma percentile_Fin:
  assumes "rs \<noteq> []" and "0 \<le> p" and "p \<le> 100"
  shows "percentile (map Fin rs) (Fin p) = Fin (interp_at rs (p / 100 * (real (length rs) - 1)))"
proof (cases "length rs = 1")
  case True
  then show ?thesis by (simp add: percentile_def interp_at_def)
next
  case False
  then have len: "2 \<le> length rs" using assms(1) by (cases rs) (auto simp: Suc_le_eq)
  define r where "r = p / 100 * (real (length rs) - 1)"
  have r0: "0 \<le> r" using assms(2) len by (simp add: r_def)
  have r1: "r \<le> real (length rs) - 1"
  proof -
    have "p / 100 * (real (length rs) - 1) \<le> 1 * (real (length rs) - 1)"
      by (rule mult_right_mono) (use assms(3) len in auto)
    then show ?thesis by (simp add: r_def)
  qed
  have rank: "(fclamp (Fin p) (Fin 0) (Fin 100) / Fin 100) * (f_of_nat (length rs) - 1) = Fin r"
    using assms by (simp add: f64_simps r_def)
  have hi: "nat \<lceil>r\<rceil> < length rs" using r1 len by linarith
  have lo: "nat \<lfloor>r\<rfloor> < length rs" using r1 len by linarith
  have nat_lo: "real (nat \<lfloor>r\<rfloor>) = of_int \<lfloor>r\<rfloor>" using r0 by simp
  show ?thesis
  proof (cases "nat \<lfloor>r\<rfloor> = nat \<lceil>r\<rceil>")
    case True
    then have "interp_at rs r = rs ! nat \<lfloor>r\<rfloor>" by (simp add: interp_at_def)
    moreover have "percentile (map Fin rs) (Fin p) = Fin (rs ! nat \<lfloor>r\<rfloor>)"
      using len lo True assms(1) by (simp add: percentile_def rank Let_def)
    ultimately show ?thesis by (simp only: r_def)
  next
    case False
    let ?f = "r - of_int \<lfloor>r\<rfloor>"
    have "percentile (map Fin rs) (Fin p)
        = map Fin rs ! nat \<lfloor>r\<rfloor> * (1 - (Fin r - f_of_nat (nat \<lfloor>r\<rfloor>)))
          + map Fin rs ! nat \<lceil>r\<rceil> * (Fin r - f_of_nat (nat \<lfloor>r\<rfloor>))"
      using False len assms(1) by (simp add: percentile_def rank Let_def)
    also have "\<dots> = Fin (rs ! nat \<lfloor>r\<rfloor> * (1 - ?f) + rs ! nat \<lceil>r\<rceil> * ?f)"
      using lo hi by (simp only: nth_map f64_simps nat_lo)
    also have "rs ! nat \<lfloor>r\<rfloor> * (1 - ?f) + rs ! nat \<lceil>r\<rceil> * ?f = interp_at rs r"
      unfolding interp_at_def by (simp only: left_diff_distrib right_diff_distrib)
    finally have "percentile (map Fin rs) (Fin p) = Fin (interp_at rs r)" .
    then show ?thesis by (simp only: r_def)
  qed
qed

section \<open>The interpolated order statistic\<close>

lemma real_length_ge1: "rs \<noteq> [] \<Longrightarrow> 1 \<le> real (length rs)"
  by (metis length_0_conv less_one not_less of_nat_1 of_nat_le_iff)

lemma rank_bounds:
  assumes "rs \<noteq> []" and "0 \<le> p" and "p \<le> 100"
  shows "0 \<le> p / 100 * (real (length rs) - 1)" and
    "p / 100 * (real (length rs) - 1) \<le> real (length rs) - 1"
proof -
  have len: "1 \<le> real (length rs)" by (rule real_length_ge1 [OF assms(1)])
  then show "0 \<le> p / 100 * (real (length rs) - 1)" using assms(2) by simp
  have "p / 100 * (real (length rs) - 1) \<le> 1 * (real (length rs) - 1)"
    by (rule mult_right_mono) (use assms(3) len in auto)
  then show "p / 100 * (real (length rs) - 1) \<le> real (length rs) - 1" by simp
qed

lemma interp_bounds:
  assumes "sorted rs" and "0 \<le> r" and "r \<le> real (length rs) - 1"
  shows "rs ! nat \<lfloor>r\<rfloor> \<le> interp_at rs r" and "interp_at rs r \<le> rs ! nat \<lceil>r\<rceil>"
proof -
  have c: "nat \<lceil>r\<rceil> < length rs" using assms(2,3) by linarith
  have fc: "nat \<lfloor>r\<rfloor> \<le> nat \<lceil>r\<rceil>" using assms(2) by linarith
  have d: "0 \<le> rs ! nat \<lceil>r\<rceil> - rs ! nat \<lfloor>r\<rfloor>"
    using sorted_nth_mono [OF assms(1) fc c] by simp
  have f0: "0 \<le> r - of_int \<lfloor>r\<rfloor>" and f1: "r - of_int \<lfloor>r\<rfloor> \<le> 1" by linarith+
  show "rs ! nat \<lfloor>r\<rfloor> \<le> interp_at rs r" using d f0 by (simp add: interp_at_def)
  show "interp_at rs r \<le> rs ! nat \<lceil>r\<rceil>"
    using mult_left_mono [OF f1 d] by (simp add: interp_at_def)
qed

lemma interp_mono:
  assumes "sorted rs" and "0 \<le> r" and "r \<le> s" and "s \<le> real (length rs) - 1"
  shows "interp_at rs r \<le> interp_at rs s"
proof -
  have s0: "0 \<le> s" and r1: "r \<le> real (length rs) - 1" using assms by linarith+
  note br = interp_bounds [OF assms(1,2) r1] and bs = interp_bounds [OF assms(1) s0 assms(4)]
  show ?thesis
  proof (cases "nat \<lceil>r\<rceil> \<le> nat \<lfloor>s\<rfloor>")
    case True
    have "nat \<lfloor>s\<rfloor> < length rs" using s0 assms(4) by linarith
    then have "rs ! nat \<lceil>r\<rceil> \<le> rs ! nat \<lfloor>s\<rfloor>" by (rule sorted_nth_mono [OF assms(1) True])
    with br bs show ?thesis by linarith
  next
    case False
    have fl: "\<lfloor>r\<rfloor> = \<lfloor>s\<rfloor>" and ce: "\<lceil>r\<rceil> = \<lceil>s\<rceil>" using False assms(2,3) by linarith+
    have le: "nat \<lfloor>s\<rfloor> \<le> nat \<lceil>s\<rceil>" and c: "nat \<lceil>s\<rceil> < length rs"
      using s0 assms(4) by linarith+
    have "0 \<le> rs ! nat \<lceil>s\<rceil> - rs ! nat \<lfloor>s\<rfloor>"
      using sorted_nth_mono [OF assms(1) le c] by simp
    then show ?thesis unfolding interp_at_def fl ce
      using assms(3) by (simp add: mult_left_mono)
  qed
qed

lemma sort_ne [simp]: "sort rs = [] \<longleftrightarrow> rs = []" for rs :: "'a::linorder list"
  by (metis length_0_conv length_sort)

lemma finite_list:
  assumes "\<forall>x\<in>set xs. is_finite x"
  obtains rs where "xs = map Fin rs"
proof -
  have "\<exists>r. x = Fin r" if "x \<in> set xs" for x
    using assms that by (cases x) (auto simp: is_finite_def)
  then have "\<exists>rs. xs = map Fin rs"
    by (induction xs) (auto, metis list.simps(9))
  then show ?thesis using that by blast
qed

text \<open>A percentile of a sorted finite sample, for any finite request: the request is clamped.\<close>

lemma fclamp_idem: "percentile srt (Fin p) = percentile srt (Fin (max 0 (min 100 p)))"
proof -
  have "fclamp (Fin p) (Fin 0) (Fin 100)
      = fclamp (Fin (max 0 (min 100 p))) (Fin 0) (Fin 100)" by (simp add: f64_simps)
  then show ?thesis unfolding percentile_def by (simp only:)
qed

lemma percentile_clamped:
  assumes "rs \<noteq> []"
  shows "percentile (map Fin rs) (Fin p)
       = Fin (interp_at rs (max 0 (min 100 p) / 100 * (real (length rs) - 1)))"
  by (subst fclamp_idem, rule percentile_Fin [OF assms]) auto

lemma interp_first: "rs \<noteq> [] \<Longrightarrow> interp_at rs 0 = rs ! 0"
  by (simp add: interp_at_def)

lemma interp_last: "rs \<noteq> [] \<Longrightarrow> interp_at rs (real (length rs) - 1) = rs ! (length rs - 1)"
proof -
  assume "rs \<noteq> []"
  then have "real (length rs) - 1 = real (length rs - 1)"
    using real_length_ge1 [of rs] by linarith
  moreover have "interp_at rs (real k) = rs ! k" for k by (simp add: interp_at_def)
  ultimately show ?thesis by (simp only:)
qed

lemma mono_rank:
  assumes "rs \<noteq> []" and "p \<le> q"
  shows "p / 100 * (real (length rs) - 1) \<le> q / 100 * (real (length rs) - 1)"
proof -
  have "1 \<le> real (length rs)" by (rule real_length_ge1 [OF assms(1)])
  with assms(2) show ?thesis by (intro mult_right_mono) auto
qed

lemma percentile_mono_Fin:
  assumes "rs \<noteq> []" and "sorted rs" and "0 \<le> p" and "p \<le> q" and "q \<le> 100"
  shows "percentile (map Fin rs) (Fin p) \<le> percentile (map Fin rs) (Fin q)"
proof -
  have "interp_at rs (p / 100 * (real (length rs) - 1))
      \<le> interp_at rs (q / 100 * (real (length rs) - 1))"
    by (rule interp_mono)
      (use assms rank_bounds [of rs p] rank_bounds [of rs q] mono_rank [of rs p q] in auto)
  then show ?thesis using assms by (simp add: percentile_Fin f64_simps)
qed

lemma percentile_0 [simp]: "rs \<noteq> [] \<Longrightarrow> percentile (map Fin rs) (Fin 0) = Fin (rs ! 0)"
  by (simp add: percentile_Fin interp_first)

lemma percentile_100 [simp]:
  "rs \<noteq> [] \<Longrightarrow> percentile (map Fin rs) (Fin 100) = Fin (rs ! (length rs - 1))"
  by (simp add: percentile_Fin interp_last)

section \<open>What the routines promise\<close>

lemma sort_nth_in: "k < length rs \<Longrightarrow> sort rs ! k \<in> set rs" for rs :: "real list"
  by (metis length_sort nth_mem set_sort)

lemma sort_range:
  fixes rs :: "real list"
  assumes "x \<in> set rs"
  shows "sort rs ! 0 \<le> x" and "x \<le> sort rs ! (length rs - 1)"
proof -
  from assms have "x \<in> set (sort rs)" by simp
  then obtain k where k: "k < length (sort rs)" "sort rs ! k = x" by (metis in_set_conv_nth)
  then show "sort rs ! 0 \<le> x" by (metis le0 sorted_nth_mono sorted_sort)
  have "k \<le> length rs - 1" and "length rs - 1 < length (sort rs)" using k(1) by auto
  with k(2) show "x \<le> sort rs ! (length rs - 1)" by (metis sorted_nth_mono sorted_sort)
qed

lemma rmean_range:
  assumes "rs \<noteq> []" and "\<And>x. x \<in> set rs \<Longrightarrow> a \<le> x \<and> x \<le> b"
  shows "a \<le> rmean rs" and "rmean rs \<le> b"
proof -
  have "a * real (length rs) \<le> sum_list rs \<and> sum_list rs \<le> b * real (length rs)"
    using assms(2) by (induction rs) (force simp: algebra_simps)+
  then show "a \<le> rmean rs" and "rmean rs \<le> b"
    using real_length_ge1 [OF assms(1)] assms(1)
    by (auto simp: rmean_def pos_le_divide_eq pos_divide_le_eq)
qed

text \<open>
  \<open>summarize\<close> orders its order statistics. On a non-empty sample of finite values the reported
  minimum and maximum are samples that bound every sample and the mean, the percentiles are
  ordered min, p50, p90, p95, p99, p99.9, max, and the median is the p50 field.
\<close>

theorem summarize_ordered:
  assumes "xs \<noteq> []" and "\<forall>x\<in>set xs. is_finite x"
  shows "sm_n (summarize xs) = length xs
       \<and> sm_min (summarize xs) \<in> set xs \<and> sm_max (summarize xs) \<in> set xs
       \<and> list_all (\<lambda>x. sm_min (summarize xs) \<le> x \<and> x \<le> sm_max (summarize xs)) xs
       \<and> sm_min (summarize xs) \<le> sm_mean (summarize xs)
       \<and> sm_mean (summarize xs) \<le> sm_max (summarize xs)
       \<and> sm_median (summarize xs) = sm_p50 (summarize xs)
       \<and> sorted [sm_min (summarize xs), sm_p50 (summarize xs), sm_p90 (summarize xs),
                 sm_p95 (summarize xs), sm_p99 (summarize xs), sm_p999 (summarize xs),
                 sm_max (summarize xs)]"
proof -
  obtain rs where xs: "xs = map Fin rs" using finite_list [OF assms(2)] .
  with assms(1) have ne: "rs \<noteq> []" and ne': "sort rs \<noteq> []" by auto
  let ?P = "\<lambda>p. percentile (map Fin (sort rs)) (Fin p)"
  have P: "?P p \<le> ?P q" if "0 \<le> p" "p \<le> q" "q \<le> 100" for p q
    using ne' that by (intro percentile_mono_Fin) auto
  have mn: "sm_min (summarize xs) = Fin (sort rs ! 0)"
    and mx: "sm_max (summarize xs) = Fin (sort rs ! (length rs - 1))"
    and me: "sm_mean (summarize xs) = Fin (rmean rs)"
    using ne by (simp_all add: xs summarize_def sort_Fin mean_Fin Let_def)
  have ps: "sm_p50 (summarize xs) = ?P 50" "sm_p90 (summarize xs) = ?P 90"
    "sm_p95 (summarize xs) = ?P 95" "sm_p99 (summarize xs) = ?P 99"
    "sm_p999 (summarize xs) = ?P (999 / 10)" "sm_median (summarize xs) = ?P 50"
    "sm_n (summarize xs) = length xs"
    using ne by (simp_all add: xs summarize_def sort_Fin Let_def)
  have ends: "Fin (sort rs ! 0) = ?P 0" "Fin (sort rs ! (length rs - 1)) = ?P 100"
    using ne' by simp_all
  have "sorted [?P 0, ?P 50, ?P 90, ?P 95, ?P 99, ?P (999 / 10), ?P 100]"
    by (simp add: P)
  moreover have "list_all (\<lambda>x. Fin (sort rs ! 0) \<le> x \<and> x \<le> Fin (sort rs ! (length rs - 1))) xs"
    using sort_range [of _ rs] by (auto simp: xs list_all_iff)
  moreover have "sort rs ! 0 \<le> rmean rs" "rmean rs \<le> sort rs ! (length rs - 1)"
    using rmean_range [OF ne] sort_range [of _ rs] by blast+
  moreover have "Fin (sort rs ! 0) \<in> set xs" "Fin (sort rs ! (length rs - 1)) \<in> set xs"
    using ne by (simp_all add: xs sort_nth_in)
  ultimately show ?thesis unfolding mn mx me ps by (simp only: ends) (simp add: ends [symmetric])
qed

lemma summarize_ordered_witness:
  "sorted [sm_min (summarize [Fin 3, Fin 1]), sm_p50 (summarize [Fin 3, Fin 1]),
     sm_p90 (summarize [Fin 3, Fin 1]), sm_p95 (summarize [Fin 3, Fin 1]),
     sm_p99 (summarize [Fin 3, Fin 1]), sm_p999 (summarize [Fin 3, Fin 1]),
     sm_max (summarize [Fin 3, Fin 1])]"
proof -
  have "\<forall>x\<in>set [Fin 3, Fin 1]. is_finite x" by (simp add: is_finite_def)
  then show ?thesis using summarize_ordered [of "[Fin 3, Fin 1]"] by blast
qed

text \<open>The interquartile core of a sorted sample of at least four values is never empty.\<close>

lemma quartile_core:
  assumes "4 \<le> length rs" and "k = nat \<lceil>(real (length rs) - 1) / 4\<rceil>"
  shows "k < length rs" and
    "percentile (map Fin (sort rs)) (Fin 25) \<le> Fin (sort rs ! k)" and
    "Fin (sort rs ! k) \<le> percentile (map Fin (sort rs)) (Fin 75)"
proof -
  define a where "a = (real (length rs) - 1) / 4"
  have a: "3 / 4 \<le> a" using assms(1) by (simp add: a_def)
  have k: "k = nat \<lceil>a\<rceil>" by (simp add: assms(2) a_def)
  have ka: "real k < a + 1" using a k by linarith
  have top: "4 * a = real (length rs) - 1" by (simp add: a_def)
  have ne: "sort rs \<noteq> []" using assms(1) by auto
  have len: "real (length (sort rs)) - 1 = 4 * a" by (simp add: top)
  have "real k < real (length rs)" using ka top a by linarith
  then show kl: "k < length rs" by simp
  have p25: "percentile (map Fin (sort rs)) (Fin 25) = Fin (interp_at (sort rs) a)"
    using percentile_Fin [OF ne, of 25] unfolding len by simp
  have p75: "percentile (map Fin (sort rs)) (Fin 75) = Fin (interp_at (sort rs) (3 * a))"
    using percentile_Fin [OF ne, of 75] unfolding len by simp
  have "interp_at (sort rs) a \<le> sort rs ! nat \<lceil>a\<rceil>"
    by (rule interp_bounds) (use a top in auto)
  then show "percentile (map Fin (sort rs)) (Fin 25) \<le> Fin (sort rs ! k)"
    by (simp add: p25 k)
  have "k \<le> nat \<lfloor>3 * a\<rfloor>" using ka a by linarith
  moreover have "nat \<lfloor>3 * a\<rfloor> < length (sort rs)" using top a by (simp only: length_sort) linarith
  ultimately have "sort rs ! k \<le> sort rs ! nat \<lfloor>3 * a\<rfloor>"
    by (intro sorted_nth_mono) auto
  also have "\<dots> \<le> interp_at (sort rs) (3 * a)"
    by (rule interp_bounds) (use a top in auto)
  finally show "Fin (sort rs ! k) \<le> percentile (map Fin (sort rs)) (Fin 75)"
    by (simp add: p75)
qed



lemma t_lookup_antitone:
  assumes "sorted_wrt (\<lambda>a b. fst a < fst b \<and> snd b \<le> snd a) tab"
    and "\<forall>e\<in>set tab. Fin (1960 / 1000) \<le> snd e" and "d \<le> d'"
  shows "t_lookup d' tab \<le> t_lookup d tab"
proof -
  have low: "t_lookup d' tab \<le> b" if "\<forall>e\<in>set tab. snd e \<le> b" "Fin (1960 / 1000) \<le> b" for b tab
    using that by (induction tab rule: t_lookup.induct) auto
  show ?thesis using assms(1,2)
  proof (induction tab)
    case Nil
    then show ?case by simp
  next
    case (Cons e tab)
    obtain c t where e: "e = (c, t)" by (cases e)
    have "t_lookup d' tab \<le> t" by (rule low) (use Cons.prems e in auto)
    with Cons e assms(3) show ?case by auto
  qed
qed

lemma t_table_order:
  "sorted_wrt (\<lambda>a b. fst a < fst b \<and> snd b \<le> snd a) t_table"
  "\<forall>e\<in>set t_table. Fin (1960 / 1000) \<le> snd e"
  "\<forall>e\<in>set t_table. snd e \<le> Fin (12706 / 1000)"
  by (simp_all add: t_table_def)

lemma t_lookup_range:
  assumes "\<forall>e\<in>set tab. b \<le> snd e" and "\<forall>e\<in>set tab. snd e \<le> c"
    and "b \<le> Fin (1960 / 1000)" and "Fin (1960 / 1000) \<le> c"
  shows "b \<le> t_lookup d tab \<and> t_lookup d tab \<le> c"
  using assms by (induction d tab rule: t_lookup.induct) auto

lemma t_value_range: "0 < d \<Longrightarrow> Fin (1960 / 1000) \<le> t_value_95 d \<and> t_value_95 d \<le> Fin (12706 / 1000)"
  unfolding t_value_95_def using t_lookup_range [OF t_table_order(2,3)] by simp

text \<open>
  The tabulated critical values are antitone: more degrees of freedom never give a wider
  interval, and every value lies between the normal limit 1.96 and the df = 1 value 12.706. The
  95% half-width is therefore never negative on finite samples.
\<close>

theorem t_value_antitone:
  assumes "0 < d" and "d \<le> d'"
  shows "t_value_95 d' \<le> t_value_95 d \<and> Fin (1960 / 1000) \<le> t_value_95 d'
       \<and> t_value_95 d \<le> Fin (12706 / 1000)
       \<and> (\<exists>r\<ge>0. ci95_halfwidth (map Fin rs) = Fin r)"
proof -
  have "t_value_95 d' \<le> t_value_95 d"
  proof (cases "120 \<le> d'")
    case True
    then have "t_value_95 d' = Fin (1960 / 1000)" by (simp add: t_value_95_def)
    with t_value_range [OF assms(1)] show ?thesis by simp
  next
    case False
    with assms show ?thesis
      using t_lookup_antitone [OF t_table_order(1,2) assms(2)] by (simp add: t_value_95_def)
  qed
  moreover have "\<exists>r\<ge>0. ci95_halfwidth (map Fin rs) = Fin r"
  proof (cases "length rs < 2")
    case True
    then show ?thesis by (auto simp: ci95_halfwidth_def f64_simps)
  next
    case False
    then have "0 < length rs - 1" by simp
    then obtain t where t: "t_value_95 (length rs - 1) = Fin t" "0 \<le> t"
      using t_value_range [of "length rs - 1"] by (cases "t_value_95 (length rs - 1)") auto
    have "ci95_halfwidth (map Fin rs)
        = Fin (t * sqrt (rvar rs) / sqrt (real (length rs)))"
    proof -
      have ne: "rs \<noteq> []" using False by auto
      show ?thesis using False t ne stddev_Fin [of rs]
        by (simp add: ci95_halfwidth_def f64_simps)
    qed
    moreover have "0 \<le> t * sqrt (rvar rs) / sqrt (real (length rs))"
      using False t rvar_nonneg [of rs] by simp
    ultimately show ?thesis by blast
  qed
  ultimately show ?thesis
    using assms t_value_range [of d] t_value_range [of d'] by simp
qed

lemma t_value_antitone_witness:
  "t_value_95 11 \<le> t_value_95 10 \<and> t_value_95 11 = Fin (2179 / 1000)"
  using t_value_antitone [of 10 11 "[]"] by (simp add: t_value_95_def t_table_def)

end
