(* ===== verification/Wire.thy ===== *)
theory Wire
  imports Seshat_Prelude
begin

text \<open>
  The on-wire message of \<open>src/src/proto/wire.rs\<close>: a 24-byte little-endian header and a payload that
  is a ramp determined by the sequence number. Slices that Rust would refuse to index (a panic) are
  \<open>None\<close>; decoding errors are \<open>Inl\<close> of a \<open>wire_error\<close>. The block-wise fill and verification against the
  512-byte table are kept as the loops of the source and proved equal to the byte-wise pattern.
\<close>

unbundle bit_operations_syntax

section \<open>Buffers\<close>

text \<open>\<open>buf[off..off + n].copy_from_slice(bytes)\<close>\<close>

definition blit :: "'a list \<Rightarrow> nat \<Rightarrow> 'a list \<Rightarrow> 'a list" where
  "blit buf off bs = take off buf @ bs @ drop (off + length bs) buf"

definition copy_slice :: "'a list \<Rightarrow> nat \<Rightarrow> 'a list \<Rightarrow> 'a list option" where
  "copy_slice buf off bs = (if off + length bs \<le> length buf then Some (blit buf off bs) else None)"

lemma length_blit [simp]: "off + length bs \<le> length buf \<Longrightarrow> length (blit buf off bs) = length buf"
  by (simp add: blit_def)

lemma nth_blit:
  assumes "off + length bs \<le> length buf" and "i < length buf"
  shows "blit buf off bs ! i
    = (if off \<le> i \<and> i < off + length bs then bs ! (i - off) else buf ! i)"
  using assms by (auto simp: blit_def nth_append min_def)

lemma take_blit: "n \<le> off \<Longrightarrow> off \<le> length buf \<Longrightarrow> take n (blit buf off bs) = take n buf"
  by (simp add: blit_def)

lemma drop_blit:
  "off + length bs \<le> length buf \<Longrightarrow> off + length bs \<le> n
    \<Longrightarrow> drop n (blit buf off bs) = drop n buf"
  by (simp add: blit_def min_def)

lemma subslice_blit:
  "off + length bs \<le> length buf \<Longrightarrow> take (length bs) (drop off (blit buf off bs)) = bs"
  by (simp add: blit_def)

section \<open>Header\<close>

definition MAGIC :: "u8 list" where
  "MAGIC = [0x53, 0x45, 0x53, 0x48]"

definition HEADER_LEN :: nat where
  "HEADER_LEN = 24"

datatype wire_error =
    ShortHeader nat
  | BadMagic "u8 list"
  | TruncatedPayload nat nat
  | CorruptPayload nat

record wire_header =
  wh_seq :: u64
  wh_ts_ns :: u64
  wh_payload_len :: u32

definition stamp_at :: "u64 \<Rightarrow> u32 \<Rightarrow> u64 \<Rightarrow> wire_header" where
  "stamp_at seq payload_len ts_ns =
     \<lparr>wh_seq = seq, wh_ts_ns = ts_ns, wh_payload_len = payload_len\<rparr>"

text \<open>\<open>stamp\<close> reads the monotonic clock, here the value \<open>now\<close> the clock returns.\<close>

definition stamp :: "u64 \<Rightarrow> u32 \<Rightarrow> u64 \<Rightarrow> wire_header" where
  "stamp seq payload_len now = stamp_at seq payload_len now"

definition encode :: "wire_header \<Rightarrow> u8 list \<Rightarrow> (u8 list \<times> nat) option" where
  "encode h buf =
     Option.bind (copy_slice buf 0 MAGIC) (\<lambda>b1.
     Option.bind (copy_slice b1 4 (to_le_bytes 8 (wh_seq h))) (\<lambda>b2.
     Option.bind (copy_slice b2 12 (to_le_bytes 8 (wh_ts_ns h))) (\<lambda>b3.
     Option.bind (copy_slice b3 20 (to_le_bytes 4 (wh_payload_len h))) (\<lambda>b4.
     Some (b4, HEADER_LEN)))))"

definition subslice :: "'a list \<Rightarrow> nat \<Rightarrow> nat \<Rightarrow> 'a list" where
  "subslice buf a b = take (b - a) (drop a buf)"

definition decode :: "u8 list \<Rightarrow> wire_error + wire_header" where
  "decode buf =
     (if length buf < HEADER_LEN then Inl (ShortHeader (length buf))
      else let magic = subslice buf 0 4 in
        if magic \<noteq> MAGIC then Inl (BadMagic magic)
        else Inr \<lparr>wh_seq = from_le_bytes (subslice buf 4 12),
                  wh_ts_ns = from_le_bytes (subslice buf 12 20),
                  wh_payload_len = from_le_bytes (subslice buf 20 24)\<rparr>)"

section \<open>Payload\<close>

definition fill_byte :: "u64 \<Rightarrow> nat \<Rightarrow> u8" where
  "fill_byte seq i = ucast ((seq + of_nat i) AND 0xff)"

definition RAMP :: "u8 list" where
  "RAMP = map (\<lambda>k. of_nat (k mod 256)) [0..<512]"

function fill_loop :: "nat \<Rightarrow> nat \<Rightarrow> u8 list \<Rightarrow> u8 list" where
  "fill_loop off pos payload =
     (if pos < length payload
      then let n = min (length payload - pos) 256
           in fill_loop off (pos + n) (blit payload pos (subslice RAMP off (off + n)))
      else payload)"
  by pat_completeness auto
termination
  by (relation "measure (\<lambda>(off, pos, payload). length payload - pos)")
     (auto simp: blit_def subslice_def RAMP_def min_def)

definition fill_payload :: "u64 \<Rightarrow> u8 list \<Rightarrow> u8 list" where
  "fill_payload seq payload = fill_loop (unat (seq AND 0xff)) 0 payload"

function verify_loop :: "nat \<Rightarrow> nat \<Rightarrow> u8 list \<Rightarrow> wire_error + unit" where
  "verify_loop off pos payload =
     (if pos < length payload
      then let n = min (length payload - pos) 256;
               block = subslice payload pos (pos + n)
           in if block \<noteq> subslice RAMP off (off + n)
              then (case find (\<lambda>i. block ! i \<noteq> RAMP ! (off + i)) [0..<length block] of
                      Some i \<Rightarrow> Inl (CorruptPayload (pos + i))
                    | None \<Rightarrow> verify_loop off (pos + n) payload)
              else verify_loop off (pos + n) payload
      else Inr ())"
  by pat_completeness auto
termination
  by (relation "measure (\<lambda>(off, pos, payload). length payload - pos)") auto

definition verify_payload :: "u64 \<Rightarrow> u8 list \<Rightarrow> wire_error + unit" where
  "verify_payload seq payload = verify_loop (unat (seq AND 0xff)) 0 payload"

declare fill_loop.simps [simp del] verify_loop.simps [simp del]

section \<open>Messages\<close>

definition encode_message_at ::
  "u64 \<Rightarrow> u32 \<Rightarrow> u64 \<Rightarrow> u8 list \<Rightarrow> (u8 list \<times> nat) option" where
  "encode_message_at seq payload_len ts_ns buf =
     (let total = HEADER_LEN + unat payload_len
      in Option.bind (encode (stamp_at seq payload_len ts_ns) buf) (\<lambda>(b, _).
         if total \<le> length b
         then Some (blit b HEADER_LEN (fill_payload seq (subslice b HEADER_LEN total)), total)
         else None))"

definition encode_message :: "u64 \<Rightarrow> u32 \<Rightarrow> u64 \<Rightarrow> u8 list \<Rightarrow> (u8 list \<times> nat) option" where
  "encode_message seq payload_len now buf = encode_message_at seq payload_len now buf"

definition decode_message :: "u8 list \<Rightarrow> wire_error + wire_header" where
  "decode_message buf =
     (case decode buf of
        Inl e \<Rightarrow> Inl e
      | Inr hdr \<Rightarrow>
          let need = HEADER_LEN + unat (wh_payload_len hdr)
          in if length buf < need then Inl (TruncatedPayload need (length buf))
             else (case verify_payload (wh_seq hdr) (subslice buf HEADER_LEN need) of
                     Inl e \<Rightarrow> Inl e
                   | Inr _ \<Rightarrow> Inr hdr))"

section \<open>The header's byte layout\<close>

definition header_bytes :: "wire_header \<Rightarrow> u8 list" where
  "header_bytes h = MAGIC @ to_le_bytes 8 (wh_seq h) @ to_le_bytes 8 (wh_ts_ns h)
     @ to_le_bytes 4 (wh_payload_len h)"

lemma length_MAGIC [simp]: "length MAGIC = 4"
  by (simp add: MAGIC_def)

lemma length_header_bytes [simp]: "length (header_bytes h) = HEADER_LEN"
  by (simp add: header_bytes_def HEADER_LEN_def)

lemma length_subslice [simp]: "length (subslice buf a b) = min (b - a) (length buf - a)"
  by (simp add: subslice_def)

lemma nth_subslice: "i < b - a \<Longrightarrow> a + i < length buf \<Longrightarrow> subslice buf a b ! i = buf ! (a + i)"
  by (simp add: subslice_def)

lemma subslice_append: "b \<le> length buf \<Longrightarrow> subslice (buf @ rest) a b = subslice buf a b"
  by (cases "a \<le> b") (auto simp: subslice_def)

lemma encode_eq:
  "encode h buf =
     (if HEADER_LEN \<le> length buf then Some (header_bytes h @ drop HEADER_LEN buf, HEADER_LEN)
      else None)"
proof (cases "HEADER_LEN \<le> length buf")
  case True
  then show ?thesis
    by (simp add: encode_def copy_slice_def blit_def header_bytes_def HEADER_LEN_def drop_Cons')
next
  case False
  then show ?thesis
    by (auto simp: encode_def copy_slice_def HEADER_LEN_def bind_eq_None_conv blit_def
        split: if_splits)
qed

lemma decode_header_bytes: "decode (header_bytes h @ rest) = Inr h"
  by (simp add: decode_def header_bytes_def HEADER_LEN_def subslice_def from_to_le_bytes drop_Cons')

lemma decode_Inr:
  assumes "decode buf = Inr h"
  shows "HEADER_LEN \<le> length buf \<and> take HEADER_LEN buf = header_bytes h"
proof -
  have len: "24 \<le> length buf" and magic: "subslice buf 0 4 = MAGIC"
    and h: "h = \<lparr>wh_seq = from_le_bytes (subslice buf 4 12),
      wh_ts_ns = from_le_bytes (subslice buf 12 20),
      wh_payload_len = from_le_bytes (subslice buf 20 24)\<rparr>"
    using assms by (auto simp: decode_def HEADER_LEN_def Let_def split: if_splits)
  have "take 24 buf = subslice buf 0 4 @ subslice buf 4 12 @ subslice buf 12 20 @ subslice buf 20 24"
  proof -
    have "take 24 buf = take 4 buf @ take 20 (drop 4 buf)"
      using take_add [of 4 20 buf] by simp
    also have "take 20 (drop 4 buf) = take 8 (drop 4 buf) @ take 12 (drop 12 buf)"
      using take_add [of 8 12 "drop 4 buf"] by simp
    also have "take 12 (drop 12 buf) = take 8 (drop 12 buf) @ take 4 (drop 20 buf)"
      using take_add [of 8 4 "drop 12 buf"] by simp
    finally show ?thesis by (simp add: subslice_def)
  qed
  also have "\<dots> = header_bytes h"
    using len by (simp add: header_bytes_def h magic to_from_le_bytes)
  finally show ?thesis using len by (simp add: HEADER_LEN_def)
qed

lemma decode_append: "HEADER_LEN \<le> length buf \<Longrightarrow> decode (buf @ rest) = decode buf"
proof -
  assume "HEADER_LEN \<le> length buf"
  then have "24 \<le> length buf" by (simp add: HEADER_LEN_def)
  then have "4 \<le> length buf" "12 \<le> length buf" "20 \<le> length buf" by linarith+
  with \<open>24 \<le> length buf\<close> show ?thesis
    by (simp add: decode_def HEADER_LEN_def subslice_append Let_def)
qed

section \<open>The block-wise payload routines equal the byte-wise pattern\<close>

definition pattern :: "u64 \<Rightarrow> nat \<Rightarrow> u8 list" where
  "pattern seq n = map (fill_byte seq) [0..<n]"

lemma length_pattern [simp]: "length (pattern seq n) = n"
  by (simp add: pattern_def)

lemma nth_pattern [simp]: "i < n \<Longrightarrow> pattern seq n ! i = fill_byte seq i"
  by (simp add: pattern_def)

lemma unat_and_0xff: "unat ((w :: u64) AND 0xff) = unat w mod 256"
proof -
  have "w AND 0xff = take_bit 8 w" by (simp add: take_bit_eq_mask mask_eq_exp_minus_1)
  then have "unat (w AND 0xff) = take_bit 8 (unat w)" by (simp only: unsigned_take_bit_eq)
  then show ?thesis by (simp add: take_bit_eq_mod)
qed

lemma unat_byte_of_nat: "unat (of_nat n :: u8) = n mod 256"
  by (simp add: unat_of_nat)

lemma unat_fill_byte: "unat (fill_byte seq i) = (unat seq + i) mod 256"
proof -
  have "unat (fill_byte seq i) = unat (seq + of_nat i) mod 256"
    by (simp add: fill_byte_def unsigned_ucast_eq take_bit_eq_mod unat_and_0xff)
  also have "\<dots> = (unat seq + i) mod 256"
    by (simp add: unat_word_ariths unat_of_nat mod_simps mod_mod_cancel)
  finally show ?thesis .
qed

lemma byte_of_nat_eqI: "m mod 256 = n mod 256 \<Longrightarrow> (of_nat m :: u8) = of_nat n"
  by (rule word_unat_eq_iff [THEN iffD2]) (simp only: unat_byte_of_nat)

lemma fill_byte_period: "fill_byte seq i = of_nat (unat (seq AND 0xff) + i)"
  by (rule word_unat_eq_iff [THEN iffD2])
    (simp only: unat_fill_byte unat_byte_of_nat unat_and_0xff mod_simps)

lemma of_nat_byte_period: "p mod 256 = 0 \<Longrightarrow> (of_nat (k + p) :: u8) = of_nat k"
  by (rule byte_of_nat_eqI) (simp add: mod_add_right_eq [symmetric])

lemma subslice_RAMP:
  assumes "off < 256" and "n \<le> 256"
  shows "subslice RAMP off (off + n) = map (\<lambda>i. of_nat (off + i)) [0..<n]"
proof (rule nth_equalityI)
  show "length (subslice RAMP off (off + n)) = length (map (\<lambda>i. of_nat (off + i) :: u8) [0..<n])"
    using assms by (simp add: RAMP_def)
  fix i
  assume "i < length (subslice RAMP off (off + n))"
  then have i: "i < n" using assms by simp
  then show "subslice RAMP off (off + n) ! i = map (\<lambda>i. of_nat (off + i)) [0..<n] ! i"
    using assms
    by (simp add: nth_subslice RAMP_def del: of_nat_add)
      (rule word_unat_eq_iff [THEN iffD2], simp add: unat_byte_of_nat del: of_nat_add)
qed

lemma fill_loop_eq:
  assumes "off < 256" and "pos mod 256 = 0" and "pos \<le> length p"
  shows "fill_loop off pos p = take pos p @ map (\<lambda>i. of_nat (off + i)) [pos..<length p]"
  using assms
proof (induction off pos p rule: fill_loop.induct)
  case (1 off pos p)
  show ?case
  proof (cases "pos < length p")
    case False
    then show ?thesis using "1.prems" by (subst fill_loop.simps) simp
  next
    case True
    define n where "n = min (length p - pos) 256"
    define q where "q = blit p pos (subslice RAMP off (off + n))"
    have n: "0 < n" "n \<le> 256" "pos + n \<le> length p" using True by (auto simp: n_def)
    have blk: "subslice RAMP off (off + n) = map (\<lambda>i. of_nat (off + (pos + i))) [0..<n]"
    proof -
      have "(of_nat (off + i) :: u8) = of_nat (off + (pos + i))" for i
        using of_nat_byte_period [OF "1.prems"(2), of "off + i"] by (simp add: ac_simps)
      then have "map (\<lambda>i. of_nat (off + i) :: u8) [0..<n]
          = map (\<lambda>i. of_nat (off + (pos + i))) [0..<n]"
        by (intro map_cong refl)
      with subslice_RAMP [OF "1.prems"(1) n(2)] show ?thesis by (rule trans)
    qed
    have len_q: "length q = length p"
      unfolding q_def by (rule length_blit) (simp add: blk n(3))
    have take_q: "take (pos + n) q = take pos p @ map (\<lambda>i. of_nat (off + i)) [pos..<pos + n]"
    proof -
      have "map (\<lambda>i. of_nat (off + (pos + i)) :: u8) [0..<n]
          = map (\<lambda>i. of_nat (off + i)) [pos..<pos + n]"
        by (rule nth_equalityI) (auto simp del: of_nat_add)
      then show ?thesis using n(3) by (simp add: q_def blit_def blk del: of_nat_add)
    qed
    have unf: "fill_loop off pos p = fill_loop off (pos + n) q"
      using True by (subst fill_loop.simps) (simp only: n_def q_def Let_def if_True)
    show ?thesis
    proof (cases "n = 256")
      case True
      then have "(pos + n) mod 256 = 0" using "1.prems"(2) by simp
      then have "fill_loop off (pos + n) q
          = take (pos + n) q @ map (\<lambda>i. of_nat (off + i)) [pos + n..<length q]"
        using "1.IH" [OF \<open>pos < length p\<close> refl] "1.prems"(1) n(3) len_q
        by (simp add: n_def q_def del: of_nat_add)
      moreover have "[pos..<length p] = [pos..<pos + n] @ [pos + n..<length p]"
        using n(3) upt_add_eq_append [of pos "pos + n" "length p - (pos + n)"] by simp
      ultimately show ?thesis
        by (simp only: unf take_q len_q map_append append_assoc)
    next
      case False
      then have "pos + n = length p" using n by (simp add: n_def min_def split: if_splits)
      then have "fill_loop off (pos + n) q = q" using len_q by (subst fill_loop.simps) simp
      moreover have "q = take (pos + n) q" using \<open>pos + n = length p\<close> len_q by simp
      ultimately show ?thesis using take_q \<open>pos + n = length p\<close> by (simp add: unf)
    qed
  qed
qed

lemma fill_payload_pattern: "fill_payload seq p = pattern seq (length p)"
proof -
  have "unat (seq AND 0xff) < 256" by (simp add: unat_and_0xff)
  then show ?thesis
    by (simp add: fill_payload_def fill_loop_eq pattern_def fill_byte_period del: of_nat_add)
qed


lemma find_append:
  "find P (xs @ ys) = (case find P xs of None \<Rightarrow> find P ys | Some x \<Rightarrow> Some x)"
  by (induction xs) auto

lemma find_map: "find P (map f xs) = map_option f (find (\<lambda>x. P (f x)) xs)"
  by (induction xs) auto

lemma find_cong: "(\<And>x. x \<in> set xs \<Longrightarrow> P x = Q x) \<Longrightarrow> find P xs = find Q xs"
  by (induction xs) auto

lemma upt_shift: "[pos..<pos + n] = map (\<lambda>i. pos + i) [0..<n]"
  by (rule nth_equalityI) auto

definition mismatch_result :: "nat option \<Rightarrow> wire_error + unit" where
  "mismatch_result m = (case m of Some i \<Rightarrow> Inl (CorruptPayload i) | None \<Rightarrow> Inr ())"

lemma verify_loop_eq:
  assumes "off < 256" and "pos mod 256 = 0" and "pos \<le> length p"
  shows "verify_loop off pos p
    = mismatch_result (find (\<lambda>i. p ! i \<noteq> of_nat (off + i)) [pos..<length p])"
  using assms
proof (induction off pos p rule: verify_loop.induct)
  case (1 off pos p)
  show ?case
  proof (cases "pos < length p")
    case False
    then show ?thesis by (subst verify_loop.simps) (simp add: mismatch_result_def)
  next
    case True
    define n where "n = min (length p - pos) 256"
    define blk where "blk = subslice p pos (pos + n)"
    define R where "R = subslice RAMP off (off + n)"
    define m where "m = find (\<lambda>i. blk ! i \<noteq> RAMP ! (off + i)) [0..<n]"
    have n: "0 < n" "n \<le> 256" "pos + n \<le> length p" using True by (auto simp: n_def)
    have len: "length blk = n" "length R = n"
      using n "1.prems"(1) by (simp_all add: blk_def R_def RAMP_def)
    have blk_nth: "blk ! i = p ! (pos + i)" if "i < n" for i
      using that n by (simp add: blk_def nth_subslice)
    have R_nth: "R ! i = RAMP ! (off + i)" if "i < n" for i
      using that n "1.prems"(1) by (simp add: R_def nth_subslice RAMP_def)
    have R_val: "R ! i = of_nat (off + (pos + i))" if "i < n" for i
    proof -
      have "R = map (\<lambda>i. of_nat (off + i)) [0..<n]"
        unfolding R_def by (rule subslice_RAMP [OF "1.prems"(1) n(2)])
      then have "R ! i = of_nat (off + i)" using that by (simp del: of_nat_add)
      also have "\<dots> = of_nat (off + i + pos)"
        by (rule of_nat_byte_period [OF "1.prems"(2), symmetric])
      finally show ?thesis by (simp only: ac_simps)
    qed
    have first: "find (\<lambda>i. p ! i \<noteq> of_nat (off + i)) [pos..<pos + n] = map_option (\<lambda>i. pos + i) m"
    proof -
      have "find (\<lambda>i. p ! (pos + i) \<noteq> of_nat (off + (pos + i))) [0..<n] = m"
        unfolding m_def by (rule find_cong) (use blk_nth R_nth R_val in auto)
      then show ?thesis by (simp only: upt_shift find_map)
    qed
    have split: "[pos..<length p] = [pos..<pos + n] @ [pos + n..<length p]"
      using n(3) upt_add_eq_append [of pos "pos + n" "length p - (pos + n)"] by simp
    have rest: "verify_loop off (pos + n) p
        = mismatch_result (find (\<lambda>i. p ! i \<noteq> of_nat (off + i)) [pos + n..<length p])"
      if eq: "blk = R \<or> m = None"
    proof (cases "n = 256")
      case True
      then have "(pos + n) mod 256 = 0" using "1.prems"(2) by simp
      then show ?thesis
        using "1.IH" [OF \<open>pos < length p\<close> n_def blk_def] eq n(3) "1.prems"(1) len
        by (fold R_def) (auto simp: m_def del: of_nat_add)
    next
      case False
      then have "pos + n = length p" using n by (simp add: n_def min_def split: if_splits)
      then show ?thesis by (subst verify_loop.simps) (simp add: mismatch_result_def)
    qed
    have unf: "verify_loop off pos p
        = (if blk \<noteq> R then (case m of Some i \<Rightarrow> Inl (CorruptPayload (pos + i))
             | None \<Rightarrow> verify_loop off (pos + n) p) else verify_loop off (pos + n) p)"
      using True len
      by (subst verify_loop.simps) (simp only: n_def [symmetric] blk_def [symmetric]
          R_def [symmetric] m_def Let_def if_True)
    show ?thesis
    proof (cases m)
      case None
      then show ?thesis using rest by (simp add: unf split find_append first del: of_nat_add)
    next
      case (Some i)
      have "blk \<noteq> R"
      proof
        assume "blk = R"
        then have "m = None" unfolding m_def using R_nth by (auto simp: find_None_iff)
        with Some show False by simp
      qed
      then show ?thesis
        by (simp add: unf Some split find_append first mismatch_result_def del: of_nat_add)
    qed
  qed
qed

text \<open>\<open>verify_payload\<close> reports exactly the first byte that differs from the pattern.\<close>

lemma verify_payload_eq:
  "verify_payload seq p = mismatch_result (find (\<lambda>i. p ! i \<noteq> fill_byte seq i) [0..<length p])"
proof -
  have "unat (seq AND 0xff) < 256" by (simp add: unat_and_0xff)
  then show ?thesis
    by (simp add: verify_payload_def verify_loop_eq fill_byte_period del: of_nat_add)
qed

lemma verify_payload_ok_iff: "verify_payload seq p = Inr () \<longleftrightarrow> p = pattern seq (length p)"
proof -
  have "verify_payload seq p = Inr () \<longleftrightarrow> (\<forall>i < length p. p ! i = fill_byte seq i)"
    by (auto simp: verify_payload_eq mismatch_result_def find_None_iff find_Some_iff
        split: option.splits)
  also have "\<dots> \<longleftrightarrow> p = pattern seq (length p)"
    by (auto intro: nth_equalityI) (metis nth_pattern)
  finally show ?thesis .
qed


section \<open>Messages: round trip, rejection, agreement with the encoder\<close>

text \<open>The bytes of a whole message.\<close>

definition message_bytes :: "wire_header \<Rightarrow> u8 list" where
  "message_bytes h = header_bytes h @ pattern (wh_seq h) (unat (wh_payload_len h))"

lemma length_message_bytes [simp]:
  "length (message_bytes h) = HEADER_LEN + unat (wh_payload_len h)"
  by (simp add: message_bytes_def)

lemma encode_message_at_eq:
  "encode_message_at seq n ts buf =
     (if HEADER_LEN + unat n \<le> length buf
      then Some (message_bytes (stamp_at seq n ts) @ drop (HEADER_LEN + unat n) buf,
                 HEADER_LEN + unat n)
      else None)"
proof (cases "HEADER_LEN + unat n \<le> length buf")
  case True
  then show ?thesis
    by (simp add: encode_message_at_def encode_eq fill_payload_pattern blit_def message_bytes_def
        stamp_at_def add.commute Let_def)
next
  case False
  then show ?thesis
    by (auto simp: encode_message_at_def encode_eq Let_def bind_eq_None_conv split: if_splits)
qed

lemma decode_message_bytes: "decode_message (message_bytes h @ rest) = Inr h"
proof -
  have "subslice (message_bytes h @ rest) HEADER_LEN (HEADER_LEN + unat (wh_payload_len h))
      = pattern (wh_seq h) (unat (wh_payload_len h))"
    by (simp add: subslice_def message_bytes_def)
  moreover have "verify_payload (wh_seq h) (pattern (wh_seq h) (unat (wh_payload_len h))) = Inr ()"
    by (simp add: verify_payload_ok_iff)
  moreover have "decode (message_bytes h @ rest) = Inr h"
    by (simp add: message_bytes_def decode_header_bytes)
  ultimately show ?thesis by (simp add: decode_message_def)
qed

lemma decode_message_Inr:
  assumes "decode_message buf = Inr h"
  shows "\<exists>rest. buf = message_bytes h @ rest"
proof -
  have dec: "decode buf = Inr h" and len: "HEADER_LEN + unat (wh_payload_len h) \<le> length buf"
    and ver: "verify_payload (wh_seq h)
      (subslice buf HEADER_LEN (HEADER_LEN + unat (wh_payload_len h))) = Inr ()"
    using assms by (auto simp: decode_message_def Let_def split: sum.splits if_splits)
  have "take HEADER_LEN buf = header_bytes h" using decode_Inr [OF dec] by simp
  moreover have "take (unat (wh_payload_len h)) (drop HEADER_LEN buf)
      = pattern (wh_seq h) (unat (wh_payload_len h))"
    using ver len by (simp add: verify_payload_ok_iff subslice_def)
  ultimately have "take (HEADER_LEN + unat (wh_payload_len h)) buf = message_bytes h"
    by (simp add: take_add message_bytes_def)
  then have "buf = message_bytes h @ drop (HEADER_LEN + unat (wh_payload_len h)) buf"
    by (metis append_take_drop_id)
  then show ?thesis by blast
qed

lemma message_bytes_inj: "message_bytes h @ r = message_bytes h' @ r' \<Longrightarrow> h = h' \<and> r = r'"
proof -
  assume eq: "message_bytes h @ r = message_bytes h' @ r'"
  then have "Inr h = (Inr h' :: wire_error + wire_header)"
    by (metis decode_message_bytes)
  with eq show ?thesis by simp
qed

lemma stamp_at_fields: "stamp_at (wh_seq h) (wh_payload_len h) (wh_ts_ns h) = h"
  by (cases h) (simp add: stamp_at_def)

text \<open>
  C7: a message encoded into any buffer that holds it is decoded, with its sequence number,
  timestamp and length intact, from the bytes reported as written, whatever follows them; the
  buffer keeps its length and the bytes behind the message are untouched.
\<close>

theorem message_round_trip:
  assumes "HEADER_LEN + unat n \<le> length buf"
  shows "\<exists>buf'. encode_message_at seq n ts buf = Some (buf', HEADER_LEN + unat n)
    \<and> length buf' = length buf
    \<and> drop (HEADER_LEN + unat n) buf' = drop (HEADER_LEN + unat n) buf
    \<and> decode_message buf' = Inr (stamp_at seq n ts)
    \<and> decode_message (take (HEADER_LEN + unat n) buf') = Inr (stamp_at seq n ts)"
proof -
  let ?h = "stamp_at seq n ts"
  let ?buf' = "message_bytes ?h @ drop (HEADER_LEN + unat n) buf"
  have len: "length (message_bytes ?h) = HEADER_LEN + unat n" by (simp add: stamp_at_def)
  have "encode_message_at seq n ts buf = Some (?buf', HEADER_LEN + unat n)"
    using assms by (simp add: encode_message_at_eq)
  moreover have "length ?buf' = length buf" using assms len by simp
  moreover have "drop (HEADER_LEN + unat n) ?buf' = drop (HEADER_LEN + unat n) buf"
    using len by simp
  moreover have "decode_message ?buf' = Inr ?h" by (rule decode_message_bytes)
  moreover have "decode_message (take (HEADER_LEN + unat n) ?buf') = Inr ?h"
    using decode_message_bytes [of ?h "[]"] len by simp
  ultimately show ?thesis by blast
qed

theorem message_round_trip_witness:
  "\<exists>buf'. encode_message_at 7 2 99 (replicate 30 0) = Some (buf', 26) \<and> length buf' = 30
    \<and> decode_message buf' = Inr (stamp_at 7 2 99)"
  using message_round_trip [of 2 "replicate 30 0" 7 99] by (auto simp: HEADER_LEN_def)

text \<open>
  C8: the decoder accepts nothing the encoder does not produce: whenever a buffer decodes to a
  header, encoding that header into the buffer leaves every byte of it unchanged.
\<close>

theorem decode_message_sound:
  assumes "decode_message buf = Inr h"
  shows "encode_message_at (wh_seq h) (wh_payload_len h) (wh_ts_ns h) buf
    = Some (buf, HEADER_LEN + unat (wh_payload_len h))"
proof -
  obtain rest where "buf = message_bytes h @ rest" using decode_message_Inr [OF assms] by blast
  then show ?thesis by (simp add: encode_message_at_eq stamp_at_fields)
qed

theorem decode_message_sound_witness:
  "encode_message_at 5 1 3 (message_bytes (stamp_at 5 1 3) @ [9])
    = Some (message_bytes (stamp_at 5 1 3) @ [9], 25)"
  using decode_message_sound [OF decode_message_bytes [of "stamp_at 5 1 3" "[9]"]]
  by (simp add: stamp_at_def HEADER_LEN_def)

text \<open>
  C27: corruption is detected at its exact place: overwriting payload byte \<open>i\<close> of a well-formed
  message with any other value makes the decoder report a corrupt payload at offset \<open>i\<close>.
\<close>

theorem payload_tamper_detected:
  assumes "i < unat (wh_payload_len h)" and "b \<noteq> fill_byte (wh_seq h) i"
  shows "decode_message ((message_bytes h @ rest)[HEADER_LEN + i := b]) = Inl (CorruptPayload i)"
proof -
  let ?n = "unat (wh_payload_len h)" and ?p = "(pattern (wh_seq h) (unat (wh_payload_len h)))[i := b]"
  have buf: "(message_bytes h @ rest)[HEADER_LEN + i := b] = header_bytes h @ ?p @ rest"
    using assms(1) by (simp add: message_bytes_def list_update_append)
  have "find (\<lambda>j. ?p ! j \<noteq> fill_byte (wh_seq h) j) [0..<?n] = Some i"
    unfolding find_Some_iff using assms by (intro exI [of _ i]) auto
  then have "verify_payload (wh_seq h) ?p = Inl (CorruptPayload i)"
    by (simp add: verify_payload_eq mismatch_result_def)
  then show ?thesis
    by (simp add: buf decode_message_def decode_header_bytes subslice_def)
qed

theorem payload_tamper_detected_witness:
  "decode_message ((message_bytes (stamp_at 7 2 99) @ [])[HEADER_LEN + 1 := 0])
    = Inl (CorruptPayload 1)"
  by (rule payload_tamper_detected) (simp_all add: stamp_at_def fill_byte_def)

end
