(* ===== verification/App_Metrics.thy ===== *)
theory App_Metrics
  imports Stats Wire
begin

text \<open>
  Application metrics, \<open>src/src/metrics/app.rs\<close>, and the receiver step that feeds them,
  \<open>src/src/workload/receiver.rs\<close>: rates, sequence integrity (loss, duplicates, reordering), jitter,
  the per-flow accumulator \<open>FlowMetrics\<close>, its summary and the aggregation of several flows.
  Counters are \<open>u64\<close> words and wrap as in the release build.
\<close>

section \<open>Rates\<close>

definition throughput_gbps :: "u64 \<Rightarrow> f64 \<Rightarrow> f64" where
  "throughput_gbps bytes secs =
     (if fle secs 0 then 0 else (f_of_word bytes * Fin 8) / Fin (10 ^ 9) / secs)"

definition message_rate :: "u64 \<Rightarrow> f64 \<Rightarrow> f64" where
  "message_rate messages secs = (if fle secs 0 then 0 else f_of_word messages / secs)"

section \<open>Sequence integrity\<close>

record integ =
  ig_received :: u64
  ig_distinct :: u64
  ig_lost :: u64
  ig_duplicate :: u64
  ig_reordered :: u64

definition integ_default :: integ where
  "integ_default = \<lparr>ig_received = 0, ig_distinct = 0, ig_lost = 0, ig_duplicate = 0,
     ig_reordered = 0\<rparr>"

record integ_scan =
  sc_seen :: "u64 set"
  sc_min :: u64
  sc_max :: u64
  sc_reordered :: u64
  sc_prev :: u64

text \<open>The body of the scan over \<open>seqs.iter().enumerate()\<close>; the first element has no predecessor.\<close>

definition integ_step :: "nat \<times> u64 \<Rightarrow> integ_scan \<Rightarrow> integ_scan" where
  "integ_step is sc = (case is of (i, s) \<Rightarrow>
     \<lparr>sc_seen = insert s (sc_seen sc), sc_min = min (sc_min sc) s, sc_max = max (sc_max sc) s,
      sc_reordered = (if 0 < i \<and> s < sc_prev sc then sc_reordered sc + 1 else sc_reordered sc),
      sc_prev = s\<rparr>)"

definition integrity :: "u64 list \<Rightarrow> integ" where
  "integrity seqs =
     (if seqs = [] then integ_default
      else
        let sc = fold integ_step (enumerate 0 seqs)
               \<lparr>sc_seen = {}, sc_min = - 1, sc_max = 0, sc_reordered = 0, sc_prev = seqs ! 0\<rparr>;
            received = of_nat (length seqs);
            distinct = of_nat (card (sc_seen sc));
            span = sc_max sc - sc_min sc + 1;
            lost = sat_sub span distinct;
            duplicate = received - distinct
        in \<lparr>ig_received = received, ig_distinct = distinct, ig_lost = lost,
            ig_duplicate = duplicate, ig_reordered = sc_reordered sc\<rparr>)"

section \<open>Jitter\<close>

fun windows2 :: "'a list \<Rightarrow> ('a \<times> 'a) list" where
  "windows2 (a # b # xs) = (a, b) # windows2 (b # xs)"
| "windows2 _ = []"

definition jitter :: "f64 list \<Rightarrow> f64" where
  "jitter latencies =
     (if length latencies < 2 then 0
      else foldl (\<lambda>acc w. acc + fabs (snd w - fst w)) 0 (windows2 latencies)
           / f_of_nat (length latencies - 1))"

section \<open>The per-flow accumulator\<close>

record flow_metrics =
  fm_latencies_us :: "f64 list"
  fm_seqs :: "u64 list"
  fm_bytes :: u64
  fm_integrity_failures :: u64
  fm_boundary_violations :: u64
  fm_duration_s :: f64

definition flow_new :: flow_metrics where
  "flow_new = \<lparr>fm_latencies_us = [], fm_seqs = [], fm_bytes = 0, fm_integrity_failures = 0,
     fm_boundary_violations = 0, fm_duration_s = 0\<rparr>"

definition record_msg :: "u64 \<Rightarrow> u64 \<Rightarrow> u64 \<Rightarrow> flow_metrics \<Rightarrow> flow_metrics" where
  "record_msg seq latency_ns wire_bytes m =
     m\<lparr>fm_seqs := fm_seqs m @ [seq],
       fm_latencies_us := fm_latencies_us m @ [f_of_word latency_ns / Fin 1000],
       fm_bytes := fm_bytes m + wire_bytes\<rparr>"

definition record_integrity_failure :: "flow_metrics \<Rightarrow> flow_metrics" where
  "record_integrity_failure m = m\<lparr>fm_integrity_failures := fm_integrity_failures m + 1\<rparr>"

definition record_boundary_violation :: "flow_metrics \<Rightarrow> flow_metrics" where
  "record_boundary_violation m = m\<lparr>fm_boundary_violations := fm_boundary_violations m + 1\<rparr>"

definition set_duration :: "f64 \<Rightarrow> flow_metrics \<Rightarrow> flow_metrics" where
  "set_duration secs m = m\<lparr>fm_duration_s := secs\<rparr>"

record flow_summary =
  fs_messages :: u64
  fs_bytes :: u64
  fs_duration_s :: f64
  fs_throughput_gbps :: f64
  fs_message_rate :: f64
  fs_latency_us :: summary
  fs_jitter_us :: f64
  fs_integrity :: integ
  fs_integrity_failures :: u64
  fs_boundary_violations :: u64
  fs_loss_pct :: f64
  fs_outliers_removed :: nat

definition finish :: "flow_metrics \<Rightarrow> bool \<Rightarrow> flow_summary" where
  "finish m remove_outliers =
     (let integ = integrity (fm_seqs m);
          (lat_samples, outliers_removed) =
            (if remove_outliers then remove_outliers_iqr (fm_latencies_us m)
             else (fm_latencies_us m, 0));
          latency_us = summarize lat_samples;
          jitter_us = jitter (fm_latencies_us m);
          messages = of_nat (length (fm_seqs m));
          loss_pct =
            (if 0 < ig_received integ + ig_lost integ
             then f_of_word (ig_lost integ) / f_of_word (ig_distinct integ + ig_lost integ) * Fin 100
             else 0)
      in \<lparr>fs_messages = messages, fs_bytes = fm_bytes m, fs_duration_s = fm_duration_s m,
          fs_throughput_gbps = throughput_gbps (fm_bytes m) (fm_duration_s m),
          fs_message_rate = message_rate messages (fm_duration_s m),
          fs_latency_us = latency_us, fs_jitter_us = jitter_us, fs_integrity = integ,
          fs_integrity_failures = fm_integrity_failures m,
          fs_boundary_violations = fm_boundary_violations m,
          fs_loss_pct = loss_pct, fs_outliers_removed = outliers_removed\<rparr>)"

text \<open>The accumulators of \<open>aggregate_run\<close>, and its loop body.\<close>

record agg =
  ag_lat :: "f64 list"
  ag_bytes :: u64
  ag_integ :: integ
  ag_jitter_weighted :: f64
  ag_jitter_weight :: u64
  ag_integrity_failures :: u64
  ag_boundary_violations :: u64

definition agg_empty :: agg where
  "agg_empty = \<lparr>ag_lat = [], ag_bytes = 0, ag_integ = integ_default, ag_jitter_weighted = 0,
     ag_jitter_weight = 0, ag_integrity_failures = 0, ag_boundary_violations = 0\<rparr>"

definition add_integ :: "integ \<Rightarrow> integ \<Rightarrow> integ" where
  "add_integ a b =
     \<lparr>ig_received = ig_received a + ig_received b, ig_distinct = ig_distinct a + ig_distinct b,
      ig_lost = ig_lost a + ig_lost b, ig_duplicate = ig_duplicate a + ig_duplicate b,
      ig_reordered = ig_reordered a + ig_reordered b\<rparr>"

definition agg_step :: "agg \<Rightarrow> flow_metrics \<Rightarrow> agg" where
  "agg_step a m =
     (let mi = integrity (fm_seqs m); j = jitter (fm_latencies_us m) in
      \<lparr>ag_lat = ag_lat a @ fm_latencies_us m,
       ag_bytes = ag_bytes a + fm_bytes m,
       ag_integ = add_integ (ag_integ a) mi,
       ag_jitter_weighted = ag_jitter_weighted a + j * f_of_word (ig_received mi),
       ag_jitter_weight = ag_jitter_weight a + ig_received mi,
       ag_integrity_failures = ag_integrity_failures a + fm_integrity_failures m,
       ag_boundary_violations = ag_boundary_violations a + fm_boundary_violations m\<rparr>)"

definition aggregate_run :: "flow_metrics list \<Rightarrow> f64 \<Rightarrow> bool \<Rightarrow> flow_summary" where
  "aggregate_run metrics duration_s remove_outliers =
     (let a = foldl agg_step agg_empty metrics;
          integ = ag_integ a;
          (lat_samples, outliers_removed) =
            (if remove_outliers then remove_outliers_iqr (ag_lat a) else (ag_lat a, 0));
          latency_us = summarize lat_samples;
          jitter_us = (if 0 < ag_jitter_weight a
                       then ag_jitter_weighted a / f_of_word (ag_jitter_weight a) else 0);
          loss_pct =
            (if 0 < ig_distinct integ + ig_lost integ
             then f_of_word (ig_lost integ) / f_of_word (ig_distinct integ + ig_lost integ) * Fin 100
             else 0)
      in \<lparr>fs_messages = ig_received integ, fs_bytes = ag_bytes a, fs_duration_s = duration_s,
          fs_throughput_gbps = throughput_gbps (ag_bytes a) duration_s,
          fs_message_rate = message_rate (ig_received integ) duration_s,
          fs_latency_us = latency_us, fs_jitter_us = jitter_us, fs_integrity = integ,
          fs_integrity_failures = ag_integrity_failures a,
          fs_boundary_violations = ag_boundary_violations a,
          fs_loss_pct = loss_pct, fs_outliers_removed = outliers_removed\<rparr>)"

section \<open>The receiver step\<close>

text \<open>
  \<open>ingest\<close> returns the metrics it was given, unchanged, on a decode error: the caller counts the
  failure. \<open>ingest_now\<close> reads the clock first; the clock reading is an argument here.
\<close>

definition ingest :: "flow_metrics \<Rightarrow> u8 list \<Rightarrow> u64 \<Rightarrow> flow_metrics \<times> (wire_error + wire_header)" where
  "ingest m buf recv_ns =
     (case decode_message buf of
        Inl e \<Rightarrow> (m, Inl e)
      | Inr hdr \<Rightarrow>
          (let latency_ns = sat_sub recv_ns (wh_ts_ns hdr);
               wire_bytes = of_nat (HEADER_LEN + unat (wh_payload_len hdr))
           in (record_msg (wh_seq hdr) latency_ns wire_bytes m, Inr hdr)))"

definition ingest_now :: "u64 \<Rightarrow> flow_metrics \<Rightarrow> u8 list \<Rightarrow> flow_metrics \<times> (wire_error + wire_header)" where
  "ingest_now monotonic_ns m buf = ingest m buf monotonic_ns"

section \<open>The scan computes the counters\<close>

definition descents :: "u64 list \<Rightarrow> nat" where
  "descents xs = length (filter (\<lambda>w. snd w < fst w) (windows2 xs))"

lemma descents_simps [simp]:
  "descents [] = 0" "descents [a] = 0"
  "descents (a # b # xs) = (if b < a then 1 else 0) + descents (b # xs)"
  by (simp_all add: descents_def)

lemma length_windows2: "length (windows2 xs) = length xs - 1"
  by (induction xs rule: windows2.induct) auto

lemma descents_le: "descents xs \<le> length xs"
  using length_filter_le [of "\<lambda>w. snd w < fst w" "windows2 xs"] length_windows2 [of xs]
  unfolding descents_def by linarith

lemma scan_fold:
  assumes "i = 0 \<longrightarrow> xs \<noteq> [] \<longrightarrow> sc_prev sc \<le> hd xs"
  shows "fold integ_step (enumerate i xs) sc =
    \<lparr>sc_seen = sc_seen sc \<union> set xs, sc_min = fold (\<lambda>s m. min m s) xs (sc_min sc),
     sc_max = fold (\<lambda>s m. max m s) xs (sc_max sc),
     sc_reordered = sc_reordered sc + of_nat (descents (sc_prev sc # xs)),
     sc_prev = last (sc_prev sc # xs)\<rparr>"
  using assms
proof (induction xs arbitrary: i sc)
  case Nil
  then show ?case by simp
next
  case (Cons x xs)
  have IH: "fold integ_step (enumerate (Suc i) xs) sc' =
    \<lparr>sc_seen = sc_seen sc' \<union> set xs, sc_min = fold (\<lambda>s m. min m s) xs (sc_min sc'),
     sc_max = fold (\<lambda>s m. max m s) xs (sc_max sc'),
     sc_reordered = sc_reordered sc' + of_nat (descents (sc_prev sc' # xs)),
     sc_prev = last (sc_prev sc' # xs)\<rparr>" for sc' by (rule Cons.IH) simp
  have "\<not> (i = 0 \<and> x < sc_prev sc)" using Cons.prems by auto
  then show ?case by (auto simp: IH) (simp_all add: integ_step_def)
qed

lemma fold_min_Min: "fold (\<lambda>s m. min m s) xs a = Min (insert a (set xs))" for a :: "'a::linorder"
proof (induction xs arbitrary: a)
  case Nil
  then show ?case by simp
next
  case (Cons x xs)
  then show ?case
    by (cases "xs = []") (simp_all add: min.assoc min.commute min.left_commute insert_commute)
qed

lemma fold_max_Max: "fold (\<lambda>s m. max m s) xs a = Max (insert a (set xs))" for a :: "'a::linorder"
proof (induction xs arbitrary: a)
  case Nil
  then show ?case by simp
next
  case (Cons x xs)
  then show ?case
    by (cases "xs = []") (simp_all add: max.assoc max.commute max.left_commute insert_commute)
qed

text \<open>The counters as a closed form: the words the scan computes.\<close>

lemma integrity_eq:
  assumes "seqs \<noteq> []"
  shows "integrity seqs =
    \<lparr>ig_received = of_nat (length seqs), ig_distinct = of_nat (card (set seqs)),
     ig_lost = sat_sub (Max (set seqs) - Min (set seqs) + 1) (of_nat (card (set seqs))),
     ig_duplicate = of_nat (length seqs) - of_nat (card (set seqs)),
     ig_reordered = of_nat (descents seqs)\<rparr>"
proof -
  obtain x xs where seqs: "seqs = x # xs" using assms by (cases seqs) auto
  have "fold (\<lambda>s m. min m s) seqs (- 1) = Min (set seqs)"
    by (simp add: fold_min_Min seqs)
  moreover have "fold (\<lambda>s m. max m s) seqs 0 = Max (set seqs)"
    by (simp add: fold_max_Max seqs)
  moreover have "descents (seqs ! 0 # seqs) = descents seqs" by (simp add: seqs)
  ultimately show ?thesis
    using assms
    by (simp add: integrity_def Let_def scan_fold hd_conv_nth)
qed

lemma card_word_interval:
  fixes a b :: "'a::len word"
  assumes "a \<le> b"
  shows "card {a..b} = unat b - unat a + 1"
proof -
  have "unat ` {a..b} = {unat a..unat b}"
  proof
    show "unat ` {a..b} \<subseteq> {unat a..unat b}" by (auto simp: word_le_nat_alt)
    show "{unat a..unat b} \<subseteq> unat ` {a..b}"
    proof
      fix n assume n: "n \<in> {unat a..unat b}"
      then have "n < 2 ^ LENGTH('a)" by (auto intro: le_less_trans [OF _ unat_lt2p [of b]])
      then have "unat (of_nat n :: 'a word) = n" by (simp add: unat_of_nat)
      with n show "n \<in> unat ` {a..b}"
        by (intro image_eqI [of _ _ "of_nat n"]) (auto simp: word_le_nat_alt)
    qed
  qed
  moreover have "inj_on unat {a..b}" by (auto simp: inj_on_def word_unat_eq_iff)
  ultimately have "card {a..b} = card {unat a..unat b}" by (metis card_image)
  then show ?thesis using assms by (simp add: word_le_nat_alt)
qed

lemma unat_span:
  fixes a b :: u64
  assumes "a \<le> b" and "a \<noteq> 0 \<or> b \<noteq> - 1"
  shows "unat (b - a + 1) = unat b - unat a + 1"
proof -
  have "unat (b - a) = unat b - unat a" using assms(1) by (simp add: unat_sub)
  moreover have "unat b - unat a + 1 < 2 ^ 64"
  proof (cases "a = 0")
    case True
    then have "unat b \<noteq> unat (- 1 :: u64)" using assms(2) by (simp only: word_unat_eq_iff) auto
    then have "unat b \<noteq> 2 ^ 64 - 1" by (simp add: unat_max_word)
    then show ?thesis using unat_lt2p [of b] by simp
  next
    case False
    then have "0 < unat a" by (simp add: unat_gt_0)
    then show ?thesis using unat_lt2p [of b] by simp
  qed
  ultimately show ?thesis by (simp add: unat_word_ariths)
qed

lemma integrity_counters:
  assumes "seqs \<noteq> []" and "length seqs < 2 ^ 64"
    and "Min (set seqs) \<noteq> 0 \<or> Max (set seqs) \<noteq> - 1"
  shows "unat (ig_received (integrity seqs)) = length seqs
       \<and> unat (ig_distinct (integrity seqs)) = card (set seqs)
       \<and> unat (ig_lost (integrity seqs)) = card ({Min (set seqs)..Max (set seqs)} - set seqs)
       \<and> unat (ig_duplicate (integrity seqs)) = length seqs - card (set seqs)
       \<and> unat (ig_reordered (integrity seqs))
          = length (filter (\<lambda>w. snd w < fst w) (windows2 seqs))"
proof -
  let ?a = "Min (set seqs)" and ?b = "Max (set seqs)"
  have card_le: "card (set seqs) \<le> length seqs" by (rule card_length)
  have sub: "set seqs \<subseteq> {?a..?b}" using assms(1) by auto
  have ab: "?a \<le> ?b" using assms(1) by simp
  have u: "unat (of_nat n :: u64) = n" if "n \<le> length seqs" for n
    using that assms(2) by (intro unat_of_nat_u64) linarith
  have "card ({?a..?b} - set seqs) = card {?a..?b} - card (set seqs)"
    using sub by (intro card_Diff_subset) auto
  then have "unat (sat_sub (?b - ?a + 1) (of_nat (card (set seqs)) :: u64))
      = card ({?a..?b} - set seqs)"
    using u [OF card_le] by (simp only: unat_sat_sub unat_span [OF ab assms(3)] card_word_interval [OF ab])
  moreover have "unat (of_nat (length seqs) - of_nat (card (set seqs)) :: u64)
      = length seqs - card (set seqs)"
    using card_le u [OF card_le] u [of "length seqs"] by (simp add: unat_sub word_le_nat_alt)
  ultimately show ?thesis
    using u [OF card_le] u [of "length seqs"] u [OF descents_le]
    by (simp add: integrity_eq [OF assms(1)] descents_def)
qed



text \<open>
  A stream that holds both ends of the \<open>u64\<close> range is the one exception: its span \<open>max - min + 1\<close>
  wraps to 0, so no loss is ever reported for it.
\<close>

lemma integrity_span_wraps:
  assumes "0 \<in> set seqs" and "- 1 \<in> set seqs"
  shows "ig_lost (integrity seqs) = 0"
proof -
  have "seqs \<noteq> []" using assms(1) by auto
  moreover have "Min (set seqs) = 0" using assms(1) by (intro Min_eqI) auto
  moreover have "Max (set seqs) = - 1" using assms(2) by (intro Max_eqI) auto
  ultimately show ?thesis by (simp add: integrity_eq sat_sub_def)
qed

section \<open>The accumulator's invariant and the summaries\<close>

text \<open>
  What every sequence of operations on an accumulator keeps: one finite, non-negative latency per
  recorded sequence number, and a finite duration once one is set.
\<close>

definition flow_ok :: "flow_metrics \<Rightarrow> bool" where
  "flow_ok m = (length (fm_latencies_us m) = length (fm_seqs m)
     \<and> list_all (\<lambda>x. is_finite x \<and> 0 \<le> x) (fm_latencies_us m))"

named_theorems flow_ok_intros \<open>operations that keep the accumulator invariant\<close>

lemma latency_finite: "\<exists>r\<ge>0. f_of_word (ns :: u64) / Fin 1000 = Fin r"
proof -
  have "0 \<le> real (unat ns) / 1000" by (rule divide_nonneg_pos) (rule of_nat_0_le_iff, simp)
  then show ?thesis unfolding f_of_word_def by (auto simp only: Fin_arith)
qed

lemma flow_ok_new [flow_ok_intros]: "flow_ok flow_new"
  by (simp add: flow_ok_def flow_new_def)

lemma flow_ok_record [flow_ok_intros]: "flow_ok m \<Longrightarrow> flow_ok (record_msg seq lat n m)"
  using latency_finite [of lat]
  by (auto simp: flow_ok_def record_msg_def is_finite_def zero_f64_def)

lemma flow_ok_failure [flow_ok_intros]: "flow_ok m \<Longrightarrow> flow_ok (record_integrity_failure m)"
  and flow_ok_boundary [flow_ok_intros]: "flow_ok m \<Longrightarrow> flow_ok (record_boundary_violation m)"
  and flow_ok_duration [flow_ok_intros]: "flow_ok m \<Longrightarrow> flow_ok (set_duration secs m)"
  by (simp_all add: flow_ok_def record_integrity_failure_def record_boundary_violation_def
      set_duration_def)

lemma flow_ok_ingest [flow_ok_intros]: "flow_ok m \<Longrightarrow> flow_ok (fst (ingest m buf ns))"
  by (auto simp: ingest_def flow_ok_record split: sum.splits)

lemma jitter_acc_finite:
  assumes "\<forall>w\<in>set ws. is_finite (fst w) \<and> is_finite (snd w)" and "is_finite acc"
  shows "is_finite (foldl (\<lambda>acc w. acc + fabs (snd w - fst w)) acc ws)"
  using assms
proof (induction ws arbitrary: acc)
  case Nil
  then show ?case by simp
next
  case (Cons w ws)
  have "is_finite (acc + fabs (snd w - fst w))"
    using Cons.prems by (cases acc; cases "fst w"; cases "snd w")
      (auto simp: is_finite_def minus_f64_def)
  with Cons show ?case by simp
qed

lemma windows2_set: "w \<in> set (windows2 xs) \<Longrightarrow> fst w \<in> set xs \<and> snd w \<in> set xs"
  by (induction xs rule: windows2.induct) auto

lemma jitter_finite:
  assumes "\<forall>x\<in>set xs. is_finite x"
  shows "\<exists>r. jitter xs = Fin r"
proof (cases "length xs < 2")
  case True
  then show ?thesis by (simp add: jitter_def zero_f64_def)
next
  case False
  have "is_finite (foldl (\<lambda>acc w. acc + fabs (snd w - fst w)) 0 (windows2 xs))"
    using assms by (intro jitter_acc_finite) (auto simp: is_finite_def zero_f64_def dest: windows2_set)
  then obtain r where "foldl (\<lambda>acc w. acc + fabs (snd w - fst w)) 0 (windows2 xs) = Fin r"
    unfolding is_finite_def by (auto split: f64.splits)
  with False show ?thesis by (simp add: jitter_def f64_simps)
qed

lemma integ_default_simps [simp]:
  "add_integ integ_default i = i" "integrity [] = integ_default"
  by (simp_all add: add_integ_def integ_default_def integrity_def)

lemma integ_default_sel [simp]:
  "ig_received integ_default = 0" "ig_distinct integ_default = 0" "ig_lost integ_default = 0"
  by (simp_all add: integ_default_def)

lemma received_pos:
  "length seqs < 2 ^ 64 \<Longrightarrow> 0 < ig_received (integrity seqs) \<longleftrightarrow> seqs \<noteq> []"
  by (cases "seqs = []")
    (simp_all add: integrity_eq integ_default_def unat_of_nat_u64 word_less_nat_alt)

text \<open>
  A stream whose numbers are far enough from the top of the range for no counter to wrap: the case of
  every run, whose numbers count up from 0.
\<close>

definition seqs_small :: "u64 list \<Rightarrow> bool" where
  "seqs_small seqs = list_all (\<lambda>s. unat s + length seqs < 2 ^ 64) seqs"

lemma seqs_small_Max:
  assumes "seqs_small seqs" and "seqs \<noteq> []"
  shows "unat (Max (set seqs)) + length seqs < 2 ^ 64" and "Max (set seqs) \<noteq> - 1"
    and "length seqs < 2 ^ 64"
proof -
  have "Max (set seqs) \<in> set seqs" using assms(2) by (intro Max_in) auto
  then show *: "unat (Max (set seqs)) + length seqs < 2 ^ 64"
    using assms(1) by (simp add: seqs_small_def list_all_iff)
  then show "length seqs < 2 ^ 64" by simp
  have "0 < length seqs" using assms(2) by simp
  with * have "unat (Max (set seqs)) < 2 ^ 64 - 1" by linarith
  then have "unat (Max (set seqs)) \<noteq> unat (- 1 :: u64)" by (simp add: unat_max_word)
  then show "Max (set seqs) \<noteq> - 1" by (simp only: word_unat_eq_iff) simp
qed

lemma integrity_sums:
  assumes "seqs_small seqs" and "seqs \<noteq> []"
  shows "0 < ig_received (integrity seqs) + ig_lost (integrity seqs)"
    and "0 < ig_distinct (integrity seqs) + ig_lost (integrity seqs)"
    and "unat (ig_distinct (integrity seqs) + ig_lost (integrity seqs))
       = unat (ig_distinct (integrity seqs)) + unat (ig_lost (integrity seqs))"
proof -
  let ?a = "Min (set seqs)" and ?b = "Max (set seqs)" and ?i = "integrity seqs"
  note small = seqs_small_Max [OF assms]
  have ab: "?a \<le> ?b" and sub: "set seqs \<subseteq> {?a..?b}" using assms(2) by auto
  note ok = integrity_counters [OF assms(2) small(3) disjI2 [OF small(2)]]
  have card: "card ({?a..?b} - set seqs) = card {?a..?b} - card (set seqs)"
    using sub by (intro card_Diff_subset) auto
  have le: "card (set seqs) \<le> card {?a..?b}" using sub by (intro card_mono) auto
  have span: "card {?a..?b} \<le> unat ?b + 1" using card_word_interval [OF ab] by simp
  have "0 < card (set seqs)" and "card (set seqs) \<le> length seqs"
    using assms(2) by (auto simp: card_gt_0_iff card_length)
  with card le span small(1) ok have s1: "unat (ig_received ?i) + unat (ig_lost ?i) < 2 ^ 64"
    and s2: "unat (ig_distinct ?i) + unat (ig_lost ?i) < 2 ^ 64"
    and pos: "0 < unat (ig_received ?i)" "0 < unat (ig_distinct ?i)" by linarith+
  show sum: "unat (ig_distinct ?i + ig_lost ?i) = unat (ig_distinct ?i) + unat (ig_lost ?i)"
    using s2 by (simp add: unat_word_ariths)
  have "unat (ig_received ?i + ig_lost ?i) = unat (ig_received ?i) + unat (ig_lost ?i)"
    using s1 by (simp add: unat_word_ariths)
  then show "0 < ig_received ?i + ig_lost ?i" using pos by (simp add: word_less_nat_alt)
  show "0 < ig_distinct ?i + ig_lost ?i" using pos sum by (simp add: word_less_nat_alt)
qed

text \<open>
  Aggregating one connection is finishing it: \<open>aggregate_run\<close> on the singleton list gives the
  summary \<open>finish\<close> gives, jitter weighting and the differently written loss guard included.
\<close>

theorem aggregate_run_single:
  assumes "flow_ok m" and "seqs_small (fm_seqs m)"
  shows "aggregate_run [m] duration_s ro = finish (set_duration duration_s m) ro"
proof (cases "fm_seqs m = []")
  case True
  with assms(1) have "fm_latencies_us m = []" by (simp add: flow_ok_def)
  with True show ?thesis
    by (simp add: aggregate_run_def finish_def agg_step_def agg_empty_def set_duration_def
        jitter_def f64_simps Let_def)
next
  case False
  note sums = integrity_sums [OF assms(2) False] and small = seqs_small_Max [OF assms(2) False]
  have rec: "0 < ig_received (integrity (fm_seqs m))"
    "ig_received (integrity (fm_seqs m)) = of_nat (length (fm_seqs m))"
    using received_pos [OF small(3)] False by simp_all (simp add: integrity_eq)
  obtain j where j: "jitter (fm_latencies_us m) = Fin j"
    using jitter_finite assms(1) by (metis flow_ok_def list_all_iff)
  have "real (unat (ig_received (integrity (fm_seqs m)))) \<noteq> 0"
    using rec(1) by (simp only: word_less_nat_alt)
  then have "0 + Fin j * f_of_word (ig_received (integrity (fm_seqs m)))
      = Fin (j * real (unat (ig_received (integrity (fm_seqs m)))))"
    and "Fin (j * real (unat (ig_received (integrity (fm_seqs m)))))
       / f_of_word (ig_received (integrity (fm_seqs m))) = Fin j"
    unfolding f_of_word_def by (simp_all add: Fin_arith zero_f64_def)
  with rec sums show ?thesis
    by (simp add: aggregate_run_def finish_def agg_step_def agg_empty_def set_duration_def j
        Let_def)
qed

lemma aggregate_run_single_witness:
  "aggregate_run [record_msg 1 5000 64 flow_new] (Fin 2) True
     = finish (set_duration (Fin 2) (record_msg 1 5000 64 flow_new)) True"
  by (rule aggregate_run_single [OF flow_ok_record [OF flow_ok_new]])
    (simp add: record_msg_def flow_new_def seqs_small_def)

text \<open>
  The reported loss is a percentage: for a recorded run it lies between 0 and 100, is
  exactly 0 when no number between the smallest and largest received one is missing, and 100 is never
  reached once a message arrived.
\<close>

theorem finish_loss_pct:
  assumes "seqs_small (fm_seqs m)" and "fm_seqs m \<noteq> []"
  shows "\<exists>r. fs_loss_pct (finish m ro) = Fin r \<and> 0 \<le> r \<and> r < 100
       \<and> (r = 0 \<longleftrightarrow> set (fm_seqs m) = {Min (set (fm_seqs m))..Max (set (fm_seqs m))})"
proof -
  let ?i = "integrity (fm_seqs m)" and ?S = "set (fm_seqs m)"
  note sums = integrity_sums [OF assms] and small = seqs_small_Max [OF assms]
  note ok = integrity_counters [OF assms(2) small(3) disjI2 [OF small(2)]]
  define l d where "l = real (unat (ig_lost ?i))" and "d = real (unat (ig_distinct ?i))"
  have d: "0 < d" using ok assms(2) by (simp add: d_def card_gt_0_iff)
  have l: "0 \<le> l" unfolding l_def by (rule of_nat_0_le_iff)
  have "f_of_word (ig_distinct ?i + ig_lost ?i) = Fin (d + l)"
    unfolding f_of_word_def sums(3) l_def d_def by (simp only: of_nat_add)
  moreover have "f_of_word (ig_lost ?i) = Fin l" by (simp only: f_of_word_def l_def)
  ultimately have val: "fs_loss_pct (finish m ro) = Fin (l / (d + l) * 100)"
    using sums(1) d l by (simp add: finish_def Let_def Fin_arith split_beta)
  have r0: "0 \<le> l / (d + l) * 100" using d l by simp
  have "0 < d + l" using d l by simp
  then have r1: "l / (d + l) * 100 < 100" using d by (simp add: pos_divide_less_eq)
  have "l / (d + l) * 100 = 0 \<longleftrightarrow> l = 0" using d l by simp
  also have "\<dots> \<longleftrightarrow> card ({Min ?S..Max ?S} - ?S) = 0"
    using ok by (simp only: l_def of_nat_eq_0_iff)
  also have "\<dots> \<longleftrightarrow> {Min ?S..Max ?S} \<subseteq> ?S" by auto
  also have "\<dots> \<longleftrightarrow> ?S = {Min ?S..Max ?S}" using assms(2) by auto
  finally show ?thesis using val r0 r1 by blast
qed

lemma finish_loss_pct_witness:
  "\<exists>r. fs_loss_pct (finish (record_msg 3 5000 64 flow_new) False) = Fin r \<and> 0 \<le> r \<and> r < 100
     \<and> (r = 0 \<longleftrightarrow> {3 :: u64} = {3..3})"
  using finish_loss_pct [of "record_msg 3 5000 64 flow_new" False]
  by (simp add: record_msg_def flow_new_def seqs_small_def)

text \<open>One received message: what the encoder wrote is recorded, and anything undecodable is not.\<close>

lemma ingest_message:
  "ingest m (message_bytes h @ rest) recv_ns
     = (record_msg (wh_seq h) (sat_sub recv_ns (wh_ts_ns h))
          (of_nat (HEADER_LEN + unat (wh_payload_len h))) m, Inr h)"
  by (simp add: ingest_def decode_message_bytes)

lemma ingest_error: "snd (ingest m buf ns) = Inl e \<Longrightarrow> fst (ingest m buf ns) = m"
  by (auto simp: ingest_def split: sum.splits)

end
