(* ===== verification/Seshat_Strings.thy ===== *)
theory Seshat_Strings
  imports Seshat_Prelude "HOL-Library.Sublist"
begin

text \<open>
  The functions of Rust's \<open>str\<close> and of its number parsing and formatting that the components call,
  on ASCII strings: trimming, case mapping, substring tests, splitting, \<open>parse::<u8>()\<close> and its kin
  (\<open>parse_uint\<close>), and \<open>{}\<close> of an unsigned integer (\<open>show_nat\<close>). The round trip of the last two makes
  the numbered names the code builds distinct.
\<close>

abbreviation (input) ascii :: "char \<Rightarrow> nat" where
  "ascii c \<equiv> of_char c"

definition is_ws :: "char \<Rightarrow> bool" where
  "is_ws c = (ascii c = 32 \<or> 9 \<le> ascii c \<and> ascii c \<le> 13)"

definition trim :: "string \<Rightarrow> string" where
  "trim s = rev (dropWhile is_ws (rev (dropWhile is_ws s)))"

definition lower_char :: "char \<Rightarrow> char" where
  "lower_char c = (if 65 \<le> ascii c \<and> ascii c \<le> 90 then char_of (ascii c + 32) else c)"

definition upper_char :: "char \<Rightarrow> char" where
  "upper_char c = (if 97 \<le> ascii c \<and> ascii c \<le> 122 then char_of (ascii c - 32) else c)"

definition to_lower :: "string \<Rightarrow> string" where
  "to_lower s = map lower_char s"

definition to_upper :: "string \<Rightarrow> string" where
  "to_upper s = map upper_char s"

text \<open>\<open>s.contains(p)\<close>, \<open>s.starts_with(p)\<close>, \<open>s.strip_prefix(p)\<close>.\<close>

fun starts_with :: "string \<Rightarrow> string \<Rightarrow> bool" where
  "starts_with s [] = True"
| "starts_with [] (p # ps) = False"
| "starts_with (c # s) (p # ps) = (c = p \<and> starts_with s ps)"

fun contains :: "string \<Rightarrow> string \<Rightarrow> bool" where
  "contains [] p = (p = [])"
| "contains (c # s) p = (starts_with (c # s) p \<or> contains s p)"

definition strip_prefix :: "string \<Rightarrow> string \<Rightarrow> string option" where
  "strip_prefix p s = (if starts_with s p then Some (drop (length p) s) else None)"

text \<open>\<open>s.rsplit_once(c)\<close>: split at the last occurrence of \<open>c\<close>.\<close>

fun rsplit_once :: "char \<Rightarrow> string \<Rightarrow> (string \<times> string) option" where
  "rsplit_once c [] = None"
| "rsplit_once c (x # s) =
     (case rsplit_once c s of
        Some (h, t) \<Rightarrow> Some (x # h, t)
      | None \<Rightarrow> if x = c then Some ([], s) else None)"

text \<open>\<open>s.replacen(p, q, 1)\<close> for a non-empty \<open>p\<close>.\<close>

fun replace_first :: "string \<Rightarrow> string \<Rightarrow> string \<Rightarrow> string" where
  "replace_first p q [] = []"
| "replace_first p q (c # s) =
     (if starts_with (c # s) p then q @ drop (length p) (c # s) else c # replace_first p q s)"

section \<open>Numbers\<close>

definition is_digit :: "char \<Rightarrow> bool" where
  "is_digit c = (48 \<le> ascii c \<and> ascii c \<le> 57)"

definition digit_char :: "nat \<Rightarrow> char" where
  "digit_char d = char_of (48 + d)"

fun show_nat :: "nat \<Rightarrow> string" where
  "show_nat n = (if n < 10 then [digit_char n] else show_nat (n div 10) @ [digit_char (n mod 10)])"

declare show_nat.simps [simp del]

definition digits_value :: "string \<Rightarrow> nat" where
  "digits_value s = foldl (\<lambda>n c. 10 * n + (ascii c - 48)) 0 s"

text \<open>\<open>s.parse::<uN>().ok()\<close>: an optional \<open>+\<close>, then at least one digit, no overflow of \<open>hi\<close>.\<close>

definition parse_uint :: "nat \<Rightarrow> string \<Rightarrow> nat option" where
  "parse_uint hi s =
     (let ds = (case s of c # cs \<Rightarrow> if c = CHR ''+'' then cs else s | [] \<Rightarrow> [])
      in if ds = [] \<or> \<not> list_all is_digit ds \<or> hi < digits_value ds then None
         else Some (digits_value ds))"

lemma of_char_digit_char: "d < 10 \<Longrightarrow> (of_char (digit_char d) :: nat) = 48 + d"
  by (simp add: digit_char_def)

lemma is_digit_digit_char: "d < 10 \<Longrightarrow> is_digit (digit_char d)"
  by (simp add: is_digit_def of_char_digit_char)

lemma show_nat_digits: "list_all is_digit (show_nat n)"
proof (induction n rule: show_nat.induct)
  case (1 n)
  then show ?case by (subst show_nat.simps) (auto simp: is_digit_digit_char)
qed

lemma digit_not_ws: "is_digit c \<Longrightarrow> \<not> is_ws c"
  by (auto simp: is_digit_def is_ws_def)

lemma show_nat_nonempty [simp]: "show_nat n \<noteq> []"
  by (subst show_nat.simps) simp

lemma digits_value_show_nat [simp]: "digits_value (show_nat n) = n"
proof (induction n rule: show_nat.induct)
  case (1 n)
  show ?case
  proof (cases "n < 10")
    case True
    then show ?thesis
      by (subst show_nat.simps) (simp add: digits_value_def of_char_digit_char)
  next
    case False
    with 1 have "digits_value (show_nat (n div 10)) = n div 10" by simp
    with False show ?thesis
      by (subst show_nat.simps) (simp add: digits_value_def of_char_digit_char)
  qed
qed

lemma show_nat_inj: "show_nat m = show_nat n \<longleftrightarrow> m = n"
  by (metis digits_value_show_nat)

lemma plus_not_digit: "\<not> is_digit (CHR ''+'')" and dash_not_digit: "\<not> is_digit (CHR ''-'')"
  by (simp_all add: is_digit_def)

lemma parse_show_nat: "n \<le> hi \<Longrightarrow> parse_uint hi (show_nat n) = Some n"
proof -
  assume le: "n \<le> hi"
  obtain c cs where s: "show_nat n = c # cs" by (cases "show_nat n") auto
  have "is_digit c" using show_nat_digits [of n] s by simp
  then have "c \<noteq> CHR ''+''" using plus_not_digit by auto
  then show ?thesis
    using le show_nat_digits [of n] digits_value_show_nat [of n]
    by (simp add: parse_uint_def s)
qed

lemma parse_uint_bound: "parse_uint hi s = Some n \<Longrightarrow> n \<le> hi"
  by (auto simp: parse_uint_def Let_def split: if_splits)

lemma starts_with_iff: "starts_with s p \<longleftrightarrow> (\<exists>t. s = p @ t)"
  by (induction s p rule: starts_with.induct) auto

lemma contains_iff: "contains s p \<longleftrightarrow> sublist p s"
proof (induction s)
  case Nil
  then show ?case by simp
next
  case (Cons c s)
  have "starts_with (c # s) p \<longleftrightarrow> prefix p (c # s)" by (simp add: starts_with_iff prefix_def)
  with Cons show ?case by (simp add: sublist_Cons_right)
qed

lemma rsplit_once_None: "rsplit_once c s = None \<longleftrightarrow> c \<notin> set s"
  by (induction s) (auto split: option.splits)

lemma rsplit_once_Some: "rsplit_once c s = Some (h, t) \<Longrightarrow> s = h @ c # t \<and> c \<notin> set t"
proof (induction s arbitrary: h)
  case Nil
  then show ?case by simp
next
  case (Cons x s)
  then show ?case
    by (auto split: option.splits if_splits simp: rsplit_once_None)
qed

lemma digits_no_dash: "list_all is_digit ds \<Longrightarrow> CHR ''-'' \<notin> set ds"
  using dash_not_digit by (auto simp: list_all_iff)

lemma append_dash_digits_inj:
  assumes "h1 @ CHR ''-'' # t1 = h2 @ CHR ''-'' # t2"
    and "CHR ''-'' \<notin> set t1" "CHR ''-'' \<notin> set t2"
  shows "t1 = t2"
proof -
  have "takeWhile (\<lambda>c. c \<noteq> CHR ''-'') (rev (h @ CHR ''-'' # t)) = rev t"
    if "CHR ''-'' \<notin> set t" for h t
  proof -
    have "\<And>c. c \<in> set (rev t) \<Longrightarrow> c \<noteq> CHR ''-''" using that by auto
    then have "takeWhile (\<lambda>c. c \<noteq> CHR ''-'') (rev t @ CHR ''-'' # rev h)
        = rev t @ takeWhile (\<lambda>c. c \<noteq> CHR ''-'') (CHR ''-'' # rev h)"
      by (intro takeWhile_append2) auto
    then show ?thesis by simp
  qed
  then have "rev t1 = rev t2" using assms by metis
  then show ?thesis by simp
qed

end
