(* ===== verification/Schema.thy ===== *)
theory Schema
  imports Seshat_Strings
begin

text \<open>
  The configuration document, \<open>src/src/config/schema.rs\<close> and \<open>src/src/net.rs\<close>: one record per
  struct, one datatype per enum, the defaults, the label functions and the composed descriptions.
  Field names carry a prefix of their struct; \<open>usize\<close> fields and lists of cores are naturals,
  \<open>u32\<close> and \<open>u64\<close> fields are words, paths are strings, and the ordered \<open>BTreeMap\<close> of provider
  parameters is the list of its entries. The \<open>serde\<close> decoding of JSON is not modelled: a document is
  the value it decodes to.
\<close>

section \<open>Address family\<close>

datatype address_family = Ipv4 | Ipv6

definition address_family_default :: address_family where
  "address_family_default = Ipv4"

definition is_ipv6 :: "address_family \<Rightarrow> bool" where
  "is_ipv6 f = (case f of Ipv6 \<Rightarrow> True | _ \<Rightarrow> False)"

fun loopback_host :: "address_family \<Rightarrow> string" where
  "loopback_host Ipv4 = ''127.0.0.1''"
| "loopback_host Ipv6 = ''::1''"

definition join_host_port :: "string \<Rightarrow> u16 \<Rightarrow> string" where
  "join_host_port host port =
     (if contains host '':'' \<and> \<not> starts_with host ''[''
      then ''['' @ host @ '']:'' @ show_nat (unat port)
      else host @ '':'' @ show_nat (unat port))"

definition loopback_socket :: "address_family \<Rightarrow> u16 \<Rightarrow> string" where
  "loopback_socket f port = join_host_port (loopback_host f) port"

section \<open>Enumerations\<close>

datatype outlier_removal = OutlierNone | Iqr | Percentile

datatype metrics_backend = Procfs | Perf | Ebpf | BackendNone

fun metrics_backend_label :: "metrics_backend \<Rightarrow> string" where
  "metrics_backend_label Procfs = ''procfs''"
| "metrics_backend_label Perf = ''perf''"
| "metrics_backend_label Ebpf = ''ebpf''"
| "metrics_backend_label BackendNone = ''none''"

datatype mode = Throughput | Pingpong | Connrate

datatype interface = Tcp | Udp | Unix | Shm | Tproxy

fun interface_label :: "interface \<Rightarrow> string" where
  "interface_label Tcp = ''tcp''"
| "interface_label Udp = ''udp''"
| "interface_label Unix = ''unix''"
| "interface_label Shm = ''shm''"
| "interface_label Tproxy = ''tproxy''"

datatype pattern_kind = Sustained | Periodic | Burst | Ramp

datatype protocol_type = ProtoNone | Tls | Dtls | Wireguard | Ipsec | Custom

fun protocol_type_label :: "protocol_type \<Rightarrow> string" where
  "protocol_type_label ProtoNone = ''none''"
| "protocol_type_label Tls = ''tls''"
| "protocol_type_label Dtls = ''dtls''"
| "protocol_type_label Wireguard = ''wireguard''"
| "protocol_type_label Ipsec = ''ipsec''"
| "protocol_type_label Custom = ''custom''"

datatype tls_version = V1_0 | V1_2 | V1_3

fun tls_version_label :: "tls_version \<Rightarrow> string" where
  "tls_version_label V1_0 = ''1.0''"
| "tls_version_label V1_2 = ''1.2''"
| "tls_version_label V1_3 = ''1.3''"

datatype protection_mode = Full | IntegrityOnly | RoutingOnly

datatype app_protocol = AppNone | Ale | Raw

datatype topology_mode = Loopback | Veth | Netns | Physical | Remote

datatype gateway_chain = ScgDirect | ScgScg

datatype stream_role = Safety | Bulk | Monitoring

datatype reload_action =
  UpdateTlsProfile | AddConnection | RemoveConnection | RotateCert | InvalidConfig

datatype provider_param = PBool bool | PInt int | PStr string

section \<open>Structures\<close>

record suite =
  su_name :: string
  su_description :: string
  su_author :: string
  su_version :: string

record defaults =
  df_runs :: u32
  df_duration_secs :: u64
  df_warmup_secs :: u64
  df_cooldown_secs :: u64
  df_cpu_affinity_sender :: "nat list"
  df_cpu_affinity_receiver :: "nat list"
  df_cpu_affinity_gateway :: "nat list"
  df_auto_affinity :: bool
  df_loss_threshold_pct :: f64
  df_scg_process_name :: string
  df_collect_system_metrics :: bool
  df_outlier_removal :: outlier_removal
  df_confidence_level :: f64
  df_metrics_backend :: metrics_backend
  df_metrics_sample_rate_hz :: u32

definition defaults_default :: defaults where
  "defaults_default = \<lparr>df_runs = 5, df_duration_secs = 30, df_warmup_secs = 5,
     df_cooldown_secs = 2, df_cpu_affinity_sender = [], df_cpu_affinity_receiver = [],
     df_cpu_affinity_gateway = [], df_auto_affinity = True, df_loss_threshold_pct = Fin 1,
     df_scg_process_name = ''gateway'', df_collect_system_metrics = True,
     df_outlier_removal = Iqr, df_confidence_level = Fin (95 / 100),
     df_metrics_backend = Procfs, df_metrics_sample_rate_hz = 50\<rparr>"

record requirements =
  rq_openssl :: bool
  rq_ktls :: bool
  rq_dtls10 :: bool
  rq_cap_net_admin :: bool
  rq_perf :: bool
  rq_ebpf :: bool

record comparison =
  cp_group :: string
  cp_reference :: string
  cp_gateway_reference :: "string option"
  cp_calibration_group :: "string option"
  cp_calibration_fraction :: "f64 option"

record sender =
  sn_interface :: interface
  sn_target_addr :: string
  sn_pattern :: pattern_kind
  sn_rate_limit_mbps :: "f64 option"
  sn_interval_us :: "u64 option"
  sn_burst_count :: "u64 option"
  sn_burst_pause_us :: "u64 option"
  sn_ramp_start_mbps :: "f64 option"
  sn_ramp_step_mbps :: "f64 option"
  sn_ramp_step_interval_secs :: "u64 option"

record saturation =
  st_start_mbps :: f64
  st_step_mbps :: f64
  st_max_mbps :: f64

record certificate_selection =
  cs_server_cert :: "string option"
  cs_server_key :: "string option"
  cs_client_cert :: "string option"
  cs_client_key :: "string option"
  cs_ca_cert :: "string option"
  cs_server_name :: "string option"

definition cert_is_empty :: "certificate_selection \<Rightarrow> bool" where
  "cert_is_empty c =
     (cs_server_cert c = None \<and> cs_server_key c = None \<and> cs_client_cert c = None
      \<and> cs_client_key c = None \<and> cs_ca_cert c = None \<and> cs_server_name c = None)"

definition has_server_identity :: "certificate_selection \<Rightarrow> bool" where
  "has_server_identity c = (cs_server_cert c \<noteq> None \<and> cs_server_key c \<noteq> None)"

definition has_mutual_bundle :: "certificate_selection \<Rightarrow> bool" where
  "has_mutual_bundle c =
     (has_server_identity c \<and> cs_client_cert c \<noteq> None \<and> cs_client_key c \<noteq> None
      \<and> cs_ca_cert c \<noteq> None)"

record protocol =
  pr_kind :: protocol_type
  pr_version :: tls_version
  pr_kernel :: bool
  pr_mutual_auth :: bool
  pr_cipher_suite :: "string option"
  pr_cert_key_type :: "string option"
  pr_kex_group :: "string option"
  pr_protection_mode :: protection_mode
  pr_app_protocol :: app_protocol
  pr_profile :: "string option"
  pr_psk_identity :: "string option"
  pr_psk_hex :: "string option"
  pr_resumption :: bool
  pr_certificates :: certificate_selection
  pr_security_provider :: "string option"
  pr_provider_params :: "(string \<times> provider_param) list"

definition certificate_selection_default :: certificate_selection where
  "certificate_selection_default = \<lparr>cs_server_cert = None, cs_server_key = None,
     cs_client_cert = None, cs_client_key = None, cs_ca_cert = None, cs_server_name = None\<rparr>"

definition protocol_default :: protocol where
  "protocol_default = \<lparr>pr_kind = ProtoNone, pr_version = V1_3, pr_kernel = False,
     pr_mutual_auth = False, pr_cipher_suite = None, pr_cert_key_type = None,
     pr_kex_group = None, pr_protection_mode = Full, pr_app_protocol = AppNone,
     pr_profile = None, pr_psk_identity = None, pr_psk_hex = None, pr_resumption = False,
     pr_certificates = certificate_selection_default, pr_security_provider = None,
     pr_provider_params = []\<rparr>"

record topology =
  tp_mode :: topology_mode
  tp_auto_setup :: bool
  tp_left_namespace :: string
  tp_right_namespace :: string
  tp_left_ip :: string
  tp_right_ip :: string
  tp_subnet_mask :: u8
  tp_mtu :: u32

definition topology_default :: topology where
  "topology_default = \<lparr>tp_mode = Loopback, tp_auto_setup = False,
     tp_left_namespace = ''scg_left'', tp_right_namespace = ''scg_right'',
     tp_left_ip = ''10.0.0.1'', tp_right_ip = ''10.0.0.2'', tp_subnet_mask = 24, tp_mtu = 1500\<rparr>"

record gateway =
  gw_enabled :: bool
  gw_chain :: gateway_chain

definition gateway_default :: gateway where
  "gateway_default = \<lparr>gw_enabled = False, gw_chain = ScgDirect\<rparr>"

record network_impairment =
  ni_enabled :: bool
  ni_apply_to :: string
  ni_latency_ms :: f64
  ni_jitter_ms :: f64
  ni_loss_percent :: f64
  ni_bandwidth_limit_mbps :: u32
  ni_reorder_percent :: f64
  ni_duplicate_percent :: f64

record priority =
  py_dscp_tag :: string
  py_traffic_class :: string
  py_expected_dscp :: "string option"

record stream =
  sr_role :: stream_role
  sr_interface :: interface
  sr_target_addr :: string
  sr_connections :: u32
  sr_message_size_bytes :: u32
  sr_pattern :: pattern_kind
  sr_interval_us :: "u64 option"
  sr_protocol :: protocol
  sr_priority :: priority

record reload_event =
  re_trigger_at_secs :: u64
  re_grpc_addr :: "string option"
  re_action :: reload_action
  re_payload_file :: "string option"
  re_expect_zero_drops :: bool
  re_measure_window_before_secs :: u64
  re_measure_window_after_secs :: u64

record optimization_flags =
  of_zero_copy :: bool
  of_spin_wait :: bool
  of_spin_wait_us :: "u64 option"
  of_sock_buf_size :: "nat option"
  of_pipe_size :: "nat option"
  of_relay_buf_size :: "nat option"
  of_notsent_lowat :: "nat option"
  of_busy_poll_us :: "u32 option"
  of_bdp_adaptive :: bool
  of_bdp_queue_budget_us :: "u64 option"
  of_simulated_delay_ms :: "u64 option"
  of_buffer_slots :: "nat option"
  of_buffer_slot_size :: "nat option"
  of_shm_ring_capacity :: "nat option"
  of_shm_ring_kind :: "string option"
  of_shm_segment_size :: "nat option"
  of_shm_num_segments :: "nat option"
  of_shm_g2c_notify :: "string option"
  of_perf_profile :: "string option"

definition optimization_flags_default :: optimization_flags where
  "optimization_flags_default = \<lparr>of_zero_copy = False, of_spin_wait = False,
     of_spin_wait_us = None, of_sock_buf_size = None, of_pipe_size = None,
     of_relay_buf_size = None, of_notsent_lowat = None, of_busy_poll_us = None,
     of_bdp_adaptive = False, of_bdp_queue_budget_us = None, of_simulated_delay_ms = None,
     of_buffer_slots = None, of_buffer_slot_size = None, of_shm_ring_capacity = None,
     of_shm_ring_kind = None, of_shm_segment_size = None, of_shm_num_segments = None,
     of_shm_g2c_notify = None, of_perf_profile = None\<rparr>"

record scenario =
  sc_name :: string
  sc_category :: "string option"
  sc_mode :: mode
  sc_enabled :: bool
  sc_disabled_reason :: "string option"
  sc_message_size_bytes :: "u32 option"
  sc_connections :: u32
  sc_sender :: "sender option"
  sc_protocol :: protocol
  sc_topology :: topology
  sc_address_family :: address_family
  sc_gateway :: gateway
  sc_network_impairment :: "network_impairment option"
  sc_streams :: "stream list"
  sc_reload_event :: "reload_event option"
  sc_optimization_flags :: optimization_flags
  sc_runs :: "u32 option"
  sc_duration_secs :: "u64 option"
  sc_warmup_secs :: "u64 option"
  sc_cooldown_secs :: "u64 option"
  sc_saturation :: "saturation option"
  sc_requirements :: requirements
  sc_comparison :: "comparison option"
  sc_description :: "string option"

record config =
  cf_schema :: "string option"
  cf_suite :: suite
  cf_defaults :: defaults
  cf_scenarios :: "scenario list"

section \<open>Labels and descriptions\<close>

definition canonical_traffic_class :: "string \<Rightarrow> string option" where
  "canonical_traffic_class raw =
     (let s = to_lower (trim raw) in
      if s = ''safety'' \<or> s = ''safety-critical'' then Some ''safety''
      else if s = ''normal'' \<or> s = ''non-safety'' \<or> s = ''bulk'' then Some ''normal''
      else None)"

definition protocol_label :: "scenario \<Rightarrow> string" where
  "protocol_label s =
     (let p = sc_protocol s in
      case pr_kind p of
        ProtoNone \<Rightarrow> ''none''
      | Tls \<Rightarrow>
          (let base = (if pr_kernel p then ''ktls'' else ''tls'');
               label = base @ ''/'' @ tls_version_label (pr_version p);
               label = (if pr_protection_mode p = IntegrityOnly then label @ ''+integrity''
                        else if pr_mutual_auth p then label @ ''+mtls'' else label)
           in if pr_resumption p then label @ ''+resume'' else label)
      | Dtls \<Rightarrow>
          (let label = ''dtls/'' @ tls_version_label (pr_version p)
           in if pr_mutual_auth p then label @ ''+mtls'' else label)
      | Wireguard \<Rightarrow> ''wireguard''
      | Ipsec \<Rightarrow> ''ipsec''
      | Custom \<Rightarrow> (case pr_security_provider p of Some n \<Rightarrow> n | None \<Rightarrow> ''custom''))"

definition join :: "string \<Rightarrow> string list \<Rightarrow> string" where
  "join sep parts = (case parts of [] \<Rightarrow> [] | x # xs \<Rightarrow> foldl (\<lambda>acc y. acc @ sep @ y) x xs)"

text \<open>\<open>sort_unstable\<close> of string slices: the byte-wise lexicographic order.\<close>

fun str_le :: "string \<Rightarrow> string \<Rightarrow> bool" where
  "str_le [] _ = True"
| "str_le (_ # _) [] = False"
| "str_le (a # as) (b # bs) = (ascii a < ascii b \<or> a = b \<and> str_le as bs)"

fun str_insert :: "string \<Rightarrow> string list \<Rightarrow> string list" where
  "str_insert x [] = [x]"
| "str_insert x (y # ys) = (if str_le x y then x # y # ys else y # str_insert x ys)"

definition str_sort :: "string list \<Rightarrow> string list" where
  "str_sort xs = foldr str_insert xs []"

definition interface_summary :: "scenario \<Rightarrow> string option" where
  "interface_summary s =
     (case sc_sender s of
        Some sn \<Rightarrow> Some (interface_label (sn_interface sn))
      | None \<Rightarrow>
          if sc_streams s \<noteq> []
          then Some (join ''+'' (remdups_adj (str_sort
                 (map (\<lambda>st. interface_label (sr_interface st)) (sc_streams s)))))
          else None)"

text \<open>
  \<open>{:.1}\<close> of \<open>n / 1024\<close>: the quotient is exact in binary, and the last printed digit is rounded to
  the nearest, ties to even.
\<close>

definition round_half_even :: "nat \<Rightarrow> nat \<Rightarrow> nat" where
  "round_half_even a b =
     (let q = a div b; r = a mod b in
      if 2 * r < b then q else if b < 2 * r then q + 1 else if even q then q else q + 1)"

definition fmt_bytes :: "u32 \<Rightarrow> string" where
  "fmt_bytes w =
     (let n = unat w in
      if 1024 \<le> n \<and> n mod 1024 = 0 then show_nat (n div 1024) @ '' KB''
      else if 1024 \<le> n then
        (let t = round_half_even (n * 10) 1024
         in show_nat (t div 10) @ ''.'' @ show_nat (t mod 10) @ '' KB'')
      else show_nat n @ '' B'')"

text \<open>The separator is a space, the middle dot U+00B7 and a space.\<close>

definition dot_sep :: string where
  "dot_sep = '' '' @ [char_of (0xB7 :: nat)] @ '' ''"

definition describe :: "scenario \<Rightarrow> string" where
  "describe s =
     (let desc = (case sc_description s of Some d \<Rightarrow> trim d | None \<Rightarrow> []) in
      if desc \<noteq> [] then desc
      else
        let mode = (case sc_mode s of Throughput \<Rightarrow> ''throughput'' | Pingpong \<Rightarrow> ''round-trip''
                    | Connrate \<Rightarrow> ''conn-rate'');
            p1 = (case interface_summary s of
                    Some iface \<Rightarrow> [mode @ dot_sep @ iface @ dot_sep @ protocol_label s]
                  | None \<Rightarrow> [mode @ dot_sep @ protocol_label s]);
            p2 = (case sc_message_size_bytes s of Some sz \<Rightarrow> [fmt_bytes sz] | None \<Rightarrow> []);
            p3 = [show_nat (unat (sc_connections s)) @ '' conn''
                  @ (if sc_connections s = 1 then [] else ''s'')]
        in join dot_sep (p1 @ p2 @ p3))"

end
