(* ===== verification/Validate.thy ===== *)
theory Validate
  imports Schema
begin

text \<open>
  Semantic validation of a parsed document, \<open>src/src/config/mod.rs\<close>: suite checks, the checks of each
  scenario in the order the code makes them, and the run-time estimates. A message is a constructor of
  \<open>issue\<close>, one per text of the code, carrying the values the text prints. The checks append to the
  error, warning and note lists of a scenario's report.

  \<open>addr.parse::<SocketAddr>()\<close>: every text the standard library accepts there ends in a colon and a
  decimal port below \<open>2^16\<close> after a non-empty host, so it also passes the fall-back test the code makes
  when that parse fails; the address check is the fall-back test, \<open>host_port_ok\<close>.
\<close>

datatype (plugins only: code) issue =
    SuiteNameEmpty
  | SuiteVersionEmpty
  | RunsZero
  | ConfidenceRange
  | SampleRateZero
  | DuplicateName string
  | NameEmpty
  | SkipNote string
  | NeedsSenderOrStreams
  | WireguardNeedsUdp
  | IpsecStub
  | CustomNeedsProvider
  | KernelNeedsTls
  | LatencyUnthrottled
  | SaturationNotFinite
  | SaturationStart
  | SaturationStep
  | SaturationMax
  | StreamSizeZero nat
  | StreamPeriodicInterval nat
  | UnknownDscp string string
  | StreamTrafficClass nat string
  | StreamNotTcp nat interface
  | StreamConnections nat
  | StreamProtocolDiffers nat protocol_type protocol_type
  | StreamsNeedGateway
  | StreamsProtocol protocol_type
  | StreamsNote nat
  | ZeroCopyNeedsRouting
  | PerfProfileInvalid string
  | ResumptionNeedsTls
  | CertsNeedTls
  | ServerCertNeedsKey
  | ServerKeyNeedsCert
  | ClientCertNeedsKey
  | ClientKeyNeedsCert
  | MutualBundleIncomplete
  | ClientCertIgnored
  | ReloadNeedsGateway
  | ReloadNeedsPayload reload_action
  | ReloadNote reload_action
  | TopologyNoAutoSetup topology_mode
  | BadHostPort string string
  | UnixNotAbsolute string
  | BadShmAddress string
  | BadTproxyAddress string
  | PeriodicNeedsInterval
  | BurstNeedsCount
  | RampNeedsFields
  | TransportNeedsGateway interface
  | TlsVersion10
  | DtlsVersion13
  | DtlsNeedsUdp interface
  | AppProtocolNeedsUdp
  | AppProtocolNeedsTls
  | ComparisonEmpty

record scenario_report =
  rp_name :: string
  rp_enabled :: bool
  rp_errors :: "issue list"
  rp_warnings :: "issue list"
  rp_notes :: "issue list"

definition scenario_report_ok :: "scenario_report \<Rightarrow> bool" where
  "scenario_report_ok r = (rp_errors r = [])"

record validation_report =
  vr_suite_errors :: "issue list"
  vr_scenarios :: "scenario_report list"

definition validation_report_ok :: "validation_report \<Rightarrow> bool" where
  "validation_report_ok v = (vr_suite_errors v = [] \<and> list_all scenario_report_ok (vr_scenarios v))"

definition enabled_count :: "validation_report \<Rightarrow> nat" where
  "enabled_count v = length (filter rp_enabled (vr_scenarios v))"

definition total_count :: "validation_report \<Rightarrow> nat" where
  "total_count v = length (vr_scenarios v)"

definition push_error :: "issue \<Rightarrow> scenario_report \<Rightarrow> scenario_report" where
  "push_error e r = r\<lparr>rp_errors := rp_errors r @ [e]\<rparr>"

definition push_warning :: "issue \<Rightarrow> scenario_report \<Rightarrow> scenario_report" where
  "push_warning e r = r\<lparr>rp_warnings := rp_warnings r @ [e]\<rparr>"

definition push_note :: "issue \<Rightarrow> scenario_report \<Rightarrow> scenario_report" where
  "push_note e r = r\<lparr>rp_notes := rp_notes r @ [e]\<rparr>"

text \<open>\<open>if c { r.errors.push(e) }\<close>\<close>

abbreviation err_if :: "bool \<Rightarrow> issue \<Rightarrow> scenario_report \<Rightarrow> scenario_report" where
  "err_if c e r \<equiv> (if c then push_error e r else r)"

abbreviation warn_if :: "bool \<Rightarrow> issue \<Rightarrow> scenario_report \<Rightarrow> scenario_report" where
  "warn_if c e r \<equiv> (if c then push_warning e r else r)"

section \<open>Address, pattern and protocol checks\<close>

definition host_port_ok :: "string \<Rightarrow> bool" where
  "host_port_ok addr =
     (case rsplit_once (CHR '':'') addr of
        Some (host, port) \<Rightarrow> host \<noteq> [] \<and> parse_uint 65535 port \<noteq> None
      | None \<Rightarrow> False)"

definition validate_addr :: "interface \<Rightarrow> string \<Rightarrow> string \<Rightarrow> scenario_report \<Rightarrow> scenario_report" where
  "validate_addr iface addr ctx r =
     (case iface of
        Tcp \<Rightarrow> err_if (\<not> host_port_ok addr) (BadHostPort ctx addr) r
      | Udp \<Rightarrow> err_if (\<not> host_port_ok addr) (BadHostPort ctx addr) r
      | Unix \<Rightarrow> err_if (\<not> starts_with addr ''/'') (UnixNotAbsolute ctx) r
      | Shm \<Rightarrow>
          (let name = strip_prefix ''shm:///'' addr
           in err_if (case name of Some n \<Rightarrow> n = [] | None \<Rightarrow> True) (BadShmAddress ctx) r)
      | Tproxy \<Rightarrow> err_if (\<not> host_port_ok addr) (BadTproxyAddress ctx) r)"

definition is_latency_category :: "string option \<Rightarrow> bool" where
  "is_latency_category category =
     (case category of Some c \<Rightarrow> to_lower c = ''latency'' | None \<Rightarrow> False)"

definition validate_pattern :: "sender \<Rightarrow> scenario_report \<Rightarrow> scenario_report" where
  "validate_pattern s r =
     (case sn_pattern s of
        Sustained \<Rightarrow> r
      | Periodic \<Rightarrow> err_if (sn_interval_us s = None) PeriodicNeedsInterval r
      | Burst \<Rightarrow> err_if (sn_burst_count s = None) BurstNeedsCount r
      | Ramp \<Rightarrow> err_if (sn_ramp_start_mbps s = None \<or> sn_ramp_step_mbps s = None
                        \<or> sn_ramp_step_interval_secs s = None) RampNeedsFields r)"

definition validate_transport_needs_gateway ::
  "interface \<Rightarrow> gateway \<Rightarrow> scenario_report \<Rightarrow> scenario_report" where
  "validate_transport_needs_gateway iface g r =
     err_if ((iface = Unix \<or> iface = Shm) \<and> \<not> gw_enabled g) (TransportNeedsGateway iface) r"

definition validate_protocol_transport ::
  "scenario \<Rightarrow> interface \<Rightarrow> scenario_report \<Rightarrow> scenario_report" where
  "validate_protocol_transport s iface r =
     (let p = sc_protocol s;
          r = (if pr_kind p = Tls \<and> pr_version p = V1_0 then push_error TlsVersion10 r
               else if pr_kind p = Dtls \<and> pr_version p = V1_3 then push_error DtlsVersion13 r
               else r);
          r = err_if (pr_kind p = Dtls \<and> iface \<noteq> Udp) (DtlsNeedsUdp iface) r;
          r = (if pr_app_protocol p \<noteq> AppNone
               then err_if (pr_kind p \<noteq> Tls) AppProtocolNeedsTls
                      (err_if (iface \<noteq> Udp) AppProtocolNeedsUdp r)
               else r)
      in case sc_comparison s of
           Some c \<Rightarrow> err_if (trim (cp_group c) = [] \<or> trim (cp_reference c) = []) ComparisonEmpty r
         | None \<Rightarrow> r)"

definition KNOWN_DSCP :: "string list" where
  "KNOWN_DSCP =
     [''EF'', ''BE'', ''AF11'', ''AF12'', ''AF13'', ''AF21'', ''AF22'', ''AF23'', ''AF31'',
      ''AF32'', ''AF33'', ''AF41'', ''AF42'', ''AF43'', ''CS0'', ''CS1'', ''CS2'', ''CS3'',
      ''CS4'', ''CS5'', ''CS6'', ''CS7'']"

definition validate_dscp :: "string \<Rightarrow> string \<Rightarrow> scenario_report \<Rightarrow> scenario_report" where
  "validate_dscp tag ctx r = warn_if (tag \<notin> set KNOWN_DSCP) (UnknownDscp ctx tag) r"

definition validate_certificate_selection :: "scenario \<Rightarrow> scenario_report \<Rightarrow> scenario_report" where
  "validate_certificate_selection s r =
     (let p = sc_protocol s; c = pr_certificates p in
      if cert_is_empty c then r
      else
        let r = err_if (pr_kind p \<noteq> Tls \<and> pr_kind p \<noteq> Dtls) CertsNeedTls r;
            r = (if cs_server_cert c \<noteq> None \<and> cs_server_key c = None
                 then push_error ServerCertNeedsKey r
                 else if cs_server_cert c = None \<and> cs_server_key c \<noteq> None
                 then push_error ServerKeyNeedsCert r else r);
            r = (if cs_client_cert c \<noteq> None \<and> cs_client_key c = None
                 then push_error ClientCertNeedsKey r
                 else if cs_client_cert c = None \<and> cs_client_key c \<noteq> None
                 then push_error ClientKeyNeedsCert r else r);
            pki_profile = (pr_profile p = Some ''subset146-pki'');
            has_path_material = (cs_server_cert c \<noteq> None \<or> cs_server_key c \<noteq> None
              \<or> cs_client_cert c \<noteq> None \<or> cs_client_key c \<noteq> None \<or> cs_ca_cert c \<noteq> None)
        in if (pr_mutual_auth p \<or> pki_profile) \<and> has_path_material
           then err_if (\<not> has_mutual_bundle c) MutualBundleIncomplete r
           else warn_if (cs_client_cert c \<noteq> None \<or> cs_client_key c \<noteq> None) ClientCertIgnored r)"

section \<open>One scenario\<close>

definition validate_kind :: "scenario \<Rightarrow> scenario_report \<Rightarrow> scenario_report" where
  "validate_kind s r =
     (let p = sc_protocol s in
      case pr_kind p of
        Wireguard \<Rightarrow>
          (case sc_sender s of
             Some sn \<Rightarrow> err_if (sn_interface sn \<noteq> Udp) WireguardNeedsUdp r
           | None \<Rightarrow> r)
      | Ipsec \<Rightarrow> push_error IpsecStub r
      | Custom \<Rightarrow>
          err_if (trim (case pr_security_provider p of Some n \<Rightarrow> n | None \<Rightarrow> []) = [])
            CustomNeedsProvider r
      | _ \<Rightarrow> r)"

definition validate_sender :: "scenario \<Rightarrow> scenario_report \<Rightarrow> scenario_report" where
  "validate_sender s r =
     (case sc_sender s of
        None \<Rightarrow> r
      | Some sn \<Rightarrow>
          validate_protocol_transport s (sn_interface sn)
            (validate_transport_needs_gateway (sn_interface sn) (sc_gateway s)
              (validate_pattern sn
                (validate_addr (sn_interface sn) (sn_target_addr sn) ''sender.target_addr'' r))))"

definition validate_latency :: "scenario \<Rightarrow> scenario_report \<Rightarrow> scenario_report" where
  "validate_latency s r =
     (if is_latency_category (sc_category s)
      then (case sc_sender s of
              Some sn \<Rightarrow>
                warn_if (sn_pattern sn = Sustained \<and> sn_rate_limit_mbps sn = None)
                  LatencyUnthrottled r
            | None \<Rightarrow> r)
      else r)"

definition validate_saturation :: "scenario \<Rightarrow> scenario_report \<Rightarrow> scenario_report" where
  "validate_saturation s r =
     (case sc_saturation s of
        None \<Rightarrow> r
      | Some sat \<Rightarrow>
          if \<not> (is_finite (st_start_mbps sat) \<and> is_finite (st_step_mbps sat)
                 \<and> is_finite (st_max_mbps sat))
          then push_error SaturationNotFinite r
          else
            err_if (flt (st_max_mbps sat) (st_start_mbps sat)) SaturationMax
              (err_if (fle (st_step_mbps sat) 0) SaturationStep
                (err_if (fle (st_start_mbps sat) 0) SaturationStart r)))"

definition validate_stream ::
  "scenario \<Rightarrow> nat \<times> stream \<Rightarrow> scenario_report \<Rightarrow> scenario_report" where
  "validate_stream s ist r =
     (case ist of (i, st) \<Rightarrow>
      let name = ''streams['' @ show_nat i @ '']'';
          r = validate_addr (sr_interface st) (sr_target_addr st) (name @ ''.target_addr'') r;
          r = validate_transport_needs_gateway (sr_interface st) (sc_gateway s) r;
          r = err_if (sr_message_size_bytes st = 0) (StreamSizeZero i) r;
          r = err_if (sr_pattern st = Periodic \<and> sr_interval_us st = None)
                (StreamPeriodicInterval i) r;
          r = validate_dscp (py_dscp_tag (sr_priority st)) name r;
          r = err_if (canonical_traffic_class (py_traffic_class (sr_priority st)) = None)
                (StreamTrafficClass i (py_traffic_class (sr_priority st))) r;
          r = err_if (sr_interface st \<noteq> Tcp) (StreamNotTcp i (sr_interface st)) r;
          r = err_if (sr_connections st \<noteq> 1) (StreamConnections i) r
      in warn_if (pr_kind (sr_protocol st) \<noteq> ProtoNone
                  \<and> pr_kind (sr_protocol st) \<noteq> pr_kind (sc_protocol s))
           (StreamProtocolDiffers i (pr_kind (sr_protocol st)) (pr_kind (sc_protocol s))) r)"

definition validate_streams :: "scenario \<Rightarrow> scenario_report \<Rightarrow> scenario_report" where
  "validate_streams s r =
     (let r = fold (validate_stream s) (enumerate 0 (sc_streams s)) r in
      if sc_streams s = [] then r
      else
        let r = err_if (\<not> gw_enabled (sc_gateway s)) StreamsNeedGateway r;
            k = pr_kind (sc_protocol s);
            r = err_if (k = Dtls \<or> k = Wireguard \<or> k = Ipsec) (StreamsProtocol k) r
        in push_note (StreamsNote (length (sc_streams s))) r)"

definition validate_flags :: "scenario \<Rightarrow> scenario_report \<Rightarrow> scenario_report" where
  "validate_flags s r =
     (let p = sc_protocol s; fl = sc_optimization_flags s;
          r = (if of_zero_copy fl
               then (let routing = (pr_protection_mode p = RoutingOnly \<or> pr_kind p = ProtoNone);
                         ktls = pr_kernel p
                     in err_if (\<not> routing \<and> \<not> ktls) ZeroCopyNeedsRouting r)
               else r);
          r = (case of_perf_profile fl of
                 Some profile \<Rightarrow>
                   err_if (\<not> (profile = ''throughput'' \<or> profile = ''latency''
                               \<or> profile = ''balanced'')) (PerfProfileInvalid profile) r
               | None \<Rightarrow> r)
      in err_if (pr_resumption p \<and> pr_kind p \<noteq> Tls) ResumptionNeedsTls r)"

definition validate_reload :: "scenario \<Rightarrow> scenario_report \<Rightarrow> scenario_report" where
  "validate_reload s r =
     (case sc_reload_event s of
        None \<Rightarrow> r
      | Some reload \<Rightarrow>
          push_note (ReloadNote (re_action reload))
            (warn_if (re_action reload = UpdateTlsProfile \<and> re_payload_file reload = None)
               (ReloadNeedsPayload (re_action reload))
               (err_if (\<not> gw_enabled (sc_gateway s)) ReloadNeedsGateway r)))"

definition validate_topology :: "scenario \<Rightarrow> scenario_report \<Rightarrow> scenario_report" where
  "validate_topology s r =
     (let m = tp_mode (sc_topology s) in
      warn_if ((m = Veth \<or> m = Netns) \<and> \<not> tp_auto_setup (sc_topology s))
        (TopologyNoAutoSetup m) r)"

text \<open>\<open>validate_scenario\<close>: a disabled scenario is reported as skipped and not checked further.\<close>

definition validate_scenario :: "scenario \<Rightarrow> scenario_report" where
  "validate_scenario s =
     (let r = \<lparr>rp_name = sc_name s, rp_enabled = sc_enabled s, rp_errors = [], rp_warnings = [],
               rp_notes = []\<rparr>;
          r = err_if (trim (sc_name s) = []) NameEmpty r
      in if \<not> sc_enabled s
         then push_note (SkipNote (case sc_disabled_reason s of Some d \<Rightarrow> d | None \<Rightarrow> ''disabled'')) r
         else
           let r = err_if (sc_sender s = None \<and> sc_streams s = []) NeedsSenderOrStreams r;
               r = validate_kind s r;
               r = err_if (pr_kernel (sc_protocol s) \<and> pr_kind (sc_protocol s) \<noteq> Tls)
                     KernelNeedsTls r;
               r = validate_sender s r;
               r = validate_latency s r;
               r = validate_saturation s r;
               r = validate_streams s r;
               r = validate_flags s r;
               r = validate_certificate_selection s r;
               r = validate_reload s r
           in validate_topology s r)"

section \<open>The whole document\<close>

fun duplicate_names :: "string list \<Rightarrow> string list \<Rightarrow> issue list" where
  "duplicate_names seen [] = []"
| "duplicate_names seen (n # ns) =
     (if n \<in> set seen then DuplicateName n # duplicate_names seen ns
      else duplicate_names (n # seen) ns)"

definition validate :: "config \<Rightarrow> validation_report" where
  "validate c =
     (let d = cf_defaults c;
          suite_errors =
            (if trim (su_name (cf_suite c)) = [] then [SuiteNameEmpty] else [])
            @ (if trim (su_version (cf_suite c)) = [] then [SuiteVersionEmpty] else [])
            @ (if df_runs d = 0 then [RunsZero] else [])
            @ (if \<not> (fle (Fin 0) (df_confidence_level d) \<and> flt (df_confidence_level d) (Fin 1))
                  \<or> fle (df_confidence_level d) (Fin 0) then [ConfidenceRange] else [])
            @ (if df_metrics_sample_rate_hz d = 0 then [SampleRateZero] else [])
            @ duplicate_names [] (map sc_name (cf_scenarios c))
      in \<lparr>vr_suite_errors = suite_errors,
          vr_scenarios = map validate_scenario (cf_scenarios c)\<rparr>)"

section \<open>Run-time estimates\<close>

definition or_default :: "'a option \<Rightarrow> 'a \<Rightarrow> 'a" where
  "or_default x d = (case x of Some v \<Rightarrow> v | None \<Rightarrow> d)"

definition scenario_run_secs :: "scenario \<Rightarrow> defaults \<Rightarrow> u64" where
  "scenario_run_secs s d =
     (let warmup = or_default (sc_warmup_secs s) (df_warmup_secs d);
          duration = or_default (sc_duration_secs s) (df_duration_secs d);
          cooldown = or_default (sc_cooldown_secs s) (df_cooldown_secs d)
      in warmup + duration + cooldown)"

definition scenario_runs :: "scenario \<Rightarrow> defaults \<Rightarrow> u32" where
  "scenario_runs s d = or_default (sc_runs s) (df_runs d)"

definition estimate_total_secs :: "config \<Rightarrow> u64" where
  "estimate_total_secs c =
     sum_list (map (\<lambda>s. scenario_run_secs s (cf_defaults c)
                        * ucast (scenario_runs s (cf_defaults c)))
       (filter sc_enabled (cf_scenarios c)))"

definition human_secs :: "u64 \<Rightarrow> string" where
  "human_secs secs =
     (let t = unat secs; h = t div 3600; m = t mod 3600 div 60; s = t mod 60
      in (if 0 < h then show_nat h @ ''h '' else [])
         @ (if 0 < h \<or> 0 < m then show_nat m @ ''m '' else [])
         @ show_nat s @ ''s'')"

text \<open>A scenario with every optional field left out, and a minimal one with a sender.\<close>

definition sample_scenario :: scenario where
  "sample_scenario = \<lparr>sc_name = ''s'', sc_category = None, sc_mode = Throughput, sc_enabled = True,
     sc_disabled_reason = None, sc_message_size_bytes = None, sc_connections = 1,
     sc_sender = None, sc_protocol = protocol_default, sc_topology = topology_default,
     sc_address_family = Ipv4, sc_gateway = gateway_default, sc_network_impairment = None,
     sc_streams = [], sc_reload_event = None,
     sc_optimization_flags = optimization_flags_default, sc_runs = None, sc_duration_secs = None,
     sc_warmup_secs = None, sc_cooldown_secs = None, sc_saturation = None,
     sc_requirements = \<lparr>rq_openssl = False, rq_ktls = False, rq_dtls10 = False,
       rq_cap_net_admin = False, rq_perf = False, rq_ebpf = False\<rparr>,
     sc_comparison = None, sc_description = None\<rparr>"

definition sample_sender :: sender where
  "sample_sender = \<lparr>sn_interface = Tcp, sn_target_addr = ''127.0.0.1:10000'',
     sn_pattern = Sustained, sn_rate_limit_mbps = None, sn_interval_us = None,
     sn_burst_count = None, sn_burst_pause_us = None, sn_ramp_start_mbps = None,
     sn_ramp_step_mbps = None, sn_ramp_step_interval_secs = None\<rparr>"

section \<open>When a document passes\<close>

named_theorems report_simps \<open>a check leaves the error list empty exactly when its condition holds\<close>

lemma push_simps [report_simps]:
  "rp_errors (push_error e r) = rp_errors r @ [e]" "rp_errors (push_warning e r) = rp_errors r"
  "rp_errors (push_note e r) = rp_errors r"
  by (simp_all add: push_error_def push_warning_def push_note_def)

lemma if_errors [report_simps]:
  "rp_errors (if c then r else r') = (if c then rp_errors r else rp_errors r')"
  by simp

definition addr_ok :: "interface \<Rightarrow> string \<Rightarrow> bool" where
  "addr_ok iface addr =
     (case iface of
        Tcp \<Rightarrow> host_port_ok addr | Udp \<Rightarrow> host_port_ok addr | Tproxy \<Rightarrow> host_port_ok addr
      | Unix \<Rightarrow> starts_with addr ''/''
      | Shm \<Rightarrow> (\<exists>name. name \<noteq> [] \<and> addr = ''shm:///'' @ name))"

lemma shm_name:
  "(case strip_prefix p addr of Some n \<Rightarrow> n = [] | None \<Rightarrow> True)
     \<longleftrightarrow> \<not> (\<exists>name. name \<noteq> [] \<and> addr = p @ name)"
proof (cases "starts_with addr p")
  case True
  then obtain rest where "addr = p @ rest" by (auto simp: starts_with_iff prefix_def)
  with True show ?thesis by (auto simp: strip_prefix_def)
next
  case False
  then show ?thesis by (auto simp: strip_prefix_def starts_with_iff prefix_def)
qed

lemma validate_addr_ok [report_simps]:
  "rp_errors (validate_addr iface addr ctx r) = [] \<longleftrightarrow> rp_errors r = [] \<and> addr_ok iface addr"
  by (cases iface) (auto simp: validate_addr_def addr_ok_def report_simps Let_def shm_name)

definition pattern_ok :: "sender \<Rightarrow> bool" where
  "pattern_ok s =
     (case sn_pattern s of
        Sustained \<Rightarrow> True
      | Periodic \<Rightarrow> sn_interval_us s \<noteq> None
      | Burst \<Rightarrow> sn_burst_count s \<noteq> None
      | Ramp \<Rightarrow> sn_ramp_start_mbps s \<noteq> None \<and> sn_ramp_step_mbps s \<noteq> None
              \<and> sn_ramp_step_interval_secs s \<noteq> None)"

lemma validate_pattern_ok [report_simps]:
  "rp_errors (validate_pattern s r) = [] \<longleftrightarrow> rp_errors r = [] \<and> pattern_ok s"
  by (cases "sn_pattern s") (auto simp: validate_pattern_def pattern_ok_def report_simps)

definition gateway_ok :: "interface \<Rightarrow> gateway \<Rightarrow> bool" where
  "gateway_ok iface g = (iface \<in> {Unix, Shm} \<longrightarrow> gw_enabled g)"

lemma validate_transport_needs_gateway_ok [report_simps]:
  "rp_errors (validate_transport_needs_gateway iface g r) = []
     \<longleftrightarrow> rp_errors r = [] \<and> gateway_ok iface g"
  by (auto simp: validate_transport_needs_gateway_def gateway_ok_def report_simps)

definition comparison_ok :: "comparison \<Rightarrow> bool" where
  "comparison_ok c = (trim (cp_group c) \<noteq> [] \<and> trim (cp_reference c) \<noteq> [])"

definition transport_ok :: "scenario \<Rightarrow> interface \<Rightarrow> bool" where
  "transport_ok s iface =
     (let p = sc_protocol s in
      \<not> (pr_kind p = Tls \<and> pr_version p = V1_0) \<and> \<not> (pr_kind p = Dtls \<and> pr_version p = V1_3)
      \<and> (pr_kind p = Dtls \<longrightarrow> iface = Udp)
      \<and> (pr_app_protocol p \<noteq> AppNone \<longrightarrow> iface = Udp \<and> pr_kind p = Tls)
      \<and> pred_option comparison_ok (sc_comparison s))"

lemma validate_protocol_transport_ok [report_simps]:
  "rp_errors (validate_protocol_transport s iface r) = []
     \<longleftrightarrow> rp_errors r = [] \<and> transport_ok s iface"
  by (cases "sc_comparison s")
    (auto simp: validate_protocol_transport_def transport_ok_def comparison_ok_def report_simps
      Let_def)

lemma validate_dscp_ok [report_simps]: "rp_errors (validate_dscp tag ctx r) = rp_errors r"
  by (simp add: validate_dscp_def report_simps)

definition certs_ok :: "protocol \<Rightarrow> bool" where
  "certs_ok p =
     (let c = pr_certificates p in
      cert_is_empty c
      \<or> pr_kind p \<in> {Tls, Dtls}
        \<and> (cs_server_cert c = None \<longleftrightarrow> cs_server_key c = None)
        \<and> (cs_client_cert c = None \<longleftrightarrow> cs_client_key c = None)
        \<and> ((pr_mutual_auth p \<or> pr_profile p = Some ''subset146-pki'')
             \<and> (cs_server_cert c \<noteq> None \<or> cs_client_cert c \<noteq> None \<or> cs_ca_cert c \<noteq> None)
           \<longrightarrow> has_mutual_bundle c))"

lemma validate_certificate_selection_ok [report_simps]:
  "rp_errors (validate_certificate_selection s r) = []
     \<longleftrightarrow> rp_errors r = [] \<and> certs_ok (sc_protocol s)"
proof (cases "cert_is_empty (pr_certificates (sc_protocol s))")
  case True
  then show ?thesis by (simp add: validate_certificate_selection_def certs_ok_def)
next
  case False
  let ?c = "pr_certificates (sc_protocol s)"
  show ?thesis using False
    by (cases "cs_server_cert ?c"; cases "cs_server_key ?c"; cases "cs_client_cert ?c";
        cases "cs_client_key ?c"; cases "cs_ca_cert ?c")
      (simp_all add: validate_certificate_selection_def certs_ok_def Let_def report_simps
        has_mutual_bundle_def has_server_identity_def)
qed

definition kind_ok :: "scenario \<Rightarrow> bool" where
  "kind_ok s =
     (let p = sc_protocol s in
      (pr_kind p = Wireguard \<longrightarrow> pred_option (\<lambda>sn. sn_interface sn = Udp) (sc_sender s))
      \<and> pr_kind p \<noteq> Ipsec
      \<and> (pr_kind p = Custom \<longrightarrow> pred_option (\<lambda>n. trim n \<noteq> []) (pr_security_provider p)
                              \<and> pr_security_provider p \<noteq> None))"

lemma trim_Nil [simp]: "trim [] = []"
  by (simp add: trim_def)

lemma validate_kind_ok [report_simps]:
  "rp_errors (validate_kind s r) = [] \<longleftrightarrow> rp_errors r = [] \<and> kind_ok s"
  by (cases "pr_kind (sc_protocol s)"; cases "sc_sender s";
      cases "pr_security_provider (sc_protocol s)")
    (auto simp: validate_kind_def kind_ok_def report_simps Let_def)

definition sender_ok :: "scenario \<Rightarrow> sender \<Rightarrow> bool" where
  "sender_ok s sn =
     (addr_ok (sn_interface sn) (sn_target_addr sn) \<and> pattern_ok sn
      \<and> gateway_ok (sn_interface sn) (sc_gateway s) \<and> transport_ok s (sn_interface sn))"

lemma validate_sender_ok [report_simps]:
  "rp_errors (validate_sender s r) = [] \<longleftrightarrow> rp_errors r = [] \<and> pred_option (sender_ok s) (sc_sender s)"
  by (cases "sc_sender s") (auto simp: validate_sender_def sender_ok_def report_simps)

lemma validate_latency_ok [report_simps]: "rp_errors (validate_latency s r) = rp_errors r"
  by (simp add: validate_latency_def report_simps split: option.split)

definition saturation_ok :: "saturation \<Rightarrow> bool" where
  "saturation_ok sat = (\<exists>a b c. st_start_mbps sat = Fin a \<and> st_step_mbps sat = Fin b
     \<and> st_max_mbps sat = Fin c \<and> 0 < a \<and> 0 < b \<and> a \<le> c)"

lemma validate_saturation_ok [report_simps]:
  "rp_errors (validate_saturation s r) = []
     \<longleftrightarrow> rp_errors r = [] \<and> pred_option saturation_ok (sc_saturation s)"
proof (cases "sc_saturation s")
  case None
  then show ?thesis by (simp add: validate_saturation_def)
next
  case (Some sat)
  then show ?thesis
    by (cases "st_start_mbps sat"; cases "st_step_mbps sat"; cases "st_max_mbps sat")
      (auto simp: validate_saturation_def saturation_ok_def report_simps is_finite_def f64_simps)
qed

definition stream_ok :: "scenario \<Rightarrow> stream \<Rightarrow> bool" where
  "stream_ok s st =
     (host_port_ok (sr_target_addr st) \<and> sr_message_size_bytes st \<noteq> 0
      \<and> (sr_pattern st = Periodic \<longrightarrow> sr_interval_us st \<noteq> None)
      \<and> canonical_traffic_class (py_traffic_class (sr_priority st)) \<noteq> None
      \<and> sr_interface st = Tcp \<and> sr_connections st = 1)"

lemma validate_stream_ok [report_simps]:
  "rp_errors (validate_stream s (i, st) r) = [] \<longleftrightarrow> rp_errors r = [] \<and> stream_ok s st"
  unfolding validate_stream_def stream_ok_def Let_def prod.case
  by (simp add: report_simps) (auto simp: addr_ok_def gateway_ok_def)

lemma validate_stream_fold_ok [report_simps]:
  "rp_errors (fold (validate_stream s) (enumerate i sts) r) = []
     \<longleftrightarrow> rp_errors r = [] \<and> list_all (stream_ok s) sts"
  by (induction sts arbitrary: i r) (auto simp: report_simps)

definition streams_ok :: "scenario \<Rightarrow> bool" where
  "streams_ok s =
     (sc_streams s \<noteq> [] \<longrightarrow>
        gw_enabled (sc_gateway s) \<and> list_all (stream_ok s) (sc_streams s)
        \<and> pr_kind (sc_protocol s) \<in> {ProtoNone, Tls, Custom})"

lemma validate_streams_ok [report_simps]:
  "rp_errors (validate_streams s r) = []
     \<longleftrightarrow> rp_errors r = [] \<and> streams_ok s"
  by (cases "pr_kind (sc_protocol s)")
    (auto simp: validate_streams_def streams_ok_def report_simps Let_def)

definition flags_ok :: "scenario \<Rightarrow> bool" where
  "flags_ok s =
     (let p = sc_protocol s; fl = sc_optimization_flags s in
      (of_zero_copy fl \<longrightarrow> pr_kernel p \<or> pr_protection_mode p = RoutingOnly \<or> pr_kind p = ProtoNone)
      \<and> pred_option (\<lambda>x. x \<in> {''throughput'', ''latency'', ''balanced''}) (of_perf_profile fl)
      \<and> (pr_resumption p \<longrightarrow> pr_kind p = Tls))"

lemma validate_flags_ok [report_simps]:
  "rp_errors (validate_flags s r) = [] \<longleftrightarrow> rp_errors r = [] \<and> flags_ok s"
  by (cases "of_perf_profile (sc_optimization_flags s)")
    (auto simp: validate_flags_def flags_ok_def report_simps Let_def)

lemma validate_reload_ok [report_simps]:
  "rp_errors (validate_reload s r) = []
     \<longleftrightarrow> rp_errors r = [] \<and> (sc_reload_event s \<noteq> None \<longrightarrow> gw_enabled (sc_gateway s))"
  by (cases "sc_reload_event s") (auto simp: validate_reload_def report_simps)

lemma validate_topology_ok [report_simps]: "rp_errors (validate_topology s r) = rp_errors r"
  by (simp add: validate_topology_def report_simps Let_def)

text \<open>What a scenario that runs has to satisfy, stated on its fields.\<close>

definition runnable :: "scenario \<Rightarrow> bool" where
  "runnable s =
     ((sc_sender s \<noteq> None \<or> sc_streams s \<noteq> []) \<and> kind_ok s
      \<and> (pr_kernel (sc_protocol s) \<longrightarrow> pr_kind (sc_protocol s) = Tls)
      \<and> pred_option (sender_ok s) (sc_sender s) \<and> pred_option saturation_ok (sc_saturation s)
      \<and> streams_ok s \<and> flags_ok s \<and> certs_ok (sc_protocol s)
      \<and> (sc_reload_event s \<noteq> None \<longrightarrow> gw_enabled (sc_gateway s)))"

lemma scenario_report_ok_iff:
  "scenario_report_ok (validate_scenario s)
     \<longleftrightarrow> trim (sc_name s) \<noteq> [] \<and> (sc_enabled s \<longrightarrow> runnable s)"
  unfolding scenario_report_ok_def validate_scenario_def runnable_def Let_def
  by (simp add: report_simps)

lemma sample_trim: "trim ''s'' = ''s''"
  by code_simp

lemma sample_addr: "host_port_ok ''127.0.0.1:10000''"
  by (simp add: host_port_ok_def parse_uint_def digits_value_def is_digit_def)

lemmas sample_simps = sample_trim sample_addr sample_scenario_def sample_sender_def runnable_def
  kind_ok_def sender_ok_def addr_ok_def pattern_ok_def gateway_ok_def transport_ok_def
  streams_ok_def flags_ok_def certs_ok_def cert_is_empty_def protocol_default_def
  certificate_selection_default_def optimization_flags_default_def



lemma duplicate_names_Nil:
  "duplicate_names seen ns = [] \<longleftrightarrow> distinct ns \<and> set ns \<inter> set seen = {}"
  by (induction seen ns rule: duplicate_names.induct) auto

text \<open>
  A document passes validation exactly when its header is filled in, its defaults are usable,
  its scenario names are distinct, and every scenario passes: an enabled one is runnable.
\<close>

theorem validate_iff:
  "validation_report_ok (validate c)
     = (trim (su_name (cf_suite c)) \<noteq> [] \<and> trim (su_version (cf_suite c)) \<noteq> []
        \<and> df_runs (cf_defaults c) \<noteq> 0 \<and> df_metrics_sample_rate_hz (cf_defaults c) \<noteq> 0
        \<and> (\<exists>x. df_confidence_level (cf_defaults c) = Fin x \<and> 0 < x \<and> x < 1)
        \<and> distinct (map sc_name (cf_scenarios c))
        \<and> list_all (\<lambda>s. trim (sc_name s) \<noteq> [] \<and> (sc_enabled s \<longrightarrow> runnable s)) (cf_scenarios c))"
proof -
  have conf: "\<not> (\<not> (fle (Fin 0) x \<and> flt x (Fin 1)) \<or> fle x (Fin 0))
      \<longleftrightarrow> (\<exists>y. x = Fin y \<and> 0 < y \<and> y < 1)" for x
    by (cases x) (auto simp: f64_simps fle_def flt_def less_f64_def)
  show ?thesis
    unfolding validation_report_ok_def validate_def Let_def
    by (simp add: list.pred_map comp_def scenario_report_ok_iff duplicate_names_Nil conf [symmetric])
qed

lemma validate_iff_witness:
  "validation_report_ok (validate \<lparr>cf_schema = None,
     cf_suite = \<lparr>su_name = ''s'', su_description = [], su_author = [], su_version = ''s''\<rparr>,
     cf_defaults = defaults_default,
     cf_scenarios = [sample_scenario\<lparr>sc_sender := Some sample_sender\<rparr>]\<rparr>)"
  by (simp add: validate_iff sample_simps defaults_default_def) (intro exI [of _ "19 / 20"], simp)

lemma digits_split:
  assumes "a @ c # r = a' @ c' # r'" and "list_all is_digit a" "list_all is_digit a'"
    and "\<not> is_digit c" "\<not> is_digit c'"
  shows "a = a' \<and> c = c' \<and> r = r'"
  using assms
proof (induction a arbitrary: a')
  case Nil
  then show ?case by (cases a') auto
next
  case (Cons x a)
  then show ?case by (cases a') auto
qed

lemma show_split:
  assumes "\<not> is_digit c" and "\<not> is_digit c'"
  shows "show_nat m @ c # r = show_nat n @ c' # r' \<longleftrightarrow> m = n \<and> c = c' \<and> r = r'"
  using digits_split [OF _ show_nat_digits show_nat_digits assms] show_nat_inj by blast

lemma show_no_split: "\<not> is_digit c \<Longrightarrow> show_nat n \<noteq> m @ c # r"
proof
  assume c: "\<not> is_digit c" and eq: "show_nat n = m @ c # r"
  from show_nat_digits [of n] have "is_digit c" unfolding eq by simp
  with c show False by contradiction
qed

definition hms_text :: "nat \<Rightarrow> nat \<Rightarrow> nat \<Rightarrow> string" where
  "hms_text h m s =
     (if 0 < h then show_nat h @ ''h '' else [])
     @ (if 0 < h \<or> 0 < m then show_nat m @ ''m '' else []) @ show_nat s @ ''s''"

lemma human_secs_text:
  "human_secs t = hms_text (unat t div 3600) (unat t mod 3600 div 60) (unat t mod 60)"
  by (simp only: human_secs_def hms_text_def Let_def)

lemma hms_inj:
  assumes "hms_text h m s = hms_text h' m' s'"
  shows "h = h' \<and> m = m' \<and> s = s'"
proof -
  have nd: "\<not> is_digit (CHR ''h'')" "\<not> is_digit (CHR ''m'')" "\<not> is_digit (CHR ''s'')"
    by (simp_all add: is_digit_def)
  show ?thesis
    using assms unfolding hms_text_def
    by (cases "0 < h"; cases "0 < m"; cases "0 < h'"; cases "0 < m'")
      (simp_all add: show_split show_nat_inj nd)
qed

text \<open>
  \<open>human_secs\<close> loses nothing: two totals print alike only if they are equal, although leading
  zero units are left out.
\<close>

theorem human_secs_inj: "human_secs a = human_secs b \<longleftrightarrow> a = b"
proof
  let ?h = "\<lambda>n :: nat. n div 3600" and ?m = "\<lambda>n :: nat. n mod 3600 div 60"
  assume "human_secs a = human_secs b"
  then have *: "?h (unat a) = ?h (unat b) \<and> ?m (unat a) = ?m (unat b)
      \<and> unat a mod 60 = unat b mod 60"
    unfolding human_secs_text by (rule hms_inj)
  have split: "n = ?h n * 3600 + ?m n * 60 + n mod 60" for n
  proof -
    have "n mod 60 = n mod 3600 mod 60" by (simp add: mod_mod_cancel)
    then have "n mod 3600 = ?m n * 60 + n mod 60" by (metis div_mult_mod_eq)
    then show ?thesis using div_mult_mod_eq [of n 3600] by linarith
  qed
  have "unat a = ?h (unat a) * 3600 + ?m (unat a) * 60 + unat a mod 60" by (rule split)
  also have "\<dots> = ?h (unat b) * 3600 + ?m (unat b) * 60 + unat b mod 60" by (simp only: *)
  also have "\<dots> = unat b" by (rule split [symmetric])
  finally have "unat a = unat b" .
  then show "a = b" by (simp add: word_unat_eq_iff)
qed simp

lemma rsplit_once_split: "c \<notin> set t \<Longrightarrow> rsplit_once c (h @ c # t) = Some (h, t)"
proof (induction h)
  case Nil
  then have "rsplit_once c t = None" by (simp add: rsplit_once_None)
  then show ?case by simp
next
  case (Cons x h)
  then show ?case by simp
qed

lemma show_nat_no_colon: "CHR '':'' \<notin> set (show_nat n)"
  using show_nat_digits [of n] by (auto simp: list_all_iff is_digit_def)

text \<open>
  The addresses the harness composes are the ones its validator accepts: joining any non-empty
  host literal with a port gives a text that splits at its last colon into a non-empty host and the
  decimal text of exactly that port, IPv6 literals included.
\<close>

theorem join_host_port_valid:
  assumes "host \<noteq> []"
  shows "host_port_ok (join_host_port host port)
       \<and> (\<exists>h p. rsplit_once (CHR '':'') (join_host_port host port) = Some (h, p)
             \<and> parse_uint 65535 p = Some (unat port))"
proof -
  let ?p = "show_nat (unat port)"
  have parse: "parse_uint 65535 ?p = Some (unat port)"
    using unat_lt2p [of port] by (intro parse_show_nat) simp
  have "\<exists>h. h \<noteq> [] \<and> join_host_port host port = h @ CHR '':'' # ?p"
    using assms by (auto simp: join_host_port_def)
  then obtain h where "h \<noteq> []" "join_host_port host port = h @ CHR '':'' # ?p" by blast
  then show ?thesis
    by (simp add: host_port_ok_def rsplit_once_split show_nat_no_colon parse)
qed

lemma join_host_port_valid_witness:
  "host_port_ok (join_host_port ''::1'' 80) \<and> join_host_port ''::1'' 80 = ''[::1]:80''"
proof
  show "host_port_ok (join_host_port ''::1'' 80)" using join_host_port_valid [of "''::1''" 80] by simp
  show "join_host_port ''::1'' 80 = ''[::1]:80''" by code_simp
qed

text \<open>
  Protocol labels tell apart what they promise to: two TLS scenarios that are not integrity-only
  have the same label only when kernel offload, version, mutual authentication and resumption agree.
\<close>

theorem protocol_label_tls_inj:
  assumes "pr_kind (sc_protocol s) = Tls" and "pr_kind (sc_protocol t) = Tls"
    and "pr_protection_mode (sc_protocol s) \<noteq> IntegrityOnly"
    and "pr_protection_mode (sc_protocol t) \<noteq> IntegrityOnly"
  shows "protocol_label s = protocol_label t
     \<longleftrightarrow> pr_kernel (sc_protocol s) = pr_kernel (sc_protocol t)
       \<and> pr_version (sc_protocol s) = pr_version (sc_protocol t)
       \<and> pr_mutual_auth (sc_protocol s) = pr_mutual_auth (sc_protocol t)
       \<and> pr_resumption (sc_protocol s) = pr_resumption (sc_protocol t)"
  using assms
  by (cases "pr_version (sc_protocol s)"; cases "pr_version (sc_protocol t)")
    (auto simp: protocol_label_def Let_def)

lemma protocol_label_tls_inj_witness:
  "protocol_label (sample_scenario\<lparr>sc_protocol := protocol_default\<lparr>pr_kind := Tls\<rparr>\<rparr>)
     \<noteq> protocol_label (sample_scenario\<lparr>sc_protocol := protocol_default\<lparr>pr_kind := Tls, pr_kernel := True\<rparr>\<rparr>)"
  by (subst protocol_label_tls_inj) (simp_all add: sample_scenario_def protocol_default_def)

text \<open>
  The version checks of \<open>validate_protocol_transport\<close> are made for a sender only, so a scenario
  that has streams and no sender passes with TLS 1.0 (a gap the check of the sender's interface
  leaves open).
\<close>

lemma streams_accept_tls10:
  assumes "sc_sender s = None" and "sc_streams s = [st]" and "stream_ok s st"
    and "trim (sc_name s) \<noteq> []" and "gw_enabled (sc_gateway s)" and "sc_saturation s = None"
    and "sc_protocol s = protocol_default\<lparr>pr_kind := Tls, pr_version := V1_0\<rparr>"
    and "sc_optimization_flags s = optimization_flags_default"
  shows "scenario_report_ok (validate_scenario s)"
  using assms
  by (simp add: scenario_report_ok_iff runnable_def kind_ok_def streams_ok_def flags_ok_def
      certs_ok_def protocol_default_def optimization_flags_default_def cert_is_empty_def
      certificate_selection_default_def)

end
