(* ===== verification/Overhead.thy ===== *)
theory Overhead
  imports Seshat_Prelude
begin

text \<open>
  Per-message header overhead of each encapsulation, \<open>src/src/metrics/overhead.rs\<close>, and the bandwidth
  efficiency computed from it.
\<close>

datatype encap_profile =
  EncTcp | EncUdp | Tls12Gcm | Tls12Cbc | Tls13Aead | Dtls12Gcm | Dtls12Cbc | EncUds | EncShm

record overhead =
  oh_ip_header :: u32
  oh_transport_header :: u32
  oh_security_overhead :: u32
  oh_total :: u32

definition efficiency :: "overhead \<Rightarrow> u32 \<Rightarrow> f64" where
  "efficiency oh payload_bytes =
     (if payload_bytes = 0 then 0
      else f_of_word payload_bytes / f_of_word (payload_bytes + oh_total oh))"

fun compute :: "encap_profile \<Rightarrow> overhead" where
  "compute EncTcp = \<lparr>oh_ip_header = 20, oh_transport_header = 32, oh_security_overhead = 0,
     oh_total = 52\<rparr>"
| "compute EncUdp = \<lparr>oh_ip_header = 20, oh_transport_header = 8, oh_security_overhead = 0,
     oh_total = 28\<rparr>"
| "compute Tls12Gcm = \<lparr>oh_ip_header = 20, oh_transport_header = 32, oh_security_overhead = 29,
     oh_total = 81\<rparr>"
| "compute Tls12Cbc = \<lparr>oh_ip_header = 20, oh_transport_header = 32, oh_security_overhead = 61,
     oh_total = 113\<rparr>"
| "compute Tls13Aead = \<lparr>oh_ip_header = 20, oh_transport_header = 32, oh_security_overhead = 22,
     oh_total = 74\<rparr>"
| "compute Dtls12Gcm = \<lparr>oh_ip_header = 20, oh_transport_header = 8, oh_security_overhead = 37,
     oh_total = 65\<rparr>"
| "compute Dtls12Cbc = \<lparr>oh_ip_header = 20, oh_transport_header = 8, oh_security_overhead = 69,
     oh_total = 97\<rparr>"
| "compute EncUds = \<lparr>oh_ip_header = 0, oh_transport_header = 0, oh_security_overhead = 0,
     oh_total = 0\<rparr>"
| "compute EncShm = \<lparr>oh_ip_header = 0, oh_transport_header = 0, oh_security_overhead = 0,
     oh_total = 0\<rparr>"

lemma compute_total:
  "oh_total (compute p)
     = oh_ip_header (compute p) + oh_transport_header (compute p) + oh_security_overhead (compute p)"
  and compute_total_le: "unat (oh_total (compute p)) \<le> 113"
  by (cases p; simp)+

text \<open>
  For every profile the stated total is the sum of its parts, and for every payload below 4 GiB
  minus the largest overhead the efficiency is a ratio in \<open>(0, 1]\<close> that reaches 1 exactly for the profiles
  without headers.
\<close>

theorem efficiency_range:
  assumes "payload \<noteq> 0" and "unat payload + 113 < 2 ^ 32"
  shows "oh_total (compute p)
       = oh_ip_header (compute p) + oh_transport_header (compute p) + oh_security_overhead (compute p)
     \<and> (\<exists>r. efficiency (compute p) payload = Fin r \<and> 0 < r \<and> r \<le> 1
          \<and> (r = 1 \<longleftrightarrow> p \<in> {EncUds, EncShm}))"
proof -
  define a t where "a = real (unat payload)" and "t = real (unat (oh_total (compute p)))"
  have "unat (payload + oh_total (compute p)) = unat payload + unat (oh_total (compute p))"
    using assms(2) compute_total_le [of p] by (simp add: unat_word_ariths)
  then have den: "f_of_word (payload + oh_total (compute p)) = Fin (a + t)"
    unfolding f_of_word_def a_def t_def by (simp only: of_nat_add)
  have "0 < unat payload" using assms(1) by (simp add: unat_gt_0)
  then have a: "0 < a" unfolding a_def by (simp only: of_nat_0_less_iff)
  have t: "0 \<le> t" unfolding t_def by (rule of_nat_0_le_iff)
  have eff: "efficiency (compute p) payload = Fin (a / (a + t))"
    using assms(1) a t by (simp add: efficiency_def den) (simp add: f_of_word_def a_def Fin_arith)
  have "(t = 0) = (p \<in> {EncUds, EncShm})" unfolding t_def by (cases p) simp_all
  moreover have "(a / (a + t) = 1) = (t = 0)" using a t by (simp add: field_simps)
  moreover have "0 < a / (a + t)" "a / (a + t) \<le> 1" using a t by simp_all
  ultimately show ?thesis using eff compute_total [of p] by simp
qed

lemma efficiency_range_witness:
  "\<exists>r. efficiency (compute Tls13Aead) 1400 = Fin r \<and> 0 < r \<and> r \<le> 1"
  using efficiency_range [of 1400 Tls13Aead] by auto

end
