(* ===== verification/Dscp.thy ===== *)
theory Dscp
  imports Schema
begin

text \<open>
  DSCP tags, \<open>src/src/workload/dscp.rs\<close>: tag names to 6-bit values, their place in the TOS byte, the
  socket options and the walk over the control messages a datagram arrives with. The kernel calls are
  parameters: their results are arguments.
\<close>

unbundle bit_operations_syntax

definition named_tags :: "(string \<times> u8) list" where
  "named_tags =
     [(''EF'', 46), (''BE'', 0), (''CS0'', 0), (''DF'', 0), (''CS1'', 8), (''CS2'', 16),
      (''CS3'', 24), (''CS4'', 32), (''CS5'', 40), (''CS6'', 48), (''CS7'', 56),
      (''AF11'', 10), (''AF12'', 12), (''AF13'', 14), (''AF21'', 18), (''AF22'', 20),
      (''AF23'', 22), (''AF31'', 26), (''AF32'', 28), (''AF33'', 30), (''AF41'', 34),
      (''AF42'', 36), (''AF43'', 38)]"

definition parse_dscp_tag :: "string \<Rightarrow> u8 option" where
  "parse_dscp_tag tag =
     (let tag = to_upper (trim tag) in
      case map_of named_tags tag of
        Some v \<Rightarrow> Some v
      | None \<Rightarrow>
          (case parse_uint 255 tag of
             Some v \<Rightarrow> if v < 64 then Some (of_nat v) else None
           | None \<Rightarrow> None))"

definition dscp_to_tos :: "u8 \<Rightarrow> u8" where
  "dscp_to_tos dscp = push_bit 2 dscp"

definition tos_to_dscp :: "u8 \<Rightarrow> u8" where
  "tos_to_dscp tos = drop_bit 2 tos"

text \<open>
  \<open>set_dscp\<close>, \<open>enable_recvtos\<close>, \<open>get_tos\<close>: \<open>sys level option value\<close> is the outcome of the kernel
  call, an error code or the option's value.
\<close>

definition IPPROTO_IP :: int where "IPPROTO_IP = 0"
definition IP_TOS :: int where "IP_TOS = 1"
definition IP_RECVTOS :: int where "IP_RECVTOS = 13"

definition set_dscp :: "(int \<Rightarrow> int \<Rightarrow> int \<Rightarrow> 'e + unit) \<Rightarrow> u8 \<Rightarrow> 'e + unit" where
  "set_dscp setsockopt dscp = setsockopt IPPROTO_IP IP_TOS (uint (dscp_to_tos dscp))"

definition enable_recvtos :: "(int \<Rightarrow> int \<Rightarrow> int \<Rightarrow> 'e + unit) \<Rightarrow> 'e + unit" where
  "enable_recvtos setsockopt = setsockopt IPPROTO_IP IP_RECVTOS 1"

definition get_tos :: "(int \<Rightarrow> int \<Rightarrow> 'e + int) \<Rightarrow> 'e + u8" where
  "get_tos getsockopt =
     (case getsockopt IPPROTO_IP IP_TOS of Inl e \<Rightarrow> Inl e | Inr v \<Rightarrow> Inr (word_of_int v))"

text \<open>A control message: level, type, first data byte. The walk stops at the first TOS.\<close>

record cmsg =
  cm_level :: int
  cm_type :: int
  cm_data :: u8

fun find_tos :: "cmsg list \<Rightarrow> u8 option" where
  "find_tos [] = None"
| "find_tos (c # cs) =
     (if cm_level c = IPPROTO_IP \<and> cm_type c = IP_TOS then Some (cm_data c) else find_tos cs)"

definition recv_one_with_tos :: "'e + nat \<times> cmsg list \<Rightarrow> 'e + nat \<times> u8 option" where
  "recv_one_with_tos recvmsg =
     (case recvmsg of Inl e \<Rightarrow> Inl e | Inr (n, cmsgs) \<Rightarrow> Inr (n, find_tos cmsgs))"

lemma map_of_named_bound: "map_of named_tags t = Some v \<Longrightarrow> v < 64"
  by (auto simp: named_tags_def split: if_splits)

lemma parse_dscp_bound:
  assumes "parse_dscp_tag tag = Some v"
  shows "v < 64"
proof (cases "map_of named_tags (to_upper (trim tag))")
  case (Some w)
  with assms have "w = v" by (simp add: parse_dscp_tag_def)
  with Some show ?thesis using map_of_named_bound by simp
next
  case None
  with assms obtain n where "n < 64" "v = of_nat n"
    by (auto simp: parse_dscp_tag_def Let_def split: option.splits if_splits)
  then show ?thesis by (simp add: word_less_nat_alt unat_of_nat)
qed

lemma tos_round: "v < 64 \<Longrightarrow> tos_to_dscp (dscp_to_tos v) = v"
proof -
  assume "v < 64"
  then have v: "unat v < 64" by (simp add: word_less_nat_alt)
  have "unat (dscp_to_tos v) = unat v * 4"
    using v by (simp add: dscp_to_tos_def push_bit_eq_mult unat_word_ariths)
  then have "unat (tos_to_dscp (dscp_to_tos v)) = unat v"
    by (simp add: tos_to_dscp_def drop_bit_eq_div unat_div)
  then show ?thesis by (simp add: word_unat_eq_iff)
qed

lemma tos_round_ecn:
  assumes "v < 64" and "ecn < 4"
  shows "tos_to_dscp (dscp_to_tos v OR ecn) = v"
proof -
  have "unat (drop_bit 2 ecn) = 0" using assms(2) by (simp add: drop_bit_eq_div unat_div word_less_nat_alt)
  then have "drop_bit 2 ecn = 0" by (simp add: unat_eq_0)
  then show ?thesis
    using tos_round [OF assms(1)] by (simp add: tos_to_dscp_def drop_bit_or)
qed

text \<open>
  Every tag the parser accepts is a 6-bit value that survives the TOS byte: the sender's mark,
  read back by the receiver from any packet whose control messages carry that byte, is the parsed
  value, whatever the ECN bits the network sets and whatever control messages come before it.
\<close>

theorem dscp_observed:
  assumes "parse_dscp_tag tag = Some v" and "ecn < 4"
    and "list_all (\<lambda>c. cm_level c \<noteq> IPPROTO_IP \<or> cm_type c \<noteq> IP_TOS) before"
    and "cm_level c = IPPROTO_IP" and "cm_type c = IP_TOS" and "cm_data c = dscp_to_tos v OR ecn"
  shows "v < 64
       \<and> (\<exists>tos. recv_one_with_tos (Inr (n, before @ c # rest)) = Inr (n, Some tos)
               \<and> tos_to_dscp tos = v)"
proof -
  have "find_tos (before @ c # rest) = Some (dscp_to_tos v OR ecn)"
    using assms(3-6) by (induction before) auto
  then show ?thesis
    using parse_dscp_bound [OF assms(1)] tos_round_ecn assms(2) by (simp add: recv_one_with_tos_def)
qed

lemma dscp_observed_witness:
  "\<exists>tos. recv_one_with_tos (Inr (9, [] @ \<lparr>cm_level = IPPROTO_IP, cm_type = IP_TOS,
       cm_data = dscp_to_tos 34 OR 2\<rparr> # [])) = (Inr (9, Some tos) :: unit + nat \<times> u8 option)
     \<and> tos_to_dscp tos = 34"
proof -
  have tag: "parse_dscp_tag '' af41 '' = Some 34" by code_simp
  show ?thesis
    by (rule dscp_observed [OF tag, THEN conjunct2, of 2]) simp_all
qed

end
