(* ===== verification/Sender.thy ===== *)
theory Sender
  imports Schema Wire
begin

text \<open>
  Sender-side workload, \<open>src/src/workload/sender.rs\<close>: the pacer, a state machine that turns a traffic
  pattern into send deadlines, the lag tally and the message builders. Deadlines are \<open>u64\<close>
  nanoseconds that saturate.

  Two interfaces are stated as locales: a source of deadlines that never go back (\<open>deadlines\<close>), and a
  tally that per-thread accounts can be merged into (\<open>tally\<close>).
\<close>

section \<open>Pacing\<close>

definition MIN_MESSAGE_SIZE :: u32 where
  "MIN_MESSAGE_SIZE = of_nat HEADER_LEN"

definition gap_ns_for_rate :: "u32 \<Rightarrow> f64 \<Rightarrow> u64" where
  "gap_ns_for_rate msg_bytes rate_mbps =
     (if fle rate_mbps 0 then 0
      else let message_bits = f_of_word msg_bytes * Fin 8
           in f_to_u64 (message_bits / (rate_mbps * Fin (10 ^ 6)) * Fin (10 ^ 9)))"

datatype pacer_kind =
    PFixed (pk_gap_ns: u64)
  | PBurst (pk_count: u64) (pk_burst_gap_ns: u64) (pk_pause_ns: u64) (pk_pos: u64)
  | PRamp (pk_message_bytes: u32) (pk_start_mbps: f64) (pk_step_mbps: f64)
      (pk_step_interval_ns: u64)

record pacer =
  pc_kind :: pacer_kind
  pc_next_ns :: u64

definition or_else :: "'a option \<Rightarrow> 'a option \<Rightarrow> 'a option" where
  "or_else x y = (case x of Some _ \<Rightarrow> x | None \<Rightarrow> y)"

definition unwrap_or :: "'a option \<Rightarrow> 'a \<Rightarrow> 'a" where
  "unwrap_or x d = (case x of Some v \<Rightarrow> v | None \<Rightarrow> d)"

definition from_sender :: "sender \<Rightarrow> u32 \<Rightarrow> pacer" where
  "from_sender s msg_bytes =
     (let by_rate = map_option (gap_ns_for_rate msg_bytes) (sn_rate_limit_mbps s);
          by_interval = map_option (\<lambda>us. sat_mul us 1000) (sn_interval_us s);
          kind =
            (case sn_pattern s of
               Sustained \<Rightarrow> PFixed (unwrap_or by_rate 0)
             | Periodic \<Rightarrow> PFixed (unwrap_or (or_else by_interval by_rate) 0)
             | Burst \<Rightarrow>
                 PBurst (max (unwrap_or (sn_burst_count s) 1) 1)
                   (unwrap_or (or_else by_interval by_rate) 0)
                   (sat_mul (unwrap_or (sn_burst_pause_us s) 0) 1000) 0
             | Ramp \<Rightarrow>
                 PRamp msg_bytes (fmax (unwrap_or (sn_ramp_start_mbps s) 0) 0)
                   (fmax (unwrap_or (sn_ramp_step_mbps s) 0) 0)
                   (sat_mul (max (unwrap_or (sn_ramp_step_interval_secs s) 1) 1) 1000000000))
      in \<lparr>pc_kind = kind, pc_next_ns = 0\<rparr>)"

definition next_deadline_ns :: "pacer \<Rightarrow> u64 \<times> pacer" where
  "next_deadline_ns p =
     (let deadline = pc_next_ns p in
      case pc_kind p of
        PFixed gap \<Rightarrow> (deadline, p\<lparr>pc_next_ns := sat_add deadline gap\<rparr>)
      | PBurst count gap pause pos \<Rightarrow>
          (let pos = pos + 1 in
           if count \<le> pos
           then (deadline, \<lparr>pc_kind = PBurst count gap pause 0,
                  pc_next_ns = sat_add (sat_add deadline gap) pause\<rparr>)
           else (deadline, \<lparr>pc_kind = PBurst count gap pause pos,
                  pc_next_ns = sat_add deadline gap\<rparr>))
      | PRamp msg_bytes start step interval \<Rightarrow>
          (let steps = deadline div interval;
               rate = start + step * f_of_word steps;
               gap = gap_ns_for_rate msg_bytes rate
           in (deadline, p\<lparr>pc_next_ns := sat_add deadline gap\<rparr>)))"

definition is_blast :: "pacer \<Rightarrow> bool" where
  "is_blast p = (case pc_kind p of PFixed gap \<Rightarrow> gap = 0 | _ \<Rightarrow> False)"

section \<open>The lag tally\<close>

type_synonym u128 = "128 word"

record send_lag =
  sl_count :: u64
  sl_sum_ns :: u128
  sl_max_ns :: u64

definition send_lag_default :: send_lag where
  "send_lag_default = \<lparr>sl_count = 0, sl_sum_ns = 0, sl_max_ns = 0\<rparr>"

definition lag_record :: "u64 \<Rightarrow> send_lag \<Rightarrow> send_lag" where
  "lag_record ns l =
     \<lparr>sl_count = sl_count l + 1, sl_sum_ns = sl_sum_ns l + ucast ns,
      sl_max_ns = (if sl_max_ns l < ns then ns else sl_max_ns l)\<rparr>"

definition lag_merge :: "send_lag \<Rightarrow> send_lag \<Rightarrow> send_lag" where
  "lag_merge l other =
     \<lparr>sl_count = sl_count l + sl_count other, sl_sum_ns = sl_sum_ns l + sl_sum_ns other,
      sl_max_ns = (if sl_max_ns l < sl_max_ns other then sl_max_ns other else sl_max_ns l)\<rparr>"

definition mean_us :: "send_lag \<Rightarrow> f64" where
  "mean_us l = (if sl_count l = 0 then 0
                else (f_of_word (sl_sum_ns l) / f_of_word (sl_count l)) / Fin 1000)"

definition max_us :: "send_lag \<Rightarrow> f64" where
  "max_us l = f_of_word (sl_max_ns l) / Fin 1000"

section \<open>Message builders\<close>

record message_builder =
  mb_buf :: "u8 list"
  mb_payload_len :: u32
  mb_message_bytes :: u32

definition builder_new :: "u32 \<Rightarrow> message_builder" where
  "builder_new msg_bytes =
     (let msg_bytes = max msg_bytes MIN_MESSAGE_SIZE;
          payload_len = msg_bytes - MIN_MESSAGE_SIZE
      in \<lparr>mb_buf = replicate (unat msg_bytes) 0, mb_payload_len = payload_len,
          mb_message_bytes = msg_bytes\<rparr>)"

text \<open>\<open>build_at\<close> returns the filled prefix of the reused buffer; None would be a panic.\<close>

definition build_at :: "u64 \<Rightarrow> u64 \<Rightarrow> message_builder \<Rightarrow> (u8 list \<times> message_builder) option" where
  "build_at seq ts_ns b =
     (case encode_message_at seq (mb_payload_len b) ts_ns (mb_buf b) of
        None \<Rightarrow> None
      | Some (buf, len) \<Rightarrow> Some (take len buf, b\<lparr>mb_buf := buf\<rparr>))"

definition build :: "u64 \<Rightarrow> u64 \<Rightarrow> message_builder \<Rightarrow> (u8 list \<times> message_builder) option" where
  "build seq now b =
     (case encode_message seq (mb_payload_len b) now (mb_buf b) of
        None \<Rightarrow> None
      | Some (buf, len) \<Rightarrow> Some (take len buf, b\<lparr>mb_buf := buf\<rparr>))"

definition build_into :: "u64 \<Rightarrow> u64 \<Rightarrow> message_builder \<Rightarrow> u8 list \<Rightarrow> (u8 list \<times> nat) option" where
  "build_into seq ts_ns b dst = encode_message_at seq (mb_payload_len b) ts_ns dst"

definition message_len :: "message_builder \<Rightarrow> nat" where
  "message_len b = unat (mb_message_bytes b)"

record batch_builder =
  bb_bufs :: "u8 list list"
  bb_payload_len :: u32

definition batch_new :: "u32 \<Rightarrow> nat \<Rightarrow> batch_builder" where
  "batch_new msg_bytes batch =
     (let msg_bytes = max msg_bytes MIN_MESSAGE_SIZE
      in \<lparr>bb_bufs = replicate (max batch 1) (replicate (unat msg_bytes) 0),
          bb_payload_len = msg_bytes - MIN_MESSAGE_SIZE\<rparr>)"

text \<open>
  The loop of \<open>BatchBuilder::build\<close> over the first \<open>count\<close> buffers; message \<open>i\<close> is stamped with the
  clock reading \<open>now i\<close>.
\<close>

fun batch_fill :: "u64 \<Rightarrow> u32 \<Rightarrow> (nat \<Rightarrow> u64) \<Rightarrow> nat \<Rightarrow> nat \<Rightarrow> u8 list list \<Rightarrow> u8 list list option" where
  "batch_fill seq_start n now count i [] = Some []"
| "batch_fill seq_start n now count i (buf # bufs) =
     (if i < count
      then (case encode_message (seq_start + of_nat i) n (now i) buf of
              None \<Rightarrow> None
            | Some (b, _) \<Rightarrow> map_option ((#) b) (batch_fill seq_start n now count (i + 1) bufs))
      else Some (buf # bufs))"

definition batch_build ::
  "u64 \<Rightarrow> nat \<Rightarrow> (nat \<Rightarrow> u64) \<Rightarrow> batch_builder \<Rightarrow> (u8 list list \<times> batch_builder) option" where
  "batch_build seq_start count now b =
     (let count = min count (length (bb_bufs b)) in
      map_option (\<lambda>bufs. (take count bufs, b\<lparr>bb_bufs := bufs\<rparr>))
        (batch_fill seq_start (bb_payload_len b) now count 0 (bb_bufs b)))"

definition capacity :: "batch_builder \<Rightarrow> nat" where
  "capacity b = length (bb_bufs b)"

section \<open>A source of deadlines\<close>

locale deadlines =
  fixes nx :: "'s \<Rightarrow> 'd::linorder \<times> 's"
  assumes step_mono: "fst (nx s) \<le> fst (nx (snd (nx s)))"
begin

lemma head_le: "d \<in> set (unfold_n nx n s) \<Longrightarrow> fst (nx s) \<le> d"
proof (induction n arbitrary: s)
  case 0
  then show ?case by simp
next
  case (Suc n)
  show ?case
  proof (cases "d = fst (nx s)")
    case False
    with Suc.prems have "d \<in> set (unfold_n nx n (snd (nx s)))" by (auto simp: split_beta)
    with Suc.IH have "fst (nx (snd (nx s))) \<le> d" .
    with step_mono [of s] show ?thesis by (rule order_trans)
  qed simp
qed

lemma unfold_sorted: "sorted (unfold_n nx n s)"
  by (induction n arbitrary: s) (auto simp: split_beta intro: order_trans [OF step_mono head_le])

end

lemma next_deadline_fst [simp]: "fst (next_deadline_ns p) = pc_next_ns p"
  by (simp add: next_deadline_ns_def Let_def split: pacer_kind.split)

lemma next_deadline_mono: "pc_next_ns p \<le> pc_next_ns (snd (next_deadline_ns p))"
  by (auto simp: next_deadline_ns_def Let_def sat_add_ge intro: order_trans [OF sat_add_ge sat_add_ge]
      split: pacer_kind.split)

interpretation pacer: deadlines next_deadline_ns
  by unfold_locales (simp add: next_deadline_mono)

text \<open>The pacer after \<open>k\<close> messages.\<close>

abbreviation paced :: "nat \<Rightarrow> pacer \<Rightarrow> pacer" where
  "paced k p \<equiv> ((\<lambda>p. snd (next_deadline_ns p)) ^^ k) p"

lemma min_add_min: "min (min a m + b) m = min (a + b) m" for a b m :: nat
  by (simp add: min_def)

lemma len64: "LENGTH(64) = 64" by simp

lemma next_burst:
  assumes "pc_kind p = PBurst count gap pause pos"
  shows "snd (next_deadline_ns p) =
     (if count \<le> pos + 1
      then \<lparr>pc_kind = PBurst count gap pause 0, pc_next_ns = sat_add (sat_add (pc_next_ns p) gap) pause\<rparr>
      else \<lparr>pc_kind = PBurst count gap pause (pos + 1), pc_next_ns = sat_add (pc_next_ns p) gap\<rparr>)"
  using assms by (simp add: next_deadline_ns_def Let_def)

lemma paced_burst:
  assumes "count \<noteq> 0"
  shows "pc_kind (paced k \<lparr>pc_kind = PBurst count gap pause 0, pc_next_ns = 0\<rparr>)
           = PBurst count gap pause (of_nat (k mod unat count))
       \<and> unat (pc_next_ns (paced k \<lparr>pc_kind = PBurst count gap pause 0, pc_next_ns = 0\<rparr>))
           = min (2 ^ 64 - 1) (k * unat gap + k div unat count * unat pause)"
proof (induction k)
  case 0
  show ?case by simp
next
  case (Suc k)
  let ?p = "paced k \<lparr>pc_kind = PBurst count gap pause 0, pc_next_ns = 0\<rparr>"
  let ?c = "unat count"
  have c: "0 < ?c" using assms by (simp add: unat_gt_0)
  have kind: "pc_kind ?p = PBurst count gap pause (of_nat (k mod ?c))"
    and ns: "unat (pc_next_ns ?p) = min (2 ^ 64 - 1) (k * unat gap + k div ?c * unat pause)"
    using Suc.IH by auto
  have lt: "k mod ?c + 1 \<le> ?c" using c by (simp add: Suc_le_eq)
  then have pos: "unat (of_nat (k mod ?c) + 1 :: u64) = k mod ?c + 1"
    if "k mod ?c + 1 < ?c"
  proof -
    have "k mod ?c + 1 < 2 ^ 64" using that unat_lt2p [of count] by simp
    then have "unat (of_nat (k mod ?c + 1) :: u64) = k mod ?c + 1"
      by (simp only: unat_of_nat_u64)
    then show ?thesis by (simp only: of_nat_add of_nat_1)
  qed
  show ?case
  proof (cases "k mod ?c + 1 = ?c")
    case True
    have "count \<le> of_nat (k mod ?c) + 1"
    proof -
      have "unat (of_nat (k mod ?c + 1) :: u64) = ?c"
        unfolding True using unat_lt2p [of count] by (simp add: unat_of_nat)
      then show ?thesis by (simp add: word_le_nat_alt add.commute)
    qed
    then have "snd (next_deadline_ns ?p) = \<lparr>pc_kind = PBurst count gap pause 0,
        pc_next_ns = sat_add (sat_add (pc_next_ns ?p) gap) pause\<rparr>"
      by (simp only: next_burst [OF kind] if_True if_False)
    moreover have "Suc k mod ?c = 0" "Suc k div ?c = Suc (k div ?c)"
      using True by (simp_all add: mod_Suc div_Suc)
    moreover have "Suc k * unat gap + Suc (k div ?c) * unat pause
        = k * unat gap + k div ?c * unat pause + unat gap + unat pause" by simp
    ultimately show ?thesis
      by (simp only: funpow.simps comp_apply pacer.simps unat_sat_add ns min.commute [of "2 ^ 64 - 1"]
          min_add_min len64 simp_thms) simp
  next
    case False
    with lt have less: "k mod ?c + 1 < ?c" by simp
    then have "\<not> count \<le> of_nat (k mod ?c) + 1" by (simp add: word_le_nat_alt pos)
    then have "snd (next_deadline_ns ?p) = \<lparr>pc_kind = PBurst count gap pause (of_nat (k mod ?c) + 1),
        pc_next_ns = sat_add (pc_next_ns ?p) gap\<rparr>"
      by (simp only: next_burst [OF kind] if_True if_False)
    moreover have "Suc k mod ?c = Suc (k mod ?c)" "Suc k div ?c = k div ?c"
      using less by (simp_all add: mod_Suc div_Suc)
    moreover have "Suc k * unat gap + k div ?c * unat pause
        = k * unat gap + k div ?c * unat pause + unat gap" by simp
    ultimately show ?thesis
      by (simp only: funpow.simps comp_apply pacer.simps unat_sat_add ns min.commute [of "2 ^ 64 - 1"]
          min_add_min len64 of_nat_Suc add.commute simp_thms)
  qed
qed

text \<open>
  C29: The burst schedule is exactly the one the pattern describes: message \<open>k\<close> is due after \<open>k\<close> gaps
  and one pause per completed burst, saturating at the top of the clock; deadlines never go back, and a
  burst pattern's pacer is in that form whatever the sender's optional fields are.
\<close>

theorem burst_schedule:
  assumes "sn_pattern s = Burst" and "k < n"
  shows "\<exists>count gap pause.
       from_sender s msz = \<lparr>pc_kind = PBurst count gap pause 0, pc_next_ns = 0\<rparr>
     \<and> 1 \<le> count
     \<and> unat (unfold_n next_deadline_ns n (from_sender s msz) ! k)
         = min (2 ^ 64 - 1) (k * unat gap + k div unat count * unat pause)
     \<and> sorted (unfold_n next_deadline_ns n (from_sender s msz))"
proof -
  define count gap pause where "count = max (unwrap_or (sn_burst_count s) 1) 1"
    and "gap = unwrap_or (or_else (map_option (\<lambda>us. sat_mul us 1000) (sn_interval_us s))
                 (map_option (gap_ns_for_rate msz) (sn_rate_limit_mbps s))) 0"
    and "pause = sat_mul (unwrap_or (sn_burst_pause_us s) 0) 1000"
  have p: "from_sender s msz = \<lparr>pc_kind = PBurst count gap pause 0, pc_next_ns = 0\<rparr>"
    using assms(1) by (simp add: from_sender_def count_def gap_def pause_def)
  have c: "1 \<le> count" by (simp add: count_def)
  then have "count \<noteq> 0" by auto
  from paced_burst [OF this, of k gap pause]
  have "unat (unfold_n next_deadline_ns n (from_sender s msz) ! k)
      = min (2 ^ 64 - 1) (k * unat gap + k div unat count * unat pause)"
    by (simp only: nth_unfold_n [OF assms(2)] next_deadline_fst p)
  then show ?thesis using p c pacer.unfold_sorted by blast
qed

lemma burst_schedule_witness:
  "unat (unfold_n next_deadline_ns 5 (from_sender \<lparr>sn_interface = Tcp, sn_target_addr = [],
      sn_pattern = Burst, sn_rate_limit_mbps = None, sn_interval_us = Some 2,
      sn_burst_count = Some 2, sn_burst_pause_us = Some 10, sn_ramp_start_mbps = None,
      sn_ramp_step_mbps = None, sn_ramp_step_interval_secs = None\<rparr> 64) ! 4) = 28000"
  (is "unat (unfold_n _ _ (from_sender ?s _) ! _) = _")
proof -
  have p: "from_sender ?s 64 = \<lparr>pc_kind = PBurst 2 2000 10000 0, pc_next_ns = 0\<rparr>"
    by (simp add: from_sender_def unwrap_or_def or_else_def sat_mul_def max_def word_le_nat_alt)
  from burst_schedule [of ?s 4 5 64] show ?thesis unfolding p by auto
qed

section \<open>Rates\<close>

lemma f_to_u64_mono: "a \<le> b \<Longrightarrow> f_to_u64 (Fin a) \<le> f_to_u64 (Fin b)"
  unfolding word_le_nat_alt unat_f_to_u64 f_to_nat.simps
  by (intro min.mono nat_mono floor_mono order_refl)

lemma gap_ns_for_rate_Fin:
  "gap_ns_for_rate n (Fin r) =
     (if r \<le> 0 then 0 else f_to_u64 (Fin (real (unat n) * 8 / (r * 10 ^ 6) * 10 ^ 9)))"
  by (simp add: gap_ns_for_rate_def f64_simps Let_def)

lemma gap_antitone:
  assumes "0 < r" and "r \<le> r'"
  shows "gap_ns_for_rate n (Fin r') \<le> gap_ns_for_rate n (Fin r)"
proof -
  have "real (unat n) * 8 / (r' * 10 ^ 6) * 10 ^ 9 \<le> real (unat n) * 8 / (r * 10 ^ 6) * 10 ^ 9"
    using assms by (intro mult_right_mono divide_left_mono mult_pos_pos mult_nonneg_nonneg
        of_nat_0_le_iff) auto
  then have "f_to_u64 (Fin (real (unat n) * 8 / (r' * 10 ^ 6) * 10 ^ 9))
      \<le> f_to_u64 (Fin (real (unat n) * 8 / (r * 10 ^ 6) * 10 ^ 9))"
    by (rule f_to_u64_mono)
  then show ?thesis using assms by (simp only: gap_ns_for_rate_Fin) auto
qed

text \<open>A ramp whose start rate is zero or missing never leaves its first deadline.\<close>

lemma ramp_from_zero_stuck:
  assumes "sn_pattern s = Ramp" and "sn_ramp_start_mbps s = Some (Fin r)" and "r \<le> 0"
    and "sn_ramp_step_mbps s = Some (Fin st)"
  shows "pc_next_ns (paced k (from_sender s msz)) = 0"
proof -
  obtain iv where p: "from_sender s msz = \<lparr>pc_kind = PRamp msz (Fin 0) (Fin (max st 0)) iv,
      pc_next_ns = 0\<rparr>"
    using assms by (auto simp: from_sender_def unwrap_or_def f64_simps)
  have "snd (next_deadline_ns (from_sender s msz)) = from_sender s msz"
    by (simp add: p next_deadline_ns_def Let_def f64_simps gap_ns_for_rate_def sat_add_def)
  then have "paced k (from_sender s msz) = from_sender s msz" by (induction k) auto
  then show ?thesis by (simp add: p)
qed

section \<open>Tallies that merge\<close>

locale tally =
  fixes empty :: 't and rcd :: "'e \<Rightarrow> 't \<Rightarrow> 't" and merge :: "'t \<Rightarrow> 't \<Rightarrow> 't"
  assumes merge_empty: "merge t empty = t"
    and merge_rcd: "merge t (rcd e u) = rcd e (merge t u)"
begin

lemma merge_fold: "merge t (fold rcd xs u) = fold rcd xs (merge t u)"
  by (induction xs arbitrary: u) (auto simp: merge_rcd)

lemma merge_all:
  "foldl merge (fold rcd ys empty) (map (\<lambda>xs. fold rcd xs empty) xss)
     = fold rcd (ys @ concat xss) empty"
proof (induction xss arbitrary: ys)
  case Nil
  then show ?case by simp
next
  case (Cons xs xss)
  have "merge (fold rcd ys empty) (fold rcd xs empty) = fold rcd (ys @ xs) empty"
    by (simp add: merge_fold merge_empty)
  with Cons.IH [of "ys @ xs"] show ?case by simp
qed

end

interpretation lag: tally send_lag_default lag_record lag_merge
  by unfold_locales (auto simp: send_lag_default_def lag_record_def lag_merge_def)

lemma lag_fold_count: "sl_count (fold lag_record xs l) = sl_count l + of_nat (length xs)"
  by (induction xs arbitrary: l) (auto simp: lag_record_def)

lemma lag_fold_sum:
  "sl_sum_ns (fold lag_record xs l) = sl_sum_ns l + of_nat (sum_list (map unat xs))"
  by (induction xs arbitrary: l) (auto simp: lag_record_def of_nat_unat)

lemma lag_fold_max: "sl_max_ns (fold lag_record xs l) = fold (\<lambda>x m. max m x) xs (sl_max_ns l)"
  by (induction xs arbitrary: l) (auto simp: lag_record_def max_def intro!: arg_cong [where f = "fold _ _"])

lemma sum_unat_bound: "sum_list (map unat xs) \<le> length xs * (2 ^ 64 - 1)" for xs :: "u64 list"
proof (induction xs)
  case Nil
  then show ?case by simp
next
  case (Cons x xs)
  have "unat x \<le> 2 ^ 64 - 1" using unat_lt2p [of x] by simp
  with Cons show ?case by simp
qed

text \<open>C30: 
  The lag accounts of parallel sender threads lose nothing when they are merged: folding any
  number of per-thread tallies gives the tally of all their samples, its 128-bit sum cannot wrap for
  fewer than \<open>2^64\<close> samples, and the reported mean is the arithmetic mean in microseconds.
\<close>

theorem send_lag_merge_exact:
  assumes "length (concat xss) < 2 ^ 64" and "concat xss \<noteq> []"
  shows "let l = foldl lag_merge send_lag_default (map (\<lambda>xs. fold lag_record xs send_lag_default) xss)
     in l = fold lag_record (concat xss) send_lag_default
      \<and> unat (sl_count l) = length (concat xss)
      \<and> unat (sl_sum_ns l) = sum_list (map unat (concat xss))
      \<and> sl_max_ns l = Max (set (concat xss))
      \<and> mean_us l = Fin (real (sum_list (map unat (concat xss))) / real (length (concat xss)) / 1000)"
proof -
  let ?xs = "concat xss"
  let ?l = "fold lag_record ?xs send_lag_default"
  have eq: "foldl lag_merge send_lag_default (map (\<lambda>xs. fold lag_record xs send_lag_default) xss) = ?l"
    using lag.merge_all [of "[]" xss] by simp
  have count: "unat (sl_count ?l) = length ?xs"
    using assms(1) by (simp add: lag_fold_count send_lag_default_def unat_of_nat_u64)
  have "sum_list (map unat ?xs) \<le> length ?xs * (2 ^ 64 - 1)" by (rule sum_unat_bound)
  also have "\<dots> \<le> 2 ^ 64 * (2 ^ 64 - 1)" using assms(1) by (intro mult_right_mono) auto
  also have "\<dots> < (2::nat) ^ 128" by simp
  finally have sum: "unat (sl_sum_ns ?l) = sum_list (map unat ?xs)"
    by (simp add: lag_fold_sum send_lag_default_def unat_of_nat)
  have "sl_max_ns ?l = fold max ?xs 0"
    by (simp add: lag_fold_max send_lag_default_def max.commute)
  also have "\<dots> = Max (set (0 # ?xs))" by (simp only: Max.set_eq_fold)
  also have "\<dots> = Max (set ?xs)" using assms(2) by (simp del: set_concat)
  finally have mx: "sl_max_ns ?l = Max (set ?xs)" .
  have "0 < length ?xs" using assms(2) by simp
  then have "sl_count ?l \<noteq> 0" using count by (metis less_irrefl unat_0)
  then have "mean_us ?l = Fin (real (sum_list (map unat ?xs)) / real (length ?xs) / 1000)"
    using Fin_arith(4) [of "real (length ?xs)"] \<open>0 < length ?xs\<close>
    unfolding mean_us_def f_of_word_def count sum by (simp only: if_False of_nat_0_less_iff) simp
  then show ?thesis unfolding Let_def eq using count sum mx by blast
qed

lemma send_lag_merge_exact_witness:
  "mean_us (foldl lag_merge send_lag_default (map (\<lambda>xs. fold lag_record xs send_lag_default) [[3000], [], [1000]]))
     = Fin 2"
proof -
  have "length (concat [[3000], [], [1000 :: u64]]) < 2 ^ 64" "concat [[3000], [], [1000 :: u64]] \<noteq> []"
    by simp_all
  note * = send_lag_merge_exact [OF this, unfolded Let_def, THEN conjunct2, THEN conjunct2,
      THEN conjunct2, THEN conjunct2]
  show ?thesis unfolding * by simp
qed

section \<open>What the builders produce\<close>

definition builder_ok :: "message_builder \<Rightarrow> bool" where
  "builder_ok b = (length (mb_buf b) = HEADER_LEN + unat (mb_payload_len b)
     \<and> unat (mb_message_bytes b) = HEADER_LEN + unat (mb_payload_len b))"

lemma sized:
  "HEADER_LEN + unat (max m MIN_MESSAGE_SIZE - MIN_MESSAGE_SIZE) = unat (max m MIN_MESSAGE_SIZE)"
proof -
  have "MIN_MESSAGE_SIZE \<le> max m MIN_MESSAGE_SIZE" by simp
  then have "unat (max m MIN_MESSAGE_SIZE - MIN_MESSAGE_SIZE)
      = unat (max m MIN_MESSAGE_SIZE) - unat MIN_MESSAGE_SIZE"
    and "unat MIN_MESSAGE_SIZE \<le> unat (max m MIN_MESSAGE_SIZE)"
    by (simp_all only: unat_sub word_le_nat_alt)
  then show ?thesis by (simp add: MIN_MESSAGE_SIZE_def HEADER_LEN_def)
qed

lemma builder_ok_new: "builder_ok (builder_new m)"
  by (simp add: builder_ok_def builder_new_def Let_def sized)

lemma build_at_eq:
  assumes "builder_ok b"
  shows "build_at seq ts b = Some (message_bytes (stamp_at seq (mb_payload_len b) ts),
           b\<lparr>mb_buf := message_bytes (stamp_at seq (mb_payload_len b) ts)\<rparr>)"
  using assms by (simp add: build_at_def encode_message_at_eq builder_ok_def stamp_at_def)

lemma builder_ok_build:
  "builder_ok b \<Longrightarrow> builder_ok (b\<lparr>mb_buf := message_bytes (stamp_at seq (mb_payload_len b) ts)\<rparr>)"
  by (simp add: builder_ok_def stamp_at_def)

definition batch_ok :: "batch_builder \<Rightarrow> bool" where
  "batch_ok b = list_all (\<lambda>buf. length buf = HEADER_LEN + unat (bb_payload_len b)) (bb_bufs b)"

lemma batch_ok_new: "batch_ok (batch_new m k)"
  by (simp add: batch_ok_def batch_new_def Let_def sized list_all_iff)

lemma batch_fill_eq:
  assumes "list_all (\<lambda>buf. length buf = HEADER_LEN + unat n) bufs" and "count \<le> i + length bufs"
  shows "batch_fill seq n now count i bufs
     = Some (map (\<lambda>j. message_bytes (stamp_at (seq + of_nat j) n (now j))) [i..<max i count]
             @ drop (count - i) bufs)"
  using assms
proof (induction bufs arbitrary: i)
  case Nil
  then show ?case by simp
next
  case (Cons buf bufs)
  show ?case
  proof (cases "i < count")
    case True
    then have "[i..<max i count] = i # [Suc i..<max (Suc i) count]"
      and "count - i = Suc (count - Suc i)" by (simp_all add: upt_rec max_def)
    then show ?thesis using Cons True
      by (simp add: encode_message_def encode_message_at_eq stamp_at_def)
  qed simp
qed

text \<open>Consecutive messages: the headers numbered from \<open>seq\<close>, one per timestamp.\<close>

fun numbered :: "u64 \<Rightarrow> u32 \<Rightarrow> u64 list \<Rightarrow> wire_header list" where
  "numbered seq n [] = []"
| "numbered seq n (t # ts) = stamp_at seq n t # numbered (seq + 1) n ts"

lemma length_numbered [simp]: "length (numbered seq n ts) = length ts"
  by (induction ts arbitrary: seq) auto

lemma numbered_append:
  "numbered seq n (xs @ ys) = numbered seq n xs @ numbered (seq + of_nat (length xs)) n ys"
  by (induction xs arbitrary: seq) (auto simp: algebra_simps)

lemma take_numbered: "take k (numbered seq n ts) = numbered seq n (take k ts)"
  by (induction ts arbitrary: seq k) (auto simp: take_Cons split: nat.split)

lemma nth_numbered: "i < length ts \<Longrightarrow> numbered seq n ts ! i = stamp_at (seq + of_nat i) n (ts ! i)"
  by (induction ts arbitrary: seq i) (auto simp: nth_Cons algebra_simps split: nat.split)

lemma payload_len_numbered: "h \<in> set (numbered seq n ts) \<Longrightarrow> wh_payload_len h = n"
  by (induction ts arbitrary: seq) (auto simp: stamp_at_def)

lemma batch_build_eq:
  assumes "batch_ok b"
  shows "\<exists>b'. batch_build seq_start count now b
         = Some (map message_bytes (numbered seq_start (bb_payload_len b) (map now [0..<min count (capacity b)])), b')
       \<and> batch_ok b' \<and> capacity b' = capacity b \<and> bb_payload_len b' = bb_payload_len b"
proof -
  let ?n = "bb_payload_len b" and ?k = "min count (length (bb_bufs b))"
  let ?msgs = "map (\<lambda>j. message_bytes (stamp_at (seq_start + of_nat j) ?n (now j))) [0..<?k]"
  let ?b' = "b\<lparr>bb_bufs := ?msgs @ drop ?k (bb_bufs b)\<rparr>"
  have fill: "batch_fill seq_start ?n now ?k 0 (bb_bufs b) = Some (?msgs @ drop ?k (bb_bufs b))"
    using assms batch_fill_eq [of ?n "bb_bufs b" ?k 0] by (simp add: batch_ok_def)
  have "?msgs = map message_bytes (numbered seq_start ?n (map now [0..<min count (capacity b)]))"
    by (rule nth_equalityI) (simp_all add: capacity_def nth_numbered)
  moreover have "batch_build seq_start count now b = Some (?msgs, ?b')"
    by (simp add: batch_build_def Let_def fill)
  moreover have "batch_ok ?b'"
    using assms by (auto simp: batch_ok_def list_all_iff stamp_at_def dest: in_set_dropD)
  moreover have "capacity ?b' = capacity b" by (simp add: capacity_def)
  ultimately show ?thesis by auto
qed

text \<open>
  A batch is a run of consecutive messages: for any builder that \<open>BatchBuilder::new\<close> made or a
  previous batch left behind, building never panics, returns the requested number of messages capped at
  the capacity, message \<open>i\<close> decodes to sequence number \<open>seq_start + i\<close> with its own timestamp, and the
  builder stays usable with the same capacity.
\<close>

theorem batch_build_messages:
  assumes "batch_ok b"
  shows "\<exists>msgs b'. batch_build seq_start count now b = Some (msgs, b')
       \<and> batch_ok b' \<and> capacity b' = capacity b \<and> length msgs = min count (capacity b)
       \<and> (\<forall>i. i < length msgs \<longrightarrow> decode_message (msgs ! i)
             = Inr (stamp_at (seq_start + of_nat i) (bb_payload_len b) (now i)))"
proof -
  let ?hs = "numbered seq_start (bb_payload_len b) (map now [0..<min count (capacity b)])"
  obtain b' where "batch_build seq_start count now b = Some (map message_bytes ?hs, b')"
      "batch_ok b'" "capacity b' = capacity b"
    using batch_build_eq [OF assms] by blast
  moreover have "decode_message (map message_bytes ?hs ! i)
      = Inr (stamp_at (seq_start + of_nat i) (bb_payload_len b) (now i))" if "i < length ?hs" for i
    using that decode_message_bytes [of _ "[]"] by (simp add: nth_numbered)
  ultimately show ?thesis by simp
qed

lemma batch_build_messages_witness:
  "\<exists>msgs b'. batch_build 5 3 (\<lambda>_. 9) (batch_new 30 2) = Some (msgs, b') \<and> length msgs = 2"
  using batch_build_messages [OF batch_ok_new, of 5 3 "\<lambda>_. 9" 30 2]
  by (auto simp: capacity_def batch_new_def Let_def)

text \<open>A ramp speeds up: the gap that follows a later deadline is never longer.\<close>

lemma ramp_accelerates:
  assumes "0 < a" and "0 \<le> b" and "d \<le> d'"
  shows "gap_ns_for_rate n (Fin a + Fin b * f_of_word (d' div iv))
       \<le> gap_ns_for_rate n (Fin a + Fin b * f_of_word (d div iv))"
proof -
  have "unat (d div iv) \<le> unat (d' div iv)"
    using assms(3) by (simp add: unat_div word_le_nat_alt div_le_mono)
  then have "b * real (unat (d div iv)) \<le> b * real (unat (d' div iv))"
    using assms(2) by (intro mult_left_mono) (simp_all only: of_nat_le_iff)
  moreover have "0 \<le> b * real (unat (d div iv))"
    using assms(2) by (intro mult_nonneg_nonneg of_nat_0_le_iff)
  ultimately show ?thesis
    using assms(1) unfolding f_of_word_def Fin_arith by (intro gap_antitone) linarith+
qed

end
