(* ===== verification/Framing.thy ===== *)
theory Framing
  imports Wire Seshat_Strings
begin

text \<open>
  The transport interface, \<open>src/src/transport/mod.rs\<close>: batch sizing, per-connection identifiers, the
  outcomes, the default batch operations of \<open>DataSink\<close> and \<open>DataSource\<close>, and \<open>FramedReader\<close>, which cuts
  a byte stream back into messages. A read of the underlying stream is a parameter
  \<open>rd len s = (answer, s')\<close>: at most \<open>len\<close> bytes, no bytes for end of stream, or an error kind.

  The reader's contract is the locale \<open>stream_framing\<close>: bytes pending in the reader followed by the
  bytes still in the stream are a sequence of messages, and receiving yields exactly those.
\<close>

section \<open>Batches and identifiers\<close>

definition BATCH_MAX :: nat where "BATCH_MAX = 32"
definition BATCH_ABS_MAX :: nat where "BATCH_ABS_MAX = 1024"
definition BATCH_BYTES_BUDGET :: nat where "BATCH_BYTES_BUDGET = 256 * 1024"

definition clamp_nat :: "nat \<Rightarrow> nat \<Rightarrow> nat \<Rightarrow> nat" where
  "clamp_nat x lo hi = (if x < lo then lo else if hi < x then hi else x)"

definition stream_batch_size :: "u32 \<Rightarrow> nat" where
  "stream_batch_size n =
     clamp_nat (BATCH_BYTES_BUDGET div unat (max n 1)) BATCH_MAX BATCH_ABS_MAX"

definition conn_app_id :: "string \<Rightarrow> nat \<Rightarrow> string" where
  "conn_app_id base index =
     (let suffix = ''-c'' @ show_nat index; room = 40 - length suffix
      in take room base @ suffix)"

section \<open>Outcomes and default batch operations\<close>

datatype recv_outcome = Message nat | Timeout | Closed
datatype batch_outcome = Messages nat | BTimeout | BClosed
datatype fill_outcome = Filled | FTimeout | FClosed

datatype io_error = WouldBlock | TimedOut | Interrupted | InvalidData | WriteZero | OtherErr nat

text \<open>
  \<open>send_batch\<close> by default: one \<open>send_msg\<close> after the other; an error behind the first message is
  reported as a short count.
\<close>

fun send_batch_from ::
  "('m \<Rightarrow> 's \<Rightarrow> (io_error + unit) \<times> 's) \<Rightarrow> nat \<Rightarrow> 'm list \<Rightarrow> 's \<Rightarrow> (io_error + nat) \<times> 's" where
  "send_batch_from send_msg i [] s = (Inr i, s)"
| "send_batch_from send_msg i (m # ms) s =
     (case send_msg m s of
        (Inl e, s') \<Rightarrow> (if i = 0 then (Inl e, s') else (Inr i, s'))
      | (Inr _, s') \<Rightarrow> send_batch_from send_msg (i + 1) ms s')"

definition send_batch_default ::
  "('m \<Rightarrow> 's \<Rightarrow> (io_error + unit) \<times> 's) \<Rightarrow> 'm list \<Rightarrow> 's \<Rightarrow> (io_error + nat) \<times> 's" where
  "send_batch_default send_msg msgs s = send_batch_from send_msg 0 msgs s"

text \<open>\<open>recv_batch\<close> by default: one message into the first slot.\<close>

definition recv_batch_default ::
  "(u8 list \<Rightarrow> 's \<Rightarrow> (io_error + recv_outcome) \<times> u8 list \<times> 's)
   \<Rightarrow> u8 list \<Rightarrow> nat \<Rightarrow> nat \<Rightarrow> nat list \<Rightarrow> 's
   \<Rightarrow> (io_error + batch_outcome) \<times> u8 list \<times> nat list \<times> 's" where
  "recv_batch_default recv_msg buf stride k lens s =
     (if k = 0 \<or> stride = 0 \<or> length buf < stride \<or> lens = [] then (Inr BTimeout, buf, lens, s)
      else (case recv_msg (take stride buf) s of
              (Inl e, slot, s') \<Rightarrow> (Inl e, slot @ drop stride buf, lens, s')
            | (Inr (Message n), slot, s') \<Rightarrow>
                (Inr (Messages 1), slot @ drop stride buf, lens[0 := n], s')
            | (Inr Timeout, slot, s') \<Rightarrow> (Inr BTimeout, slot @ drop stride buf, lens, s')
            | (Inr Closed, slot, s') \<Rightarrow> (Inr BClosed, slot @ drop stride buf, lens, s')))"

section \<open>The framed reader\<close>

record framed_reader =
  fr_buf :: "u8 list"
  fr_start :: nat
  fr_end :: nat

definition framed_new :: "u32 \<Rightarrow> framed_reader" where
  "framed_new n =
     (let cap = max (unat n + HEADER_LEN) (64 * 1024) * 2
      in \<lparr>fr_buf = replicate cap 0, fr_start = 0, fr_end = 0\<rparr>)"

text \<open>\<open>take_one\<close>: the loop drops one byte whenever no plausible header starts at \<open>start\<close>.\<close>

function take_one :: "framed_reader \<Rightarrow> u8 list \<Rightarrow> framed_reader \<times> u8 list \<times> nat option" where
  "take_one r out =
     (if fr_end r - fr_start r < HEADER_LEN then (r, out, None)
      else (case decode (subslice (fr_buf r) (fr_start r) (fr_end r)) of
              Inl _ \<Rightarrow> take_one (r\<lparr>fr_start := fr_start r + 1\<rparr>) out
            | Inr hdr \<Rightarrow>
                (let len = HEADER_LEN + unat (wh_payload_len hdr) in
                 if length (fr_buf r) < len then take_one (r\<lparr>fr_start := fr_start r + 1\<rparr>) out
                 else if fr_end r - fr_start r < len then (r, out, None)
                 else let n = min len (length out)
                      in (r\<lparr>fr_start := fr_start r + len\<rparr>,
                          blit out 0 (subslice (fr_buf r) (fr_start r) (fr_start r + n)),
                          Some n))))"
  by pat_completeness auto
termination
  by (relation "measure (\<lambda>(r, out). fr_end r - fr_start r)") (auto simp: HEADER_LEN_def)

declare take_one.simps [simp del]

text \<open>\<open>take_messages\<close>: message \<open>i\<close> goes to \<open>out[i * stride ..]\<close>; \<open>cap\<close> bounds the loop.\<close>

fun take_messages_loop ::
  "nat \<Rightarrow> nat \<Rightarrow> nat \<Rightarrow> framed_reader \<Rightarrow> u8 list \<Rightarrow> nat list
   \<Rightarrow> framed_reader \<times> u8 list \<times> nat list \<times> nat" where
  "take_messages_loop 0 stride count r out lens = (r, out, lens, count)"
| "take_messages_loop (Suc k) stride count r out lens =
     (case take_one r (subslice out (count * stride) ((count + 1) * stride)) of
        (r', slot, Some n) \<Rightarrow>
          take_messages_loop k stride (count + 1) r' (blit out (count * stride) slot) (lens[count := n])
      | (r', slot, None) \<Rightarrow> (r', blit out (count * stride) slot, lens, count))"

definition take_messages ::
  "framed_reader \<Rightarrow> u8 list \<Rightarrow> nat \<Rightarrow> nat \<Rightarrow> nat list \<Rightarrow> framed_reader \<times> u8 list \<times> nat list \<times> nat" where
  "take_messages r out stride k lens =
     (if stride = 0 then (r, out, lens, 0)
      else take_messages_loop (min (min k (length lens)) (length out div stride)) stride 0 r out lens)"

type_synonym 's read_fn = "nat \<Rightarrow> 's \<Rightarrow> (io_error + u8 list) \<times> 's"

definition compact :: "framed_reader \<Rightarrow> framed_reader" where
  "compact r =
     (if fr_start r = fr_end r then r\<lparr>fr_start := 0, fr_end := 0\<rparr>
      else if fr_end r = length (fr_buf r)
      then \<lparr>fr_buf = blit (fr_buf r) 0 (subslice (fr_buf r) (fr_start r) (fr_end r)),
            fr_start = 0, fr_end = fr_end r - fr_start r\<rparr>
      else r)"

definition fill_once ::
  "'s read_fn \<Rightarrow> framed_reader \<Rightarrow> 's \<Rightarrow> (io_error + fill_outcome) \<times> framed_reader \<times> 's" where
  "fill_once rd r0 s =
     (let r = compact r0 in
      if fr_end r = length (fr_buf r) then (Inl InvalidData, r, s)
      else (case rd (length (fr_buf r) - fr_end r) s of
              (Inr bs, s') \<Rightarrow>
                (if bs = [] then (Inr FClosed, r, s')
                 else (Inr Filled, r\<lparr>fr_buf := blit (fr_buf r) (fr_end r) bs,
                                     fr_end := fr_end r + length bs\<rparr>, s'))
            | (Inl e, s') \<Rightarrow>
                (if e = WouldBlock \<or> e = TimedOut then (Inr FTimeout, r, s')
                 else if e = Interrupted then (Inr Filled, r, s')
                 else (Inl e, r, s'))))"

text \<open>
  \<open>next_message\<close>, with the number of reads it may make as fuel: None is a call that has not returned
  after that many reads.
\<close>

fun next_message ::
  "nat \<Rightarrow> 's read_fn \<Rightarrow> framed_reader \<Rightarrow> u8 list \<Rightarrow> 's
   \<Rightarrow> ((io_error + recv_outcome) \<times> framed_reader \<times> u8 list \<times> 's) option" where
  "next_message 0 rd r out s = None"
| "next_message (Suc fuel) rd r out s =
     (case take_one r out of
        (r', out', Some n) \<Rightarrow> Some (Inr (Message n), r', out', s)
      | (r', out', None) \<Rightarrow>
          (case fill_once rd r' s of
             (Inl e, r'', s') \<Rightarrow> Some (Inl e, r'', out', s')
           | (Inr Filled, r'', s') \<Rightarrow> next_message fuel rd r'' out' s'
           | (Inr FTimeout, r'', s') \<Rightarrow> Some (Inr Timeout, r'', out', s')
           | (Inr FClosed, r'', s') \<Rightarrow> Some (Inr Closed, r'', out', s')))"

text \<open>\<open>TcpSource::recv_batch\<close>: at most one read once any message is buffered.\<close>

fun tcp_recv_loop ::
  "nat \<Rightarrow> 's read_fn \<Rightarrow> framed_reader \<Rightarrow> u8 list \<Rightarrow> nat \<Rightarrow> nat \<Rightarrow> nat list \<Rightarrow> 's
   \<Rightarrow> ((io_error + batch_outcome) \<times> framed_reader \<times> u8 list \<times> nat list \<times> 's) option" where
  "tcp_recv_loop 0 rd r buf stride k lens s = None"
| "tcp_recv_loop (Suc fuel) rd r buf stride k lens s =
     (case take_messages r buf stride k lens of
        (r', buf', lens', n) \<Rightarrow>
          if 0 < n then Some (Inr (Messages n), r', buf', lens', s)
          else (case fill_once rd r' s of
                  (Inl e, r'', s') \<Rightarrow> Some (Inl e, r'', buf', lens', s')
                | (Inr Filled, r'', s') \<Rightarrow> tcp_recv_loop fuel rd r'' buf' stride k lens' s'
                | (Inr FTimeout, r'', s') \<Rightarrow> Some (Inr BTimeout, r'', buf', lens', s')
                | (Inr FClosed, r'', s') \<Rightarrow> Some (Inr BClosed, r'', buf', lens', s')))"

definition tcp_recv_batch ::
  "nat \<Rightarrow> 's read_fn \<Rightarrow> framed_reader \<Rightarrow> u8 list \<Rightarrow> nat \<Rightarrow> nat \<Rightarrow> nat list \<Rightarrow> 's
   \<Rightarrow> ((io_error + batch_outcome) \<times> framed_reader \<times> u8 list \<times> nat list \<times> 's) option" where
  "tcp_recv_batch fuel rd r buf stride k lens s =
     (if k = 0 \<or> stride = 0 \<or> length buf < stride \<or> lens = []
      then Some (Inr BTimeout, r, buf, lens, s)
      else tcp_recv_loop fuel rd r buf stride k lens s)"

section \<open>What is pending in the reader\<close>

definition reader_ok :: "framed_reader \<Rightarrow> bool" where
  "reader_ok r = (fr_start r \<le> fr_end r \<and> fr_end r \<le> length (fr_buf r))"

definition pending :: "framed_reader \<Rightarrow> u8 list" where
  "pending r = subslice (fr_buf r) (fr_start r) (fr_end r)"

lemma length_pending: "reader_ok r \<Longrightarrow> length (pending r) = fr_end r - fr_start r"
  by (auto simp: pending_def reader_ok_def)

lemma pending_advance: "pending (r\<lparr>fr_start := fr_start r + k\<rparr>) = drop k (pending r)"
  by (simp add: pending_def subslice_def drop_take add.commute)

lemma reader_ok_advance:
  "reader_ok r \<Longrightarrow> k \<le> length (pending r) \<Longrightarrow> reader_ok (r\<lparr>fr_start := fr_start r + k\<rparr>)"
  by (auto simp: length_pending) (auto simp: reader_ok_def)

lemma reader_ok_new: "reader_ok (framed_new n)"
  and pending_new: "pending (framed_new n) = []"
  by (simp_all add: framed_new_def reader_ok_def pending_def subslice_def Let_def)

text \<open>The step of \<open>take_one\<close>, in terms of the pending bytes.\<close>

lemma take_one_pending:
  assumes "reader_ok r"
  shows "take_one r out =
    (if length (pending r) < HEADER_LEN then (r, out, None)
     else case decode (pending r) of
         Inl _ \<Rightarrow> take_one (r\<lparr>fr_start := fr_start r + 1\<rparr>) out
       | Inr h \<Rightarrow>
           (let len = HEADER_LEN + unat (wh_payload_len h) in
            if length (fr_buf r) < len then take_one (r\<lparr>fr_start := fr_start r + 1\<rparr>) out
            else if length (pending r) < len then (r, out, None)
            else (r\<lparr>fr_start := fr_start r + len\<rparr>,
                  blit out 0 (take (min len (length out)) (pending r)), Some (min len (length out)))))"
proof -
  have sub: "subslice (fr_buf r) (fr_start r) (fr_start r + n) = take n (pending r)"
    if "n \<le> length (pending r)" for n
    using that assms by (simp add: pending_def subslice_def reader_ok_def)
  show ?thesis
    by (subst take_one.simps)
      (auto simp: length_pending [OF assms, symmetric] pending_def [symmetric] sub Let_def
        split: sum.split)
qed

lemma take_one_message:
  assumes "reader_ok r" and "pending r = message_bytes h @ rest"
    and "length (message_bytes h) \<le> length (fr_buf r)" and "length (message_bytes h) \<le> length out"
  shows "take_one r out =
    (r\<lparr>fr_start := fr_start r + length (message_bytes h)\<rparr>,
     message_bytes h @ drop (length (message_bytes h)) out, Some (length (message_bytes h)))"
proof -
  have "decode (pending r) = Inr h"
    by (simp add: assms(2) message_bytes_def decode_header_bytes)
  then show ?thesis
    using assms by (subst take_one_pending) (auto simp: Let_def blit_def min_def)
qed

lemma take_one_partial:
  assumes "reader_ok r" and "pending r @ x = message_bytes h" and "x \<noteq> []"
    and "length (message_bytes h) \<le> length (fr_buf r)"
  shows "take_one r out = (r, out, None)"
proof (cases "length (pending r) < HEADER_LEN")
  case True
  then show ?thesis using assms(1) by (subst take_one_pending) auto
next
  case False
  have "decode (message_bytes h) = Inr h" by (simp add: message_bytes_def decode_header_bytes)
  then have "decode (pending r) = Inr h"
    using False decode_append [of "pending r" x] assms(2) by simp
  moreover have "length (pending r) < length (message_bytes h)"
    using assms(2,3) by (metis length_append length_greater_0_conv less_add_same_cancel1)
  ultimately show ?thesis
    using assms(1,4) False by (subst take_one_pending) (auto simp: Let_def)
qed

lemma take_one_empty: "reader_ok r \<Longrightarrow> pending r = [] \<Longrightarrow> take_one r out = (r, out, None)"
  by (subst take_one_pending) (auto simp: HEADER_LEN_def)

text \<open>
  On a desynchronised stream the reader skips the bytes at which no header starts.
\<close>

lemma take_one_skip:
  assumes "reader_ok r" and "pending r = junk @ rest" and "HEADER_LEN \<le> length rest"
    and "\<And>i. i < length junk \<Longrightarrow> \<exists>e. decode (drop i (pending r)) = Inl e"
  shows "take_one r out = take_one (r\<lparr>fr_start := fr_start r + length junk\<rparr>) out"
  using assms
proof (induction junk arbitrary: r)
  case Nil
  then show ?case by simp
next
  case (Cons j junk)
  let ?r = "r\<lparr>fr_start := fr_start r + 1\<rparr>"
  obtain e where "decode (pending r) = Inl e" using Cons.prems(4) [of 0] by auto
  moreover have "HEADER_LEN \<le> length (pending r)" using Cons.prems(2,3) by simp
  ultimately have "take_one r out = take_one ?r out"
    using Cons.prems(1) by (subst take_one_pending) auto
  also have "\<dots> = take_one (?r\<lparr>fr_start := fr_start ?r + length junk\<rparr>) out"
  proof (rule Cons.IH)
    have "1 \<le> length (pending r)" by (simp add: Cons.prems(2))
    then show "reader_ok ?r" using Cons.prems(1) reader_ok_advance by blast
    show p: "pending ?r = junk @ rest" using pending_advance [of r 1] Cons.prems(2) by simp
    show "HEADER_LEN \<le> length rest" by (rule Cons.prems(3))
    show "\<exists>e. decode (drop i (pending ?r)) = Inl e" if "i < length junk" for i
      unfolding p using Cons.prems(4) [of "Suc i"] that by (simp add: Cons.prems(2))
  qed
  finally show ?case by simp
qed

lemma compact_ok:
  assumes "reader_ok r"
  shows "reader_ok (compact r)" and "pending (compact r) = pending r"
    and "length (fr_buf (compact r)) = length (fr_buf r)"
    and "length (pending r) < length (fr_buf r) \<Longrightarrow> fr_end (compact r) < length (fr_buf r)"
  using assms
  by (auto simp: compact_def reader_ok_def pending_def subslice_def blit_def)

lemma fill_once_data:
  assumes "reader_ok r" and "length (pending r) < length (fr_buf r)"
    and "\<And>n. 0 < n \<Longrightarrow> \<exists>bs s'. rd n s = (Inr bs, s') \<and> bs \<noteq> [] \<and> length bs \<le> n \<and> P bs s'"
  shows "\<exists>bs s' r'. fill_once rd r s = (Inr Filled, r', s') \<and> P bs s' \<and> bs \<noteq> []
       \<and> reader_ok r' \<and> pending r' = pending r @ bs \<and> length (fr_buf r') = length (fr_buf r)"
proof -
  let ?c = "compact r"
  note c = compact_ok [OF assms(1)] and lt = compact_ok(4) [OF assms(1,2)]
  obtain bs s' where rd: "rd (length (fr_buf r) - fr_end ?c) s = (Inr bs, s')" and bs: "bs \<noteq> []"
      "length bs \<le> length (fr_buf r) - fr_end ?c" and P: "P bs s'"
    using assms(3) [of "length (fr_buf r) - fr_end ?c"] lt by auto
  let ?r = "?c\<lparr>fr_buf := blit (fr_buf ?c) (fr_end ?c) bs, fr_end := fr_end ?c + length bs\<rparr>"
  have len: "fr_end ?c + length bs \<le> length (fr_buf ?c)" using bs(2) lt c(3) by simp
  have "fill_once rd r s = (Inr Filled, ?r, s')"
    using lt rd bs(1) by (simp add: fill_once_def Let_def c(3))
  moreover have "reader_ok ?r" using c(1) len by (simp add: reader_ok_def)
  moreover have "pending ?r = pending r @ bs"
    using c(1) len unfolding c(2) [symmetric]
    by (simp add: pending_def subslice_def blit_def reader_ok_def drop_take)
  moreover have "length (fr_buf ?r) = length (fr_buf r)" using len c(3) by simp
  ultimately show ?thesis using P bs(1) by blast
qed

section \<open>Receiving a stream of messages\<close>

text \<open>
  A source of messages: \<open>inv st ms\<close> says that the state \<open>st\<close> still holds exactly the messages \<open>ms\<close>, and
  \<open>recv\<close> delivers them one by one, then reports idleness.
\<close>

locale message_source =
  fixes recv :: "'st \<Rightarrow> 'm option \<times> 'st" and inv :: "'st \<Rightarrow> 'm list \<Rightarrow> bool"
  assumes recv_next: "inv st (m # ms) \<Longrightarrow> fst (recv st) = Some m \<and> inv (snd (recv st)) ms"
    and recv_idle: "inv st [] \<Longrightarrow> fst (recv st) = None \<and> inv (snd (recv st)) []"
begin

lemma recv_all:
  assumes "inv st ms"
  shows "unfold_n recv (length ms + k) st = map Some ms @ replicate k None"
  using assms
proof (induction ms arbitrary: st)
  case Nil
  then show ?case
  proof (induction k arbitrary: st)
    case (Suc k)
    then show ?case using recv_idle [OF Suc.prems] by (simp add: split_beta)
  qed simp
next
  case (Cons m ms)
  then show ?case using recv_next [OF Cons.prems] by (simp add: split_beta)
qed

end

text \<open>A socket that hands over the chunks of a byte stream, each cut to the size asked for.\<close>

fun feed :: "u8 list list read_fn" where
  "feed n [] = (Inl WouldBlock, [])"
| "feed n (c # cs) =
     (if length c \<le> n then (Inr c, cs) else (Inr (take n c), drop n c # cs))"

definition stream_inv ::
  "nat \<Rightarrow> framed_reader \<Rightarrow> u8 list list \<Rightarrow> wire_header list \<Rightarrow> bool" where
  "stream_inv sz r cs hs =
     (reader_ok r \<and> 0 < sz \<and> sz \<le> length (fr_buf r) \<and> [] \<notin> set cs
      \<and> list_all (\<lambda>h. length (message_bytes h) \<le> sz) hs
      \<and> pending r @ concat cs = concat (map message_bytes hs))"

lemma feed_data:
  assumes "cs \<noteq> []" and "[] \<notin> set cs" and "0 < n"
  shows "\<exists>bs cs'. feed n cs = (Inr bs, cs') \<and> bs \<noteq> [] \<and> length bs \<le> n
     \<and> bs @ concat cs' = concat cs \<and> [] \<notin> set cs'"
  using assms by (cases cs) auto

lemma next_message_idle:
  assumes "stream_inv sz r cs []"
  shows "\<exists>r'. next_message (Suc fuel) feed r out cs = Some (Inr Timeout, r', out, cs)
       \<and> stream_inv sz r' cs []"
proof -
  have p: "pending r = []" and cs: "cs = []" and ok: "reader_ok r" and "0 < length (fr_buf r)"
    using assms by (cases cs; auto simp: stream_inv_def)+
  then have "fr_end (compact r) \<noteq> length (fr_buf (compact r))"
    using compact_ok [OF ok] by auto
  then show ?thesis
    using assms take_one_empty [OF ok p] compact_ok [OF ok]
    by (auto simp: fill_once_def cs Let_def stream_inv_def)
qed

lemma next_message_delivers:
  assumes "stream_inv sz r cs (h # hs)" and "sz \<le> length out" and "length (concat cs) < fuel"
  shows "\<exists>r' cs'. next_message fuel feed r out cs
         = Some (Inr (Message (length (message_bytes h))), r',
                 message_bytes h @ drop (length (message_bytes h)) out, cs')
       \<and> stream_inv sz r' cs' hs"
  using assms
proof (induction fuel arbitrary: r cs)
  case 0
  then show ?case by simp
next
  case (Suc fuel)
  let ?m = "message_bytes h"
  have ok: "reader_ok r" and cap: "length ?m \<le> length (fr_buf r)" and room: "length ?m \<le> length out"
    and eq: "pending r @ concat cs = ?m @ concat (map message_bytes hs)" and ne: "[] \<notin> set cs"
    using Suc.prems(1,2) by (auto simp: stream_inv_def)
  show ?case
  proof (cases "length ?m \<le> length (pending r)")
    case True
    let ?rest = "drop (length ?m) (pending r)"
    have "take (length ?m) (pending r @ concat cs) = ?m" unfolding eq by simp
    then have p: "pending r = ?m @ ?rest"
      using True by (metis append_take_drop_id diff_is_0_eq take0 append_Nil2 take_append)
    have rest: "?rest @ concat cs = concat (map message_bytes hs)"
      using eq by (subst (asm) p) simp
    then have "stream_inv sz (r\<lparr>fr_start := fr_start r + length ?m\<rparr>) cs hs"
      using Suc.prems(1) True
      by (auto simp: stream_inv_def pending_advance reader_ok_advance simp del: length_message_bytes)
    then show ?thesis using take_one_message [OF ok p cap room] by auto
  next
    case False
    let ?x = "drop (length (pending r)) ?m"
    have "take (length (pending r)) (?m @ concat (map message_bytes hs)) = pending r"
      unfolding eq [symmetric] by simp
    then have "pending r @ ?x = ?m"
      using False by (metis append_take_drop_id diff_is_0_eq linear take0 append_Nil2 take_append)
    moreover have "?x \<noteq> []" using False by simp
    ultimately obtain x where x: "pending r @ x = ?m" "x \<noteq> []" by blast
    have none: "take_one r out = (r, out, None)" by (rule take_one_partial [OF ok x cap])
    have "cs \<noteq> []" using eq x False by auto
    then have "\<exists>bs cs'. feed n cs = (Inr bs, cs') \<and> bs \<noteq> [] \<and> length bs \<le> n
        \<and> (bs @ concat cs' = concat cs \<and> [] \<notin> set cs')" if "0 < n" for n
      using feed_data [OF _ ne that] by blast
    moreover have "length (pending r) < length (fr_buf r)" using False cap by linarith
    ultimately obtain bs cs' r' where f: "fill_once feed r cs = (Inr Filled, r', cs')"
        "bs @ concat cs' = concat cs" "[] \<notin> set cs'" "bs \<noteq> []"
        "reader_ok r'" "pending r' = pending r @ bs" "length (fr_buf r') = length (fr_buf r)"
      using fill_once_data [OF ok, of feed cs "\<lambda>bs cs'. bs @ concat cs' = concat cs \<and> [] \<notin> set cs'"]
      by blast
    have "stream_inv sz r' cs' (h # hs)"
      using Suc.prems(1) f by (auto simp: stream_inv_def)
    moreover have "length (concat cs') < fuel"
    proof -
      have "length bs + length (concat cs') = length (concat cs)" by (metis f(2) length_append)
      moreover have "0 < length bs" using f(4) by simp
      ultimately show ?thesis using Suc.prems(3) by linarith
    qed
    ultimately show ?thesis using Suc.IH Suc.prems(2) none f(1) by simp
  qed
qed

text \<open>One receive on a TCP source: reader, chunks still in the socket, and a scratch buffer.\<close>

definition tcp_recv :: "nat \<Rightarrow> framed_reader \<times> u8 list list \<Rightarrow> u8 list option \<times> framed_reader \<times> u8 list list" where
  "tcp_recv sz st = (case st of (r, cs) \<Rightarrow>
     (case next_message (length (concat cs) + 1) feed r (replicate sz 0) cs of
        Some (Inr (Message n), r', out, cs') \<Rightarrow> (Some (take n out), r', cs')
      | Some (_, r', _, cs') \<Rightarrow> (None, r', cs')
      | None \<Rightarrow> (None, r, cs)))"

interpretation tcp_source: message_source "tcp_recv sz"
    "\<lambda>st ms. \<exists>hs. ms = map message_bytes hs \<and> stream_inv sz (fst st) (snd st) hs" for sz
proof (unfold_locales, goal_cases)
  case (1 st m ms)
  obtain r cs where st: "st = (r, cs)" by (cases st)
  obtain h hs where h: "m = message_bytes h" "ms = map message_bytes hs" "stream_inv sz r cs (h # hs)"
    using 1 st by (auto simp: Cons_eq_map_conv)
  then show ?case
    using next_message_delivers [OF h(3), of "replicate sz 0" "length (concat cs) + 1"]
    by (auto simp: tcp_recv_def st simp del: length_message_bytes)
next
  case (2 st)
  obtain r cs where st: "st = (r, cs)" by (cases st)
  with 2 have "stream_inv sz r cs []" by auto
  from next_message_idle [OF this, of "length (concat cs)" "replicate sz 0"]
  show ?case by (auto simp: tcp_recv_def st)
qed



text \<open>
  C31: A desynchronised stream is picked up again at the next message: bytes at which no header
  decodes are skipped without a read, and the message behind them is returned whole.
\<close>

theorem take_one_resynchronises:
  assumes "reader_ok r" and "pending r = junk @ message_bytes h @ rest"
    and "\<forall>i. i < length junk \<longrightarrow> (\<exists>e. decode (drop i (pending r)) = Inl e)"
    and "length (message_bytes h) \<le> length (fr_buf r)" and "length (message_bytes h) \<le> length out"
  shows "\<exists>r'. take_one r out = (r', message_bytes h @ drop (length (message_bytes h)) out,
             Some (length (message_bytes h)))
       \<and> reader_ok r' \<and> pending r' = rest"
proof -
  let ?r = "r\<lparr>fr_start := fr_start r + length junk\<rparr>"
  have skip: "take_one r out = take_one ?r out"
    using assms(3) by (intro take_one_skip [OF assms(1,2)]) auto
  have ok: "reader_ok ?r" using assms(1,2) by (intro reader_ok_advance) auto
  have p: "pending ?r = message_bytes h @ rest" by (simp add: pending_advance assms(2))
  have "take_one ?r out = (?r\<lparr>fr_start := fr_start ?r + length (message_bytes h)\<rparr>,
      message_bytes h @ drop (length (message_bytes h)) out, Some (length (message_bytes h)))"
    by (rule take_one_message [OF ok p]) (use assms(4,5) in simp_all)
  moreover have "reader_ok (?r\<lparr>fr_start := fr_start ?r + length (message_bytes h)\<rparr>)"
    by (rule reader_ok_advance [OF ok]) (simp add: p)
  moreover have "pending (?r\<lparr>fr_start := fr_start ?r + length (message_bytes h)\<rparr>) = rest"
    unfolding pending_advance [of ?r] p by simp
  ultimately show ?thesis using skip by metis
qed

lemma take_one_resynchronises_witness:
  "\<exists>r'. take_one \<lparr>fr_buf = 0 # message_bytes (stamp_at 7 0 9), fr_start = 0, fr_end = 25\<rparr> (replicate 24 0)
     = (r', message_bytes (stamp_at 7 0 9), Some 24) \<and> pending r' = []"
proof -
  let ?m = "message_bytes (stamp_at 7 0 9)"
  let ?r = "\<lparr>fr_buf = 0 # ?m, fr_start = 0, fr_end = 25\<rparr>"
  have len: "length ?m = 24" by (simp add: stamp_at_def HEADER_LEN_def)
  have p: "pending ?r = [0] @ ?m @ []" using len by (simp add: pending_def subslice_def)
  have "\<exists>e. decode (0 # ?m) = Inl e"
    using len by (simp add: decode_def HEADER_LEN_def subslice_def MAGIC_def)
  then have "\<forall>i. i < length [0 :: u8] \<longrightarrow> (\<exists>e. decode (drop i (pending ?r)) = Inl e)"
    unfolding p by simp
  from take_one_resynchronises [OF _ p this, of "replicate 24 0"] show ?thesis
    using len by (auto simp: reader_ok_def)
qed

section \<open>The contract of a batched send\<close>

text \<open>
  \<open>send msgs s\<close> is the result of one \<open>send_batch\<close> and the sink's next state, or None when the call has
  not returned; \<open>wire s\<close> is what has been transmitted so far, in the transport's units (bytes of a
  stream, datagrams), and \<open>enc\<close> the units of a list of messages. The main law is the one the interface
  states: a successful return is a message boundary. A failing call leaves a prefix of its batch.
\<close>

locale batch_sink =
  fixes send :: "'m list \<Rightarrow> 's \<Rightarrow> ((io_error + nat) \<times> 's) option"
    and wire :: "'s \<Rightarrow> 'w list" and enc :: "'m list \<Rightarrow> 'w list"
  assumes enc_append: "enc (ms @ ms') = enc ms @ enc ms'"
    and enc_Nil: "enc [] = []"
    and send_boundary: "send ms s = Some (Inr k, s')
      \<Longrightarrow> k \<le> length ms \<and> wire s' = wire s @ enc (take k ms)"
    and send_failed: "send ms s = Some (Inl e, s')
      \<Longrightarrow> \<exists>ys zs. enc ms = ys @ zs \<and> wire s' = wire s @ ys"

text \<open>
  A sink with a whole-message send: an accepted message is transmitted entirely, a refused one not at
  all. Its default \<open>send_batch\<close> meets the contract.
\<close>

locale message_sink =
  fixes send_msg :: "'m \<Rightarrow> 's \<Rightarrow> (io_error + unit) \<times> 's" and sent :: "'s \<Rightarrow> 'm list"
  assumes send_ok: "send_msg m s = (Inr (), s') \<Longrightarrow> sent s' = sent s @ [m]"
    and send_err: "send_msg m s = (Inl e, s') \<Longrightarrow> sent s' = sent s"
begin

lemma send_batch_from_failed:
  "send_batch_from send_msg i ms s = (Inl e, s') \<Longrightarrow> sent s' = sent s"
proof (induction ms arbitrary: i s)
  case Nil
  then show ?case by simp
next
  case (Cons m ms)
  have late: "fst (send_batch_from send_msg (Suc j) ms s1) \<noteq> Inl e" for j s1
    by (induction ms arbitrary: j s1) (auto split: prod.split sum.split)
  from Cons.prems show ?case
    using late [of i] send_err [of m s _ s'] by (auto split: prod.splits sum.splits if_splits) (metis fst_conv)+
qed

lemma send_batch_from_boundary:
  "send_batch_from send_msg i ms s = (Inr k, s')
     \<Longrightarrow> i \<le> k \<and> k \<le> i + length ms \<and> sent s' = sent s @ take (k - i) ms"
proof (induction ms arbitrary: i s)
  case Nil
  then show ?case by simp
next
  case (Cons m ms)
  show ?case
  proof (cases "send_msg m s")
    case (Pair res s1)
    show ?thesis
    proof (cases res)
      case (Inl e)
      then show ?thesis using Cons.prems Pair send_err [of m s e s1] by (auto split: if_splits)
    next
      case (Inr u)
      then have "send_batch_from send_msg (i + 1) ms s1 = (Inr k, s')"
        using Cons.prems Pair by simp
      from Cons.IH [OF this] have "i + 1 \<le> k" "k \<le> i + 1 + length ms"
        "sent s' = sent s1 @ take (k - (i + 1)) ms" by auto
      moreover have "sent s1 = sent s @ [m]" using Inr Pair send_ok by simp
      moreover have "k - i = Suc (k - (i + 1))" using \<open>i + 1 \<le> k\<close> by simp
      ultimately show ?thesis by simp
    qed
  qed
qed

end

sublocale message_sink \<subseteq> batch_sink "\<lambda>ms s. Some (send_batch_default send_msg ms s)" sent "\<lambda>ms. ms"
proof (unfold_locales, goal_cases)
  case (3 ms s k s')
  then show ?case
    using send_batch_from_boundary [of 0 ms s k s'] by (simp add: send_batch_default_def)
next
  case (4 ms s e s')
  then have "sent s' = sent s" using send_batch_from_failed [of 0 ms s e s'] by (simp add: send_batch_default_def)
  then show ?case by (intro exI [of _ "[]"] exI [of _ ms]) simp
qed simp_all

section \<open>Batch buffers\<close>

text \<open>
  A batch buffer of slots \<open>stride\<close> apart: message \<open>j\<close> of the list goes to slot \<open>i + j\<close>, cut to the slot,
  its length to the list of lengths.
\<close>

fun fill_slots :: "nat \<Rightarrow> nat \<Rightarrow> u8 list list \<Rightarrow> u8 list \<Rightarrow> nat list \<Rightarrow> u8 list \<times> nat list" where
  "fill_slots stride i [] buf lens = (buf, lens)"
| "fill_slots stride i (d # ds) buf lens =
     fill_slots stride (i + 1) ds (blit buf (i * stride) (take stride d))
       (lens[i := length (take stride d)])"

lemma slot_fit:
  assumes "(i + length (d # ds)) * stride \<le> length buf"
  shows "i * stride + length (take stride d) \<le> length buf"
proof -
  have "length (take stride d) \<le> stride" by simp
  then have "i * stride + length (take stride d) \<le> i * stride + stride" by linarith
  also have "\<dots> \<le> (i + length (d # ds)) * stride" by (simp add: algebra_simps)
  finally show ?thesis using assms by linarith
qed

lemma fill_slots_length:
  assumes "fill_slots stride i ds buf lens = (buf', lens')"
    and "(i + length ds) * stride \<le> length buf" and "i + length ds \<le> length lens"
  shows "length buf' = length buf \<and> length lens' = length lens"
  using assms
proof (induction ds arbitrary: i buf lens)
  case Nil
  then show ?case by simp
next
  case (Cons d ds)
  have "i * stride + length (take stride d) \<le> length buf" by (rule slot_fit [OF Cons.prems(2)])
  then have "length (blit buf (i * stride) (take stride d)) = length buf" by simp
  with Cons.IH [OF Cons.prems(1) [unfolded fill_slots.simps]] Cons.prems(2,3) show ?case by simp
qed

lemma fill_slots_keep:
  assumes "fill_slots stride i ds buf lens = (buf', lens')"
    and "(i + length ds) * stride \<le> length buf" and "i + length ds \<le> length lens" and "j < i"
    and "n \<le> stride"
  shows "take n (drop (j * stride) buf') = take n (drop (j * stride) buf) \<and> lens' ! j = lens ! j"
  using assms
proof (induction ds arbitrary: i buf lens)
  case Nil
  then show ?case by simp
next
  case (Cons d ds)
  let ?b = "blit buf (i * stride) (take stride d)"
  have fit: "i * stride + length (take stride d) \<le> length buf" by (rule slot_fit [OF Cons.prems(2)])
  have "take n (drop (j * stride) buf') = take n (drop (j * stride) ?b) \<and> lens' ! j = (lens[i := length (take stride d)]) ! j"
    using Cons.IH [OF Cons.prems(1) [unfolded fill_slots.simps]] Cons.prems(2-5) fit by simp
  moreover have "take n (drop (j * stride) ?b) = take n (drop (j * stride) buf)"
  proof -
    have "j * stride + n \<le> Suc j * stride" using Cons.prems(5) by simp
    also have "\<dots> \<le> i * stride" using Cons.prems(4) by (intro mult_le_mono1) simp
    finally have le: "j * stride + n \<le> i * stride" .
    have "take (j * stride + n) ?b = take (j * stride + n) buf"
      using le fit by (intro take_blit) auto
    then show ?thesis by (metis drop_take add_diff_cancel_left')
  qed
  ultimately show ?case using Cons.prems(4) by simp
qed

lemma fill_slots_filled:
  assumes "fill_slots stride i ds buf lens = (buf', lens')"
    and "(i + length ds) * stride \<le> length buf" and "i + length ds \<le> length lens" and "j < length ds"
  shows "lens' ! (i + j) = min stride (length (ds ! j))
       \<and> subslice buf' ((i + j) * stride) ((i + j) * stride + lens' ! (i + j)) = take stride (ds ! j)"
  using assms
proof (induction ds arbitrary: i j buf lens)
  case Nil
  then show ?case by simp
next
  case (Cons d ds)
  let ?b = "blit buf (i * stride) (take stride d)" and ?l = "lens[i := length (take stride d)]"
  have fit: "i * stride + length (take stride d) \<le> length buf" by (rule slot_fit [OF Cons.prems(2)])
  note rec = Cons.prems(1) [unfolded fill_slots.simps]
  show ?case
  proof (cases j)
    case 0
    have "take (length (take stride d)) (drop (i * stride) buf') = take (length (take stride d)) (drop (i * stride) ?b)
        \<and> lens' ! i = ?l ! i"
      using fill_slots_keep [OF rec, of i "length (take stride d)"] Cons.prems(2,3) fit by simp
    moreover have "take (length (take stride d)) (drop (i * stride) ?b) = take stride d"
      using subslice_blit [OF fit] .
    ultimately show ?thesis using 0 Cons.prems(3) by (simp add: subslice_def min.commute)
  next
    case (Suc j')
    then show ?thesis using Cons.IH [OF rec, of j'] Cons.prems(2-4) fit by auto
  qed
qed

text \<open>Carving is filling slots with the messages at the front of the pending bytes.\<close>

lemma take_messages_loop_fill:
  assumes "reader_ok r" and "pending r = concat (map message_bytes hs) @ tail"
    and "\<forall>h\<in>set hs. length (message_bytes h) \<le> min stride (length (fr_buf r))"
    and "tail = [] \<or> (\<exists>h x. tail @ x = message_bytes h \<and> x \<noteq> [] \<and> length (message_bytes h) \<le> length (fr_buf r))"
    and "(i + k) * stride \<le> length out" and "i + k \<le> length lens"
  shows "\<exists>r' out' lens'. take_messages_loop k stride i r out lens = (r', out', lens', i + min k (length hs))
       \<and> (out', lens') = fill_slots stride i (map message_bytes (take k hs)) out lens
       \<and> reader_ok r' \<and> length (fr_buf r') = length (fr_buf r)
       \<and> pending r' = concat (map message_bytes (drop k hs)) @ tail"
  using assms
proof (induction k arbitrary: i r out lens hs)
  case 0
  then show ?case by simp
next
  case (Suc k)
  let ?slot = "subslice out (i * stride) ((i + 1) * stride)"
  have "i * stride + stride \<le> (i + Suc k) * stride" by (simp add: algebra_simps)
  with Suc.prems(5) have fit: "i * stride + stride \<le> length out" by linarith
  then have slot: "length ?slot = stride" by simp
  show ?case
  proof (cases hs)
    case Nil
    then have p: "pending r = tail" using Suc.prems(2) by simp
    have "take_one r ?slot = (r, ?slot, None)"
      using Suc.prems(4) take_one_empty [OF Suc.prems(1)] take_one_partial [OF Suc.prems(1)] p
      by metis
    moreover have "blit out (i * stride) ?slot = out"
      using fit slot by (simp add: blit_def subslice_def)
        (metis add.commute append_take_drop_id drop_drop)
    ultimately show ?thesis using Nil Suc.prems(1,2) by simp
  next
    case (Cons h hs')
    let ?m = "message_bytes h" and ?r = "r\<lparr>fr_start := fr_start r + length (message_bytes h)\<rparr>"
    have len: "length ?m \<le> stride" "length ?m \<le> length (fr_buf r)" using Suc.prems(3) Cons by auto
    have p: "pending r = ?m @ concat (map message_bytes hs') @ tail" using Suc.prems(2) Cons by simp
    have one: "take_one r ?slot = (?r, ?m @ drop (length ?m) ?slot, Some (length ?m))"
      by (rule take_one_message [OF Suc.prems(1) p len(2)]) (use len(1) slot in simp)
    have blit: "blit out (i * stride) (?m @ drop (length ?m) ?slot) = blit out (i * stride) (take stride ?m)"
      using len(1) fit slot
      by (simp add: blit_def subslice_def del: length_message_bytes)
        (metis (no_types, lifting) add.commute append_take_drop_id drop_drop drop_take le_add_diff_inverse)
    have ok: "reader_ok ?r" by (rule reader_ok_advance [OF Suc.prems(1)]) (simp add: p)
    have pend: "pending ?r = concat (map message_bytes hs') @ tail"
      unfolding pending_advance p by simp
    let ?out = "blit out (i * stride) (take stride ?m)" and ?lens = "lens[i := length ?m]"
    have fit': "length ?out = length out" using fit len(1) by simp
    have "\<exists>r' out' lens'. take_messages_loop k stride (i + 1) ?r ?out ?lens = (r', out', lens', i + 1 + min k (length hs'))
       \<and> (out', lens') = fill_slots stride (i + 1) (map message_bytes (take k hs')) ?out ?lens
       \<and> reader_ok r' \<and> length (fr_buf r') = length (fr_buf ?r)
       \<and> pending r' = concat (map message_bytes (drop k hs')) @ tail"
      by (rule Suc.IH [OF ok pend]) (use Suc.prems(3-6) Cons fit' in auto)
    then show ?thesis using Cons one blit len(1) by (simp del: length_message_bytes)
  qed
qed

text \<open>
  Carving a batch takes whole messages in order: as many as are complete and as fit, message
  \<open>i\<close> in slot \<open>i\<close> with its length, and leaves the rest of the stream pending; a message that has
  only partly arrived stays where it is.
\<close>

theorem take_messages_exact:
  assumes "reader_ok r" and "pending r = concat (map message_bytes hs) @ tail"
    and "\<forall>h\<in>set hs. length (message_bytes h) \<le> min stride (length (fr_buf r))"
    and "tail = [] \<or> (\<exists>h x. tail @ x = message_bytes h \<and> x \<noteq> [] \<and> length (message_bytes h) \<le> length (fr_buf r))"
    and "take_messages r out stride k lens = (r', out', lens', n)" and "0 < stride"
  shows "n = min (min (min k (length lens)) (length out div stride)) (length hs)
       \<and> pending r' = concat (map message_bytes (drop n hs)) @ tail
       \<and> (\<forall>i. i < n \<longrightarrow> subslice out' (i * stride) (i * stride + lens' ! i) = message_bytes (hs ! i))"
proof -
  let ?cap = "min (min k (length lens)) (length out div stride)"
  have "?cap * stride \<le> length out div stride * stride" by (intro mult_le_mono1) simp
  also have "\<dots> \<le> length out" by simp
  finally have fit: "(0 + ?cap) * stride \<le> length out" by simp
  have lens: "0 + ?cap \<le> length lens" by simp
  from take_messages_loop_fill [OF assms(1-4) fit lens]
  have n: "n = min ?cap (length hs)" and fill: "(out', lens') = fill_slots stride 0 (map message_bytes (take ?cap hs)) out lens"
    and pend: "pending r' = concat (map message_bytes (drop ?cap hs)) @ tail"
    using assms(5,6) by (auto simp: take_messages_def)
  have "drop ?cap hs = drop n hs" using n by (cases "?cap \<le> length hs") (simp_all add: min_def)
  moreover have "subslice out' (i * stride) (i * stride + lens' ! i) = message_bytes (hs ! i)" if "i < n" for i
  proof -
    let ?ds = "map message_bytes (take ?cap hs)"
    have i: "i < length ?ds" using that n by simp
    have le: "length ?ds \<le> ?cap" by (simp only: length_map length_take min.cobounded2)
    then have lens': "0 + length ?ds \<le> length lens" using lens by linarith
    from le have "length ?ds * stride \<le> ?cap * stride" by (rule mult_le_mono1)
    also have "\<dots> \<le> length out" using fit by (simp only: add_0)
    finally have "(0 + length ?ds) * stride \<le> length out" by (simp only: add_0)
    from fill_slots_filled [OF fill [symmetric] this lens' i, THEN conjunct2]
    have "subslice out' (i * stride) (i * stride + lens' ! i) = take stride (?ds ! i)"
      by (simp only: add_0)
    moreover have "?ds ! i = message_bytes (hs ! i)" using i by simp
    moreover have "length (message_bytes (hs ! i)) \<le> stride" using assms(3) i by simp
    ultimately show ?thesis by (simp del: length_message_bytes)
  qed
  ultimately show ?thesis using n pend by simp
qed

lemma take_messages_exact_witness:
  "\<exists>r' out' lens'. take_messages \<lparr>fr_buf = message_bytes (stamp_at 7 0 9) @ [0x53], fr_start = 0, fr_end = 25\<rparr>
       (replicate 48 0) 24 2 [0, 0] = (r', out', lens', 1)
     \<and> subslice out' 0 (lens' ! 0) = message_bytes (stamp_at 7 0 9) \<and> pending r' = [0x53]"
proof -
  let ?m = "message_bytes (stamp_at 7 0 9)"
  let ?r = "\<lparr>fr_buf = ?m @ [0x53], fr_start = 0, fr_end = 25\<rparr>"
  have len: "length ?m = 24" by (simp add: stamp_at_def HEADER_LEN_def)
  obtain r' out' lens' n where t: "take_messages ?r (replicate 48 0) 24 2 [0, 0] = (r', out', lens', n)"
    by (metis prod_cases4)
  have tail: "[0x53] @ drop 1 ?m = ?m"
    by (simp add: message_bytes_def header_bytes_def MAGIC_def)
  have "reader_ok ?r" "pending ?r = concat (map message_bytes [stamp_at 7 0 9]) @ [0x53]"
    using len by (simp_all add: reader_ok_def pending_def subslice_def)
  moreover have "[0x53] = [] \<or> (\<exists>h x. [0x53] @ x = message_bytes h \<and> x \<noteq> []
      \<and> length (message_bytes h) \<le> length (fr_buf ?r))"
    using tail len by (intro disjI2 exI [of _ "stamp_at 7 0 9"] exI [of _ "drop 1 ?m"]) simp
  moreover have "\<forall>h\<in>set [stamp_at 7 0 9]. length (message_bytes h) \<le> min 24 (length (fr_buf ?r))"
    using len by simp
  ultimately have "n = 1 \<and> pending r' = [0x53] \<and> subslice out' 0 (lens' ! 0) = ?m"
    using take_messages_exact [OF _ _ _ _ t, of "[stamp_at 7 0 9]" "[0x53]"] by auto
  with t show ?thesis by auto
qed

end
