(* ===== verification/Tcp_Write.thy ===== *)
theory Tcp_Write
  imports Framing
begin

text \<open>
  The vectored write of the stream transports, \<open>writev_full\<close> of \<open>src/src/transport/tcp.rs\<close>, and the
  contract of \<open>DataSink::send_batch\<close>: return only at a message boundary. The answers of the kernel's
  \<open>writev\<close> are a list, one per call: a byte count or an error. A list that runs out is a call that
  has not returned (None). Beside the result the model returns the bytes the kernel accepted.

  It is an instance of the contract \<open>batch_sink\<close> of the transport interface.
\<close>

datatype writev_answer = Wrote nat | WriteErr io_error

text \<open>The bytes of the iovecs of one call: the rest of message \<open>idx\<close>, then the following ones.\<close>

definition iov_bytes :: "u8 list list \<Rightarrow> nat \<Rightarrow> nat \<Rightarrow> nat \<Rightarrow> u8 list" where
  "iov_bytes msgs idx off iov_cap =
     (let n_iov = min (length msgs - idx) iov_cap
      in drop (min off (length (msgs ! idx))) (concat (take n_iov (drop idx msgs))))"

text \<open>The inner loop: advance over the messages one write consumed.\<close>

function advance :: "u8 list list \<Rightarrow> nat \<Rightarrow> nat \<Rightarrow> nat \<Rightarrow> nat \<times> nat" where
  "advance msgs idx off written =
     (if 0 < written \<and> idx < length msgs
      then (let rem = length (msgs ! idx) - off in
            if rem \<le> written then advance msgs (idx + 1) 0 (written - rem)
            else (idx, off + written))
      else (idx, off))"
  by pat_completeness auto
termination
  by (relation "measure (\<lambda>(msgs, idx, off, written). length msgs - idx)") auto

declare advance.simps [simp del]

fun writev_loop ::
  "writev_answer list \<Rightarrow> u8 list list \<Rightarrow> nat \<Rightarrow> nat \<Rightarrow> nat \<Rightarrow> u8 list
   \<Rightarrow> ((io_error + nat) \<times> u8 list) option" where
  "writev_loop answers msgs iov_cap idx off wire =
     (if length msgs \<le> idx then Some (Inr (length msgs), wire)
      else (case answers of
              [] \<Rightarrow> None
            | WriteErr e # rest \<Rightarrow>
                (if e = Interrupted then writev_loop rest msgs iov_cap idx off wire
                 else if e = WouldBlock then
                   (if off = 0 then Some (Inr idx, wire)
                    else writev_loop rest msgs iov_cap idx off wire)
                 else Some (Inl e, wire))
            | Wrote n # rest \<Rightarrow>
                (let sent = take n (iov_bytes msgs idx off iov_cap) in
                 if sent = [] then Some (Inl WriteZero, wire)
                 else (case advance msgs idx off (length sent) of
                         (idx', off') \<Rightarrow>
                           writev_loop rest msgs iov_cap idx' off' (wire @ sent)))))"

lemma writev_loop_cases:
  "length msgs \<le> idx \<Longrightarrow> writev_loop answers msgs iov_cap idx off wire = Some (Inr (length msgs), wire)"
  "idx < length msgs \<Longrightarrow> writev_loop [] msgs iov_cap idx off wire = None"
  "idx < length msgs \<Longrightarrow> writev_loop (WriteErr e # rest) msgs iov_cap idx off wire =
     (if e = Interrupted then writev_loop rest msgs iov_cap idx off wire
      else if e = WouldBlock then
        (if off = 0 then Some (Inr idx, wire) else writev_loop rest msgs iov_cap idx off wire)
      else Some (Inl e, wire))"
  "idx < length msgs \<Longrightarrow> writev_loop (Wrote n # rest) msgs iov_cap idx off wire =
     (if take n (iov_bytes msgs idx off iov_cap) = [] then Some (Inl WriteZero, wire)
      else (case advance msgs idx off (length (take n (iov_bytes msgs idx off iov_cap))) of
              (idx', off') \<Rightarrow> writev_loop rest msgs iov_cap idx' off'
                 (wire @ take n (iov_bytes msgs idx off iov_cap))))"
  by (simp_all add: Let_def)

declare writev_loop.simps [simp del]

definition writev_full ::
  "writev_answer list \<Rightarrow> u8 list list \<Rightarrow> nat \<Rightarrow> ((io_error + nat) \<times> u8 list) option" where
  "writev_full answers msgs iov_cap =
     writev_loop answers msgs (clamp_nat iov_cap 1 BATCH_ABS_MAX) 0 0 []"

definition tcp_send_batch ::
  "writev_answer list \<Rightarrow> u8 list list \<Rightarrow> ((io_error + nat) \<times> u8 list) option" where
  "tcp_send_batch answers msgs =
     (if msgs = [] then Some (Inr 0, []) else writev_full answers msgs BATCH_ABS_MAX)"

section \<open>Progress of a write\<close>

text \<open>What has been sent when message \<open>idx\<close> is \<open>off\<close> bytes in.\<close>

definition sent_to :: "u8 list list \<Rightarrow> nat \<Rightarrow> nat \<Rightarrow> u8 list" where
  "sent_to msgs idx off = concat (take idx msgs) @ (if idx < length msgs then take off (msgs ! idx) else [])"

definition position_ok :: "u8 list list \<Rightarrow> nat \<Rightarrow> nat \<Rightarrow> bool" where
  "position_ok msgs idx off =
     (idx \<le> length msgs \<and> (if idx < length msgs then off \<le> length (msgs ! idx) else off = 0))"

lemma sent_to_0 [simp]: "sent_to msgs idx 0 = concat (take idx msgs)"
  by (simp add: sent_to_def)

lemma concat_take_Suc: "idx < length msgs \<Longrightarrow> concat (take (Suc idx) msgs) = concat (take idx msgs) @ msgs ! idx"
  by (simp add: take_Suc_conv_app_nth)

text \<open>The bytes still to send from a position.\<close>

definition unsent :: "u8 list list \<Rightarrow> nat \<Rightarrow> nat \<Rightarrow> u8 list" where
  "unsent msgs idx off = drop off (concat (drop idx msgs))"

lemma unsent_step:
  assumes "idx < length msgs" and "off \<le> length (msgs ! idx)"
  shows "unsent msgs idx off = drop off (msgs ! idx) @ unsent msgs (Suc idx) 0"
  using assms by (simp add: unsent_def Cons_nth_drop_Suc [symmetric])

lemma advance_correct:
  assumes "position_ok msgs idx off" and "n \<le> length (unsent msgs idx off)"
    and "advance msgs idx off n = (idx', off')"
  shows "position_ok msgs idx' off'
     \<and> sent_to msgs idx' off' = sent_to msgs idx off @ take n (unsent msgs idx off)
     \<and> idx \<le> idx'"
  using assms
proof (induction msgs idx off n rule: advance.induct)
  case (1 msgs idx off n)
  show ?case
  proof (cases "0 < n \<and> idx < length msgs")
    case False
    then have "(idx', off') = (idx, off)"
      using "1.prems"(3) by (subst (asm) advance.simps) (simp only: if_False)
    moreover have "n = 0"
      using False "1.prems"(1,2) by (auto simp: position_ok_def unsent_def)
    ultimately show ?thesis using "1.prems"(1) by simp
  next
    case True
    let ?rem = "length (msgs ! idx) - off"
    have off: "off \<le> length (msgs ! idx)" using "1.prems"(1) True by (simp add: position_ok_def)
    note un = unsent_step [of idx msgs off]
    show ?thesis
    proof (cases "?rem \<le> n")
      case False
      then have "(idx', off') = (idx, off + n)"
        using True "1.prems"(3) by (subst (asm) advance.simps) (simp add: Let_def)
      then show ?thesis
        using True False off un by (auto simp: position_ok_def sent_to_def take_add)
    next
      case rem: True
      have adv: "advance msgs (idx + 1) 0 (n - ?rem) = (idx', off')"
        using True rem "1.prems"(3) by (subst (asm) advance.simps) (simp add: Let_def)
      have pos: "position_ok msgs (idx + 1) 0" using True by (auto simp: position_ok_def)
      have "n - ?rem \<le> length (unsent msgs (idx + 1) 0)"
        using "1.prems"(2) un off True by simp
      from "1.IH" [OF True refl rem pos this adv]
      have IH: "position_ok msgs idx' off'" "idx + 1 \<le> idx'"
          "sent_to msgs idx' off' = concat (take (Suc idx) msgs) @ take (n - ?rem) (unsent msgs (Suc idx) 0)"
        by simp_all
      have "take n (unsent msgs idx off)
          = drop off (msgs ! idx) @ take (n - ?rem) (unsent msgs (Suc idx) 0)"
        using un off True rem by simp
      moreover have "sent_to msgs idx off @ drop off (msgs ! idx) = concat (take (Suc idx) msgs)"
        using True by (simp add: sent_to_def concat_take_Suc)
      ultimately show ?thesis using IH by (metis Suc_eq_plus1 Suc_leD append.assoc)
    qed
  qed
qed

lemma iov_bytes_prefix:
  assumes "position_ok msgs idx off" and "idx < length msgs"
  shows "\<exists>rest. unsent msgs idx off = iov_bytes msgs idx off iov_cap @ rest"
proof -
  let ?k = "min (length msgs - idx) iov_cap"
  have off: "off \<le> length (msgs ! idx)" using assms by (simp add: position_ok_def)
  have "concat (drop idx msgs) = concat (take ?k (drop idx msgs)) @ concat (drop ?k (drop idx msgs))"
    by (metis append_take_drop_id concat_append)
  then have "unsent msgs idx off = drop off (concat (take ?k (drop idx msgs)))
      @ drop (off - length (concat (take ?k (drop idx msgs)))) (concat (drop ?k (drop idx msgs)))"
    by (simp add: unsent_def)
  then show ?thesis using off by (simp add: iov_bytes_def min_def)
qed

lemma writev_step:
  assumes "position_ok msgs idx off" and "idx < length msgs"
    and "sent = take n (iov_bytes msgs idx off iov_cap)" and "advance msgs idx off (length sent) = (idx', off')"
  shows "position_ok msgs idx' off' \<and> sent_to msgs idx' off' = sent_to msgs idx off @ sent"
proof -
  obtain rest where un: "unsent msgs idx off = iov_bytes msgs idx off iov_cap @ rest"
    using iov_bytes_prefix [OF assms(1,2)] by blast
  then have "length sent \<le> length (unsent msgs idx off)" "take (length sent) (unsent msgs idx off) = sent"
    by (simp_all add: assms(3) min_def)
  with advance_correct [OF assms(1) this(1) assms(4)] show ?thesis by simp
qed

lemma sent_to_prefix:
  assumes "position_ok msgs idx off"
  shows "\<exists>rest. concat msgs = sent_to msgs idx off @ rest"
proof (cases "idx < length msgs")
  case True
  have "concat msgs = concat (take idx msgs) @ concat (drop idx msgs)"
    by (metis append_take_drop_id concat_append)
  moreover have "concat (drop idx msgs) = msgs ! idx @ concat (drop (Suc idx) msgs)"
    using True by (simp add: Cons_nth_drop_Suc [symmetric])
  ultimately have "concat msgs = sent_to msgs idx off @ drop off (msgs ! idx) @ concat (drop (Suc idx) msgs)"
    using True by (simp add: sent_to_def)
  then show ?thesis by blast
next
  case False
  then show ?thesis using assms by (simp add: position_ok_def sent_to_def)
qed

lemma writev_loop_correct:
  assumes "position_ok msgs idx off"
    and "writev_loop answers msgs iov_cap idx off (sent_to msgs idx off) = Some (res, wire)"
  shows "(\<forall>k. res = Inr k \<longrightarrow> k \<le> length msgs \<and> wire = concat (take k msgs))
       \<and> (\<exists>rest. concat msgs = wire @ rest)"
  using assms
proof (induction answers arbitrary: idx off)
  case Nil
  have "length msgs \<le> idx"
    using Nil.prems(2) by (cases "idx < length msgs") (auto simp: writev_loop_cases)
  then show ?case
    using Nil.prems sent_to_prefix [OF Nil.prems(1)]
    by (auto simp: writev_loop_cases position_ok_def sent_to_def)
next
  case (Cons a answers)
  note pos = Cons.prems(1) and run = Cons.prems(2) and pre = sent_to_prefix [OF Cons.prems(1)]
  show ?case
  proof (cases "length msgs \<le> idx")
    case True
    then show ?thesis
      using pos run pre by (auto simp: writev_loop_cases position_ok_def sent_to_def)
  next
    case idx: False
    show ?thesis
    proof (cases a)
      case (WriteErr e)
      show ?thesis
      proof (cases "e = Interrupted \<or> e = WouldBlock \<and> off \<noteq> 0")
        case True
        then have "writev_loop answers msgs iov_cap idx off (sent_to msgs idx off) = Some (res, wire)"
          using run idx WriteErr by (auto simp: writev_loop_cases)
        then show ?thesis by (rule Cons.IH [OF pos])
      next
        case False
        then have "(res = Inr idx \<and> off = 0 \<or> (\<exists>e. res = Inl e)) \<and> wire = sent_to msgs idx off"
          using run idx WriteErr by (auto simp: writev_loop_cases split: if_splits)
        then show ?thesis using pre idx by auto
      qed
    next
      case (Wrote n)
      let ?sent = "take n (iov_bytes msgs idx off iov_cap)"
      obtain idx' off' where adv: "advance msgs idx off (length ?sent) = (idx', off')" by fastforce
      show ?thesis
      proof (cases "?sent = []")
        case True
        then have "res = Inl WriteZero \<and> wire = sent_to msgs idx off"
          using run idx Wrote by (simp only: not_le writev_loop_cases if_True) simp
        then show ?thesis using pre by simp
      next
        case False
        have step: "position_ok msgs idx' off'" "sent_to msgs idx' off' = sent_to msgs idx off @ ?sent"
          using writev_step [OF pos _ refl adv] idx by auto
        have "writev_loop answers msgs iov_cap idx' off' (sent_to msgs idx' off') = Some (res, wire)"
          using run idx Wrote False adv step(2)
          by (simp only: not_le writev_loop_cases if_False prod.case)
        then show ?thesis by (rule Cons.IH [OF step(1)])
      qed
    qed
  qed
qed

lemma writev_full_correct:
  assumes "writev_full answers msgs iov_cap = Some (res, wire)"
  shows "(\<forall>k. res = Inr k \<longrightarrow> k \<le> length msgs \<and> wire = concat (take k msgs))
       \<and> (\<exists>rest. concat msgs = wire @ rest)"
proof -
  have "position_ok msgs 0 0" by (simp add: position_ok_def)
  then show ?thesis using writev_loop_correct assms by (fastforce simp: writev_full_def)
qed

text \<open>
  A TCP sink: the kernel's answers for the coming batches, and the bytes of the stream so far.
\<close>

definition tcp_sink_send ::
  "u8 list list \<Rightarrow> writev_answer list list \<times> u8 list
   \<Rightarrow> ((io_error + nat) \<times> writev_answer list list \<times> u8 list) option" where
  "tcp_sink_send msgs s =
     (case s of
        ([], w) \<Rightarrow> None
      | (a # as, w) \<Rightarrow> map_option (\<lambda>(res, sent). (res, as, w @ sent)) (tcp_send_batch a msgs))"

interpretation tcp_sink: batch_sink tcp_sink_send snd concat
proof (unfold_locales, goal_cases)
  case (3 ms s k s')
  obtain a as w where s: "s = (a # as, w)" using 3 by (auto simp: tcp_sink_send_def split: prod.splits list.splits)
  then obtain sent where r: "tcp_send_batch a ms = Some (Inr k, sent)" "s' = (as, w @ sent)"
    using 3 by (auto simp: tcp_sink_send_def)
  then have "k \<le> length ms \<and> sent = concat (take k ms)"
    using writev_full_correct [of a ms BATCH_ABS_MAX "Inr k" sent]
    by (auto simp: tcp_send_batch_def split: if_splits)
  then show ?case using r s by simp
next
  case (4 ms s e s')
  obtain a as w where s: "s = (a # as, w)" using 4 by (auto simp: tcp_sink_send_def split: prod.splits list.splits)
  then obtain sent where r: "tcp_send_batch a ms = Some (Inl e, sent)" "s' = (as, w @ sent)"
    using 4 by (auto simp: tcp_sink_send_def)
  then show ?case
    using writev_full_correct [of a ms BATCH_ABS_MAX "Inl e" sent] s
    by (auto simp: tcp_send_batch_def split: if_splits)
qed simp_all

text \<open>
  C11: The vectored write returns only at message boundaries: whatever short counts, interruptions and
  would-block answers the kernel gives, a returned count \<open>k\<close> means that exactly the bytes of the first
  \<open>k\<close> messages are on the stream, and even a failing call leaves a prefix of the batch there.
\<close>

theorem writev_full_message_boundary:
  assumes "writev_full answers msgs iov_cap = Some (res, wire)"
  shows "(\<forall>k. res = Inr k \<longrightarrow> k \<le> length msgs \<and> wire = concat (take k msgs))
       \<and> (\<exists>rest. concat msgs = wire @ rest)"
  by (rule writev_full_correct [OF assms])

lemma writev_full_message_boundary_witness:
  "\<exists>rest. concat [[1, 2, 3], [4, 5 :: u8]] = [1, 2, 3] @ rest"
proof -
  have "writev_full [Wrote 2, WriteErr WouldBlock, Wrote 1, WriteErr WouldBlock] [[1, 2, 3], [4, 5]] 1
      = Some (Inr 1, [1, 2, 3])"
    by (simp add: writev_full_def clamp_nat_def BATCH_ABS_MAX_def writev_loop_cases iov_bytes_def
        advance.simps Let_def)
  from writev_full_message_boundary [OF this] show ?thesis by simp
qed

section \<open>The write returns\<close>

lemma iov_bytes_nonempty:
  assumes "position_ok msgs idx off" and "idx < length msgs" and "off < length (msgs ! idx)"
    and "0 < iov_cap"
  shows "iov_bytes msgs idx off iov_cap \<noteq> []"
proof -
  obtain k where "min (length msgs - idx) iov_cap = Suc k"
    using assms(2,4) by (cases "min (length msgs - idx) iov_cap") auto
  then show ?thesis
    using assms by (simp add: iov_bytes_def Cons_nth_drop_Suc [symmetric])
qed

definition position_strict :: "u8 list list \<Rightarrow> nat \<Rightarrow> nat \<Rightarrow> bool" where
  "position_strict msgs idx off = (idx < length msgs \<longrightarrow> off < length (msgs ! idx))"

lemma advance_strict:
  assumes "position_strict msgs idx off" and "[] \<notin> set msgs" and "advance msgs idx off n = (idx', off')"
  shows "position_strict msgs idx' off'"
  using assms
proof (induction msgs idx off n rule: advance.induct)
  case (1 msgs idx off n)
  show ?case
  proof (cases "0 < n \<and> idx < length msgs")
    case False
    then have "(idx', off') = (idx, off)"
      using "1.prems"(3) by (subst (asm) advance.simps) (simp only: if_False)
    then show ?thesis using "1.prems"(1) by simp
  next
    case True
    let ?rem = "length (msgs ! idx) - off"
    show ?thesis
    proof (cases "?rem \<le> n")
      case False
      then have "(idx', off') = (idx, off + n)"
        using True "1.prems"(3) by (subst (asm) advance.simps) (simp add: Let_def)
      moreover have "off + n < length (msgs ! idx)" using False by linarith
      ultimately show ?thesis by (simp add: position_strict_def)
    next
      case rem: True
      have "advance msgs (idx + 1) 0 (n - ?rem) = (idx', off')"
        using True rem "1.prems"(3) by (subst (asm) advance.simps) (simp add: Let_def)
      moreover have "position_strict msgs (idx + 1) 0"
        using "1.prems"(2) by (auto simp: position_strict_def) (metis nth_mem)
      ultimately show ?thesis using "1.IH" [OF True refl rem] "1.prems"(2) by blast
    qed
  qed
qed

lemma sent_unsent: "position_ok msgs idx off \<Longrightarrow> sent_to msgs idx off @ unsent msgs idx off = concat msgs"
proof (cases "idx < length msgs")
  case True
  assume pos: "position_ok msgs idx off"
  have "concat (take idx msgs) @ concat (drop idx msgs) = concat msgs"
    by (metis append_take_drop_id concat_append)
  moreover have "concat (drop idx msgs) = msgs ! idx @ concat (drop (Suc idx) msgs)"
    using True by (simp add: Cons_nth_drop_Suc [symmetric])
  ultimately show ?thesis
    using True pos unsent_step [of idx msgs off] append_take_drop_id [of off "msgs ! idx"]
    by (simp add: sent_to_def position_ok_def unsent_def)
      (metis append.assoc append_take_drop_id)
next
  case False
  assume "position_ok msgs idx off"
  with False show ?thesis by (simp add: position_ok_def sent_to_def unsent_def)
qed

lemma writev_loop_progress:
  assumes "position_ok msgs idx off" and "position_strict msgs idx off" and "[] \<notin> set msgs"
    and "list_all (\<lambda>a. \<exists>n. 0 < n \<and> a = Wrote n) answers" and "0 < iov_cap"
    and "length (unsent msgs idx off) \<le> length answers"
  shows "\<exists>w. writev_loop answers msgs iov_cap idx off wire = Some (Inr (length msgs), w)"
  using assms
proof (induction answers arbitrary: idx off wire)
  case Nil
  have "\<not> idx < length msgs"
    using Nil.prems unsent_step [of idx msgs off] by (auto simp: position_ok_def position_strict_def)
  then show ?case by (simp add: writev_loop_cases)
next
  case (Cons a answers)
  show ?case
  proof (cases "idx < length msgs")
    case False
    then show ?thesis by (simp add: writev_loop_cases)
  next
    case idx: True
    obtain n where a: "a = Wrote n" "0 < n" using Cons.prems(4) by auto
    let ?sent = "take n (iov_bytes msgs idx off iov_cap)"
    obtain idx' off' where adv: "advance msgs idx off (length ?sent) = (idx', off')" by fastforce
    have "iov_bytes msgs idx off iov_cap \<noteq> []"
      using Cons.prems(1,2,5) idx by (intro iov_bytes_nonempty) (auto simp: position_strict_def)
    then have ne: "?sent \<noteq> []" using a(2) by simp
    have step: "position_ok msgs idx' off'" "sent_to msgs idx' off' = sent_to msgs idx off @ ?sent"
      using writev_step [OF Cons.prems(1) idx refl adv] by auto
    have "length (sent_to msgs idx' off') + length (unsent msgs idx' off')
        = length (sent_to msgs idx off) + length (unsent msgs idx off)"
      using sent_unsent [OF Cons.prems(1)] sent_unsent [OF step(1)] by (metis length_append)
    then have "length (unsent msgs idx' off') \<le> length answers"
      using step(2) ne Cons.prems(6) by (cases ?sent) auto
    then have "\<exists>w. writev_loop answers msgs iov_cap idx' off' (wire @ ?sent) = Some (Inr (length msgs), w)"
      using Cons.IH [OF step(1)] advance_strict [OF Cons.prems(2,3) adv] Cons.prems(3-5) by simp
    then show ?thesis using idx ne adv a(1) by (simp only: writev_loop_cases if_False prod.case)
  qed
qed

text \<open>
  The vectored write returns: against a kernel that accepts at least one byte per call, no more
  calls are made than the batch has bytes, and all messages are then on the stream.
\<close>

theorem writev_full_completes:
  assumes "[] \<notin> set msgs" and "list_all (\<lambda>a. \<exists>n. 0 < n \<and> a = Wrote n) answers"
    and "length (concat msgs) \<le> length answers"
  shows "writev_full answers msgs iov_cap = Some (Inr (length msgs), concat msgs)"
proof -
  have pos: "position_ok msgs 0 0" and strict: "position_strict msgs 0 0"
    using assms(1) by (cases msgs; auto simp: position_ok_def position_strict_def)+
  have "0 < clamp_nat iov_cap 1 BATCH_ABS_MAX"
    by (simp add: clamp_nat_def BATCH_ABS_MAX_def)
  moreover have "length (unsent msgs 0 0) \<le> length answers" using assms(3) by (simp add: unsent_def)
  ultimately obtain w where "writev_full answers msgs iov_cap = Some (Inr (length msgs), w)"
    using writev_loop_progress [OF pos strict assms(1,2)] unfolding writev_full_def by blast
  then show ?thesis using writev_full_correct [of answers msgs iov_cap] by fastforce
qed

lemma writev_full_completes_witness:
  "writev_full (replicate 3 (Wrote 1)) [[1, 2], [3 :: u8]] 4 = Some (Inr 2, [1, 2, 3])"
  using writev_full_completes [of "[[1, 2], [3 :: u8]]" "replicate 3 (Wrote 1)" 4]
  by (simp add: list_all_iff)

end
