(* ===== verification/Udp.thy ===== *)
theory Udp
  imports Framing Dscp
begin

text \<open>
  The datagram transport, \<open>src/src/transport/udp.rs\<close>: single and batched sends and receives, the receive
  that reports the TOS byte, and the full-duplex end of the ping-pong mode. What a system call
  answers is an argument. A datagram socket never transmits part of a message, so the sink is an
  instance of the contract \<open>batch_sink\<close> with whole datagrams as units.
\<close>

section \<open>Sending\<close>

definition short_send :: io_error where
  "short_send = OtherErr 0"

definition udp_send_msg :: "io_error + nat \<Rightarrow> u8 list \<Rightarrow> io_error + unit" where
  "udp_send_msg answer buf =
     (case answer of
        Inl e \<Rightarrow> Inl e
      | Inr n \<Rightarrow> if n \<noteq> length buf then Inl short_send else Inr ())"

definition udp_send_batch :: "io_error + nat \<Rightarrow> u8 list list \<Rightarrow> io_error + nat" where
  "udp_send_batch answer msgs =
     (if msgs = [] then Inr 0
      else (case answer of
              Inl e \<Rightarrow> if e = WouldBlock \<or> e = Interrupted then Inr 0 else Inl e
            | Inr ret \<Rightarrow> Inr ret))"

section \<open>Receiving\<close>

definition udp_recv_msg :: "io_error + nat \<Rightarrow> io_error + recv_outcome" where
  "udp_recv_msg answer =
     (case answer of
        Inr n \<Rightarrow> Inr (Message n)
      | Inl e \<Rightarrow>
          if e = WouldBlock \<or> e = TimedOut then Inr Timeout
          else if e = Interrupted then Inr Timeout
          else Inl e)"

text \<open>
  \<open>recvmmsg\<close> writes datagram \<open>i\<close> to slot \<open>i\<close>, cut to the slot, and reports its length; it fills at most
  as many slots as it is given.
\<close>

definition udp_recv_batch ::
  "io_error + u8 list list \<Rightarrow> u8 list \<Rightarrow> nat \<Rightarrow> nat \<Rightarrow> nat list
   \<Rightarrow> (io_error + batch_outcome) \<times> u8 list \<times> nat list" where
  "udp_recv_batch answer buf stride k lens =
     (if stride = 0 then (Inr BTimeout, buf, lens)
      else let vlen = min (min k (length buf div stride)) (length lens) in
        if vlen = 0 then (Inr BTimeout, buf, lens)
        else (case answer of
                Inl e \<Rightarrow>
                  (if e = WouldBlock \<or> e = TimedOut \<or> e = Interrupted then Inr BTimeout else Inl e,
                   buf, lens)
              | Inr datagrams \<Rightarrow>
                  (let ds = take vlen datagrams; (buf', lens') = fill_slots stride 0 ds buf lens
                   in (Inr (Messages (length ds)), buf', lens'))))"

definition udp_recv_msg_with_tos ::
  "io_error + nat \<times> cmsg list \<Rightarrow> io_error + recv_outcome \<times> u8 option" where
  "udp_recv_msg_with_tos recvmsg =
     (case recv_one_with_tos recvmsg of
        Inr (n, tos) \<Rightarrow> Inr (Message n, tos)
      | Inl e \<Rightarrow>
          if e = WouldBlock \<or> e = TimedOut \<or> e = Interrupted then Inr (Timeout, None) else Inl e)"

section \<open>Full duplex\<close>

record 'a udp_duplex =
  ud_peer :: "'a option"
  ud_connected :: bool

text \<open>The result of a send comes with the peer it addressed (None for a connected socket).\<close>

definition udp_duplex_send ::
  "'a udp_duplex \<Rightarrow> io_error + nat \<Rightarrow> u8 list \<Rightarrow> (io_error + unit) \<times> 'a option" where
  "udp_duplex_send d answer buf =
     (if ud_connected d then (udp_send_msg answer buf, None)
      else (case ud_peer d of
              Some peer \<Rightarrow> (udp_send_msg answer buf, Some peer)
            | None \<Rightarrow> (Inl short_send, None)))"

definition udp_duplex_recv ::
  "'a udp_duplex \<Rightarrow> io_error + nat \<times> 'a \<Rightarrow> (io_error + recv_outcome) \<times> 'a udp_duplex" where
  "udp_duplex_recv d answer =
     (let result = map_sum id fst answer;
          d' = (case answer of
                  Inr (n, peer) \<Rightarrow> if ud_connected d then d else d\<lparr>ud_peer := Some peer\<rparr>
                | Inl _ \<Rightarrow> d)
      in (udp_recv_msg result, d'))"

section \<open>The batched operations meet their contracts\<close>

text \<open>A datagram sink: the answers to the coming \<open>sendmmsg\<close> calls, and the datagrams sent.\<close>

definition udp_sink_send ::
  "u8 list list \<Rightarrow> (io_error + nat) list \<times> u8 list list
   \<Rightarrow> ((io_error + nat) \<times> (io_error + nat) list \<times> u8 list list) option" where
  "udp_sink_send msgs s =
     (case s of
        ([], w) \<Rightarrow> None
      | (a # as, w) \<Rightarrow>
          (let a' = map_sum id (\<lambda>n. min n (length msgs)) a in
           case udp_send_batch a' msgs of
             Inl e \<Rightarrow> Some (Inl e, as, w)
           | Inr k \<Rightarrow> Some (Inr k, as, w @ take k msgs)))"

interpretation udp_sink: batch_sink udp_sink_send snd "\<lambda>ms. ms"
proof (unfold_locales, goal_cases)
  case (3 ms s k s')
  then obtain a as w where s: "s = (a # as, w)"
    by (auto simp: udp_sink_send_def split: prod.splits list.splits)
  then show ?case
    using 3 by (cases a) (auto simp: udp_sink_send_def udp_send_batch_def split: if_splits)
next
  case (4 ms s e s')
  then have "snd s' = snd s"
    by (auto simp: udp_sink_send_def Let_def split: prod.splits list.splits sum.splits)
  then show ?case by (intro exI [of _ "[]"] exI [of _ ms]) simp
qed simp_all

text \<open>One datagram at a time: the same socket through \<open>send_msg\<close>.\<close>

definition udp_msg_sink ::
  "u8 list \<Rightarrow> (io_error + unit) list \<times> u8 list list
   \<Rightarrow> (io_error + unit) \<times> (io_error + unit) list \<times> u8 list list" where
  "udp_msg_sink m s =
     (case s of
        ([], w) \<Rightarrow> (Inl WouldBlock, [], w)
      | (a # as, w) \<Rightarrow>
          (case udp_send_msg (map_sum id (\<lambda>_. length m) a) m of
             Inl e \<Rightarrow> (Inl e, as, w)
           | Inr _ \<Rightarrow> (Inr (), as, w @ [m])))"

interpretation udp_msgs: message_sink udp_msg_sink snd
  by unfold_locales (auto simp: udp_msg_sink_def udp_send_msg_def split: prod.splits list.splits sum.splits)

text \<open>
  A batched datagram receive hands over exactly the datagrams the kernel delivered: as many as
  slots, buffer and request allow, datagram \<open>i\<close> in slot \<open>i\<close> with its own length, cut to the slot, and
  the buffers keep their size.
\<close>

theorem udp_recv_batch_slots:
  assumes "udp_recv_batch (Inr datagrams) buf stride k lens = (Inr (Messages n), buf', lens')"
  shows "n = min (length datagrams) (min (min k (length buf div stride)) (length lens))
       \<and> length buf' = length buf \<and> length lens' = length lens
       \<and> (\<forall>i. i < n \<longrightarrow> subslice buf' (i * stride) (i * stride + lens' ! i) = take stride (datagrams ! i))"
proof -
  let ?vlen = "min (min k (length buf div stride)) (length lens)"
  let ?ds = "take ?vlen datagrams"
  have fill: "fill_slots stride 0 ?ds buf lens = (buf', lens')" and n: "n = length ?ds"
    using assms by (auto simp: udp_recv_batch_def Let_def split: if_splits prod.splits)
  have "length ?ds * stride \<le> length buf div stride * stride"
    by (intro mult_le_mono1) simp
  also have "\<dots> \<le> length buf" by simp
  finally have fit: "(0 + length ?ds) * stride \<le> length buf" by simp
  have lens: "0 + length ?ds \<le> length lens" by simp
  have "subslice buf' (i * stride) (i * stride + lens' ! i) = take stride (datagrams ! i)" if "i < n" for i
  proof -
    have "i < length ?ds" using that n by simp
    from fill_slots_filled [OF fill fit lens this] show ?thesis using that n by (auto simp only: add_0) auto
  qed
  then show ?thesis using fill_slots_length [OF fill fit lens] n by simp
qed

lemma udp_recv_batch_slots_witness:
  "subslice [1, 2, 0, 3, 0, 0] 3 4 = take 3 [3 :: u8]"
proof -
  have "udp_recv_batch (Inr [[1, 2], [3]]) [0, 0, 0, 0, 0, 0] 3 2 [0, 0]
      = (Inr (Messages 2), [1, 2, 0, 3, 0, 0], [2, 1])"
    by (simp add: udp_recv_batch_def blit_def)
  from udp_recv_batch_slots [OF this] show ?thesis by (auto dest: spec [of _ 1])
qed

end
