(* ===== verification/Engine.thy ===== *)
theory Engine
  imports App_Metrics Sender Framing
begin

text \<open>
  The run lifecycle, \<open>src/src/run/engine.rs\<close>: the worker loops and the aggregation of runs. A worker is
  driven by a list of turns, one per iteration of its loop: what the clock, the shared phase flag
  and the transport answered in that iteration. A list that runs out is a worker that has not
  finished (None). Threads, core pinning and sleeping are not modelled; the phase each turn reads is
  arbitrary, so every interleaving with the main thread's phase changes is covered.
\<close>

section \<open>Phases and parameters\<close>

definition PHASE_WARMUP :: u8 where "PHASE_WARMUP = 0"
definition PHASE_MEASURE :: u8 where "PHASE_MEASURE = 1"
definition PHASE_COOLDOWN :: u8 where "PHASE_COOLDOWN = 2"
definition PHASE_DONE :: u8 where "PHASE_DONE = 3"

datatype run_mode = ModeThroughput | ModePingPong | ModeConnrate

record run_params =
  rn_message_bytes :: u32
  rn_connections :: nat
  rn_runs :: nat
  rn_warmup :: f64
  rn_measure :: f64
  rn_cooldown :: f64
  rn_remove_outliers :: bool
  rn_sender_cores :: "nat list"
  rn_receiver_cores :: "nat list"
  rn_sender :: sender
  rn_mode :: run_mode

record rtt_summary =
  rtt_mean_us :: f64
  rtt_mean_ci95 :: f64
  rtt_p50_us :: f64
  rtt_p99_us :: f64
  rtt_samples :: u64

record conn_summary =
  cn_conns_per_sec :: f64
  cn_conns_per_sec_ci95 :: f64
  cn_handshake_p50_us :: f64
  cn_handshake_p99_us :: f64
  cn_total_conns :: u64
  cn_first_handshake_us :: f64
  cn_resumed_handshake_us :: f64

record run_stats =
  rs_runs :: "flow_summary list"
  rs_throughput_gbps :: summary
  rs_latency_mean_us :: summary
  rs_latency_p99_us :: summary
  rs_handshake_us :: summary
  rs_total_lost :: u64
  rs_loss_pct :: f64
  rs_mode :: run_mode
  rs_rtt :: "rtt_summary option"
  rs_conn :: "conn_summary option"
  rs_co_corrected :: bool
  rs_send_lag_mean_us :: f64
  rs_send_lag_max_us :: f64

section \<open>The receiver\<close>

definition ZC_RECV_MIN :: nat where "ZC_RECV_MIN = 512 * 1024"

definition uses_inplace_recv :: "bool \<Rightarrow> u32 \<Rightarrow> bool" where
  "uses_inplace_recv supported n = (supported \<and> ZC_RECV_MIN \<le> unat n)"

text \<open>The batch a source is asked for.\<close>

definition worker_batch :: "nat \<Rightarrow> nat" where
  "worker_batch preferred = clamp_nat preferred 1 BATCH_ABS_MAX"

text \<open>What the measuring branch does with one message.\<close>

definition ingest_one :: "nat \<Rightarrow> u64 \<Rightarrow> u8 list \<Rightarrow> flow_metrics \<Rightarrow> flow_metrics" where
  "ingest_one stride recv_ns msg m =
     (let m = (if length msg \<noteq> stride then record_boundary_violation m else m) in
      case ingest m msg recv_ns of
        (m', Inl _) \<Rightarrow> record_integrity_failure m'
      | (m', Inr _) \<Rightarrow> m')"

record rx_turn =
  rt_result :: "io_error + batch_outcome"
  rt_buf :: "u8 list"
  rt_lens :: "nat list"
  rt_recv_ns :: u64
  rt_phase :: u8

definition batch_msgs :: "nat \<Rightarrow> rx_turn \<Rightarrow> nat \<Rightarrow> u8 list list" where
  "batch_msgs stride t k =
     map (\<lambda>i. subslice (rt_buf t) (i * stride) (i * stride + rt_lens t ! i)) [0..<k]"

text \<open>The slices of a batch are inside the buffer; otherwise taking them panics.\<close>

definition slots_ok :: "nat \<Rightarrow> rx_turn \<Rightarrow> nat \<Rightarrow> bool" where
  "slots_ok stride t k =
     list_all (\<lambda>i. i < length (rt_lens t) \<and> i * stride + rt_lens t ! i \<le> length (rt_buf t)) [0..<k]"

fun receiver_loop :: "nat \<Rightarrow> rx_turn list \<Rightarrow> flow_metrics \<Rightarrow> flow_metrics option" where
  "receiver_loop stride [] m = None"
| "receiver_loop stride (t # ts) m =
     (case rt_result t of
        Inr (Messages k) \<Rightarrow>
          (if \<not> slots_ok stride t k then None
           else if rt_phase t = PHASE_MEASURE
           then receiver_loop stride ts (fold (ingest_one stride (rt_recv_ns t)) (batch_msgs stride t k) m)
           else receiver_loop stride ts m)
      | Inr BTimeout \<Rightarrow> (if rt_phase t = PHASE_DONE then Some m else receiver_loop stride ts m)
      | Inr BClosed \<Rightarrow> Some m
      | Inl _ \<Rightarrow> Some m)"

text \<open>In place: every message has its own clock reading and phase.\<close>

record zc_turn =
  zt_result :: "io_error + batch_outcome"
  zt_msgs :: "(u8 list \<times> u64 \<times> u8) list"
  zt_phase :: u8

definition ingest_inplace :: "nat \<Rightarrow> u8 list \<times> u64 \<times> u8 \<Rightarrow> flow_metrics \<Rightarrow> flow_metrics" where
  "ingest_inplace stride e m =
     (case e of (msg, recv_ns, phase) \<Rightarrow>
        if phase = PHASE_MEASURE then ingest_one stride recv_ns msg m else m)"

fun receiver_inplace_loop :: "nat \<Rightarrow> zc_turn list \<Rightarrow> flow_metrics \<Rightarrow> flow_metrics option" where
  "receiver_inplace_loop stride [] m = None"
| "receiver_inplace_loop stride (t # ts) m =
     (let m = fold (ingest_inplace stride) (zt_msgs t) m in
      case zt_result t of
        Inr (Messages _) \<Rightarrow> receiver_inplace_loop stride ts m
      | Inr BTimeout \<Rightarrow>
          (if zt_phase t = PHASE_DONE then Some m else receiver_inplace_loop stride ts m)
      | Inr BClosed \<Rightarrow> Some m
      | Inl _ \<Rightarrow> Some m)"

text \<open>The worker: which loop runs is decided once.\<close>

definition receiver_worker ::
  "bool \<Rightarrow> u32 \<Rightarrow> rx_turn list \<Rightarrow> zc_turn list \<Rightarrow> flow_metrics option" where
  "receiver_worker inplace n ts zs =
     (if uses_inplace_recv inplace n then receiver_inplace_loop (unat n) zs flow_new
      else receiver_loop (unat n) ts flow_new)"

section \<open>The sender\<close>

text \<open>
  The unthrottled blast over a sink \<open>send\<close>: a turn is the phase read and the clock readings of the batch.
\<close>

fun blast_loop ::
  "(u8 list list \<Rightarrow> 's \<Rightarrow> ((io_error + nat) \<times> 's) option) \<Rightarrow> nat \<Rightarrow> (u8 \<times> (nat \<Rightarrow> u64)) list
   \<Rightarrow> u64 \<Rightarrow> batch_builder \<Rightarrow> 's \<Rightarrow> (u64 \<times> batch_builder \<times> 's) option" where
  "blast_loop send bsz [] seq b s = None"
| "blast_loop send bsz ((phase, now) # ts) seq b s =
     (if phase = PHASE_DONE then Some (seq, b, s)
      else (case batch_build seq bsz now b of
              None \<Rightarrow> None
            | Some (built, b') \<Rightarrow>
                (case send built s of
                   None \<Rightarrow> None
                 | Some (Inr n, s') \<Rightarrow>
                     blast_loop send bsz ts (if n = 0 then seq else seq + of_nat n) b' s'
                 | Some (Inl _, s') \<Rightarrow> Some (seq, b', s'))))"

text \<open>In-place blast: the slots a batch reserves, each with the clock and the commit's answer.\<close>

record slot_step =
  ss_slot :: "u8 list option"
  ss_now :: u64
  ss_commit :: "io_error + bool"

fun inplace_fill :: "message_builder \<Rightarrow> u64 \<Rightarrow> nat \<Rightarrow> slot_step list \<Rightarrow> u8 list list option" where
  "inplace_fill b seq i [] = Some []"
| "inplace_fill b seq i (st # sts) =
     (case ss_slot st of
        None \<Rightarrow> Some []
      | Some slot \<Rightarrow>
          (case build_into (seq + of_nat i) (ss_now st) b slot of
             None \<Rightarrow> None
           | Some (slot', n) \<Rightarrow>
               (if ss_commit st = Inr True
                then map_option ((#) slot') (inplace_fill b seq (i + 1) sts)
                else Some [])))"

fun inplace_blast_loop ::
  "message_builder \<Rightarrow> nat \<Rightarrow> (u8 \<times> slot_step list \<times> (io_error + unit)) list \<Rightarrow> u64 \<Rightarrow> u8 list list
   \<Rightarrow> (u64 \<times> u8 list list) option" where
  "inplace_blast_loop b bsz [] seq out = None"
| "inplace_blast_loop b bsz ((phase, slots, flush) # ts) seq out =
     (if phase = PHASE_DONE then Some (seq, out)
      else (case inplace_fill b seq 0 (take bsz slots) of
              None \<Rightarrow> None
            | Some msgs \<Rightarrow>
                (if msgs = [] then inplace_blast_loop b bsz ts seq out
                 else (case flush of
                         Inl _ \<Rightarrow> Some (seq, out @ msgs)
                       | Inr _ \<Rightarrow> inplace_blast_loop b bsz ts (seq + of_nat (length msgs)) (out @ msgs)))))"

text \<open>
  The paced sender. Its phase flag is read up to three times per turn; \<open>pt_slot\<close> is what \<open>reserve\<close> lent,
  and \<open>pt_result\<close> the answer of the commit or of the send.
\<close>

record paced_turn =
  pt_phase0 :: u8
  pt_woke :: u64
  pt_phase1 :: u8
  pt_phase2 :: u8
  pt_slot :: "u8 list option"
  pt_result :: "io_error + unit"

record paced_state =
  pd_pacer :: pacer
  pd_lag :: send_lag
  pd_builder :: message_builder
  pd_seq :: u64
  pd_out :: "u8 list list"

definition paced_message :: "paced_state \<Rightarrow> u64 \<Rightarrow> u8 list option \<Rightarrow> (u8 list \<times> message_builder) option" where
  "paced_message st deadline slot =
     (case slot of
        Some buf \<Rightarrow>
          map_option (\<lambda>(buf', n). (take n buf', pd_builder st)) (build_into (pd_seq st) deadline (pd_builder st) buf)
      | None \<Rightarrow> build_at (pd_seq st) deadline (pd_builder st))"

fun paced_loop :: "u64 \<Rightarrow> paced_turn list \<Rightarrow> paced_state \<Rightarrow> paced_state option" where
  "paced_loop start [] st = None"
| "paced_loop start (t # ts) st =
     (if pt_phase0 t = PHASE_DONE then Some st
      else
        let (d, pacer) = next_deadline_ns (pd_pacer st);
            deadline = start + d;
            st = st\<lparr>pd_pacer := pacer\<rparr>
        in if pt_phase1 t = PHASE_DONE then Some st
           else (case paced_message st deadline (pt_slot t) of
                   None \<Rightarrow> None
                 | Some (msg, b) \<Rightarrow>
                     (let st = st\<lparr>pd_builder := b\<rparr> in
                      case pt_result t of
                        Inr _ \<Rightarrow>
                          paced_loop start ts
                            (st\<lparr>pd_lag := (if pt_phase2 t = PHASE_MEASURE
                                          then lag_record (sat_sub (pt_woke t) deadline) (pd_lag st)
                                          else pd_lag st),
                                pd_seq := pd_seq st + 1, pd_out := pd_out st @ [msg]\<rparr>)
                      | Inl e \<Rightarrow> if e = WouldBlock then paced_loop start ts st else Some st)))"

definition paced_start :: "sender \<Rightarrow> u32 \<Rightarrow> paced_state" where
  "paced_start spec n =
     \<lparr>pd_pacer = from_sender spec n, pd_lag = send_lag_default, pd_builder = builder_new n,
      pd_seq = 0, pd_out = []\<rparr>"

section \<open>Ping-pong and connection rate\<close>

record pingpong_turn =
  pp_phase0 :: u8
  pp_phase1 :: u8
  pp_now :: u64
  pp_t0 :: u64
  pp_sent :: "io_error + unit"
  pp_phase2 :: u8
  pp_result :: "io_error + recv_outcome"
  pp_recv :: "u8 list"
  pp_t1 :: u64

fun pingpong_client_loop ::
  "pingpong_turn list \<Rightarrow> flow_metrics \<Rightarrow> message_builder \<Rightarrow> u64 \<Rightarrow> flow_metrics option" where
  "pingpong_client_loop [] m b seq = None"
| "pingpong_client_loop (t # ts) m b seq =
     (if pp_phase0 t = PHASE_DONE then Some m
      else (case build seq (pp_now t) b of
              None \<Rightarrow> None
            | Some (msg, b') \<Rightarrow>
                (case pp_sent t of
                   Inl e \<Rightarrow>
                     (if e = WouldBlock
                      then if pp_phase2 t = PHASE_DONE then Some m else pingpong_client_loop ts m b' seq
                      else Some m)
                 | Inr _ \<Rightarrow>
                     (case pp_result t of
                        Inr (Message n) \<Rightarrow>
                          (let rtt_ns = sat_sub (pp_t1 t) (pp_t0 t);
                               m' = (if pp_phase1 t = PHASE_MEASURE
                                     then (case decode_message (take n (pp_recv t)) of
                                             Inr hdr \<Rightarrow> record_msg (wh_seq hdr) rtt_ns (of_nat n) m
                                           | Inl _ \<Rightarrow> m)
                                     else m)
                           in pingpong_client_loop ts m' b' (seq + 1))
                      | Inr Timeout \<Rightarrow>
                          (if pp_phase2 t = PHASE_DONE then Some m else pingpong_client_loop ts m b' seq)
                      | Inr Closed \<Rightarrow> Some m
                      | Inl _ \<Rightarrow> Some m))))"

text \<open>The echo server: what it received and whether its answer was accepted.\<close>

fun echo_loop :: "((io_error + recv_outcome) \<times> u8 list \<times> (io_error + unit) \<times> u8) list \<Rightarrow> u8 list list \<Rightarrow> u8 list list option" where
  "echo_loop [] out = None"
| "echo_loop ((result, buf, sent, phase) # ts) out =
     (case result of
        Inr (Message n) \<Rightarrow>
          (case sent of Inl _ \<Rightarrow> Some out | Inr _ \<Rightarrow> echo_loop ts (out @ [take n buf]))
      | Inr Timeout \<Rightarrow> (if phase = PHASE_DONE then Some out else echo_loop ts out)
      | Inr Closed \<Rightarrow> Some out
      | Inl _ \<Rightarrow> Some out)"

record connrate_state =
  cr_metrics :: flow_metrics
  cr_seq :: u64
  cr_first :: "u64 option"
  cr_second :: "u64 option"

definition connrate_record :: "u64 \<Rightarrow> connrate_state \<Rightarrow> connrate_state" where
  "connrate_record ns st =
     \<lparr>cr_metrics = record_msg (cr_seq st) ns 0 (cr_metrics st), cr_seq = cr_seq st + 1,
      cr_first = (if cr_first st = None then Some ns else cr_first st),
      cr_second = (if cr_first st \<noteq> None \<and> cr_second st = None then Some ns else cr_second st)\<rparr>"

fun connrate_client_loop :: "(u8 \<times> (io_error + u64)) list \<Rightarrow> connrate_state \<Rightarrow> connrate_state option" where
  "connrate_client_loop [] st = None"
| "connrate_client_loop ((p, result) # ts) st =
     (if p = PHASE_DONE then Some st
      else (case result of
              Inr ns \<Rightarrow>
                connrate_client_loop ts (if p = PHASE_MEASURE then connrate_record ns st else st)
            | Inl _ \<Rightarrow> connrate_client_loop ts st))"

section \<open>Distributed mode\<close>

text \<open>
  The sending thread of a distributed run: per iteration the phase, the clock and what \<open>write_all\<close>
  answered. It returns the number of messages sent while measuring; \<open>out\<close> are those handed to the stream.
\<close>

definition dist_msg_bytes :: "u32 \<Rightarrow> nat" where
  "dist_msg_bytes n = unat (max n (of_nat HEADER_LEN))"

fun dist_sender_loop ::
  "u32 \<Rightarrow> (u8 \<times> u64 \<times> (io_error + unit)) list \<Rightarrow> u8 list \<Rightarrow> u64 \<Rightarrow> u64 \<Rightarrow> u8 list list
   \<Rightarrow> (u64 \<times> u8 list list) option" where
  "dist_sender_loop payload_len [] buf seq measured out = None"
| "dist_sender_loop payload_len ((ph, now, written) # ts) buf seq measured out =
     (if ph = PHASE_DONE then Some (measured, out)
      else (case encode (stamp seq payload_len now) buf of
              None \<Rightarrow> None
            | Some (b, _) \<Rightarrow>
                (let b = take HEADER_LEN b @ fill_payload seq (drop HEADER_LEN b) in
                 case written of
                   Inl _ \<Rightarrow> Some (measured, out)
                 | Inr _ \<Rightarrow>
                     dist_sender_loop payload_len ts b (seq + 1)
                       (if ph = PHASE_MEASURE then measured + 1 else measured) (out @ [b]))))"

text \<open>The reading half, run after the phase clock has ended: fixed-size reads until one fails.\<close>

fun dist_receiver_loop ::
  "nat \<Rightarrow> (io_error + u8 list \<times> u64) list \<Rightarrow> flow_metrics \<Rightarrow> flow_metrics option" where
  "dist_receiver_loop mb [] m = None"
| "dist_receiver_loop mb (Inl _ # ts) m = Some m"
| "dist_receiver_loop mb (Inr (buf, recv_ns) # ts) m =
     dist_receiver_loop mb ts
       (case decode buf of
          Inr hdr \<Rightarrow> record_msg (wh_seq hdr) (sat_sub recv_ns (wh_ts_ns hdr)) (of_nat mb) m
        | Inl _ \<Rightarrow> m)"

section \<open>Runs\<close>

text \<open>The run and connection loops: \<open>n\<close> calls, the first error ends it.\<close>

fun collect_runs :: "nat \<Rightarrow> (io_error + 'r) list \<Rightarrow> (io_error + 'r list) option" where
  "collect_runs 0 rs = Some (Inr [])"
| "collect_runs (Suc n) [] = None"
| "collect_runs (Suc n) (Inl e # rs) = Some (Inl e)"
| "collect_runs (Suc n) (Inr r # rs) =
     map_option (map_sum id ((#) r)) (collect_runs n rs)"

text \<open>
  Every connection of a run is set up before a worker starts; a setup is its two clock readings. The
  first one is the handshake time. \<open>rx\<close> and \<open>tx\<close> are what joining the workers gave; a worker that
  panicked contributes nothing.
\<close>

definition setup_us :: "(u64 \<times> u64) list \<Rightarrow> f64" where
  "setup_us pairs = (case pairs of [] \<Rightarrow> 0 | (t0, t1) # _ \<Rightarrow> f_of_word (sat_sub t1 t0) / Fin 1000)"

definition run_once ::
  "run_params \<Rightarrow> (io_error + u64 \<times> u64) list \<Rightarrow> flow_metrics option list \<Rightarrow> send_lag option list \<Rightarrow> f64
   \<Rightarrow> (io_error + flow_summary \<times> f64 \<times> send_lag) option" where
  "run_once p pairs rx tx measure_secs =
     map_option (map_sum id (\<lambda>ps.
       (let lag = foldl lag_merge send_lag_default (List.map_filter id tx);
            metrics = List.map_filter id rx
        in (aggregate_run metrics measure_secs (rn_remove_outliers p), setup_us ps, lag))))
     (collect_runs (max (rn_connections p) 1) pairs)"

definition run_once_pingpong ::
  "run_params \<Rightarrow> (io_error + u64 \<times> u64) list \<Rightarrow> flow_metrics option list \<Rightarrow> f64
   \<Rightarrow> (io_error + flow_summary \<times> f64) option" where
  "run_once_pingpong p pairs clients measure_secs =
     map_option (map_sum id (\<lambda>ps.
       (aggregate_run (List.map_filter id clients) measure_secs (rn_remove_outliers p), setup_us ps)))
     (collect_runs (max (rn_connections p) 1) pairs)"

definition loss_percent :: "u64 \<Rightarrow> u64 \<Rightarrow> f64" where
  "loss_percent lost dstn =
     (if 0 < dstn + lost then f_of_word lost / f_of_word (dstn + lost) * Fin 100 else 0)"

definition throughput_stats :: "run_params \<Rightarrow> (flow_summary \<times> f64 \<times> send_lag) list \<Rightarrow> run_stats" where
  "throughput_stats p results =
     (let runs = map fst results; handshakes = map (fst \<circ> snd) results;
          lag = foldl lag_merge send_lag_default (map (snd \<circ> snd) results);
          total_lost = sum_list (map (ig_lost \<circ> fs_integrity) runs);
          total_distinct = sum_list (map (ig_distinct \<circ> fs_integrity) runs)
      in \<lparr>rs_runs = runs,
          rs_throughput_gbps = summarize (map fs_throughput_gbps runs),
          rs_latency_mean_us = summarize (map (sm_mean \<circ> fs_latency_us) runs),
          rs_latency_p99_us = summarize (map (sm_p99 \<circ> fs_latency_us) runs),
          rs_handshake_us = summarize handshakes,
          rs_total_lost = total_lost,
          rs_loss_pct = loss_percent total_lost total_distinct,
          rs_mode = ModeThroughput, rs_rtt = None, rs_conn = None,
          rs_co_corrected = (\<not> is_blast (from_sender (rn_sender p) (rn_message_bytes p))),
          rs_send_lag_mean_us = mean_us lag, rs_send_lag_max_us = max_us lag\<rparr>)"

definition run_scenario_throughput ::
  "run_params \<Rightarrow> (io_error + flow_summary \<times> f64 \<times> send_lag) list \<Rightarrow> (io_error + run_stats) option" where
  "run_scenario_throughput p rs =
     map_option (map_sum id (throughput_stats p)) (collect_runs (max (rn_runs p) 1) rs)"

definition pingpong_stats :: "(flow_summary \<times> f64) list \<Rightarrow> run_stats" where
  "pingpong_stats results =
     (let runs = map fst results; handshakes = map snd results;
          rtt_mean = map (sm_mean \<circ> fs_latency_us) runs;
          rtt_p50 = map (sm_p50 \<circ> fs_latency_us) runs;
          rtt_p99 = map (sm_p99 \<circ> fs_latency_us) runs;
          samples = sum_list (map fs_messages runs);
          mean_summary = summarize rtt_mean
      in \<lparr>rs_runs = runs,
          rs_throughput_gbps = summarize (map fs_throughput_gbps runs),
          rs_latency_mean_us = mean_summary,
          rs_latency_p99_us = summarize rtt_p99,
          rs_handshake_us = summarize handshakes,
          rs_total_lost = 0, rs_loss_pct = 0, rs_mode = ModePingPong,
          rs_rtt = Some \<lparr>rtt_mean_us = sm_mean mean_summary, rtt_mean_ci95 = sm_ci95 mean_summary,
            rtt_p50_us = sm_mean (summarize rtt_p50), rtt_p99_us = sm_mean (summarize rtt_p99),
            rtt_samples = samples\<rparr>,
          rs_conn = None, rs_co_corrected = True, rs_send_lag_mean_us = 0,
          rs_send_lag_max_us = 0\<rparr>)"

definition run_scenario_pingpong ::
  "run_params \<Rightarrow> (io_error + flow_summary \<times> f64) list \<Rightarrow> (io_error + run_stats) option" where
  "run_scenario_pingpong p rs =
     map_option (map_sum id pingpong_stats) (collect_runs (max (rn_runs p) 1) rs)"

definition average :: "f64 list \<Rightarrow> f64" where
  "average xs = (if xs = [] then 0 else fsum xs / f_of_nat (length xs))"

text \<open>One connection-rate run: the joined connectors' metrics and first and second handshakes.\<close>

definition run_once_connrate ::
  "connrate_state option list \<Rightarrow> f64 \<Rightarrow> bool \<Rightarrow> flow_summary \<times> f64 \<times> f64" where
  "run_once_connrate joined measure_secs remove_outliers =
     (let sts = List.map_filter id joined;
          us = map (\<lambda>ns. f_of_word ns / Fin 1000)
      in (aggregate_run (map cr_metrics sts) measure_secs remove_outliers,
          average (us (List.map_filter cr_first sts)), average (us (List.map_filter cr_second sts))))"

definition connrate_stats :: "(flow_summary \<times> f64 \<times> f64) list \<Rightarrow> run_stats" where
  "connrate_stats results =
     (let runs = map fst results;
          rate_summary = summarize (map fs_message_rate runs);
          hs_mean = summarize (map (sm_mean \<circ> fs_latency_us) runs);
          hs_p50 = map (sm_p50 \<circ> fs_latency_us) runs;
          hs_p99 = map (sm_p99 \<circ> fs_latency_us) runs;
          total_conns = sum_list (map fs_messages runs)
      in \<lparr>rs_runs = runs,
          rs_throughput_gbps = summarize (map fs_throughput_gbps runs),
          rs_latency_mean_us = hs_mean, rs_latency_p99_us = summarize hs_p99,
          rs_handshake_us = hs_mean, rs_total_lost = 0, rs_loss_pct = 0, rs_mode = ModeConnrate,
          rs_rtt = None,
          rs_conn = Some \<lparr>cn_conns_per_sec = sm_mean rate_summary,
            cn_conns_per_sec_ci95 = sm_ci95 rate_summary,
            cn_handshake_p50_us = sm_mean (summarize hs_p50),
            cn_handshake_p99_us = sm_mean (summarize hs_p99),
            cn_total_conns = total_conns,
            cn_first_handshake_us = average (map (fst \<circ> snd) results),
            cn_resumed_handshake_us = average (map (snd \<circ> snd) results)\<rparr>,
          rs_co_corrected = True, rs_send_lag_mean_us = 0, rs_send_lag_max_us = 0\<rparr>)"

definition run_scenario_connrate ::
  "run_params \<Rightarrow> (io_error + flow_summary \<times> f64 \<times> f64) list \<Rightarrow> (io_error + run_stats) option" where
  "run_scenario_connrate p rs =
     map_option (map_sum id connrate_stats) (collect_runs (max (rn_runs p) 1) rs)"

definition run_scenario ::
  "run_params \<Rightarrow> (io_error + flow_summary \<times> f64 \<times> send_lag) list \<Rightarrow> (io_error + flow_summary \<times> f64) list
   \<Rightarrow> (io_error + flow_summary \<times> f64 \<times> f64) list \<Rightarrow> (io_error + run_stats) option" where
  "run_scenario p thr pp cr =
     (case rn_mode p of
        ModeThroughput \<Rightarrow> run_scenario_throughput p thr
      | ModePingPong \<Rightarrow> run_scenario_pingpong p pp
      | ModeConnrate \<Rightarrow> run_scenario_connrate p cr)"

definition expected_messages :: "run_params \<Rightarrow> nat" where
  "expected_messages p =
     (let secs = fmax (rn_measure p) (Fin 1); per_sec = Fin 2000000
      in clamp_nat (f_to_usize (secs * per_sec)) 1024 8000000)"


section \<open>What a receiver records\<close>

text \<open>The messages of the measuring turns, each with its arrival time, up to the end of the worker.\<close>

definition rx_ends :: "rx_turn \<Rightarrow> bool" where
  "rx_ends t = (case rt_result t of
      Inr (Messages k) \<Rightarrow> False
    | Inr BTimeout \<Rightarrow> rt_phase t = PHASE_DONE
    | Inr BClosed \<Rightarrow> True
    | Inl _ \<Rightarrow> True)"

definition rx_msgs :: "nat \<Rightarrow> rx_turn \<Rightarrow> u8 list list" where
  "rx_msgs stride t = (case rt_result t of Inr (Messages k) \<Rightarrow> batch_msgs stride t k | _ \<Rightarrow> [])"

definition measured :: "nat \<Rightarrow> rx_turn list \<Rightarrow> (u64 \<times> u8 list) list" where
  "measured stride ts =
     concat (map (\<lambda>t. map (Pair (rt_recv_ns t)) (rx_msgs stride t))
       (filter (\<lambda>t. rt_phase t = PHASE_MEASURE) (takeWhile (\<lambda>t. \<not> rx_ends t) ts)))"

definition ingest_all :: "nat \<Rightarrow> (u64 \<times> u8 list) list \<Rightarrow> flow_metrics \<Rightarrow> flow_metrics" where
  "ingest_all stride es m = fold (\<lambda>e. ingest_one stride (fst e) (snd e)) es m"

lemma ingest_all_simps [simp]:
  "ingest_all stride [] m = m"
  "ingest_all stride (es @ es') m = ingest_all stride es' (ingest_all stride es m)"
  "ingest_all stride (map (Pair ns) msgs) m = fold (ingest_one stride ns) msgs m"
  by (simp_all add: ingest_all_def fold_map comp_def)

lemma receiver_loop_measured:
  "receiver_loop stride ts m = Some m' \<Longrightarrow> m' = ingest_all stride (measured stride ts) m"
proof (induction stride ts m rule: receiver_loop.induct)
  case (1 stride m)
  then show ?case by simp
next
  case (2 stride t ts m)
  then show ?case
    by (auto simp: measured_def rx_ends_def rx_msgs_def PHASE_MEASURE_def PHASE_DONE_def
        split: sum.splits batch_outcome.splits if_splits)
qed

lemma receiver_loop_ends:
  assumes "\<forall>t\<in>set ts. \<forall>k. rt_result t = Inr (Messages k) \<longrightarrow> slots_ok stride t k"
  shows "receiver_loop stride ts m \<noteq> None \<longleftrightarrow> (\<exists>t\<in>set ts. rx_ends t)"
  using assms
proof (induction stride ts m rule: receiver_loop.induct)
  case (1 stride m)
  then show ?case by simp
next
  case (2 stride t ts m)
  then show ?case
    by (auto simp: rx_ends_def split: sum.splits batch_outcome.splits)
qed

definition decoded :: "(u64 \<times> u8 list) list \<Rightarrow> (u64 \<times> wire_header) list" where
  "decoded es = List.map_filter (\<lambda>(ns, msg). case decode_message msg of Inr h \<Rightarrow> Some (ns, h) | Inl _ \<Rightarrow> None) es"

definition undecodable :: "u64 \<times> u8 list \<Rightarrow> bool" where
  "undecodable e = (case decode_message (snd e) of Inl _ \<Rightarrow> True | Inr _ \<Rightarrow> False)"

lemma decoded_Cons [simp]:
  "decoded [] = []"
  "decoded ((ns, msg) # es) =
     (case decode_message msg of Inr h \<Rightarrow> [(ns, h)] | Inl _ \<Rightarrow> []) @ decoded es"
  by (simp_all add: decoded_def List.map_filter_simps split: sum.split)

lemma undecodable_Pair:
  "undecodable (ns, msg) = (case decode_message msg of Inl _ \<Rightarrow> True | Inr _ \<Rightarrow> False)"
  by (simp add: undecodable_def)

lemma ingest_all_recorded:
  "ingest_all stride es m =
     m\<lparr>fm_seqs := fm_seqs m @ map (wh_seq \<circ> snd) (decoded es),
       fm_latencies_us := fm_latencies_us m @
         map (\<lambda>(ns, h). f_of_word (sat_sub ns (wh_ts_ns h)) / Fin 1000) (decoded es),
       fm_bytes := fm_bytes m + of_nat (\<Sum>(ns, h)\<leftarrow>decoded es. HEADER_LEN + unat (wh_payload_len h)),
       fm_integrity_failures := fm_integrity_failures m + of_nat (length (filter undecodable es)),
       fm_boundary_violations := fm_boundary_violations m
         + of_nat (length (filter (\<lambda>e. length (snd e) \<noteq> stride) es))\<rparr>"
proof (induction es arbitrary: m)
  case Nil
  then show ?case by simp
next
  case (Cons e es)
  obtain ns msg where e: "e = (ns, msg)" by (cases e)
  have step: "ingest_all stride (e # es) m = ingest_all stride es (ingest_one stride ns msg m)"
    by (simp add: ingest_all_def e)
  show ?case unfolding step Cons.IH
    by (rule flow_metrics.equality)
      (simp_all add: e undecodable_Pair ingest_one_def ingest_def record_boundary_violation_def
        record_integrity_failure_def record_msg_def Let_def split: sum.split)
qed


section \<open>A blast over any batched sink\<close>

locale blast_sink = batch_sink send wire enc
  for send :: "u8 list list \<Rightarrow> 's \<Rightarrow> ((io_error + nat) \<times> 's) option"
    and wire :: "'s \<Rightarrow> 'w list" and enc :: "u8 list list \<Rightarrow> 'w list"
begin

lemma enc_take_drop: "enc ms = enc (take k ms) @ enc (drop k ms)"
  by (metis append_take_drop_id enc_append)

text \<open>
  Whatever the sink accepts or refuses, the wire holds consecutively numbered messages, followed by a
  part of the next batch when the last send failed.
\<close>

lemma blast_numbered:
  assumes "batch_ok b" and "bb_payload_len b = n"
    and "blast_loop send bsz ts seq b s = Some (seq', b', s')"
  shows "\<exists>nows more w z. seq' = seq + of_nat (length nows)
     \<and> wire s' = wire s @ enc (map message_bytes (numbered seq n nows)) @ w
     \<and> enc (map message_bytes (numbered seq' n more)) = w @ z"
  using assms
proof (induction ts arbitrary: seq b s)
  case Nil
  then show ?case by simp
next
  case (Cons t ts)
  obtain phase now where t: "t = (phase, now)" by (cases t)
  show ?case
  proof (cases "phase = PHASE_DONE")
    case True
    with Cons.prems t have "seq' = seq" "s' = s" by auto
    then show ?thesis
      by (intro exI [of _ "[]"]) (simp add: enc_Nil)
  next
    case False
    let ?nows = "map now [0..<min bsz (capacity b)]"
    let ?ms = "map message_bytes (numbered seq n ?nows)"
    obtain b1 where b1: "batch_build seq bsz now b = Some (?ms, b1)" "batch_ok b1" "bb_payload_len b1 = n"
      using batch_build_eq [OF Cons.prems(1), of seq bsz now] Cons.prems(2) by auto
    obtain res s1 where send: "send ?ms s = Some (res, s1)"
      using Cons.prems(3) False t b1(1) by (auto split: option.splits)
    show ?thesis
    proof (cases res)
      case (Inl e)
      with send False t b1(1) Cons.prems(3) have "seq' = seq" "s' = s1" by auto
      moreover obtain w z where "enc ?ms = w @ z" "wire s1 = wire s @ w"
        using send_failed send Inl by blast
      ultimately show ?thesis
        by (intro exI [of _ "[]"] exI [of _ ?nows] exI [of _ w] exI [of _ z]) (simp add: enc_Nil)
    next
      case (Inr k)
      have k: "k \<le> length ?nows" "wire s1 = wire s @ enc (take k ?ms)"
        using send_boundary [of ?ms s k s1] send Inr by simp_all
      have "blast_loop send bsz ts (seq + of_nat k) b1 s1 = Some (seq', b', s')"
        using Cons.prems(3) False t b1(1) send Inr by (simp split: if_splits)
      from Cons.IH [OF b1(2,3) this] obtain nows more w z where
        r: "seq' = seq + of_nat k + of_nat (length nows)"
          "wire s' = wire s1 @ enc (map message_bytes (numbered (seq + of_nat k) n nows)) @ w"
          "enc (map message_bytes (numbered seq' n more)) = w @ z" by blast
      have "take k ?ms = map message_bytes (numbered seq n (take k ?nows))"
        by (simp only: take_map take_numbered)
      moreover have "numbered seq n (take k ?nows @ nows)
          = numbered seq n (take k ?nows) @ numbered (seq + of_nat k) n nows"
        using k(1) by (simp add: numbered_append min_def)
      moreover have "length (take k ?nows @ nows) = k + length nows" using k(1) by simp
      ultimately show ?thesis using r k(2)
        by (intro exI [of _ "take k ?nows @ nows"] exI [of _ more] exI [of _ w] exI [of _ z])
          (simp add: enc_append add.assoc)
    qed
  qed
qed

end

section \<open>The paced sender\<close>

definition paced_stop :: "paced_turn \<Rightarrow> bool" where
  "paced_stop t = (pt_phase0 t = PHASE_DONE \<or> pt_phase1 t = PHASE_DONE
     \<or> (\<exists>e. pt_result t = Inl e \<and> e \<noteq> WouldBlock))"

text \<open>The turns a paced worker carries out, each with the deadline the pacer gave it; those accepted.\<close>

definition paced_accepted :: "paced_turn list \<Rightarrow> pacer \<Rightarrow> (paced_turn \<times> u64) list" where
  "paced_accepted ts p =
     filter (\<lambda>(t, d). pt_result t = Inr ())
       (takeWhile (\<lambda>(t, d). \<not> paced_stop t) (zip ts (unfold_n next_deadline_ns (length ts) p)))"

definition paced_lags :: "u64 \<Rightarrow> (paced_turn \<times> u64) list \<Rightarrow> u64 list" where
  "paced_lags start acc =
     map (\<lambda>(t, d). sat_sub (pt_woke t) (start + d)) (filter (\<lambda>(t, d). pt_phase2 t = PHASE_MEASURE) acc)"

lemma paced_accepted_Cons:
  "paced_accepted (t # ts) p =
     (if paced_stop t then []
      else (if pt_result t = Inr () then [(t, fst (next_deadline_ns p))] else [])
           @ paced_accepted ts (snd (next_deadline_ns p)))"
  by (simp add: paced_accepted_def split_beta)

lemma paced_message_eq:
  assumes "builder_ok (pd_builder st)" and "paced_message st deadline slot = Some (msg, b)"
  shows "msg = message_bytes (stamp_at (pd_seq st) (mb_payload_len (pd_builder st)) deadline)
       \<and> builder_ok b \<and> mb_payload_len b = mb_payload_len (pd_builder st)"
proof (cases slot)
  case None
  then show ?thesis
    using assms build_at_eq [OF assms(1)] builder_ok_build [OF assms(1)] by (auto simp: paced_message_def)
next
  case (Some buf)
  let ?n = "mb_payload_len (pd_builder st)"
  have "length (message_bytes (stamp_at (pd_seq st) ?n deadline)) = HEADER_LEN + unat ?n"
    by (simp add: stamp_at_def)
  then show ?thesis
    using assms Some
    by (auto simp: paced_message_def build_into_def encode_message_at_eq split: if_splits
        simp del: length_message_bytes)
qed

lemma paced_loop_accepted:
  assumes "builder_ok (pd_builder st)" and "paced_loop start ts st = Some st'"
  shows "pd_out st' = pd_out st @ map message_bytes (numbered (pd_seq st) (mb_payload_len (pd_builder st))
             (map (\<lambda>(t, d). start + d) (paced_accepted ts (pd_pacer st))))
       \<and> pd_seq st' = pd_seq st + of_nat (length (paced_accepted ts (pd_pacer st)))
       \<and> pd_lag st' = fold lag_record (paced_lags start (paced_accepted ts (pd_pacer st))) (pd_lag st)"
  using assms
proof (induction ts arbitrary: st)
  case Nil
  then show ?case by simp
next
  case (Cons t ts)
  obtain d p where nd: "next_deadline_ns (pd_pacer st) = (d, p)" by (cases "next_deadline_ns (pd_pacer st)")
  show ?case
  proof (cases "pt_phase0 t = PHASE_DONE \<or> pt_phase1 t = PHASE_DONE")
    case True
    then have "paced_accepted (t # ts) (pd_pacer st) = []"
      by (auto simp: paced_accepted_Cons paced_stop_def)
    moreover have "st' = st \<or> st' = st\<lparr>pd_pacer := p\<rparr>"
      using True Cons.prems(2) by (simp add: Let_def nd split: if_splits)
    ultimately show ?thesis by (auto simp: paced_lags_def)
  next
    case False
    let ?st = "st\<lparr>pd_pacer := p\<rparr>"
    obtain msg b where msg: "paced_message ?st (start + d) (pt_slot t) = Some (msg, b)"
      using Cons.prems(2) False by (auto simp: Let_def nd split: option.splits)
    have m: "msg = message_bytes (stamp_at (pd_seq st) (mb_payload_len (pd_builder st)) (start + d))"
      "builder_ok b" "mb_payload_len b = mb_payload_len (pd_builder st)"
      using paced_message_eq [OF _ msg] Cons.prems(1) by auto
    consider (acc) "pt_result t = Inr ()" | (wb) "pt_result t = Inl WouldBlock"
      | (err) e where "pt_result t = Inl e" "e \<noteq> WouldBlock"
      by (cases "pt_result t") auto
    then show ?thesis
    proof cases
      case acc
      let ?st1 = "?st\<lparr>pd_builder := b,
          pd_lag := (if pt_phase2 t = PHASE_MEASURE then lag_record (sat_sub (pt_woke t) (start + d)) (pd_lag st)
                     else pd_lag st), pd_seq := pd_seq st + 1, pd_out := pd_out st @ [msg]\<rparr>"
      have "paced_loop start ts ?st1 = Some st'"
        using Cons.prems(2) False msg acc by (simp add: Let_def nd cong: if_cong split del: if_split)
      from Cons.IH [OF _ this] m False acc show ?thesis
        by (auto simp: paced_accepted_Cons paced_stop_def paced_lags_def nd)
    next
      case wb
      have "paced_loop start ts (?st\<lparr>pd_builder := b\<rparr>) = Some st'"
        using Cons.prems(2) False msg wb by (simp add: Let_def nd)
      from Cons.IH [OF _ this] m False wb show ?thesis
        by (auto simp: paced_accepted_Cons paced_stop_def paced_lags_def nd)
    next
      case err
      then show ?thesis using Cons.prems(2) False msg
        by (auto simp: paced_accepted_Cons paced_stop_def paced_lags_def Let_def nd)
    qed
  qed
qed

section \<open>Connection churn\<close>

definition measured_connects :: "(u8 \<times> (io_error + u64)) list \<Rightarrow> u64 list" where
  "measured_connects ts =
     List.map_filter (\<lambda>(p, r). if p = PHASE_MEASURE then (case r of Inr ns \<Rightarrow> Some ns | Inl _ \<Rightarrow> None) else None)
       (takeWhile (\<lambda>(p, r). p \<noteq> PHASE_DONE) ts)"

lemma connrate_loop_fold:
  "connrate_client_loop ts st = Some st' \<Longrightarrow> st' = fold connrate_record (measured_connects ts) st"
  by (induction ts st rule: connrate_client_loop.induct)
    (auto simp: measured_connects_def List.map_filter_simps split: sum.splits if_splits)

lemma connrate_fold:
  assumes "cr_first st = None" and "cr_second st = None"
  shows "cr_seq (fold connrate_record hs st) = cr_seq st + of_nat (length hs)
       \<and> fm_seqs (cr_metrics (fold connrate_record hs st))
          = fm_seqs (cr_metrics st) @ map (\<lambda>i. cr_seq st + of_nat i) [0..<length hs]
       \<and> fm_latencies_us (cr_metrics (fold connrate_record hs st))
          = fm_latencies_us (cr_metrics st) @ map (\<lambda>ns. f_of_word ns / Fin 1000) hs
       \<and> cr_first (fold connrate_record hs st) = (if hs = [] then None else Some (hs ! 0))
       \<and> cr_second (fold connrate_record hs st) = (if length hs < 2 then None else Some (hs ! 1))"
proof (induction hs rule: rev_induct)
  case Nil
  then show ?case using assms by simp
next
  case (snoc h hs)
  obtain st1 where st1: "fold connrate_record hs st = st1" by simp
  then have "fold connrate_record (hs @ [h]) st = connrate_record h st1" by simp
  consider "hs = []" | h0 where "hs = [h0]" | h0 h1 hs' where "hs = h0 # h1 # hs'"
    by (metis neq_Nil_conv)
  then show ?case using snoc unfolding st1 \<open>fold connrate_record (hs @ [h]) st = connrate_record h st1\<close>
    by cases (simp_all add: connrate_record_def record_msg_def nth_append)
qed

section \<open>The properties of the workers\<close>

text \<open>
  C10: What a receiver records is exactly the traffic of its measuring turns: when the worker ends, its
  sequence numbers, latencies and byte count are those of the decodable messages received while the
  phase was MEASURE, in order; every undecodable one of them, and every one of an unexpected size, is
  counted; nothing of the warm-up and the cool-down is.
\<close>

theorem receiver_records:
  assumes "receiver_loop stride ts flow_new = Some m"
  shows "let es = measured stride ts in
       fm_seqs m = map (wh_seq \<circ> snd) (decoded es)
     \<and> fm_latencies_us m = map (\<lambda>(ns, h). f_of_word (sat_sub ns (wh_ts_ns h)) / Fin 1000) (decoded es)
     \<and> fm_bytes m = of_nat (\<Sum>(ns, h)\<leftarrow>decoded es. HEADER_LEN + unat (wh_payload_len h))
     \<and> fm_integrity_failures m = of_nat (length es - length (decoded es))
     \<and> fm_boundary_violations m = of_nat (length (filter (\<lambda>e. length (snd e) \<noteq> stride) es))"
proof -
  have "length (decoded es) + length (filter undecodable es) = length es" for es
    by (induction es) (auto simp: undecodable_Pair split: sum.split)
  then have "length (filter undecodable es) = length es - length (decoded es)" for es
    by (metis add_diff_cancel_left')
  then show ?thesis
    unfolding Let_def receiver_loop_measured [OF assms] ingest_all_recorded
    by (simp add: flow_new_def)
qed

lemma receiver_records_witness:
  "\<exists>m. receiver_loop 24
       [\<lparr>rt_result = Inr (Messages 1), rt_buf = message_bytes (stamp_at 4 0 1000), rt_lens = [24], rt_recv_ns = 1500, rt_phase = PHASE_WARMUP\<rparr>,
        \<lparr>rt_result = Inr (Messages 1), rt_buf = message_bytes (stamp_at 5 0 1000), rt_lens = [24], rt_recv_ns = 3000, rt_phase = PHASE_MEASURE\<rparr>,
        \<lparr>rt_result = Inr BClosed, rt_buf = [], rt_lens = [], rt_recv_ns = 0, rt_phase = PHASE_MEASURE\<rparr>] flow_new = Some m
     \<and> fm_seqs m = [5]"
proof -
  let ?b = "message_bytes (stamp_at 5 0 1000)"
  let ?ts = "[\<lparr>rt_result = Inr (Messages 1), rt_buf = message_bytes (stamp_at 4 0 1000), rt_lens = [24], rt_recv_ns = 1500, rt_phase = PHASE_WARMUP\<rparr>,
        \<lparr>rt_result = Inr (Messages 1), rt_buf = ?b, rt_lens = [24], rt_recv_ns = 3000, rt_phase = PHASE_MEASURE\<rparr>,
        \<lparr>rt_result = Inr BClosed, rt_buf = [], rt_lens = [], rt_recv_ns = 0, rt_phase = PHASE_MEASURE\<rparr>]"
  have len: "length (message_bytes (stamp_at s 0 t)) = 24" for s t by (simp add: stamp_at_def HEADER_LEN_def)
  obtain m where m: "receiver_loop 24 ?ts flow_new = Some m"
    using len by (simp add: slots_ok_def PHASE_WARMUP_def PHASE_MEASURE_def)
  have "subslice ?b 0 24 = ?b" using len by (simp add: subslice_def)
  then have "measured 24 ?ts = [(3000, ?b)]"
    by (simp add: measured_def rx_ends_def rx_msgs_def batch_msgs_def PHASE_WARMUP_def PHASE_MEASURE_def)
  with receiver_records [OF m] m show ?thesis
    using decode_message_bytes [of "stamp_at 5 0 1000" "[]"] by (simp add: stamp_at_def)
qed

text \<open>
  C32: A receiver ends at the first turn that tells it to: a closed source, an error, or an idle
  source in the DONE phase. It never ends on traffic or on idleness in an earlier phase, and it always
  ends once such a turn comes, provided the transport keeps its slots inside the buffer.
\<close>

theorem receiver_ends:
  assumes "\<forall>t\<in>set ts. \<forall>k. rt_result t = Inr (Messages k) \<longrightarrow> slots_ok stride t k"
  shows "(\<exists>m'. receiver_loop stride ts m = Some m') \<longleftrightarrow>
     (\<exists>t\<in>set ts. rt_result t = Inr BClosed \<or> (\<exists>e. rt_result t = Inl e)
        \<or> rt_result t = Inr BTimeout \<and> rt_phase t = PHASE_DONE)"
proof -
  have "rx_ends t \<longleftrightarrow> rt_result t = Inr BClosed \<or> (\<exists>e. rt_result t = Inl e)
        \<or> rt_result t = Inr BTimeout \<and> rt_phase t = PHASE_DONE" for t
    by (auto simp: rx_ends_def split: sum.splits batch_outcome.splits)
  then show ?thesis using receiver_loop_ends [OF assms, of m] by auto
qed

lemma receiver_ends_witness:
  "\<exists>m'. receiver_loop 64 [\<lparr>rt_result = Inr BTimeout, rt_buf = [], rt_lens = [], rt_recv_ns = 0, rt_phase = PHASE_DONE\<rparr>] flow_new = Some m'"
  by (subst receiver_ends) simp_all

text \<open>
  A paced sender numbers what was accepted and stamps it with its schedule: message \<open>i\<close> on the
  wire carries sequence number \<open>i\<close> and the deadline of the turn in which it was accepted, whether it
  was built in the sender's buffer or in a slot lent by the sink; the deadlines never go back; and the
  lag account holds exactly the lateness of the messages accepted while measuring.
\<close>

theorem paced_sends:
  assumes "paced_loop start ts (paced_start spec n) = Some st"
  shows "let acc = paced_accepted ts (from_sender spec n) in
       pd_out st = map message_bytes (numbered 0 (max n MIN_MESSAGE_SIZE - MIN_MESSAGE_SIZE) (map (\<lambda>(t, d). start + d) acc))
     \<and> pd_seq st = of_nat (length (pd_out st))
     \<and> sorted (map snd acc)
     \<and> pd_lag st = fold lag_record
          (map (\<lambda>(t, d). sat_sub (pt_woke t) (start + d)) (filter (\<lambda>(t, d). pt_phase2 t = PHASE_MEASURE) acc))
          send_lag_default"
proof -
  let ?acc = "paced_accepted ts (from_sender spec n)"
  have "sorted (map snd (filter P (takeWhile Q (zip ts (unfold_n next_deadline_ns (length ts) p)))))" for P Q p
  proof (rule sorted_filter)
    have "sorted (map snd (zip ts (unfold_n next_deadline_ns (length ts) p)))"
      using pacer.unfold_sorted by simp
    then show "sorted (map snd (takeWhile Q (zip ts (unfold_n next_deadline_ns (length ts) p))))"
      by (metis map_append sorted_wrt_append takeWhile_dropWhile_id)
  qed
  then have "sorted (map snd ?acc)" by (simp add: paced_accepted_def)
  moreover have "builder_ok (pd_builder (paced_start spec n))" by (simp add: paced_start_def builder_ok_new)
  moreover have "mb_payload_len (builder_new n) = max n MIN_MESSAGE_SIZE - MIN_MESSAGE_SIZE"
    by (simp add: builder_new_def Let_def)
  ultimately show ?thesis
    using paced_loop_accepted [OF _ assms] by (simp add: Let_def paced_start_def paced_lags_def)
qed

lemma paced_sends_witness:
  "\<exists>st. paced_loop 100 [\<lparr>pt_phase0 = PHASE_WARMUP, pt_woke = 120, pt_phase1 = PHASE_WARMUP,
       pt_phase2 = PHASE_MEASURE, pt_slot = None, pt_result = Inr ()\<rparr>,
       \<lparr>pt_phase0 = PHASE_DONE, pt_woke = 0, pt_phase1 = 0, pt_phase2 = 0, pt_slot = None, pt_result = Inr ()\<rparr>]
      (paced_start \<lparr>sn_interface = Tcp, sn_target_addr = [], sn_pattern = Periodic, sn_rate_limit_mbps = None,
      sn_interval_us = Some 2, sn_burst_count = None, sn_burst_pause_us = None, sn_ramp_start_mbps = None,
      sn_ramp_step_mbps = None, sn_ramp_step_interval_secs = None\<rparr> 30) = Some st
    \<and> pd_out st = [message_bytes (stamp_at 0 6 100)] \<and> sl_max_ns (pd_lag st) = 20"
  (is "\<exists>st. paced_loop 100 ?ts (paced_start ?s 30) = Some st \<and> _")
proof -
  note ph = PHASE_WARMUP_def PHASE_MEASURE_def PHASE_DONE_def
  have p: "from_sender ?s 30 = \<lparr>pc_kind = PFixed 2000, pc_next_ns = 0\<rparr>"
    by (simp add: from_sender_def unwrap_or_def or_else_def sat_mul_def)
  have 30: "max (30 :: u32) MIN_MESSAGE_SIZE - MIN_MESSAGE_SIZE = 6"
    by (simp add: MIN_MESSAGE_SIZE_def HEADER_LEN_def max_def word_le_nat_alt)
  have "\<exists>st. paced_loop 100 ?ts (paced_start ?s 30) = Some st"
    using build_at_eq [OF builder_ok_new]
    by (simp add: paced_start_def p ph next_deadline_ns_def paced_message_def split_beta Let_def)
  then obtain st where st: "paced_loop 100 ?ts (paced_start ?s 30) = Some st" by blast
  have "paced_accepted ?ts (from_sender ?s 30) = [(hd ?ts, 0)]"
    by (simp add: p paced_accepted_Cons paced_stop_def ph)
  with paced_sends [OF st] st show ?thesis
    unfolding Let_def 30 by (simp add: ph lag_record_def send_lag_default_def sat_sub_def)
qed

text \<open>
  Connection churn records every connection established while measuring and no other, one
  sequence number each from 0, its handshake time as the latency; the first and second handshakes it
  reports are the first two of them.
\<close>

theorem connrate_records:
  assumes "connrate_client_loop ts \<lparr>cr_metrics = flow_new, cr_seq = 0, cr_first = None, cr_second = None\<rparr> = Some st"
  shows "let hs = measured_connects ts in
       fm_seqs (cr_metrics st) = map of_nat [0..<length hs]
     \<and> fm_latencies_us (cr_metrics st) = map (\<lambda>ns. f_of_word ns / Fin 1000) hs
     \<and> cr_first st = (if hs = [] then None else Some (hs ! 0))
     \<and> cr_second st = (if length hs < 2 then None else Some (hs ! 1))"
  using connrate_fold [of "\<lparr>cr_metrics = flow_new, cr_seq = 0, cr_first = None, cr_second = None\<rparr>" "measured_connects ts"]
  unfolding Let_def connrate_loop_fold [OF assms] by (simp add: flow_new_def)

lemma connrate_records_witness:
  "\<exists>st. connrate_client_loop [(PHASE_WARMUP, Inr 7), (PHASE_MEASURE, Inr 9000), (PHASE_MEASURE, Inl WouldBlock),
        (PHASE_MEASURE, Inr 4000), (PHASE_DONE, Inr 1)]
       \<lparr>cr_metrics = flow_new, cr_seq = 0, cr_first = None, cr_second = None\<rparr> = Some st
     \<and> cr_first st = Some 9000 \<and> cr_second st = Some 4000 \<and> fm_seqs (cr_metrics st) = [0, 1]"
proof -
  let ?ts = "[(PHASE_WARMUP, Inr 7), (PHASE_MEASURE, Inr 9000), (PHASE_MEASURE, Inl WouldBlock),
        (PHASE_MEASURE, Inr 4000), (PHASE_DONE, Inr 1)] :: (u8 \<times> (io_error + u64)) list"
  note ph = PHASE_WARMUP_def PHASE_MEASURE_def PHASE_DONE_def
  obtain st where st: "connrate_client_loop ?ts
      \<lparr>cr_metrics = flow_new, cr_seq = 0, cr_first = None, cr_second = None\<rparr> = Some st"
    by (simp add: ph)
  have "measured_connects ?ts = [9000, 4000]"
    by (simp add: measured_connects_def ph List.map_filter_simps)
  with connrate_records [OF st] st show ?thesis by (simp add: Let_def)
qed


section \<open>Scenarios\<close>

lemma map_sum_Inl_iff [simp]: "map_sum id f y = Inl e \<longleftrightarrow> y = Inl e"
  and map_sum_Inr_iff [simp]: "map_sum id f y = Inr z \<longleftrightarrow> (\<exists>x. y = Inr x \<and> z = f x)"
  by (cases y; auto)+

lemma collect_runs_ok:
  "collect_runs n rs = Some (Inr xs) \<longleftrightarrow> n \<le> length rs \<and> take n rs = map Inr xs"
proof (induction n rs arbitrary: xs rule: collect_runs.induct)
  case (4 n r rs)
  show ?case
  proof (cases xs)
    case Nil
    then show ?thesis by auto
  next
    case (Cons x xs')
    then show ?thesis using 4 [of xs'] Cons by auto
  qed
qed auto

lemma collect_runs_error:
  "collect_runs n rs = Some (Inl e) \<longleftrightarrow>
     (\<exists>i ys. i < n \<and> i < length rs \<and> rs ! i = Inl e \<and> take i rs = map Inr ys)"
proof (induction n rs rule: collect_runs.induct)
  case (3 n e' rs)
  have "e' = e" if "i < length (Inl e' # rs)" "(Inl e' # rs) ! i = Inl e" "take i (Inl e' # rs) = map Inr ys" for i ys
    using that by (cases i; cases ys) auto
  then show ?case by auto
next
  case (4 n r rs)
  have "(\<exists>i ys. i < Suc n \<and> i < length (Inr r # rs) \<and> (Inr r # rs) ! i = Inl e \<and> take i (Inr r # rs) = map Inr ys)
     \<longleftrightarrow> (\<exists>i ys. i < n \<and> i < length rs \<and> rs ! i = Inl e \<and> take i rs = map Inr ys)" (is "?L \<longleftrightarrow> ?R")
  proof
    assume ?L
    then obtain i ys where i: "i < Suc n" "i < length (Inr r # rs)" "(Inr r # rs) ! i = Inl e"
      "take i (Inr r # rs) = map Inr ys" by blast
    then show ?R by (cases i) auto
  next
    assume ?R
    then obtain i ys where "i < n" "i < length rs" "rs ! i = Inl e" "take i rs = map Inr ys" by blast
    then show ?L by (intro exI [of _ "Suc i"] exI [of _ "r # ys"]) simp
  qed
  then show ?case using 4 by auto
qed auto

lemma loss_percent_range:
  assumes "unat d + unat l < 2 ^ 64"
  shows "\<exists>r. loss_percent l d = Fin r \<and> 0 \<le> r \<and> r \<le> 100 \<and> (r = 0 \<longleftrightarrow> l = 0)"
proof (cases "0 < d + l")
  case True
  define x y where "x = real (unat l)" and "y = real (unat d)"
  have s: "unat (d + l) = unat d + unat l" using assms by (simp add: unat_word_ariths)
  have "0 < unat d + unat l" using True by (simp add: word_less_nat_alt s)
  then have pos: "0 < y + x" unfolding x_def y_def by (metis of_nat_0_less_iff of_nat_add)
  have xy: "0 \<le> x" "0 \<le> y" unfolding x_def y_def by (rule of_nat_0_le_iff)+
  have "f_of_word (d + l) = Fin (y + x)" "f_of_word l = Fin x"
    unfolding f_of_word_def s x_def y_def by (simp_all only: of_nat_add)
  then have "loss_percent l d = Fin (x / (y + x) * 100)"
    using True pos by (simp add: loss_percent_def Fin_arith)
  moreover have "0 \<le> x / (y + x) * 100" using pos xy by simp
  moreover have "x / (y + x) \<le> 1" using pos xy by simp
  then have "x / (y + x) * 100 \<le> 1 * 100" by (rule mult_right_mono) simp
  then have "x / (y + x) * 100 \<le> 100" by (simp only: mult_1)
  moreover have "x / (y + x) * 100 = 0 \<longleftrightarrow> l = 0"
  proof -
    have "x = 0 \<longleftrightarrow> l = 0" unfolding x_def by (simp only: of_nat_eq_0_iff unat_eq_0)
    then show ?thesis using pos by simp
  qed
  ultimately show ?thesis by blast
next
  case False
  then have "unat (d + l) = 0" by (simp add: word_less_nat_alt)
  then have "unat l = 0" using assms by (simp add: unat_word_ariths)
  then have "l = 0" by (simp only: unat_eq_0)
  then show ?thesis using False by (intro exI [of _ 0]) (simp add: loss_percent_def zero_f64_def)
qed

lemma unat_sum_list:
  "sum_list (map (unat \<circ> f) xs) < 2 ^ 64 \<Longrightarrow> unat (sum_list (map f xs) :: u64) = sum_list (map (unat \<circ> f) xs)"
  by (induction xs) (auto simp: unat_word_ariths)

text \<open>
  A throughput scenario makes the configured number of runs, at least one; the first run that
  fails ends it with its error and no statistics; otherwise the statistics are those of all the runs in
  order, the lost messages add up, and the loss is a percentage, zero exactly when nothing was lost.
\<close>

theorem scenario_aggregates:
  fixes p rs
  defines "n \<equiv> max (rn_runs p) 1"
  shows "(run_scenario_throughput p rs = Some (Inl e) \<longleftrightarrow>
           (\<exists>i ys. i < n \<and> i < length rs \<and> rs ! i = Inl e \<and> take i rs = map Inr ys))
     \<and> (run_scenario_throughput p rs = Some (Inr st) \<longrightarrow>
         (\<exists>xs. take n rs = map Inr xs \<and> length xs = n \<and> rs_runs st = map fst xs
           \<and> (let lost = sum_list (map (\<lambda>r. unat (ig_lost (fs_integrity (fst r)))) xs);
                  seen = sum_list (map (\<lambda>r. unat (ig_distinct (fs_integrity (fst r)))) xs)
              in lost + seen < 2 ^ 64 \<longrightarrow>
                 unat (rs_total_lost st) = lost
               \<and> (\<exists>r. rs_loss_pct st = Fin r \<and> 0 \<le> r \<and> r \<le> 100 \<and> (r = 0 \<longleftrightarrow> lost = 0)))))"
proof -
  have err: "run_scenario_throughput p rs = Some (Inl e) \<longleftrightarrow> collect_runs n rs = Some (Inl e)"
    by (auto simp: run_scenario_throughput_def n_def)
  have "\<exists>xs. take n rs = map Inr xs \<and> length xs = n \<and> rs_runs st = map fst xs
           \<and> (let lost = sum_list (map (\<lambda>r. unat (ig_lost (fs_integrity (fst r)))) xs);
                  seen = sum_list (map (\<lambda>r. unat (ig_distinct (fs_integrity (fst r)))) xs)
              in lost + seen < 2 ^ 64 \<longrightarrow>
                 unat (rs_total_lost st) = lost
               \<and> (\<exists>r. rs_loss_pct st = Fin r \<and> 0 \<le> r \<and> r \<le> 100 \<and> (r = 0 \<longleftrightarrow> lost = 0)))"
    if st: "run_scenario_throughput p rs = Some (Inr st)"
  proof -
    obtain xs where xs: "collect_runs n rs = Some (Inr xs)" "st = throughput_stats p xs"
      using st by (auto simp: run_scenario_throughput_def n_def)
    then have tk: "take n rs = map Inr xs" "n \<le> length rs" using collect_runs_ok by auto
    then have len: "length xs = n" by (metis length_map length_take min.absorb2)
    let ?l = "\<lambda>r. ig_lost (fs_integrity (fst r))" and ?d = "\<lambda>r. ig_distinct (fs_integrity (fst r))"
    have tot: "unat (rs_total_lost st) = sum_list (map (\<lambda>r. unat (?l r)) xs)
        \<and> (\<exists>r. rs_loss_pct st = Fin r \<and> 0 \<le> r \<and> r \<le> 100 \<and> (r = 0 \<longleftrightarrow> sum_list (map (\<lambda>r. unat (?l r)) xs) = 0))"
      if b: "sum_list (map (\<lambda>r. unat (?l r)) xs) + sum_list (map (\<lambda>r. unat (?d r)) xs) < 2 ^ 64"
    proof -
      have f: "rs_total_lost st = sum_list (map ?l xs)"
        "rs_loss_pct st = loss_percent (sum_list (map ?l xs)) (sum_list (map ?d xs))"
        by (simp_all add: xs(2) throughput_stats_def Let_def comp_def)
      have u: "unat (sum_list (map ?l xs)) = sum_list (map (\<lambda>r. unat (?l r)) xs)"
        "unat (sum_list (map ?d xs)) = sum_list (map (\<lambda>r. unat (?d r)) xs)"
        using unat_sum_list [of ?l xs] unat_sum_list [of ?d xs] b by (simp_all add: comp_def)
      have "sum_list (map ?l xs) = 0 \<longleftrightarrow> sum_list (map (\<lambda>r. unat (?l r)) xs) = 0"
        unfolding u(1) [symmetric] by (simp only: unat_eq_0)
      moreover have "unat (sum_list (map ?d xs)) + unat (sum_list (map ?l xs)) < 2 ^ 64"
        using b u by linarith
      ultimately show ?thesis using loss_percent_range f u by metis
    qed
    have "rs_runs st = map fst xs" by (simp add: xs(2) throughput_stats_def Let_def)
    then show ?thesis unfolding Let_def
      by (intro exI [of _ xs] conjI impI tk(1) len) (assumption, erule tot [THEN conjunct1], erule tot [THEN conjunct2])
  qed
  then show ?thesis unfolding err collect_runs_error [of n rs e] by (intro conjI impI refl)
qed

lemma scenario_aggregates_witness:
  "run_scenario_throughput \<lparr>rn_message_bytes = 64, rn_connections = 1, rn_runs = 3, rn_warmup = 0, rn_measure = 1,
      rn_cooldown = 0, rn_remove_outliers = False, rn_sender_cores = [], rn_receiver_cores = [],
      rn_sender = \<lparr>sn_interface = Tcp, sn_target_addr = [], sn_pattern = Sustained, sn_rate_limit_mbps = None,
        sn_interval_us = None, sn_burst_count = None, sn_burst_pause_us = None, sn_ramp_start_mbps = None,
        sn_ramp_step_mbps = None, sn_ramp_step_interval_secs = None\<rparr>, rn_mode = ModeThroughput\<rparr>
     [Inr (finish flow_new False, 0, send_lag_default), Inl TimedOut] = Some (Inl TimedOut)"
  by (subst scenario_aggregates [THEN conjunct1]) (intro exI [of _ 1], simp add: Cons_eq_map_conv)

section \<open>In-place receiving\<close>

definition zc_ends :: "zc_turn \<Rightarrow> bool" where
  "zc_ends t = (case zt_result t of
      Inr (Messages k) \<Rightarrow> False
    | Inr BTimeout \<Rightarrow> zt_phase t = PHASE_DONE
    | Inr BClosed \<Rightarrow> True
    | Inl _ \<Rightarrow> True)"

definition measured_inplace :: "zc_turn list \<Rightarrow> (u64 \<times> u8 list) list" where
  "measured_inplace zs =
     map (\<lambda>(msg, ns, ph). (ns, msg)) (filter (\<lambda>(msg, ns, ph). ph = PHASE_MEASURE) (concat (map zt_msgs zs)))"

lemma ingest_inplace_all:
  "fold (ingest_inplace stride) es m =
     ingest_all stride (map (\<lambda>(msg, ns, ph). (ns, msg)) (filter (\<lambda>(msg, ns, ph). ph = PHASE_MEASURE) es)) m"
  by (induction es arbitrary: m) (auto simp: ingest_inplace_def ingest_all_def split_beta)

lemma receiver_inplace_measured:
  "receiver_inplace_loop stride zs m = Some m' \<Longrightarrow>
     \<exists>k<length zs. zc_ends (zs ! k) \<and> (\<forall>j<k. \<not> zc_ends (zs ! j))
       \<and> m' = ingest_all stride (measured_inplace (take (Suc k) zs)) m"
proof (induction zs arbitrary: m)
  case Nil
  then show ?case by simp
next
  case (Cons t zs)
  let ?es = "map (\<lambda>(msg, ns, ph). (ns, msg)) (filter (\<lambda>(msg, ns, ph). ph = PHASE_MEASURE) (zt_msgs t))"
  have step: "receiver_inplace_loop stride (t # zs) m =
      (if zc_ends t then Some (ingest_all stride ?es m)
       else receiver_inplace_loop stride zs (ingest_all stride ?es m))"
    by (auto simp: ingest_inplace_all zc_ends_def Let_def split: sum.split batch_outcome.split)
  show ?case
  proof (cases "zc_ends t")
    case True
    then show ?thesis using Cons.prems step by (intro exI [of _ 0]) (simp add: measured_inplace_def)
  next
    case False
    then obtain k where k: "k < length zs" "zc_ends (zs ! k)" "\<forall>j<k. \<not> zc_ends (zs ! j)"
      "m' = ingest_all stride (measured_inplace (take (Suc k) zs)) (ingest_all stride ?es m)"
      using Cons step by auto
    have "\<not> zc_ends ((t # zs) ! j)" if "j < Suc k" for j
      using that False k(3) by (cases j) auto
    moreover have "measured_inplace (take (Suc (Suc k)) (t # zs)) = ?es @ measured_inplace (take (Suc k) zs)"
      by (simp add: measured_inplace_def)
    ultimately show ?thesis using k by (intro exI [of _ "Suc k"]) simp
  qed
qed

text \<open>
  The zero-copy receiver records what the copying one does: every message it was shown while the
  phase was MEASURE, up to and including the turn that ended it, judged message by message.
\<close>

theorem receiver_inplace_records:
  assumes "receiver_inplace_loop stride zs flow_new = Some m"
  shows "\<exists>k<length zs. zc_ends (zs ! k) \<and> (\<forall>j<k. \<not> zc_ends (zs ! j))
     \<and> (let es = measured_inplace (take (Suc k) zs) in
         fm_seqs m = map (wh_seq \<circ> snd) (decoded es)
       \<and> fm_latencies_us m = map (\<lambda>(ns, h). f_of_word (sat_sub ns (wh_ts_ns h)) / Fin 1000) (decoded es)
       \<and> fm_integrity_failures m = of_nat (length (filter undecodable es))
       \<and> fm_boundary_violations m = of_nat (length (filter (\<lambda>e. length (snd e) \<noteq> stride) es)))"
  using receiver_inplace_measured [OF assms] by (auto simp: ingest_all_recorded flow_new_def)

lemma receiver_inplace_records_witness:
  "\<exists>m. receiver_inplace_loop 24 [\<lparr>zt_result = Inr BClosed,
         zt_msgs = [(message_bytes (stamp_at 4 0 1), 5, PHASE_MEASURE), (message_bytes (stamp_at 5 0 1), 6, PHASE_COOLDOWN)],
         zt_phase = PHASE_COOLDOWN\<rparr>] flow_new = Some m
     \<and> fm_seqs m = [4]"
  (is "\<exists>m. receiver_inplace_loop 24 ?zs flow_new = Some m \<and> _")
proof -
  obtain m where m: "receiver_inplace_loop 24 ?zs flow_new = Some m" by simp
  have "measured_inplace ?zs = [(5, message_bytes (stamp_at 4 0 1))]"
    by (simp add: measured_inplace_def PHASE_MEASURE_def PHASE_COOLDOWN_def)
  then show ?thesis
    using receiver_inplace_records [OF m] m decode_message_bytes [of "stamp_at 4 0 1" "[]"]
    by (auto simp: stamp_at_def)
qed

section \<open>Ping-pong\<close>

definition pp_stop :: "pingpong_turn \<Rightarrow> bool" where
  "pp_stop t = (pp_phase0 t = PHASE_DONE
     \<or> (case pp_sent t of
          Inl e \<Rightarrow> e \<noteq> WouldBlock \<or> pp_phase2 t = PHASE_DONE
        | Inr _ \<Rightarrow> (case pp_result t of
              Inr (Message n) \<Rightarrow> False
            | Inr Timeout \<Rightarrow> pp_phase2 t = PHASE_DONE
            | Inr Closed \<Rightarrow> True
            | Inl _ \<Rightarrow> True)))"

definition pp_echo :: "pingpong_turn \<Rightarrow> u8 list option" where
  "pp_echo t = (case pp_sent t of
       Inl _ \<Rightarrow> None
     | Inr _ \<Rightarrow> (case pp_result t of Inr (Message n) \<Rightarrow> Some (take n (pp_recv t)) | _ \<Rightarrow> None))"

definition pp_sample :: "pingpong_turn \<Rightarrow> (u64 \<times> u64 \<times> u64) option" where
  "pp_sample t =
     (if pp_phase1 t \<noteq> PHASE_MEASURE then None
      else case pp_result t of
        Inr (Message n) \<Rightarrow>
          Option.bind (pp_echo t) (\<lambda>msg. case decode_message msg of
              Inr h \<Rightarrow> Some (wh_seq h, sat_sub (pp_t1 t) (pp_t0 t), of_nat n)
            | Inl _ \<Rightarrow> None)
      | _ \<Rightarrow> None)"

lemma pp_sample_refused: "pp_sent t = Inl e \<Longrightarrow> pp_sample t = None"
  by (auto simp: pp_sample_def pp_echo_def split: sum.split recv_outcome.split)

lemma build_total:
  assumes "builder_ok b"
  shows "\<exists>msg b'. build seq now b = Some (msg, b') \<and> builder_ok b'"
proof -
  have "build seq now b = build_at seq now b" by (simp add: build_def build_at_def encode_message_def)
  then show ?thesis using build_at_eq [OF assms] builder_ok_build [OF assms] by auto
qed

lemma pingpong_loop_samples:
  assumes "builder_ok b"
  shows "pingpong_client_loop ts m b seq =
     (if \<exists>t\<in>set ts. pp_stop t
      then Some (fold (\<lambda>(s, rtt, n). record_msg s rtt n)
                   (List.map_filter pp_sample (takeWhile (\<lambda>t. \<not> pp_stop t) ts)) m)
      else None)"
  using assms
proof (induction ts arbitrary: m b seq)
  case Nil
  then show ?case by simp
next
  case (Cons t ts)
  obtain msg b' where b': "build seq (pp_now t) b = Some (msg, b')" "builder_ok b'"
    using build_total [OF Cons.prems] by blast
  note step = b'(1) Cons.IH [OF b'(2)] pp_stop_def [of t] pp_sample_def [of t] pp_echo_def [of t]
    List.map_filter_simps Let_def
  consider (ended) "pp_phase0 t = PHASE_DONE"
    | (refused) e where "pp_phase0 t \<noteq> PHASE_DONE" "pp_sent t = Inl e"
    | (failed) e where "pp_phase0 t \<noteq> PHASE_DONE" "pp_sent t = Inr ()" "pp_result t = Inl e"
    | (message) k where "pp_phase0 t \<noteq> PHASE_DONE" "pp_sent t = Inr ()" "pp_result t = Inr (Message k)"
    | (idle) "pp_phase0 t \<noteq> PHASE_DONE" "pp_sent t = Inr ()" "pp_result t = Inr Timeout"
    | (closed) "pp_phase0 t \<noteq> PHASE_DONE" "pp_sent t = Inr ()" "pp_result t = Inr Closed"
    by (cases "pp_sent t"; cases "pp_result t"; cases "projr (pp_result t)") auto
  then show ?case
  proof cases
    case refused
    then show ?thesis using pp_sample_refused [OF refused(2)]
      by (simp add: b'(1) Cons.IH [OF b'(2)] pp_stop_def [of t] List.map_filter_simps)
  qed (simp_all add: step split: sum.split)
qed

text \<open>
  The ping-pong client ends exactly when it is told to, never panics, and records one round trip
  for every decodable echo of a measuring turn, keyed by the number the echo carries, and nothing else;
  the time is the one between the last send and the receipt.
\<close>

theorem pingpong_records:
  "pingpong_client_loop ts flow_new (builder_new n) 0 =
     (if \<exists>t\<in>set ts. pp_stop t
      then Some (fold (\<lambda>(s, rtt, n). record_msg s rtt n)
                   (List.map_filter pp_sample (takeWhile (\<lambda>t. \<not> pp_stop t) ts)) flow_new)
      else None)"
  by (rule pingpong_loop_samples [OF builder_ok_new])

text \<open>
  A retry restarts the clock: after a receive timeout the same number is sent again, and the late echo
  of the first request is recorded as if it answered the second one.
\<close>

lemma pingpong_late_echo:
  fixes m0
  defines "t1 \<equiv> \<lparr>pp_phase0 = PHASE_MEASURE, pp_phase1 = PHASE_MEASURE, pp_now = 0, pp_t0 = 0, pp_sent = Inr (),
      pp_phase2 = PHASE_MEASURE, pp_result = Inr Timeout, pp_recv = [], pp_t1 = 0\<rparr>"
    and "t2 \<equiv> \<lparr>pp_phase0 = PHASE_MEASURE, pp_phase1 = PHASE_MEASURE, pp_now = 500000, pp_t0 = 500000, pp_sent = Inr (),
      pp_phase2 = PHASE_MEASURE, pp_result = Inr (Message 24), pp_recv = message_bytes (stamp_at 0 0 0), pp_t1 = 501000\<rparr>"
    and "t3 \<equiv> \<lparr>pp_phase0 = PHASE_DONE, pp_phase1 = 0, pp_now = 0, pp_t0 = 0, pp_sent = Inr (),
      pp_phase2 = 0, pp_result = Inr Closed, pp_recv = [], pp_t1 = 0\<rparr>"
  shows "pingpong_client_loop [t1, t2, t3] flow_new (builder_new 24) 0 = Some (record_msg 0 1000 24 flow_new)"
proof -
  have "length (message_bytes (stamp_at 0 0 0)) = 24" by (simp add: stamp_at_def HEADER_LEN_def)
  then have "take 24 (message_bytes (stamp_at 0 0 0)) = message_bytes (stamp_at 0 0 0)" by simp
  then show ?thesis
    using decode_message_bytes [of "stamp_at 0 0 0" "[]"]
    by (simp add: pingpong_loop_samples [OF builder_ok_new] t1_def t2_def t3_def pp_stop_def pp_sample_def
        pp_echo_def PHASE_MEASURE_def PHASE_DONE_def List.map_filter_simps sat_sub_def stamp_at_def)
qed

section \<open>The distributed receiver\<close>

text \<open>
  The reading half of a distributed run never looks at the phase: everything that arrived, warm-up and
  cool-down included, is recorded.
\<close>

lemma dist_receiver_all:
  "dist_receiver_loop mb (map (\<lambda>h. Inr (message_bytes h, ns)) hs @ [Inl e]) m =
     Some (fold (\<lambda>h. record_msg (wh_seq h) (sat_sub ns (wh_ts_ns h)) (of_nat mb)) hs m)"
  by (induction hs arbitrary: m) (simp_all add: message_bytes_def decode_header_bytes)

end
