(* ===== verification/Loopback.thy ===== *)
theory Loopback
  imports Engine Tcp_Write Udp
begin

text \<open>
  One loopback connection from end to end: a blasting sender over the transport models, the bytes on
  the wire, the framed reader of the receiving side and the receiver worker on top of it.
\<close>

section \<open>Blasting over TCP and UDP\<close>

interpretation tcp_blast: blast_sink tcp_sink_send snd concat
  by unfold_locales

interpretation udp_blast: blast_sink udp_sink_send snd "\<lambda>ms. ms"
  by unfold_locales

lemma capacity_new: "bb_payload_len (batch_new n k) = max n MIN_MESSAGE_SIZE - MIN_MESSAGE_SIZE"
  by (simp add: batch_new_def Let_def)

section \<open>Receiving over TCP\<close>

text \<open>
  The pending bytes of a stream of messages are some whole messages and a part of the next one.
\<close>

lemma split_messages:
  assumes "p @ q = concat (map message_bytes hs)"
  shows "\<exists>j tail. p = concat (map message_bytes (take j hs)) @ tail \<and> j \<le> length hs
     \<and> (tail = [] \<or> (\<exists>x. j < length hs \<and> tail @ x = message_bytes (hs ! j) \<and> x \<noteq> []))"
  using assms
proof (induction hs arbitrary: p)
  case Nil
  then show ?case by simp
next
  case (Cons h hs)
  let ?m = "message_bytes h"
  show ?case
  proof (cases "length ?m \<le> length p")
    case True
    then have "p = ?m @ drop (length ?m) p"
      using Cons.prems by (simp del: length_message_bytes) (metis append_eq_append_conv_if append_take_drop_id)
    then obtain p' where p: "p = ?m @ p'" by blast
    then have "p' @ q = concat (map message_bytes hs)" using Cons.prems by simp
    from Cons.IH [OF this] obtain j tail where "p' = concat (map message_bytes (take j hs)) @ tail"
      "j \<le> length hs" "tail = [] \<or> (\<exists>x. j < length hs \<and> tail @ x = message_bytes (hs ! j) \<and> x \<noteq> [])" by blast
    then show ?thesis using p by (intro exI [of _ "Suc j"] exI [of _ tail]) auto
  next
    case False
    have "take (length p) (?m @ concat (map message_bytes hs)) = p" using Cons.prems by (metis append_eq_conv_conj concat.simps(2) list.simps(9))
    then have "p @ drop (length p) ?m = ?m" using False by (simp del: length_message_bytes) (metis append_take_drop_id)
    moreover have "drop (length p) ?m \<noteq> []" using False by simp
    ultimately show ?thesis by (intro exI [of _ 0] exI [of _ p]) auto
  qed
qed

text \<open>A receiving connection: reader, chunks in the socket and batch buffer; \<open>q\<close> is still to come.\<close>

record tcp_rx =
  tx_reader :: framed_reader
  tx_chunks :: "u8 list list"
  tx_buf :: "u8 list"
  tx_lens :: "nat list"

definition rx_ok :: "nat \<Rightarrow> nat \<Rightarrow> tcp_rx \<Rightarrow> u8 list \<Rightarrow> wire_header list \<Rightarrow> bool" where
  "rx_ok stride batch c q hs =
     (reader_ok (tx_reader c) \<and> 0 < stride \<and> 0 < batch \<and> stride \<le> length (fr_buf (tx_reader c))
      \<and> [] \<notin> set (tx_chunks c) \<and> length (tx_buf c) = stride * batch \<and> length (tx_lens c) = batch
      \<and> list_all (\<lambda>h. length (message_bytes h) = stride) hs
      \<and> pending (tx_reader c) @ concat (tx_chunks c) @ q = concat (map message_bytes hs))"

lemma rx_take:
  assumes "rx_ok stride batch c q hs"
    and "take_messages (tx_reader c) (tx_buf c) stride batch (tx_lens c) = (r', buf', lens', k)"
  shows "k \<le> batch \<and> k \<le> length hs
     \<and> rx_ok stride batch (c\<lparr>tx_reader := r', tx_buf := buf', tx_lens := lens'\<rparr>) q (drop k hs)
     \<and> (\<forall>i<k. lens' ! i = stride \<and> subslice buf' (i * stride) (i * stride + stride) = message_bytes (hs ! i))
     \<and> (k = 0 \<longrightarrow> length (pending r') < stride)"
proof -
  let ?r = "tx_reader c"
  have ok: "reader_ok ?r" and st: "0 < stride" "0 < batch" and room: "stride \<le> length (fr_buf ?r)"
    and buf: "length (tx_buf c) = stride * batch" and lens: "length (tx_lens c) = batch"
    and hs: "\<And>h. h \<in> set hs \<Longrightarrow> length (message_bytes h) = stride"
    and eq: "pending ?r @ concat (tx_chunks c) @ q = concat (map message_bytes hs)"
    using assms(1) by (auto simp: rx_ok_def list_all_iff)
  obtain j tail where p: "pending ?r = concat (map message_bytes (take j hs)) @ tail" and j: "j \<le> length hs"
    and tail: "tail = [] \<or> (\<exists>x. j < length hs \<and> tail @ x = message_bytes (hs ! j) \<and> x \<noteq> [])"
    using split_messages [OF eq] by blast
  have short: "length tail < stride"
  proof (cases "tail = []")
    case False
    then obtain x where "j < length hs" "tail @ x = message_bytes (hs ! j)" "x \<noteq> []" using tail by blast
    then have "length tail + length x = stride" "0 < length x" using hs by (metis length_append nth_mem, simp)
    then show ?thesis by linarith
  qed (use st in simp)
  have tail': "tail = [] \<or> (\<exists>h x. tail @ x = message_bytes h \<and> x \<noteq> [] \<and> length (message_bytes h) \<le> length (fr_buf ?r))"
    using tail hs room by (metis nth_mem)
  have sizes: "\<forall>h\<in>set (take j hs). length (message_bytes h) \<le> min stride (length (fr_buf ?r))"
    using hs room by (auto dest: in_set_takeD simp del: length_message_bytes)
  have fit: "(0 + batch) * stride \<le> length (tx_buf c)" "0 + batch \<le> length (tx_lens c)"
    using buf lens by (simp_all add: mult.commute)
  have "length (tx_buf c) div stride = batch" using buf st by simp
  then have "take_messages ?r (tx_buf c) stride batch (tx_lens c)
      = take_messages_loop batch stride 0 ?r (tx_buf c) (tx_lens c)"
    using st lens by (simp add: take_messages_def)
  then have k: "k = min batch j" and fill: "(buf', lens') = fill_slots stride 0 (map message_bytes (take batch (take j hs))) (tx_buf c) (tx_lens c)"
    and r': "reader_ok r'" "length (fr_buf r') = length (fr_buf ?r)"
      "pending r' = concat (map message_bytes (drop batch (take j hs))) @ tail"
    using take_messages_loop_fill [OF ok p sizes tail' fit] assms(2) j by (auto simp: min_def)
  have tk: "take batch (take j hs) = take k hs" "length (take k hs) = k" using k j by (simp_all add: min_def)
  have fit': "(0 + length (map message_bytes (take k hs))) * stride \<le> length (tx_buf c)"
      "0 + length (map message_bytes (take k hs)) \<le> length (tx_lens c)"
    using fit k tk(2) by (auto simp: mult_le_mono1 intro: order_trans [OF _ fit(1)])
  note fill' = fill [unfolded tk(1), symmetric]
  have slots: "lens' ! i = stride \<and> subslice buf' (i * stride) (i * stride + stride) = message_bytes (hs ! i)"
    if "i < k" for i
  proof -
    have "i < length hs" "hs ! i \<in> set hs" using that k j by simp_all
    then have len: "length (message_bytes (hs ! i)) = stride" using hs by simp
    have nth: "map message_bytes (take k hs) ! i = message_bytes (hs ! i)" using that tk(2) by simp
    have "i < length (map message_bytes (take k hs))" using that tk(2) by simp
    note filled = fill_slots_filled [OF fill' fit' this, unfolded nth len add_0 min.idem]
    from filled have "lens' ! i = stride" by (rule conjunct1)
    moreover have "subslice buf' (i * stride) (i * stride + lens' ! i) = message_bytes (hs ! i)"
      using conjunct2 [OF filled] len by simp
    ultimately show ?thesis by metis
  qed
  have "length buf' = length (tx_buf c) \<and> length lens' = length (tx_lens c)"
    by (rule fill_slots_length [OF fill' fit'])
  moreover have "pending r' @ concat (tx_chunks c) @ q = concat (map message_bytes (drop k hs))"
  proof -
    have "concat (map message_bytes (take k hs)) @ pending r' @ concat (tx_chunks c) @ q = concat (map message_bytes hs)"
      unfolding r'(3) tk(1) [symmetric] using p eq
      by (metis append.assoc append_take_drop_id concat_append map_append)
    also have "\<dots> = concat (map message_bytes (take k hs)) @ concat (map message_bytes (drop k hs))"
      by (metis append_take_drop_id concat_append map_append)
    finally show ?thesis by simp
  qed
  ultimately have "rx_ok stride batch (c\<lparr>tx_reader := r', tx_buf := buf', tx_lens := lens'\<rparr>) q (drop k hs)"
    using assms(1) r'(1,2) by (auto simp: rx_ok_def list_all_iff dest: in_set_dropD)
  moreover have "length (pending r') < stride" if "k = 0"
    using that st k r'(3) short by simp
  ultimately show ?thesis using slots k j by auto
qed

text \<open>One \<open>recv_batch\<close> of the connection: a batch of whole messages in order, or idleness.\<close>

definition rx_recv ::
  "nat \<Rightarrow> nat \<Rightarrow> nat \<Rightarrow> tcp_rx \<Rightarrow> ((io_error + batch_outcome) \<times> tcp_rx) option" where
  "rx_recv fuel stride batch c =
     map_option (\<lambda>(res, r, buf, lens, cs). (res, \<lparr>tx_reader = r, tx_chunks = cs, tx_buf = buf, tx_lens = lens\<rparr>))
       (tcp_recv_batch fuel feed (tx_reader c) (tx_buf c) stride batch (tx_lens c) (tx_chunks c))"

lemma rx_recv_loop:
  assumes "rx_ok stride batch c q hs" and "length (concat (tx_chunks c)) < fuel"
  shows "\<exists>k res r' buf' lens' cs'.
      tcp_recv_loop fuel feed (tx_reader c) (tx_buf c) stride batch (tx_lens c) (tx_chunks c)
        = Some (res, r', buf', lens', cs')
    \<and> rx_ok stride batch \<lparr>tx_reader = r', tx_chunks = cs', tx_buf = buf', tx_lens = lens'\<rparr> q (drop k hs)
    \<and> k \<le> batch \<and> k \<le> length hs \<and> res = Inr (if k = 0 then BTimeout else Messages k)
    \<and> (\<forall>i<k. lens' ! i = stride \<and> subslice buf' (i * stride) (i * stride + stride) = message_bytes (hs ! i))"
  using assms
proof (induction fuel arbitrary: c)
  case 0
  then show ?case by simp
next
  case (Suc fuel)
  obtain r1 buf1 lens1 k where tm: "take_messages (tx_reader c) (tx_buf c) stride batch (tx_lens c) = (r1, buf1, lens1, k)"
    by (metis prod_cases4)
  let ?c = "c\<lparr>tx_reader := r1, tx_buf := buf1, tx_lens := lens1\<rparr>"
  note t = rx_take [OF Suc.prems(1) tm]
  show ?case
  proof (cases "0 < k")
    case True
    have "?c = \<lparr>tx_reader = r1, tx_chunks = tx_chunks c, tx_buf = buf1, tx_lens = lens1\<rparr>" by simp
    with True t tm show ?thesis
      by (intro exI [of _ k] exI [of _ "Inr (Messages k)"] exI [of _ r1] exI [of _ buf1] exI [of _ lens1]
          exI [of _ "tx_chunks c"]) simp
  next
    case False
    then have ok: "rx_ok stride batch ?c q hs" and lt: "length (pending r1) < length (fr_buf r1)" and r1: "reader_ok r1"
      using t by (auto simp: rx_ok_def)
    show ?thesis
    proof (cases "tx_chunks c")
      case Nil
      have "fill_once feed r1 [] = (Inr FTimeout, compact r1, [])"
        using compact_ok [OF r1] lt by (simp add: fill_once_def Let_def)
      moreover have "rx_ok stride batch \<lparr>tx_reader = compact r1, tx_chunks = [], tx_buf = buf1, tx_lens = lens1\<rparr> q hs"
        using ok compact_ok [OF r1] Nil by (simp add: rx_ok_def)
      ultimately show ?thesis using False tm Nil
        by (intro exI [of _ 0] exI [of _ "Inr BTimeout"] exI [of _ "compact r1"] exI [of _ buf1] exI [of _ lens1]
            exI [of _ "[]"]) simp
    next
      case (Cons ch chs)
      have "\<exists>bs cs'. feed n (tx_chunks c) = (Inr bs, cs') \<and> bs \<noteq> [] \<and> length bs \<le> n
        \<and> (bs @ concat cs' = concat (tx_chunks c) \<and> [] \<notin> set cs')" if "0 < n" for n
        using Suc.prems(1) Cons by (intro feed_data [OF _ _ that]) (auto simp: rx_ok_def)
      then obtain bs cs' r2 where f: "fill_once feed r1 (tx_chunks c) = (Inr Filled, r2, cs')"
        "bs @ concat cs' = concat (tx_chunks c)" "[] \<notin> set cs'" "bs \<noteq> []"
        "reader_ok r2" "pending r2 = pending r1 @ bs" "length (fr_buf r2) = length (fr_buf r1)"
        using fill_once_data [OF r1 lt, of feed "tx_chunks c" "\<lambda>bs cs'. bs @ concat cs' = concat (tx_chunks c) \<and> [] \<notin> set cs'"]
        by blast
      let ?c2 = "\<lparr>tx_reader = r2, tx_chunks = cs', tx_buf = buf1, tx_lens = lens1\<rparr>"
      have "pending r1 @ concat (tx_chunks c) @ q = concat (map message_bytes hs)"
        using ok by (simp add: rx_ok_def)
      then have "pending r2 @ concat cs' @ q = concat (map message_bytes hs)"
        unfolding f(6) f(2) [symmetric] by simp
      then have "rx_ok stride batch ?c2 q hs" using ok f(3,5,7) by (simp add: rx_ok_def)
      moreover have "length (concat cs') < fuel"
      proof -
        have "length bs + length (concat cs') = length (concat (tx_chunks c))" by (metis f(2) length_append)
        moreover have "0 < length bs" using f(4) by simp
        ultimately show ?thesis using Suc.prems(2) by linarith
      qed
      ultimately show ?thesis using Suc.IH [of ?c2] False tm f(1) by simp
    qed
  qed
qed

lemma rx_recv_delivers:
  assumes "rx_ok stride batch c q hs" and "length (concat (tx_chunks c)) < fuel"
  shows "\<exists>k c'. rx_recv fuel stride batch c = Some (Inr (if k = 0 then BTimeout else Messages k), c')
    \<and> rx_ok stride batch c' q (drop k hs) \<and> k \<le> length hs
    \<and> (\<forall>i<k. i < length (tx_lens c') \<and> tx_lens c' ! i = stride \<and> i * stride + stride \<le> length (tx_buf c')
        \<and> subslice (tx_buf c') (i * stride) (i * stride + stride) = message_bytes (hs ! i))"
proof -
  have "\<not> (batch = 0 \<or> stride = 0 \<or> length (tx_buf c) < stride \<or> tx_lens c = [])"
    using assms(1) by (auto simp: rx_ok_def)
  then have "tcp_recv_batch fuel feed (tx_reader c) (tx_buf c) stride batch (tx_lens c) (tx_chunks c)
      = tcp_recv_loop fuel feed (tx_reader c) (tx_buf c) stride batch (tx_lens c) (tx_chunks c)"
    by (simp add: tcp_recv_batch_def)
  moreover obtain k res r' buf' lens' cs' where
    l: "tcp_recv_loop fuel feed (tx_reader c) (tx_buf c) stride batch (tx_lens c) (tx_chunks c) = Some (res, r', buf', lens', cs')"
    and ok: "rx_ok stride batch \<lparr>tx_reader = r', tx_chunks = cs', tx_buf = buf', tx_lens = lens'\<rparr> q (drop k hs)"
    and k: "k \<le> batch" "k \<le> length hs" "res = Inr (if k = 0 then BTimeout else Messages k)"
    and sl: "\<forall>i<k. lens' ! i = stride \<and> subslice buf' (i * stride) (i * stride + stride) = message_bytes (hs ! i)"
    using rx_recv_loop [OF assms] by blast
  have "i * stride + stride \<le> length buf' \<and> i < length lens'" if "i < k" for i
  proof -
    have "Suc i * stride \<le> batch * stride" using that k(1) by (intro mult_le_mono1) simp
    then show ?thesis using ok that k(1) by (simp add: rx_ok_def algebra_simps)
  qed
  ultimately show ?thesis using ok k sl l
    by (intro exI [of _ k] exI [of _ "\<lparr>tx_reader = r', tx_chunks = cs', tx_buf = buf', tx_lens = lens'\<rparr>"])
      (simp add: rx_recv_def)
qed

text \<open>The turns of a receiver on that connection, for the clock readings and phases it sees.\<close>

fun rx_turns :: "nat \<Rightarrow> nat \<Rightarrow> (u64 \<times> u8) list \<Rightarrow> tcp_rx \<Rightarrow> rx_turn list" where
  "rx_turns stride batch [] c = []"
| "rx_turns stride batch ((ns, ph) # clk) c =
     (case rx_recv (length (concat (tx_chunks c)) + 1) stride batch c of
        None \<Rightarrow> []
      | Some (res, c') \<Rightarrow>
          \<lparr>rt_result = res, rt_buf = tx_buf c', rt_lens = tx_lens c', rt_recv_ns = ns, rt_phase = ph\<rparr>
          # rx_turns stride batch clk c')"

lemma rx_turns_deliver:
  assumes "rx_ok stride batch c q hs"
  shows "\<exists>j\<le>length hs. concat (map (rx_msgs stride) (rx_turns stride batch clk c)) = map message_bytes (take j hs)
     \<and> map rt_phase (rx_turns stride batch clk c) = map snd clk"
  using assms
proof (induction clk arbitrary: c hs)
  case Nil
  then show ?case by (intro exI [of _ 0]) simp
next
  case (Cons x clk)
  obtain ns ph where x: "x = (ns, ph)" by (cases x)
  obtain k c' where r: "rx_recv (length (concat (tx_chunks c)) + 1) stride batch c
        = Some (Inr (if k = 0 then BTimeout else Messages k), c')"
    and ok: "rx_ok stride batch c' q (drop k hs)" "k \<le> length hs"
    and sl: "\<forall>i<k. i < length (tx_lens c') \<and> tx_lens c' ! i = stride \<and> i * stride + stride \<le> length (tx_buf c')
        \<and> subslice (tx_buf c') (i * stride) (i * stride + stride) = message_bytes (hs ! i)"
    using rx_recv_delivers [OF Cons.prems, of "length (concat (tx_chunks c)) + 1"] by auto
  obtain j where j: "j \<le> length (drop k hs)"
    "concat (map (rx_msgs stride) (rx_turns stride batch clk c')) = map message_bytes (take j (drop k hs))"
    "map rt_phase (rx_turns stride batch clk c') = map snd clk"
    using Cons.IH [OF ok(1)] by blast
  let ?t = "\<lparr>rt_result = Inr (if k = 0 then BTimeout else Messages k), rt_buf = tx_buf c', rt_lens = tx_lens c',
      rt_recv_ns = ns, rt_phase = ph\<rparr>"
  have "rx_msgs stride ?t = map message_bytes (take k hs)"
    using sl ok(2) by (auto simp: rx_msgs_def batch_msgs_def intro!: nth_equalityI)
  moreover have "take (k + j) hs = take k hs @ take j (drop k hs)" by (simp add: take_add)
  ultimately show ?case using j r ok(2) x
    by (intro exI [of _ "k + j"]) simp
qed

lemma rx_turns_take: "take i (rx_turns stride batch clk c) = rx_turns stride batch (take i clk) c"
  by (induction clk arbitrary: i c) (auto simp: take_Cons split: nat.split option.split)

section \<open>End to end\<close>

lemma tcp_blast_wire:
  assumes "blast_loop tcp_sink_send bsz ts 0 (batch_new n k) (answers, []) = Some (seq', b', as', w)"
  shows "\<exists>nows rest. concat (map message_bytes (numbered 0 (max n MIN_MESSAGE_SIZE - MIN_MESSAGE_SIZE) nows)) = w @ rest
     \<and> length nows \<le> length w + 1"
proof -
  let ?n = "max n MIN_MESSAGE_SIZE - MIN_MESSAGE_SIZE"
  from tcp_blast.blast_numbered [OF batch_ok_new capacity_new assms]
  obtain nows more v z where seq: "seq' = of_nat (length nows)"
    and w: "w = concat (map message_bytes (numbered 0 ?n nows)) @ v"
    and v: "concat (map message_bytes (numbered seq' ?n more)) = v @ z" by auto
  have "numbered 0 ?n (nows @ more) = numbered 0 ?n nows @ numbered seq' ?n more"
    by (simp add: numbered_append seq)
  then have all: "w @ z = concat (map message_bytes (numbered 0 ?n (nows @ more)))" using w v by simp
  obtain j tail where j: "w = concat (map message_bytes (take j (numbered 0 ?n (nows @ more)))) @ tail"
      "j \<le> length (numbered 0 ?n (nows @ more))"
    and tail: "tail = [] \<or> (\<exists>x. j < length (numbered 0 ?n (nows @ more))
        \<and> tail @ x = message_bytes (numbered 0 ?n (nows @ more) ! j) \<and> x \<noteq> [])"
    using split_messages [OF all] by blast
  have len: "j \<le> length w"
  proof -
    have le: "length ms \<le> length (concat (map message_bytes ms))" for ms
      by (induction ms) (auto simp: HEADER_LEN_def)
    then have "length (take j (numbered 0 ?n (nows @ more))) \<le> length w"
      using le [of "take j (numbered 0 ?n (nows @ more))"] by (subst j(1)) (simp only: length_append trans_le_add1)
    then show ?thesis using j(2) by (simp only: length_take min.absorb2)
  qed
  have "\<exists>rest. concat (map message_bytes (take (Suc j) (numbered 0 ?n (nows @ more)))) = w @ rest"
  proof (cases "tail = []")
    case True
    have "take (Suc j) ms = take j ms @ take 1 (drop j ms)" for ms :: "wire_header list"
      by (metis take_add Suc_eq_plus1)
    then show ?thesis using j(1) True by simp
  next
    case False
    then obtain x where "j < length (numbered 0 ?n (nows @ more))"
      "tail @ x = message_bytes (numbered 0 ?n (nows @ more) ! j)" using tail by blast
    then show ?thesis using j(1) by (intro exI [of _ x]) (simp add: take_Suc_conv_app_nth)
  qed
  moreover have "length (take (Suc j) (nows @ more)) \<le> length w + 1" using len by simp
  ultimately show ?thesis by (metis take_numbered)
qed

lemma descents_sorted: "sorted xs \<Longrightarrow> descents xs = 0"
  by (induction xs rule: windows2.induct) auto

lemma integrity_consecutive:
  assumes "a + k < 2 ^ 64"
  shows "integrity (map of_nat [a..<a + k]) = \<lparr>ig_received = of_nat k, ig_distinct = of_nat k, ig_lost = 0,
           ig_duplicate = 0, ig_reordered = 0\<rparr>"
proof (cases "k = 0")
  case True
  then show ?thesis by (simp add: integ_default_def)
next
  case False
  let ?w = "of_nat :: nat \<Rightarrow> u64" and ?l = "[a..<a + k]"
  have u: "unat (?w i) = i" if "i < a + k" for i using that assms by (intro unat_of_nat_u64) linarith
  have le: "?w i \<le> ?w j" if "i \<le> j" "j < a + k" for i j using that u by (simp add: word_le_nat_alt)
  have inj: "inj_on ?w (set ?l)" by (rule inj_on_inverseI [of _ unat]) (simp add: u)
  have "card (set (map ?w ?l)) = k" by (simp add: card_image [OF inj, simplified])
  moreover have "Min (set (map ?w ?l)) = ?w a" using False le by (intro Min_eqI) auto
  moreover have "Max (set (map ?w ?l)) = ?w (a + k - 1)"
  proof (rule Max_eqI)
    show "y \<le> ?w (a + k - 1)" if "y \<in> set (map ?w ?l)" for y
    proof -
      from that obtain i where "y = ?w i" "i \<in> set ?l" unfolding set_map by (rule imageE)
      then have i: "y = ?w i" "i < a + k" by simp_all
      show ?thesis unfolding i(1) by (rule le) (use i(2) in linarith)+
    qed
    have "a + k - 1 \<in> set ?l" using False by auto
    then show "?w (a + k - 1) \<in> set (map ?w ?l)" unfolding set_map by (rule imageI)
  qed simp
  moreover have "?w (a + k - 1) - ?w a + 1 = ?w k"
  proof -
    have "?w (a + k - 1) + 1 = ?w (a + k)" using False by (metis One_nat_def Suc_pred' add_gr_0 bot_nat_0.not_eq_extremum of_nat_Suc add.commute)
    then have "?w (a + k - 1) - ?w a + 1 = ?w (a + k) - ?w a" by (simp add: algebra_simps)
    then show ?thesis by simp
  qed
  moreover have "?w a + ?w i \<le> ?w a + ?w j" if "i \<le> j" "j < k" for i j
    using le [of "a + i" "a + j"] that by simp
  then have "sorted (map ?w ?l)" by (auto simp: sorted_iff_nth_mono)
  then have "descents (map ?w ?l) = 0" by (rule descents_sorted)
  moreover have "map ?w ?l \<noteq> []" using False by simp
  note integrity_eq [OF this]
  ultimately show ?thesis by (simp only: length_map length_upt) (simp add: sat_sub_def)
qed

lemma filter_sorted_window:
  fixes f :: "'a \<Rightarrow> 'b::linorder"
  assumes "sorted (map f xs)"
  shows "filter (\<lambda>x. f x = c) xs = takeWhile (\<lambda>x. f x = c) (dropWhile (\<lambda>x. f x < c) xs)"
  using assms
proof (induction xs)
  case Nil
  then show ?case by simp
next
  case (Cons x xs)
  consider "f x < c" | "f x = c" | "c < f x" by fastforce
  then show ?case
  proof cases
    case 2
    then have "dropWhile (\<lambda>x. f x < c) xs = xs" using Cons.prems by (cases xs) auto
    then show ?thesis using Cons 2 by simp
  next
    case 3
    then have "filter (\<lambda>x. f x = c) xs = []" using Cons.prems by (auto simp: filter_empty_conv)
    then show ?thesis using 3 by auto
  qed (use Cons in auto)
qed

lemma concat_window:
  assumes "concat (map g (as @ ms @ cs)) = map h hs"
  shows "\<exists>i k. concat (map g ms) = map h (take k (drop i hs)) \<and> i + k \<le> length hs"
proof -
  let ?i = "length (concat (map g as))" and ?k = "length (concat (map g ms))"
  have "concat (map g ms) = take ?k (drop ?i (map h hs))"
    using assms [symmetric] by simp
  moreover have "?i + ?k \<le> length (map h hs)" unfolding assms [symmetric] by simp
  ultimately show ?thesis by (metis drop_map take_map length_map)
qed

lemma decoded_messages:
  "map snd es = map message_bytes hs
     \<Longrightarrow> map snd (decoded es) = hs \<and> filter undecodable es = []"
proof (induction es arbitrary: hs)
  case Nil
  then show ?case by simp
next
  case (Cons e es)
  then obtain h hs' where "hs = h # hs'" "snd e = message_bytes h" "map snd es = map message_bytes hs'"
    by (auto simp: Cons_eq_map_conv)
  then show ?case using Cons.IH [of hs'] decode_message_bytes [of h "[]"] by (cases e) (simp add: undecodable_Pair)
qed

lemma measured_window:
  assumes "sorted (map rt_phase ts)" and "concat (map (rx_msgs stride) ts) = map message_bytes hs"
  shows "\<exists>i k. map snd (measured stride ts) = map message_bytes (take k (drop i hs)) \<and> i + k \<le> length hs"
proof -
  let ?live = "takeWhile (\<lambda>t. \<not> rx_ends t) ts" and ?P = "\<lambda>t. rt_phase t = PHASE_MEASURE"
  have ts: "ts = ?live @ dropWhile (\<lambda>t. \<not> rx_ends t) ts" by simp
  then have "sorted (map rt_phase ?live)" using assms(1) by (metis map_append sorted_wrt_append)
  from filter_sorted_window [OF this, of PHASE_MEASURE]
  have f: "filter ?P ?live = takeWhile ?P (dropWhile (\<lambda>t. rt_phase t < PHASE_MEASURE) ?live)" .
  have "?live = takeWhile (\<lambda>t. rt_phase t < PHASE_MEASURE) ?live @ filter ?P ?live
      @ dropWhile ?P (dropWhile (\<lambda>t. rt_phase t < PHASE_MEASURE) ?live)"
    unfolding f by simp
  then obtain as cs where split: "ts = as @ filter ?P ?live @ cs" using ts by (metis append.assoc)
  have "concat (map (rx_msgs stride) (as @ filter ?P ?live @ cs)) = map message_bytes hs"
    unfolding split [symmetric] by (rule assms(2))
  note window = concat_window [OF this]
  have "map snd (measured stride ts) = concat (map (rx_msgs stride) (filter ?P ?live))"
    by (simp add: measured_def map_concat comp_def)
  with window show ?thesis by simp
qed

lemma seqs_numbered:
  "map wh_seq (take k (drop i (numbered 0 n ts))) = map of_nat [i..<i + length (take k (drop i ts))]"
proof -
  have "drop i (numbered 0 n ts) = numbered (of_nat i) n (drop i ts)" if "i \<le> length ts"
  proof -
    have "numbered 0 n ts = numbered 0 n (take i ts) @ numbered (of_nat (length (take i ts))) n (drop i ts)"
      using numbered_append [of 0 n "take i ts" "drop i ts"] by simp
    with that show ?thesis by simp
  qed
  moreover have "map wh_seq (numbered (of_nat i) n us) = map of_nat [i..<i + length us]" for us
    by (rule nth_equalityI) (simp_all add: nth_numbered stamp_at_def)
  ultimately show ?thesis by (cases "i \<le> length ts") (simp_all add: take_numbered del: length_take)
qed

lemma rx_turns_end:
  assumes "rx_ok stride batch c q hs" and "length hs < length (filter (\<lambda>x. snd x = PHASE_DONE) clk)"
  shows "\<exists>m'. receiver_loop stride (rx_turns stride batch clk c) m = Some m'"
  using assms
proof (induction clk arbitrary: c hs m)
  case Nil
  then show ?case by simp
next
  case (Cons x clk)
  obtain ns ph where x: "x = (ns, ph)" by (cases x)
  obtain k c' where r: "rx_recv (length (concat (tx_chunks c)) + 1) stride batch c
        = Some (Inr (if k = 0 then BTimeout else Messages k), c')"
    and ok: "rx_ok stride batch c' q (drop k hs)" "k \<le> length hs"
    and sl: "\<forall>i<k. i < length (tx_lens c') \<and> tx_lens c' ! i = stride \<and> i * stride + stride \<le> length (tx_buf c')
        \<and> subslice (tx_buf c') (i * stride) (i * stride + stride) = message_bytes (hs ! i)"
    using rx_recv_delivers [OF Cons.prems(1), of "length (concat (tx_chunks c)) + 1"] by auto
  let ?t = "\<lparr>rt_result = Inr (if k = 0 then BTimeout else Messages k), rt_buf = tx_buf c', rt_lens = tx_lens c',
      rt_recv_ns = ns, rt_phase = ph\<rparr>"
  have turns: "rx_turns stride batch (x # clk) c = ?t # rx_turns stride batch clk c'" using r by (simp add: x)
  have slots: "slots_ok stride ?t k" using sl by (simp add: slots_ok_def list_all_iff)
  show ?case
  proof (cases "k = 0 \<and> ph = PHASE_DONE")
    case True
    then show ?thesis unfolding turns by simp
  next
    case False
    then have "length (drop k hs) < length (filter (\<lambda>x. snd x = PHASE_DONE) clk)"
      using Cons.prems(2) ok(2) by (auto simp: x split: if_splits)
    note IH = Cons.IH [OF ok(1) this]
    show ?thesis unfolding turns using IH False slots by (cases "k = 0") (auto simp: slots_ok_def)
  qed
qed

text \<open>
  C33: A TCP receiver ends: it leaves its loop after at most one DONE turn per message still on its
  way and one more, whatever the phases before, because every turn either takes a whole message or
  finds the socket idle.
\<close>

theorem tcp_receiver_ends:
  assumes "concat cs = concat (map message_bytes hs)" and "[] \<notin> set cs"
    and "\<forall>h\<in>set hs. HEADER_LEN + unat (wh_payload_len h) = unat n" and "0 < unat n" and "0 < batch"
    and "length hs < length (filter (\<lambda>x. snd x = PHASE_DONE) clk)"
  shows "\<exists>m. receiver_loop (unat n)
       (rx_turns (unat n) batch clk \<lparr>tx_reader = framed_new n, tx_chunks = cs,
          tx_buf = replicate (unat n * batch) 0, tx_lens = replicate batch 0\<rparr>) flow_new = Some m"
proof (rule rx_turns_end [OF _ assms(6)])
  have "unat n \<le> length (fr_buf (framed_new n))" by (simp add: framed_new_def Let_def max_def)
  then show "rx_ok (unat n) batch \<lparr>tx_reader = framed_new n, tx_chunks = cs,
          tx_buf = replicate (unat n * batch) 0, tx_lens = replicate batch 0\<rparr> [] hs"
    using assms(1-5) pending_new [of n] reader_ok_new [of n] by (auto simp: rx_ok_def list_all_iff)
qed

lemma tcp_receiver_ends_witness:
  "\<exists>m. receiver_loop 24
       (rx_turns 24 2 [(5, PHASE_MEASURE), (6, PHASE_DONE), (7, PHASE_DONE)] \<lparr>tx_reader = framed_new 24,
          tx_chunks = [message_bytes (stamp_at 0 0 7)],
          tx_buf = replicate 48 0, tx_lens = replicate 2 0\<rparr>) flow_new = Some m"
proof -
  have "message_bytes (stamp_at 0 0 7) \<noteq> []" by (simp add: message_bytes_def header_bytes_def MAGIC_def)
  then show ?thesis
    using tcp_receiver_ends [of "[message_bytes (stamp_at 0 0 7)]" "[stamp_at 0 0 7]" 24 2
        "[(5, PHASE_MEASURE), (6, PHASE_DONE), (7, PHASE_DONE)]"]
    by (simp add: stamp_at_def HEADER_LEN_def PHASE_MEASURE_def PHASE_DONE_def)
qed

text \<open>
  A UDP blast puts consecutively numbered datagrams on the wire: whatever part of a batch the socket
  takes, datagram \<open>i\<close> carries sequence number \<open>i\<close>, and nothing is skipped or repeated by the sender.
\<close>

theorem udp_blast_numbered:
  assumes "blast_loop udp_sink_send bsz ts 0 (batch_new n k) (answers, []) = Some (seq', b', as', datagrams)"
  shows "\<exists>nows. datagrams = map message_bytes (numbered 0 (max n MIN_MESSAGE_SIZE - MIN_MESSAGE_SIZE) nows)"
proof -
  let ?n = "max n MIN_MESSAGE_SIZE - MIN_MESSAGE_SIZE"
  from udp_blast.blast_numbered [OF batch_ok_new capacity_new assms]
  obtain nows more v z where seq: "seq' = of_nat (length nows)"
    and w: "datagrams = map message_bytes (numbered 0 ?n nows) @ v"
    and v: "map message_bytes (numbered seq' ?n more) = v @ z" by auto
  have "v = take (length v) (map message_bytes (numbered seq' ?n more))" unfolding v by simp
  then have "v = map message_bytes (numbered seq' ?n (take (length v) more))"
    by (simp only: take_map take_numbered)
  then have "datagrams = map message_bytes (numbered 0 ?n (nows @ take (length v) more))"
    using w by (simp add: numbered_append seq)
  then show ?thesis by blast
qed

lemma one_message_batch:
  "\<exists>b1. batch_build 0 1 (\<lambda>_. 7) (batch_new 24 1) = Some ([message_bytes (stamp_at 0 0 7)], b1)"
proof -
  have "bb_payload_len (batch_new 24 1) = 0" "capacity (batch_new 24 1) = 1"
    by (simp_all add: batch_new_def capacity_def Let_def MIN_MESSAGE_SIZE_def HEADER_LEN_def)
  then show ?thesis using batch_build_eq [OF batch_ok_new, of 0 1 "\<lambda>_. 7" 24 1] by auto
qed

lemma udp_blast_numbered_witness:
  "\<exists>nows. [message_bytes (stamp_at 0 0 7)]
     = map message_bytes (numbered 0 (max 24 MIN_MESSAGE_SIZE - MIN_MESSAGE_SIZE) nows)"
proof -
  obtain b1 where "batch_build 0 1 (\<lambda>_. 7) (batch_new 24 1) = Some ([message_bytes (stamp_at 0 0 7)], b1)"
    using one_message_batch by blast
  then have "blast_loop udp_sink_send 1 [(PHASE_WARMUP, \<lambda>_. 7), (PHASE_DONE, \<lambda>_. 8)] 0 (batch_new 24 1)
      ([Inr 1], []) = Some (1, b1, [], [message_bytes (stamp_at 0 0 7)])"
    by (simp add: PHASE_WARMUP_def PHASE_DONE_def udp_sink_send_def udp_send_batch_def)
  then show ?thesis by (rule udp_blast_numbered)
qed



end
