(* ===== verification/Affinity.thy ===== *)
theory Affinity
  imports Seshat_Prelude
begin

text \<open>
  Core pools and the clock: \<open>src/src/run/affinity.rs\<close> and \<open>src/src/time.rs\<close>. The answers of the
  affinity system calls and the clock readings are arguments; core numbers and counts are naturals
  (the products of \<open>partition_cores\<close> are far below the range of \<open>usize\<close>).
\<close>

section \<open>The clock\<close>

definition timespec_ns :: "u64 \<Rightarrow> u64 \<Rightarrow> u64" where
  "timespec_ns sec nsec = sec * 1000000000 + nsec"

definition SPIN_THRESHOLD_NS :: u64 where "SPIN_THRESHOLD_NS = 50000"

datatype wait_step = SleepNs u64 | Spin

text \<open>One wait of \<open>sleep_until_ns\<close>: what it does after each clock reading, until a reading has
  reached the deadline; None when the readings run out before that.\<close>

fun sleep_until_ns :: "u64 \<Rightarrow> u64 list \<Rightarrow> (wait_step list \<times> u64) option" where
  "sleep_until_ns deadline_ns [] = None"
| "sleep_until_ns deadline_ns (now # readings) =
     (if deadline_ns \<le> now then Some ([], now)
      else let remaining = deadline_ns - now;
               w = (if SPIN_THRESHOLD_NS < remaining then SleepNs (remaining - SPIN_THRESHOLD_NS) else Spin)
           in map_option (\<lambda>(ws, t). (w # ws, t)) (sleep_until_ns deadline_ns readings))"

lemma sleep_until_reaches:
  "sleep_until_ns d rs = Some (ws, t) \<Longrightarrow> d \<le> t \<and> t \<in> set rs \<and> length ws < length rs"
  by (induction rs arbitrary: ws t) (fastforce simp: Let_def split: if_splits)+

lemma sleep_until_returns: "(\<exists>t\<in>set rs. d \<le> t) \<Longrightarrow> \<exists>r. sleep_until_ns d rs = Some r"
  by (induction rs) (auto simp: Let_def)

text \<open>A sleep never overshoots the deadline by itself: it leaves the spin threshold.\<close>

lemma sleep_until_margin:
  assumes "now < d" and "SPIN_THRESHOLD_NS < d - now"
  shows "unat now + unat (d - now - SPIN_THRESHOLD_NS) + unat SPIN_THRESHOLD_NS = unat d"
proof -
  have "unat (d - now) = unat d - unat now" and "unat now \<le> unat d"
    using assms(1) by (simp_all add: unat_sub word_less_nat_alt order.strict_implies_order)
  moreover have "unat (d - now - SPIN_THRESHOLD_NS) = unat (d - now) - unat SPIN_THRESHOLD_NS"
    and "unat SPIN_THRESHOLD_NS \<le> unat (d - now)"
    using assms(2) by (simp_all only: unat_sub word_less_nat_alt word_le_nat_alt order.strict_implies_order)
  ultimately show ?thesis by linarith
qed

section \<open>Pinning\<close>

definition CPU_SETSIZE :: nat where "CPU_SETSIZE = 1024"

definition cpu_mask :: "nat list \<Rightarrow> nat set" where
  "cpu_mask cores = {c \<in> set cores. c < CPU_SETSIZE}"

text \<open>The mask handed to the kernel, if any, and the result, given the kernel's answer.\<close>

definition pin_current_thread :: "nat list \<Rightarrow> int \<Rightarrow> nat set option \<times> bool" where
  "pin_current_thread cores ret =
     (if cores = [] then (None, False)
      else if cpu_mask cores = {} then (None, False)
      else (Some (cpu_mask cores), ret = 0))"

definition pin_pid :: "nat list \<Rightarrow> int \<Rightarrow> nat set option \<times> bool" where
  "pin_pid cores ret =
     (if cores = [] then (None, False)
      else if cpu_mask cores = {} then (None, False)
      else (Some (cpu_mask cores), ret = 0))"

definition current_affinity :: "int \<Rightarrow> nat set \<Rightarrow> nat list" where
  "current_affinity ret cpus = (if ret = 0 then filter (\<lambda>c. c \<in> cpus) [0..<CPU_SETSIZE] else [])"

section \<open>Partitioning the cores\<close>

function shrink_counts :: "nat \<Rightarrow> nat \<Rightarrow> nat list \<Rightarrow> nat \<times> nat list" where
  "shrink_counts usable assigned counts =
     (if usable < assigned
      then (case max_by snd (filter (\<lambda>x. 1 < snd x) (enumerate 0 counts)) of
              None \<Rightarrow> (assigned, counts)
            | Some (idx, _) \<Rightarrow> shrink_counts usable (assigned - 1) (counts[idx := counts ! idx - 1]))
      else (assigned, counts))"
  by pat_completeness auto
termination
  by (relation "measure (\<lambda>(usable, assigned, counts). assigned)") auto

declare shrink_counts.simps [simp del]

function grow_counts :: "nat \<Rightarrow> nat \<Rightarrow> nat list \<Rightarrow> nat list \<Rightarrow> nat list" where
  "grow_counts usable assigned weights counts =
     (if assigned < usable
      then let idx = (case max_by snd (enumerate 0 weights) of Some (i, _) \<Rightarrow> i | None \<Rightarrow> 0)
           in grow_counts usable (assigned + 1) weights (counts[idx := counts ! idx + 1])
      else counts)"
  by pat_completeness auto
termination
  by (relation "measure (\<lambda>(usable, assigned, weights, counts). usable - assigned)") auto

declare grow_counts.simps [simp del]

fun hand_out :: "nat \<Rightarrow> nat list \<Rightarrow> nat list list" where
  "hand_out nxt [] = []"
| "hand_out nxt (k # ks) = [nxt..<nxt + k] # hand_out (nxt + k) ks"

definition partition_cores :: "nat \<Rightarrow> nat list \<Rightarrow> nat list list" where
  "partition_cores total_cores weights =
     (let groups = length weights in
      if groups = 0 then []
      else let reserve = (if 4 \<le> total_cores then 1 else 0);
               usable = total_cores - reserve
           in if usable < groups then replicate groups []
              else let weight_sum = sum_list (map (\<lambda>w. max w 1) weights);
                       counts = map (\<lambda>w. max (usable * max w 1 div weight_sum) 1) weights;
                       (assigned, counts) = shrink_counts usable (sum_list counts) counts
                   in hand_out reserve (grow_counts usable assigned weights counts))"

lemma max_by_index:
  "max_by snd (filter P (enumerate 0 xs)) = Some (i, v) \<Longrightarrow> i < length xs \<and> xs ! i = v \<and> P (i, v)"
  using max_by_in [of snd "filter P (enumerate 0 xs)" "(i, v)"] by (auto simp: in_set_enumerate_eq)

lemma sum_list_update_nat:
  "i < length xs \<Longrightarrow> sum_list (xs[i := v]) + xs ! i = sum_list xs + (v :: nat)"
  by (induction xs arbitrary: i) (auto split: nat.split)

lemma shrink_counts_exact:
  assumes "assigned = sum_list counts" and "\<forall>k\<in>set counts. 1 \<le> k" and "length counts \<le> usable"
    and "shrink_counts usable assigned counts = (assigned', counts')"
  shows "assigned' = sum_list counts' \<and> (\<forall>k\<in>set counts'. 1 \<le> k) \<and> length counts' = length counts
     \<and> assigned' \<le> usable"
  using assms
proof (induction usable assigned counts rule: shrink_counts.induct)
  case (1 usable assigned counts)
  show ?case
  proof (cases "usable < assigned")
    case False
    then show ?thesis using "1.prems" by (subst (asm) shrink_counts.simps) auto
  next
    case True
    show ?thesis
    proof (cases "max_by snd (filter (\<lambda>x. 1 < snd x) (enumerate 0 counts))")
      case None
      then have "\<not> 1 < counts ! i" if "i < length counts" for i
        using that in_set_enumerate_eq [of "(i, counts ! i)" 0 counts] by (auto simp: filter_empty_conv)
      then have "\<forall>k\<in>set counts. \<not> 1 < k" by (metis in_set_conv_nth)
      then have "\<forall>k\<in>set counts. k = 1" using "1.prems"(2) by (metis le_neq_implies_less)
      then have "counts = replicate (length counts) 1" by (intro replicate_eqI) auto
      then have "sum_list counts = sum_list (replicate (length counts) (1 :: nat))" by (rule arg_cong)
      then have "sum_list counts = length counts" by (simp only: sum_list_replicate) simp
      then show ?thesis using True "1.prems"(1,3) by simp
    next
      case (Some x)
      obtain i v where x: "x = (i, v)" by (cases x)
      from max_by_index [OF Some [unfolded x]] have i: "i < length counts" "1 < counts ! i" by auto
      let ?c = "counts[i := counts ! i - 1]"
      have "assigned - 1 = sum_list ?c"
        using sum_list_update_nat [OF i(1), of "counts ! i - 1"] "1.prems"(1) i(2) by simp
      moreover have "\<forall>k\<in>set ?c. 1 \<le> k"
        using "1.prems"(2) i by (auto dest!: set_update_subset_insert [THEN subsetD])
      moreover have "length ?c \<le> usable" using "1.prems"(3) by simp
      moreover have "shrink_counts usable (assigned - 1) ?c = (assigned', counts')"
        using "1.prems"(4) True Some x by (subst (asm) shrink_counts.simps) simp
      ultimately show ?thesis using "1.IH" [OF True Some x [symmetric]] x by auto
    qed
  qed
qed

lemma grow_counts_exact:
  assumes "assigned = sum_list counts" and "\<forall>k\<in>set counts. 1 \<le> k" and "length weights = length counts"
    and "counts \<noteq> []" and "assigned \<le> usable"
  shows "sum_list (grow_counts usable assigned weights counts) = usable
     \<and> (\<forall>k\<in>set (grow_counts usable assigned weights counts). 1 \<le> k)
     \<and> length (grow_counts usable assigned weights counts) = length counts"
  using assms
proof (induction usable assigned weights counts rule: grow_counts.induct)
  case (1 usable assigned weights counts)
  show ?case
  proof (cases "assigned < usable")
    case False
    then show ?thesis using "1.prems" by (subst (1 2 3) grow_counts.simps) auto
  next
    case True
    let ?i = "case max_by snd (enumerate 0 weights) of Some (i, _) \<Rightarrow> i | None \<Rightarrow> 0"
    have i: "?i < length counts"
      using "1.prems"(3,4) max_by_index [of "\<lambda>_. True" weights] by (auto split: option.split)
    let ?c = "counts[?i := counts ! ?i + 1]"
    have "assigned + 1 = sum_list ?c"
      using sum_list_update_nat [OF i, of "counts ! ?i + 1"] "1.prems"(1) by simp
    moreover have "\<forall>k\<in>set ?c. 1 \<le> k"
      using "1.prems"(2) by (auto dest!: set_update_subset_insert [THEN subsetD])
    moreover have "grow_counts usable assigned weights counts = grow_counts usable (assigned + 1) weights ?c"
      using True by (subst grow_counts.simps) (simp add: Let_def)
    ultimately show ?thesis using "1.IH" [OF True refl] "1.prems"(3,4) True by simp
  qed
qed

lemma hand_out_concat: "concat (hand_out nxt ks) = [nxt..<nxt + sum_list ks]"
proof (induction ks arbitrary: nxt)
  case Nil
  then show ?case by simp
next
  case (Cons k ks)
  then show ?case using upt_add_eq_append [of nxt "nxt + k" "sum_list ks"] by (simp add: add.assoc)
qed

lemma hand_out_lengths: "map length (hand_out nxt ks) = ks"
  by (induction ks arbitrary: nxt) auto

text \<open>
  Core pools never overlap and waste nothing: for every host size and weighting, there is one pool
  per weight; either there are too few cores and every pool is empty (run unpinned), or every pool has a
  core and the pools laid end to end are exactly the cores from the reserved one up, each core once.
\<close>

theorem partition_cores_exact:
  "let ps = partition_cores total_cores weights; reserve = (if 4 \<le> total_cores then 1 else 0) in
     length ps = length weights
   \<and> (if total_cores - reserve < length weights then \<forall>p\<in>set ps. p = []
      else weights = [] \<or> concat ps = [reserve..<total_cores] \<and> [] \<notin> set ps)"
proof -
  define reserve where "reserve = (if 4 \<le> total_cores then 1 else 0 :: nat)"
  let ?u = "total_cores - reserve" and ?ps = "partition_cores total_cores weights"
  have "length ?ps = length weights
   \<and> (if ?u < length weights then \<forall>p\<in>set ?ps. p = []
      else weights = [] \<or> concat ?ps = [reserve..<total_cores] \<and> [] \<notin> set ?ps)"
  proof (cases "weights = [] \<or> ?u < length weights")
    case True
    then show ?thesis by (auto simp: partition_cores_def Let_def reserve_def)
  next
    case False
    define c0 where "c0 = map (\<lambda>w. max (?u * max w 1 div sum_list (map (\<lambda>w. max w 1) weights)) 1) weights"
    obtain a c1 where s: "shrink_counts ?u (sum_list c0) c0 = (a, c1)" by (metis surj_pair)
    define c2 where "c2 = grow_counts ?u a weights c1"
    have ps: "?ps = hand_out reserve c2"
      using False s by (simp add: partition_cores_def Let_def reserve_def c0_def c2_def)
    have "a = sum_list c1 \<and> (\<forall>k\<in>set c1. 1 \<le> k) \<and> length c1 = length c0 \<and> a \<le> ?u"
      by (rule shrink_counts_exact [OF refl _ _ s]) (use False in \<open>auto simp: c0_def\<close>)
    then have c1: "a = sum_list c1" "\<forall>k\<in>set c1. 1 \<le> k" "length weights = length c1" "a \<le> ?u"
      by (simp_all add: c0_def)
    moreover have "c1 \<noteq> []" using c1(3) False by auto
    ultimately have c2: "sum_list c2 = ?u \<and> (\<forall>k\<in>set c2. 1 \<le> k) \<and> length c2 = length weights"
      unfolding c2_def using grow_counts_exact by metis
    have "reserve \<le> total_cores" by (simp add: reserve_def)
    then have "concat ?ps = [reserve..<total_cores]" using c2 by (simp add: ps hand_out_concat)
    moreover have "length ?ps = length weights"
      using c2 hand_out_lengths [of reserve c2] unfolding ps by (metis length_map)
    moreover have "[] \<notin> set ?ps"
    proof
      assume "[] \<in> set ?ps"
      then have "0 \<in> set (map length ?ps)" by force
      then show False using c2 unfolding ps hand_out_lengths by auto
    qed
    ultimately show ?thesis using False by simp
  qed
  then show ?thesis unfolding Let_def reserve_def .
qed

lemma partition_cores_exact_witness:
  "concat (partition_cores 20 [2, 1, 1]) = [1..<20] \<and> [] \<notin> set (partition_cores 20 [2, 1, 1])"
  using partition_cores_exact [of 20 "[2, 1, 1]"] by (simp add: Let_def)

end
