(* ===== verification/Capacity.thy ===== *)
theory Capacity
  imports Engine
begin

text \<open>
  What the harness can do and what the device under test can do: the calibration gate of
  \<open>src/src/run/calibrate.rs\<close> and the saturation sweep of \<open>src/src/run/saturation.rs\<close>. A probe or a sweep
  point is a call of \<open>run_once\<close>; its results are arguments.
\<close>

section \<open>Headroom\<close>

definition HEADROOM_MIN :: f64 where "HEADROOM_MIN = Fin 3"
definition CPU_SATURATION_RATIO :: f64 where "CPU_SATURATION_RATIO = Fin (85 / 100)"
definition HOT_THREAD_SATURATION_PCT :: f64 where "HOT_THREAD_SATURATION_PCT = Fin 90"
definition HOST_SATURATION_FRAC :: f64 where "HOST_SATURATION_FRAC = Fin (90 / 100)"
definition SUSPECT_CEILING_RATIO :: f64 where "SUSPECT_CEILING_RATIO = Fin (85 / 100)"

record ceiling_point =
  cl_transport :: string
  cl_message_bytes :: u32
  cl_connections :: nat
  cl_throughput_gbps :: f64
  cl_message_rate :: f64

record calibration =
  ca_ceiling_gbps :: f64
  ca_headroom :: f64
  ca_harness_limited :: bool
  ca_dut :: string
  ca_bottleneck :: string
  ca_ceiling_transport :: string

record cpu_signals =
  gw_pool_pct_p95 :: f64
  gw_pool_cores :: nat
  gw_hot_thread_pct_p95 :: f64
  host_busy_frac_p95 :: f64

definition headroom :: "f64 \<Rightarrow> f64 \<Rightarrow> f64" where
  "headroom ceiling_gbps measured_gbps =
     (if fle measured_gbps 0 then PInf else ceiling_gbps / measured_gbps)"

definition is_harness_limited :: "f64 \<Rightarrow> f64 \<Rightarrow> bool" where
  "is_harness_limited ceiling_gbps measured_gbps = flt (headroom ceiling_gbps measured_gbps) HEADROOM_MIN"

definition classify :: "f64 \<Rightarrow> f64 \<Rightarrow> cpu_signals option \<Rightarrow> bool \<times> string" where
  "classify ceiling_gbps measured_gbps cpu =
     (if (case cpu of
            None \<Rightarrow> False
          | Some c \<Rightarrow>
              let capacity_pct = f_of_nat (max (gw_pool_cores c) 1) * Fin 100
              in fle (CPU_SATURATION_RATIO * capacity_pct) (gw_pool_pct_p95 c)
               \<or> fle HOT_THREAD_SATURATION_PCT (gw_hot_thread_pct_p95 c))
      then (False, ''scg-cpu'')
      else if fle HEADROOM_MIN (headroom ceiling_gbps measured_gbps) then (False, ''scg'')
      else if (case cpu of None \<Rightarrow> False | Some c \<Rightarrow> fle HOST_SATURATION_FRAC (host_busy_frac_p95 c))
      then (True, ''host-saturated'')
      else (True, ''harness-io''))"

definition suspect_ceiling :: "f64 \<Rightarrow> f64 \<Rightarrow> bool" where
  "suspect_ceiling ceiling_gbps measured_gbps =
     (flt 0 measured_gbps \<and> flt (headroom ceiling_gbps measured_gbps) SUSPECT_CEILING_RATIO)"

definition calibration_baseline :: "f64 \<Rightarrow> f64 \<Rightarrow> calibration" where
  "calibration_baseline ceiling_gbps measured_gbps =
     \<lparr>ca_ceiling_gbps = ceiling_gbps, ca_headroom = headroom ceiling_gbps measured_gbps,
      ca_harness_limited = False, ca_dut = ''loopback'', ca_bottleneck = ''n/a'',
      ca_ceiling_transport = ''tcp''\<rparr>"

definition with_transport :: "string \<Rightarrow> calibration \<Rightarrow> calibration" where
  "with_transport name c = c\<lparr>ca_ceiling_transport := name\<rparr>"

definition for_scg :: "f64 \<Rightarrow> f64 \<Rightarrow> calibration" where
  "for_scg ceiling_gbps measured_gbps =
     (let (limited, bottleneck) = classify ceiling_gbps measured_gbps None
      in \<lparr>ca_ceiling_gbps = ceiling_gbps, ca_headroom = headroom ceiling_gbps measured_gbps,
          ca_harness_limited = limited, ca_dut = ''scg'', ca_bottleneck = bottleneck,
          ca_ceiling_transport = ''tcp''\<rparr>)"

definition for_scg_with_cpu :: "f64 \<Rightarrow> f64 \<Rightarrow> cpu_signals \<Rightarrow> calibration" where
  "for_scg_with_cpu ceiling_gbps measured_gbps cpu =
     (let (limited, bottleneck) = classify ceiling_gbps measured_gbps (Some cpu)
      in \<lparr>ca_ceiling_gbps = ceiling_gbps, ca_headroom = headroom ceiling_gbps measured_gbps,
          ca_harness_limited = limited, ca_dut = ''scg'', ca_bottleneck = bottleneck,
          ca_ceiling_transport = ''tcp''\<rparr>)"

section \<open>Ceiling probes\<close>

definition CEILING_WARMUP :: f64 where "CEILING_WARMUP = Fin (1 / 2)"
definition CEILING_MEASURE :: f64 where "CEILING_MEASURE = Fin 1"
definition CEILING_PROBES :: nat where "CEILING_PROBES = 2"

record probe_spec =
  pb_message_bytes :: u32
  pb_connections :: nat
  pb_warmup :: f64
  pb_measure :: f64
  pb_probes :: nat
  pb_sender_cores :: "nat list"
  pb_receiver_cores :: "nat list"

definition probe_for_params :: "run_params \<Rightarrow> probe_spec" where
  "probe_for_params p =
     \<lparr>pb_message_bytes = rn_message_bytes p, pb_connections = rn_connections p,
      pb_warmup = CEILING_WARMUP, pb_measure = CEILING_MEASURE, pb_probes = CEILING_PROBES,
      pb_sender_cores = rn_sender_cores p, pb_receiver_cores = rn_receiver_cores p\<rparr>"

definition ceiling_sender :: sender where
  "ceiling_sender = \<lparr>sn_interface = Tcp, sn_target_addr = [], sn_pattern = Sustained,
     sn_rate_limit_mbps = None, sn_interval_us = None, sn_burst_count = None,
     sn_burst_pause_us = None, sn_ramp_start_mbps = None, sn_ramp_step_mbps = None,
     sn_ramp_step_interval_secs = None\<rparr>"

definition probe_params :: "probe_spec \<Rightarrow> run_params" where
  "probe_params spec =
     \<lparr>rn_message_bytes = pb_message_bytes spec, rn_connections = max (pb_connections spec) 1,
      rn_runs = 1, rn_warmup = pb_warmup spec, rn_measure = pb_measure spec, rn_cooldown = 0,
      rn_remove_outliers = False, rn_sender_cores = pb_sender_cores spec,
      rn_receiver_cores = pb_receiver_cores spec, rn_sender = ceiling_sender,
      rn_mode = ModeThroughput\<rparr>"

text \<open>The loop of \<open>measure_ceiling\<close> keeps the best probe; an error ends it (\<open>collect_runs\<close>).\<close>

definition best_probe :: "flow_summary list \<Rightarrow> f64 \<times> f64" where
  "best_probe fss =
     foldl (\<lambda>(gbps, rate) fs. if flt gbps (fs_throughput_gbps fs)
              then (fs_throughput_gbps fs, fs_message_rate fs) else (gbps, rate)) (0, 0) fss"

definition measure_ceiling ::
  "string \<Rightarrow> probe_spec \<Rightarrow> (io_error + flow_summary \<times> f64 \<times> send_lag) list
   \<Rightarrow> (io_error + ceiling_point) option" where
  "measure_ceiling transport spec results =
     map_option (map_sum id (\<lambda>rs.
       (let (gbps, rate) = best_probe (map fst rs)
        in \<lparr>cl_transport = transport, cl_message_bytes = pb_message_bytes spec,
            cl_connections = rn_connections (probe_params spec),
            cl_throughput_gbps = gbps, cl_message_rate = rate\<rparr>)))
     (collect_runs (max (pb_probes spec) 1) results)"

definition record_overhead_ns :: "u64 \<Rightarrow> u64 \<Rightarrow> u64 \<Rightarrow> f64" where
  "record_overhead_ns iters t0 t1 =
     (if iters = 0 then 0 else f_of_word (sat_sub t1 t0) / f_of_word iters)"

section \<open>The saturation sweep\<close>

record sweep_point =
  sp_offered_mbps :: f64
  sp_throughput_gbps :: f64
  sp_loss_pct :: f64
  sp_latency_p99_us :: f64

record sweep_plan =
  pl_start_mbps :: f64
  pl_step_mbps :: f64
  pl_max_mbps :: f64
  pl_loss_threshold_pct :: f64

record sweep_result =
  sr_points :: "sweep_point list"
  sr_saturation_gbps :: f64
  sr_max_lossfree_gbps :: f64
  sr_knee_offered_mbps :: f64

definition sustained_at :: "sender \<Rightarrow> f64 \<Rightarrow> sender" where
  "sustained_at base rate_mbps = base\<lparr>sn_pattern := Sustained, sn_rate_limit_mbps := Some rate_mbps\<rparr>"

definition sweep_start :: "sweep_plan \<Rightarrow> f64" where
  "sweep_start plan = fmax (pl_start_mbps plan) 0"

definition sweep_n_points :: "sweep_plan \<Rightarrow> nat" where
  "sweep_n_points plan =
     min (if flt 0 (pl_step_mbps plan)
          then (f_to_nat (ffloor (fmax (pl_max_mbps plan - sweep_start plan) 0 / pl_step_mbps plan)) + 1) mod 2 ^ 64
          else 1)
       10000"

definition sweep_rate :: "sweep_plan \<Rightarrow> nat \<Rightarrow> f64" where
  "sweep_rate plan i = sweep_start plan + f_of_nat i * pl_step_mbps plan"

definition sweep_params :: "run_params \<Rightarrow> sweep_plan \<Rightarrow> nat \<Rightarrow> run_params" where
  "sweep_params base plan i =
     base\<lparr>rn_runs := 1, rn_sender := sustained_at (rn_sender base) (sweep_rate plan i)\<rparr>"

definition sweep_point_of :: "sweep_plan \<Rightarrow> nat \<Rightarrow> flow_summary \<Rightarrow> sweep_point" where
  "sweep_point_of plan i summary =
     \<lparr>sp_offered_mbps = sweep_rate plan i, sp_throughput_gbps = fs_throughput_gbps summary,
      sp_loss_pct = fs_loss_pct summary, sp_latency_p99_us = sm_p99 (fs_latency_us summary)\<rparr>"

definition sweep_reduce :: "sweep_plan \<Rightarrow> sweep_point list \<Rightarrow> sweep_result" where
  "sweep_reduce plan points =
     (let knee = max_by sp_throughput_gbps (filter (\<lambda>p. fle (sp_loss_pct p) (pl_loss_threshold_pct plan)) points)
      in \<lparr>sr_points = points,
          sr_saturation_gbps = foldl fmax 0 (map sp_throughput_gbps points),
          sr_max_lossfree_gbps = (case knee of None \<Rightarrow> 0 | Some p \<Rightarrow> sp_throughput_gbps p),
          sr_knee_offered_mbps = (case knee of None \<Rightarrow> 0 | Some p \<Rightarrow> sp_offered_mbps p)\<rparr>)"

text \<open>\<open>run i params\<close> is what \<open>run_once\<close> answers for point \<open>i\<close>.\<close>

fun sweep_points ::
  "(nat \<Rightarrow> run_params \<Rightarrow> io_error + flow_summary \<times> f64 \<times> send_lag) \<Rightarrow> run_params \<Rightarrow> sweep_plan
   \<Rightarrow> nat list \<Rightarrow> io_error + sweep_point list" where
  "sweep_points run base plan [] = Inr []"
| "sweep_points run base plan (i # is) =
     (case run i (sweep_params base plan i) of
        Inl e \<Rightarrow> Inl e
      | Inr (summary, _, _) \<Rightarrow>
          map_sum id ((#) (sweep_point_of plan i summary)) (sweep_points run base plan is))"

definition sweep_saturation ::
  "(nat \<Rightarrow> run_params \<Rightarrow> io_error + flow_summary \<times> f64 \<times> send_lag) \<Rightarrow> run_params \<Rightarrow> sweep_plan
   \<Rightarrow> io_error + sweep_result" where
  "sweep_saturation run base plan =
     map_sum id (sweep_reduce plan) (sweep_points run base plan [0..<sweep_n_points plan])"

section \<open>What the gate says\<close>

lemma headroom_Fin: "0 < m \<Longrightarrow> headroom (Fin c) (Fin m) = Fin (c / m)"
  by (simp add: headroom_def f64_simps)

text \<open>A row is marked harness-limited exactly when its label says so.\<close>

lemma classify_label:
  "fst (classify c m cpu) \<longleftrightarrow> snd (classify c m cpu) \<in> {''host-saturated'', ''harness-io''}"
  by (simp add: classify_def)

lemma classify_gate:
  assumes "0 < m"
  shows "fst (classify (Fin c) (Fin m) None) \<longleftrightarrow> c < 3 * m"
proof -
  have "3 \<le> c / m \<longleftrightarrow> 3 * m \<le> c" using assms by (simp add: pos_le_divide_eq)
  then show ?thesis using assms by (auto simp: classify_def HEADROOM_MIN_def headroom_Fin f64_simps)
qed

lemma best_probe_max:
  assumes "best_probe fss = (g, r)"
  shows "(g, r) = (0, 0) \<or> (\<exists>fs\<in>set fss. g = fs_throughput_gbps fs \<and> r = fs_message_rate fs)"
    and "\<forall>fs\<in>set fss. fs_throughput_gbps fs = NaN \<or> fs_throughput_gbps fs \<le> g"
    and "0 \<le> g \<and> g \<noteq> NaN"
proof -
  have "\<forall>fs\<in>set fss. fs_throughput_gbps fs = NaN \<or> fs_throughput_gbps fs \<le> fst (best_probe fss)"
    and "best_probe fss = (0, 0) \<or> (\<exists>fs\<in>set fss. best_probe fss = (fs_throughput_gbps fs, fs_message_rate fs))"
    and "0 \<le> fst (best_probe fss) \<and> fst (best_probe fss) \<noteq> NaN"
    by (induction fss rule: rev_induct)
      (auto simp: best_probe_def flt_def zero_f64_def split_beta)
  then show "(g, r) = (0, 0) \<or> (\<exists>fs\<in>set fss. g = fs_throughput_gbps fs \<and> r = fs_message_rate fs)"
    and "\<forall>fs\<in>set fss. fs_throughput_gbps fs = NaN \<or> fs_throughput_gbps fs \<le> g"
    and "0 \<le> g \<and> g \<noteq> NaN"
    using assms by auto
qed

section \<open>What the sweep finds\<close>

lemma sweep_points_nth:
  "sweep_points run base plan is = Inr ps \<Longrightarrow> length ps = length is \<and>
     (\<forall>k<length is. \<exists>s h l. run (is ! k) (sweep_params base plan (is ! k)) = Inr (s, h, l)
        \<and> ps ! k = sweep_point_of plan (is ! k) s)"
proof (induction "is" arbitrary: ps)
  case Nil
  then show ?case by simp
next
  case (Cons i js)
  obtain s h l where s: "run i (sweep_params base plan i) = Inr (s, h, l)"
    using Cons.prems by (auto split: sum.splits)
  obtain qs where qs: "sweep_points run base plan js = Inr qs" "ps = sweep_point_of plan i s # qs"
    using Cons.prems s by auto
  show ?case
  proof (intro conjI allI impI)
    show "length ps = length (i # js)" using Cons.IH [OF qs(1)] qs(2) by simp
    show "\<exists>s h l. run ((i # js) ! k) (sweep_params base plan ((i # js) ! k)) = Inr (s, h, l)
        \<and> ps ! k = sweep_point_of plan ((i # js) ! k) s" if "k < length (i # js)" for k
      using that Cons.IH [OF qs(1)] qs(2) s by (cases k) auto
  qed
qed

lemma foldl_fmax:
  "a \<noteq> NaN \<Longrightarrow> foldl fmax a xs \<noteq> NaN \<and> a \<le> foldl fmax a xs
     \<and> (\<forall>x\<in>set xs. x = NaN \<or> x \<le> foldl fmax a xs)"
proof (induction xs arbitrary: a)
  case Nil
  then show ?case by simp
next
  case (Cons x xs)
  have "fmax a x \<noteq> NaN" "a \<le> fmax a x" "x = NaN \<or> x \<le> fmax a x"
    using Cons.prems by (auto simp: fmax_def max_def)
  then show ?case using Cons.IH [of "fmax a x"] by (auto intro: order_trans)
qed

lemma sweep_n_points_Fin:
  assumes "pl_step_mbps plan = Fin d" and "0 < d" and "sweep_start plan = Fin a" and "pl_max_mbps plan = Fin b"
    and "a \<le> b" and "(b - a) / d < 9999"
  shows "sweep_n_points plan = nat \<lfloor>(b - a) / d\<rfloor> + 1"
proof -
  let ?q = "(b - a) / d"
  have q: "0 \<le> ?q" using assms by simp
  have "nat \<lfloor>?q\<rfloor> < 9999" using assms(6) q by linarith
  moreover have "f_to_nat (Fin (of_int \<lfloor>?q\<rfloor>)) = nat \<lfloor>?q\<rfloor>" using calculation by simp
  moreover have "fmax (Fin b - Fin a) 0 / Fin d = Fin ?q"
    using assms(2,5) by (simp add: f64_simps)
  ultimately show ?thesis
    using assms by (simp add: sweep_n_points_def f64_simps)
qed

text \<open>
  A sweep measures the grid it was asked for and reports what it saw: from the start rate in equal
  steps to the last rate not above the maximum, one sustained run each at exactly that rate, nothing in
  between left out; the saturation figure is the best goodput of the curve; and the knee is a point
  within the loss budget that no other point within the budget beats, or zero when there is none.
\<close>

theorem sweep_correct:
  assumes "sweep_saturation run base plan = Inr res"
    and "pl_start_mbps plan = Fin a" and "pl_step_mbps plan = Fin d" and "pl_max_mbps plan = Fin b"
    and "0 \<le> a" and "0 < d" and "a \<le> b" and "(b - a) / d < 9999"
  shows "let ps = sr_points res; ok = filter (\<lambda>p. fle (sp_loss_pct p) (pl_loss_threshold_pct plan)) ps in
       (\<forall>k<length ps. sp_offered_mbps (ps ! k) = Fin (a + real k * d) \<and> a + real k * d \<le> b
          \<and> (\<exists>s h l. run k (base\<lparr>rn_runs := 1, rn_sender := sustained_at (rn_sender base) (Fin (a + real k * d))\<rparr>) = Inr (s, h, l)
              \<and> sp_throughput_gbps (ps ! k) = fs_throughput_gbps s \<and> sp_loss_pct (ps ! k) = fs_loss_pct s))
     \<and> b < a + real (length ps) * d
     \<and> (\<forall>p\<in>set ps. sp_throughput_gbps p = NaN \<or> sp_throughput_gbps p \<le> sr_saturation_gbps res)
     \<and> (if ok = [] then sr_max_lossfree_gbps res = 0 \<and> sr_knee_offered_mbps res = 0
        else \<exists>p\<in>set ok. sr_max_lossfree_gbps res = sp_throughput_gbps p \<and> sr_knee_offered_mbps res = sp_offered_mbps p
               \<and> (\<forall>p'\<in>set ok. sp_throughput_gbps p' \<le> sp_throughput_gbps p))"
proof -
  let ?n = "sweep_n_points plan" and ?q = "(b - a) / d"
  obtain ps where ps: "sweep_points run base plan [0..<?n] = Inr ps" "res = sweep_reduce plan ps"
    using assms(1) by (auto simp: sweep_saturation_def)
  have start: "sweep_start plan = Fin a" using assms(2,5) by (simp add: sweep_start_def f64_simps)
  have n: "?n = nat \<lfloor>?q\<rfloor> + 1" by (rule sweep_n_points_Fin [OF assms(3,6) start assms(4,7,8)])
  have rate: "sweep_rate plan k = Fin (a + real k * d)" for k
    by (simp add: sweep_rate_def start assms(3) f64_simps)
  have len: "length ps = ?n" using sweep_points_nth [OF ps(1)] by simp
  have fl: "real (nat \<lfloor>?q\<rfloor>) = of_int \<lfloor>?q\<rfloor>" using assms(6,7) by simp
  have 1: "sp_offered_mbps (ps ! k) = Fin (a + real k * d) \<and> a + real k * d \<le> b
          \<and> (\<exists>s h l. run k (base\<lparr>rn_runs := 1, rn_sender := sustained_at (rn_sender base) (Fin (a + real k * d))\<rparr>) = Inr (s, h, l)
              \<and> sp_throughput_gbps (ps ! k) = fs_throughput_gbps s \<and> sp_loss_pct (ps ! k) = fs_loss_pct s)"
    if "k < length ps" for k
  proof -
    have "k < length [0..<?n]" and upt: "[0..<?n] ! k = k" using that len by simp_all
    from sweep_points_nth [OF ps(1), THEN conjunct2, rule_format, OF this(1)]
    obtain s h l where s: "run k (sweep_params base plan k) = Inr (s, h, l)" "ps ! k = sweep_point_of plan k s"
      unfolding upt by blast
    have "real k \<le> real (nat \<lfloor>?q\<rfloor>)" using that len n by simp
    then have "real k \<le> ?q" unfolding fl by linarith
    then have "real k * d \<le> b - a" using assms(6) by (simp add: pos_le_divide_eq)
    then show ?thesis using s by (simp add: sweep_point_of_def sweep_params_def rate)
  qed
  have "?q < real (nat \<lfloor>?q\<rfloor>) + 1" unfolding fl by linarith
  then have "b - a < real (length ps) * d" using assms(6) by (simp add: len n pos_divide_less_eq algebra_simps)
  then have 2: "b < a + real (length ps) * d" by linarith
  have 3: "\<forall>p\<in>set ps. sp_throughput_gbps p = NaN \<or> sp_throughput_gbps p \<le> sr_saturation_gbps res"
    using foldl_fmax [of 0 "map sp_throughput_gbps ps"] by (auto simp: ps(2) sweep_reduce_def Let_def zero_f64_def)
  let ?ok = "filter (\<lambda>p. fle (sp_loss_pct p) (pl_loss_threshold_pct plan)) ps"
  have 4: "if ?ok = [] then sr_max_lossfree_gbps res = 0 \<and> sr_knee_offered_mbps res = 0
        else \<exists>p\<in>set ?ok. sr_max_lossfree_gbps res = sp_throughput_gbps p \<and> sr_knee_offered_mbps res = sp_offered_mbps p
               \<and> (\<forall>p'\<in>set ?ok. sp_throughput_gbps p' \<le> sp_throughput_gbps p)"
  proof (cases "max_by sp_throughput_gbps ?ok")
    case None
    then have "?ok = []" by (simp only: max_by_None)
    then show ?thesis by (simp add: ps(2) sweep_reduce_def Let_def max_by_def)
  next
    case (Some p)
    then have "?ok \<noteq> []" by (metis max_by_None option.distinct(1))
    moreover have "p \<in> set ?ok" using max_by_in [OF Some] .
    moreover have "\<forall>p'\<in>set ?ok. sp_throughput_gbps p' \<le> sp_throughput_gbps p"
      using max_by_le [OF Some] by blast
    ultimately show ?thesis using Some by (auto simp: ps(2) sweep_reduce_def Let_def)
  qed
  have pts: "sr_points res = ps" by (simp add: ps(2) sweep_reduce_def Let_def)
  show ?thesis unfolding Let_def pts
    by (rule conjI, (rule allI, rule impI, erule 1), rule conjI, rule 2, rule conjI, rule 3, rule 4)
qed

lemma sweep_correct_witness:
  "\<exists>res. sweep_saturation (\<lambda>_ _. Inr (finish flow_new False, 0, send_lag_default))
      (probe_params (probe_for_params \<lparr>rn_message_bytes = 64, rn_connections = 1, rn_runs = 3, rn_warmup = 0,
         rn_measure = 1, rn_cooldown = 0, rn_remove_outliers = False, rn_sender_cores = [],
         rn_receiver_cores = [], rn_sender = ceiling_sender, rn_mode = ModeThroughput\<rparr>))
      \<lparr>pl_start_mbps = Fin 100, pl_step_mbps = Fin 100, pl_max_mbps = Fin 250, pl_loss_threshold_pct = Fin 1\<rparr> = Inr res
    \<and> 250 < 100 + real (length (sr_points res)) * 100"
  (is "\<exists>res. sweep_saturation ?run ?base ?plan = Inr res \<and> _")
proof -
  have "\<exists>ps. sweep_points ?run base plan is = Inr ps" for base plan "is"
    by (induction "is") auto
  then obtain res where res: "sweep_saturation ?run ?base ?plan = Inr res"
    unfolding sweep_saturation_def by (metis map_sum.simps(2))
  from sweep_correct [OF res, of 100 100 250] res show ?thesis by (auto simp: Let_def)
qed

text \<open>
  The number of points is computed before the cap is applied: when the quotient reaches the top of
  \<open>usize\<close> the increment wraps, and the sweep has no point at all.
\<close>

lemma sweep_wraps:
  assumes "pl_step_mbps plan = Fin d" and "0 < d" and "pl_start_mbps plan = Fin a" and "0 \<le> a"
    and "pl_max_mbps plan = Fin b" and "2 ^ 64 \<le> (b - a) / d"
  shows "sweep_n_points plan = 0"
proof -
  have "0 < (b - a) / d" using assms(6) by (rule less_le_trans [rotated]) simp
  then have ab: "a \<le> b" using assms(2) by (simp add: zero_less_divide_iff)
  have start: "sweep_start plan = Fin a" using assms(3,4) by (simp add: sweep_start_def f64_simps)
  have "(2 ^ 64 :: int) \<le> \<lfloor>(b - a) / d\<rfloor>" using assms(6) by (simp add: le_floor_iff)
  then have "nat (2 ^ 64) \<le> nat \<lfloor>(b - a) / d\<rfloor>" by (rule nat_mono)
  then have "2 ^ 64 - 1 \<le> nat \<lfloor>(b - a) / d\<rfloor>" by (simp add: nat_power_eq)
  then have "f_to_nat (Fin (of_int \<lfloor>(b - a) / d\<rfloor>)) = 2 ^ 64 - 1" by simp
  moreover have "fmax (Fin b - Fin a) 0 / Fin d = Fin ((b - a) / d)"
    using assms(2) ab by (simp add: f64_simps)
  ultimately show ?thesis using assms start by (simp add: sweep_n_points_def f64_simps)
qed

text \<open>
  C22: The calibration gate is consistent: without CPU signals a row through the gateway is marked
  harness-limited exactly when the ceiling is below three times the measured throughput; with them, a
  saturated gateway pool or thread always clears the mark, and the mark agrees with the label; a
  baseline row is never marked.
\<close>

theorem classify_gate_correct:
  assumes "0 < m"
  shows "(ca_harness_limited (for_scg (Fin c) (Fin m)) \<longleftrightarrow> c < 3 * m)
     \<and> (ca_harness_limited (for_scg_with_cpu (Fin c) (Fin m) cpu) \<longleftrightarrow>
          c < 3 * m
        \<and> \<not> fle (CPU_SATURATION_RATIO * (f_of_nat (max (gw_pool_cores cpu) 1) * Fin 100)) (gw_pool_pct_p95 cpu)
        \<and> \<not> fle HOT_THREAD_SATURATION_PCT (gw_hot_thread_pct_p95 cpu))
     \<and> (ca_harness_limited (for_scg_with_cpu (Fin c) (Fin m) cpu)
          = (ca_bottleneck (for_scg_with_cpu (Fin c) (Fin m) cpu) \<in> {''host-saturated'', ''harness-io''}))
     \<and> \<not> ca_harness_limited (calibration_baseline (Fin c) (Fin m))"
proof -
  have "3 \<le> c / m \<longleftrightarrow> 3 * m \<le> c" using assms by (simp add: pos_le_divide_eq)
  then have h: "fle HEADROOM_MIN (headroom (Fin c) (Fin m)) \<longleftrightarrow> \<not> c < 3 * m"
    using assms by (auto simp: HEADROOM_MIN_def headroom_Fin f64_simps)
  show ?thesis
    by (simp add: for_scg_def for_scg_with_cpu_def calibration_baseline_def split_beta classify_gate [OF assms]
        classify_label) (simp add: classify_def h Let_def)
qed

lemma classify_gate_correct_witness:
  "ca_harness_limited (for_scg (Fin 10) (Fin 9)) \<and> \<not> ca_harness_limited (for_scg (Fin 10) (Fin 2))"
  using classify_gate_correct [of 9 10] classify_gate_correct [of 2 10] by simp

end
