(* ===== verification/Streams.thy ===== *)
theory Streams
  imports Engine Dscp
begin

text \<open>
  Multi-stream scheduling, \<open>src/src/workload/streams.rs\<close>: the worker of each stream's receiver and
  sender, the DS-field tally, and the aggregation over streams. As in the run engine a worker is driven
  by the list of its turns, with the answers of the flags, the clock and the transport.
\<close>

section \<open>Configuration and results\<close>

record stream_config =
  sg_name :: string
  sg_traffic_class :: string
  sg_dscp_label :: string
  sg_dscp_tag :: "u8 option"
  sg_message_bytes :: u32
  sg_interval_us :: "u64 option"
  sg_sender_cores :: "nat list"
  sg_receiver_cores :: "nat list"

record stream_result =
  sr_name :: string
  sr_traffic_class :: string
  sr_dscp_label :: string
  sr_summary :: flow_summary
  sr_paced :: bool
  sr_send_lag_mean_us :: f64
  sr_send_lag_max_us :: f64
  sr_dscp_preserved :: "bool option"

record multi_stream_result =
  ms_streams :: "stream_result list"
  ms_fairness_ratio :: f64
  ms_safety_loss_free :: bool
  ms_safety_p99_us :: "f64 option"

definition SAFETY_CLASS :: string where "SAFETY_CLASS = ''safety''"

definition safety_streams :: "stream_result list \<Rightarrow> stream_result list" where
  "safety_streams streams = filter (\<lambda>s. sr_traffic_class s = SAFETY_CLASS) streams"

definition reduce_max :: "f64 list \<Rightarrow> f64 option" where
  "reduce_max xs = (case xs of [] \<Rightarrow> None | x # xs \<Rightarrow> Some (foldl fmax x xs))"

definition from_streams :: "stream_result list \<Rightarrow> multi_stream_result" where
  "from_streams streams =
     (let throughputs = map (fs_throughput_gbps \<circ> sr_summary) streams;
          fairness_ratio =
            (if throughputs = [] then 0
             else let lo = foldl fmin PInf throughputs; hi = foldl fmax 0 throughputs
                  in if flt 0 hi then lo / hi else 0)
      in \<lparr>ms_streams = streams, ms_fairness_ratio = fairness_ratio,
          ms_safety_loss_free =
            list_all (\<lambda>s. ig_lost (fs_integrity (sr_summary s)) = 0) (safety_streams streams),
          ms_safety_p99_us = reduce_max (map (sm_p99 \<circ> fs_latency_us \<circ> sr_summary) (safety_streams streams))\<rparr>)"

section \<open>The DS-field tally\<close>

record dscp_observation =
  do_observed :: u64
  do_matched :: u64

definition dscp_observation_default :: dscp_observation where
  "dscp_observation_default = \<lparr>do_observed = 0, do_matched = 0\<rparr>"

definition dscp_record :: "u8 \<Rightarrow> u8 \<Rightarrow> dscp_observation \<Rightarrow> dscp_observation" where
  "dscp_record tos expected d =
     \<lparr>do_observed = sat_add (do_observed d) 1,
      do_matched = (if tos_to_dscp tos = expected then sat_add (do_matched d) 1 else do_matched d)\<rparr>"

definition verdict :: "dscp_observation \<Rightarrow> bool option" where
  "verdict d = (if 0 < do_observed d then Some (do_matched d = do_observed d) else None)"

section \<open>The receiver of a stream\<close>

text \<open>Whether the marks are observed: a declared tag, a socket, and \<open>IP_RECVTOS\<close> accepted.\<close>

definition observe_dscp :: "u8 option \<Rightarrow> int option \<Rightarrow> (io_error + unit) \<Rightarrow> bool" where
  "observe_dscp expect_dscp fd enabled =
     (case (expect_dscp, fd) of (Some _, Some _) \<Rightarrow> (case enabled of Inr _ \<Rightarrow> True | Inl _ \<Rightarrow> False) | _ \<Rightarrow> False)"

record stream_rx_turn =
  sx_stop :: bool
  sx_result :: "io_error + recv_outcome \<times> u8 option"
  sx_buf :: "u8 list"
  sx_recv_ns :: u64
  sx_measuring :: bool

fun stream_receiver ::
  "u8 option \<Rightarrow> bool \<Rightarrow> nat \<Rightarrow> stream_rx_turn list \<Rightarrow> flow_metrics \<times> dscp_observation
   \<Rightarrow> (flow_metrics \<times> dscp_observation) option" where
  "stream_receiver expect observe msg_bytes [] st = None"
| "stream_receiver expect observe msg_bytes (t # ts) (m, d) =
     (if sx_stop t then Some (m, d)
      else (case sx_result t of
              Inr (Message n, tos) \<Rightarrow>
                (if \<not> sx_measuring t then stream_receiver expect observe msg_bytes ts (m, d)
                 else if length (sx_buf t) < n then None
                 else stream_receiver expect observe msg_bytes ts
                   (ingest_one msg_bytes (sx_recv_ns t) (take n (sx_buf t)) m,
                    case (expect, if observe then tos else None) of
                      (Some e, Some b) \<Rightarrow> dscp_record b e d
                    | _ \<Rightarrow> d))
            | Inr (Timeout, _) \<Rightarrow> stream_receiver expect observe msg_bytes ts (m, d)
            | Inr (Closed, _) \<Rightarrow> Some (m, d)
            | Inl _ \<Rightarrow> Some (m, d)))"

section \<open>The sender of a stream\<close>

record stream_tx_turn =
  sy_stop0 :: bool
  sy_woke :: u64
  sy_stop1 :: bool
  sy_sent :: "io_error + unit"
  sy_measuring :: bool

record stream_tx =
  sy_builder :: message_builder
  sy_seq :: u64
  sy_lag :: send_lag
  sy_out :: "u8 list list"

fun stream_paced :: "u64 \<Rightarrow> u64 \<Rightarrow> stream_tx_turn list \<Rightarrow> stream_tx \<Rightarrow> stream_tx option" where
  "stream_paced gap_ns next_ns [] st = None"
| "stream_paced gap_ns next_ns (t # ts) st =
     (if sy_stop0 t then Some st
      else if sy_stop1 t then Some st
      else (case build_at (sy_seq st) next_ns (sy_builder st) of
              None \<Rightarrow> None
            | Some (msg, b) \<Rightarrow>
                (case sy_sent t of
                   Inl _ \<Rightarrow> Some (st\<lparr>sy_builder := b\<rparr>)
                 | Inr _ \<Rightarrow>
                     stream_paced gap_ns (sat_add next_ns gap_ns) ts
                       \<lparr>sy_builder = b, sy_seq = sy_seq st + 1,
                        sy_lag = (if sy_measuring t then lag_record (sat_sub (sy_woke t) next_ns) (sy_lag st)
                                  else sy_lag st),
                        sy_out = sy_out st @ [msg]\<rparr>)))"

text \<open>A blasting stream's turn: the stop flag, the clock and the answer of the send.\<close>

fun stream_blast :: "(bool \<times> u64 \<times> (io_error + unit)) list \<Rightarrow> stream_tx \<Rightarrow> stream_tx option" where
  "stream_blast [] st = None"
| "stream_blast ((stop, now, sent) # ts) st =
     (if stop then Some st
      else (case build (sy_seq st) now (sy_builder st) of
              None \<Rightarrow> None
            | Some (msg, b) \<Rightarrow>
                (case sent of
                   Inl _ \<Rightarrow> Some (st\<lparr>sy_builder := b\<rparr>)
                 | Inr _ \<Rightarrow>
                     stream_blast ts (st\<lparr>sy_builder := b, sy_seq := sy_seq st + 1, sy_out := sy_out st @ [msg]\<rparr>))))"

definition stream_tx_start :: "u32 \<Rightarrow> stream_tx" where
  "stream_tx_start n = \<lparr>sy_builder = builder_new n, sy_seq = 0, sy_lag = send_lag_default, sy_out = []\<rparr>"

definition stream_sender ::
  "stream_config \<Rightarrow> u64 \<Rightarrow> stream_tx_turn list \<Rightarrow> (bool \<times> u64 \<times> (io_error + unit)) list
   \<Rightarrow> stream_tx option" where
  "stream_sender cfg now paced_turns blast_turns =
     (case map_option (\<lambda>us. sat_mul us 1000) (sg_interval_us cfg) of
        Some gap_ns \<Rightarrow>
          if 0 < gap_ns then stream_paced gap_ns now paced_turns (stream_tx_start (sg_message_bytes cfg))
          else stream_blast blast_turns (stream_tx_start (sg_message_bytes cfg))
      | None \<Rightarrow> stream_blast blast_turns (stream_tx_start (sg_message_bytes cfg)))"

section \<open>The run\<close>

datatype stream_error = PairMismatch nat nat | SenderPanicked string | ReceiverPanicked string

definition stream_result_of ::
  "f64 \<Rightarrow> stream_config \<Rightarrow> send_lag \<Rightarrow> flow_metrics \<times> dscp_observation \<Rightarrow> stream_result" where
  "stream_result_of measure_secs cfg lag rx =
     \<lparr>sr_name = sg_name cfg, sr_traffic_class = sg_traffic_class cfg, sr_dscp_label = sg_dscp_label cfg,
      sr_summary = finish (set_duration measure_secs (fst rx)) True,
      sr_paced = (sg_interval_us cfg \<noteq> None), sr_send_lag_mean_us = mean_us lag,
      sr_send_lag_max_us = max_us lag, sr_dscp_preserved = verdict (snd rx)\<rparr>"

text \<open>Collecting the results: what joining each stream's sender and receiver gave.\<close>

fun collect_streams ::
  "f64 \<Rightarrow> (stream_config \<times> send_lag option \<times> (flow_metrics \<times> dscp_observation) option) list
   \<Rightarrow> stream_error + stream_result list" where
  "collect_streams secs [] = Inr []"
| "collect_streams secs ((cfg, tx, rx) # js) =
     (case tx of
        None \<Rightarrow> Inl (SenderPanicked (sg_name cfg))
      | Some lag \<Rightarrow>
          (case rx of
             None \<Rightarrow> Inl (ReceiverPanicked (sg_name cfg))
           | Some r \<Rightarrow> map_sum id ((#) (stream_result_of secs cfg lag r)) (collect_streams secs js)))"

definition run_multi_stream ::
  "stream_config list \<Rightarrow> nat \<Rightarrow> f64 \<Rightarrow> (send_lag option \<times> (flow_metrics \<times> dscp_observation) option) list
   \<Rightarrow> stream_error + multi_stream_result" where
  "run_multi_stream configs n_pairs measure_secs joined =
     (if length configs \<noteq> n_pairs then Inl (PairMismatch (length configs) n_pairs)
      else map_sum id from_streams (collect_streams measure_secs (zip configs joined)))"

section \<open>What a stream's receiver records\<close>

text \<open>The messages a receiver takes into account: receive time, bytes, the TOS byte if reported.\<close>

fun stream_measured :: "stream_rx_turn list \<Rightarrow> (u64 \<times> u8 list \<times> u8 option) list" where
  "stream_measured [] = []"
| "stream_measured (t # ts) =
     (if sx_stop t then []
      else (case sx_result t of
              Inr (Message n, tos) \<Rightarrow>
                (if sx_measuring t then [(sx_recv_ns t, take n (sx_buf t), tos)] else []) @ stream_measured ts
            | Inr (Timeout, _) \<Rightarrow> stream_measured ts
            | _ \<Rightarrow> []))"

definition ingest_stream :: "nat \<Rightarrow> (u64 \<times> u8 list \<times> u8 option) list \<Rightarrow> flow_metrics \<Rightarrow> flow_metrics" where
  "ingest_stream msg_bytes ms = fold (\<lambda>(ns, msg, _). ingest_one msg_bytes ns msg) ms"

definition marks :: "(u64 \<times> u8 list \<times> u8 option) list \<Rightarrow> u8 list" where
  "marks ms = List.map_filter (\<lambda>(_, _, tos). tos) ms"

lemma marks_simps [simp]:
  "marks [] = []" "marks ((ns, msg, tos) # ms) = (case tos of None \<Rightarrow> marks ms | Some b \<Rightarrow> b # marks ms)"
  by (simp_all add: marks_def List.map_filter_def split: option.split)

lemma length_marks: "length (marks ms) \<le> length ms"
  by (induction ms) (auto split: option.split)

lemma length_stream_measured: "length (stream_measured ts) \<le> length ts"
  by (induction ts) (auto split: sum.split recv_outcome.split)

lemma stream_receiver_fold:
  assumes "stream_receiver expect observe n ts (m, d) = Some (m', d')"
  shows "m' = ingest_stream n (stream_measured ts) m
       \<and> d' = (case (expect, observe) of (Some e, True) \<Rightarrow> fold (\<lambda>b. dscp_record b e) (marks (stream_measured ts)) d
               | _ \<Rightarrow> d)"
  using assms
proof (induction ts arbitrary: m d)
  case Nil
  then show ?case by simp
next
  case (Cons t ts)
  show ?case
    using Cons.prems Cons.IH
    by (auto simp: ingest_stream_def split: if_splits sum.splits prod.splits recv_outcome.splits option.splits bool.splits)
qed

lemma dscp_fold:
  assumes "unat (do_observed d) + length bs < 2 ^ 64" and "do_matched d \<le> do_observed d"
  shows "let d' = fold (\<lambda>b. dscp_record b e) bs d in
           unat (do_observed d') = unat (do_observed d) + length bs
         \<and> unat (do_matched d') = unat (do_matched d) + length (filter (\<lambda>b. tos_to_dscp b = e) bs)"
  using assms
proof (induction bs arbitrary: d)
  case Nil
  then show ?case by simp
next
  case (Cons b bs)
  have le: "unat (do_matched d) \<le> unat (do_observed d)" using Cons.prems(2) by (simp add: word_le_nat_alt)
  have o: "unat (do_observed (dscp_record b e d)) = unat (do_observed d) + 1"
    and k: "unat (do_matched (dscp_record b e d)) = unat (do_matched d) + (if tos_to_dscp b = e then 1 else 0)"
    using Cons.prems(1) le by (auto simp: dscp_record_def unat_sat_add)
  have "do_matched (dscp_record b e d) \<le> do_observed (dscp_record b e d)"
    using o k le by (simp add: word_le_nat_alt split: if_splits)
  with Cons.IH [of "dscp_record b e d"] Cons.prems(1) o k show ?case
    by (auto simp: Let_def)
qed

lemma verdict_marks:
  assumes "length bs < 2 ^ 64"
  shows "verdict (fold (\<lambda>b. dscp_record b e) bs dscp_observation_default)
       = (if bs = [] then None else Some (\<forall>b\<in>set bs. tos_to_dscp b = e))"
proof -
  let ?d = "fold (\<lambda>b. dscp_record b e) bs dscp_observation_default"
  have o: "unat (do_observed ?d) = length bs"
    and k: "unat (do_matched ?d) = length (filter (\<lambda>b. tos_to_dscp b = e) bs)"
    using dscp_fold [of dscp_observation_default bs e] assms
    by (simp_all add: Let_def dscp_observation_default_def)
  have "0 < do_observed ?d \<longleftrightarrow> bs \<noteq> []" using o by (auto simp: word_less_nat_alt)
  moreover have "do_matched ?d = do_observed ?d \<longleftrightarrow> (\<forall>b\<in>set bs. tos_to_dscp b = e)"
    using o k length_filter_less [of _ bs "\<lambda>b. tos_to_dscp b = e"]
    by (auto simp: word_unat_eq_iff [of "do_matched _"]) blast
  ultimately show ?thesis by (simp add: verdict_def)
qed


section \<open>What a stream's sender puts on the wire\<close>

definition deadlines_from :: "u64 \<Rightarrow> u64 \<Rightarrow> nat \<Rightarrow> u64 list" where
  "deadlines_from nxt gap n = map (\<lambda>k. of_nat (min (unat nxt + k * unat gap) (2 ^ 64 - 1))) [0..<n]"

lemma deadlines_from_Suc [simp]:
  "deadlines_from nxt gap (Suc n) = nxt # deadlines_from (sat_add nxt gap) gap n"
proof -
  have *: "min (unat (sat_add nxt gap) + k * unat gap) (2 ^ 64 - 1) = min (unat nxt + (unat gap + k * unat gap)) (2 ^ 64 - 1)" for k
    by (simp add: unat_sat_add)
  have "nxt = of_nat (min (unat nxt) (2 ^ 64 - 1))"
    using unat_lt2p [of nxt] by (simp add: min_def)
  then show ?thesis
    by (simp add: deadlines_from_def upt_conv_Cons map_Suc_upt [symmetric] * [simplified] o_def del: upt_Suc)
qed

lemma length_deadlines [simp]: "length (deadlines_from nxt gap n) = n"
  by (simp add: deadlines_from_def)

definition stream_sent :: "stream_tx_turn list \<Rightarrow> stream_tx_turn list" where
  "stream_sent = takeWhile (\<lambda>t. \<not> sy_stop0 t \<and> \<not> sy_stop1 t \<and> sy_sent t = Inr ())"

lemma stream_paced_sent:
  assumes "stream_paced gap nxt ts st = Some st'" and "builder_ok (sy_builder st)"
  shows "let n = mb_payload_len (sy_builder st);
             ds = deadlines_from nxt gap (length (stream_sent ts)) in
         sy_out st' = sy_out st @ map message_bytes (numbered (sy_seq st) n ds)
       \<and> sy_seq st' = sy_seq st + of_nat (length (stream_sent ts))
       \<and> sy_lag st' = fold lag_record
           (map (\<lambda>(t, d). sat_sub (sy_woke t) d) (filter (sy_measuring \<circ> fst) (zip (stream_sent ts) ds))) (sy_lag st)"
  using assms
proof (induction ts arbitrary: nxt st)
  case Nil
  then show ?case by simp
next
  case (Cons t ts)
  show ?case
  proof (cases "\<not> sy_stop0 t \<and> \<not> sy_stop1 t \<and> sy_sent t = Inr ()")
    case True
    let ?n = "mb_payload_len (sy_builder st)"
    let ?msg = "message_bytes (stamp_at (sy_seq st) ?n nxt)"
    let ?st = "\<lparr>sy_builder = (sy_builder st)\<lparr>mb_buf := ?msg\<rparr>, sy_seq = sy_seq st + 1,
        sy_lag = (if sy_measuring t then lag_record (sat_sub (sy_woke t) nxt) (sy_lag st) else sy_lag st),
        sy_out = sy_out st @ [?msg]\<rparr>"
    have "stream_paced gap (sat_add nxt gap) ts ?st = Some st'"
      using Cons.prems True by (simp add: build_at_eq)
    note Cons.IH [OF this]
    moreover have "builder_ok (sy_builder ?st)"
      using Cons.prems(2) builder_ok_build by simp
    ultimately show ?thesis using True by (simp add: Let_def stream_sent_def)
  next
    case False
    then have "stream_sent (t # ts) = []" by (simp add: stream_sent_def)
    moreover have "sy_out st' = sy_out st \<and> sy_seq st' = sy_seq st \<and> sy_lag st' = sy_lag st"
      using Cons.prems False by (auto simp: build_at_eq split: if_splits sum.splits)
    ultimately show ?thesis by (simp add: deadlines_from_def)
  qed
qed


lemma stream_blast_sent:
  assumes "stream_blast ts st = Some st'" and "builder_ok (sy_builder st)"
  shows "let acc = takeWhile (\<lambda>(stop, _, sent). \<not> stop \<and> sent = Inr ()) ts in
         sy_out st' = sy_out st @ map message_bytes
           (numbered (sy_seq st) (mb_payload_len (sy_builder st)) (map (fst \<circ> snd) acc))
       \<and> sy_seq st' = sy_seq st + of_nat (length acc) \<and> sy_lag st' = sy_lag st"
  using assms
proof (induction ts arbitrary: st)
  case Nil
  then show ?case by simp
next
  case (Cons t ts)
  obtain stop now sent where t: "t = (stop, now, sent)" by (cases t) auto
  have b: "build (sy_seq st) now (sy_builder st)
      = Some (message_bytes (stamp_at (sy_seq st) (mb_payload_len (sy_builder st)) now),
          (sy_builder st)\<lparr>mb_buf := message_bytes (stamp_at (sy_seq st) (mb_payload_len (sy_builder st)) now)\<rparr>)"
    using build_at_eq [OF Cons.prems(2)] by (simp add: build_def build_at_def encode_message_def)
  show ?case
  proof (cases "\<not> stop \<and> sent = Inr ()")
    case True
    let ?msg = "message_bytes (stamp_at (sy_seq st) (mb_payload_len (sy_builder st)) now)"
    let ?st = "st\<lparr>sy_builder := (sy_builder st)\<lparr>mb_buf := ?msg\<rparr>, sy_seq := sy_seq st + 1,
        sy_out := sy_out st @ [?msg]\<rparr>"
    have "stream_blast ts ?st = Some st'" using Cons.prems True t b by simp
    note Cons.IH [OF this]
    moreover have "builder_ok (sy_builder ?st)"
      using Cons.prems(2) builder_ok_build by simp
    ultimately show ?thesis using True t by (simp add: Let_def)
  next
    case False
    then have "sy_out st' = sy_out st \<and> sy_seq st' = sy_seq st \<and> sy_lag st' = sy_lag st"
      using Cons.prems t b by (auto split: if_splits sum.splits)
    then show ?thesis using False t by auto
  qed
qed

text \<open>
  An interval of zero blasts, as no interval does, yet the result claims pacing.
\<close>

lemma zero_interval_blasts:
  assumes "sg_interval_us cfg = Some 0"
  shows "stream_sender cfg now pts bts = stream_sender (cfg\<lparr>sg_interval_us := None\<rparr>) now pts bts
       \<and> sr_paced (stream_result_of secs cfg lag rx)"
  using assms by (simp add: stream_sender_def stream_result_of_def sat_mul_def)

section \<open>The aggregates\<close>

lemma foldl_fmin_Fin: "foldl fmin (Fin a) (map Fin xs) = Fin (foldl min a xs)"
  and foldl_fmax_Fin: "foldl fmax (Fin a) (map Fin xs) = Fin (foldl max a xs)"
  by (induction xs arbitrary: a) (simp_all add: f64_simps)

lemma foldl_min_le: "foldl min a xs \<in> insert a (set xs) \<and> (\<forall>x\<in>insert a (set xs). foldl min a xs \<le> x)"
  and foldl_max_ge: "foldl max a xs \<in> insert a (set xs) \<and> (\<forall>x\<in>insert a (set xs). x \<le> foldl max a xs)"
  for a :: "'a::linorder"
  by (induction xs arbitrary: a) (fastforce simp: min_def max_def split: if_splits)+


lemma throughput_finite: "\<exists>r\<ge>0. throughput_gbps bytes (Fin secs) = Fin r"
proof (cases "secs \<le> 0")
  case True
  then show ?thesis by (simp add: throughput_gbps_def f64_simps)
next
  case False
  have "0 \<le> real (unat bytes) * 8 / 10 ^ 9 / secs"
    using False by (intro divide_nonneg_pos divide_nonneg_nonneg mult_nonneg_nonneg of_nat_0_le_iff) auto
  moreover have "throughput_gbps bytes (Fin secs) = Fin (real (unat bytes) * 8 / 10 ^ 9 / secs)"
    using False by (simp only: throughput_gbps_def f64_simps) (simp add: f64_simps)
  ultimately show ?thesis by blast
qed

lemma fmax_ge: "a \<noteq> NaN \<Longrightarrow> a \<le> fmax a b" "b \<noteq> NaN \<Longrightarrow> b \<le> fmax a b"
  and fmax_in: "fmax a b = a \<or> fmax a b = b"
  and fmax_NaN: "fmax a b = NaN \<longleftrightarrow> a = NaN \<and> b = NaN"
  by (auto simp: fmax_def max_def)

lemma foldl_fmax_ge:
  "foldl fmax x xs \<in> insert x (set xs) \<and> (\<forall>y\<in>insert x (set xs). y = NaN \<or> y \<le> foldl fmax x xs)"
proof (induction xs arbitrary: x)
  case Nil
  then show ?case by simp
next
  case (Cons z zs)
  have step: "y = NaN \<or> y \<le> foldl fmax (fmax x z) zs" if "y = x \<or> y = z" for y
  proof (cases "y = NaN")
    case False
    with that have "y \<le> fmax x z" "fmax x z \<noteq> NaN" by (auto simp: fmax_ge fmax_NaN)
    with Cons.IH [of "fmax x z"] show ?thesis by force
  qed simp
  moreover have "foldl fmax (fmax x z) zs \<in> insert x (insert z (set zs))"
    using Cons.IH [of "fmax x z"] fmax_in [of x z] by auto
  ultimately show ?case using Cons.IH [of "fmax x z"] by auto
qed

lemma reduce_max_correct:
  "case reduce_max xs of None \<Rightarrow> xs = []
   | Some p \<Rightarrow> p \<in> set xs \<and> (\<forall>x\<in>set xs. x = NaN \<or> x \<le> p)"
  using foldl_fmax_ge by (auto simp: reduce_max_def split: list.split)

lemma fairness_bounds:
  assumes "\<forall>s\<in>set ss. \<exists>r\<ge>0. fs_throughput_gbps (sr_summary s) = Fin r"
  shows "\<exists>q. ms_fairness_ratio (from_streams ss) = Fin q \<and> 0 \<le> q \<and> q \<le> 1
       \<and> (\<forall>s\<in>set ss. \<forall>t\<in>set ss. Fin q * fs_throughput_gbps (sr_summary t) \<le> fs_throughput_gbps (sr_summary s))"
proof -
  let ?t = "fs_throughput_gbps \<circ> sr_summary"
  have "\<forall>x\<in>set (map ?t ss). is_finite x" using assms by (auto simp: is_finite_def)
  then obtain rs where rs: "map ?t ss = map Fin rs" by (rule finite_list)
  have mem: "\<exists>r\<in>set rs. fs_throughput_gbps (sr_summary s) = Fin r" if "s \<in> set ss" for s
    using that arg_cong [OF rs, of set] by auto
  have "Fin r \<in> ?t ` set ss" if "r \<in> set rs" for r
    using that arg_cong [OF rs, of set] by auto
  then have pos: "0 \<le> r" if "r \<in> set rs" for r using that assms by fastforce
  show ?thesis
  proof (cases rs)
    case Nil
    then show ?thesis using rs mem by (auto simp: from_streams_def zero_f64_def Let_def)
  next
    case (Cons r rs')
    define lo hi where "lo = foldl min r rs'" and "hi = foldl max 0 rs"
    have lo: "lo \<in> set rs" "\<forall>x\<in>set rs. lo \<le> x" using foldl_min_le [of r rs'] Cons by (auto simp: lo_def)
    have hi: "0 \<le> hi" "\<forall>x\<in>set rs. x \<le> hi" using foldl_max_ge [of 0 rs] by (auto simp: hi_def)
    have "foldl fmin PInf (map Fin rs) = Fin lo"
      using foldl_fmin_Fin [of r rs'] by (simp add: Cons lo_def) (simp add: fmin_def min_def)
    moreover have "foldl fmax 0 (map Fin rs) = Fin hi"
      by (simp add: zero_f64_def foldl_fmax_Fin hi_def)
    ultimately have f: "ms_fairness_ratio (from_streams ss) = (if 0 < hi then Fin (lo / hi) else Fin 0)"
      using Cons by (simp add: from_streams_def rs Let_def f64_simps)
    have lohi: "0 \<le> lo" "lo \<le> hi" using lo hi pos by auto
    show ?thesis
    proof (cases "0 < hi")
      case True
      have "lo / hi * b \<le> a" if "a \<in> set rs" "b \<in> set rs" for a b
      proof -
        have "lo / hi * b \<le> lo / hi * hi" using that hi lohi True by (intro mult_left_mono) auto
        also have "\<dots> = lo" using True by simp
        also have "\<dots> \<le> a" using lo that by auto
        finally show ?thesis .
      qed
      then have "Fin (lo / hi) * fs_throughput_gbps (sr_summary t) \<le> fs_throughput_gbps (sr_summary s)"
        if "s \<in> set ss" "t \<in> set ss" for s t
        using mem [OF that(1)] mem [OF that(2)] by (auto simp: f64_simps)
      then show ?thesis using f True lohi by (intro exI [of _ "lo / hi"]) (simp add: divide_le_eq)
    next
      case False
      then have "Fin 0 * fs_throughput_gbps (sr_summary t) \<le> fs_throughput_gbps (sr_summary s)"
        if "s \<in> set ss" "t \<in> set ss" for s t
        using mem [OF that(1)] mem [OF that(2)] pos by (auto simp: f64_simps)
      then show ?thesis using f False by (intro exI [of _ 0]) simp
    qed
  qed
qed

lemma collect_streams_ok:
  "collect_streams secs js = Inr ss \<Longrightarrow>
     list_all2 (\<lambda>(cfg, _) s. \<exists>lag rx. s = stream_result_of secs cfg lag rx) js ss"
  by (induction js arbitrary: ss) (fastforce split: option.splits sum.splits simp: map_sum_def)+

section \<open>Properties\<close>

text \<open>
  The receiver of a stream accounts for exactly the messages that arrived while measuring, and
  its DSCP verdict is not fabricated: there is one only if the stream declared a tag, the socket
  reports marks and at least one measured message carried one, and it is positive only if every mark
  seen is the declared tag.
\<close>

theorem stream_receiver_records:
  assumes "stream_receiver expect observe n ts (flow_new, dscp_observation_default) = Some (m, d)"
    and "length ts < 2 ^ 64"
  shows "m = ingest_stream n (stream_measured ts) flow_new
       \<and> verdict d =
           (case expect of
              Some e \<Rightarrow> if observe \<and> marks (stream_measured ts) \<noteq> []
                        then Some (list_all (\<lambda>b. tos_to_dscp b = e) (marks (stream_measured ts))) else None
            | None \<Rightarrow> None)"
proof -
  let ?bs = "marks (stream_measured ts)"
  have "length ?bs < 2 ^ 64"
    using length_marks [of "stream_measured ts"] length_stream_measured [of ts] assms(2) by linarith
  note v = verdict_marks [OF this]
  have "verdict dscp_observation_default = None" by (simp add: verdict_def dscp_observation_default_def)
  with v stream_receiver_fold [OF assms(1)] show ?thesis
    by (cases observe) (auto simp: list_all_iff split: option.split)
qed

lemma stream_receiver_records_witness:
  "\<exists>m d. stream_receiver (Some 46) True 24
       [\<lparr>sx_stop = False, sx_result = Inr (Message 2, Some 184), sx_buf = [1, 2, 3], sx_recv_ns = 7,
         sx_measuring = True\<rparr>,
        \<lparr>sx_stop = False, sx_result = Inr (Message 2, Some 0), sx_buf = [1, 2, 3], sx_recv_ns = 7,
         sx_measuring = False\<rparr>,
        \<lparr>sx_stop = False, sx_result = Inr (Closed, None), sx_buf = [], sx_recv_ns = 9, sx_measuring = True\<rparr>]
       (flow_new, dscp_observation_default) = Some (m, d)
     \<and> verdict d = Some True"
  (is "\<exists>m d. stream_receiver _ _ _ ?ts _ = _ \<and> _")
proof -
  obtain m d where r: "stream_receiver (Some 46) True 24 ?ts (flow_new, dscp_observation_default) = Some (m, d)"
    by simp
  have "tos_to_dscp 184 = 46" by code_simp
  then show ?thesis
    using stream_receiver_records [OF r] r by simp
qed

text \<open>
  The aggregate over the streams of a run: one result per configured stream, in order; no stream's
  throughput is below the fairness ratio times another's, and the ratio lies in [0, 1]; the run is
  loss-free for safety exactly if no safety stream lost a message; and the safety p99 is the largest of
  the safety streams', present exactly if there is one.
\<close>

theorem multi_stream_aggregates:
  assumes "run_multi_stream configs n (Fin secs) joined = Inr r" and "length joined = n"
  shows "map sr_name (ms_streams r) = map sg_name configs
       \<and> (\<exists>q. ms_fairness_ratio r = Fin q \<and> 0 \<le> q \<and> q \<le> 1
            \<and> (\<forall>s\<in>set (ms_streams r). \<forall>t\<in>set (ms_streams r).
                 Fin q * fs_throughput_gbps (sr_summary t) \<le> fs_throughput_gbps (sr_summary s)))
       \<and> (ms_safety_loss_free r \<longleftrightarrow> (\<forall>s\<in>set (ms_streams r).
            sr_traffic_class s = ''safety'' \<longrightarrow> ig_lost (fs_integrity (sr_summary s)) = 0))
       \<and> (case ms_safety_p99_us r of
            None \<Rightarrow> \<forall>s\<in>set (ms_streams r). sr_traffic_class s \<noteq> ''safety''
          | Some p \<Rightarrow> \<exists>s\<in>set (ms_streams r). sr_traffic_class s = ''safety'' \<and> p = sm_p99 (fs_latency_us (sr_summary s))
              \<and> (\<forall>t\<in>set (ms_streams r). sr_traffic_class t = ''safety'' \<longrightarrow>
                   sm_p99 (fs_latency_us (sr_summary t)) = NaN \<or> sm_p99 (fs_latency_us (sr_summary t)) \<le> p))"
proof -
  obtain ss where ss: "collect_streams (Fin secs) (zip configs joined) = Inr ss" and r: "r = from_streams ss"
    and len: "length configs = n"
    using assms(1) by (auto simp: run_multi_stream_def map_sum_def split: if_splits sum.splits)
  note all2 = collect_streams_ok [OF ss]
  have "map sr_name ss = map (sg_name \<circ> fst) (zip configs joined)"
    using all2 by (induction rule: list_all2_induct) (auto simp: stream_result_of_def)
  then have names: "map sr_name ss = map sg_name configs"
    using len assms(2) by (simp only: map_map [symmetric] map_fst_zip)
  have of: "\<forall>s\<in>set ss. \<exists>cfg lag rx. s = stream_result_of (Fin secs) cfg lag rx"
    using all2 by (induction rule: list_all2_induct) auto
  have "\<exists>r\<ge>0. fs_throughput_gbps (sr_summary s) = Fin r" if s: "s \<in> set ss" for s
  proof -
    obtain cfg lag rx where "s = stream_result_of (Fin secs) cfg lag rx"
      using s of by blast
    then show ?thesis
      using throughput_finite [of "fm_bytes (fst rx)" secs]
      by (simp add: stream_result_of_def finish_def Let_def split_beta set_duration_def)
  qed
  then have fair: "\<exists>q. ms_fairness_ratio (from_streams ss) = Fin q \<and> 0 \<le> q \<and> q \<le> 1
       \<and> (\<forall>s\<in>set ss. \<forall>t\<in>set ss. Fin q * fs_throughput_gbps (sr_summary t) \<le> fs_throughput_gbps (sr_summary s))"
    by (intro fairness_bounds ballI)
  have sel: "ms_streams r = ss" by (simp add: r from_streams_def Let_def)
  have lf: "ms_safety_loss_free r \<longleftrightarrow>
      (\<forall>s\<in>set ss. sr_traffic_class s = ''safety'' \<longrightarrow> ig_lost (fs_integrity (sr_summary s)) = 0)"
    by (auto simp: r from_streams_def Let_def safety_streams_def SAFETY_CLASS_def list_all_iff)
  let ?p = "sm_p99 \<circ> fs_latency_us \<circ> sr_summary"
  have "ms_safety_p99_us r = reduce_max (map ?p (safety_streams ss))"
    by (simp add: r from_streams_def Let_def)
  with reduce_max_correct [of "map ?p (safety_streams ss)"]
  have p99: "case ms_safety_p99_us r of
          None \<Rightarrow> \<forall>s\<in>set ss. sr_traffic_class s \<noteq> ''safety''
        | Some p \<Rightarrow> \<exists>s\<in>set ss. sr_traffic_class s = ''safety'' \<and> p = sm_p99 (fs_latency_us (sr_summary s))
            \<and> (\<forall>t\<in>set ss. sr_traffic_class t = ''safety'' \<longrightarrow>
                 sm_p99 (fs_latency_us (sr_summary t)) = NaN \<or> sm_p99 (fs_latency_us (sr_summary t)) \<le> p)"
    by (auto simp: safety_streams_def SAFETY_CLASS_def filter_empty_conv split: option.splits)
  show ?thesis unfolding sel using names fair [folded r] lf p99 by (intro conjI)
qed

lemma multi_stream_aggregates_witness:
  "\<exists>r. run_multi_stream [\<lparr>sg_name = ''s'', sg_traffic_class = ''safety'', sg_dscp_label = ''EF'',
        sg_dscp_tag = None, sg_message_bytes = 64, sg_interval_us = None, sg_sender_cores = [],
        sg_receiver_cores = []\<rparr>] 1 (Fin 1) [(Some send_lag_default, Some (flow_new, dscp_observation_default))] = Inr r
     \<and> map sr_name (ms_streams r) = [''s'']"
  (is "\<exists>r. run_multi_stream ?c 1 _ ?j = _ \<and> _")
proof -
  obtain r where r: "run_multi_stream ?c 1 (Fin 1) ?j = Inr r" by (simp add: run_multi_stream_def)
  show ?thesis using multi_stream_aggregates [OF r] r by simp
qed

end
