(* ===== verification/Text.thy ===== *)
theory Text
  imports Seshat_Strings
begin

text \<open>
  Text as the parsers and writers of the harness use it: splitting into lines, fields and words,
  joining, \<open>parse::<f64>()\<close> and the fixed-precision formatting of a float. Finite values are exact, so
  formatting rounds the exact value, ties to even, as Rust does.
\<close>

abbreviation LF :: char where "LF \<equiv> CHR 0x0A"
abbreviation CR :: char where "CR \<equiv> CHR 0x0D"
abbreviation DQUOTE :: char where "DQUOTE \<equiv> CHR 0x22"

definition is_ascii_alphanumeric :: "char \<Rightarrow> bool" where
  "is_ascii_alphanumeric c = (is_digit c \<or> 65 \<le> ascii c \<and> ascii c \<le> 90 \<or> 97 \<le> ascii c \<and> ascii c \<le> 122)"

section \<open>Splitting and joining\<close>

text \<open>\<open>s.split(P)\<close>: always at least one piece.\<close>

fun split_if :: "(char \<Rightarrow> bool) \<Rightarrow> string \<Rightarrow> string list" where
  "split_if P [] = [[]]"
| "split_if P (c # s) =
     (if P c then [] # split_if P s
      else (case split_if P s of [] \<Rightarrow> [[c]] | w # ws \<Rightarrow> (c # w) # ws))"

definition split_on :: "char \<Rightarrow> string \<Rightarrow> string list" where
  "split_on d = split_if (\<lambda>c. c = d)"

definition split_whitespace :: "string \<Rightarrow> string list" where
  "split_whitespace s = filter (\<lambda>w. w \<noteq> []) (split_if is_ws s)"

definition strip_cr :: "string \<Rightarrow> string" where
  "strip_cr s = (if s \<noteq> [] \<and> last s = CR then butlast s else s)"

text \<open>\<open>s.lines()\<close>: the pieces between line feeds, without the carriage return before a line feed and
  without an empty last piece.\<close>

definition lines :: "string \<Rightarrow> string list" where
  "lines s =
     (case rev (split_on LF s) of
        [] \<Rightarrow> []
      | l # ls \<Rightarrow> map strip_cr (rev ls) @ (if l = [] then [] else [l]))"

text \<open>\<open>parts.join(sep)\<close>\<close>

fun join_with :: "string \<Rightarrow> string list \<Rightarrow> string" where
  "join_with sep [] = []"
| "join_with sep [w] = w"
| "join_with sep (w # v # ws) = w @ sep @ join_with sep (v # ws)"

text \<open>\<open>s.replace(p, q)\<close> for a nonempty \<open>p\<close>\<close>

function replace_all :: "string \<Rightarrow> string \<Rightarrow> string \<Rightarrow> string" where
  "replace_all p q [] = []"
| "replace_all p q (c # s) =
     (if starts_with (c # s) p then q @ replace_all p q (drop (length p - 1) s) else c # replace_all p q s)"
  by pat_completeness auto
termination by (relation "measure (\<lambda>(p, q, s). length s)") auto

text \<open>\<open>s.split_once(c)\<close>\<close>

definition split_once :: "char \<Rightarrow> string \<Rightarrow> (string \<times> string) option" where
  "split_once d s = (if d \<in> set s then Some (takeWhile (\<lambda>c. c \<noteq> d) s, tl (dropWhile (\<lambda>c. c \<noteq> d) s)) else None)"

lemma split_if_ne [simp]: "split_if P s \<noteq> []"
  by (induction s) (auto split: list.split)

lemma split_if_none: "list_all (\<lambda>c. \<not> P c) s \<Longrightarrow> split_if P s = [s]"
  by (induction s) auto

lemma split_if_append:
  "list_all (\<lambda>c. \<not> P c) w \<Longrightarrow> P c \<Longrightarrow> split_if P (w @ c # s) = w # split_if P s"
  by (induction w) auto

text \<open>Words separated by one blank are read back.\<close>

lemma split_if_join:
  assumes "P c" and "list_all (list_all (\<lambda>c. \<not> P c)) ws" and "ws \<noteq> []"
  shows "split_if P (join_with [c] ws) = ws"
  using assms(2,3)
proof (induction "[c]" ws rule: join_with.induct)
  case (3 w v ws)
  then show ?case using assms(1) by (simp add: split_if_append)
qed (simp_all add: split_if_none)

lemma split_whitespace_join:
  assumes "list_all (\<lambda>w. w \<noteq> [] \<and> list_all (\<lambda>c. \<not> is_ws c) w) ws"
  shows "split_whitespace (join_with '' '' ws) = ws"
proof (cases "ws = []")
  case True
  then show ?thesis by (simp add: split_whitespace_def)
next
  case False
  have "is_ws (CHR '' '')" by (simp add: is_ws_def)
  moreover have "list_all (list_all (\<lambda>c. \<not> is_ws c)) ws" using assms by (auto simp: list_all_iff)
  ultimately have "split_if is_ws (join_with '' '' ws) = ws" using split_if_join False by simp
  moreover have "filter (\<lambda>w. w \<noteq> []) ws = ws" using assms by (auto simp: list_all_iff filter_id_conv)
  ultimately show ?thesis by (simp add: split_whitespace_def)
qed

lemma trim_id: "s \<noteq> [] \<Longrightarrow> \<not> is_ws (hd s) \<Longrightarrow> \<not> is_ws (last s) \<Longrightarrow> trim s = s"
proof -
  assume *: "s \<noteq> []" "\<not> is_ws (hd s)" "\<not> is_ws (last s)"
  then have "dropWhile is_ws s = s" by (cases s) auto
  moreover have "dropWhile is_ws (rev s) = rev s" using * by (cases s rule: rev_cases) auto
  ultimately show ?thesis by (simp add: trim_def)
qed

lemma trim_show_nat [simp]: "trim (show_nat n) = show_nat n"
proof (rule trim_id)
  show "\<not> is_ws (hd (show_nat n))" "\<not> is_ws (last (show_nat n))"
    using show_nat_digits [of n] by (simp_all add: list_all_iff digit_not_ws)
qed simp

lemma trim_ws_prefix: "list_all is_ws p \<Longrightarrow> trim (p @ s) = trim s"
  by (induction p) (simp_all add: trim_def)

section \<open>Floats as text\<close>

definition scale10 :: "nat \<Rightarrow> int \<Rightarrow> real" where
  "scale10 m k = (if 0 \<le> k then real m * 10 ^ nat k else real m / 10 ^ nat (- k))"

text \<open>The optional exponent: Some 0 for none, None when it is malformed.\<close>

definition parse_exp :: "string \<Rightarrow> int option" where
  "parse_exp s =
     (case s of
        [] \<Rightarrow> Some 0
      | e # r \<Rightarrow>
          let (neg, ds) = (case r of
                 c # cs \<Rightarrow> if c = CHR ''-'' then (True, cs) else if c = CHR ''+'' then (False, cs) else (False, r)
               | [] \<Rightarrow> (False, []))
          in if (e = CHR ''e'' \<or> e = CHR ''E'') \<and> ds \<noteq> [] \<and> list_all is_digit ds
             then Some (if neg then - int (digits_value ds) else int (digits_value ds)) else None)"

definition parse_decimal :: "string \<Rightarrow> real option" where
  "parse_decimal s =
     (let i = takeWhile is_digit s; r = dropWhile is_digit s;
          (f, e) = (case r of
             c # cs \<Rightarrow> if c = CHR ''.'' then (takeWhile is_digit cs, dropWhile is_digit cs) else ([], r)
           | [] \<Rightarrow> ([], []))
      in if i = [] \<and> f = [] then None
         else map_option (\<lambda>k. scale10 (digits_value (i @ f)) (k - int (length f))) (parse_exp e))"

definition parse_f64 :: "string \<Rightarrow> f64 option" where
  "parse_f64 s =
     (let (neg, r) = (case s of
             c # cs \<Rightarrow> if c = CHR ''-'' then (True, cs) else if c = CHR ''+'' then (False, cs) else (False, s)
           | [] \<Rightarrow> (False, []));
          l = to_lower r
      in if l = ''inf'' \<or> l = ''infinity'' then Some (if neg then NInf else PInf)
         else if l = ''nan'' then Some NaN
         else map_option (\<lambda>x. Fin (if neg then - x else x)) (parse_decimal r))"

definition round_half_even_real :: "real \<Rightarrow> int" where
  "round_half_even_real x =
     (let f = \<lfloor>x\<rfloor>; r = x - of_int f
      in if r < 1 / 2 then f else if 1 / 2 < r then f + 1 else if even f then f else f + 1)"

definition pad_left :: "nat \<Rightarrow> char \<Rightarrow> string \<Rightarrow> string" where
  "pad_left w c s = replicate (w - length s) c @ s"

text \<open>\<open>format!("{v:.d$}")\<close> of a finite value\<close>

definition fmt_fixed :: "nat \<Rightarrow> real \<Rightarrow> string" where
  "fmt_fixed d a =
     (let n = nat (round_half_even_real (\<bar>a\<bar> * 10 ^ d))
      in (if a < 0 then ''-'' else [])
         @ (if d = 0 then show_nat n
            else show_nat (n div 10 ^ d) @ ''.'' @ pad_left d (CHR ''0'') (show_nat (n mod 10 ^ d))))"

definition show_word :: "'a::len word \<Rightarrow> string" where
  "show_word w = show_nat (unat w)"

definition show_int :: "int \<Rightarrow> string" where
  "show_int i = (if i < 0 then ''-'' @ show_nat (nat (- i)) else show_nat (nat i))"

lemma round_half_even_error: "\<bar>of_int (round_half_even_real x) - x\<bar> \<le> 1 / 2"
proof -
  have "of_int \<lfloor>x\<rfloor> \<le> x" "x < of_int \<lfloor>x\<rfloor> + 1" by linarith+
  then show ?thesis by (auto simp: round_half_even_real_def Let_def abs_le_iff split: if_splits)
qed

lemma set_fmt_fixed: "c \<in> set (fmt_fixed d a) \<Longrightarrow> is_digit c \<or> c = CHR ''-'' \<or> c = CHR ''.''"
proof -
  have "is_digit c" if "c \<in> set (show_nat n)" for c n
    using that show_nat_digits [of n] by (auto simp: list_all_iff)
  moreover have "is_digit (CHR ''0'')" by (simp add: is_digit_def)
  ultimately show "c \<in> set (fmt_fixed d a) \<Longrightarrow> is_digit c \<or> c = CHR ''-'' \<or> c = CHR ''.''"
    by (auto simp: fmt_fixed_def Let_def pad_left_def split: if_splits)
qed

end
