(* ===== verification/Csv.thy ===== *)
theory Csv
  imports Text
begin

text \<open>
  The CSV tables of \<open>src/src/report/csv.rs\<close>: building, escaping and rendering, and a reader for the
  RFC 4180 dialect the writer promises, against which the rendering is verified. Writing a file is I/O.
\<close>

section \<open>The writer\<close>

record csv =
  cv_headers :: "string list"
  cv_rows :: "string list list"

definition csv_new :: "string list \<Rightarrow> csv" where
  "csv_new headers = \<lparr>cv_headers = headers, cv_rows = []\<rparr>"

definition key_value :: csv where
  "key_value = csv_new [''key'', ''value'']"

definition csv_row :: "string list \<Rightarrow> csv \<Rightarrow> csv" where
  "csv_row cells c = c\<lparr>cv_rows := cv_rows c @ [cells]\<rparr>"

definition csv_kv :: "string \<Rightarrow> string \<Rightarrow> csv \<Rightarrow> csv" where
  "csv_kv k v c = c\<lparr>cv_rows := cv_rows c @ [[k, v]]\<rparr>"

definition csv_len :: "csv \<Rightarrow> nat" where "csv_len c = length (cv_rows c)"

definition csv_is_empty :: "csv \<Rightarrow> bool" where "csv_is_empty c = (cv_rows c = [])"

definition needs_quotes :: "char \<Rightarrow> bool" where
  "needs_quotes c = (c = CHR '','' \<or> c = DQUOTE \<or> c = LF \<or> c = CR)"

definition escape :: "string \<Rightarrow> string" where
  "escape field =
     (if list_ex needs_quotes field
      then DQUOTE # concat (map (\<lambda>c. if c = DQUOTE then [DQUOTE, c] else [c]) field) @ [DQUOTE]
      else field)"

definition write_row :: "string \<Rightarrow> string list \<Rightarrow> string" where
  "write_row out cells = out @ join_with '','' (map escape cells) @ [CR, LF]"

definition render_body :: "csv \<Rightarrow> string" where
  "render_body c = foldl write_row [] (cv_rows c)"

definition render :: "csv \<Rightarrow> string" where
  "render c = foldl write_row (write_row [] (cv_headers c)) (cv_rows c)"

text \<open>\<open>num\<close>: fixed precision, nothing for a value that is not finite.\<close>

definition num :: "f64 \<Rightarrow> nat \<Rightarrow> string" where
  "num v decimals = (case v of Fin a \<Rightarrow> fmt_fixed decimals a | _ \<Rightarrow> [])"

section \<open>The reader\<close>

datatype scan_mode = FieldStart | Unquoted | Quoted | AfterQuote | AfterCr

fun csv_scan :: "scan_mode \<Rightarrow> string \<Rightarrow> string list \<Rightarrow> string \<Rightarrow> string list list option" where
  "csv_scan m f cs [] = (if m = FieldStart \<and> cs = [] then Some [] else None)"
| "csv_scan FieldStart f cs (c # s) =
     (if c = DQUOTE then csv_scan Quoted [] cs s
      else if c = CHR '','' then csv_scan FieldStart [] (cs @ [[]]) s
      else if c = CR then csv_scan AfterCr [] (cs @ [[]]) s
      else csv_scan Unquoted [c] cs s)"
| "csv_scan Unquoted f cs (c # s) =
     (if c = CHR '','' then csv_scan FieldStart [] (cs @ [f]) s
      else if c = CR then csv_scan AfterCr [] (cs @ [f]) s
      else csv_scan Unquoted (f @ [c]) cs s)"
| "csv_scan Quoted f cs (c # s) =
     (if c = DQUOTE then csv_scan AfterQuote f cs s else csv_scan Quoted (f @ [c]) cs s)"
| "csv_scan AfterQuote f cs (c # s) =
     (if c = DQUOTE then csv_scan Quoted (f @ [DQUOTE]) cs s
      else if c = CHR '','' then csv_scan FieldStart [] (cs @ [f]) s
      else if c = CR then csv_scan AfterCr [] (cs @ [f]) s
      else None)"
| "csv_scan AfterCr f cs (c # s) =
     (if c = LF then map_option ((#) cs) (csv_scan FieldStart [] [] s) else None)"

definition csv_parse :: "string \<Rightarrow> string list list option" where
  "csv_parse s = csv_scan FieldStart [] [] s"

section \<open>Round trip\<close>

text \<open>What follows a field: a comma, or the end of the record.\<close>

definition field_end :: "string \<Rightarrow> string list \<Rightarrow> string \<Rightarrow> string list list option" where
  "field_end f cs s =
     (case s of
        c # r \<Rightarrow> if c = CHR '','' then csv_scan FieldStart [] (cs @ [f]) r
               else csv_scan AfterCr [] (cs @ [f]) r
      | [] \<Rightarrow> None)"

lemma scan_unquoted:
  assumes "list_all (\<lambda>c. \<not> needs_quotes c) g" and "s \<noteq> []" and "hd s = CHR '','' \<or> hd s = CR"
  shows "csv_scan Unquoted f cs (g @ s) = field_end (f @ g) cs s"
  using assms
proof (induction g arbitrary: f)
  case Nil
  then show ?case by (cases s) (auto simp: field_end_def)
next
  case (Cons c g)
  then show ?case by (auto simp: needs_quotes_def)
qed

lemma scan_quoted:
  assumes "s \<noteq> []" and "hd s = CHR '','' \<or> hd s = CR"
  shows "csv_scan Quoted f cs (concat (map (\<lambda>c. if c = DQUOTE then [DQUOTE, c] else [c]) g) @ DQUOTE # s)
       = field_end (f @ g) cs s"
  using assms
proof (induction g arbitrary: f)
  case Nil
  then show ?case by (cases s) (auto simp: field_end_def)
next
  case (Cons c g)
  then show ?case by auto
qed

lemma scan_field:
  assumes "s \<noteq> []" and "hd s = CHR '','' \<or> hd s = CR"
  shows "csv_scan FieldStart f cs (escape g @ s) = field_end g cs s"
proof (cases "list_ex needs_quotes g")
  case True
  then show ?thesis using scan_quoted [OF assms, of "[]" cs g] by (simp add: escape_def)
next
  case False
  then have ok: "list_all (\<lambda>c. \<not> needs_quotes c) g" by (auto simp: list_ex_iff list_all_iff)
  show ?thesis
  proof (cases g)
    case Nil
    then show ?thesis using assms by (cases s) (auto simp: escape_def field_end_def)
  next
    case (Cons c g')
    with ok have "\<not> needs_quotes c" "list_all (\<lambda>c. \<not> needs_quotes c) g'" by auto
    with Cons False show ?thesis
      using scan_unquoted [OF _ assms, of g' "[c]" cs] by (auto simp: escape_def needs_quotes_def)
  qed
qed

lemma scan_record:
  assumes "gs \<noteq> []"
  shows "csv_scan FieldStart f cs (join_with '','' (map escape gs) @ CR # LF # s)
       = map_option ((#) (cs @ gs)) (csv_scan FieldStart [] [] s)"
  using assms
proof (induction gs arbitrary: cs f)
  case Nil
  then show ?case by simp
next
  case (Cons g gs)
  show ?case
  proof (cases gs)
    case Nil
    then show ?thesis by (simp add: scan_field field_end_def)
  next
    case (Cons g' gs')
    with Cons.IH [of "[]" "cs @ [g]"] show ?thesis by (simp add: scan_field field_end_def)
  qed
qed

lemma write_row_append: "foldl write_row out rows = out @ concat (map (write_row []) rows)"
  by (induction rows arbitrary: out) (auto simp: write_row_def)

lemma scan_rows:
  assumes "list_all (\<lambda>r. r \<noteq> []) rows"
  shows "csv_scan FieldStart f [] (concat (map (write_row []) rows) @ s)
       = map_option ((@) rows) (csv_scan FieldStart [] [] s)"
  using assms
proof (induction rows arbitrary: f)
  case Nil
  then show ?case by (cases s) (auto simp: option.map_ident)
next
  case (Cons r rows)
  then show ?case by (simp add: write_row_def scan_record option.map_comp comp_def)
qed

text \<open>A number needs no quoting and is written as it stands.\<close>

lemma escape_num: "escape (num v d) = num v d"
proof -
  have "\<not> list_ex needs_quotes (num v d)"
  proof (cases v)
    case (Fin a)
    then show ?thesis
      by (auto simp: num_def list_ex_iff needs_quotes_def is_digit_def dest!: set_fmt_fixed)
  qed (simp_all add: num_def)
  then show ?thesis by (simp add: escape_def)
qed

text \<open>
  C34: CSV tables survive the file: whatever the cells contain, commas, quotes and line breaks
  included, reading what the writer produces gives the header and the rows back, cell by cell; and
  bodies rendered without their header can be appended to a table byte for byte, as the consolidated
  reports do.
\<close>

theorem csv_round_trip:
  assumes "list_all (\<lambda>c. list_all (\<lambda>r. r \<noteq> []) (cv_rows c)) (t # bodies)" and "cv_headers t \<noteq> []"
  shows "csv_parse (render t @ concat (map render_body bodies))
       = Some (cv_headers t # cv_rows t @ concat (map cv_rows bodies))"
proof -
  have body: "render_body c = concat (map (write_row []) (cv_rows c))" for c
    by (simp add: render_body_def write_row_append)
  let ?rows = "cv_headers t # cv_rows t @ concat (map cv_rows bodies)"
  have "concat (map render_body bodies) = concat (map (write_row []) (concat (map cv_rows bodies)))"
    by (induction bodies) (simp_all add: body)
  then have "render t @ concat (map render_body bodies) = concat (map (write_row []) ?rows)"
    by (simp add: render_def write_row_append [of "write_row _ _"])
  moreover have "list_all (\<lambda>r. r \<noteq> []) ?rows" using assms by (auto simp: list_all_iff)
  ultimately show ?thesis using scan_rows [of ?rows "[]" "[]"] by (simp add: csv_parse_def)
qed

lemma csv_round_trip_witness:
  "csv_parse (render (csv_row [''x,y'', [DQUOTE, LF]] (csv_new [''a'', ''b''])) @ concat (map render_body [key_value]))
     = Some [[''a'', ''b''], [''x,y'', [DQUOTE, LF]]]"
  using csv_round_trip [of "csv_row [''x,y'', [DQUOTE, LF]] (csv_new [''a'', ''b''])" "[key_value]"]
  by (simp add: csv_row_def csv_new_def key_value_def)

end
