(* ===== verification/System_Metrics.thy ===== *)
theory System_Metrics
  imports Csv Stats
begin

text \<open>
  Process and host metrics, \<open>src/src/metrics/system.rs\<close>: the parsers of \<open>/proc\<close>, of \<open>perf stat\<close> and of
  \<open>bpftrace\<close> output, the sampling loop, the rollup of a timeseries and its CSV files. The file system is
  a parameter (what each path reads as at the time of a tick); spawning the tools is I/O.
\<close>

section \<open>Reading \<open>/proc\<close>\<close>

record procfs =
  pf_read :: "string \<Rightarrow> string option"
  pf_dir :: "string \<Rightarrow> string list option"

definition parse_u64 :: "string \<Rightarrow> u64 option" where
  "parse_u64 s = map_option of_nat (parse_uint (2 ^ 64 - 1) s)"

definition unwrap_or_0 :: "u64 option \<Rightarrow> u64" where
  "unwrap_or_0 x = (case x of Some v \<Rightarrow> v | None \<Rightarrow> 0)"

definition first_u64 :: "string \<Rightarrow> u64" where
  "first_u64 s =
     unwrap_or_0 (case split_whitespace s of [] \<Rightarrow> None | t # _ \<Rightarrow> parse_u64 t)"

text \<open>\<open>s.get(rparen + 1..)\<close> is what follows the last parenthesis.\<close>

definition parse_stat :: "string \<Rightarrow> (u64 \<times> u64 \<times> u64) option" where
  "parse_stat line =
     (case rsplit_once (CHR '')'') line of
        None \<Rightarrow> None
      | Some (_, rest) \<Rightarrow>
          let f = split_whitespace (trim rest);
              field = (\<lambda>i. if i < length f then parse_u64 (f ! i) else None)
          in (case (field 11, field 12, field 17) of
                (Some utime, Some stime, Some threads) \<Rightarrow> Some (utime, stime, threads)
              | _ \<Rightarrow> None))"

text \<open>\<open>s.lines().find_map(|l| l.strip_prefix(p).map(first_u64))\<close>\<close>

fun find_field :: "string \<Rightarrow> string list \<Rightarrow> u64 option" where
  "find_field p [] = None"
| "find_field p (l # ls) =
     (case strip_prefix p l of Some v \<Rightarrow> Some (first_u64 v) | None \<Rightarrow> find_field p ls)"

definition proc_path :: "int \<Rightarrow> string \<Rightarrow> string" where
  "proc_path pid f = ''/proc/'' @ show_int pid @ f"

definition parse_rss :: "procfs \<Rightarrow> int \<Rightarrow> u64" where
  "parse_rss fs pid =
     unwrap_or_0 (case pf_read fs (proc_path pid ''/status'') of
        None \<Rightarrow> None | Some s \<Rightarrow> find_field ''VmRSS:'' (lines s))"

definition parse_pss :: "procfs \<Rightarrow> int \<Rightarrow> u64" where
  "parse_pss fs pid =
     unwrap_or_0 (case pf_read fs (proc_path pid ''/smaps_rollup'') of
        None \<Rightarrow> None | Some s \<Rightarrow> find_field ''Pss:'' (lines s))"

definition ctxt_line :: "(u64 \<Rightarrow> u64 \<Rightarrow> u64) \<Rightarrow> string \<Rightarrow> u64 \<times> u64 \<Rightarrow> u64 \<times> u64" where
  "ctxt_line upd line vn =
     (case strip_prefix ''voluntary_ctxt_switches:'' line of
        Some v \<Rightarrow> (upd (fst vn) (first_u64 v), snd vn)
      | None \<Rightarrow>
          (case strip_prefix ''nonvoluntary_ctxt_switches:'' line of
             Some v \<Rightarrow> (fst vn, upd (snd vn) (first_u64 v))
           | None \<Rightarrow> vn))"

fun sum_ctxt :: "procfs \<Rightarrow> int \<Rightarrow> string list \<Rightarrow> bool \<times> u64 \<times> u64 \<Rightarrow> bool \<times> u64 \<times> u64" where
  "sum_ctxt fs pid [] st = st"
| "sum_ctxt fs pid (tid # tids) (any, vn) =
     (case pf_read fs (proc_path pid (''/task/'' @ tid @ ''/status'')) of
        None \<Rightarrow> sum_ctxt fs pid tids (any, vn)
      | Some s \<Rightarrow> sum_ctxt fs pid tids (True, fold (ctxt_line (+)) (lines s) vn))"

definition sum_thread_ctxt_switches :: "procfs \<Rightarrow> int \<Rightarrow> u64 \<times> u64" where
  "sum_thread_ctxt_switches fs pid =
     (let entries = (case pf_dir fs (proc_path pid ''/task'') of Some e \<Rightarrow> e | None \<Rightarrow> []);
          (any, vn) = sum_ctxt fs pid entries (False, 0, 0)
      in if any then vn
         else (case pf_read fs (proc_path pid ''/status'') of
                 None \<Rightarrow> (0, 0)
               | Some s \<Rightarrow> fold (ctxt_line (\<lambda>_ v. v)) (lines s) (0, 0)))"

definition io_line :: "string \<Rightarrow> u64 \<times> u64 \<Rightarrow> u64 \<times> u64" where
  "io_line line rw =
     (case strip_prefix ''read_bytes:'' line of
        Some v \<Rightarrow> (first_u64 v, snd rw)
      | None \<Rightarrow>
          (case strip_prefix ''write_bytes:'' line of
             Some v \<Rightarrow> (fst rw, first_u64 v)
           | None \<Rightarrow> rw))"

definition parse_io :: "procfs \<Rightarrow> int \<Rightarrow> u64 \<times> u64" where
  "parse_io fs pid =
     (case pf_read fs (proc_path pid ''/io'') of
        None \<Rightarrow> (0, 0) | Some s \<Rightarrow> fold io_line (lines s) (0, 0))"

fun thread_ticks_of :: "procfs \<Rightarrow> int \<Rightarrow> string list \<Rightarrow> (u32 \<times> u64) list" where
  "thread_ticks_of fs pid [] = []"
| "thread_ticks_of fs pid (name # names) =
     (case parse_uint (2 ^ 32 - 1) name of
        None \<Rightarrow> thread_ticks_of fs pid names
      | Some tid \<Rightarrow>
          (case pf_read fs (proc_path pid (''/task/'' @ show_nat tid @ ''/stat'')) of
             None \<Rightarrow> thread_ticks_of fs pid names
           | Some s \<Rightarrow>
               (case parse_stat s of
                  None \<Rightarrow> thread_ticks_of fs pid names
                | Some (utime, stime, _) \<Rightarrow> (of_nat tid, utime + stime) # thread_ticks_of fs pid names)))"

definition read_thread_ticks :: "procfs \<Rightarrow> int \<Rightarrow> (u32 \<times> u64) list" where
  "read_thread_ticks fs pid =
     (case pf_dir fs (proc_path pid ''/task'') of None \<Rightarrow> [] | Some es \<Rightarrow> thread_ticks_of fs pid es)"

fun host_cpu_lines :: "string list \<Rightarrow> u64 \<times> u64" where
  "host_cpu_lines [] = (0, 0)"
| "host_cpu_lines (line # ls) =
     (case strip_prefix ''cpu '' line of
        None \<Rightarrow> host_cpu_lines ls
      | Some rest \<Rightarrow>
          let fields = List.map_filter parse_u64 (split_whitespace rest)
          in if length fields < 5 then (0, 0)
             else let tot = sum_list fields; idle = fields ! 3 + fields ! 4
                  in (sat_sub tot idle, tot))"

definition parse_host_cpu_line :: "string \<Rightarrow> u64 \<times> u64" where
  "parse_host_cpu_line body = host_cpu_lines (lines body)"

definition read_host_stat :: "procfs \<Rightarrow> u64 \<times> u64" where
  "read_host_stat fs = (case pf_read fs ''/proc/stat'' of None \<Rightarrow> (0, 0) | Some s \<Rightarrow> parse_host_cpu_line s)"

section \<open>Samples\<close>

record system_sample =
  ss_elapsed_ms :: u64
  ss_pid :: u32
  ss_rss_kib :: u64
  ss_pss_kib :: u64
  ss_threads :: u64
  ss_utime_ticks :: u64
  ss_stime_ticks :: u64
  ss_voluntary_ctxt :: u64
  ss_nonvoluntary_ctxt :: u64
  ss_read_bytes :: u64
  ss_write_bytes :: u64
  ss_thread_ticks :: "(u32 \<times> u64) list"
  ss_host_busy_ticks :: u64
  ss_host_total_ticks :: u64

definition sample_pid :: "procfs \<Rightarrow> int \<Rightarrow> u64 \<Rightarrow> u64 \<Rightarrow> u64 \<Rightarrow> system_sample option" where
  "sample_pid fs pid elapsed_ms host_busy_ticks host_total_ticks =
     (case pf_read fs (proc_path pid ''/stat'') of
        None \<Rightarrow> None
      | Some s \<Rightarrow>
          map_option (\<lambda>(utime_ticks, stime_ticks, threads).
            (let (vol, nonvol) = sum_thread_ctxt_switches fs pid; (r, w) = parse_io fs pid
             in \<lparr>ss_elapsed_ms = elapsed_ms, ss_pid = word_of_int pid, ss_rss_kib = parse_rss fs pid,
                 ss_pss_kib = parse_pss fs pid, ss_threads = threads, ss_utime_ticks = utime_ticks,
                 ss_stime_ticks = stime_ticks, ss_voluntary_ctxt = vol, ss_nonvoluntary_ctxt = nonvol,
                 ss_read_bytes = r, ss_write_bytes = w, ss_thread_ticks = read_thread_ticks fs pid,
                 ss_host_busy_ticks = host_busy_ticks, ss_host_total_ticks = host_total_ticks\<rparr>))
          (parse_stat s))"

text \<open>
  The sampling loop: a turn brings the stop flag, the clock when the tick is decided, the file system
  then, and the clock before the wait; times are nanoseconds since the start. The result is the samples
  and the waits.
\<close>

definition MAX_SLEEP_NS :: nat where "MAX_SLEEP_NS = 100000000"

record sampler_turn =
  st_stop :: bool
  st_now :: nat
  st_fs :: procfs
  st_wait_from :: nat

definition sampler_interval_ns :: "u32 \<Rightarrow> nat" where
  "sampler_interval_ns rate_hz = nat (round_half_even_real (10 ^ 9 / real (unat rate_hz)))"

definition tick_samples :: "int list \<Rightarrow> nat \<Rightarrow> procfs \<Rightarrow> system_sample list" where
  "tick_samples pids now fs =
     (let (host_busy, host_total) = read_host_stat fs
      in List.map_filter (\<lambda>pid. sample_pid fs pid (of_nat (now div 1000000)) host_busy host_total) pids)"

fun sample_loop :: "int list \<Rightarrow> nat \<Rightarrow> nat \<Rightarrow> sampler_turn list \<Rightarrow> (system_sample list \<times> nat list) option" where
  "sample_loop pids interval nxt [] = None"
| "sample_loop pids interval nxt (t # ts) =
     (if st_stop t then Some ([], [])
      else let (out, nxt) =
                 (if nxt \<le> st_now t
                  then (tick_samples pids (st_now t) (st_fs t),
                        if nxt + interval \<le> st_now t then st_now t + interval else nxt + interval)
                  else ([], nxt));
               wait = min (nxt - st_wait_from t) MAX_SLEEP_NS
           in map_option (\<lambda>(ss, ws). (out @ ss, wait # ws)) (sample_loop pids interval nxt ts))"

definition system_sampler :: "int list \<Rightarrow> u32 \<Rightarrow> sampler_turn list \<Rightarrow> (system_sample list \<times> nat list) option" where
  "system_sampler pids rate_hz ts = sample_loop pids (sampler_interval_ns (max rate_hz 1)) 0 ts"

section \<open>\<open>perf stat\<close>\<close>

record perf_result =
  pr_cycles :: "u64 option"
  pr_instructions :: "u64 option"
  pr_ipc :: "f64 option"
  pr_cache_references :: "u64 option"
  pr_cache_misses :: "u64 option"
  pr_context_switches :: "u64 option"
  pr_syscalls :: "u64 option"
  pr_task_clock_ms :: "f64 option"
  pr_duration_s :: "f64 option"

definition perf_default :: perf_result where
  "perf_default = \<lparr>pr_cycles = None, pr_instructions = None, pr_ipc = None, pr_cache_references = None,
     pr_cache_misses = None, pr_context_switches = None, pr_syscalls = None, pr_task_clock_ms = None,
     pr_duration_s = None\<rparr>"

definition no_commas :: "string \<Rightarrow> string" where
  "no_commas s = filter (\<lambda>c. c \<noteq> CHR '','') s"

definition parse_perf_u64 :: "string \<Rightarrow> u64 option" where
  "parse_perf_u64 value = parse_u64 (no_commas (trim value))"

definition parse_perf_f64 :: "string \<Rightarrow> f64 option" where
  "parse_perf_f64 value = parse_f64 (no_commas (trim value))"

definition perf_csv_fields :: "string \<Rightarrow> (string \<times> string) option" where
  "perf_csv_fields line =
     (let fields = split_on (CHR '','') line in
      if length fields < 3 then None
      else let event = trim (fields ! 2) in if event = [] then None else Some (trim (fields ! 0), event))"

text \<open>The number after the first hash of a line.\<close>

definition after_hash :: "string \<Rightarrow> f64 option" where
  "after_hash line =
     (case split_whitespace (tl (dropWhile (\<lambda>c. c \<noteq> CHR ''#'') line)) of
        [] \<Rightarrow> None | t # _ \<Rightarrow> parse_perf_f64 t)"

definition record_perf_counter :: "string \<Rightarrow> string \<Rightarrow> string \<Rightarrow> perf_result \<Rightarrow> perf_result" where
  "record_perf_counter raw_value label line r =
     (if contains label ''cycles'' \<and> \<not> contains label ''instructions'' then r\<lparr>pr_cycles := parse_perf_u64 raw_value\<rparr>
      else if contains label ''instructions''
      then let r = r\<lparr>pr_instructions := parse_perf_u64 raw_value\<rparr>
           in if CHR ''#'' \<in> set line then r\<lparr>pr_ipc := after_hash line\<rparr> else r
      else if contains label ''cache-references'' then r\<lparr>pr_cache_references := parse_perf_u64 raw_value\<rparr>
      else if contains label ''cache-misses'' then r\<lparr>pr_cache_misses := parse_perf_u64 raw_value\<rparr>
      else if contains label ''context-switches'' \<or> label = ''cs''
      then r\<lparr>pr_context_switches := parse_perf_u64 raw_value\<rparr>
      else if contains label ''raw_syscalls:sys_enter'' \<or> contains label ''syscalls''
      then r\<lparr>pr_syscalls := parse_perf_u64 raw_value\<rparr>
      else if contains label ''task-clock'' then r\<lparr>pr_task_clock_ms := parse_perf_f64 raw_value\<rparr>
      else if contains label ''seconds time elapsed'' then r\<lparr>pr_duration_s := parse_perf_f64 raw_value\<rparr>
      else r)"

definition perf_line :: "string \<Rightarrow> perf_result \<Rightarrow> perf_result" where
  "perf_line raw_line r =
     (let line = trim raw_line in
      if line = [] then r
      else (case perf_csv_fields line of
              Some (value, label) \<Rightarrow> record_perf_counter value label line r
            | None \<Rightarrow>
                (case split_whitespace line of
                   [] \<Rightarrow> r
                 | value # rest \<Rightarrow>
                     let label = join_with '' '' rest
                     in if label \<noteq> [] then record_perf_counter value label line r else r)))"

definition parse_perf_output :: "string option \<Rightarrow> perf_result" where
  "parse_perf_output content =
     (case content of
        None \<Rightarrow> perf_default
      | Some c \<Rightarrow>
          let r = fold perf_line (lines c) perf_default
          in (case (pr_ipc r, pr_instructions r, pr_cycles r) of
                (None, Some instructions, Some cycles) \<Rightarrow>
                  if 0 < cycles then r\<lparr>pr_ipc := Some (f_of_word instructions / f_of_word cycles)\<rparr> else r
              | _ \<Rightarrow> r))"

section \<open>\<open>bpftrace\<close>\<close>

record mem_copy_result =
  mc_copy_to_user :: "u64 option"
  mc_copy_from_user :: "u64 option"
  mc_sendmsg :: "u64 option"
  mc_recvmsg :: "u64 option"
  mc_splice :: "u64 option"
  mc_poll :: "u64 option"
  mc_ppoll :: "u64 option"
  mc_io_uring_enter :: "u64 option"

definition mem_copy_default :: mem_copy_result where
  "mem_copy_default = \<lparr>mc_copy_to_user = None, mc_copy_from_user = None, mc_sendmsg = None,
     mc_recvmsg = None, mc_splice = None, mc_poll = None, mc_ppoll = None, mc_io_uring_enter = None\<rparr>"

definition total_copies :: "mem_copy_result \<Rightarrow> u64 option" where
  "total_copies r =
     (case (mc_copy_to_user r, mc_copy_from_user r) of
        (None, None) \<Rightarrow> None
      | (a, b) \<Rightarrow> Some (unwrap_or_0 a + unwrap_or_0 b))"

definition copies_per_msg :: "u64 \<Rightarrow> mem_copy_result \<Rightarrow> f64 option" where
  "copies_per_msg messages r =
     (if messages = 0 then None
      else map_option (\<lambda>c. f_of_word c / f_of_word messages) (total_copies r))"

definition pid_filter :: "int list \<Rightarrow> string" where
  "pid_filter pids = join_with '' || '' (map (\<lambda>p. ''pid == '' @ show_int p) pids)"

text \<open>Which jobs a sampler ends up with: the syscall counters first, then the copy probes; none at all
  without PIDs, without \<open>bpftrace\<close>, or when both fail to start.\<close>

definition mem_copy_start :: "int list \<Rightarrow> bool \<Rightarrow> 'j option \<Rightarrow> 'j option \<Rightarrow> 'j list option" where
  "mem_copy_start pids available syscalls_job copies_job =
     (if pids = [] \<or> \<not> available then None
      else let jobs = List.map_filter id [syscalls_job, copies_job]
           in if jobs = [] then None else Some jobs)"

definition mem_copy_line :: "string \<Rightarrow> mem_copy_result \<Rightarrow> mem_copy_result" where
  "mem_copy_line raw_line r =
     (case split_once (CHR '':'') (trim raw_line) of
        None \<Rightarrow> r
      | Some (k, value) \<Rightarrow>
          (case parse_u64 (trim value) of
             None \<Rightarrow> r
           | Some n \<Rightarrow>
               let k = trim k in
               if k = ''@copy_to_user'' then r\<lparr>mc_copy_to_user := Some n\<rparr>
               else if k = ''@copy_from_user'' then r\<lparr>mc_copy_from_user := Some n\<rparr>
               else if k = ''@sendmsg'' then r\<lparr>mc_sendmsg := Some n\<rparr>
               else if k = ''@recvmsg'' then r\<lparr>mc_recvmsg := Some n\<rparr>
               else if k = ''@splice'' then r\<lparr>mc_splice := Some n\<rparr>
               else if k = ''@poll'' then r\<lparr>mc_poll := Some n\<rparr>
               else if k = ''@ppoll'' then r\<lparr>mc_ppoll := Some n\<rparr>
               else if k = ''@io_uring_enter'' then r\<lparr>mc_io_uring_enter := Some n\<rparr>
               else r))"

definition parse_mem_copies_into :: "string option \<Rightarrow> mem_copy_result \<Rightarrow> mem_copy_result" where
  "parse_mem_copies_into content r =
     (case content of None \<Rightarrow> r | Some c \<Rightarrow> fold mem_copy_line (lines c) r)"

definition mem_copy_stop :: "string option list \<Rightarrow> mem_copy_result" where
  "mem_copy_stop outputs = fold parse_mem_copies_into outputs mem_copy_default"

section \<open>The rollup\<close>

definition clk_tck :: "int \<Rightarrow> f64" where
  "clk_tck t = (if 0 < t then Fin (of_int t) else Fin 100)"

text \<open>Whole seconds between two clock readings in milliseconds.\<close>

definition span_secs :: "u64 \<Rightarrow> u64 \<Rightarrow> f64" where
  "span_secs later earlier = f_of_word (sat_sub later earlier) / Fin 1000"

definition cpu_percent :: "system_sample \<Rightarrow> system_sample \<Rightarrow> f64 \<Rightarrow> f64" where
  "cpu_percent prev cur tck =
     (let dt = span_secs (ss_elapsed_ms cur) (ss_elapsed_ms prev) in
      if fle dt 0 then 0
      else let prev_ticks = ss_utime_ticks prev + ss_stime_ticks prev;
               cur_ticks = ss_utime_ticks cur + ss_stime_ticks cur;
               delta = f_of_word (sat_sub cur_ticks prev_ticks)
           in delta / tck / dt * Fin 100)"

fun hottest_delta :: "(u32 \<times> u64) list \<Rightarrow> (u32 \<times> u64) list \<Rightarrow> u64 \<Rightarrow> u64" where
  "hottest_delta prev [] h = h"
| "hottest_delta prev ((tid, cur_ticks) # cur) h =
     (case find (\<lambda>(t, _). t = tid) prev of
        Some (_, prev_ticks) \<Rightarrow> hottest_delta prev cur (max h (sat_sub cur_ticks prev_ticks))
      | None \<Rightarrow> hottest_delta prev cur h)"

definition hot_thread_percent :: "system_sample \<Rightarrow> system_sample \<Rightarrow> f64 \<Rightarrow> f64" where
  "hot_thread_percent prev cur tck =
     (let dt = span_secs (ss_elapsed_ms cur) (ss_elapsed_ms prev) in
      if fle dt 0 then 0
      else f_of_word (hottest_delta (ss_thread_ticks prev) (ss_thread_ticks cur) 0) / tck / dt * Fin 100)"

text \<open>The nearest-rank percentile; no series here holds NaN, so the sort is the total order.\<close>

definition nearest_rank :: "f64 list \<Rightarrow> f64 \<Rightarrow> f64" where
  "nearest_rank values p =
     (if values = [] then 0
      else let srt = sort values;
               rank = f_to_usize (fceil (f_of_nat (length values) * fclamp p 0 1))
           in srt ! min (rank - 1) (length values - 1))"

text \<open>\<open>BTreeMap::entry(k).or_insert(d)\<close> followed by an update, on the sorted association list.\<close>

fun bt_upd :: "'k::linorder \<Rightarrow> 'v \<Rightarrow> ('v \<Rightarrow> 'v) \<Rightarrow> ('k \<times> 'v) list \<Rightarrow> ('k \<times> 'v) list" where
  "bt_upd k d f [] = [(k, f d)]"
| "bt_upd k d f ((k', v) # m) =
     (if k < k' then (k, f d) # (k', v) # m
      else if k = k' then (k, f v) # m
      else (k', v) # bt_upd k d f m)"

record sys_agg =
  sa_n_pids :: nat
  sa_cpu_pct_peak :: f64
  sa_cpu_pct_mean :: f64
  sa_cpu_pct_p95 :: f64
  sa_cpu_hot_thread_pct_peak :: f64
  sa_cpu_hot_thread_pct_p95 :: f64
  sa_host_busy_frac_p95 :: f64
  sa_rss_peak_kib :: u64
  sa_pss_peak_kib :: u64
  sa_ctx_switches_per_s :: f64
  sa_cpu_seconds_total :: f64
  sa_ctx_switches_total :: u64
  sa_window_s :: f64

text \<open>The accumulators of \<open>aggregate\<close>.\<close>

record roll =
  ro_cpu :: "(u64 \<times> f64) list"
  ro_rss :: "(u64 \<times> u64) list"
  ro_pss :: "(u64 \<times> u64) list"
  ro_hot :: "(u64 \<times> f64) list"
  ro_host :: "(u64 \<times> u64 \<times> u64) list"
  ro_ctx :: u64
  ro_ticks :: u64
  ro_span :: f64

definition roll_empty :: roll where
  "roll_empty = \<lparr>ro_cpu = [], ro_rss = [], ro_pss = [], ro_hot = [], ro_host = [], ro_ctx = 0,
     ro_ticks = 0, ro_span = 0\<rparr>"

fun distinct_pids :: "system_sample list \<Rightarrow> u32 list \<Rightarrow> u32 list" where
  "distinct_pids [] pids = pids"
| "distinct_pids (s # ss) pids =
     (if ss_pid s \<in> set pids then distinct_pids ss pids else distinct_pids ss (pids @ [ss_pid s]))"

definition roll_sample :: "f64 \<Rightarrow> system_sample option \<Rightarrow> system_sample \<Rightarrow> roll \<Rightarrow> roll" where
  "roll_sample tck prev s a =
     (let cpu = (case prev of Some p \<Rightarrow> cpu_percent p s tck | None \<Rightarrow> 0);
          hot = (case prev of Some p \<Rightarrow> hot_thread_percent p s tck | None \<Rightarrow> 0);
          t = ss_elapsed_ms s
      in a\<lparr>ro_cpu := bt_upd t 0 (\<lambda>v. v + cpu) (ro_cpu a),
           ro_rss := bt_upd t 0 (\<lambda>v. v + ss_rss_kib s) (ro_rss a),
           ro_pss := bt_upd t 0 (\<lambda>v. v + ss_pss_kib s) (ro_pss a),
           ro_hot := bt_upd t 0 (\<lambda>v. fmax v hot) (ro_hot a),
           ro_host := bt_upd t (ss_host_busy_ticks s, ss_host_total_ticks s) id (ro_host a)\<rparr>)"

fun roll_series :: "f64 \<Rightarrow> system_sample option \<Rightarrow> system_sample list \<Rightarrow> roll \<Rightarrow> roll" where
  "roll_series tck prev [] a = a"
| "roll_series tck prev (s # ss) a = roll_series tck (Some s) ss (roll_sample tck prev s a)"

definition ctx_sum :: "system_sample \<Rightarrow> u64" where
  "ctx_sum s = ss_voluntary_ctxt s + ss_nonvoluntary_ctxt s"

definition tick_sum :: "system_sample \<Rightarrow> u64" where
  "tick_sum s = ss_utime_ticks s + ss_stime_ticks s"

definition roll_totals :: "system_sample list \<Rightarrow> roll \<Rightarrow> roll" where
  "roll_totals series a =
     (if series = [] then a
      else let first = hd series; lst = last series
           in a\<lparr>ro_ctx := ro_ctx a + sat_sub (ctx_sum lst) (ctx_sum first),
                ro_ticks := ro_ticks a + sat_sub (tick_sum lst) (tick_sum first),
                ro_span := fmax (ro_span a) (span_secs (ss_elapsed_ms lst) (ss_elapsed_ms first))\<rparr>)"

definition roll_pid :: "f64 \<Rightarrow> system_sample list \<Rightarrow> u32 \<Rightarrow> roll \<Rightarrow> roll" where
  "roll_pid tck samples pid a =
     (let series = filter (\<lambda>s. ss_pid s = pid) samples
      in roll_totals series (roll_series tck None series a))"

fun host_series :: "(u64 \<times> u64 \<times> u64) list \<Rightarrow> (u64 \<times> u64) option \<Rightarrow> f64 list" where
  "host_series [] prev = []"
| "host_series ((_, busy, tot) # m) prev =
     (case prev of
        None \<Rightarrow> []
      | Some (pb, pt) \<Rightarrow>
          let dtotal = sat_sub tot pt
          in if 0 < dtotal then [f_of_word (sat_sub busy pb) / f_of_word dtotal] else [])
     @ host_series m (Some (busy, tot))"

definition peak_kib :: "(u64 \<times> u64) list \<Rightarrow> u64" where
  "peak_kib m = (case map snd m of [] \<Rightarrow> 0 | v # vs \<Rightarrow> foldl max v vs)"

definition aggregate :: "int \<Rightarrow> system_sample list \<Rightarrow> sys_agg option" where
  "aggregate sc_clk_tck samples =
     (if samples = [] then None
      else
        let tck = clk_tck sc_clk_tck;
            pids = distinct_pids samples [];
            a = fold (roll_pid tck samples) pids roll_empty;
            times = map fst (ro_cpu a);
            measured = (if 1 < length times then tl times else times);
            cpu_series = map (\<lambda>t. case map_of (ro_cpu a) t of Some v \<Rightarrow> v | None \<Rightarrow> NaN) measured;
            hot_series = List.map_filter (map_of (ro_hot a)) measured;
            cpu_seconds_total = f_of_word (ro_ticks a) / tck;
            (cpu_pct_mean, ctx_per_s) =
              (if flt 0 (ro_span a)
               then (cpu_seconds_total / ro_span a * Fin 100, f_of_word (ro_ctx a) / ro_span a) else (0, 0))
        in Some \<lparr>sa_n_pids = length pids, sa_cpu_pct_peak = foldl fmax 0 cpu_series,
             sa_cpu_pct_mean = cpu_pct_mean, sa_cpu_pct_p95 = nearest_rank cpu_series (Fin (95 / 100)),
             sa_cpu_hot_thread_pct_peak = foldl fmax 0 hot_series,
             sa_cpu_hot_thread_pct_p95 = nearest_rank hot_series (Fin (95 / 100)),
             sa_host_busy_frac_p95 = nearest_rank (host_series (ro_host a) None) (Fin (95 / 100)),
             sa_rss_peak_kib = peak_kib (ro_rss a), sa_pss_peak_kib = peak_kib (ro_pss a),
             sa_ctx_switches_per_s = ctx_per_s, sa_cpu_seconds_total = cpu_seconds_total,
             sa_ctx_switches_total = ro_ctx a, sa_window_s = ro_span a\<rparr>)"

section \<open>The CSV files\<close>

definition sys_headers :: "string list" where
  "sys_headers =
     [''elapsed_ms'', ''cpu_pct'', ''hot_thread_cpu_pct'', ''rss_kib'', ''pss_kib'', ''threads'',
      ''utime_ticks'', ''stime_ticks'', ''voluntary_ctxt_switches'', ''nonvoluntary_ctxt_switches'',
      ''read_bytes'', ''write_bytes'']"

definition sys_row :: "f64 \<Rightarrow> system_sample option \<Rightarrow> system_sample \<Rightarrow> string list" where
  "sys_row tck prev s =
     [show_word (ss_elapsed_ms s),
      num (case prev of Some p \<Rightarrow> cpu_percent p s tck | None \<Rightarrow> 0) 2,
      num (case prev of Some p \<Rightarrow> hot_thread_percent p s tck | None \<Rightarrow> 0) 2,
      show_word (ss_rss_kib s), show_word (ss_pss_kib s), show_word (ss_threads s),
      show_word (ss_utime_ticks s), show_word (ss_stime_ticks s), show_word (ss_voluntary_ctxt s),
      show_word (ss_nonvoluntary_ctxt s), show_word (ss_read_bytes s), show_word (ss_write_bytes s)]"

fun sys_rows :: "f64 \<Rightarrow> system_sample option \<Rightarrow> system_sample list \<Rightarrow> csv \<Rightarrow> csv" where
  "sys_rows tck prev [] c = c"
| "sys_rows tck prev (s # ss) c = sys_rows tck (Some s) ss (csv_row (sys_row tck prev s) c)"

text \<open>File names and contents, in the order they are written.\<close>

definition sys_csv_files :: "int \<Rightarrow> system_sample list \<Rightarrow> (string \<times> string) list" where
  "sys_csv_files sc_clk_tck samples =
     map (\<lambda>pid. (''gateway_pid_'' @ show_word pid @ ''.csv'',
            render (sys_rows (clk_tck sc_clk_tck) None (filter (\<lambda>s. ss_pid s = pid) samples) (csv_new sys_headers))))
       (distinct_pids samples [])"

section \<open>Parsing\<close>

lemma parse_u64_show [simp]: "parse_u64 (show_word w) = Some w"
proof -
  have "unat w \<le> 2 ^ 64 - 1" using unat_lt2p [of w] by simp
  then show ?thesis by (simp add: parse_u64_def show_word_def parse_show_nat)
qed

lemma rsplit_once_append: "c \<notin> set t \<Longrightarrow> rsplit_once c (h @ c # t) = Some (h, t)"
proof (induction h)
  case Nil
  then have "rsplit_once c t = None" by (simp add: rsplit_once_None)
  then show ?case by simp
qed simp

lemma join_ends:
  assumes "ws \<noteq> []" and "list_all (\<lambda>w. w \<noteq> []) ws"
  shows "join_with sep ws \<noteq> [] \<and> hd (join_with sep ws) = hd (hd ws) \<and> last (join_with sep ws) = last (last ws)"
  using assms by (induction sep ws rule: join_with.induct) auto

lemma set_join: "set (join_with sep ws) \<subseteq> set sep \<union> \<Union> (set ` set ws)"
  by (induction sep ws rule: join_with.induct) auto

text \<open>
  A thread-group name may hold blanks and parentheses; the fields behind it are found all the same.
\<close>

text \<open>
  \<open>/proc/<pid>/stat\<close> is read correctly whatever the process is called: with any command name,
  blanks and parentheses included, between the outer parentheses, the parser returns the user time, the
  system time and the thread count that fields 14, 15 and 20 spell out.
\<close>

theorem parse_stat_any_comm:
  assumes "18 \<le> length f"
    and "list_all (\<lambda>w. w \<noteq> [] \<and> list_all (\<lambda>c. \<not> is_ws c \<and> c \<noteq> CHR '')'') w) f"
    and "f ! 11 = show_word utime" and "f ! 12 = show_word stime" and "f ! 17 = show_word threads"
  shows "parse_stat (show_int pid @ '' ('' @ comm @ '') '' @ join_with '' '' f) = Some (utime, stime, threads)"
proof -
  let ?j = "join_with '' '' f"
  have ne: "f \<noteq> []" using assms(1) by auto
  have "CHR '')'' \<notin> set ?j"
    using set_join [of "'' ''" f] assms(2) by (fastforce simp: list_all_iff)
  then have "rsplit_once (CHR '')'') ((show_int pid @ '' ('' @ comm) @ CHR '')'' # CHR '' '' # ?j)
      = Some (show_int pid @ '' ('' @ comm, CHR '' '' # ?j)"
    by (intro rsplit_once_append) simp
  then have rs: "rsplit_once (CHR '')'') (show_int pid @ '' ('' @ comm @ '') '' @ ?j)
      = Some (show_int pid @ '' ('' @ comm, CHR '' '' # ?j)"
    by simp
  have ends: "?j \<noteq> []" "hd ?j = hd (hd f)" "last ?j = last (last f)"
    using join_ends [OF ne, of "'' ''"] assms(2) by (auto simp: list_all_iff)
  have w: "w \<noteq> []" "\<not> is_ws (hd w)" "\<not> is_ws (last w)" if "w \<in> set f" for w
    using that assms(2) by (auto simp: list_all_iff)
  have "trim (CHR '' '' # ?j) = trim ?j"
    using trim_ws_prefix [of "'' ''" ?j] by (simp add: is_ws_def)
  also have "\<dots> = ?j" using w [of "hd f"] w [of "last f"] ne ends by (intro trim_id) auto
  finally have tr: "trim (CHR '' '' # ?j) = ?j" .
  have "list_all (\<lambda>w. w \<noteq> [] \<and> list_all (\<lambda>c. \<not> is_ws c) w) f"
    using assms(2) by (auto simp: list_all_iff)
  then have "split_whitespace ?j = f" by (rule split_whitespace_join)
  then show ?thesis using assms rs by (simp add: parse_stat_def tr Let_def)
qed

lemma parse_stat_any_comm_witness:
  "parse_stat (show_int 1234 @ '' ('' @ ''weird ) name'' @ '') ''
     @ join_with '' '' ([''S''] @ replicate 10 ''1'' @ [show_word (42 :: u64), show_word (7 :: u64)] @ replicate 4 ''0'' @ [show_word (9 :: u64)]))
   = Some (42, 7, 9)"
  (is "parse_stat (_ @ _ @ _ @ _ @ join_with _ ?f) = _")
proof (rule parse_stat_any_comm)
  let ?ok = "\<lambda>w. w \<noteq> [] \<and> list_all (\<lambda>c. \<not> is_ws c \<and> c \<noteq> CHR '')'') w"
  have "?ok (show_word w)" for w :: u64
    using show_nat_digits [of "unat w"] by (auto simp: show_word_def list_all_iff is_digit_def is_ws_def)
  moreover have "?ok ''S''" "?ok ''1''" "?ok ''0''" by (simp_all add: is_ws_def)
  ultimately show "list_all ?ok ?f"
    by (simp only: list_all_append) (simp add: list_all_iff)
qed (simp_all add: nth_append)

text \<open>
  The fallback parser of human-readable \<open>perf\<close> output never sees a counter of a million: with two
  thousands separators the line passes for CSV.
\<close>

lemma perf_million_misread:
  "perf_line ''1,234,567 cycles'' r = r\<lparr>pr_cycles := Some 1\<rparr>"
proof -
  have "trim ''1,234,567 cycles'' = ''1,234,567 cycles''" by code_simp
  moreover have "perf_csv_fields ''1,234,567 cycles'' = Some (''1'', ''567 cycles'')" by code_simp
  moreover have "contains ''567 cycles'' ''cycles''" "\<not> contains ''567 cycles'' ''instructions''"
    by simp_all
  moreover have "show_word (1 :: u64) = ''1''"
    by code_simp
  then have "parse_u64 ''1'' = Some 1" using parse_u64_show [of 1] by simp
  then have "parse_perf_u64 ''1'' = Some 1"
    by (simp add: parse_perf_u64_def trim_def is_ws_def no_commas_def)
  ultimately show ?thesis by (simp add: perf_line_def record_perf_counter_def)
qed


section \<open>The rollup\<close>

lemma set_distinct_pids: "set (distinct_pids ss ps) = set ps \<union> ss_pid ` set ss"
  by (induction ss arbitrary: ps) auto

lemma distinct_distinct_pids: "distinct ps \<Longrightarrow> distinct (distinct_pids ss ps)"
  by (induction ss arbitrary: ps) auto

abbreviation series_of :: "system_sample list \<Rightarrow> u32 \<Rightarrow> system_sample list" where
  "series_of samples pid \<equiv> filter (\<lambda>s. ss_pid s = pid) samples"

lemma roll_series_totals [simp]:
  "ro_ctx (roll_series tck prev ss a) = ro_ctx a" "ro_ticks (roll_series tck prev ss a) = ro_ticks a"
  "ro_span (roll_series tck prev ss a) = ro_span a"
  by (induction ss arbitrary: prev a) (simp_all add: roll_sample_def Let_def)

text \<open>What a PID adds to the totals.\<close>

definition gain :: "(system_sample \<Rightarrow> u64) \<Rightarrow> system_sample list \<Rightarrow> u64" where
  "gain f ss = sat_sub (f (last ss)) (f (hd ss))"

lemma fold_roll_totals:
  assumes "\<forall>p\<in>set ps. series_of xs p \<noteq> []"
  shows "ro_ctx (fold (roll_pid tck xs) ps a) = ro_ctx a + sum_list (map (gain ctx_sum \<circ> series_of xs) ps)
       \<and> ro_ticks (fold (roll_pid tck xs) ps a) = ro_ticks a + sum_list (map (gain tick_sum \<circ> series_of xs) ps)
       \<and> ro_span (fold (roll_pid tck xs) ps a)
         = foldl fmax (ro_span a) (map (\<lambda>p. span_secs (ss_elapsed_ms (last (series_of xs p)))
              (ss_elapsed_ms (hd (series_of xs p)))) ps)"
  using assms
proof (induction ps arbitrary: a)
  case Nil
  then show ?case by simp
next
  case (Cons p ps)
  then show ?case by (simp add: roll_pid_def roll_totals_def Let_def gain_def)
qed

lemma series_ne: "p \<in> set (distinct_pids xs []) \<Longrightarrow> series_of xs p \<noteq> []"
  by (auto simp: set_distinct_pids filter_empty_conv)

text \<open>
  C35: The headline totals of a run do not depend on the sampling rate: the context switches and the
  CPU seconds are exactly the sums over the sampled processes of what their cumulative counters grew by
  from the first to the last sample, and any two timeseries with the same first and last sample of every
  process agree on them, on the covered window and on the mean CPU share and switch rate.
\<close>

theorem aggregate_rate_independent:
  assumes "aggregate k xs = Some A" and "aggregate k ys = Some B"
    and "distinct_pids xs [] = distinct_pids ys []"
    and "\<forall>p\<in>set (distinct_pids xs []). hd (series_of xs p) = hd (series_of ys p)
           \<and> last (series_of xs p) = last (series_of ys p)"
  shows "sa_ctx_switches_total A = sum_list (map (gain ctx_sum \<circ> series_of xs) (distinct_pids xs []))
       \<and> sa_cpu_seconds_total A
         = f_of_word (sum_list (map (gain tick_sum \<circ> series_of xs) (distinct_pids xs []))) / clk_tck k
       \<and> sa_n_pids A = card (ss_pid ` set xs)
       \<and> (sa_ctx_switches_total B, sa_cpu_seconds_total B, sa_window_s B, sa_cpu_pct_mean B, sa_ctx_switches_per_s B)
         = (sa_ctx_switches_total A, sa_cpu_seconds_total A, sa_window_s A, sa_cpu_pct_mean A, sa_ctx_switches_per_s A)"
proof -
  let ?ps = "distinct_pids xs []" and ?tck = "clk_tck k"
  let ?a = "fold (roll_pid ?tck xs) ?ps roll_empty" and ?b = "fold (roll_pid ?tck ys) ?ps roll_empty"
  have "\<forall>p\<in>set ?ps. series_of xs p \<noteq> []" "\<forall>p\<in>set ?ps. series_of ys p \<noteq> []"
    using series_ne assms(3) by metis+
  note a = fold_roll_totals [OF this(1), of ?tck roll_empty] and b = fold_roll_totals [OF this(2), of ?tck roll_empty]
  have g: "map (gain f \<circ> series_of ys) ?ps = map (gain f \<circ> series_of xs) ?ps" for f
    using assms(4) by (simp add: gain_def)
  have sp: "map (\<lambda>p. span_secs (ss_elapsed_ms (last (series_of ys p))) (ss_elapsed_ms (hd (series_of ys p)))) ?ps
      = map (\<lambda>p. span_secs (ss_elapsed_ms (last (series_of xs p))) (ss_elapsed_ms (hd (series_of xs p)))) ?ps"
    using assms(4) by simp
  have tot: "ro_ctx ?b = ro_ctx ?a" "ro_ticks ?b = ro_ticks ?a" "ro_span ?b = ro_span ?a"
    by (simp_all only: a b g sp)
  have n: "length ?ps = card (ss_pid ` set xs)"
    using distinct_card [OF distinct_distinct_pids [of "[]" xs]] by (simp add: set_distinct_pids)
  have A: "sa_ctx_switches_total A = ro_ctx ?a \<and> sa_cpu_seconds_total A = f_of_word (ro_ticks ?a) / ?tck
      \<and> sa_window_s A = ro_span ?a \<and> sa_n_pids A = length ?ps
      \<and> (sa_cpu_pct_mean A, sa_ctx_switches_per_s A)
        = (if flt 0 (ro_span ?a) then (f_of_word (ro_ticks ?a) / ?tck / ro_span ?a * Fin 100, f_of_word (ro_ctx ?a) / ro_span ?a)
           else (0, 0))"
    using assms(1) by (auto simp: aggregate_def Let_def split: if_splits)
  have B: "sa_ctx_switches_total B = ro_ctx ?b \<and> sa_cpu_seconds_total B = f_of_word (ro_ticks ?b) / ?tck
      \<and> sa_window_s B = ro_span ?b
      \<and> (sa_cpu_pct_mean B, sa_ctx_switches_per_s B)
        = (if flt 0 (ro_span ?b) then (f_of_word (ro_ticks ?b) / ?tck / ro_span ?b * Fin 100, f_of_word (ro_ctx ?b) / ro_span ?b)
           else (0, 0))"
    using assms(2) by (auto simp: aggregate_def Let_def assms(3) split: if_splits)
  have "ro_ctx ?a = sum_list (map (gain ctx_sum \<circ> series_of xs) ?ps)"
    "ro_ticks ?a = sum_list (map (gain tick_sum \<circ> series_of xs) ?ps)"
    using a by (simp_all add: roll_empty_def)
  then show ?thesis using A B n by (simp add: tot)
qed


lemma aggregate_some: "xs \<noteq> [] \<Longrightarrow> \<exists>A. aggregate k xs = Some A"
  by (simp add: aggregate_def Let_def split_beta)

definition demo_sample :: "u64 \<Rightarrow> u64 \<Rightarrow> system_sample" where
  "demo_sample ms ticks = \<lparr>ss_elapsed_ms = ms, ss_pid = 1, ss_rss_kib = 0, ss_pss_kib = 0, ss_threads = 1,
     ss_utime_ticks = ticks, ss_stime_ticks = 0, ss_voluntary_ctxt = ticks, ss_nonvoluntary_ctxt = 0,
     ss_read_bytes = 0, ss_write_bytes = 0, ss_thread_ticks = [], ss_host_busy_ticks = 0,
     ss_host_total_ticks = 0\<rparr>"

lemma aggregate_rate_independent_witness:
  "\<exists>A B. aggregate 100 [demo_sample 0 0, demo_sample 500 90, demo_sample 1000 100] = Some A
     \<and> aggregate 100 [demo_sample 0 0, demo_sample 1000 100] = Some B
     \<and> sa_ctx_switches_total A = 100 \<and> sa_cpu_seconds_total B = sa_cpu_seconds_total A"
  (is "\<exists>A B. aggregate 100 ?xs = _ \<and> aggregate 100 ?ys = _ \<and> _")
proof -
  obtain A B where ab: "aggregate 100 ?xs = Some A" "aggregate 100 ?ys = Some B"
    using aggregate_some [of ?xs 100] aggregate_some [of ?ys 100] by auto
  have p: "ss_pid (demo_sample a b) = 1" "ctx_sum (demo_sample a b) = b" for a b
    by (simp_all add: demo_sample_def ctx_sum_def)
  have "sa_ctx_switches_total A = 100 \<and> sa_cpu_seconds_total B = sa_cpu_seconds_total A"
    using aggregate_rate_independent [OF ab] by (simp add: p gain_def sat_sub_def)
  with ab show ?thesis by blast
qed

section \<open>The nearest-rank percentile\<close>

lemma sorted_below:
  assumes "sorted xs" and "i < length xs"
  shows "length (filter (\<lambda>x. x < xs ! i) xs) \<le> i" and "i + 1 \<le> length (filter (\<lambda>x. x \<le> xs ! i) xs)"
proof -
  have ge: "\<forall>x\<in>set (drop i xs). xs ! i \<le> x"
    using assms by (auto simp: in_set_conv_nth sorted_iff_nth_mono)
  have le: "\<forall>x\<in>set (take (Suc i) xs). x \<le> xs ! i"
    using assms by (auto simp: in_set_conv_nth sorted_iff_nth_mono)
  have "filter (\<lambda>x. x < xs ! i) xs = filter (\<lambda>x. x < xs ! i) (take i xs) @ filter (\<lambda>x. x < xs ! i) (drop i xs)"
    by (metis append_take_drop_id filter_append)
  also have "filter (\<lambda>x. x < xs ! i) (drop i xs) = []" using ge by (auto simp: filter_empty_conv)
  finally show "length (filter (\<lambda>x. x < xs ! i) xs) \<le> i"
    using length_filter_le [of "\<lambda>x. x < xs ! i" "take i xs"] by simp
  have "filter (\<lambda>x. x \<le> xs ! i) xs
      = filter (\<lambda>x. x \<le> xs ! i) (take (Suc i) xs) @ filter (\<lambda>x. x \<le> xs ! i) (drop (Suc i) xs)"
    by (metis append_take_drop_id filter_append)
  moreover have "filter (\<lambda>x. x \<le> xs ! i) (take (Suc i) xs) = take (Suc i) xs"
    using le by (simp add: filter_id_conv)
  ultimately show "i + 1 \<le> length (filter (\<lambda>x. x \<le> xs ! i) xs)" using assms(2) by simp
qed

lemma length_filter_sort: "length (filter P (sort xs)) = length (filter P xs)"
  by (metis filter_sort length_sort)

text \<open>
  The p95 of a series is its nearest-rank percentile: a value of the series that at least that share of
  the series does not exceed, while less than that share is smaller.
\<close>

lemma nearest_rank_correct:
  assumes "vs = map Fin rs" and "rs \<noteq> []" and "0 < p" and "p \<le> 1"
  shows "\<exists>r. nearest_rank vs (Fin p) = Fin r \<and> r \<in> set rs
       \<and> p * real (length rs) \<le> real (length (filter (\<lambda>x. x \<le> r) rs))
       \<and> real (length (filter (\<lambda>x. x < r) rs)) < p * real (length rs)"
proof -
  let ?n = "length rs" and ?x = "p * real (length rs)"
  define k where "k = nat \<lceil>?x\<rceil>"
  have n: "0 < ?n" using assms(2) by simp
  then have x: "0 < ?x" "?x \<le> real ?n" using assms(3,4) by (simp_all add: mult_left_le_one_le)
  have k: "?x \<le> real k" "real k < ?x + 1" unfolding k_def using x(1) by linarith+
  have k1: "1 \<le> k" "k \<le> ?n" using x k by linarith+
  have "fclamp (Fin p) 0 1 = Fin p" using assms(3,4) by (simp add: zero_f64_def one_f64_def f64_simps)
  then have rank: "f_to_usize (fceil (f_of_nat (length vs) * fclamp (Fin p) 0 1)) = k"
    by (simp add: assms(1) f64_simps k_def mult.commute)
  have "min (k - 1) (length vs - 1) = k - 1" using k1 by (simp add: assms(1))
  moreover have "sort vs = map Fin (sort rs)" by (simp add: assms(1) sort_Fin)
  moreover have "vs \<noteq> []" using assms(1,2) by simp
  ultimately have v: "nearest_rank vs (Fin p) = Fin (sort rs ! (k - 1))"
    using k1 by (simp add: nearest_rank_def Let_def rank)
  have i: "k - 1 < length (sort rs)" using k1 by simp
  note sb = sorted_below [OF sorted_sort i, unfolded length_filter_sort]
  have "?x \<le> real (length (filter (\<lambda>x. x \<le> sort rs ! (k - 1)) rs))" using sb(2) k k1 by linarith
  moreover have "real (length (filter (\<lambda>x. x < sort rs ! (k - 1)) rs)) < ?x" using sb(1) k k1 by linarith
  moreover have "sort rs ! (k - 1) \<in> set rs" using nth_mem [OF i] by simp
  ultimately show ?thesis using v by blast
qed

section \<open>The sampler\<close>

text \<open>Ticks keep their distance: the next one is due strictly after the last, and not more than an
  interval after the clock that decided it, so a sampler that fell behind does not burst to catch up.\<close>

definition next_tick :: "nat \<Rightarrow> nat \<Rightarrow> nat \<Rightarrow> nat" where
  "next_tick interval nxt now =
     (if nxt \<le> now then if nxt + interval \<le> now then now + interval else nxt + interval else nxt)"

lemma next_tick_bounds:
  assumes "0 < interval"
  shows "now < next_tick interval nxt now"
    and "nxt \<le> now \<Longrightarrow> next_tick interval nxt now \<le> now + interval"
  using assms by (auto simp: next_tick_def)

lemma sample_loop_Cons:
  "sample_loop pids interval nxt (t # ts) =
     (if st_stop t then Some ([], [])
      else map_option (\<lambda>(ss, ws). ((if nxt \<le> st_now t then tick_samples pids (st_now t) (st_fs t) else []) @ ss,
               min (next_tick interval nxt (st_now t) - st_wait_from t) MAX_SLEEP_NS # ws))
             (sample_loop pids interval (next_tick interval nxt (st_now t)) ts))"
  by (simp add: Let_def next_tick_def)

lemma tick_samples_elapsed:
  "s \<in> set (tick_samples pids now fs) \<Longrightarrow> ss_elapsed_ms s = of_nat (now div 1000000)"
  by (auto simp: tick_samples_def sample_pid_def List.map_filter_def split_beta split: option.splits)

lemma sample_loop_waits:
  "sample_loop pids interval nxt ts = Some (ss, ws) \<Longrightarrow> \<forall>w\<in>set ws. w \<le> MAX_SLEEP_NS"
proof (induction ts arbitrary: nxt ss ws)
  case (Cons t ts)
  then show ?case unfolding sample_loop_Cons by (auto split: if_splits)
qed simp

end
