(* ===== verification/Gateway_Config.thy ===== *)
theory Gateway_Config
  imports Text Schema
begin

text \<open>
  The gateway's JSON configuration, \<open>src/src/gateway/config.rs\<close>: the documents, their builders and what
  their serialization emits. Provider parameters are a map, as the JSON object they are flattened into;
  the fields a structure emits under its own names are an association list in declaration order.
\<close>

datatype json = JNull | JBool bool | JNum int | JFlt f64 | JStr string | JArr "json list" | JObj "(string \<times> json) list"

definition CONN_POOL_HEADROOM :: nat where "CONN_POOL_HEADROOM = 8"
definition MIN_POOL_SIZE :: nat where "MIN_POOL_SIZE = 32"
definition MAX_CONN_POOL_SIZE :: nat where "MAX_CONN_POOL_SIZE = 4096"

section \<open>Documents\<close>

record whitelist_entry =
  we_source :: string
  we_destination :: string

record policy_config =
  po_default_action :: string
  po_whitelist :: "whitelist_entry list"

record shm_tuning =
  sh_ring_kind :: "string option"
  sh_segment_size :: "nat option"
  sh_num_segments :: "nat option"
  sh_g2c_notify :: "string option"

record api_config =
  ap_enabled :: bool
  ap_create_rate_per_min :: u32
  ap_max_endpoints_per_uid :: u32
  ap_uds_path :: string
  ap_tcp_addr :: "string option"
  ap_runtime_dir :: string
  ap_shm_ring_capacity :: nat
  ap_shm_ring_kind :: "string option"
  ap_shm_segment_size :: "nat option"
  ap_shm_num_segments :: "nat option"
  ap_shm_g2c_notify :: "string option"

record rule_config =
  ru_name :: string
  ru_direction :: string
  ru_listen_addr :: string
  ru_listen_proto :: string
  ru_upstream_addr :: string
  ru_upstream_proto :: string
  ru_security_provider :: string
  ru_app_protocol :: "string option"
  ru_protocol_version :: "string option"
  ru_traffic_class :: string
  ru_app_id :: "string option"
  ru_allowed_uids :: "u32 list"
  ru_provider_params :: "string \<rightharpoonup> json"
  ru_zero_copy :: bool
  ru_spin_wait_us :: u64
  ru_perf_profile :: "string option"
  ru_sock_buf_size :: "nat option"
  ru_pipe_size :: "nat option"
  ru_relay_buf_size :: "nat option"
  ru_notsent_lowat :: "nat option"
  ru_busy_poll_us :: u32
  ru_bdp_adaptive :: bool
  ru_bdp_queue_budget_us :: "u64 option"
  ru_simulated_delay_ms :: "u64 option"

record gateway_config =
  gc_log_dir :: "string option"
  gc_run_id :: "string option"
  gc_latency :: "bool option"
  gc_log_level :: "string option"
  gc_rules :: "rule_config list"
  gc_policy :: "policy_config option"
  gc_api :: "api_config option"
  gc_conn_pool_size :: "nat option"

section \<open>Builders\<close>

definition gateway_config_new :: "rule_config list \<Rightarrow> gateway_config" where
  "gateway_config_new rules =
     \<lparr>gc_log_dir = None, gc_run_id = None, gc_latency = None, gc_log_level = None, gc_rules = rules,
      gc_policy = None, gc_api = None, gc_conn_pool_size = None\<rparr>"

definition USIZE_MAX :: nat where "USIZE_MAX = 2 ^ 64 - 1"

definition pool_for_connections :: "nat \<Rightarrow> gateway_config \<Rightarrow> gateway_config" where
  "pool_for_connections connections c =
     (let want = min (connections + CONN_POOL_HEADROOM) USIZE_MAX;
          want = (if want < MIN_POOL_SIZE then MIN_POOL_SIZE
                  else if MAX_CONN_POOL_SIZE < want then MAX_CONN_POOL_SIZE else want)
      in c\<lparr>gc_conn_pool_size := Some want\<rparr>)"

definition with_log_level :: "string \<Rightarrow> gateway_config \<Rightarrow> gateway_config" where
  "with_log_level level c = c\<lparr>gc_log_level := Some level\<rparr>"

definition allow_all :: "gateway_config \<Rightarrow> gateway_config" where
  "allow_all c = c\<lparr>gc_policy := Some \<lparr>po_default_action = ''allow'', po_whitelist = []\<rparr>\<rparr>"

definition with_api :: "api_config \<Rightarrow> gateway_config \<Rightarrow> gateway_config" where
  "with_api api c = c\<lparr>gc_api := Some api\<rparr>"

definition api_config_new :: "string \<Rightarrow> string \<Rightarrow> nat \<Rightarrow> api_config" where
  "api_config_new uds_path runtime_dir shm_ring_capacity =
     \<lparr>ap_enabled = True, ap_create_rate_per_min = 0, ap_max_endpoints_per_uid = 0,
      ap_uds_path = uds_path, ap_tcp_addr = None, ap_runtime_dir = runtime_dir,
      ap_shm_ring_capacity = shm_ring_capacity, ap_shm_ring_kind = None, ap_shm_segment_size = None,
      ap_shm_num_segments = None, ap_shm_g2c_notify = None\<rparr>"

definition apply_shm_tuning :: "shm_tuning \<Rightarrow> api_config \<Rightarrow> api_config" where
  "apply_shm_tuning tuning a =
     (let a = (case sh_ring_kind tuning of Some k \<Rightarrow> a\<lparr>ap_shm_ring_kind := Some k\<rparr> | None \<Rightarrow> a);
          a = (case sh_segment_size tuning of Some n \<Rightarrow> a\<lparr>ap_shm_segment_size := Some n\<rparr> | None \<Rightarrow> a);
          a = (case sh_num_segments tuning of Some n \<Rightarrow> a\<lparr>ap_shm_num_segments := Some n\<rparr> | None \<Rightarrow> a)
      in (case sh_g2c_notify tuning of Some n \<Rightarrow> a\<lparr>ap_shm_g2c_notify := Some n\<rparr> | None \<Rightarrow> a))"

definition rule_config_new :: "string \<Rightarrow> string \<Rightarrow> string \<Rightarrow> string \<Rightarrow> rule_config" where
  "rule_config_new name direction listen_addr upstream_addr =
     \<lparr>ru_name = name, ru_direction = direction, ru_listen_addr = listen_addr, ru_listen_proto = ''tcp'',
      ru_upstream_addr = upstream_addr, ru_upstream_proto = ''tcp'', ru_security_provider = ''routing'',
      ru_app_protocol = None, ru_protocol_version = None, ru_traffic_class = ''normal'',
      ru_app_id = None, ru_allowed_uids = [], ru_provider_params = Map.empty, ru_zero_copy = False,
      ru_spin_wait_us = 0, ru_perf_profile = None, ru_sock_buf_size = None, ru_pipe_size = None,
      ru_relay_buf_size = None, ru_notsent_lowat = None, ru_busy_poll_us = 0, ru_bdp_adaptive = False,
      ru_bdp_queue_budget_us = None, ru_simulated_delay_ms = None\<rparr>"

definition rule_security :: "string \<Rightarrow> rule_config \<Rightarrow> rule_config" where
  "rule_security provider r = r\<lparr>ru_security_provider := provider\<rparr>"

definition rule_listen_proto :: "string \<Rightarrow> rule_config \<Rightarrow> rule_config" where
  "rule_listen_proto proto r = r\<lparr>ru_listen_proto := proto\<rparr>"

definition rule_upstream_proto :: "string \<Rightarrow> rule_config \<Rightarrow> rule_config" where
  "rule_upstream_proto proto r = r\<lparr>ru_upstream_proto := proto\<rparr>"

definition rule_proto :: "string \<Rightarrow> rule_config \<Rightarrow> rule_config" where
  "rule_proto proto r = rule_upstream_proto proto (rule_listen_proto proto r)"

definition rule_protocol_version :: "string \<Rightarrow> rule_config \<Rightarrow> rule_config" where
  "rule_protocol_version version r = r\<lparr>ru_protocol_version := Some version\<rparr>"

definition rule_app_protocol :: "string \<Rightarrow> rule_config \<Rightarrow> rule_config" where
  "rule_app_protocol proto r = r\<lparr>ru_app_protocol := Some proto\<rparr>"

definition rule_traffic_class :: "string \<Rightarrow> rule_config \<Rightarrow> rule_config" where
  "rule_traffic_class c r = r\<lparr>ru_traffic_class := c\<rparr>"

definition rule_app_id :: "string \<Rightarrow> rule_config \<Rightarrow> rule_config" where
  "rule_app_id i r = r\<lparr>ru_app_id := Some i\<rparr>"

definition rule_allowed_uid :: "u32 \<Rightarrow> rule_config \<Rightarrow> rule_config" where
  "rule_allowed_uid uid r = r\<lparr>ru_allowed_uids := ru_allowed_uids r @ [uid]\<rparr>"

definition rule_param :: "string \<Rightarrow> json \<Rightarrow> rule_config \<Rightarrow> rule_config" where
  "rule_param k v r = r\<lparr>ru_provider_params := (ru_provider_params r)(k \<mapsto> v)\<rparr>"

section \<open>What is emitted\<close>

text \<open>\<open>skip_serializing_if\<close>: an unset option, an empty list, False and zero are left out.\<close>

definition opt_field :: "string \<Rightarrow> ('a \<Rightarrow> json) \<Rightarrow> 'a option \<Rightarrow> (string \<times> json) list" where
  "opt_field k f x = (case x of None \<Rightarrow> [] | Some v \<Rightarrow> [(k, f v)])"

definition skip_field :: "string \<Rightarrow> bool \<Rightarrow> json \<Rightarrow> (string \<times> json) list" where
  "skip_field k skip v = (if skip then [] else [(k, v)])"

abbreviation (input) jword :: "'a::len word \<Rightarrow> json" where "jword w \<equiv> JNum (uint w)"
abbreviation (input) jnat :: "nat \<Rightarrow> json" where "jnat n \<equiv> JNum (int n)"

definition whitelist_json :: "whitelist_entry \<Rightarrow> json" where
  "whitelist_json w = JObj [(''source'', JStr (we_source w)), (''destination'', JStr (we_destination w))]"

definition policy_json :: "policy_config \<Rightarrow> json" where
  "policy_json p =
     JObj ((''default_action'', JStr (po_default_action p))
       # skip_field ''whitelist'' (po_whitelist p = []) (JArr (map whitelist_json (po_whitelist p))))"

definition api_json :: "api_config \<Rightarrow> json" where
  "api_json a =
     JObj ([(''enabled'', JBool (ap_enabled a)), (''create_rate_per_min'', jword (ap_create_rate_per_min a)),
        (''max_endpoints_per_uid'', jword (ap_max_endpoints_per_uid a)), (''uds_path'', JStr (ap_uds_path a))]
      @ opt_field ''tcp_addr'' JStr (ap_tcp_addr a)
      @ [(''runtime_dir'', JStr (ap_runtime_dir a)), (''shm_ring_capacity'', jnat (ap_shm_ring_capacity a))]
      @ opt_field ''shm_ring_kind'' JStr (ap_shm_ring_kind a)
      @ opt_field ''shm_segment_size'' jnat (ap_shm_segment_size a)
      @ opt_field ''shm_num_segments'' jnat (ap_shm_num_segments a)
      @ opt_field ''shm_g2c_notify'' JStr (ap_shm_g2c_notify a))"

text \<open>The fields of a rule under their own names; its parameters are flattened between the two groups.\<close>

definition rule_fields :: "rule_config \<Rightarrow> (string \<times> json) list" where
  "rule_fields r =
     [(''name'', JStr (ru_name r)), (''direction'', JStr (ru_direction r)),
      (''listen_addr'', JStr (ru_listen_addr r)), (''listen_proto'', JStr (ru_listen_proto r)),
      (''upstream_addr'', JStr (ru_upstream_addr r)), (''upstream_proto'', JStr (ru_upstream_proto r)),
      (''security_provider'', JStr (ru_security_provider r))]
     @ opt_field ''app_protocol'' JStr (ru_app_protocol r)
     @ opt_field ''protocol_version'' JStr (ru_protocol_version r)
     @ [(''traffic_class'', JStr (ru_traffic_class r))]
     @ opt_field ''app_id'' JStr (ru_app_id r)
     @ skip_field ''allowed_uids'' (ru_allowed_uids r = []) (JArr (map (\<lambda>u. jword u) (ru_allowed_uids r)))
     @ skip_field ''zero_copy'' (\<not> ru_zero_copy r) (JBool (ru_zero_copy r))
     @ skip_field ''spin_wait_us'' (ru_spin_wait_us r = 0) (jword (ru_spin_wait_us r))
     @ opt_field ''perf_profile'' JStr (ru_perf_profile r)
     @ opt_field ''sock_buf_size'' jnat (ru_sock_buf_size r)
     @ opt_field ''pipe_size'' jnat (ru_pipe_size r)
     @ opt_field ''relay_buf_size'' jnat (ru_relay_buf_size r)
     @ opt_field ''notsent_lowat'' jnat (ru_notsent_lowat r)
     @ skip_field ''busy_poll_us'' (ru_busy_poll_us r = 0) (jword (ru_busy_poll_us r))
     @ skip_field ''bdp_adaptive'' (\<not> ru_bdp_adaptive r) (JBool (ru_bdp_adaptive r))
     @ opt_field ''bdp_queue_budget_us'' (\<lambda>v. jword v) (ru_bdp_queue_budget_us r)
     @ opt_field ''simulated_delay_ms'' (\<lambda>v. jword v) (ru_simulated_delay_ms r)"

text \<open>What a reader of the emitted object finds under a key: with a key used twice, no reading is
  defined.\<close>

definition rule_lookup :: "rule_config \<Rightarrow> string \<Rightarrow> json option" where
  "rule_lookup r k =
     (case (map_of (rule_fields r) k, ru_provider_params r k) of
        (Some v, None) \<Rightarrow> Some v | (None, Some v) \<Rightarrow> Some v | _ \<Rightarrow> None)"

definition duplicate_keys :: "rule_config \<Rightarrow> string list" where
  "duplicate_keys r = filter (\<lambda>k. ru_provider_params r k \<noteq> None) (map fst (rule_fields r))"

definition gateway_fields :: "gateway_config \<Rightarrow> (string \<times> json) list" where
  "gateway_fields c =
     opt_field ''log_dir'' JStr (gc_log_dir c) @ opt_field ''run_id'' JStr (gc_run_id c)
     @ opt_field ''latency'' JBool (gc_latency c) @ opt_field ''log_level'' JStr (gc_log_level c)
     @ opt_field ''policy'' policy_json (gc_policy c) @ opt_field ''api'' api_json (gc_api c)
     @ opt_field ''conn_pool_size'' jnat (gc_conn_pool_size c)"

section \<open>Pool sizes\<close>

text \<open>
  The pool is always one the gateway accepts, and it holds a worker per connection as long as the
  clamp leaves room for the headroom; beyond that the documentation's ``never undersizes'' is false.
\<close>

lemma pool_accepted:
  "\<exists>n. gc_conn_pool_size (pool_for_connections k c) = Some n \<and> MIN_POOL_SIZE \<le> n \<and> n \<le> MAX_CONN_POOL_SIZE
     \<and> (k \<le> MAX_CONN_POOL_SIZE \<longrightarrow> k \<le> n)"
  by (auto simp: pool_for_connections_def Let_def MIN_POOL_SIZE_def MAX_CONN_POOL_SIZE_def USIZE_MAX_def
      CONN_POOL_HEADROOM_def)

lemma pool_undersizes: "gc_conn_pool_size (pool_for_connections 5000 c) = Some 4096"
  by (simp add: pool_for_connections_def Let_def MIN_POOL_SIZE_def MAX_CONN_POOL_SIZE_def USIZE_MAX_def
      CONN_POOL_HEADROOM_def)

lemma shm_tuning_none: "apply_shm_tuning \<lparr>sh_ring_kind = None, sh_segment_size = None,
    sh_num_segments = None, sh_g2c_notify = None\<rparr> a = a"
  by (simp add: apply_shm_tuning_def)

end
