(* ===== verification/Gateway_Path.thy ===== *)
theory Gateway_Path
  imports Gateway_Config
begin

text \<open>
  Secured paths through the gateway, \<open>src/src/gateway/mod.rs\<close>: the security parameters with their
  builders and their redacted debug output, the encrypt and decrypt rules made from them, port
  reservation, and the plans for one path and for one path per traffic class. Which ports are free and
  which directories can be created are arguments; spawning the processes is in \<open>Gateway_Process\<close>.
\<close>

section \<open>Runtime directories\<close>

definition MAX_DIR_BYTES :: nat where "MAX_DIR_BYTES = 32"

text \<open>\<open>base.join(name)\<close> for a relative \<open>name\<close>: one separating slash.\<close>

definition path_join :: "string \<Rightarrow> string \<Rightarrow> string" where
  "path_join base name =
     (if base = [] \<or> last base = CHR ''/'' then base @ name else base @ ''/'' @ name)"

fun try_dirs :: "(string \<Rightarrow> 'e + unit) \<Rightarrow> string \<Rightarrow> 'e \<Rightarrow> string list \<Rightarrow> 'e + string" where
  "try_dirs create name last_error [] = Inl last_error"
| "try_dirs create name last_error (base # bases) =
     (let dir = path_join base name in
      if MAX_DIR_BYTES < length dir then try_dirs create name last_error bases
      else (case create dir of
              Inr _ \<Rightarrow> Inr dir
            | Inl e \<Rightarrow> try_dirs create name e bases))"

definition short_runtime_dir ::
  "(string \<Rightarrow> 'e + unit) \<Rightarrow> 'e \<Rightarrow> string option \<Rightarrow> string option \<Rightarrow> string \<Rightarrow> nat \<Rightarrow> string \<Rightarrow> u64 \<Rightarrow> 'e + string" where
  "short_runtime_dir create no_dir seshat_dir xdg_dir temp_dir pid pre i =
     try_dirs create (pre @ ''-'' @ show_nat pid @ ''-'' @ show_nat (unat i)) no_dir
       ((case seshat_dir of Some b \<Rightarrow> [b] | None \<Rightarrow> []) @ (case xdg_dir of Some b \<Rightarrow> [b] | None \<Rightarrow> [])
        @ [''/dev/shm'', temp_dir])"

section \<open>Ports\<close>

definition PORT_BASE :: u16 where "PORT_BASE = 20000"
definition PORT_RANGE :: u16 where "PORT_RANGE = 12000"

text \<open>The loop over the range: the counter, which ports bind, and how many tries are left; None when the
  range is exhausted.\<close>

fun reserve_loop :: "(u16 \<Rightarrow> bool) \<Rightarrow> nat \<Rightarrow> u16 \<Rightarrow> u16 option \<times> u16" where
  "reserve_loop free 0 nxt = (None, nxt)"
| "reserve_loop free (Suc n) nxt =
     (let port = PORT_BASE + nxt mod PORT_RANGE
      in if free port then (Some port, nxt + 1) else reserve_loop free n (nxt + 1))"

definition reserve_local_port_for :: "(u16 \<Rightarrow> bool) \<Rightarrow> 'e + u16 \<Rightarrow> u16 \<Rightarrow> ('e + u16) \<times> u16" where
  "reserve_local_port_for free ephemeral nxt =
     (case reserve_loop free (unat PORT_RANGE) nxt of
        (Some port, nxt') \<Rightarrow> (Inr port, nxt')
      | (None, nxt') \<Rightarrow> (ephemeral, nxt'))"

section \<open>Security parameters\<close>

datatype path_topology = SingleGateway | ScgToScg

record security_spec =
  se_provider :: string
  se_proto :: string
  se_protocol_version :: "string option"
  se_verify :: "string option"
  se_server_name :: "string option"
  se_server_cert :: "string option"
  se_server_key :: "string option"
  se_client_cert :: "string option"
  se_client_key :: "string option"
  se_ca_cert :: "string option"
  se_app_protocol :: "string option"
  se_profile :: "string option"
  se_traffic_class :: string
  se_psk_identity :: "string option"
  se_psk_hex :: "string option"
  se_cipher_list :: "string option"
  se_ciphersuites :: "string option"
  se_groups :: "string option"
  se_resumption :: bool
  se_encrypt_listen_proto :: "string option"
  se_encrypt_upstream_proto :: "string option"
  se_decrypt_listen_proto :: "string option"
  se_decrypt_upstream_proto :: "string option"
  se_zero_copy :: bool
  se_spin_wait_us :: u64
  se_perf_profile :: "string option"
  se_sock_buf_size :: "nat option"
  se_pipe_size :: "nat option"
  se_relay_buf_size :: "nat option"
  se_notsent_lowat :: "nat option"
  se_busy_poll_us :: "u32 option"
  se_bdp_adaptive :: bool
  se_bdp_queue_budget_us :: "u64 option"
  se_simulated_delay_ms :: u64
  se_address_family :: address_family
  se_extra_params :: "(string \<times> json) list"

text \<open>The debug output: field names with what is printed for them.\<close>

datatype debug_value =
    DStr string | DOpt "string option" | DNum int | DOptNum "int option" | DBool bool
  | DFamily address_family | DParams "(string \<times> json) list"

definition redacted :: "string option \<Rightarrow> debug_value" where
  "redacted x = DOpt (map_option (\<lambda>_. ''[REDACTED]'') x)"

definition debug_fmt :: "security_spec \<Rightarrow> (string \<times> debug_value) list" where
  "debug_fmt s =
     [(''provider'', DStr (se_provider s)), (''proto'', DStr (se_proto s)),
      (''protocol_version'', DOpt (se_protocol_version s)), (''verify'', DOpt (se_verify s)),
      (''server_name'', DOpt (se_server_name s)), (''server_cert'', DOpt (se_server_cert s)),
      (''server_key'', DOpt (se_server_key s)), (''client_cert'', DOpt (se_client_cert s)),
      (''client_key'', DOpt (se_client_key s)), (''ca_cert'', DOpt (se_ca_cert s)),
      (''app_protocol'', DOpt (se_app_protocol s)), (''profile'', DOpt (se_profile s)),
      (''traffic_class'', DStr (se_traffic_class s)),
      (''psk_identity'', redacted (se_psk_identity s)), (''psk_hex'', redacted (se_psk_hex s)),
      (''cipher_list'', DOpt (se_cipher_list s)), (''ciphersuites'', DOpt (se_ciphersuites s)),
      (''groups'', DOpt (se_groups s)), (''resumption'', DBool (se_resumption s)),
      (''encrypt_listen_proto'', DOpt (se_encrypt_listen_proto s)),
      (''encrypt_upstream_proto'', DOpt (se_encrypt_upstream_proto s)),
      (''decrypt_listen_proto'', DOpt (se_decrypt_listen_proto s)),
      (''decrypt_upstream_proto'', DOpt (se_decrypt_upstream_proto s)),
      (''zero_copy'', DBool (se_zero_copy s)), (''spin_wait_us'', DNum (uint (se_spin_wait_us s))),
      (''perf_profile'', DOpt (se_perf_profile s)),
      (''sock_buf_size'', DOptNum (map_option int (se_sock_buf_size s))),
      (''pipe_size'', DOptNum (map_option int (se_pipe_size s))),
      (''relay_buf_size'', DOptNum (map_option int (se_relay_buf_size s))),
      (''notsent_lowat'', DOptNum (map_option int (se_notsent_lowat s))),
      (''busy_poll_us'', DOptNum (map_option uint (se_busy_poll_us s))),
      (''bdp_adaptive'', DBool (se_bdp_adaptive s)),
      (''bdp_queue_budget_us'', DOptNum (map_option uint (se_bdp_queue_budget_us s))),
      (''simulated_delay_ms'', DNum (uint (se_simulated_delay_ms s))),
      (''address_family'', DFamily (se_address_family s)),
      (''extra_params'', DParams (se_extra_params s))]"

definition routing_tcp :: security_spec where
  "routing_tcp =
     \<lparr>se_provider = ''routing'', se_proto = ''tcp'', se_protocol_version = None, se_verify = None,
      se_server_name = None, se_server_cert = None, se_server_key = None, se_client_cert = None,
      se_client_key = None, se_ca_cert = None, se_app_protocol = None, se_profile = None,
      se_traffic_class = ''normal'', se_psk_identity = None, se_psk_hex = None, se_cipher_list = None,
      se_ciphersuites = None, se_groups = None, se_resumption = False, se_encrypt_listen_proto = None,
      se_encrypt_upstream_proto = None, se_decrypt_listen_proto = None,
      se_decrypt_upstream_proto = None, se_zero_copy = False, se_spin_wait_us = 0,
      se_perf_profile = None, se_sock_buf_size = None, se_pipe_size = None, se_relay_buf_size = None,
      se_notsent_lowat = None, se_busy_poll_us = None, se_bdp_adaptive = False,
      se_bdp_queue_budget_us = None, se_simulated_delay_ms = 0, se_address_family = Ipv4,
      se_extra_params = []\<rparr>"

definition routing_udp :: security_spec where
  "routing_udp = routing_tcp\<lparr>se_proto := ''udp''\<rparr>"

definition custom :: "string \<Rightarrow> string \<Rightarrow> (string \<times> json) list \<Rightarrow> security_spec" where
  "custom provider proto params =
     routing_tcp\<lparr>se_provider := provider, se_proto := proto, se_extra_params := params\<rparr>"

definition server_spec :: "string \<Rightarrow> string \<Rightarrow> string \<Rightarrow> string \<Rightarrow> string \<Rightarrow> security_spec" where
  "server_spec provider proto version cert key =
     routing_tcp\<lparr>se_provider := provider, se_proto := proto, se_protocol_version := Some version,
       se_verify := Some ''none'', se_server_cert := Some cert, se_server_key := Some key\<rparr>"

text \<open>The generated certificates of a benchmark CA.\<close>

record ca_bundle =
  cb_ca_cert :: string
  cb_server_cert :: string
  cb_server_key :: string
  cb_client_cert :: string
  cb_client_key :: string

definition mutual_spec :: "string \<Rightarrow> string \<Rightarrow> string \<Rightarrow> ca_bundle \<Rightarrow> security_spec" where
  "mutual_spec provider proto version b =
     routing_tcp\<lparr>se_provider := provider, se_proto := proto, se_protocol_version := Some version,
       se_verify := Some ''mutual'', se_server_name := Some ''localhost'',
       se_server_cert := Some (cb_server_cert b), se_server_key := Some (cb_server_key b),
       se_client_cert := Some (cb_client_cert b), se_client_key := Some (cb_client_key b),
       se_ca_cert := Some (cb_ca_cert b)\<rparr>"

definition tls_server where "tls_server = server_spec ''tls'' ''tcp''"
definition tls_mutual where "tls_mutual = mutual_spec ''tls'' ''tcp''"
definition dtls_server where "dtls_server = server_spec ''dtls'' ''udp''"
definition dtls_mutual where "dtls_mutual = mutual_spec ''dtls'' ''udp''"

definition with_provider :: "string \<Rightarrow> security_spec \<Rightarrow> security_spec" where
  "with_provider p s = s\<lparr>se_provider := p\<rparr>"

definition with_profile :: "string \<Rightarrow> security_spec \<Rightarrow> security_spec" where
  "with_profile p s = s\<lparr>se_profile := Some p\<rparr>"

definition with_traffic_class :: "string \<Rightarrow> security_spec \<Rightarrow> security_spec" where
  "with_traffic_class c s = s\<lparr>se_traffic_class := c\<rparr>"

definition with_address_family :: "address_family \<Rightarrow> security_spec \<Rightarrow> security_spec" where
  "with_address_family f s = s\<lparr>se_address_family := f\<rparr>"

definition with_psk :: "string \<Rightarrow> string \<Rightarrow> security_spec \<Rightarrow> security_spec" where
  "with_psk identity hex_key s = s\<lparr>se_psk_identity := Some identity, se_psk_hex := Some hex_key\<rparr>"

definition with_cipher_list :: "string \<Rightarrow> security_spec \<Rightarrow> security_spec" where
  "with_cipher_list c s = s\<lparr>se_cipher_list := Some c\<rparr>"

definition with_ciphersuites :: "string \<Rightarrow> security_spec \<Rightarrow> security_spec" where
  "with_ciphersuites c s = s\<lparr>se_ciphersuites := Some c\<rparr>"

definition with_groups :: "string \<Rightarrow> security_spec \<Rightarrow> security_spec" where
  "with_groups g s = s\<lparr>se_groups := Some g\<rparr>"

definition with_resumption :: "bool \<Rightarrow> security_spec \<Rightarrow> security_spec" where
  "with_resumption e s = s\<lparr>se_resumption := e\<rparr>"

definition or_keep :: "'a option \<Rightarrow> 'a option \<Rightarrow> 'a option" where
  "or_keep x old = (case x of Some v \<Rightarrow> Some v | None \<Rightarrow> old)"

definition with_certificate_selection :: "certificate_selection \<Rightarrow> security_spec \<Rightarrow> security_spec" where
  "with_certificate_selection c s =
     s\<lparr>se_server_cert := or_keep (cs_server_cert c) (se_server_cert s),
       se_server_key := or_keep (cs_server_key c) (se_server_key s),
       se_client_cert := or_keep (cs_client_cert c) (se_client_cert s),
       se_client_key := or_keep (cs_client_key c) (se_client_key s),
       se_ca_cert := or_keep (cs_ca_cert c) (se_ca_cert s),
       se_server_name := or_keep (cs_server_name c) (se_server_name s)\<rparr>"

definition with_asymmetric_ale :: "string \<Rightarrow> security_spec \<Rightarrow> security_spec" where
  "with_asymmetric_ale app_proto s =
     s\<lparr>se_app_protocol := Some app_proto, se_encrypt_listen_proto := Some ''udp'',
       se_encrypt_upstream_proto := Some ''tcp'', se_decrypt_listen_proto := Some ''tcp'',
       se_decrypt_upstream_proto := Some ''udp''\<rparr>"

definition DEFAULT_SPIN_WAIT_US :: u64 where "DEFAULT_SPIN_WAIT_US = 50"

definition with_optimizations :: "optimization_flags \<Rightarrow> security_spec \<Rightarrow> security_spec" where
  "with_optimizations flags s =
     s\<lparr>se_zero_copy := of_zero_copy flags,
       se_spin_wait_us := (case (of_spin_wait_us flags, of_spin_wait flags) of
           (Some us, _) \<Rightarrow> us | (None, True) \<Rightarrow> DEFAULT_SPIN_WAIT_US | (None, False) \<Rightarrow> 0),
       se_perf_profile := of_perf_profile flags, se_sock_buf_size := of_sock_buf_size flags,
       se_pipe_size := of_pipe_size flags, se_relay_buf_size := of_relay_buf_size flags,
       se_notsent_lowat := of_notsent_lowat flags, se_busy_poll_us := of_busy_poll_us flags,
       se_bdp_adaptive := of_bdp_adaptive flags, se_bdp_queue_budget_us := of_bdp_queue_budget_us flags,
       se_simulated_delay_ms := (case of_simulated_delay_ms flags of Some d \<Rightarrow> d | None \<Rightarrow> 0)\<rparr>"

section \<open>Rules\<close>

definition opt_param :: "string \<Rightarrow> string option \<Rightarrow> rule_config \<Rightarrow> rule_config" where
  "opt_param k x r = (case x of Some v \<Rightarrow> rule_param k (JStr v) r | None \<Rightarrow> r)"

definition apply_common :: "security_spec \<Rightarrow> rule_config \<Rightarrow> rule_config" where
  "apply_common s r =
     (let r = rule_traffic_class (se_traffic_class s) (rule_proto (se_proto s) (rule_security (se_provider s) r));
          r = (case se_protocol_version s of Some v \<Rightarrow> rule_protocol_version v r | None \<Rightarrow> r);
          r = (case se_app_protocol s of Some v \<Rightarrow> rule_app_protocol v r | None \<Rightarrow> r);
          r = opt_param ''profile'' (se_profile s) r;
          r = opt_param ''psk_identity'' (se_psk_identity s) r;
          r = opt_param ''psk_hex'' (se_psk_hex s) r;
          r = opt_param ''cipher_list'' (se_cipher_list s) r;
          r = opt_param ''ciphersuites'' (se_ciphersuites s) r;
          r = opt_param ''groups'' (se_groups s) r;
          r = (if se_resumption s then rule_param ''resumption'' (JBool True) r else r);
          r = fold (\<lambda>(k, v). rule_param k v) (se_extra_params s) r
      in r\<lparr>ru_zero_copy := se_zero_copy s, ru_spin_wait_us := se_spin_wait_us s,
           ru_perf_profile := se_perf_profile s, ru_sock_buf_size := se_sock_buf_size s,
           ru_pipe_size := se_pipe_size s, ru_relay_buf_size := se_relay_buf_size s,
           ru_notsent_lowat := se_notsent_lowat s,
           ru_busy_poll_us := (case se_busy_poll_us s of Some b \<Rightarrow> b | None \<Rightarrow> 0),
           ru_bdp_adaptive := se_bdp_adaptive s, ru_bdp_queue_budget_us := se_bdp_queue_budget_us s,
           ru_simulated_delay_ms :=
             (if 0 < se_simulated_delay_ms s then Some (se_simulated_delay_ms s) else None)\<rparr>)"

definition encrypt_verify :: "security_spec \<Rightarrow> string" where
  "encrypt_verify s =
     (if se_profile s = Some ''subset146-pki'' then ''mutual''
      else if se_client_cert s \<noteq> None \<and> se_ca_cert s \<noteq> None then ''server''
      else ''none'')"

definition apply_encrypt :: "security_spec \<Rightarrow> rule_config \<Rightarrow> rule_config" where
  "apply_encrypt s r =
     (let r = apply_common s r;
          r = (if se_provider s \<noteq> ''routing'' then rule_param ''verify'' (JStr (encrypt_verify s)) r else r);
          r = opt_param ''server_name'' (se_server_name s) r;
          r = opt_param ''ca_path'' (se_ca_cert s) r;
          r = opt_param ''cert_path'' (se_client_cert s) r
      in opt_param ''key_path'' (se_client_key s) r)"

definition apply_decrypt :: "security_spec \<Rightarrow> rule_config \<Rightarrow> rule_config" where
  "apply_decrypt s r =
     (let r = apply_common s r;
          r = opt_param ''verify'' (se_verify s) r;
          r = opt_param ''cert_path'' (se_server_cert s) r;
          r = opt_param ''key_path'' (se_server_key s) r
      in if se_verify s = Some ''mutual'' then opt_param ''ca_path'' (se_ca_cert s) r else r)"

section \<open>Plans\<close>

record named_gateway =
  ng_label :: string
  ng_config :: gateway_config

record path_plan =
  pp_ingress_addr :: string
  pp_backend_addr :: string
  pp_gateways :: "named_gateway list"

definition opt_apply :: "('a \<Rightarrow> 'b \<Rightarrow> 'b) \<Rightarrow> 'a option \<Rightarrow> 'b \<Rightarrow> 'b" where
  "opt_apply f x b = (case x of Some v \<Rightarrow> f v b | None \<Rightarrow> b)"

definition build_rule_pair ::
  "security_spec \<Rightarrow> string \<Rightarrow> string \<Rightarrow> string \<Rightarrow> string \<Rightarrow> string \<Rightarrow> rule_config \<times> rule_config" where
  "build_rule_pair s e_name d_name ingress mid backend_addr =
     (let e = apply_encrypt s (rule_config_new e_name ''encrypt'' ingress mid);
          d = apply_decrypt s (rule_config_new d_name ''decrypt'' mid backend_addr);
          e = opt_apply rule_listen_proto (se_encrypt_listen_proto s) e;
          e = opt_apply rule_upstream_proto (se_encrypt_upstream_proto s) e;
          d = opt_apply rule_listen_proto (se_decrypt_listen_proto s) d;
          d = opt_apply rule_upstream_proto (se_decrypt_upstream_proto s) d
      in (e, d))"

definition gateways_for_topology ::
  "path_topology \<Rightarrow> rule_config list \<Rightarrow> rule_config list \<Rightarrow> nat \<Rightarrow> named_gateway list" where
  "gateways_for_topology topo encrypts decrypts connections =
     (let named = (\<lambda>label rules.
            \<lparr>ng_label = label,
             ng_config = pool_for_connections connections (allow_all (with_log_level ''info'' (gateway_config_new rules)))\<rparr>)
      in case topo of
           SingleGateway \<Rightarrow> [named ''scg'' (encrypts @ decrypts)]
         | ScgToScg \<Rightarrow> [named ''scg-a'' encrypts, named ''scg-b'' decrypts])"

definition build_path ::
  "(u16 \<Rightarrow> bool) \<Rightarrow> 'e + u16 \<Rightarrow> security_spec \<Rightarrow> path_topology \<Rightarrow> string \<Rightarrow> nat \<Rightarrow> u16
   \<Rightarrow> ('e + path_plan) \<times> u16" where
  "build_path free ephemeral s topo backend_addr connections nxt =
     (case reserve_local_port_for free ephemeral nxt of
        (Inl e, nxt) \<Rightarrow> (Inl e, nxt)
      | (Inr p1, nxt) \<Rightarrow>
          (case reserve_local_port_for free ephemeral nxt of
             (Inl e, nxt) \<Rightarrow> (Inl e, nxt)
           | (Inr p2, nxt) \<Rightarrow>
               let ingress = loopback_socket (se_address_family s) p1;
                   mid = loopback_socket (se_address_family s) p2;
                   (e, d) = build_rule_pair s ''seshat-encrypt'' ''seshat-decrypt'' ingress mid backend_addr
               in (Inr \<lparr>pp_ingress_addr = ingress, pp_backend_addr = backend_addr,
                        pp_gateways = gateways_for_topology topo [e] [d] connections\<rparr>, nxt)))"

record class_path =
  cp_class :: string
  cp_ingress_addr :: string
  cp_backend_addr :: string

record multi_class_plan =
  mp_paths :: "class_path list"
  mp_gateways :: "named_gateway list"

definition encrypt_name :: "string \<Rightarrow> string" where
  "encrypt_name cls = ''seshat-encrypt-'' @ cls"

definition decrypt_name :: "string \<Rightarrow> string" where
  "decrypt_name cls = ''seshat-decrypt-'' @ cls"

fun class_rules ::
  "(u16 \<Rightarrow> bool) \<Rightarrow> 'e + u16 \<Rightarrow> security_spec \<Rightarrow> (string \<times> string) list \<Rightarrow> u16
   \<Rightarrow> ('e + (class_path \<times> rule_config \<times> rule_config) list) \<times> u16" where
  "class_rules free ephemeral s [] nxt = (Inr [], nxt)"
| "class_rules free ephemeral s ((cls, backend_addr) # cbs) nxt =
     (case reserve_local_port_for free ephemeral nxt of
        (Inl e, nxt) \<Rightarrow> (Inl e, nxt)
      | (Inr p1, nxt) \<Rightarrow>
          (case reserve_local_port_for free ephemeral nxt of
             (Inl e, nxt) \<Rightarrow> (Inl e, nxt)
           | (Inr p2, nxt) \<Rightarrow>
               let ingress = loopback_socket (se_address_family s) p1;
                   mid = loopback_socket (se_address_family s) p2;
                   (e, d) = build_rule_pair (with_traffic_class cls s) (encrypt_name cls)
                     (decrypt_name cls) ingress mid backend_addr;
                   cp = \<lparr>cp_class = cls, cp_ingress_addr = ingress, cp_backend_addr = backend_addr\<rparr>
               in (case class_rules free ephemeral s cbs nxt of
                     (Inl err, nxt) \<Rightarrow> (Inl err, nxt)
                   | (Inr rs, nxt) \<Rightarrow> (Inr ((cp, e, d) # rs), nxt))))"

datatype 'e path_error = NoClass | PathIo 'e

definition build_multi_class_path ::
  "(u16 \<Rightarrow> bool) \<Rightarrow> 'e + u16 \<Rightarrow> security_spec \<Rightarrow> path_topology \<Rightarrow> (string \<times> string) list \<Rightarrow> nat \<Rightarrow> u16
   \<Rightarrow> ('e path_error + multi_class_plan) \<times> u16" where
  "build_multi_class_path free ephemeral s topo class_backends connections nxt =
     (if class_backends = [] then (Inl NoClass, nxt)
      else (case class_rules free ephemeral s class_backends nxt of
              (Inl e, nxt) \<Rightarrow> (Inl (PathIo e), nxt)
            | (Inr rs, nxt) \<Rightarrow>
                (Inr \<lparr>mp_paths = map fst rs,
                      mp_gateways = gateways_for_topology topo (map (fst \<circ> snd) rs) (map (snd \<circ> snd) rs) connections\<rparr>,
                 nxt)))"

section \<open>Management endpoints and readiness\<close>

definition MGMT_RING_CAPACITY :: nat where "MGMT_RING_CAPACITY = 1024"

datatype 'e template_error = NotSingleGateway | NoTcpEncryptRule | TemplateIo 'e

definition mgmt_api :: "string \<Rightarrow> api_config" where
  "mgmt_api runtime_dir = api_config_new (path_join runtime_dir ''mgmt.sock'') runtime_dir MGMT_RING_CAPACITY"

definition add_management_uds_template ::
  "'e + string \<Rightarrow> u32 \<Rightarrow> string \<Rightarrow> path_plan \<Rightarrow> path_plan \<times> ('e template_error + unit)" where
  "add_management_uds_template runtime_dir uid app_id plan =
     (case pp_gateways plan of
        [g] \<Rightarrow>
          (case find (\<lambda>r. ru_direction r = ''encrypt'' \<and> ru_listen_proto r = ''tcp'') (gc_rules (ng_config g)) of
             None \<Rightarrow> (plan, Inl NoTcpEncryptRule)
           | Some r \<Rightarrow>
               let template = r\<lparr>ru_name := ''seshat-hotreload-template'', ru_listen_addr := ''unused'',
                     ru_listen_proto := ''uds'', ru_app_id := Some app_id, ru_allowed_uids := [uid]\<rparr>;
                   c = (ng_config g)\<lparr>gc_rules := gc_rules (ng_config g) @ [template]\<rparr>
               in (case runtime_dir of
                     Inl e \<Rightarrow> (plan\<lparr>pp_gateways := [g\<lparr>ng_config := c\<rparr>]\<rparr>, Inl (TemplateIo e))
                   | Inr dir \<Rightarrow> (plan\<lparr>pp_gateways := [g\<lparr>ng_config := c\<lparr>gc_api := Some (mgmt_api dir)\<rparr>\<rparr>]\<rparr>, Inr ())))
      | _ \<Rightarrow> (plan, Inl NotSingleGateway))"

definition has_tcp_listener :: "gateway_config \<Rightarrow> bool" where
  "has_tcp_listener c = list_ex (\<lambda>r. ru_listen_proto r = ''tcp'' \<and> ru_listen_addr r \<noteq> ''unused'') (gc_rules c)"

definition ensure_readiness_api :: "'e + string \<Rightarrow> gateway_config \<Rightarrow> 'e + gateway_config" where
  "ensure_readiness_api runtime_dir c =
     (if has_tcp_listener c \<or> gc_api c \<noteq> None then Inr c
      else (case runtime_dir of Inl e \<Rightarrow> Inl e | Inr dir \<Rightarrow> Inr (with_api (mgmt_api dir) c)))"

section \<open>Secrets\<close>

text \<open>
  The debug output of the security parameters is independent of the pre-shared key: whatever
  identity and key are set, two specifications that differ in nothing else print the same, and what they
  print for the two fields is the redaction marker.
\<close>

theorem debug_hides_psk:
  "debug_fmt (with_psk i1 k1 s) = debug_fmt (with_psk i2 k2 s)
   \<and> map_of (debug_fmt (with_psk i1 k1 s)) ''psk_hex'' = Some (DOpt (Some ''[REDACTED]''))
   \<and> map_of (debug_fmt (with_psk i1 k1 s)) ''psk_identity'' = Some (DOpt (Some ''[REDACTED]''))"
  by (simp add: debug_fmt_def with_psk_def redacted_def)

text \<open>The parameters of a custom provider are printed as they are, key material included.\<close>

lemma custom_params_printed:
  "map_of (debug_fmt (custom ''vendor'' ''udp'' [(''vendor_key_hex'', JStr secret)])) ''extra_params''
     = Some (DParams [(''vendor_key_hex'', JStr secret)])"
  by (simp add: debug_fmt_def custom_def routing_tcp_def)

section \<open>Rules\<close>

lemmas rule_builders = rule_security_def rule_listen_proto_def rule_upstream_proto_def rule_proto_def
  rule_protocol_version_def rule_app_protocol_def rule_traffic_class_def rule_param_def

lemma opt_param_sel [simp]:
  "ru_provider_params (opt_param k x r) = (case x of Some v \<Rightarrow> (ru_provider_params r)(k \<mapsto> JStr v) | None \<Rightarrow> ru_provider_params r)"
  "ru_name (opt_param k x r) = ru_name r" "ru_direction (opt_param k x r) = ru_direction r"
  "ru_listen_addr (opt_param k x r) = ru_listen_addr r" "ru_upstream_addr (opt_param k x r) = ru_upstream_addr r"
  "ru_listen_proto (opt_param k x r) = ru_listen_proto r" "ru_upstream_proto (opt_param k x r) = ru_upstream_proto r"
  "ru_security_provider (opt_param k x r) = ru_security_provider r" "ru_traffic_class (opt_param k x r) = ru_traffic_class r"
  by (simp_all add: opt_param_def rule_builders split: option.split)

lemma fold_params_sel [simp]:
  "ru_name (fold (\<lambda>(k, v). rule_param k v) ps r) = ru_name r"
  "ru_direction (fold (\<lambda>(k, v). rule_param k v) ps r) = ru_direction r"
  "ru_listen_addr (fold (\<lambda>(k, v). rule_param k v) ps r) = ru_listen_addr r"
  "ru_upstream_addr (fold (\<lambda>(k, v). rule_param k v) ps r) = ru_upstream_addr r"
  "ru_listen_proto (fold (\<lambda>(k, v). rule_param k v) ps r) = ru_listen_proto r"
  "ru_upstream_proto (fold (\<lambda>(k, v). rule_param k v) ps r) = ru_upstream_proto r"
  "ru_security_provider (fold (\<lambda>(k, v). rule_param k v) ps r) = ru_security_provider r"
  "ru_traffic_class (fold (\<lambda>(k, v). rule_param k v) ps r) = ru_traffic_class r"
  by (induction ps arbitrary: r) (auto simp: rule_builders)

definition same_rule :: "rule_config \<Rightarrow> rule_config \<Rightarrow> bool" where
  "same_rule r r' = (ru_name r' = ru_name r \<and> ru_direction r' = ru_direction r
     \<and> ru_listen_addr r' = ru_listen_addr r \<and> ru_upstream_addr r' = ru_upstream_addr r)"

lemma apply_common_sel:
  "same_rule r (apply_common s r)" "ru_listen_proto (apply_common s r) = se_proto s"
  "ru_upstream_proto (apply_common s r) = se_proto s"
  "ru_security_provider (apply_common s r) = se_provider s" "ru_traffic_class (apply_common s r) = se_traffic_class s"
  by (simp_all add: apply_common_def same_rule_def Let_def rule_builders split: option.split)

lemma apply_sides_sel:
  "same_rule r (apply_encrypt s r)" "ru_listen_proto (apply_encrypt s r) = se_proto s"
  "ru_upstream_proto (apply_encrypt s r) = se_proto s"
  "ru_security_provider (apply_encrypt s r) = se_provider s" "ru_traffic_class (apply_encrypt s r) = se_traffic_class s"
  "same_rule r (apply_decrypt s r)" "ru_listen_proto (apply_decrypt s r) = se_proto s"
  "ru_upstream_proto (apply_decrypt s r) = se_proto s"
  "ru_security_provider (apply_decrypt s r) = se_provider s" "ru_traffic_class (apply_decrypt s r) = se_traffic_class s"
  using apply_common_sel [where r = r and s = s]
  by (simp_all add: apply_encrypt_def apply_decrypt_def same_rule_def Let_def rule_builders)

text \<open>The parameters both sides share, on a rule that starts without any.\<close>

definition str_param :: "string option \<Rightarrow> json option" where
  "str_param x = map_option JStr x"

definition common_params :: "security_spec \<Rightarrow> string \<rightharpoonup> json" where
  "common_params s = Map.empty(
     ''profile'' := str_param (se_profile s), ''psk_identity'' := str_param (se_psk_identity s),
     ''psk_hex'' := str_param (se_psk_hex s), ''cipher_list'' := str_param (se_cipher_list s),
     ''ciphersuites'' := str_param (se_ciphersuites s), ''groups'' := str_param (se_groups s),
     ''resumption'' := (if se_resumption s then Some (JBool True) else None))"

definition encrypt_params :: "security_spec \<Rightarrow> string \<rightharpoonup> json" where
  "encrypt_params s = (common_params s)(
     ''verify'' := (if se_provider s \<noteq> ''routing'' then Some (JStr (encrypt_verify s)) else None),
     ''server_name'' := str_param (se_server_name s), ''ca_path'' := str_param (se_ca_cert s),
     ''cert_path'' := str_param (se_client_cert s), ''key_path'' := str_param (se_client_key s))"

definition decrypt_params :: "security_spec \<Rightarrow> string \<rightharpoonup> json" where
  "decrypt_params s = (common_params s)(
     ''verify'' := str_param (se_verify s), ''cert_path'' := str_param (se_server_cert s),
     ''key_path'' := str_param (se_server_key s),
     ''ca_path'' := (if se_verify s = Some ''mutual'' then str_param (se_ca_cert s) else None))"

lemma opt_upd: "m k = None \<Longrightarrow> (case x of None \<Rightarrow> m | Some v \<Rightarrow> m(k \<mapsto> JStr v)) = m(k := str_param x)"
  by (auto simp: str_param_def split: option.split)

lemma if_upd: "m k = None \<Longrightarrow> (if b then m(k \<mapsto> v) else m) = m(k := if b then Some v else None)"
  by auto

lemma upd_None: "m k = None \<Longrightarrow> m(k := None) = m"
  and str_param_Some [simp]: "str_param (Some x) = Some (JStr x)"
  by (auto simp: str_param_def)

lemma rule_param_sel [simp]: "ru_provider_params (rule_param k v r) = (ru_provider_params r)(k \<mapsto> v)"
  by (simp add: rule_param_def)

lemma apply_common_params:
  assumes "se_extra_params s = []" and "ru_provider_params r = Map.empty"
  shows "ru_provider_params (apply_common s r) = common_params s"
proof -
  have "ru_provider_params (case x of None \<Rightarrow> r | Some v \<Rightarrow> rule_protocol_version v r) = ru_provider_params r"
    "ru_provider_params (case x of None \<Rightarrow> r | Some v \<Rightarrow> rule_app_protocol v r) = ru_provider_params r"
    "ru_provider_params (rule_traffic_class c (rule_proto pr (rule_security q r))) = ru_provider_params r" for x c pr q r
    by (simp_all add: rule_protocol_version_def rule_app_protocol_def rule_traffic_class_def rule_proto_def
        rule_security_def rule_listen_proto_def rule_upstream_proto_def split: option.split)
  then show ?thesis
    using assms by (simp add: apply_common_def Let_def opt_upd if_upd common_params_def
        if_distrib [of ru_provider_params] del: fun_upd_apply) (simp add: opt_upd if_upd)
qed

lemma common_params_None [simp]:
  "common_params s ''verify'' = None" "common_params s ''server_name'' = None" "common_params s ''ca_path'' = None"
  "common_params s ''cert_path'' = None" "common_params s ''key_path'' = None"
  by (simp_all add: common_params_def)

lemma apply_encrypt_params:
  assumes "se_extra_params s = []" and "ru_provider_params r = Map.empty"
  shows "ru_provider_params (apply_encrypt s r) = encrypt_params s"
  by (simp add: apply_encrypt_def Let_def encrypt_params_def apply_common_params [OF assms] opt_upd if_upd
      upd_None if_distrib [of ru_provider_params])

lemma apply_decrypt_params:
  assumes "se_extra_params s = []" and "ru_provider_params r = Map.empty"
  shows "ru_provider_params (apply_decrypt s r) = decrypt_params s"
  by (simp add: apply_decrypt_def Let_def decrypt_params_def apply_common_params [OF assms] opt_upd
      upd_None if_distrib [of ru_provider_params])

lemma opt_apply_sel [simp]:
  "ru_provider_params (opt_apply rule_listen_proto x r) = ru_provider_params r"
  "ru_provider_params (opt_apply rule_upstream_proto x r) = ru_provider_params r"
  "ru_name (opt_apply rule_listen_proto x r) = ru_name r" "ru_name (opt_apply rule_upstream_proto x r) = ru_name r"
  "ru_direction (opt_apply rule_listen_proto x r) = ru_direction r"
  "ru_direction (opt_apply rule_upstream_proto x r) = ru_direction r"
  "ru_listen_addr (opt_apply rule_listen_proto x r) = ru_listen_addr r"
  "ru_listen_addr (opt_apply rule_upstream_proto x r) = ru_listen_addr r"
  "ru_upstream_addr (opt_apply rule_listen_proto x r) = ru_upstream_addr r"
  "ru_upstream_addr (opt_apply rule_upstream_proto x r) = ru_upstream_addr r"
  "ru_traffic_class (opt_apply rule_listen_proto x r) = ru_traffic_class r"
  "ru_traffic_class (opt_apply rule_upstream_proto x r) = ru_traffic_class r"
  "ru_security_provider (opt_apply rule_listen_proto x r) = ru_security_provider r"
  "ru_security_provider (opt_apply rule_upstream_proto x r) = ru_security_provider r"
  "ru_listen_proto (opt_apply rule_listen_proto x r) = (case x of Some v \<Rightarrow> v | None \<Rightarrow> ru_listen_proto r)"
  "ru_listen_proto (opt_apply rule_upstream_proto x r) = ru_listen_proto r"
  "ru_upstream_proto (opt_apply rule_listen_proto x r) = ru_upstream_proto r"
  "ru_upstream_proto (opt_apply rule_upstream_proto x r) = (case x of Some v \<Rightarrow> v | None \<Rightarrow> ru_upstream_proto r)"
  by (simp_all add: opt_apply_def rule_listen_proto_def rule_upstream_proto_def split: option.split)

lemma in_opt_field: "k \<in> fst ` set (opt_field k' f x) \<Longrightarrow> k = k'"
  and in_skip_field: "k \<in> fst ` set (skip_field k' b v) \<Longrightarrow> k = k'"
  by (auto simp: opt_field_def skip_field_def split: option.splits if_splits)

definition own_keys :: "string list" where
  "own_keys =
     [''name'', ''direction'', ''listen_addr'', ''listen_proto'', ''upstream_addr'', ''upstream_proto'',
      ''security_provider'', ''app_protocol'', ''protocol_version'', ''traffic_class'', ''app_id'',
      ''allowed_uids'', ''zero_copy'', ''spin_wait_us'', ''perf_profile'', ''sock_buf_size'', ''pipe_size'',
      ''relay_buf_size'', ''notsent_lowat'', ''busy_poll_us'', ''bdp_adaptive'', ''bdp_queue_budget_us'',
      ''simulated_delay_ms'']"

definition param_keys :: "string list" where
  "param_keys =
     [''profile'', ''psk_identity'', ''psk_hex'', ''cipher_list'', ''ciphersuites'', ''groups'', ''resumption'',
      ''verify'', ''server_name'', ''ca_path'', ''cert_path'', ''key_path'']"

lemma own_param_disjoint: "list_all (\<lambda>k. \<not> List.member param_keys k) own_keys"
  by code_simp

lemma rule_field_keys: "fst ` set (rule_fields r) \<subseteq> set own_keys"
  unfolding rule_fields_def own_keys_def set_append image_Un
  by (intro Un_least) (auto dest!: in_opt_field in_skip_field)

lemma params_in_keys: "k \<notin> set param_keys \<Longrightarrow> encrypt_params s k = None \<and> decrypt_params s k = None"
  by (simp add: param_keys_def encrypt_params_def decrypt_params_def common_params_def)

lemma keys_disjoint:
  assumes "ru_provider_params r = encrypt_params s \<or> ru_provider_params r = decrypt_params s"
  shows "duplicate_keys r = []"
proof -
  have "ru_provider_params r k = None" if "k \<in> fst ` set (rule_fields r)" for k
  proof -
    have "k \<in> set own_keys" using that rule_field_keys by blast
    then have "k \<notin> set param_keys"
      using own_param_disjoint by (auto simp: list_all_iff)
    then show ?thesis using assms params_in_keys by auto
  qed
  then show ?thesis by (auto simp: duplicate_keys_def filter_empty_conv)
qed

text \<open>How a rule pair is wired, whatever the parameters.\<close>

definition pair_wired ::
  "security_spec \<Rightarrow> string \<Rightarrow> string \<Rightarrow> string \<Rightarrow> string \<Rightarrow> string \<Rightarrow> rule_config \<times> rule_config \<Rightarrow> bool" where
  "pair_wired s en dn ingress mid backend p =
     (case p of (e, d) \<Rightarrow>
        ru_name e = en \<and> ru_direction e = ''encrypt'' \<and> ru_listen_addr e = ingress \<and> ru_upstream_addr e = mid
      \<and> ru_name d = dn \<and> ru_direction d = ''decrypt'' \<and> ru_listen_addr d = mid \<and> ru_upstream_addr d = backend
      \<and> ru_security_provider e = se_provider s \<and> ru_security_provider d = se_provider s
      \<and> ru_traffic_class e = se_traffic_class s \<and> ru_traffic_class d = se_traffic_class s)"

lemma build_rule_pair_wired: "pair_wired s en dn ingress mid backend (build_rule_pair s en dn ingress mid backend)"
  using apply_sides_sel(1,4,5) [where r = "rule_config_new en ''encrypt'' ingress mid" and s = s]
    apply_sides_sel(6,9,10) [where r = "rule_config_new dn ''decrypt'' mid backend" and s = s]
  by (simp add: build_rule_pair_def pair_wired_def Let_def same_rule_def rule_config_new_def)

lemma build_rule_pair_params:
  assumes "se_extra_params s = []" and "build_rule_pair s en dn ingress mid backend = (e, d)"
  shows "ru_provider_params e = encrypt_params s \<and> ru_provider_params d = decrypt_params s"
  using assms(2) apply_encrypt_params [OF assms(1), of "rule_config_new en ''encrypt'' ingress mid"]
    apply_decrypt_params [OF assms(1), of "rule_config_new dn ''decrypt'' mid backend"]
  by (auto simp: build_rule_pair_def Let_def rule_config_new_def)

lemma build_rule_pair_protos:
  assumes "build_rule_pair s en dn ingress mid backend = (e, d)"
  shows "ru_listen_proto e = (case se_encrypt_listen_proto s of Some p \<Rightarrow> p | None \<Rightarrow> se_proto s)
       \<and> ru_upstream_proto e = (case se_encrypt_upstream_proto s of Some p \<Rightarrow> p | None \<Rightarrow> se_proto s)
       \<and> ru_listen_proto d = (case se_decrypt_listen_proto s of Some p \<Rightarrow> p | None \<Rightarrow> se_proto s)
       \<and> ru_upstream_proto d = (case se_decrypt_upstream_proto s of Some p \<Rightarrow> p | None \<Rightarrow> se_proto s)"
  using assms by (auto simp: build_rule_pair_def Let_def apply_sides_sel split: option.split)

text \<open>
  C17: Each side of a secured path gets its own credentials and nothing else: for every specification
  without custom parameters, the rules' provider parameters are exactly those of the two tables; so the
  decrypt side never learns the client's key and the encrypt side never the server's, no key of a rule
  collides with a field of its own, and a side that is told to verify its peer against a CA has that CA
  whenever one is configured.
\<close>

theorem rule_pair_credentials:
  assumes "se_extra_params s = []" and "build_rule_pair s en dn ingress mid backend = (e, d)"
  shows "ru_provider_params e = encrypt_params s \<and> ru_provider_params d = decrypt_params s
       \<and> ru_provider_params e ''key_path'' = str_param (se_client_key s)
       \<and> ru_provider_params d ''key_path'' = str_param (se_server_key s)
       \<and> duplicate_keys e = [] \<and> duplicate_keys d = []
       \<and> (ru_provider_params e ''verify'' = Some (JStr ''server'') \<longrightarrow>
            se_ca_cert s \<noteq> None \<and> ru_provider_params e ''ca_path'' = str_param (se_ca_cert s))
       \<and> (ru_provider_params d ''verify'' = Some (JStr ''mutual'') \<longrightarrow>
            ru_provider_params d ''ca_path'' = str_param (se_ca_cert s))"
proof -
  note p = build_rule_pair_params [OF assms]
  have "duplicate_keys e = []" "duplicate_keys d = []"
    using p keys_disjoint [of e] keys_disjoint [of d] by auto
  moreover have "encrypt_params s ''key_path'' = str_param (se_client_key s)"
    "decrypt_params s ''key_path'' = str_param (se_server_key s)"
    "encrypt_params s ''ca_path'' = str_param (se_ca_cert s)"
    by (simp_all add: encrypt_params_def decrypt_params_def)
  moreover have "encrypt_params s ''verify'' = Some (JStr ''server'') \<Longrightarrow> se_ca_cert s \<noteq> None"
    by (simp add: encrypt_params_def encrypt_verify_def split: if_splits)
  moreover have "decrypt_params s ''verify'' = Some (JStr ''mutual'') \<Longrightarrow> decrypt_params s ''ca_path'' = str_param (se_ca_cert s)"
    by (simp add: decrypt_params_def str_param_def)
  ultimately show ?thesis using p by simp
qed

lemma rule_pair_credentials_witness:
  "\<exists>e d. build_rule_pair (tls_mutual ''tls1.3'' \<lparr>cb_ca_cert = ''ca'', cb_server_cert = ''sc'', cb_server_key = ''sk'',
        cb_client_cert = ''cc'', cb_client_key = ''ck''\<rparr>) ''e'' ''d'' ''i'' ''m'' ''b'' = (e, d)
     \<and> ru_provider_params e ''key_path'' = Some (JStr ''ck'') \<and> ru_provider_params d ''key_path'' = Some (JStr ''sk'')"
  (is "\<exists>e d. build_rule_pair ?s _ _ _ _ _ = _ \<and> _")
proof -
  obtain e d where p: "build_rule_pair ?s ''e'' ''d'' ''i'' ''m'' ''b'' = (e, d)" by fastforce
  have "se_extra_params ?s = []" by (simp add: tls_mutual_def mutual_spec_def routing_tcp_def)
  note rule_pair_credentials [OF this p]
  moreover have "se_client_key ?s = Some ''ck''" "se_server_key ?s = Some ''sk''"
    by (simp_all add: tls_mutual_def mutual_spec_def)
  ultimately show ?thesis using p by (auto simp: str_param_def)
qed

text \<open>A custom provider's own \<open>verify\<close> is not passed through: the encrypt rule says \<open>none\<close>.\<close>

lemma custom_verify_overridden:
  "ru_provider_params (apply_encrypt (custom ''vendor'' ''udp'' [(''verify'', JStr ''strict'')]) r) ''verify''
     = Some (JStr ''none'')"
  by (simp add: apply_encrypt_def Let_def custom_def routing_tcp_def rule_param_def encrypt_verify_def)


section \<open>Ports\<close>

lemma port_value: "unat (PORT_BASE + k mod PORT_RANGE) = 20000 + unat k mod 12000"
proof -
  have "unat (k mod PORT_RANGE) = unat k mod 12000" by (simp add: PORT_RANGE_def unat_mod)
  moreover have "unat k mod 12000 < 12000" by simp
  ultimately show ?thesis by (simp add: PORT_BASE_def unat_word_ariths)
qed

lemma reserve_loop_range:
  "reserve_loop free n nxt = (Some p, nxt') \<Longrightarrow> free p \<and> 20000 \<le> unat p \<and> unat p < 32000"
proof (induction n arbitrary: nxt)
  case 0
  then show ?case by simp
next
  case (Suc n)
  then show ?case
    using port_value [of nxt] by (auto simp: Let_def split: if_splits)
qed

lemma reserve_range:
  "reserve_local_port_for free eph nxt = (Inr p, nxt') \<Longrightarrow>
     free p \<and> 20000 \<le> unat p \<and> unat p < 32000 \<or> eph = Inr p"
  by (auto simp: reserve_local_port_for_def dest!: reserve_loop_range split: prod.splits option.splits)

lemma reserve_free:
  assumes "\<forall>p. 20000 \<le> unat p \<and> unat p < 32000 \<longrightarrow> free p"
  shows "reserve_local_port_for free eph nxt = (Inr (PORT_BASE + nxt mod PORT_RANGE), nxt + 1)"
proof -
  have n: "unat PORT_RANGE = Suc 11999" by (simp add: PORT_RANGE_def)
  have "free (PORT_BASE + nxt mod PORT_RANGE)" using assms by (simp add: port_value)
  then have "reserve_loop free (Suc m) nxt = (Some (PORT_BASE + nxt mod PORT_RANGE), nxt + 1)" for m
    by (simp add: Let_def)
  then show ?thesis unfolding reserve_local_port_for_def n by (simp only: prod.case option.case)
qed

text \<open>Reserving \<open>n\<close> ports one after the other.\<close>

fun reserve_ports :: "(u16 \<Rightarrow> bool) \<Rightarrow> 'e + u16 \<Rightarrow> nat \<Rightarrow> u16 \<Rightarrow> ('e + u16) list \<times> u16" where
  "reserve_ports free eph 0 nxt = ([], nxt)"
| "reserve_ports free eph (Suc n) nxt =
     (let (r, nxt) = reserve_local_port_for free eph nxt; (rs, nxt) = reserve_ports free eph n nxt
      in (r # rs, nxt))"

lemma reserve_ports_free:
  assumes "\<forall>p. 20000 \<le> unat p \<and> unat p < 32000 \<longrightarrow> free p"
  shows "reserve_ports free eph n nxt
       = (map (\<lambda>i. Inr (PORT_BASE + (nxt + of_nat i) mod PORT_RANGE)) [0..<n], nxt + of_nat n)"
proof (induction n arbitrary: nxt)
  case 0
  then show ?case by simp
next
  case (Suc n)
  have "[0..<Suc n] = 0 # map Suc [0..<n]" by (simp add: upt_conv_Cons map_Suc_upt del: upt_Suc)
  then show ?case by (simp add: reserve_free [OF assms] Suc.IH Let_def algebra_simps comp_def del: upt_Suc)
qed

lemma mod_window:
  fixes a i j m :: nat
  assumes "(a + i) mod m = (a + j) mod m" and "i < m" and "j < m"
  shows "i = j"
proof -
  have "i = j" if "i \<le> j" "(a + i) mod m = (a + j) mod m" "j < m" for i j
  proof -
    have "m dvd (a + j) - (a + i)"
      using that mod_eq_dvd_iff_nat [of "a + i" "a + j" m] by simp
    then have "m dvd j - i" by simp
    moreover have "j - i < m" using that by simp
    ultimately show ?thesis using that by (auto dest: nat_dvd_not_less)
  qed
  then show ?thesis using assms by (metis nat_le_linear)
qed

lemma port_inj:
  assumes "n \<le> 12000" and "unat nxt + n \<le> 2 ^ 16"
  shows "inj_on (\<lambda>i. PORT_BASE + (nxt + of_nat i) mod PORT_RANGE) {0..<n}"
proof -
  let ?port = "\<lambda>i. PORT_BASE + (nxt + of_nat i) mod PORT_RANGE"
  have k: "unat (nxt + of_nat i) = unat nxt + i" if "i < n" for i
    using that assms(2) by (simp add: unat_word_ariths unat_of_nat)
  show ?thesis
  proof (rule inj_onI)
    fix i j
    assume ij: "i \<in> {0..<n}" "j \<in> {0..<n}" "?port i = ?port j"
    have "unat (?port i) = unat (?port j)" using ij(3) by simp
    then have "(unat nxt + i) mod 12000 = (unat nxt + j) mod 12000"
      using ij(1,2) port_value [of "nxt + of_nat i"] port_value [of "nxt + of_nat j"]
      by (simp only: k atLeastLessThan_iff)
    then show "i = j" using ij assms(1) by (intro mod_window [of "unat nxt" i 12000 j]) auto
  qed
qed

text \<open>
  Reserved ports are distinct and stay clear of the ephemeral range: with the range free, up to
  12000 consecutive reservations whose counter does not pass the end of its 16 bits return as many
  different ports between 20000 and 31999.
\<close>

theorem reserved_ports_distinct:
  assumes "\<forall>p. 20000 \<le> unat p \<and> unat p < 32000 \<longrightarrow> free p"
    and "n \<le> 12000" and "unat nxt + n \<le> 2 ^ 16"
  shows "\<exists>ps. fst (reserve_ports free eph n nxt) = map Inr ps \<and> length ps = n \<and> distinct ps
       \<and> (\<forall>p\<in>set ps. 20000 \<le> unat p \<and> unat p < 32000)"
proof -
  let ?port = "\<lambda>i. PORT_BASE + (nxt + of_nat i) mod PORT_RANGE"
  let ?ps = "map ?port [0..<n]"
  have "inj_on ?port {0..<n}" by (rule port_inj [OF assms(2,3)])
  then have "distinct ?ps" by (simp add: distinct_map)
  moreover have "\<forall>p\<in>set ?ps. 20000 \<le> unat p \<and> unat p < 32000" by (auto simp: port_value)
  moreover have "fst (reserve_ports free eph n nxt) = map Inr ?ps"
    by (simp add: reserve_ports_free [OF assms(1)])
  ultimately show ?thesis by (intro exI [of _ ?ps]) simp
qed

lemma reserved_ports_distinct_witness:
  "\<exists>ps. fst (reserve_ports (\<lambda>_. True) (Inl ()) 3 11999) = map Inr ps \<and> distinct ps"
  using reserved_ports_distinct [of "\<lambda>_. True" 3 11999 "Inl ()"] by auto

text \<open>The 16-bit counter wraps before the range is used up evenly: from counter 60000 on, the port of the
  first reservation comes back after 5536 others.\<close>

lemma port_counter_wraps:
  "snd (reserve_ports (\<lambda>_. True) eph 5536 60000) = 0"
  "reserve_local_port_for (\<lambda>_. True) eph 60000 = (Inr 20000, 60001)"
  "reserve_local_port_for (\<lambda>_. True) eph 0 = (Inr 20000, 1)"
  by (simp_all add: reserve_ports_free reserve_free PORT_BASE_def PORT_RANGE_def)


section \<open>Paths\<close>

lemma loopback_socket_inj: "loopback_socket f p = loopback_socket f q \<longleftrightarrow> p = q"
  by (cases f) (auto simp: loopback_socket_def join_host_port_def show_nat_inj intro: word_unat_eq_iff [THEN iffD2])

definition gateway_rules :: "named_gateway list \<Rightarrow> rule_config list list" where
  "gateway_rules gs = map (gc_rules \<circ> ng_config) gs"

lemma gateways_for_topology_rules:
  "gateway_rules (gateways_for_topology topo es ds n) = (case topo of SingleGateway \<Rightarrow> [es @ ds] | ScgToScg \<Rightarrow> [es, ds])"
  by (simp add: gateways_for_topology_def gateway_rules_def Let_def pool_for_connections_def allow_all_def
      with_log_level_def gateway_config_new_def split: path_topology.split)

text \<open>What the rules of a list of classes look like, one triple per class.\<close>

definition class_wired :: "security_spec \<Rightarrow> string \<times> string \<Rightarrow> class_path \<times> rule_config \<times> rule_config \<Rightarrow> bool" where
  "class_wired s cb t =
     (case (cb, t) of ((cls, backend), (cp, e, d)) \<Rightarrow>
        cp_class cp = cls \<and> cp_backend_addr cp = backend
      \<and> pair_wired (with_traffic_class cls s) (encrypt_name cls) (decrypt_name cls)
          (cp_ingress_addr cp) (ru_listen_addr d) backend (e, d))"

lemma class_rules_wired:
  "class_rules free eph s cbs nxt = (Inr rs, nxt') \<Longrightarrow> list_all2 (class_wired s) cbs rs"
proof (induction cbs arbitrary: nxt rs nxt')
  case Nil
  then show ?case by simp
next
  case (Cons cb cbs)
  obtain cls backend where cb: "cb = (cls, backend)" by (cases cb)
  from Cons.prems obtain p1 p2 n2 rs' where
    r: "class_rules free eph s cbs n2 = (Inr rs', nxt')" and
    rs: "rs = (let ingress = loopback_socket (se_address_family s) p1; mid = loopback_socket (se_address_family s) p2;
               (e, d) = build_rule_pair (with_traffic_class cls s) (encrypt_name cls) (decrypt_name cls)
                  ingress mid backend
             in (\<lparr>cp_class = cls, cp_ingress_addr = ingress, cp_backend_addr = backend\<rparr>, e, d) # rs')"
    by (auto simp: cb Let_def split: prod.splits sum.splits)
  let ?i = "loopback_socket (se_address_family s) p1" and ?m = "loopback_socket (se_address_family s) p2"
  obtain e d where ed: "build_rule_pair (with_traffic_class cls s) (encrypt_name cls) (decrypt_name cls)
      ?i ?m backend = (e, d)" by fastforce
  have "pair_wired (with_traffic_class cls s) (encrypt_name cls) (decrypt_name cls) ?i ?m backend (e, d)"
    using build_rule_pair_wired ed by metis
  moreover from this have "ru_listen_addr d = ?m" by (simp add: pair_wired_def)
  ultimately have "class_wired s (cls, backend) (\<lparr>cp_class = cls, cp_ingress_addr = ?i, cp_backend_addr = backend\<rparr>, e, d)"
    by (simp add: class_wired_def)
  then show ?case using Cons.IH [OF r] rs ed by (simp add: cb Let_def)
qed

text \<open>With the port range free, all listening addresses of the rules are different.\<close>

lemma class_rules_listens:
  assumes "\<forall>p. 20000 \<le> unat p \<and> unat p < 32000 \<longrightarrow> free p"
    and "class_rules free eph s cbs nxt = (Inr rs, nxt')"
  shows "concat (map (\<lambda>(cp, e, d). [ru_listen_addr e, ru_listen_addr d]) rs)
       = map (\<lambda>i. loopback_socket (se_address_family s) (PORT_BASE + (nxt + of_nat i) mod PORT_RANGE)) [0..<2 * length cbs]"
  using assms(2)
proof (induction cbs arbitrary: nxt rs)
  case Nil
  then show ?case by simp
next
  case (Cons cb cbs)
  obtain cls backend where cb: "cb = (cls, backend)" by (cases cb)
  let ?i = "loopback_socket (se_address_family s) (PORT_BASE + nxt mod PORT_RANGE)"
  let ?m = "loopback_socket (se_address_family s) (PORT_BASE + (nxt + 1) mod PORT_RANGE)"
  obtain e d where ed: "build_rule_pair (with_traffic_class cls s) (encrypt_name cls) (decrypt_name cls)
      ?i ?m backend = (e, d)" by fastforce
  from Cons.prems obtain rs' where r: "class_rules free eph s cbs (2 + nxt) = (Inr rs', nxt')"
    and rs: "rs = (\<lparr>cp_class = cls, cp_ingress_addr = ?i, cp_backend_addr = backend\<rparr>, e, d) # rs'"
    by (auto simp: cb Let_def reserve_free [OF assms(1)] ed split: prod.splits sum.splits)
  have "ru_listen_addr e = ?i" "ru_listen_addr d = ?m"
    using build_rule_pair_wired [of "with_traffic_class cls s" "encrypt_name cls" "decrypt_name cls" ?i ?m backend] ed
    by (simp_all add: pair_wired_def)
  moreover have "[0..<2 * length (cb # cbs)] = 0 # 1 # map (\<lambda>i. i + 2) [0..<2 * length cbs]"
    using map_add_upt [of 2 "2 * length cbs"] by (simp add: upt_conv_Cons numeral_2_eq_2 del: upt_Suc)
  ultimately show ?case
    using Cons.IH [OF r] by (simp add: rs algebra_simps comp_def del: upt_Suc)
qed


text \<open>
  A secured path is one encrypt and one decrypt rule in series: the sender's ingress is where the
  encrypt rule listens, the encrypt rule forwards to where the decrypt rule listens and the decrypt rule
  to the receiver; both carry the provider and the traffic class; one process runs both rules, or two
  processes one each, with a pool the gateway accepts.
\<close>

theorem secured_path_wired:
  assumes "build_path free eph s topo backend conns nxt = (Inr plan, nxt')"
  shows "\<exists>e d mid. pair_wired s ''seshat-encrypt'' ''seshat-decrypt'' (pp_ingress_addr plan) mid backend (e, d)
       \<and> pp_backend_addr plan = backend
       \<and> gateway_rules (pp_gateways plan) = (case topo of SingleGateway \<Rightarrow> [[e, d]] | ScgToScg \<Rightarrow> [[e], [d]])
       \<and> (\<forall>g\<in>set (pp_gateways plan). \<exists>k. gc_conn_pool_size (ng_config g) = Some k
            \<and> MIN_POOL_SIZE \<le> k \<and> k \<le> MAX_CONN_POOL_SIZE \<and> (conns \<le> MAX_CONN_POOL_SIZE \<longrightarrow> conns \<le> k))"
proof -
  from assms obtain p1 p2 e d where
    ed: "build_rule_pair s ''seshat-encrypt'' ''seshat-decrypt'' (loopback_socket (se_address_family s) p1)
          (loopback_socket (se_address_family s) p2) backend = (e, d)" and
    pl: "plan = \<lparr>pp_ingress_addr = loopback_socket (se_address_family s) p1, pp_backend_addr = backend,
          pp_gateways = gateways_for_topology topo [e] [d] conns\<rparr>"
    by (auto simp: build_path_def Let_def split: prod.splits sum.splits)
  let ?i = "loopback_socket (se_address_family s) p1" and ?m = "loopback_socket (se_address_family s) p2"
  have "pair_wired s ''seshat-encrypt'' ''seshat-decrypt'' ?i ?m backend (e, d)"
    using build_rule_pair_wired [of s "''seshat-encrypt''" "''seshat-decrypt''" ?i ?m backend] unfolding ed .
  moreover have "\<exists>k. gc_conn_pool_size (ng_config g) = Some k \<and> MIN_POOL_SIZE \<le> k \<and> k \<le> MAX_CONN_POOL_SIZE
      \<and> (conns \<le> MAX_CONN_POOL_SIZE \<longrightarrow> conns \<le> k)" if "g \<in> set (pp_gateways plan)" for g
    using that pool_accepted [of conns]
    by (auto simp: pl gateways_for_topology_def Let_def split: path_topology.splits)
  ultimately show ?thesis
    by (intro exI [of _ e] exI [of _ d] exI [of _ ?m] conjI ballI)
       (simp_all add: pl gateways_for_topology_rules split: path_topology.split)
qed

lemma secured_path_wired_witness:
  "\<exists>plan nxt' e d mid. build_path (\<lambda>_. True) (Inl ()) routing_tcp ScgToScg ''[::1]:9'' 64 7 = (Inr plan, nxt')
     \<and> gateway_rules (pp_gateways plan) = [[e], [d]] \<and> ru_upstream_addr e = mid \<and> ru_listen_addr d = mid"
proof -
  obtain plan nxt' where p: "build_path (\<lambda>_. True) (Inl ()) routing_tcp ScgToScg ''[::1]:9'' 64 7 = (Inr plan, nxt')"
    by (simp add: build_path_def reserve_free Let_def split_beta)
  show ?thesis using secured_path_wired [OF p] p by (auto simp: pair_wired_def)
qed

text \<open>
  Every traffic class gets a path of its own through the shared gateways: the plan lists the classes
  with their backends in order, each with a rule pair named after the class, carrying it and wired from its
  ingress to its backend; the rules are those of the gateways, split by direction for two processes; and
  with the port range free no two of the up to 6000 pairs listen on the same address.
\<close>

theorem multi_class_wired:
  assumes "build_multi_class_path free eph s topo cbs conns nxt = (Inr plan, nxt')"
  shows "\<exists>rs. list_all2 (class_wired s) cbs rs \<and> mp_paths plan = map fst rs
       \<and> gateway_rules (mp_gateways plan)
         = (let es = map (fst \<circ> snd) rs; ds = map (snd \<circ> snd) rs
            in case topo of SingleGateway \<Rightarrow> [es @ ds] | ScgToScg \<Rightarrow> [es, ds])
       \<and> ((\<forall>p. 20000 \<le> unat p \<and> unat p < 32000 \<longrightarrow> free p) \<and> 2 * length cbs \<le> 12000
            \<and> unat nxt + 2 * length cbs \<le> 2 ^ 16
          \<longrightarrow> distinct (concat (map (\<lambda>(cp, e, d). [ru_listen_addr e, ru_listen_addr d]) rs)))"
proof -
  from assms obtain rs where rs: "class_rules free eph s cbs nxt = (Inr rs, nxt')"
    and plan: "plan = \<lparr>mp_paths = map fst rs,
        mp_gateways = gateways_for_topology topo (map (fst \<circ> snd) rs) (map (snd \<circ> snd) rs) conns\<rparr>"
    by (auto simp: build_multi_class_path_def split: if_splits prod.splits sum.splits)
  have "distinct (concat (map (\<lambda>(cp, e, d). [ru_listen_addr e, ru_listen_addr d]) rs))"
    if free: "\<forall>p. 20000 \<le> unat p \<and> unat p < 32000 \<longrightarrow> free p" and n: "2 * length cbs \<le> 12000"
      and c: "unat nxt + 2 * length cbs \<le> 2 ^ 16"
  proof -
    let ?port = "\<lambda>i. PORT_BASE + (nxt + of_nat i) mod PORT_RANGE"
    have "inj_on ?port {0..<2 * length cbs}" by (rule port_inj [OF n c])
    then have "distinct (map (\<lambda>i. loopback_socket (se_address_family s) (?port i)) [0..<2 * length cbs])"
      by (auto simp: distinct_map inj_on_def loopback_socket_inj)
    then show ?thesis by (simp only: class_rules_listens [OF free rs])
  qed
  then show ?thesis
    using class_rules_wired [OF rs]
    by (intro exI [of _ rs] conjI) (auto simp: plan gateways_for_topology_rules Let_def)
qed

lemma multi_class_wired_witness:
  "\<exists>plan nxt' rs. build_multi_class_path (\<lambda>_. True) (Inl ()) routing_tcp SingleGateway
       [(''safety'', ''b:1''), (''normal'', ''b:2'')] 8 0 = (Inr plan, nxt')
     \<and> list_all2 (class_wired routing_tcp) [(''safety'', ''b:1''), (''normal'', ''b:2'')] rs
     \<and> distinct (concat (map (\<lambda>(cp, e, d). [ru_listen_addr e, ru_listen_addr d]) rs))"
  (is "\<exists>plan nxt' rs. ?b = _ \<and> _")
proof -
  have "\<exists>plan nxt'. ?b = (Inr plan, nxt')"
    by (simp add: build_multi_class_path_def reserve_free Let_def split_beta)
  then obtain plan nxt' where p: "?b = (Inr plan, nxt')" by blast
  show ?thesis using multi_class_wired [OF p] p by auto
qed

text \<open>A runtime directory is short enough for socket paths, or there is none.\<close>

lemma try_dirs_short: "try_dirs create name e bases = Inr dir \<Longrightarrow> length dir \<le> 32 \<and> create dir = Inr ()"
  by (induction bases arbitrary: e) (auto simp: Let_def MAX_DIR_BYTES_def split: if_splits sum.splits)

text \<open>A gateway is always started with something to wait for: a TCP listener or a management socket.\<close>

lemma readiness_signal:
  "ensure_readiness_api dir c = Inr c' \<Longrightarrow> gc_rules c' = gc_rules c \<and> (has_tcp_listener c' \<or> gc_api c' \<noteq> None)"
  by (auto simp: ensure_readiness_api_def with_api_def has_tcp_listener_def split: if_splits sum.splits)

end
