(* ===== verification/Gateway_Process.thy ===== *)
theory Gateway_Process
  imports Gateway_Config
begin

text \<open>
  The life of a gateway process, \<open>src/src/gateway/process.rs\<close> and \<open>reload.rs\<close>, and what its logs reveal,
  \<open>logscan.rs\<close>. What the operating system answers (exit status, probes, the clock) comes in turns; what is
  done to the outside world is a list of events.
\<close>

section \<open>Locating and describing a process\<close>

definition sibling_builds :: "string list" where
  "sibling_builds =
     [''../SCG/target/release/gateway'', ''../SCG/target/debug/gateway'',
      ''SCG/target/release/gateway'', ''SCG/target/debug/gateway'']"

definition candidate_gateway_binaries :: "(string \<Rightarrow> bool) \<Rightarrow> string option \<Rightarrow> string list" where
  "candidate_gateway_binaries is_file env =
     (let out = (case env of Some p \<Rightarrow> if is_file p then [p] else [] | None \<Rightarrow> [])
      in foldl (\<lambda>out c. if is_file c \<and> c \<notin> set out then out @ [c] else out) out sibling_builds)"

definition locate_gateway_binary :: "(string \<Rightarrow> bool) \<Rightarrow> string option \<Rightarrow> string option" where
  "locate_gateway_binary is_file env =
     (case candidate_gateway_binaries is_file env of [] \<Rightarrow> None | p # _ \<Rightarrow> Some p)"

text \<open>The first candidate that came up when probed.\<close>

definition locate_working_binary :: "(string \<Rightarrow> bool) \<Rightarrow> string list \<Rightarrow> string option" where
  "locate_working_binary comes_up candidates = find comes_up candidates"

definition normalize_probe_addr :: "string \<Rightarrow> string" where
  "normalize_probe_addr listen_addr =
     (case strip_prefix ''0.0.0.0:'' listen_addr of
        Some port \<Rightarrow> ''127.0.0.1:'' @ port
      | None \<Rightarrow> (case strip_prefix ''[::]:'' listen_addr of
                  Some port \<Rightarrow> ''[::1]:'' @ port
                | None \<Rightarrow> listen_addr))"

record gateway_process =
  gp_label :: string
  gp_pid :: int
  gp_config_path :: string
  gp_log_path :: string
  gp_tcp_listeners :: "string list"
  gp_mgmt_socket :: "string option"
  gp_finished :: bool

text \<open>The handle \<open>spawn\<close> returns once the files are written and the child runs.\<close>

definition spawned :: "gateway_config \<Rightarrow> string \<Rightarrow> string \<Rightarrow> int \<Rightarrow> gateway_process" where
  "spawned config work_dir label pid =
     \<lparr>gp_label = label, gp_pid = pid, gp_config_path = work_dir @ ''/'' @ label @ ''.config.json'',
      gp_log_path = work_dir @ ''/'' @ label @ ''.log'',
      gp_tcp_listeners = map (normalize_probe_addr \<circ> ru_listen_addr)
        (filter (\<lambda>r. ru_listen_proto r = ''tcp'' \<and> ru_listen_addr r \<noteq> ''unused'') (gc_rules config)),
      gp_mgmt_socket = map_option ap_uds_path (gc_api config), gp_finished = False\<rparr>"

section \<open>Readiness\<close>

text \<open>The probe of an address: None when it does not parse as a socket address.\<close>

definition all_listeners_up :: "(string \<Rightarrow> bool option) \<Rightarrow> (string \<Rightarrow> bool) \<Rightarrow> gateway_process \<Rightarrow> bool" where
  "all_listeners_up probe connects p =
     (list_all (\<lambda>a. probe a \<noteq> Some False) (gp_tcp_listeners p)
      \<and> (case gp_mgmt_socket p of Some s \<Rightarrow> connects s | None \<Rightarrow> True))"

record ready_turn =
  rdy_exit :: "string + string option"
  rdy_probe :: "string \<Rightarrow> bool option"
  rdy_connects :: "string \<Rightarrow> bool"
  rdy_now :: nat

datatype ready_error = TryWait string | Exited string | NotReady

fun wait_ready :: "gateway_process \<Rightarrow> nat \<Rightarrow> ready_turn list \<Rightarrow> (ready_error + unit) option" where
  "wait_ready p deadline [] = None"
| "wait_ready p deadline (t # ts) =
     (case rdy_exit t of
        Inl e \<Rightarrow> Some (Inl (TryWait e))
      | Inr (Some status) \<Rightarrow> Some (Inl (Exited status))
      | Inr None \<Rightarrow>
          if all_listeners_up (rdy_probe t) (rdy_connects t) p then Some (Inr ())
          else if deadline \<le> rdy_now t then Some (Inl NotReady)
          else wait_ready p deadline ts)"

section \<open>Shutdown\<close>

definition SIGHUP :: int where "SIGHUP = 1"
definition SIGKILL :: int where "SIGKILL = 9"
definition SIGTERM :: int where "SIGTERM = 15"

datatype proc_event = Signal int int | Wait | Remove string | WriteFile string string | Rename string string

definition SHUTDOWN_GRACE_NS :: nat where "SHUTDOWN_GRACE_NS = 5000000000"

text \<open>The wait after \<open>SIGTERM\<close>: a turn is the clock and whether the child has exited by then.\<close>

fun grace_loop :: "nat \<Rightarrow> (nat \<times> ('e + bool)) list \<Rightarrow> ('e + unit) option" where
  "grace_loop deadline [] = None"
| "grace_loop deadline ((now, exited) # ts) =
     (if deadline \<le> now then Some (Inr ())
      else (case exited of
              Inl e \<Rightarrow> Some (Inl e)
            | Inr True \<Rightarrow> Some (Inr ())
            | Inr False \<Rightarrow> grace_loop deadline ts))"

definition cleanup :: "gateway_process \<Rightarrow> proc_event list" where
  "cleanup p = Wait # Remove (gp_config_path p) # (case gp_mgmt_socket p of Some s \<Rightarrow> [Remove s] | None \<Rightarrow> [])"

text \<open>
  \<open>terminate\<close>: the exit status before the signal, the turns of the wait, the status after it. An error of
  the status query ends it with the handle unfinished.
\<close>

definition terminate ::
  "nat \<Rightarrow> 'e + bool \<Rightarrow> (nat \<times> ('e + bool)) list \<Rightarrow> 'e + bool \<Rightarrow> gateway_process
   \<Rightarrow> (gateway_process \<times> proc_event list \<times> ('e + unit)) option" where
  "terminate start exited0 turns exited1 p =
     (let done = (\<lambda>evs. (p\<lparr>gp_finished := True\<rparr>, evs @ cleanup p, Inr ())) in
      if gp_finished p then Some (p, [], Inr ())
      else (case exited0 of
              Inl e \<Rightarrow> Some (p, [], Inl e)
            | Inr True \<Rightarrow> Some (done [])
            | Inr False \<Rightarrow>
                (case grace_loop (start + SHUTDOWN_GRACE_NS) turns of
                   None \<Rightarrow> None
                 | Some (Inl e) \<Rightarrow> Some (p, [Signal (gp_pid p) SIGTERM], Inl e)
                 | Some (Inr _) \<Rightarrow>
                     (case exited1 of
                        Inl e \<Rightarrow> Some (p, [Signal (gp_pid p) SIGTERM], Inl e)
                      | Inr True \<Rightarrow> Some (done [Signal (gp_pid p) SIGTERM])
                      | Inr False \<Rightarrow> Some (done [Signal (gp_pid p) SIGTERM, Signal (gp_pid p) SIGKILL])))))"

definition drop_process :: "gateway_process \<Rightarrow> proc_event list" where
  "drop_process p = (if gp_finished p then [] else Signal (gp_pid p) SIGKILL # cleanup p)"

text \<open>\<open>shutdown\<close> consumes the handle: \<open>terminate\<close>, then the drop.\<close>

definition shutdown ::
  "nat \<Rightarrow> 'e + bool \<Rightarrow> (nat \<times> ('e + bool)) list \<Rightarrow> 'e + bool \<Rightarrow> gateway_process
   \<Rightarrow> (proc_event list \<times> ('e + unit)) option" where
  "shutdown start exited0 turns exited1 p =
     map_option (\<lambda>(p', evs, r). (evs @ drop_process p', r)) (terminate start exited0 turns exited1 p)"

definition force_kill :: "int list \<Rightarrow> proc_event list" where
  "force_kill pids = map (\<lambda>p. Signal p SIGKILL) pids"

section \<open>Reloads\<close>

text \<open>A config is written beside the old one, renamed over it, then the process is signalled; the first
  failing step ends the sequence. \<open>ok\<close> tells which steps succeed.\<close>

definition reload_tmp :: "string \<Rightarrow> string" where
  "reload_tmp dir = dir @ ''/.seshat-reload.tmp.json''"

definition run_steps :: "(proc_event \<Rightarrow> bool) \<Rightarrow> proc_event list \<Rightarrow> proc_event list \<times> bool" where
  "run_steps ok evs =
     (takeWhile ok evs @ take 1 (dropWhile ok evs), list_all ok evs)"

definition inject_reload :: "(proc_event \<Rightarrow> bool) \<Rightarrow> int \<Rightarrow> string \<Rightarrow> string \<Rightarrow> string \<Rightarrow> proc_event list \<times> bool" where
  "inject_reload ok pid dir config_path text =
     run_steps ok [WriteFile (reload_tmp dir) text, Rename (reload_tmp dir) config_path, Signal pid SIGHUP]"

text \<open>Waiting for a healthy gateway: a turn is the clock and the answer of the health probe.\<close>

fun wait_healthy :: "nat \<Rightarrow> (nat \<times> bool) list \<Rightarrow> bool option" where
  "wait_healthy deadline [] = None"
| "wait_healthy deadline ((now, healthy) # ts) =
     (if deadline \<le> now then Some False
      else if healthy then Some True
      else wait_healthy deadline ts)"

section \<open>What the logs reveal\<close>

record effective =
  ef_kernel_requested :: bool
  ef_kernel_active :: bool
  ef_version_downgrade :: "string option"
  ef_resumed_handshakes :: u64
  ef_full_handshakes :: u64
  ef_notes :: "string list"

definition is_fallback :: "effective \<Rightarrow> bool" where
  "is_fallback e = (ef_kernel_requested e \<and> \<not> ef_kernel_active e \<or> ef_version_downgrade e \<noteq> None)"

definition resumed_fraction :: "effective \<Rightarrow> f64 option" where
  "resumed_fraction e =
     (let n = ef_resumed_handshakes e + ef_full_handshakes e
      in if 0 < n then Some (f_of_word (ef_resumed_handshakes e) / f_of_word n) else None)"

definition KTLS_INACTIVE_MARKERS :: "string list" where
  "KTLS_INACTIVE_MARKERS = [''ktls not active'', ''ktls may not be active'', ''active=false'']"

definition has_marker :: "string \<Rightarrow> bool" where
  "has_marker low = list_ex (contains low) KTLS_INACTIVE_MARKERS"

record scan =
  sn_inactive :: bool
  sn_notes :: "string list"
  sn_resumed :: u64
  sn_full :: u64

definition scan_line :: "string \<Rightarrow> scan \<Rightarrow> scan" where
  "scan_line line s =
     (let low = to_lower line;
          s = (if contains low ''resumed=true'' then s\<lparr>sn_resumed := sn_resumed s + 1\<rparr>
               else if contains low ''resumed=false'' then s\<lparr>sn_full := sn_full s + 1\<rparr> else s)
      in if has_marker low then s\<lparr>sn_inactive := True, sn_notes := sn_notes s @ [trim line]\<rparr>
         else if contains low ''error''
              \<and> (contains low ''dtls'' \<or> contains low ''ktls'' \<or> contains low ''handshake'')
         then s\<lparr>sn_notes := sn_notes s @ [trim line]\<rparr>
         else s)"

text \<open>The logs as they read: None for a file that cannot be read.\<close>

definition log_lines :: "string option list \<Rightarrow> string list" where
  "log_lines logs = concat (map (\<lambda>l. case l of Some t \<Rightarrow> lines t | None \<Rightarrow> []) logs)"

definition scan_effective :: "string option list \<Rightarrow> bool \<Rightarrow> effective" where
  "scan_effective logs kernel_requested =
     (let s = fold scan_line (log_lines logs) \<lparr>sn_inactive = False, sn_notes = [], sn_resumed = 0, sn_full = 0\<rparr>
      in \<lparr>ef_kernel_requested = kernel_requested, ef_kernel_active = (kernel_requested \<and> \<not> sn_inactive s),
          ef_version_downgrade = None, ef_resumed_handshakes = sn_resumed s,
          ef_full_handshakes = sn_full s, ef_notes = sn_notes s\<rparr>)"

definition effective_protocol_label :: "string \<Rightarrow> effective \<Rightarrow> string" where
  "effective_protocol_label configured e =
     (if ef_kernel_requested e \<and> \<not> ef_kernel_active e
      then replace_first ''ktls'' ''tls'' configured @ '' (ktls->userspace)''
      else (case ef_version_downgrade e of
              Some d \<Rightarrow> configured @ '' ('' @ d @ '')''
            | None \<Rightarrow> configured))"

section \<open>Properties\<close>

lemma cleanup_once: "length (filter ((=) Wait) (cleanup p)) = 1" "Remove (gp_config_path p) \<in> set (cleanup p)"
  "gp_mgmt_socket p = Some s \<Longrightarrow> Remove s \<in> set (cleanup p)"
  "\<not> List.member (cleanup p) (Signal i k)"
  by (auto simp: cleanup_def split: option.splits)

lemma grace_loop_early: "grace_loop d ts = Some (Inr ()) \<Longrightarrow> (\<exists>t\<in>set ts. d \<le> fst t) \<or> (\<exists>t\<in>set ts. snd t = Inr True)"
  by (induction ts) (auto split: if_splits sum.splits bool.splits)

lemma terminate_cases:
  assumes "terminate start exited0 turns exited1 p = Some (p', evs, r)" and "\<not> gp_finished p"
  obtains (failed) e where "r = Inl e" "p' = p" "evs = [] \<or> evs = [Signal (gp_pid p) SIGTERM]"
  | (gone) "r = Inr ()" "gp_finished p'" "exited0 = Inr True" "evs = cleanup p"
  | (graceful) "r = Inr ()" "gp_finished p'" "exited0 = Inr False" "evs = Signal (gp_pid p) SIGTERM # cleanup p"
  | (killed) "r = Inr ()" "gp_finished p'" "exited0 = Inr False" "exited1 = Inr False"
      "grace_loop (start + SHUTDOWN_GRACE_NS) turns = Some (Inr ())"
      "evs = Signal (gp_pid p) SIGTERM # Signal (gp_pid p) SIGKILL # cleanup p"
  using assms by (auto simp: terminate_def Let_def split: sum.splits bool.splits option.splits)

text \<open>
  C18: A gateway never outlives its handle: however the shutdown goes, also when the operating system
  refuses to tell the child's status, the child is reaped exactly once, its config file and its socket
  are removed, and it is never killed outright unless the grace period has run out, it is still there, or
  its status could not be read.
\<close>

theorem process_always_reaped:
  assumes "shutdown start exited0 turns exited1 p = Some (evs, r)" and "\<not> gp_finished p"
  shows "length (filter ((=) Wait) evs) = 1 \<and> Remove (gp_config_path p) \<in> set evs
       \<and> (\<forall>s. gp_mgmt_socket p = Some s \<longrightarrow> Remove s \<in> set evs)
       \<and> (Signal (gp_pid p) SIGKILL \<in> set evs \<longrightarrow>
            r \<noteq> Inr () \<or> exited1 = Inr False \<and> grace_loop (start + SHUTDOWN_GRACE_NS) turns = Some (Inr ()))
       \<and> (r = Inr () \<and> exited0 = Inr False \<longrightarrow> hd evs = Signal (gp_pid p) SIGTERM)"
proof -
  obtain p' evs' where t: "terminate start exited0 turns exited1 p = Some (p', evs', r)"
    and evs: "evs = evs' @ drop_process p'"
    using assms(1) by (auto simp: shutdown_def)
  have c: "filter ((=) Wait) (cleanup p) = [Wait]" "Signal i k \<notin> set (cleanup p)" for i k
    by (auto simp: cleanup_def split: option.splits)
  note simps = evs drop_process_def c cleanup_once SIGTERM_def SIGKILL_def
  from t assms(2) show ?thesis
  proof (cases rule: terminate_cases)
    case failed
    with assms(2) show ?thesis by (auto simp: simps)
  next
    case gone
    then show ?thesis by (simp add: simps)
  next
    case graceful
    then show ?thesis by (simp add: simps)
  next
    case killed
    then show ?thesis by (simp add: simps)
  qed
qed

lemma process_always_reaped_witness:
  "\<exists>evs. shutdown 0 (Inr False) [(1, Inr False), (6000000000, Inr False)] (Inr False)
       (spawned (gateway_config_new []) ''/w'' ''scg'' 7) = Some (evs, Inr () :: unit + unit)
     \<and> length (filter ((=) Wait) evs) = 1 \<and> hd evs = Signal 7 SIGTERM"
  (is "\<exists>evs. ?s = _ \<and> _")
proof -
  let ?p = "spawned (gateway_config_new []) ''/w'' ''scg'' 7"
  have "\<exists>evs. ?s = Some (evs, Inr ())"
    by (simp add: shutdown_def terminate_def Let_def spawned_def SHUTDOWN_GRACE_NS_def)
  then obtain evs where s: "?s = Some (evs, Inr ())" by blast
  have "\<not> gp_finished ?p" "gp_pid ?p = 7" by (simp_all add: spawned_def)
  with process_always_reaped [OF s] s show ?thesis by auto
qed

text \<open>A readiness wait with a clock that passes the deadline comes to an end.\<close>

lemma wait_ready_returns:
  "(\<exists>t\<in>set ts. deadline \<le> rdy_now t) \<Longrightarrow> \<exists>r. wait_ready p deadline ts = Some r"
  by (induction ts) (auto split: sum.splits option.splits)

lemma wait_ready_ok:
  "wait_ready p deadline ts = Some (Inr ()) \<Longrightarrow>
     \<exists>t\<in>set ts. rdy_exit t = Inr None \<and> all_listeners_up (rdy_probe t) (rdy_connects t) p"
  by (induction ts) (auto split: sum.splits option.splits if_splits)

text \<open>The process is signalled only after the complete new config has taken the old one's place.\<close>

lemma reload_order:
  "Signal pid SIGHUP \<in> set (fst (inject_reload ok pid dir path text)) \<Longrightarrow>
     fst (inject_reload ok pid dir path text)
       = [WriteFile (reload_tmp dir) text, Rename (reload_tmp dir) path, Signal pid SIGHUP]
     \<and> ok (WriteFile (reload_tmp dir) text) \<and> ok (Rename (reload_tmp dir) path)"
  by (auto simp: inject_reload_def run_steps_def split: if_splits)

lemma log_scan_fold:
  "let s' = fold scan_line ls s in
     sn_inactive s' = (sn_inactive s \<or> list_ex (has_marker \<circ> to_lower) ls)
   \<and> sn_resumed s' = sn_resumed s + of_nat (length (filter (\<lambda>l. contains (to_lower l) ''resumed=true'') ls))
   \<and> sn_full s' = sn_full s + of_nat (length (filter (\<lambda>l. \<not> contains (to_lower l) ''resumed=true''
        \<and> contains (to_lower l) ''resumed=false'') ls))"
proof (induction ls arbitrary: s)
  case Nil
  then show ?case by simp
next
  case (Cons l ls)
  have "sn_inactive (scan_line l s) = (sn_inactive s \<or> has_marker (to_lower l))"
    "sn_resumed (scan_line l s) = sn_resumed s + (if contains (to_lower l) ''resumed=true'' then 1 else 0)"
    "sn_full (scan_line l s) = sn_full s
       + (if \<not> contains (to_lower l) ''resumed=true'' \<and> contains (to_lower l) ''resumed=false'' then 1 else 0)"
    by (cases "contains (to_lower l) ''resumed=true''"; cases "contains (to_lower l) ''resumed=false''";
        cases "has_marker (to_lower l)"; simp add: scan_line_def Let_def)+
  with Cons.IH [of "scan_line l s"] show ?case by (simp add: Let_def)
qed

text \<open>
  The reported protocol is what the gateway delivered: kernel TLS counts as active exactly if it was
  requested and no readable log line, in any letter case, carries a marker of the fallback; then, and only
  then, is the configured label replaced, by one that says so; and the handshake counts are the numbers of
  lines that report a resumed or a full handshake.
\<close>

theorem effective_protocol:
  "let e = scan_effective logs requested; ls = map to_lower (log_lines logs) in
     (ef_kernel_active e \<longleftrightarrow> requested \<and> \<not> list_ex has_marker ls)
   \<and> (is_fallback e \<longleftrightarrow> requested \<and> list_ex has_marker ls)
   \<and> effective_protocol_label c e
       = (if is_fallback e then replace_first ''ktls'' ''tls'' c @ '' (ktls->userspace)'' else c)
   \<and> ef_resumed_handshakes e = of_nat (length (filter (\<lambda>l. contains l ''resumed=true'') ls))
   \<and> ef_full_handshakes e = of_nat (length (filter (\<lambda>l. \<not> contains l ''resumed=true'' \<and> contains l ''resumed=false'') ls))"
  using log_scan_fold [of "log_lines logs" "\<lparr>sn_inactive = False, sn_notes = [], sn_resumed = 0, sn_full = 0\<rparr>"]
  by (auto simp: scan_effective_def Let_def is_fallback_def effective_protocol_label_def filter_map comp_def
      list_ex_iff)

text \<open>No log ever yields a version downgrade, although the report has a place for one.\<close>

lemma no_version_downgrade: "ef_version_downgrade (scan_effective logs requested) = None"
  by (simp add: scan_effective_def Let_def)

end
