(* ===== verification/Local_Transports.thy ===== *)
theory Local_Transports
  imports Gateway_Path Tcp_Write
begin

text \<open>
  The local interfaces: the gateway's Unix-domain and shared-memory endpoints (\<open>src/src/transport/uds.rs\<close>,
  \<open>shm.rs\<close>) and the gateway-less pairs the harness calibrates against (\<open>uds_null.rs\<close>, \<open>shm_null.rs\<close>). The
  client library and the ring are not part of the repository: what their calls answer are arguments, and
  an error of theirs is its text.
\<close>

section \<open>Traffic classes\<close>

datatype traffic_class = TcNormal | TcSafety

fun class_label :: "traffic_class \<Rightarrow> string" where
  "class_label TcNormal = ''normal''"
| "class_label TcSafety = ''safety''"

definition traffic_class_from_label :: "string \<Rightarrow> traffic_class option" where
  "traffic_class_from_label label =
     (if label \<in> {''normal'', ''non-safety'', ''bulk'', ''best-effort''} then Some TcNormal
      else if label \<in> {''safety'', ''safety-critical''} then Some TcSafety
      else None)"

definition normalize_classes :: "traffic_class list \<Rightarrow> traffic_class list" where
  "normalize_classes classes =
     (let out = foldl (\<lambda>out c. if c \<in> set out then out else out @ [c]) [] classes
      in if out = [] then [TcNormal] else out)"

section \<open>Rules and provisioning\<close>

definition local_rule ::
  "string \<Rightarrow> (rule_config \<Rightarrow> rule_config) \<Rightarrow> string \<Rightarrow> string \<Rightarrow> u32 \<Rightarrow> string \<Rightarrow> string \<Rightarrow> nat \<Rightarrow> rule_config" where
  "local_rule proto apply_side direction app_id uid upstream label i =
     rule_listen_proto proto (rule_traffic_class label (apply_side
       (rule_allowed_uid uid (rule_traffic_class label (rule_app_id app_id
          (rule_config_new (''seshat-'' @ direction @ ''-'' @ label @ ''-c'' @ show_nat i) direction ''unused'' upstream))))))"

definition build_rules_for_classes ::
  "string \<Rightarrow> security_spec \<Rightarrow> string \<Rightarrow> u32 \<Rightarrow> string list \<Rightarrow> traffic_class list \<Rightarrow> rule_config list" where
  "build_rules_for_classes proto s app_id uid upstream_addrs classes =
     concat (map (\<lambda>(i, upstream). concat (map (\<lambda>c.
         [local_rule proto (apply_encrypt s) ''encrypt'' (conn_app_id app_id i) uid upstream (class_label c) i,
          local_rule proto (apply_decrypt s) ''decrypt'' (conn_app_id app_id i) uid upstream (class_label c) i])
       classes)) (enumerate 0 upstream_addrs))"

text \<open>The gateways of a local path: the rules, split by direction for two processes, and a management API
  for each; the second component is the socket decrypt endpoints are created on.\<close>

definition local_gateway :: "string \<Rightarrow> rule_config list \<Rightarrow> api_config \<Rightarrow> named_gateway" where
  "local_gateway label rules api =
     \<lparr>ng_label = label, ng_config = with_api api (allow_all (with_log_level ''info'' (gateway_config_new rules)))\<rparr>"

definition local_gateways ::
  "path_topology \<Rightarrow> rule_config list \<Rightarrow> api_config \<Rightarrow> api_config \<Rightarrow> named_gateway list \<times> string" where
  "local_gateways topo rules api api2 =
     (case topo of
        SingleGateway \<Rightarrow> ([local_gateway ''scg'' rules api], ap_uds_path api)
      | ScgToScg \<Rightarrow>
          ([local_gateway ''scg-a'' (filter (\<lambda>r. ru_direction r = ''encrypt'') rules) api,
            local_gateway ''scg-b'' (filter (\<lambda>r. ru_direction r \<noteq> ''encrypt'') rules) api2], ap_uds_path api2))"

definition DEFAULT_RING_CAPACITY :: nat where "DEFAULT_RING_CAPACITY = 1024 * 1024"

definition local_api :: "nat \<Rightarrow> shm_tuning \<Rightarrow> string \<Rightarrow> api_config" where
  "local_api ring_capacity tuning runtime_dir =
     apply_shm_tuning tuning (api_config_new (path_join runtime_dir ''mgmt.sock'') runtime_dir
       (if ring_capacity = 0 then DEFAULT_RING_CAPACITY else ring_capacity))"

text \<open>The hand-out of connections: the counter, and the application id it yields.\<close>

definition next_conn_app_id :: "string \<Rightarrow> nat \<Rightarrow> nat \<Rightarrow> (nat + string) \<times> nat" where
  "next_conn_app_id app_id connections nxt =
     (if connections \<le> nxt then Inl nxt else Inr (conn_app_id app_id nxt), nxt + 1)"

datatype provision_error = Exhausted nat | CreateFailed string

text \<open>A pair of endpoints: decrypt first, each on its own gateway's socket.\<close>

definition provision_pair ::
  "(string \<Rightarrow> string \<Rightarrow> string \<Rightarrow> string \<Rightarrow> string + 'c) \<Rightarrow> string \<Rightarrow> string \<Rightarrow> string \<Rightarrow> nat \<Rightarrow> traffic_class \<Rightarrow> nat
   \<Rightarrow> (provision_error + 'c \<times> 'c) \<times> nat" where
  "provision_pair create encrypt_sock decrypt_sock app_id connections c nxt =
     (case next_conn_app_id app_id connections nxt of
        (Inl i, nxt) \<Rightarrow> (Inl (Exhausted i), nxt)
      | (Inr app, nxt) \<Rightarrow>
          (case create decrypt_sock app (class_label c) ''decrypt'' of
             Inl e \<Rightarrow> (Inl (CreateFailed e), nxt)
           | Inr rx \<Rightarrow>
               (case create encrypt_sock app (class_label c) ''encrypt'' of
                  Inl e \<Rightarrow> (Inl (CreateFailed e), nxt)
                | Inr tx \<Rightarrow> (Inr (tx, rx), nxt))))"

section \<open>Shared-memory endpoints\<close>

definition other :: io_error where "other = OtherErr 0"

definition closed_text :: "string \<Rightarrow> bool" where
  "closed_text msg = (contains msg ''closed'' \<or> contains msg ''EOF'')"

definition accepted :: "string + bool \<Rightarrow> io_error + unit" where
  "accepted r = (case r of Inl _ \<Rightarrow> Inl other | Inr True \<Rightarrow> Inr () | Inr False \<Rightarrow> Inl WouldBlock)"

definition shm_send_msg :: "string + bool \<Rightarrow> io_error + unit" where
  "shm_send_msg try_send = accepted try_send"

definition shm_send_batch :: "string + nat \<Rightarrow> io_error + nat" where
  "shm_send_batch try_send_batch = map_sum (\<lambda>_. other) id try_send_batch"

text \<open>Reserving a slot and committing it: \<open>pending_len\<close>.\<close>

definition shm_reserve :: "string + nat option \<Rightarrow> nat \<Rightarrow> nat option \<Rightarrow> nat option \<times> nat option" where
  "shm_reserve reserve_raw len pending_len =
     (case reserve_raw of
        Inr (Some cap) \<Rightarrow> if len \<le> cap then (Some len, Some len) else (None, pending_len)
      | _ \<Rightarrow> (None, pending_len))"

definition shm_commit_reserved :: "(nat \<Rightarrow> string + bool) \<Rightarrow> nat option \<Rightarrow> (io_error + unit) \<times> nat option" where
  "shm_commit_reserved commit_raw pending_len =
     (case pending_len of
        None \<Rightarrow> (Inl other, None)
      | Some len \<Rightarrow> (accepted (commit_raw len), None))"

definition shm_commit_batched :: "(nat \<Rightarrow> string + bool) \<Rightarrow> nat option \<Rightarrow> (io_error + bool) \<times> nat option" where
  "shm_commit_batched commit_raw_nosignal pending_len =
     (case pending_len of
        None \<Rightarrow> (Inl other, None)
      | Some len \<Rightarrow> (map_sum (\<lambda>_. other) id (commit_raw_nosignal len), None))"

definition shm_recv_msg :: "string + nat option \<Rightarrow> io_error + recv_outcome" where
  "shm_recv_msg recv_into =
     (case recv_into of
        Inr (Some len) \<Rightarrow> Inr (Message len)
      | Inr None \<Rightarrow> Inr Timeout
      | Inl msg \<Rightarrow> if closed_text msg then Inr Closed else Inl other)"

text \<open>Draining what is queued behind the first message; the client has written the bytes into the slot.\<close>

fun shm_drain ::
  "(string + u8 list option) list \<Rightarrow> nat \<Rightarrow> nat \<Rightarrow> nat \<Rightarrow> u8 list \<Rightarrow> nat list
   \<Rightarrow> ((io_error + batch_outcome) \<times> u8 list \<times> nat list) option" where
  "shm_drain answers stride cap count buf lens =
     (if cap \<le> count then Some (Inr (Messages count), buf, lens)
      else (case answers of
              [] \<Rightarrow> None
            | Inl _ # _ \<Rightarrow> Some (Inl other, buf, lens)
            | Inr None # _ \<Rightarrow> Some (Inr (Messages count), buf, lens)
            | Inr (Some d) # answers' \<Rightarrow>
                shm_drain answers' stride cap (count + 1) (blit buf (count * stride) d) (lens[count := length d])))"

declare shm_drain.simps [simp del]

definition shm_recv_batch ::
  "string + u8 list option \<Rightarrow> (string + u8 list option) list \<Rightarrow> u8 list \<Rightarrow> nat \<Rightarrow> nat \<Rightarrow> nat list
   \<Rightarrow> ((io_error + batch_outcome) \<times> u8 list \<times> nat list) option" where
  "shm_recv_batch first answers buf stride k lens =
     (if k = 0 \<or> stride = 0 \<or> length buf < stride \<or> lens = [] then Some (Inr BTimeout, buf, lens)
      else (case first of
              Inl msg \<Rightarrow> Some (if closed_text msg then Inr BClosed else Inl other, buf, lens)
            | Inr None \<Rightarrow> Some (Inr BTimeout, buf, lens)
            | Inr (Some d) \<Rightarrow>
                shm_drain answers stride (min (min k (length buf div stride)) (length lens)) 1
                  (blit buf 0 d) (lens[0 := length d])))"

text \<open>Reading in place: what is shown to the callback, and the outcome; \<open>peeks\<close> are the queued payloads.\<close>

definition shm_recv_inplace ::
  "string + bool \<Rightarrow> u8 list list \<Rightarrow> nat \<Rightarrow> u8 list list \<times> (io_error + batch_outcome)" where
  "shm_recv_inplace wait_readable peeks k =
     (case wait_readable of
        Inl msg \<Rightarrow> ([], if closed_text msg then Inr BClosed else Inl other)
      | Inr False \<Rightarrow> ([], Inr BTimeout)
      | Inr True \<Rightarrow>
          let shown = take k peeks in (shown, if shown = [] then Inr BTimeout else Inr (Messages (length shown))))"

text \<open>The bounded wait of the ping-pong client: the client's answer and the clock.\<close>

fun shm_duplex_send :: "nat \<Rightarrow> ((string + bool) \<times> nat) list \<Rightarrow> (io_error + unit) option" where
  "shm_duplex_send deadline [] = None"
| "shm_duplex_send deadline ((ans, now) # ts) =
     (case ans of
        Inl _ \<Rightarrow> Some (Inl other)
      | Inr True \<Rightarrow> Some (Inr ())
      | Inr False \<Rightarrow> if deadline \<le> now then Some (Inl WouldBlock) else shm_duplex_send deadline ts)"

section \<open>Unix-domain endpoints\<close>

definition uds_send :: "string + unit \<Rightarrow> io_error + unit" where
  "uds_send ans = map_sum (\<lambda>_. other) id ans"

definition uds_send_batch :: "string + nat \<Rightarrow> io_error + nat" where
  "uds_send_batch ans = map_sum (\<lambda>_. other) id ans"

definition uds_recv_msg :: "string + u8 list option \<Rightarrow> u8 list \<Rightarrow> (io_error + recv_outcome) \<times> u8 list" where
  "uds_recv_msg ans buf =
     (case ans of
        Inr (Some data) \<Rightarrow>
          let len = min (length data) (length buf) in (Inr (Message len), blit buf 0 (take len data))
      | Inr None \<Rightarrow> (Inr Timeout, buf)
      | Inl msg \<Rightarrow> (if closed_text msg then Inr Closed else Inl other, buf))"

definition uds_recv_batch :: "(nat \<Rightarrow> string + nat option) \<Rightarrow> nat \<Rightarrow> nat \<Rightarrow> nat \<Rightarrow> nat list \<Rightarrow> io_error + batch_outcome" where
  "uds_recv_batch recv_batch_into buf_len stride k lens =
     (if k = 0 \<or> stride = 0 \<or> buf_len < stride \<or> lens = [] then Inr BTimeout
      else (case recv_batch_into (min k (length lens)) of
              Inr (Some n) \<Rightarrow> Inr (Messages n)
            | Inr None \<Rightarrow> Inr BTimeout
            | Inl msg \<Rightarrow> if closed_text msg then Inr BClosed else Inl other))"

section \<open>Null transports\<close>

definition shm_null_capacity :: "nat \<Rightarrow> nat" where
  "shm_null_capacity ring_capacity = max ring_capacity 4096"

definition shm_null_cache_key :: "nat \<Rightarrow> string" where
  "shm_null_cache_key ring_capacity = ''shm-null/'' @ show_nat (shm_null_capacity ring_capacity)"

text \<open>Pushing a batch: \<open>try_push\<close> is the ring's, its state an argument.\<close>

fun shm_null_push ::
  "(u8 list \<Rightarrow> 's \<Rightarrow> (string + bool) \<times> 's) \<Rightarrow> nat \<Rightarrow> u8 list list \<Rightarrow> 's \<Rightarrow> (io_error + nat) \<times> 's" where
  "shm_null_push try_push i [] s = (Inr i, s)"
| "shm_null_push try_push i (m # ms) s =
     (case try_push m s of
        (Inl _, s') \<Rightarrow> (Inl other, s')
      | (Inr True, s') \<Rightarrow> shm_null_push try_push (i + 1) ms s'
      | (Inr False, s') \<Rightarrow> (Inr i, s'))"

definition shm_null_send_batch ::
  "(u8 list \<Rightarrow> 's \<Rightarrow> (string + bool) \<times> 's) \<Rightarrow> u8 list list \<Rightarrow> 's \<Rightarrow> (io_error + nat) \<times> 's" where
  "shm_null_send_batch try_push msgs s = shm_null_push try_push 0 msgs s"

text \<open>Popping one message, in turns: what the ring gave, whether the sink has closed, whether the ring was
  then empty, and the clock.\<close>

record pop_turn =
  po_popped :: "nat option"
  po_closed :: bool
  po_empty :: bool
  po_now :: nat

fun pop_one :: "nat \<Rightarrow> pop_turn list \<Rightarrow> recv_outcome option" where
  "pop_one deadline [] = None"
| "pop_one deadline (t # ts) =
     (case po_popped t of
        Some len \<Rightarrow> Some (Message len)
      | None \<Rightarrow>
          if po_closed t \<and> po_empty t then Some Closed
          else if deadline \<le> po_now t then Some Timeout
          else pop_one deadline ts)"

definition uds_null_path :: "string \<Rightarrow> nat \<Rightarrow> nat \<Rightarrow> string" where
  "uds_null_path temp_dir pid i =
     path_join temp_dir (''seshat-uds-null-'' @ show_nat pid @ ''-'' @ show_nat i @ ''.sock'')"

text \<open>The gateway-less Unix pair is the TCP transport's code on another stream: vectored writes and the
  framed reader.\<close>

definition uds_null_send_batch ::
  "writev_answer list \<Rightarrow> u8 list list \<Rightarrow> ((io_error + nat) \<times> u8 list) option" where
  "uds_null_send_batch answers msgs =
     (if msgs = [] then Some (Inr 0, []) else writev_full answers msgs BATCH_ABS_MAX)"

fun uds_null_recv_loop ::
  "nat \<Rightarrow> 's read_fn \<Rightarrow> framed_reader \<Rightarrow> u8 list \<Rightarrow> nat \<Rightarrow> nat \<Rightarrow> nat list \<Rightarrow> 's
   \<Rightarrow> ((io_error + batch_outcome) \<times> framed_reader \<times> u8 list \<times> nat list \<times> 's) option" where
  "uds_null_recv_loop 0 rd r buf stride k lens s = None"
| "uds_null_recv_loop (Suc fuel) rd r buf stride k lens s =
     (case take_messages r buf stride k lens of
        (r', buf', lens', n) \<Rightarrow>
          if 0 < n then Some (Inr (Messages n), r', buf', lens', s)
          else (case fill_once rd r' s of
                  (Inl e, r'', s') \<Rightarrow> Some (Inl e, r'', buf', lens', s')
                | (Inr Filled, r'', s') \<Rightarrow> uds_null_recv_loop fuel rd r'' buf' stride k lens' s'
                | (Inr FTimeout, r'', s') \<Rightarrow> Some (Inr BTimeout, r'', buf', lens', s')
                | (Inr FClosed, r'', s') \<Rightarrow> Some (Inr BClosed, r'', buf', lens', s')))"

definition uds_null_recv_batch ::
  "nat \<Rightarrow> 's read_fn \<Rightarrow> framed_reader \<Rightarrow> u8 list \<Rightarrow> nat \<Rightarrow> nat \<Rightarrow> nat list \<Rightarrow> 's
   \<Rightarrow> ((io_error + batch_outcome) \<times> framed_reader \<times> u8 list \<times> nat list \<times> 's) option" where
  "uds_null_recv_batch fuel rd r buf stride k lens s =
     (if k = 0 \<or> stride = 0 \<or> length buf < stride \<or> lens = []
      then Some (Inr BTimeout, r, buf, lens, s)
      else uds_null_recv_loop fuel rd r buf stride k lens s)"

section \<open>Properties\<close>

lemma uds_null_is_tcp:
  "uds_null_send_batch answers msgs = tcp_send_batch answers msgs"
  "uds_null_recv_batch fuel rd r buf stride k lens s = tcp_recv_batch fuel rd r buf stride k lens s"
proof -
  have "uds_null_recv_loop fuel rd r buf stride k lens s = tcp_recv_loop fuel rd r buf stride k lens s"
    by (induction fuel arbitrary: r buf lens s) (simp_all split: prod.split sum.split fill_outcome.split)
  then show "uds_null_send_batch answers msgs = tcp_send_batch answers msgs"
    "uds_null_recv_batch fuel rd r buf stride k lens s = tcp_recv_batch fuel rd r buf stride k lens s"
    by (simp_all add: uds_null_send_batch_def tcp_send_batch_def uds_null_recv_batch_def tcp_recv_batch_def)
qed

lemma distinct_normalize: "distinct (normalize_classes cs)" "normalize_classes cs \<noteq> []"
proof -
  have "distinct (foldl (\<lambda>out c. if c \<in> set out then out else out @ [c]) out cs)" if "distinct out" for out :: "traffic_class list"
    using that by (induction cs arbitrary: out) auto
  then show "distinct (normalize_classes cs)" "normalize_classes cs \<noteq> []"
    by (simp_all add: normalize_classes_def Let_def)
qed

lemma conn_app_id_inj: "conn_app_id base i = conn_app_id base j \<longleftrightarrow> i = j"
proof
  assume eq: "conn_app_id base i = conn_app_id base j"
  have f: "conn_app_id base k = take (40 - length (''-c'' @ show_nat k)) base @ CHR ''-'' # (CHR ''c'' # show_nat k)" for k
    by (simp add: conn_app_id_def Let_def)
  have nd: "CHR ''-'' \<notin> set (CHR ''c'' # show_nat k)" for k
    using show_nat_digits [of k] digits_no_dash by simp
  have "CHR ''c'' # show_nat i = CHR ''c'' # show_nat j"
    by (rule append_dash_digits_inj [OF eq [unfolded f] nd nd])
  then show "i = j" by (simp add: show_nat_inj)
qed simp

text \<open>An error while draining gives up the messages already copied out, even the gateway's own close.\<close>

lemma shm_drain_loses:
  assumes "0 < stride" "stride \<le> length buf" "lens \<noteq> []" "2 \<le> k" "2 \<le> length buf div stride" "2 \<le> length lens"
  shows "\<exists>buf' lens'. shm_recv_batch (Inr (Some d)) [Inl ''ring closed''] buf stride k lens
           = Some (Inl other, buf', lens')"
  using assms
  by (simp add: shm_recv_batch_def not_less not_le shm_drain.simps [of "Inl _ # _"])

text \<open>The batched receive delivers what the ring held, in order, each message in its own slot.\<close>

lemma shm_drain_count:
  assumes "shm_drain answers stride cap count buf lens = Some (Inr (Messages n), buf', lens')" "count \<le> cap"
  shows "count \<le> n \<and> n \<le> cap"
  using assms
proof (induction answers stride cap count buf lens rule: shm_drain.induct)
  case (1 answers stride cap count buf lens)
  note step = 1(2) [unfolded shm_drain.simps [of answers stride cap count buf lens]]
  consider "cap \<le> count" "n = count"
    | d answers' where "\<not> cap \<le> count" "answers = Inr (Some d) # answers'"
        "shm_drain answers' stride cap (count + 1) (blit buf (count * stride) d) (lens[count := length d])
           = Some (Inr (Messages n), buf', lens')"
    | "n = count"
    using step by (auto split: if_splits list.splits sum.splits option.splits)
  then show ?case
    using 1(1,3) by cases (force+)
qed

lemma reserve_then_commit:
  "shm_reserve raw len None = (Some l, p) \<Longrightarrow> l = len \<and> p = Some len
     \<and> shm_commit_reserved commit p = (accepted (commit len), None)
     \<and> fst (shm_commit_reserved commit None) = Inl other"
  by (auto simp: shm_reserve_def shm_commit_reserved_def split: sum.splits option.splits if_splits)

lemma pop_one_closed:
  "pop_one deadline ts = Some Closed \<Longrightarrow>
     \<exists>t. t \<in> set ts \<and> po_popped t = None \<and> po_closed t \<and> po_empty t"
  by (induction deadline ts rule: pop_one.induct) (auto split: option.splits if_splits)

text \<open>The gateway keys its local endpoints by application id, class and direction.\<close>

definition rule_key :: "rule_config \<Rightarrow> string option \<times> string \<times> string" where
  "rule_key r = (ru_app_id r, ru_traffic_class r, ru_direction r)"

lemma apply_app_id [simp]:
  "ru_app_id (apply_encrypt s r) = ru_app_id r" "ru_app_id (apply_decrypt s r) = ru_app_id r"
proof -
  have f: "ru_app_id (fold (\<lambda>(k, v). rule_param k v) ps r) = ru_app_id r" for ps r
    by (induction ps arbitrary: r) (auto simp: rule_param_def)
  have o: "ru_app_id (opt_param k x r) = ru_app_id r" for k x r
    by (simp add: opt_param_def rule_param_def split: option.split)
  show "ru_app_id (apply_encrypt s r) = ru_app_id r" "ru_app_id (apply_decrypt s r) = ru_app_id r"
    by (simp_all add: apply_encrypt_def apply_decrypt_def apply_common_def Let_def rule_builders f o
        split: option.split)
qed

lemma local_rule_key:
  "rule_key (local_rule proto (apply_encrypt s) d a u up l i) = (Some a, l, d)"
  "rule_key (local_rule proto (apply_decrypt s) d a u up l i) = (Some a, l, d)"
  using apply_sides_sel
  by (simp_all add: rule_key_def local_rule_def rule_builders rule_config_new_def rule_app_id_def rule_allowed_uid_def same_rule_def)

lemma class_label_inj: "class_label c = class_label d \<longleftrightarrow> c = d"
  by (cases c; cases d) simp_all

definition local_keys :: "string \<Rightarrow> nat \<Rightarrow> traffic_class list \<Rightarrow> (string option \<times> string \<times> string) list" where
  "local_keys app_id n classes = concat (map (\<lambda>i. concat (map (\<lambda>c.
       [(Some (conn_app_id app_id i), class_label c, ''encrypt''), (Some (conn_app_id app_id i), class_label c, ''decrypt'')])
     classes)) [0..<n])"

lemma rules_keys:
  "map rule_key (build_rules_for_classes proto s app_id uid ups classes) = local_keys app_id (length ups) classes"
proof -
  define g where "g = (\<lambda>i. concat (map (\<lambda>c.
       [(Some (conn_app_id app_id i), class_label c, ''encrypt''), (Some (conn_app_id app_id i), class_label c, ''decrypt'')])
     classes))"
  have "map rule_key (build_rules_for_classes proto s app_id uid ups classes) = concat (map (\<lambda>p. g (fst p)) (enumerate 0 ups))"
    by (simp add: build_rules_for_classes_def g_def map_concat comp_def local_rule_key case_prod_beta')
  moreover have "map (\<lambda>p. g (fst p)) (enumerate 0 ups) = map g [0..<length ups]"
    using map_map [of g fst "enumerate 0 ups"] unfolding map_fst_enumerate comp_def by simp
  ultimately show ?thesis by (simp only: local_keys_def g_def)
qed

lemma distinct_keys_of:
  assumes "distinct classes"
  shows "distinct (concat (map (\<lambda>c. [(Some a, class_label c, ''encrypt''), (Some a, class_label c, ''decrypt'')]) classes))"
  using assms by (induction classes) (auto simp: class_label_inj)

lemma distinct_local_keys:
  assumes "distinct classes" shows "distinct (local_keys app_id n classes)"
proof (induction n)
  case (Suc n)
  then show ?case
    using distinct_keys_of [OF assms, of "conn_app_id app_id n"]
    by (auto simp: local_keys_def conn_app_id_inj)
qed (simp add: local_keys_def)

text \<open>The rules of a local path give every connection its own endpoints: whatever classes a scenario
  names, no two rules share the application id, class and direction the gateway keys an endpoint by, so none
  evicts another.\<close>

theorem local_rules_distinct:
  "distinct (map rule_key (build_rules_for_classes proto s app_id uid ups (normalize_classes classes)))"
  by (simp add: rules_keys distinct_local_keys distinct_normalize)

text \<open>A connection handed out by a local path is one the gateway was given rules for: while connections
  are left, the pair provisioned is the decrypt and then the encrypt endpoint of a rule that exists, for every
  class the path was started with, and once all are handed out the call fails without asking the gateway.\<close>

theorem provisioned_has_rules:
  assumes "c \<in> set (normalize_classes classes)"
  shows "provision_pair create es ds app_id (length ups) c nxt =
    (if nxt < length ups
     then (case create ds (conn_app_id app_id nxt) (class_label c) ''decrypt'' of
             Inl e \<Rightarrow> Inl (CreateFailed e)
           | Inr rx \<Rightarrow> (case create es (conn_app_id app_id nxt) (class_label c) ''encrypt'' of
               Inl e \<Rightarrow> Inl (CreateFailed e) | Inr tx \<Rightarrow> Inr (tx, rx)))
     else Inl (Exhausted nxt), nxt + 1)
   \<and> (nxt < length ups \<longrightarrow>
       {(Some (conn_app_id app_id nxt), class_label c, ''encrypt''), (Some (conn_app_id app_id nxt), class_label c, ''decrypt'')}
         \<subseteq> set (map rule_key (build_rules_for_classes proto s app_id uid ups (normalize_classes classes))))"
proof -
  have "{(Some (conn_app_id app_id nxt), class_label c, ''encrypt''), (Some (conn_app_id app_id nxt), class_label c, ''decrypt'')}
      \<subseteq> set (local_keys app_id (length ups) (normalize_classes classes))" if "nxt < length ups"
    using assms that by (auto simp: local_keys_def)
  then show ?thesis
    unfolding rules_keys
    by (auto simp: provision_pair_def next_conn_app_id_def split: sum.split)
qed

theorem provisioned_has_rules_witness:
  "provision_pair (\<lambda>s a c d. if d = ''decrypt'' then Inr a else Inl ''refused'') ''/e'' ''/d'' ''app'' (length [''h:1'', ''h:2'']) TcSafety 1
     = (Inl (CreateFailed ''refused''), 2)"
  using provisioned_has_rules [of TcSafety "[TcNormal, TcSafety, TcNormal]"
      "\<lambda>s a c d. if d = ''decrypt'' then Inr a else Inl ''refused''" "''/e''" "''/d''" "''app''" "[''h:1'', ''h:2'']" 1]
  by (simp add: normalize_classes_def Let_def)

end
