(* ===== verification/Matrix.thy ===== *)
theory Matrix
  imports Gateway_Config
begin

text \<open>
  The benchmark matrix, \<open>src/src/matrix.rs\<close>: how a specification of compatible profiles is expanded into
  suites of scenarios. Documents are JSON values (a multiplication sign in a description is written x); an object is the list of its entries, whose order only the
  printer shows. Reading the specification and printing a document are \<open>serde_json\<close>'s. The boxed error
  strings are a datatype.
\<close>

section \<open>JSON values\<close>

definition jget :: "string \<Rightarrow> json \<Rightarrow> json option" where
  "jget k v = (case v of JObj kvs \<Rightarrow> map_of kvs k | _ \<Rightarrow> None)"

definition as_str :: "json \<Rightarrow> string option" where
  "as_str v = (case v of JStr s \<Rightarrow> Some s | _ \<Rightarrow> None)"

definition as_bool :: "json \<Rightarrow> bool option" where
  "as_bool v = (case v of JBool b \<Rightarrow> Some b | _ \<Rightarrow> None)"

definition as_object :: "json \<Rightarrow> (string \<times> json) list option" where
  "as_object v = (case v of JObj kvs \<Rightarrow> Some kvs | _ \<Rightarrow> None)"

fun jset :: "string \<Rightarrow> json \<Rightarrow> (string \<times> json) list \<Rightarrow> (string \<times> json) list" where
  "jset k v [] = [(k, v)]"
| "jset k v ((k', v') # kvs) = (if k = k' then (k, v) # kvs else (k', v') # jset k v kvs)"

text \<open>\<open>v[k] = x\<close> and \<open>as_object_mut\<close> followed by \<open>insert\<close>; every value the code updates is an object.\<close>

definition jput :: "string \<Rightarrow> json \<Rightarrow> json \<Rightarrow> json" where
  "jput k x v = (case v of JObj kvs \<Rightarrow> JObj (jset k x kvs) | _ \<Rightarrow> v)"

definition jremove :: "string \<Rightarrow> json \<Rightarrow> json" where
  "jremove k v = (case v of JObj kvs \<Rightarrow> JObj (filter (\<lambda>kx. fst kx \<noteq> k) kvs) | _ \<Rightarrow> v)"

section \<open>The specification\<close>

record cipher_matrix =
  cm_tls12 :: "string list"
  cm_tls13 :: "string list"

record suite_spec =
  su_name :: string
  su_version :: string
  su_author :: string

record dimensions =
  dm_stream_message_sizes :: "u32 list"
  dm_datagram_message_sizes :: "u32 list"
  dm_canonical_connections :: "u32 list"
  dm_nightly_connections :: "u32 list"
  dm_scalability_connections :: "u32 list"
  dm_catalog_connections :: "u32 list"
  dm_canonical_stream_message_size :: u32
  dm_canonical_datagram_message_size :: u32

record profile =
  pf_id :: string
  pf_protocol :: json
  pf_interfaces :: "string list"
  pf_chains :: "string list"
  pf_message_class :: string
  pf_tiers :: "string list"
  pf_requirements :: "string list"
  pf_connections :: "u32 list"
  pf_scalability :: bool
  pf_optimization_flags :: json
  pf_address_family :: string

record comparison_path =
  cpa_id :: string
  cpa_interface :: string
  cpa_gateway :: bool
  cpa_chain :: string
  cpa_requirements :: "string list"
  cpa_connections :: "u32 list"

record interface_comparison =
  ic_paths :: "comparison_path list"
  ic_throughput_message_sizes :: "u32 list"
  ic_throughput_connections :: "u32 list"
  ic_latency_message_sizes :: "u32 list"
  ic_latency_connections :: "u32 list"
  ic_latency_fraction :: f64

record limitation =
  li_name :: string
  li_reason :: string
  li_interface :: string
  li_chain :: string
  li_protocol :: json

record matrix_spec =
  ms_suite :: suite_spec
  ms_defaults :: json
  ms_dimensions :: dimensions
  ms_profiles :: "profile list"
  ms_cipher_matrix :: cipher_matrix
  ms_hot_reload_profiles :: "string list"
  ms_interface_comparison :: interface_comparison
  ms_limitations :: "limitation list"

datatype tier = Catalog | Nightly | Canonical | Everything

datatype matrix_error =
    DuplicateName string | NeedsProfilesAndPaths | BadLatencyFraction | InvalidProfile string
  | NeedsDirectTcp | NeedsGatewayTcp

section \<open>Labels\<close>

definition size_label :: "u32 \<Rightarrow> string" where
  "size_label bytes =
     (if bytes = 1024 then ''1KB'' else if bytes = 16384 then ''16KB'' else if bytes = 32768 then ''32KB''
      else if bytes = 65536 then ''64KB'' else show_word bytes @ ''B'')"

definition sanitize_name :: "string \<Rightarrow> string" where
  "sanitize_name value =
     (let s = map (\<lambda>c. if is_ascii_alphanumeric c then lower_char c else CHR ''_'') value;
          strip = dropWhile (\<lambda>c. c = CHR ''_'')
      in rev (strip (rev (strip s))))"

definition tier_name :: "tier \<Rightarrow> string" where
  "tier_name t =
     (case t of Catalog \<Rightarrow> ''catalog'' | Nightly \<Rightarrow> ''nightly'' | Canonical \<Rightarrow> ''canonical''
      | Everything \<Rightarrow> ''everything'')"

definition str_of :: "json option \<Rightarrow> string option" where
  "str_of v = (case v of Some x \<Rightarrow> as_str x | None \<Rightarrow> None)"

definition protocol_summary :: "json \<Rightarrow> string" where
  "protocol_summary protocol =
     (let kind = (case str_of (jget ''type'' protocol) of Some k \<Rightarrow> k | None \<Rightarrow> ''none'');
          version = (\<lambda>d. case str_of (jget ''version'' protocol) of Some v \<Rightarrow> v | None \<Rightarrow> d)
      in if kind = ''none'' then ''plain''
         else if kind = ''tls''
         then (if (case jget ''kernel'' protocol of Some k \<Rightarrow> as_bool k = Some True | None \<Rightarrow> False)
               then ''ktls'' else ''tls'') @ version ''1.3''
         else if kind = ''dtls'' then ''dtls'' @ version ''1.2''
         else kind)"

definition matrix_description :: "string \<Rightarrow> string \<Rightarrow> json \<Rightarrow> bool \<Rightarrow> string \<Rightarrow> u32 \<Rightarrow> u32 \<Rightarrow> string" where
  "matrix_description category interface protocol gateway chain sz connections =
     category @ '': '' @ (if gateway then ''SCG '' @ chain else ''direct loopback'') @ '', '' @ interface @ ''/''
       @ protocol_summary protocol @ '', '' @ size_label sz @ '', '' @ show_word connections @ '' conn''
       @ (if connections = 1 then '''' else ''s'')"

section \<open>One scenario\<close>

definition matrix_port :: "nat \<Rightarrow> u16" where
  "matrix_port ordinal = 18000 + of_nat ordinal"

definition matrix_sender :: "string \<Rightarrow> nat \<Rightarrow> json" where
  "matrix_sender interface ordinal =
     (let target_addr =
        (if interface \<in> {''tcp'', ''udp'', ''tproxy''} then ''127.0.0.1:'' @ show_word (matrix_port ordinal)
         else if interface = ''unix'' then ''/tmp/seshat-matrix-'' @ show_nat ordinal @ ''.sock''
         else if interface = ''shm'' then ''shm:///seshat-matrix-'' @ show_nat ordinal
         else ''unsupported://'' @ interface)
      in JObj [(''interface'', JStr interface), (''target_addr'', JStr target_addr), (''pattern'', JStr ''sustained'')])"

definition requirements_json :: "string list \<Rightarrow> json" where
  "requirements_json requirements = JObj (fold (\<lambda>r. jset r (JBool True)) requirements [])"

definition matrix_scenario ::
  "string \<Rightarrow> string \<Rightarrow> string \<Rightarrow> json \<Rightarrow> bool \<Rightarrow> string \<Rightarrow> u32 \<Rightarrow> u32 \<Rightarrow> string list \<Rightarrow> json option \<Rightarrow> nat \<Rightarrow> json" where
  "matrix_scenario prof category interface protocol gateway chain sz connections requirements comparison ordinal =
     (let row = JObj
            [(''name'', JStr (''pending_'' @ show_nat ordinal)), (''category'', JStr category),
             (''message_size_bytes'', jword sz), (''connections'', jword connections),
             (''gateway'', JObj [(''enabled'', JBool gateway), (''chain'', JStr chain)]), (''protocol'', protocol),
             (''sender'', matrix_sender interface ordinal), (''requirements'', requirements_json requirements)];
          row = jremove ''profile'' (jput ''profile'' (JStr prof) row);
          row = (case comparison of Some c \<Rightarrow> jput ''comparison'' c row | None \<Rightarrow> row)
      in jput ''description''
           (JStr (matrix_description category interface protocol gateway chain sz connections)) row)"

definition stamp_optimization_flags :: "json \<Rightarrow> json \<Rightarrow> json" where
  "stamp_optimization_flags flags row =
     (case as_object flags of
        Some (kv # kvs) \<Rightarrow> jput ''optimization_flags'' flags row
      | _ \<Rightarrow> row)"

definition stamp_address_family :: "string \<Rightarrow> json \<Rightarrow> json" where
  "stamp_address_family family row =
     (if family \<noteq> ''ipv6'' then row
      else
        let row = jput ''address_family'' (JStr ''ipv6'') row
        in case jget ''sender'' row of
             Some snder \<Rightarrow>
               (case str_of (jget ''target_addr'' snder) of
                  Some target \<Rightarrow>
                    (case strip_prefix ''127.0.0.1:'' target of
                       Some port \<Rightarrow> jput ''sender'' (jput ''target_addr'' (JStr (''[::1]:'' @ port)) snder) row
                     | None \<Rightarrow> row)
                | None \<Rightarrow> row)
           | None \<Rightarrow> row)"

definition comparison_meta :: "string \<Rightarrow> string \<Rightarrow> string \<Rightarrow> string option \<Rightarrow> f64 option \<Rightarrow> json" where
  "comparison_meta grp direct gateway calibration_group calibration_fraction =
     (let value = JObj [(''group'', JStr grp), (''reference'', JStr direct), (''gateway_reference'', JStr gateway)];
          value = (case calibration_group of Some g \<Rightarrow> jput ''calibration_group'' (JStr g) value | None \<Rightarrow> value)
      in case calibration_fraction of Some f \<Rightarrow> jput ''calibration_fraction'' (JFlt f) value | None \<Rightarrow> value)"

text \<open>The rows so far and their names; a new row gets its name unless that is taken.\<close>

type_synonym rows = "json list \<times> string set"

definition push_unique :: "string \<Rightarrow> json \<Rightarrow> rows \<Rightarrow> matrix_error + rows" where
  "push_unique name row rs =
     (if name \<in> snd rs then Inl (DuplicateName name)
      else Inr (fst rs @ [jput ''name'' (JStr name) row], insert name (snd rs)))"

text \<open>A row built for the next ordinal, then pushed.\<close>

definition emit :: "string \<Rightarrow> (nat \<Rightarrow> json) \<Rightarrow> rows \<Rightarrow> matrix_error + rows" where
  "emit name mk rs = push_unique name (mk (length (fst rs))) rs"

section \<open>Sizes and connection ladders\<close>

definition UDP_PAYLOAD_MAX :: u32 where "UDP_PAYLOAD_MAX = 65507"
definition ENCRYPTED_DATAGRAM_MAX :: u32 where "ENCRYPTED_DATAGRAM_MAX = 9000"

definition datagram_size_cap :: "json \<Rightarrow> u32" where
  "datagram_size_cap protocol =
     (if str_of (jget ''type'' protocol) = Some ''none'' then UDP_PAYLOAD_MAX else ENCRYPTED_DATAGRAM_MAX)"

definition profile_sizes :: "profile \<Rightarrow> dimensions \<Rightarrow> u32 list" where
  "profile_sizes p d =
     (if pf_message_class p = ''datagram''
      then let cap = datagram_size_cap (pf_protocol p) in filter (\<lambda>sz. sz \<le> cap) (dm_datagram_message_sizes d)
      else dm_stream_message_sizes d)"

definition canonical_size :: "profile \<Rightarrow> dimensions \<Rightarrow> u32" where
  "canonical_size p d =
     (if pf_message_class p = ''datagram'' then dm_canonical_datagram_message_size d
      else dm_canonical_stream_message_size d)"

definition union_connections :: "u32 list \<Rightarrow> u32 list \<Rightarrow> u32 list" where
  "union_connections l r = remdups_adj (sort (l @ r))"

definition cipher_size_grid :: "tier \<Rightarrow> u32 \<Rightarrow> u32 list \<Rightarrow> u32 list \<Rightarrow> u32 list" where
  "cipher_size_grid t canonical all_sizes preferred =
     (if t = Canonical then [canonical]
      else let grid = filter (\<lambda>b. b \<in> set preferred) all_sizes
           in if grid = [] then [canonical] else grid)"

definition tier_sizes :: "dimensions \<Rightarrow> tier \<Rightarrow> profile \<Rightarrow> u32 list" where
  "tier_sizes d t p = (if t = Canonical then [canonical_size p d] else profile_sizes p d)"

definition tier_connections :: "dimensions \<Rightarrow> tier \<Rightarrow> profile \<Rightarrow> u32 list" where
  "tier_connections d t p =
     (case t of
        Catalog \<Rightarrow> dm_catalog_connections d
      | Everything \<Rightarrow> dm_catalog_connections d
      | Nightly \<Rightarrow> if pf_scalability p then union_connections (dm_nightly_connections d) (dm_scalability_connections d)
                   else dm_nightly_connections d
      | Canonical \<Rightarrow> dm_canonical_connections d)"

definition in_tier :: "tier \<Rightarrow> profile \<Rightarrow> bool" where
  "in_tier t p = (t = Catalog \<or> t = Everything \<or> tier_name t \<in> set (pf_tiers p))"

definition supports :: "u32 list \<Rightarrow> u32 \<Rightarrow> bool" where
  "supports conns c = (conns = [] \<or> c \<in> set conns)"

section \<open>Cipher, handshake and blocked rows\<close>

definition obj :: "(string \<times> string) list \<Rightarrow> json" where
  "obj kvs = JObj (map (\<lambda>(k, v). (k, JStr v)) kvs)"

definition tls_suite :: "string \<Rightarrow> string \<Rightarrow> json" where
  "tls_suite version suite = obj [(''type'', ''tls''), (''version'', version), (''cipher_suite'', suite)]"

definition ktls_suite :: "string \<Rightarrow> string \<Rightarrow> json" where
  "ktls_suite version suite =
     JObj [(''type'', JStr ''tls''), (''kernel'', JBool True), (''version'', JStr version), (''cipher_suite'', JStr suite)]"

definition dtls_suite :: "string \<Rightarrow> json" where
  "dtls_suite suite = obj [(''type'', ''dtls''), (''version'', ''1.2''), (''cipher_suite'', suite)]"

definition push_cipher_scenario ::
  "string \<Rightarrow> string \<Rightarrow> json \<Rightarrow> string list \<Rightarrow> u32 \<Rightarrow> u32 \<Rightarrow> rows \<Rightarrow> matrix_error + rows" where
  "push_cipher_scenario base interface protocol requirements sz canonical =
     emit (if sz = canonical then base else base @ ''_'' @ show_word sz @ ''B'')
       (matrix_scenario ''cipher'' ''cipher-matrix'' interface protocol True ''scg-direct'' sz 1 requirements None)"

definition no_dots :: "string \<Rightarrow> string" where
  "no_dots version = filter (\<lambda>c. c \<noteq> CHR ''.'') version"

definition cipher_name :: "string \<Rightarrow> string \<Rightarrow> string \<Rightarrow> string" where
  "cipher_name engine version suite = ''cipher_'' @ engine @ no_dots version @ ''_'' @ sanitize_name suite"

definition append_cipher_scenarios :: "matrix_spec \<Rightarrow> tier \<Rightarrow> rows \<Rightarrow> matrix_error + rows" where
  "append_cipher_scenarios spec t rs =
     (let d = ms_dimensions spec; cm = ms_cipher_matrix spec;
          canonical_stream = dm_canonical_stream_message_size d;
          stream_sizes = cipher_size_grid t canonical_stream (dm_stream_message_sizes d) [1024, canonical_stream, 16384];
          canonical_dgram = dm_canonical_datagram_message_size d;
          dgram_sizes = cipher_size_grid t canonical_dgram (dm_datagram_message_sizes d) [256, canonical_dgram, 1400];
          some_of = (\<lambda>suites. take (if t = Canonical then 1 else length suites) suites)
      in and_then
           (try_fold (\<lambda>(version, suites). try_fold (\<lambda>suite. try_fold (\<lambda>sz rs.
               and_then (push_cipher_scenario (cipher_name ''tls'' version suite) ''tcp'' (tls_suite version suite)
                   [''openssl''] sz canonical_stream rs)
                 (push_cipher_scenario (cipher_name ''ktls'' version suite) ''tcp'' (ktls_suite version suite)
                   [''openssl'', ''ktls''] sz canonical_stream))
             stream_sizes) (some_of suites)) [(''1.2'', cm_tls12 cm), (''1.3'', cm_tls13 cm)] rs)
           (try_fold (\<lambda>suite. try_fold (\<lambda>sz.
               push_cipher_scenario (''cipher_dtls12_'' @ sanitize_name suite) ''udp'' (dtls_suite suite)
                 [''openssl''] sz canonical_dgram)
             dgram_sizes) (some_of (cm_tls12 cm))))"

definition connrate_row :: "json \<Rightarrow> u32 \<Rightarrow> nat \<Rightarrow> json" where
  "connrate_row protocol c ordinal =
     jput ''mode'' (JStr ''connrate'')
       (matrix_scenario ''handshake'' ''handshake-auth'' ''tcp'' protocol True ''scg-direct'' 64 c [''openssl''] None ordinal)"

definition push_connrate_handshake :: "string \<Rightarrow> json \<Rightarrow> u32 \<Rightarrow> rows \<Rightarrow> matrix_error + rows" where
  "push_connrate_handshake base protocol c =
     emit (if c = 4 then base else base @ ''_'' @ show_word c @ ''c'') (connrate_row protocol c)"

definition cert_proto :: "string \<Rightarrow> json" where
  "cert_proto cert = obj [(''type'', ''tls''), (''version'', ''1.3''), (''cert_key_type'', cert)]"

definition kex_proto :: "string \<Rightarrow> json" where
  "kex_proto grp = obj [(''type'', ''tls''), (''version'', ''1.3''), (''cert_key_type'', ''ecdsa''), (''kex_group'', grp)]"

definition append_handshake_scenarios :: "tier \<Rightarrow> rows \<Rightarrow> matrix_error + rows" where
  "append_handshake_scenarios t rs =
     (let conns = (if t = Canonical then [4] else [1, 4])
      in and_then
           (try_fold (\<lambda>cert. try_fold (push_connrate_handshake (''handshake_tls13_'' @ cert) (cert_proto cert)) conns)
             [''ecdsa'', ''rsa''] rs)
           (try_fold (\<lambda>(label, grp). try_fold (push_connrate_handshake (''handshake_kex_'' @ label) (kex_proto grp)) conns)
             [(''x25519'', ''X25519''), (''p256'', ''P-256'')]))"

definition blocked_row :: "limitation \<Rightarrow> nat \<Rightarrow> json" where
  "blocked_row l ordinal =
     jput ''disabled_reason'' (JStr (li_reason l)) (jput ''enabled'' (JBool False)
       (jput ''name'' (JStr (''blocked_'' @ li_name l))
         (matrix_scenario ''blocked'' ''unsupported'' (li_interface l) (li_protocol l) True (li_chain l) 1024 1 [] None ordinal)))"

definition append_blocked_rows :: "matrix_spec \<Rightarrow> rows \<Rightarrow> matrix_error + rows" where
  "append_blocked_rows spec = try_fold (\<lambda>l. emit (''blocked_'' @ li_name l) (blocked_row l)) (ms_limitations spec)"

section \<open>Profiles\<close>

definition stamped :: "profile \<Rightarrow> json \<Rightarrow> json" where
  "stamped p row = stamp_address_family (pf_address_family p) (stamp_optimization_flags (pf_optimization_flags p) row)"

definition profile_row :: "profile \<Rightarrow> string \<Rightarrow> string \<Rightarrow> string \<Rightarrow> u32 \<Rightarrow> u32 \<Rightarrow> nat \<Rightarrow> json" where
  "profile_row p category interface chain sz c ordinal =
     stamped p (matrix_scenario (pf_id p) category interface (pf_protocol p) True chain sz c (pf_requirements p) None ordinal)"

definition latency_row :: "profile \<Rightarrow> string \<Rightarrow> string \<Rightarrow> u32 \<Rightarrow> nat \<Rightarrow> json" where
  "latency_row p category interface sz ordinal =
     stamped p (jput ''mode'' (JStr ''pingpong'')
       (matrix_scenario (pf_id p) category interface (pf_protocol p) True ''scg-direct'' sz 1 (pf_requirements p) None ordinal))"

definition matrix_name :: "string \<Rightarrow> string \<Rightarrow> u32 \<Rightarrow> string \<Rightarrow> u32 \<Rightarrow> string" where
  "matrix_name pid interface sz chain c =
     ''matrix_'' @ pid @ ''_'' @ interface @ ''_'' @ size_label sz @ ''_'' @ replace_all ''scg-'' [] chain
       @ ''_'' @ show_word c @ ''c''"

definition latency_name :: "string \<Rightarrow> string \<Rightarrow> u32 \<Rightarrow> string" where
  "latency_name pid interface sz = ''matrix_lat_'' @ pid @ ''_'' @ interface @ ''_'' @ size_label sz @ ''_direct_1c''"

definition expand_profile :: "dimensions \<Rightarrow> tier \<Rightarrow> profile \<Rightarrow> rows \<Rightarrow> matrix_error + rows" where
  "expand_profile d t p rs =
     (if \<not> in_tier t p then Inr rs
      else try_fold (\<lambda>interface. try_fold (\<lambda>chain. try_fold (\<lambda>sz rs.
             and_then
               (try_fold (\<lambda>c rs.
                   if \<not> supports (pf_connections p) c then Inr rs
                   else emit (matrix_name (pf_id p) interface sz chain c)
                          (profile_row p ''matrix'' interface chain sz c) rs)
                 (tier_connections d t p) rs)
               (\<lambda>rs. if t \<noteq> Catalog \<and> chain = ''scg-direct'' \<and> supports (pf_connections p) 1
                     then emit (latency_name (pf_id p) interface sz) (latency_row p ''matrix-latency'' interface sz) rs
                     else Inr rs))
           (tier_sizes d t p)) (pf_chains p)) (pf_interfaces p) rs)"

definition expand_profiles :: "matrix_spec \<Rightarrow> tier \<Rightarrow> matrix_error + json" where
  "expand_profiles spec t =
     map_sum id (\<lambda>rs. JArr (fst rs))
       (and_then (and_then (and_then (try_fold (expand_profile (ms_dimensions spec) t) (ms_profiles spec) ([], {}))
          (append_cipher_scenarios spec t)) (append_handshake_scenarios t)) (append_blocked_rows spec))"

section \<open>Hot reload\<close>

definition reload_json :: "string \<Rightarrow> json" where
  "reload_json action =
     JObj [(''trigger_at_secs'', JNum 3), (''action'', JStr action),
           (''expect_zero_drops'', JBool (action \<noteq> ''rotate_cert'')),
           (''measure_window_before_secs'', JNum 2), (''measure_window_after_secs'', JNum 5)]"

definition set_rate_limit :: "json \<Rightarrow> json" where
  "set_rate_limit row =
     (case jget ''sender'' row of
        Some snder \<Rightarrow> jput ''sender'' (jput ''rate_limit_mbps'' (JFlt (Fin 100)) snder) row
      | None \<Rightarrow> row)"

definition reload_actions :: "profile \<Rightarrow> string list" where
  "reload_actions p =
     [''add_connection'', ''remove_connection'', ''invalid_config'']
       @ (if str_of (jget ''type'' (pf_protocol p)) = Some ''tls'' then [''rotate_cert''] else [])"

definition dash_to_underscore :: "string \<Rightarrow> string" where
  "dash_to_underscore s = map (\<lambda>c. if c = CHR ''-'' then CHR ''_'' else c) s"

definition reload_row :: "u32 \<Rightarrow> profile \<Rightarrow> u32 \<Rightarrow> string \<Rightarrow> string \<Rightarrow> nat \<Rightarrow> json" where
  "reload_row sz p c load action ordinal =
     (let row = matrix_scenario (pf_id p) (''hotreload-'' @ load) ''tcp'' (pf_protocol p) True ''scg-direct'' sz c
            (pf_requirements p) None ordinal;
          row = (if load = ''sub-saturation'' then set_rate_limit row else row)
      in jput ''reload_event'' (reload_json action) row)"

definition reload_name :: "string \<Rightarrow> string \<Rightarrow> string \<Rightarrow> u32 \<Rightarrow> string" where
  "reload_name pid action load c =
     ''hotreload_'' @ pid @ ''_'' @ action @ ''_'' @ dash_to_underscore load @ ''_'' @ show_word c @ ''c''"

definition reloadable :: "matrix_spec \<Rightarrow> profile \<Rightarrow> bool" where
  "reloadable spec p =
     (pf_id p \<in> set (ms_hot_reload_profiles spec) \<and> pf_interfaces p = [''tcp''] \<and> ''scg-direct'' \<in> set (pf_chains p))"

definition expand_hotreload :: "matrix_spec \<Rightarrow> matrix_error + json" where
  "expand_hotreload spec =
     map_sum id (\<lambda>rs. JArr (fst rs))
       (try_fold (\<lambda>p rs.
          if \<not> reloadable spec p then Inr rs
          else try_fold (\<lambda>c. try_fold (\<lambda>load. try_fold (\<lambda>action.
                 emit (reload_name (pf_id p) action load c)
                   (reload_row (dm_canonical_stream_message_size (ms_dimensions spec)) p c load action))
               (reload_actions p)) [''sub-saturation'', ''saturation'']) [1, 4, 16, 64] rs)
        (ms_profiles spec) ([], {}))"

section \<open>Smoke\<close>

definition smoke_profiles :: "matrix_spec \<Rightarrow> rows \<Rightarrow> matrix_error + rows" where
  "smoke_profiles spec =
     try_fold (\<lambda>p. try_fold (\<lambda>interface. try_fold (\<lambda>chain.
         emit (''smoke_'' @ pf_id p @ ''_'' @ interface @ ''_'' @ replace_all ''scg-'' [] chain)
           (profile_row p ''smoke'' interface chain (canonical_size p (ms_dimensions spec)) 1))
       (pf_chains p)) (pf_interfaces p)) (ms_profiles spec)"

definition latency_ids :: "string list" where
  "latency_ids =
     [''routing_tcp'', ''routing_udp'', ''routing_uds'', ''routing_shm'', ''routing_shmslot'', ''routing_tproxy'']"

definition smoke_latency :: "matrix_spec \<Rightarrow> rows \<Rightarrow> matrix_error + rows" where
  "smoke_latency spec =
     try_fold (\<lambda>i rs.
         case find (\<lambda>p. pf_id p = i) (ms_profiles spec) of
           None \<Rightarrow> Inr rs
         | Some p \<Rightarrow>
             emit (''smoke_lat_'' @ i)
               (latency_row p ''smoke-latency'' (pf_interfaces p ! 0) (canonical_size p (ms_dimensions spec))) rs)
       latency_ids"

definition smoke_ciphers :: "matrix_spec \<Rightarrow> rows \<Rightarrow> matrix_error + rows" where
  "smoke_ciphers spec rs =
     (let canonical_stream = dm_canonical_stream_message_size (ms_dimensions spec);
          canonical_dgram = dm_canonical_datagram_message_size (ms_dimensions spec)
      in and_then
           (case cm_tls12 (ms_cipher_matrix spec) of
              [] \<Rightarrow> Inr rs
            | suite # _ \<Rightarrow>
                and_then (and_then
                  (push_cipher_scenario ''smoke_cipher_tls12'' ''tcp'' (tls_suite ''1.2'' suite) [''openssl'']
                     canonical_stream canonical_stream rs)
                  (push_cipher_scenario ''smoke_cipher_ktls12'' ''tcp'' (ktls_suite ''1.2'' suite) [''openssl'', ''ktls'']
                     canonical_stream canonical_stream))
                  (push_cipher_scenario ''smoke_cipher_dtls12'' ''udp'' (dtls_suite suite) [''openssl'']
                     canonical_dgram canonical_dgram))
           (\<lambda>rs. case cm_tls13 (ms_cipher_matrix spec) of
              [] \<Rightarrow> Inr rs
            | suite # _ \<Rightarrow>
                and_then
                  (push_cipher_scenario ''smoke_cipher_tls13'' ''tcp'' (tls_suite ''1.3'' suite) [''openssl'']
                     canonical_stream canonical_stream rs)
                  (push_cipher_scenario ''smoke_cipher_ktls13'' ''tcp'' (ktls_suite ''1.3'' suite) [''openssl'', ''ktls'']
                     canonical_stream canonical_stream)))"

definition smoke_handshakes :: "rows \<Rightarrow> matrix_error + rows" where
  "smoke_handshakes =
     try_fold (\<lambda>(name, protocol). push_connrate_handshake name protocol 4)
       [(''smoke_handshake_ecdsa'', cert_proto ''ecdsa''), (''smoke_handshake_rsa'', cert_proto ''rsa''),
        (''smoke_handshake_kex_x25519'', kex_proto ''X25519''), (''smoke_handshake_kex_p256'', kex_proto ''P-256'')]"

definition resumption_row :: "u32 \<Rightarrow> nat \<Rightarrow> json" where
  "resumption_row sz ordinal =
     jput ''mode'' (JStr ''connrate'')
       (matrix_scenario ''resumption'' ''smoke-resumption'' ''tcp''
         (JObj [(''type'', JStr ''tls''), (''version'', JStr ''1.3''), (''resumption'', JBool True)]) True ''scg-direct''
         sz 1 [''openssl''] None ordinal)"

definition smoke_reload_row :: "u32 \<Rightarrow> string \<Rightarrow> nat \<Rightarrow> json" where
  "smoke_reload_row sz action ordinal =
     jput ''warmup_secs'' (JNum 1) (jput ''duration_secs'' (JNum 10)
       (jput ''reload_event'' (reload_json action)
         (set_rate_limit (matrix_scenario ''tls13_tcp'' ''smoke-hotreload'' ''tcp''
           (obj [(''type'', ''tls''), (''version'', ''1.3'')]) True ''scg-direct'' sz 1 [''openssl''] None ordinal))))"

definition smoke_reloads :: "matrix_spec \<Rightarrow> rows \<Rightarrow> matrix_error + rows" where
  "smoke_reloads spec =
     try_fold (\<lambda>action. emit (''smoke_hotreload_'' @ action)
         (smoke_reload_row (dm_canonical_stream_message_size (ms_dimensions spec)) action))
       [''add_connection'', ''remove_connection'', ''invalid_config'', ''rotate_cert'']"

definition smoke_baselines :: "matrix_spec \<Rightarrow> rows \<Rightarrow> matrix_error + rows" where
  "smoke_baselines spec =
     try_fold (\<lambda>(label, interface, sz). emit (''smoke_loopback_'' @ label)
         (matrix_scenario ''loopback'' ''smoke-baseline'' interface (obj [(''type'', ''none'')]) False ''scg-direct''
            sz 1 [] None))
       [(''tcp'', ''tcp'', dm_canonical_stream_message_size (ms_dimensions spec)),
        (''udp'', ''udp'', dm_canonical_datagram_message_size (ms_dimensions spec))]"

definition multistream_row :: json where
  "multistream_row = JObj
     [(''name'', JStr ''smoke_multistream''), (''category'', JStr ''smoke-scheduling''),
      (''message_size_bytes'', JNum 1024), (''connections'', JNum 1),
      (''gateway'', JObj [(''enabled'', JBool True), (''chain'', JStr ''scg-direct'')]),
      (''protocol'', obj [(''type'', ''none'')]),
      (''streams'', JArr
        [JObj [(''role'', JStr ''safety''), (''interface'', JStr ''tcp''), (''target_addr'', JStr ''127.0.0.1:17990''),
               (''message_size_bytes'', JNum 256), (''pattern'', JStr ''periodic''), (''interval_us'', JNum 500),
               (''priority'', obj [(''dscp_tag'', ''EF''), (''traffic_class'', ''safety'')]),
               (''protocol'', obj [(''type'', ''none'')])],
         JObj [(''role'', JStr ''bulk''), (''interface'', JStr ''tcp''), (''target_addr'', JStr ''127.0.0.1:17990''),
               (''message_size_bytes'', JNum 4096),
               (''priority'', obj [(''dscp_tag'', ''BE''), (''traffic_class'', ''normal'')]),
               (''protocol'', obj [(''type'', ''none'')])]]),
      (''sender'', obj [(''interface'', ''tcp''), (''target_addr'', ''127.0.0.1:17990''), (''pattern'', ''sustained'')]),
      (''description'', JStr ''smoke: multi-stream DSCP scheduling (safety + bulk), tcp/plain'')]"

definition expand_smoke :: "matrix_spec \<Rightarrow> matrix_error + json" where
  "expand_smoke spec =
     map_sum id (\<lambda>rs. JArr (fst rs))
       (and_then (and_then (and_then (and_then (and_then (and_then (and_then (and_then
          (smoke_profiles spec ([], {}))
          (smoke_latency spec)) (smoke_ciphers spec)) smoke_handshakes)
          (emit ''smoke_resumption_tls13'' (resumption_row (dm_canonical_stream_message_size (ms_dimensions spec)))))
          (smoke_reloads spec)) (smoke_baselines spec))
          (push_unique ''smoke_multistream'' multistream_row)) (append_blocked_rows spec))"

section \<open>Interface comparison\<close>

definition iface_name :: "string \<Rightarrow> string \<Rightarrow> u32 \<Rightarrow> u32 \<Rightarrow> string" where
  "iface_name kind pid sz c =
     ''iface_'' @ pid @ ''_'' @ kind @ ''_'' @ size_label sz @ ''_'' @ show_word c @ ''c''"

definition iface_group :: "string \<Rightarrow> u32 \<Rightarrow> u32 \<Rightarrow> string" where
  "iface_group kind sz c = ''iface-'' @ kind @ ''-'' @ size_label sz @ ''-'' @ show_word c @ ''c''"

definition routing_only :: json where
  "routing_only = obj [(''type'', ''none''), (''protection_mode'', ''routing-only'')]"

definition comparison_row :: "string \<Rightarrow> comparison_path \<Rightarrow> u32 \<Rightarrow> u32 \<Rightarrow> json \<Rightarrow> nat \<Rightarrow> json" where
  "comparison_row category path sz c meta ordinal =
     matrix_scenario ''routing'' category (cpa_interface path) routing_only (cpa_gateway path) (cpa_chain path)
       sz c (cpa_requirements path) (Some meta) ordinal"

definition expand_throughput :: "interface_comparison \<Rightarrow> comparison_path \<Rightarrow> comparison_path \<Rightarrow> rows \<Rightarrow> matrix_error + rows" where
  "expand_throughput ic direct gateway_tcp =
     try_fold (\<lambda>sz. try_fold (\<lambda>c. try_fold (\<lambda>path rs.
         if \<not> supports (cpa_connections path) c then Inr rs
         else emit (iface_name ''throughput'' (cpa_id path) sz c)
                (comparison_row ''interface-comparison-throughput'' path sz c
                  (comparison_meta (iface_group ''throughput'' sz c) (iface_name ''throughput'' (cpa_id direct) sz c)
                    (iface_name ''throughput'' (cpa_id gateway_tcp) sz c) None None)) rs)
       (ic_paths ic)) (ic_throughput_connections ic)) (ic_throughput_message_sizes ic)"

definition expand_latency :: "interface_comparison \<Rightarrow> comparison_path \<Rightarrow> comparison_path \<Rightarrow> rows \<Rightarrow> matrix_error + rows" where
  "expand_latency ic direct gateway_tcp =
     try_fold (\<lambda>sz. try_fold (\<lambda>c. try_fold (\<lambda>path rs.
         if \<not> supports (cpa_connections path) c then Inr rs
         else emit (iface_name ''latency'' (cpa_id path) sz c)
                (\<lambda>ordinal. jput ''mode'' (JStr ''pingpong'') (comparison_row ''interface-comparison-latency'' path sz c
                  (comparison_meta (iface_group ''latency'' sz c) (iface_name ''latency'' (cpa_id direct) sz c)
                    (iface_name ''latency'' (cpa_id gateway_tcp) sz c) (Some (iface_group ''throughput'' sz c))
                    (Some (ic_latency_fraction ic))) ordinal)) rs)
       (ic_paths ic)) (ic_latency_connections ic)) (ic_latency_message_sizes ic)"

definition expand_interface_comparison :: "matrix_spec \<Rightarrow> matrix_error + json" where
  "expand_interface_comparison spec =
     (let ic = ms_interface_comparison spec in
      case find (\<lambda>p. \<not> cpa_gateway p \<and> cpa_interface p = ''tcp'') (ic_paths ic) of
        None \<Rightarrow> Inl NeedsDirectTcp
      | Some direct \<Rightarrow>
          (case find (\<lambda>p. cpa_gateway p \<and> cpa_interface p = ''tcp'') (ic_paths ic) of
             None \<Rightarrow> Inl NeedsGatewayTcp
           | Some gateway_tcp \<Rightarrow>
               map_sum id (\<lambda>rs. JArr (fst rs))
                 (and_then (expand_throughput ic direct gateway_tcp ([], {})) (expand_latency ic direct gateway_tcp))))"

section \<open>Documents\<close>

definition validate_spec :: "matrix_spec \<Rightarrow> matrix_error + unit" where
  "validate_spec spec =
     (let fraction = ic_latency_fraction (ms_interface_comparison spec) in
      if ms_profiles spec = [] \<or> ic_paths (ms_interface_comparison spec) = [] then Inl NeedsProfilesAndPaths
      else if \<not> (fle 0 fraction \<and> fle fraction 1) \<or> fraction = 0 then Inl BadLatencyFraction
      else try_fold (\<lambda>p _. if trim (pf_id p) = [] \<or> pf_interfaces p = [] \<or> pf_chains p = []
                            \<or> as_object (pf_protocol p) = None
                         then Inl (InvalidProfile (pf_id p)) else Inr ()) (ms_profiles spec) ())"

definition suite_document :: "matrix_spec \<Rightarrow> string \<Rightarrow> json \<Rightarrow> json" where
  "suite_document spec description scenarios =
     JObj [(''$schema'', JStr ''seshat-config-v1''),
           (''suite'', obj [(''name'', su_name (ms_suite spec)), (''description'', description),
              (''author'', su_author (ms_suite spec)), (''version'', su_version (ms_suite spec))]),
           (''defaults'', ms_defaults spec), (''scenarios'', scenarios)]"

definition with_default_overrides :: "(string \<times> int) list \<Rightarrow> json \<Rightarrow> json" where
  "with_default_overrides pairs doc =
     (case jget ''defaults'' doc of
        Some defs \<Rightarrow> jput ''defaults'' (fold (\<lambda>(k, v). jput k (JNum v)) pairs defs) doc
      | None \<Rightarrow> doc)"

text \<open>File name, description, rows, and what is done to the finished document.\<close>

definition document_parts :: "matrix_spec \<Rightarrow> (string \<times> string \<times> (matrix_error + json) \<times> (json \<Rightarrow> json)) list" where
  "document_parts spec =
     [(''matrix_catalog.json'', ''Benchmark matrix catalog (compatible and blocked combinations)'',
       expand_profiles spec Catalog, id),
      (''full_matrix.json'', ''Generated executable nightly benchmark matrix (disabled blocked_* rows document deliberate non-coverage)'',
       expand_profiles spec Nightly, id),
      (''canonical_matrix.json'', ''Generated compact canonical benchmark matrix (disabled blocked_* rows document deliberate non-coverage)'',
       expand_profiles spec Canonical, id),
      (''interface_comparison.json'', ''Matched loopback, SCG TCP, TPROXY, UDS, and SHM comparison suite'',
       expand_interface_comparison spec, id),
      (''hotreload_matrix.json'', ''Generated compatible hot-reload scenarios (nightly tier)'',
       expand_hotreload spec, id),
      (''smoke_matrix.json'', ''Generated minimal smoke matrix: every capability path once at the canonical size (no payload-size or connection sweep)'',
       expand_smoke spec, with_default_overrides
         [(''runs'', 1), (''duration_secs'', 2), (''warmup_secs'', 1), (''cooldown_secs'', 0)]),
      (''everything_matrix.json'', ''Generated exhaustive executable matrix: every compatible profile in every valid combination (full message-size range x catalog connection ladder, plus the latency, cipher, and handshake sweeps)'',
       expand_profiles spec Everything, id)]"

definition render_documents :: "matrix_spec \<Rightarrow> matrix_error + (string \<times> json) list" where
  "render_documents spec =
     try_fold (\<lambda>(file, description, expanded, finish_doc) docs.
         map_sum id (\<lambda>rows. docs @ [(file, finish_doc (suite_document spec description rows))]) expanded)
       (document_parts spec) []"

definition doc_scenarios :: "json \<Rightarrow> json list" where
  "doc_scenarios doc = (case jget ''scenarios'' doc of Some (JArr rows) \<Rightarrow> rows | _ \<Rightarrow> [])"

text \<open>What \<open>generate\<close> writes, and the counts it returns; \<open>pretty\<close> is the printer of \<open>serde_json\<close>.\<close>

definition generate :: "(json \<Rightarrow> string) \<Rightarrow> matrix_spec \<Rightarrow> matrix_error + (string \<times> string) list \<times> nat \<times> nat" where
  "generate pretty spec =
     and_then (validate_spec spec) (\<lambda>_. map_sum id
       (\<lambda>docs. (map (\<lambda>(file, doc). (file, pretty doc @ [LF])) docs, length docs,
          sum_list (map (length \<circ> doc_scenarios \<circ> snd) docs)))
       (render_documents spec))"

section \<open>Plans\<close>

text \<open>What a suite lists, before ordinals and names are filled in: the names and the row builders, in order.\<close>

type_synonym plan = "(string \<times> (nat \<Rightarrow> json)) list"

definition emits :: "plan \<Rightarrow> rows \<Rightarrow> matrix_error + rows" where
  "emits pl = try_fold (\<lambda>(name, mk). emit name mk) pl"

definition rows_from :: "nat \<Rightarrow> plan \<Rightarrow> json list" where
  "rows_from n pl = map (\<lambda>(i, name, mk). jput ''name'' (JStr name) (mk i)) (enumerate n pl)"

fun first_dup :: "string set \<Rightarrow> string list \<Rightarrow> string option" where
  "first_dup seen [] = None"
| "first_dup seen (n # ns) = (if n \<in> seen then Some n else first_dup (insert n seen) ns)"

definition suite_rows :: "plan \<Rightarrow> matrix_error + json" where
  "suite_rows pl =
     (case first_dup {} (map fst pl) of Some n \<Rightarrow> Inl (DuplicateName n) | None \<Rightarrow> Inr (JArr (rows_from 0 pl)))"

lemma first_dup_None: "first_dup seen ns = None \<longleftrightarrow> distinct ns \<and> set ns \<inter> seen = {}"
  by (induction seen ns rule: first_dup.induct) auto

lemma emits_simps:
  "emits [] rs = Inr rs" "emits [(n, mk)] rs = emit n mk rs"
  by (simp_all add: emits_def split: sum.split)

lemma emits_append: "emits (p @ q) rs = and_then (emits p rs) (emits q)"
  by (simp add: emits_def try_fold_append)

lemma emits_result:
  "emits pl (s, N) =
     (case first_dup N (map fst pl) of
        Some n \<Rightarrow> Inl (DuplicateName n)
      | None \<Rightarrow> Inr (s @ rows_from (length s) pl, N \<union> set (map fst pl)))"
proof (induction pl arbitrary: s N)
  case (Cons e pl)
  obtain n mk where e: "e = (n, mk)" by (cases e)
  show ?case
    using Cons.IH [of "s @ [jput ''name'' (JStr n) (mk (length s))]" "insert n N"]
    by (auto simp: emits_def e emit_def push_unique_def rows_from_def split: option.split)
qed (simp add: emits_def rows_from_def)

lemma suite_rows_emits: "map_sum id (\<lambda>rs. JArr (fst rs)) (emits pl ([], {})) = suite_rows pl"
  by (simp add: emits_result suite_rows_def rows_from_def split: option.split)

lemma try_fold_emits:
  assumes "\<And>x rs. f x rs = emits (g x) rs"
  shows "try_fold f xs rs = emits (concat (map g xs)) rs"
proof -
  have "f = (\<lambda>x. emits (g x))" using assms by (intro ext)
  then show ?thesis by (simp add: emits_def try_fold_concat)
qed

lemma and_then_emits:
  assumes "r = emits p rs" "\<And>rs. f rs = emits q rs"
  shows "and_then r f = emits (p @ q) rs"
proof -
  have "f = emits q" using assms(2) by (intro ext)
  then show ?thesis using assms(1) by (simp add: emits_append)
qed

lemma emit_emits: "emit n mk rs = emits [(n, mk)] rs"
  by (simp add: emits_simps)

lemma none_emits: "Inr rs = emits [] rs"
  by (simp add: emits_simps)

lemma if_emits: "x = emits p rs \<Longrightarrow> y = emits q rs \<Longrightarrow> (if b then x else y) = emits (if b then p else q) rs"
  by simp

definition profile_plan :: "dimensions \<Rightarrow> tier \<Rightarrow> profile \<Rightarrow> plan" where
  "profile_plan d t p =
     (if \<not> in_tier t p then []
      else concat (map (\<lambda>interface. concat (map (\<lambda>chain. concat (map (\<lambda>sz.
        concat (map (\<lambda>c. if \<not> supports (pf_connections p) c then []
            else [(matrix_name (pf_id p) interface sz chain c, profile_row p ''matrix'' interface chain sz c)])
          (tier_connections d t p))
        @ (if t \<noteq> Catalog \<and> chain = ''scg-direct'' \<and> supports (pf_connections p) 1
           then [(latency_name (pf_id p) interface sz, latency_row p ''matrix-latency'' interface sz)] else []))
        (tier_sizes d t p))) (pf_chains p))) (pf_interfaces p)))"

lemma expand_profile_emits: "expand_profile d t p rs = emits (profile_plan d t p) rs"
  unfolding expand_profile_def profile_plan_def
  by (intro if_emits try_fold_emits and_then_emits emit_emits none_emits)

definition cipher_entry :: "string \<Rightarrow> string \<Rightarrow> json \<Rightarrow> string list \<Rightarrow> u32 \<Rightarrow> u32 \<Rightarrow> plan" where
  "cipher_entry base interface protocol requirements sz canonical =
     [(if sz = canonical then base else base @ ''_'' @ show_word sz @ ''B'',
       matrix_scenario ''cipher'' ''cipher-matrix'' interface protocol True ''scg-direct'' sz 1 requirements None)]"

lemma push_cipher_emits:
  "push_cipher_scenario base interface protocol requirements sz canonical rs
     = emits (cipher_entry base interface protocol requirements sz canonical) rs"
  by (simp add: push_cipher_scenario_def cipher_entry_def emits_simps)

definition cipher_plan :: "matrix_spec \<Rightarrow> tier \<Rightarrow> plan" where
  "cipher_plan spec t =
     (let d = ms_dimensions spec; cm = ms_cipher_matrix spec;
          canonical_stream = dm_canonical_stream_message_size d;
          stream_sizes = cipher_size_grid t canonical_stream (dm_stream_message_sizes d) [1024, canonical_stream, 16384];
          canonical_dgram = dm_canonical_datagram_message_size d;
          dgram_sizes = cipher_size_grid t canonical_dgram (dm_datagram_message_sizes d) [256, canonical_dgram, 1400];
          some_of = (\<lambda>suites. take (if t = Canonical then 1 else length suites) suites)
      in concat (map (\<lambda>vs. concat (map (\<lambda>suite. concat (map (\<lambda>sz.
             cipher_entry (cipher_name ''tls'' (fst vs) suite) ''tcp'' (tls_suite (fst vs) suite) [''openssl''] sz canonical_stream
             @ cipher_entry (cipher_name ''ktls'' (fst vs) suite) ''tcp'' (ktls_suite (fst vs) suite) [''openssl'', ''ktls''] sz canonical_stream)
           stream_sizes)) (some_of (snd vs)))) [(''1.2'', cm_tls12 cm), (''1.3'', cm_tls13 cm)])
         @ concat (map (\<lambda>suite. concat (map (\<lambda>sz.
             cipher_entry (''cipher_dtls12_'' @ sanitize_name suite) ''udp'' (dtls_suite suite) [''openssl''] sz canonical_dgram)
           dgram_sizes)) (some_of (cm_tls12 cm))))"

lemma append_cipher_emits: "append_cipher_scenarios spec t rs = emits (cipher_plan spec t) rs"
  unfolding append_cipher_scenarios_def cipher_plan_def Let_def case_prod_beta
  by (intro try_fold_emits and_then_emits push_cipher_emits)

definition connrate_entry :: "string \<Rightarrow> json \<Rightarrow> u32 \<Rightarrow> plan" where
  "connrate_entry base protocol c = [(if c = 4 then base else base @ ''_'' @ show_word c @ ''c'', connrate_row protocol c)]"

lemma push_connrate_emits: "push_connrate_handshake base protocol c rs = emits (connrate_entry base protocol c) rs"
  by (simp add: push_connrate_handshake_def connrate_entry_def emits_simps)

definition handshake_plan :: "tier \<Rightarrow> plan" where
  "handshake_plan t =
     (let conns = (if t = Canonical then [4] else [1, 4])
      in concat (map (\<lambda>cert. concat (map (connrate_entry (''handshake_tls13_'' @ cert) (cert_proto cert)) conns)) [''ecdsa'', ''rsa''])
         @ concat (map (\<lambda>lg. concat (map (connrate_entry (''handshake_kex_'' @ fst lg) (kex_proto (snd lg))) conns))
             [(''x25519'', ''X25519''), (''p256'', ''P-256'')]))"

lemma append_handshake_emits: "append_handshake_scenarios t rs = emits (handshake_plan t) rs"
  unfolding append_handshake_scenarios_def handshake_plan_def Let_def case_prod_beta
  by (intro try_fold_emits and_then_emits push_connrate_emits)

definition blocked_plan :: "matrix_spec \<Rightarrow> plan" where
  "blocked_plan spec = concat (map (\<lambda>l. [(''blocked_'' @ li_name l, blocked_row l)]) (ms_limitations spec))"

lemma append_blocked_emits: "append_blocked_rows spec rs = emits (blocked_plan spec) rs"
  unfolding append_blocked_rows_def blocked_plan_def by (intro try_fold_emits emit_emits)

definition tier_plan :: "matrix_spec \<Rightarrow> tier \<Rightarrow> plan" where
  "tier_plan spec t =
     ((concat (map (profile_plan (ms_dimensions spec) t) (ms_profiles spec)) @ cipher_plan spec t) @ handshake_plan t)
       @ blocked_plan spec"

lemma expand_profiles_rows: "expand_profiles spec t = suite_rows (tier_plan spec t)"
  unfolding expand_profiles_def tier_plan_def suite_rows_emits [symmetric]
  by (intro arg_cong [where f = "map_sum id (\<lambda>rs. JArr (fst rs))"] and_then_emits try_fold_emits
      expand_profile_emits append_cipher_emits append_handshake_emits append_blocked_emits)

definition reload_plan :: "matrix_spec \<Rightarrow> plan" where
  "reload_plan spec =
     concat (map (\<lambda>p. if \<not> reloadable spec p then []
       else concat (map (\<lambda>c. concat (map (\<lambda>load. concat (map (\<lambda>action.
           [(reload_name (pf_id p) action load c,
             reload_row (dm_canonical_stream_message_size (ms_dimensions spec)) p c load action)])
         (reload_actions p))) [''sub-saturation'', ''saturation''])) [1, 4, 16, 64])) (ms_profiles spec))"

lemma expand_hotreload_rows: "expand_hotreload spec = suite_rows (reload_plan spec)"
  unfolding expand_hotreload_def reload_plan_def suite_rows_emits [symmetric]
  by (intro arg_cong [where f = "map_sum id (\<lambda>rs. JArr (fst rs))"] if_emits try_fold_emits none_emits emit_emits)

definition smoke_cipher_plan :: "matrix_spec \<Rightarrow> plan" where
  "smoke_cipher_plan spec =
     (let canonical_stream = dm_canonical_stream_message_size (ms_dimensions spec);
          canonical_dgram = dm_canonical_datagram_message_size (ms_dimensions spec)
      in (case cm_tls12 (ms_cipher_matrix spec) of
            [] \<Rightarrow> []
          | suite # _ \<Rightarrow>
              (cipher_entry ''smoke_cipher_tls12'' ''tcp'' (tls_suite ''1.2'' suite) [''openssl''] canonical_stream canonical_stream
               @ cipher_entry ''smoke_cipher_ktls12'' ''tcp'' (ktls_suite ''1.2'' suite) [''openssl'', ''ktls''] canonical_stream canonical_stream)
              @ cipher_entry ''smoke_cipher_dtls12'' ''udp'' (dtls_suite suite) [''openssl''] canonical_dgram canonical_dgram)
         @ (case cm_tls13 (ms_cipher_matrix spec) of
              [] \<Rightarrow> []
            | suite # _ \<Rightarrow>
                cipher_entry ''smoke_cipher_tls13'' ''tcp'' (tls_suite ''1.3'' suite) [''openssl''] canonical_stream canonical_stream
                @ cipher_entry ''smoke_cipher_ktls13'' ''tcp'' (ktls_suite ''1.3'' suite) [''openssl'', ''ktls''] canonical_stream canonical_stream))"

lemma list_case_emits:
  assumes "x = emits p rs" "\<And>a as. f a as = emits (g a as) rs"
  shows "(case l of [] \<Rightarrow> x | a # as \<Rightarrow> f a as) = emits (case l of [] \<Rightarrow> p | a # as \<Rightarrow> g a as) rs"
  using assms by (simp split: list.split)

lemma smoke_ciphers_emits: "smoke_ciphers spec rs = emits (smoke_cipher_plan spec) rs"
  unfolding smoke_ciphers_def smoke_cipher_plan_def Let_def
  by (intro and_then_emits list_case_emits none_emits push_cipher_emits)

definition smoke_plan :: "matrix_spec \<Rightarrow> plan" where
  "smoke_plan spec =
     (((((((concat (map (\<lambda>p. concat (map (\<lambda>interface. concat (map (\<lambda>chain.
           [(''smoke_'' @ pf_id p @ ''_'' @ interface @ ''_'' @ replace_all ''scg-'' [] chain,
             profile_row p ''smoke'' interface chain (canonical_size p (ms_dimensions spec)) 1)])
         (pf_chains p))) (pf_interfaces p))) (ms_profiles spec))
      @ concat (map (\<lambda>i. case find (\<lambda>p. pf_id p = i) (ms_profiles spec) of
           None \<Rightarrow> []
         | Some p \<Rightarrow> [(''smoke_lat_'' @ i,
             latency_row p ''smoke-latency'' (pf_interfaces p ! 0) (canonical_size p (ms_dimensions spec)))]) latency_ids))
      @ smoke_cipher_plan spec)
      @ concat (map (\<lambda>np. connrate_entry (fst np) (snd np) 4)
          [(''smoke_handshake_ecdsa'', cert_proto ''ecdsa''), (''smoke_handshake_rsa'', cert_proto ''rsa''),
           (''smoke_handshake_kex_x25519'', kex_proto ''X25519''), (''smoke_handshake_kex_p256'', kex_proto ''P-256'')]))
      @ [(''smoke_resumption_tls13'', resumption_row (dm_canonical_stream_message_size (ms_dimensions spec)))])
      @ concat (map (\<lambda>action. [(''smoke_hotreload_'' @ action,
            smoke_reload_row (dm_canonical_stream_message_size (ms_dimensions spec)) action)])
          [''add_connection'', ''remove_connection'', ''invalid_config'', ''rotate_cert'']))
      @ concat (map (\<lambda>lis. [(''smoke_loopback_'' @ fst lis,
            matrix_scenario ''loopback'' ''smoke-baseline'' (fst (snd lis)) (obj [(''type'', ''none'')]) False ''scg-direct''
              (snd (snd lis)) 1 [] None)])
          [(''tcp'', ''tcp'', dm_canonical_stream_message_size (ms_dimensions spec)),
           (''udp'', ''udp'', dm_canonical_datagram_message_size (ms_dimensions spec))]))
      @ [(''smoke_multistream'', \<lambda>_. multistream_row)])
      @ blocked_plan spec"

lemma smoke_latency_emits:
  "(case find P ps of None \<Rightarrow> Inr rs | Some p \<Rightarrow> emit n (mk p) rs)
     = emits (case find P ps of None \<Rightarrow> [] | Some p \<Rightarrow> [(n, mk p)]) rs"
  by (simp add: emits_simps split: option.split)

lemma push_unique_emits: "push_unique n row rs = emits [(n, \<lambda>_. row)] rs"
  by (simp add: emits_simps emit_def)

lemma expand_smoke_rows: "expand_smoke spec = suite_rows (smoke_plan spec)"
  unfolding expand_smoke_def smoke_plan_def suite_rows_emits [symmetric] smoke_profiles_def smoke_latency_def
    smoke_handshakes_def smoke_reloads_def smoke_baselines_def case_prod_beta
  by (intro arg_cong [where f = "map_sum id (\<lambda>rs. JArr (fst rs))"] and_then_emits try_fold_emits
      append_blocked_emits push_unique_emits smoke_ciphers_emits push_connrate_emits emit_emits smoke_latency_emits)

definition iface_plan :: "string \<Rightarrow> string \<Rightarrow> (json \<Rightarrow> json) \<Rightarrow> (u32 \<Rightarrow> u32 \<Rightarrow> json) \<Rightarrow> comparison_path list \<Rightarrow> u32 list \<Rightarrow> u32 list \<Rightarrow> plan" where
  "iface_plan kind category finish_row meta paths conns sizes =
     concat (map (\<lambda>sz. concat (map (\<lambda>c. concat (map (\<lambda>path.
         if \<not> supports (cpa_connections path) c then []
         else [(iface_name kind (cpa_id path) sz c, \<lambda>ordinal. finish_row (comparison_row category path sz c (meta sz c) ordinal))])
       paths)) conns)) sizes)"

definition throughput_meta :: "comparison_path \<Rightarrow> comparison_path \<Rightarrow> u32 \<Rightarrow> u32 \<Rightarrow> json" where
  "throughput_meta direct gateway_tcp sz c =
     comparison_meta (iface_group ''throughput'' sz c) (iface_name ''throughput'' (cpa_id direct) sz c)
       (iface_name ''throughput'' (cpa_id gateway_tcp) sz c) None None"

definition latency_meta :: "f64 \<Rightarrow> comparison_path \<Rightarrow> comparison_path \<Rightarrow> u32 \<Rightarrow> u32 \<Rightarrow> json" where
  "latency_meta fraction direct gateway_tcp sz c =
     comparison_meta (iface_group ''latency'' sz c) (iface_name ''latency'' (cpa_id direct) sz c)
       (iface_name ''latency'' (cpa_id gateway_tcp) sz c) (Some (iface_group ''throughput'' sz c)) (Some fraction)"

definition comparison_plan :: "interface_comparison \<Rightarrow> comparison_path \<Rightarrow> comparison_path \<Rightarrow> plan" where
  "comparison_plan ic direct gateway_tcp =
     iface_plan ''throughput'' ''interface-comparison-throughput'' (\<lambda>row. row) (throughput_meta direct gateway_tcp) (ic_paths ic)
       (ic_throughput_connections ic) (ic_throughput_message_sizes ic)
     @ iface_plan ''latency'' ''interface-comparison-latency'' (jput ''mode'' (JStr ''pingpong''))
         (latency_meta (ic_latency_fraction ic) direct gateway_tcp) (ic_paths ic)
         (ic_latency_connections ic) (ic_latency_message_sizes ic)"

lemma expand_comparison_rows:
  assumes "find (\<lambda>p. \<not> cpa_gateway p \<and> cpa_interface p = ''tcp'') (ic_paths (ms_interface_comparison spec)) = Some direct"
    and "find (\<lambda>p. cpa_gateway p \<and> cpa_interface p = ''tcp'') (ic_paths (ms_interface_comparison spec)) = Some gateway_tcp"
  shows "expand_interface_comparison spec = suite_rows (comparison_plan (ms_interface_comparison spec) direct gateway_tcp)"
  unfolding expand_interface_comparison_def Let_def assms option.case suite_rows_emits [symmetric] comparison_plan_def
    iface_plan_def expand_throughput_def expand_latency_def throughput_meta_def latency_meta_def
  by (intro arg_cong [where f = "map_sum id (\<lambda>rs. JArr (fst rs))"] and_then_emits try_fold_emits if_emits
      none_emits emit_emits)

section \<open>What a row says\<close>

definition is_obj :: "json \<Rightarrow> bool" where
  "is_obj v = (as_object v \<noteq> None)"

lemma is_obj_simps [simp]: "is_obj (JObj kvs)" "is_obj (jput k x v) = is_obj v" "is_obj (jremove k v) = is_obj v"
  by (simp_all add: is_obj_def as_object_def jput_def jremove_def split: json.split)

lemma map_of_jset: "map_of (jset k x kvs) = (map_of kvs)(k \<mapsto> x)"
  by (induction k x kvs rule: jset.induct) auto

lemma jget_jput [simp]: "is_obj v \<Longrightarrow> jget j (jput k x v) = (if j = k then Some x else jget j v)"
  by (auto simp: is_obj_def as_object_def jget_def jput_def map_of_jset split: json.splits)

lemma map_of_filter: "j \<noteq> k \<Longrightarrow> map_of (filter (\<lambda>kx. fst kx \<noteq> k) kvs) j = map_of kvs j"
  by (induction kvs) auto

lemma jget_jremove [simp]: "j \<noteq> k \<Longrightarrow> jget j (jremove k v) = jget j v"
  by (simp add: jget_def jremove_def map_of_filter split: json.split)

lemma jget_obj [simp]: "jget j (JObj kvs) = map_of kvs j"
  by (simp add: jget_def)

definition row_name :: "json \<Rightarrow> string option" where
  "row_name row = str_of (jget ''name'' row)"

text \<open>Category, protocol, interface, gateway, size and connections of a row.\<close>

type_synonym view = "json option \<times> json option \<times> json option \<times> json option \<times> json option \<times> json option"

definition row_view :: "json \<Rightarrow> view" where
  "row_view row =
     (jget ''category'' row, jget ''protocol'' row, Option.bind (jget ''sender'' row) (jget ''interface''),
      jget ''gateway'' row, jget ''message_size_bytes'' row, jget ''connections'' row)"

definition cell_view :: "string \<Rightarrow> json \<Rightarrow> string \<Rightarrow> bool \<Rightarrow> string \<Rightarrow> u32 \<Rightarrow> u32 \<Rightarrow> view" where
  "cell_view category protocol interface gateway chain sz c =
     (Some (JStr category), Some protocol, Some (JStr interface),
      Some (JObj [(''enabled'', JBool gateway), (''chain'', JStr chain)]), Some (JNum (uint sz)), Some (JNum (uint c)))"

definition view_keys :: "string set" where
  "view_keys = {''category'', ''protocol'', ''sender'', ''gateway'', ''message_size_bytes'', ''connections''}"

lemma scenario_obj [simp]:
  "is_obj (matrix_scenario prof category interface protocol gateway chain sz c requirements comparison ordinal)"
  by (simp add: matrix_scenario_def Let_def split: option.split)

lemma scenario_view [simp]:
  "row_view (matrix_scenario prof category interface protocol gateway chain sz c requirements comparison ordinal)
     = cell_view category protocol interface gateway chain sz c"
  by (simp add: row_view_def cell_view_def matrix_scenario_def Let_def matrix_sender_def split: option.split)

lemma scenario_comparison:
  "jget ''comparison'' (matrix_scenario prof category interface protocol gateway chain sz c requirements comparison ordinal)
     = comparison"
  by (simp add: matrix_scenario_def Let_def split: option.split)

lemma jput_view [simp]: "is_obj row \<Longrightarrow> k \<notin> view_keys \<Longrightarrow> row_view (jput k x row) = row_view row"
  by (auto simp: row_view_def view_keys_def)

lemma view_keys_simps [simp]:
  "''name'' \<notin> view_keys" "''mode'' \<notin> view_keys" "''enabled'' \<notin> view_keys" "''disabled_reason'' \<notin> view_keys"
  "''optimization_flags'' \<notin> view_keys" "''address_family'' \<notin> view_keys" "''reload_event'' \<notin> view_keys"
  "''duration_secs'' \<notin> view_keys" "''warmup_secs'' \<notin> view_keys"
  by (simp_all add: view_keys_def)

lemma sender_view:
  assumes "is_obj row" "jget ''sender'' row = Some s" "is_obj s" "k \<noteq> ''interface''"
  shows "row_view (jput ''sender'' (jput k x s) row) = row_view row"
  using assms by (simp add: row_view_def)

lemma str_of_target: "str_of (jget k s) = Some t \<Longrightarrow> is_obj s"
  by (auto simp: str_of_def jget_def is_obj_def as_object_def split: json.splits option.splits)

lemma stamped_obj [simp]: "is_obj row \<Longrightarrow> is_obj (stamped p row)"
  by (simp add: stamped_def stamp_address_family_def stamp_optimization_flags_def Let_def
      split: option.split list.split)

lemma stamp_flags_view: "is_obj row \<Longrightarrow> is_obj (stamp_optimization_flags flags row)
    \<and> row_view (stamp_optimization_flags flags row) = row_view row"
  by (simp add: stamp_optimization_flags_def split: option.split list.split)

lemma stamp_family_view: "is_obj row \<Longrightarrow> row_view (stamp_address_family family row) = row_view row"
  by (auto simp: stamp_address_family_def Let_def sender_view str_of_target split: option.split)

lemma stamped_view [simp]: "is_obj row \<Longrightarrow> row_view (stamped p row) = row_view row"
  by (simp add: stamped_def stamp_family_view stamp_flags_view)

lemma set_rate_limit_obj [simp]: "is_obj (set_rate_limit row) = is_obj row"
  by (simp add: set_rate_limit_def split: option.split)

section \<open>Rows of a plan\<close>

definition plan_ok :: "plan \<Rightarrow> bool" where
  "plan_ok pl = list_all (\<lambda>(n, mk). \<forall>i. is_obj (mk i)) pl"

lemma plan_ok_simps [simp]:
  "plan_ok []" "plan_ok ((n, mk) # pl) = ((\<forall>i. is_obj (mk i)) \<and> plan_ok pl)"
  "plan_ok (p @ q) = (plan_ok p \<and> plan_ok q)" "plan_ok (if b then p else q) = (if b then plan_ok p else plan_ok q)"
  by (simp_all add: plan_ok_def)

lemma plan_ok_concat [simp]: "plan_ok (concat (map f xs)) = list_all (\<lambda>x. plan_ok (f x)) xs"
  by (induction xs) simp_all

lemma plan_ok_map [simp]: "plan_ok (map f xs) = list_all (\<lambda>x. \<forall>i. is_obj (snd (f x) i)) xs"
  by (simp add: plan_ok_def list.pred_map comp_def case_prod_beta)

lemma rows_from_names: "plan_ok pl \<Longrightarrow> map row_name (rows_from n pl) = map (Some \<circ> fst) pl"
  by (induction pl arbitrary: n) (auto simp: rows_from_def row_name_def str_of_def as_str_def)

lemma rows_from_views:
  assumes "list_all (\<lambda>(n, mk). \<forall>i. is_obj (mk i) \<and> row_view (mk i) = row_view (mk 0)) pl"
  shows "map row_view (rows_from n pl) = map (\<lambda>(n, mk). row_view (mk 0)) pl"
  using assms by (induction pl arbitrary: n) (auto simp: rows_from_def)

lemma suite_rows_Inr: "suite_rows pl = Inr doc \<Longrightarrow> doc = JArr (rows_from 0 pl) \<and> distinct (map fst pl)"
  by (auto simp: suite_rows_def first_dup_None split: option.splits)

lemma entries_ok [simp]:
  "plan_ok (cipher_entry base interface protocol requirements sz canonical)"
  "plan_ok (connrate_entry base protocol c)"
  by (simp_all add: cipher_entry_def connrate_entry_def connrate_row_def)

lemma blocked_plan_ok [simp]: "plan_ok (blocked_plan spec)"
  by (simp add: blocked_plan_def blocked_row_def list_all_iff)

lemma tier_plan_ok: "plan_ok (tier_plan spec t)"
proof -
  have "plan_ok (profile_plan d t p)" for d p
    by (simp add: profile_plan_def profile_row_def latency_row_def list_all_iff split: if_split)
  moreover have "plan_ok (cipher_plan spec t)"
    by (simp add: cipher_plan_def Let_def list_all_iff)
  moreover have "plan_ok (handshake_plan t)"
    by (simp add: handshake_plan_def Let_def list_all_iff)
  ultimately show ?thesis by (simp add: tier_plan_def list_all_iff)
qed

lemma reload_plan_ok: "plan_ok (reload_plan spec)"
  by (simp add: reload_plan_def reload_row_def Let_def list_all_iff)

lemma comparison_plan_ok: "plan_ok (comparison_plan ic d g)"
  by (simp add: comparison_plan_def iface_plan_def comparison_row_def list_all_iff)

lemma smoke_plan_ok: "plan_ok (smoke_plan spec)"
proof -
  have "plan_ok (smoke_cipher_plan spec)"
    by (simp add: smoke_cipher_plan_def Let_def split: list.split)
  then show ?thesis
    by (simp add: smoke_plan_def list_all_iff profile_row_def latency_row_def resumption_row_def
        smoke_reload_row_def multistream_row_def split: option.split)
qed

section \<open>Properties\<close>

lemma doc_scenarios_suite [simp]:
  "doc_scenarios (suite_document spec d (JArr rows)) = rows"
  "doc_scenarios (with_default_overrides pairs (suite_document spec d (JArr rows))) = rows"
  by (simp_all add: doc_scenarios_def suite_document_def with_default_overrides_def)

definition unique_names :: "json list \<Rightarrow> bool" where
  "unique_names rows = (distinct (map row_name rows) \<and> None \<notin> set (map row_name rows))"

lemma suite_rows_unique:
  assumes "plan_ok pl" "suite_rows pl = Inr doc"
  shows "\<exists>rows. doc = JArr rows \<and> unique_names rows"
proof -
  have "doc = JArr (rows_from 0 pl)" "distinct (map fst pl)" using suite_rows_Inr [OF assms(2)] by auto
  moreover have "distinct (map (Some \<circ> fst) pl)"
    using calculation(2) by (simp add: distinct_map inj_on_def)
  ultimately show ?thesis
    by (intro exI [of _ "rows_from 0 pl"]) (auto simp: unique_names_def rows_from_names [OF assms(1)])
qed

lemma expansions_unique:
  "expand_profiles spec t = Inr doc \<Longrightarrow> \<exists>rows. doc = JArr rows \<and> unique_names rows"
  "expand_hotreload spec = Inr doc \<Longrightarrow> \<exists>rows. doc = JArr rows \<and> unique_names rows"
  "expand_smoke spec = Inr doc \<Longrightarrow> \<exists>rows. doc = JArr rows \<and> unique_names rows"
  "expand_interface_comparison spec = Inr doc \<Longrightarrow> \<exists>rows. doc = JArr rows \<and> unique_names rows"
proof -
  show "expand_profiles spec t = Inr doc \<Longrightarrow> \<exists>rows. doc = JArr rows \<and> unique_names rows"
    by (simp add: expand_profiles_rows suite_rows_unique [OF tier_plan_ok])
  show "expand_hotreload spec = Inr doc \<Longrightarrow> \<exists>rows. doc = JArr rows \<and> unique_names rows"
    by (simp add: expand_hotreload_rows suite_rows_unique [OF reload_plan_ok])
  show "expand_smoke spec = Inr doc \<Longrightarrow> \<exists>rows. doc = JArr rows \<and> unique_names rows"
    by (simp add: expand_smoke_rows suite_rows_unique [OF smoke_plan_ok])
  assume a: "expand_interface_comparison spec = Inr doc"
  obtain d where d: "find (\<lambda>p. \<not> cpa_gateway p \<and> cpa_interface p = ''tcp'') (ic_paths (ms_interface_comparison spec)) = Some d"
    using a unfolding expand_interface_comparison_def Let_def by (auto split: option.splits)
  moreover obtain g where "find (\<lambda>p. cpa_gateway p \<and> cpa_interface p = ''tcp'') (ic_paths (ms_interface_comparison spec)) = Some g"
    using a d unfolding expand_interface_comparison_def Let_def by (auto split: option.splits)
  ultimately show "\<exists>rows. doc = JArr rows \<and> unique_names rows"
    using a suite_rows_unique [OF comparison_plan_ok] by (simp add: expand_comparison_rows)
qed

lemma docs_fold:
  assumes "try_fold (\<lambda>(f, description, expanded, finish_doc) docs.
         map_sum id (\<lambda>rows. docs @ [(f, finish_doc (suite_document spec description rows))]) expanded) xs ds = Inr docs"
    and "list_all (\<lambda>(f, description, expanded, finish_doc). \<forall>rows. expanded = Inr rows
           \<longrightarrow> unique_names (doc_scenarios (finish_doc (suite_document spec description rows)))) xs"
    and "list_all (\<lambda>(file, doc). unique_names (doc_scenarios doc)) ds"
  shows "list_all (\<lambda>(file, doc). unique_names (doc_scenarios doc)) docs"
  using assms
proof (induction xs arbitrary: ds)
  case (Cons x xs)
  obtain f d ex fin where x: "x = (f, d, ex, fin)" by (cases x)
  obtain r where r: "ex = Inr r" using Cons.prems(1) x by (cases ex) auto
  have "list_all (\<lambda>(f, doc). unique_names (doc_scenarios doc)) (ds @ [(f, fin (suite_document spec d r))])"
    using Cons.prems(2,3) x r by simp
  then show ?case using Cons.IH Cons.prems x r by simp
qed simp

lemma suite_rows_Inl: "suite_rows pl = Inl e \<Longrightarrow> (\<exists>n. e = DuplicateName n) \<and> \<not> distinct (map fst pl)"
  using first_dup_None [of "{}" "map fst pl"] by (auto simp: suite_rows_def split: option.splits)

lemma docs_error:
  assumes "try_fold (\<lambda>(f, description, expanded, finish_doc) docs.
         map_sum id (\<lambda>rows. docs @ [(f, finish_doc (suite_document spec description rows))]) expanded) xs ds = Inl e"
  shows "\<exists>f description finish_doc. (f, description, Inl e, finish_doc) \<in> set xs"
  using assms
proof (induction xs arbitrary: ds)
  case (Cons x xs)
  obtain f d ex fin where x: "x = (f, d, ex, fin)" by (cases x)
  show ?case
  proof (cases ex)
    case (Inl a)
    then show ?thesis using Cons.prems x by auto
  next
    case (Inr r)
    then have "\<exists>f description finish_doc. (f, description, Inl e, finish_doc) \<in> set xs"
      using Cons.IH Cons.prems x by simp
    then show ?thesis by auto
  qed
qed simp

definition expansion_error :: "matrix_error \<Rightarrow> bool" where
  "expansion_error e = ((\<exists>n. e = DuplicateName n) \<or> e = NeedsDirectTcp \<or> e = NeedsGatewayTcp)"

lemma expansion_errors:
  "expand_profiles spec t = Inl e \<Longrightarrow> expansion_error e" "expand_hotreload spec = Inl e \<Longrightarrow> expansion_error e"
  "expand_smoke spec = Inl e \<Longrightarrow> expansion_error e" "expand_interface_comparison spec = Inl e \<Longrightarrow> expansion_error e"
proof -
  have dup: "suite_rows pl = Inl e \<Longrightarrow> expansion_error e" for pl
    by (auto simp: expansion_error_def dest: suite_rows_Inl)
  then show "expand_profiles spec t = Inl e \<Longrightarrow> expansion_error e" "expand_hotreload spec = Inl e \<Longrightarrow> expansion_error e"
    "expand_smoke spec = Inl e \<Longrightarrow> expansion_error e"
    by (simp_all add: expand_profiles_rows expand_hotreload_rows expand_smoke_rows)
  assume a: "expand_interface_comparison spec = Inl e"
  show "expansion_error e"
  proof (cases "find (\<lambda>p. \<not> cpa_gateway p \<and> cpa_interface p = ''tcp'') (ic_paths (ms_interface_comparison spec))")
    case None
    then show ?thesis using a by (auto simp: expand_interface_comparison_def expansion_error_def)
  next
    case d: (Some d)
    show ?thesis
    proof (cases "find (\<lambda>p. cpa_gateway p \<and> cpa_interface p = ''tcp'') (ic_paths (ms_interface_comparison spec))")
      case None
      then show ?thesis using a d by (auto simp: expand_interface_comparison_def expansion_error_def)
    next
      case (Some g)
      then show ?thesis using a dup by (simp add: expand_comparison_rows [OF d Some])
    qed
  qed
qed

lemma part_plain:
  "(\<And>doc. expanded = Inr doc \<Longrightarrow> \<exists>rows. doc = JArr rows \<and> unique_names rows)
     \<Longrightarrow> \<forall>rows. expanded = Inr rows \<longrightarrow> unique_names (doc_scenarios (id (suite_document spec d rows)))"
  by force

lemma part_overridden:
  "(\<And>doc. expanded = Inr doc \<Longrightarrow> \<exists>rows. doc = JArr rows \<and> unique_names rows)
     \<Longrightarrow> \<forall>rows. expanded = Inr rows \<longrightarrow>
          unique_names (doc_scenarios (with_default_overrides pairs (suite_document spec d rows)))"
  by force

lemma parts_unique:
  "list_all (\<lambda>(f, description, expanded, finish_doc). \<forall>rows. expanded = Inr rows
     \<longrightarrow> unique_names (doc_scenarios (finish_doc (suite_document spec description rows)))) (document_parts spec)"
  unfolding document_parts_def
  by (simp only: list.pred_inject prod.case) (intro conjI part_plain part_overridden TrueI; erule expansions_unique)

lemma parts_error:
  "list_all (\<lambda>(f, description, expanded, finish_doc). \<forall>e. expanded = Inl e \<longrightarrow> expansion_error e) (document_parts spec)"
  unfolding document_parts_def
  by (simp only: list.pred_inject prod.case) (intro conjI allI impI TrueI; erule expansion_errors)


definition plan_const :: "plan \<Rightarrow> bool" where
  "plan_const pl = list_all (\<lambda>(n, mk). \<forall>i. is_obj (mk i) \<and> row_view (mk i) = row_view (mk 0)) pl"

lemma plan_const_simps [simp]:
  "plan_const []" "plan_const ((n, mk) # pl) = ((\<forall>i. is_obj (mk i) \<and> row_view (mk i) = row_view (mk 0)) \<and> plan_const pl)"
  "plan_const (p @ q) = (plan_const p \<and> plan_const q)" "plan_const (if b then p else q) = (if b then plan_const p else plan_const q)"
  by (simp_all add: plan_const_def)

lemma plan_const_concat [simp]: "plan_const (concat (map f xs)) = list_all (\<lambda>x. plan_const (f x)) xs"
  by (induction xs) simp_all

lemma plan_const_map [simp]:
  "plan_const (map f xs) = list_all (\<lambda>x. \<forall>i. is_obj (snd (f x) i) \<and> row_view (snd (f x) i) = row_view (snd (f x) 0)) xs"
  by (simp add: plan_const_def list.pred_map comp_def case_prod_beta)

lemma tier_plan_const: "plan_const (tier_plan spec t)"
proof -
  have "plan_const (profile_plan d t p)" for d p
    by (simp add: profile_plan_def profile_row_def latency_row_def list_all_iff split: if_split)
  moreover have "plan_const (cipher_plan spec t)"
    by (simp add: cipher_plan_def cipher_entry_def Let_def list_all_iff)
  moreover have "plan_const (handshake_plan t)"
    by (simp add: handshake_plan_def connrate_entry_def connrate_row_def Let_def list_all_iff)
  moreover have "plan_const (blocked_plan spec)"
    by (simp add: blocked_plan_def blocked_row_def list_all_iff)
  ultimately show ?thesis by (simp add: tier_plan_def list_all_iff)
qed

definition matrix_views :: "plan \<Rightarrow> view set" where
  "matrix_views pl = {v \<in> set (map (\<lambda>(n, mk). row_view (mk 0)) pl). fst v = Some (JStr ''matrix'')}"

lemma matrix_views_simps [simp]:
  "matrix_views [] = {}" "matrix_views (p @ q) = matrix_views p \<union> matrix_views q"
  "matrix_views ((n, mk) # q) = (if fst (row_view (mk 0)) = Some (JStr ''matrix'') then {row_view (mk 0)} else {}) \<union> matrix_views q"
  "matrix_views (if b then p else q) = (if b then matrix_views p else matrix_views q)"
  by (auto simp: matrix_views_def)

lemma matrix_views_concat [simp]: "matrix_views (concat (map f xs)) = (\<Union>x\<in>set xs. matrix_views (f x))"
  by (induction xs) simp_all

lemma matrix_views_map [simp]: "matrix_views (map f xs) = (\<Union>x\<in>set xs. matrix_views [f x])"
  by (induction xs) (auto simp: matrix_views_def)

lemma fst_cell_view [simp]: "fst (cell_view category protocol interface gateway chain sz c) = Some (JStr category)"
  by (simp add: cell_view_def)

definition compatible :: "matrix_spec \<Rightarrow> tier \<Rightarrow> profile \<Rightarrow> string \<Rightarrow> string \<Rightarrow> u32 \<Rightarrow> u32 \<Rightarrow> bool" where
  "compatible spec t p interface chain sz c =
     (p \<in> set (ms_profiles spec) \<and> in_tier t p \<and> interface \<in> set (pf_interfaces p) \<and> chain \<in> set (pf_chains p)
      \<and> sz \<in> set (tier_sizes (ms_dimensions spec) t p) \<and> c \<in> set (tier_connections (ms_dimensions spec) t p)
      \<and> supports (pf_connections p) c)"

lemma tier_views:
  "matrix_views (tier_plan spec t)
     = {cell_view ''matrix'' (pf_protocol p) interface True chain sz c | p interface chain sz c.
         compatible spec t p interface chain sz c}"
proof -
  have "matrix_views (cipher_plan spec t) = {}"
    by (auto simp: cipher_plan_def cipher_entry_def Let_def)
  moreover have "matrix_views (handshake_plan t) = {}"
    by (auto simp: handshake_plan_def connrate_entry_def connrate_row_def Let_def)
  moreover have "matrix_views (blocked_plan spec) = {}"
    by (auto simp: blocked_plan_def blocked_row_def)
  moreover have "matrix_views (profile_plan d t p)
     = {cell_view ''matrix'' (pf_protocol p) interface True chain sz c | interface chain sz c.
         in_tier t p \<and> interface \<in> set (pf_interfaces p) \<and> chain \<in> set (pf_chains p) \<and> sz \<in> set (tier_sizes d t p)
         \<and> c \<in> set (tier_connections d t p) \<and> supports (pf_connections p) c}" for d p
    by (auto simp: profile_plan_def profile_row_def latency_row_def split: if_splits)
  ultimately have "matrix_views (tier_plan spec t) = (\<Union>p\<in>set (ms_profiles spec).
      {cell_view ''matrix'' (pf_protocol p) interface True chain sz c | interface chain sz c.
        in_tier t p \<and> interface \<in> set (pf_interfaces p) \<and> chain \<in> set (pf_chains p)
        \<and> sz \<in> set (tier_sizes (ms_dimensions spec) t p) \<and> c \<in> set (tier_connections (ms_dimensions spec) t p)
        \<and> supports (pf_connections p) c})"
    by (simp add: tier_plan_def)
  then show ?thesis unfolding compatible_def by blast
qed

text \<open>
  A tier lists exactly the compatible combinations: its throughput rows are those of a profile of the
  tier, on one of its interfaces and chains, at a size and a connection count of the tier that the profile
  supports, through the gateway and with the protocol of that profile; nothing else is listed and nothing is
  left out. The expansion fails only when it would list a name twice.
\<close>

theorem tier_rows_exact:
  "case expand_profiles spec t of
     Inl e \<Rightarrow> (\<exists>n. e = DuplicateName n) \<and> \<not> distinct (map fst (tier_plan spec t))
   | Inr doc \<Rightarrow> \<exists>rows. doc = JArr rows
       \<and> {v \<in> set (map row_view rows). fst v = Some (JStr ''matrix'')}
         = {cell_view ''matrix'' (pf_protocol p) interface True chain sz c | p interface chain sz c.
             compatible spec t p interface chain sz c}"
proof (cases "suite_rows (tier_plan spec t)")
  case (Inl e)
  then show ?thesis by (simp add: expand_profiles_rows suite_rows_Inl)
next
  case (Inr doc)
  have "map row_view (rows_from 0 (tier_plan spec t)) = map (\<lambda>(n, mk). row_view (mk 0)) (tier_plan spec t)"
    using tier_plan_const by (intro rows_from_views) (simp add: plan_const_def)
  then have "{v \<in> set (map row_view (rows_from 0 (tier_plan spec t))). fst v = Some (JStr ''matrix'')}
      = matrix_views (tier_plan spec t)"
    by (simp only: matrix_views_def)
  then show ?thesis using suite_rows_Inr [OF Inr] Inr by (auto simp: expand_profiles_rows tier_views)
qed

section \<open>The reference rows of a comparison\<close>

definition row_reference :: "string \<Rightarrow> json \<Rightarrow> string option" where
  "row_reference k row = Option.bind (jget ''comparison'' row) (\<lambda>c. str_of (jget k c))"

definition refers_into :: "string set \<Rightarrow> json \<Rightarrow> bool" where
  "refers_into names row =
     (\<forall>k\<in>{''reference'', ''gateway_reference''}. \<exists>n. row_reference k row = Some n \<and> n \<in> names)"

lemma refers_jput [simp]:
  "is_obj row \<Longrightarrow> k \<noteq> ''comparison'' \<Longrightarrow> refers_into names (jput k x row) = refers_into names row"
  by (simp add: refers_into_def row_reference_def)

lemma refers_comparison_row [simp]:
  "refers_into names (comparison_row category path sz c (comparison_meta grp direct gateway g f) ordinal)
     = (direct \<in> names \<and> gateway \<in> names)"
  by (auto simp: refers_into_def row_reference_def comparison_row_def scenario_comparison comparison_meta_def
      str_of_def as_str_def Let_def split: option.split)

lemma comparison_row_obj [simp]: "is_obj (comparison_row category path sz c meta ordinal)"
  by (simp add: comparison_row_def)

lemma rows_from_all:
  "list_all (\<lambda>(n, mk). \<forall>i. is_obj (mk i) \<and> refers_into names (mk i)) pl \<Longrightarrow> list_all (refers_into names) (rows_from k pl)"
  by (induction pl arbitrary: k) (auto simp: rows_from_def)

lemma iface_plan_names:
  "fst ` set (iface_plan kind category finish_row meta paths conns sizes)
     = {iface_name kind (cpa_id p) sz c | p sz c. p \<in> set paths \<and> c \<in> set conns \<and> sz \<in> set sizes
          \<and> supports (cpa_connections p) c}"
  unfolding iface_plan_def by (force split: if_splits)

lemma iface_plan_refers:
  assumes "direct \<in> set paths" "gateway \<in> set paths" "cpa_connections direct = []" "cpa_connections gateway = []"
    and "\<And>sz c. \<exists>grp g f. meta sz c = comparison_meta grp (iface_name kind (cpa_id direct) sz c)
           (iface_name kind (cpa_id gateway) sz c) g f"
    and "\<And>row names. is_obj row \<Longrightarrow> is_obj (finish_row row) \<and> refers_into names (finish_row row) = refers_into names row"
    and "fst ` set (iface_plan kind category finish_row meta paths conns sizes) \<subseteq> names"
  shows "list_all (\<lambda>(n, mk). \<forall>i. is_obj (mk i) \<and> refers_into names (mk i))
           (iface_plan kind category finish_row meta paths conns sizes)"
proof -
  have "is_obj (finish_row (comparison_row category p sz c (meta sz c) i))
      \<and> refers_into names (finish_row (comparison_row category p sz c (meta sz c) i))"
    if "sz \<in> set sizes" "c \<in> set conns" for p sz c i
  proof -
    obtain grp g f where meta: "meta sz c = comparison_meta grp (iface_name kind (cpa_id direct) sz c)
           (iface_name kind (cpa_id gateway) sz c) g f" using assms(5) by blast
    have "iface_name kind (cpa_id direct) sz c \<in> names" "iface_name kind (cpa_id gateway) sz c \<in> names"
      using assms(1-4,7) that unfolding iface_plan_names by (auto simp: supports_def)
    then show ?thesis using assms(6) by (simp add: meta)
  qed
  then show ?thesis unfolding iface_plan_def by (auto simp: list_all_iff split: if_splits)
qed

definition tcp_unrestricted :: "interface_comparison \<Rightarrow> bool" where
  "tcp_unrestricted ic = list_all (\<lambda>p. cpa_interface p \<noteq> ''tcp'' \<or> cpa_connections p = []) (ic_paths ic)"

lemma find_Some_prop: "find P xs = Some x \<Longrightarrow> P x \<and> x \<in> set xs"
  by (auto simp: find_Some_iff)

lemma comparison_plan_refers:
  assumes "tcp_unrestricted ic"
    and "find (\<lambda>p. \<not> cpa_gateway p \<and> cpa_interface p = ''tcp'') (ic_paths ic) = Some d"
    and "find (\<lambda>p. cpa_gateway p \<and> cpa_interface p = ''tcp'') (ic_paths ic) = Some g"
  shows "list_all (\<lambda>(n, mk). \<forall>i. is_obj (mk i) \<and> refers_into (fst ` set (comparison_plan ic d g)) (mk i))
           (comparison_plan ic d g)"
proof -
  have dg: "d \<in> set (ic_paths ic)" "g \<in> set (ic_paths ic)" "cpa_connections d = []" "cpa_connections g = []"
    using assms find_Some_prop [OF assms(2)] find_Some_prop [OF assms(3)]
    by (auto simp: tcp_unrestricted_def list_all_iff)
  show ?thesis
    unfolding comparison_plan_def list_all_append
    by (intro conjI iface_plan_refers [OF dg]) (auto simp: throughput_meta_def latency_meta_def)
qed

text \<open>
  The references of the interface comparison resolve: when no TCP path restricts its connection counts,
  every generated row names, as its direct and as its gateway reference, rows of the same document.
\<close>

theorem comparison_references_resolve:
  assumes "expand_interface_comparison spec = Inr (JArr rows)" and "tcp_unrestricted (ms_interface_comparison spec)"
  shows "list_all (refers_into {n. Some n \<in> set (map row_name rows)}) rows"
proof -
  let ?ic = "ms_interface_comparison spec"
  obtain d where d: "find (\<lambda>p. \<not> cpa_gateway p \<and> cpa_interface p = ''tcp'') (ic_paths ?ic) = Some d"
    using assms(1) unfolding expand_interface_comparison_def Let_def by (auto split: option.splits)
  obtain g where g: "find (\<lambda>p. cpa_gateway p \<and> cpa_interface p = ''tcp'') (ic_paths ?ic) = Some g"
    using assms(1) d unfolding expand_interface_comparison_def Let_def by (auto split: option.splits)
  have rows: "rows = rows_from 0 (comparison_plan ?ic d g)"
    using assms(1) suite_rows_Inr unfolding expand_comparison_rows [OF d g] by blast
  have "{n. Some n \<in> set (map row_name rows)} = fst ` set (comparison_plan ?ic d g)"
    unfolding rows rows_from_names [OF comparison_plan_ok] by force
  then show ?thesis
    using rows_from_all [OF comparison_plan_refers [OF assms(2) d g]] rows by simp
qed

definition sample_comparison :: interface_comparison where
  "sample_comparison = \<lparr> ic_paths = [\<lparr> cpa_id = ''direct'', cpa_interface = ''tcp'', cpa_gateway = False, cpa_chain = ''direct'',
                   cpa_requirements = [], cpa_connections = [] \<rparr>,
                 \<lparr> cpa_id = ''scg'', cpa_interface = ''tcp'', cpa_gateway = True, cpa_chain = ''scg-direct'',
                   cpa_requirements = [], cpa_connections = [] \<rparr>,
                 \<lparr> cpa_id = ''shm'', cpa_interface = ''shm'', cpa_gateway = True, cpa_chain = ''scg-direct'',
                   cpa_requirements = [], cpa_connections = [1] \<rparr>],
     ic_throughput_message_sizes = [1024], ic_throughput_connections = [1, 4],
     ic_latency_message_sizes = [64], ic_latency_connections = [1], ic_latency_fraction = 0 \<rparr>"

definition sample_matrix_spec :: matrix_spec where
  "sample_matrix_spec = \<lparr> ms_suite = \<lparr> su_name = ''s'', su_version = ''1'', su_author = ''a'' \<rparr>,
     ms_defaults = JObj [], ms_dimensions = \<lparr> dm_stream_message_sizes = [], dm_datagram_message_sizes = [],
       dm_canonical_connections = [], dm_nightly_connections = [], dm_scalability_connections = [],
       dm_catalog_connections = [], dm_canonical_stream_message_size = 1024,
       dm_canonical_datagram_message_size = 1024 \<rparr>,
     ms_profiles = [], ms_cipher_matrix = \<lparr> cm_tls12 = [], cm_tls13 = [] \<rparr>, ms_hot_reload_profiles = [],
     ms_interface_comparison = sample_comparison, ms_limitations = [] \<rparr>"

lemma sample_rows: "\<exists>rows. expand_interface_comparison sample_matrix_spec = Inr (JArr rows) \<and> length rows = 8"
  by (subst expand_comparison_rows)
     (auto simp: sample_matrix_spec_def sample_comparison_def comparison_plan_def iface_plan_def supports_def
        suite_rows_def first_dup_None rows_from_def iface_name_def size_label_def show_word_def show_nat.simps digit_char_def)

lemma comparison_references_resolve_witness:
  "\<exists>rows. expand_interface_comparison sample_matrix_spec = Inr (JArr rows) \<and> length rows = 8
     \<and> list_all (refers_into {n. Some n \<in> set (map row_name rows)}) rows"
proof -
  obtain rows where rows: "expand_interface_comparison sample_matrix_spec = Inr (JArr rows)" "length rows = 8"
    using sample_rows by blast
  have "tcp_unrestricted (ms_interface_comparison sample_matrix_spec)"
    by (simp add: tcp_unrestricted_def sample_matrix_spec_def sample_comparison_def)
  then show ?thesis using comparison_references_resolve [OF rows(1)] rows by blast
qed

section \<open>Two claims of the comments that do not hold\<close>

text \<open>The comment has the profile encoded into the category; the row does not depend on it.\<close>

lemma profile_not_recorded:
  "matrix_scenario prof category interface protocol gateway chain sz c requirements comparison ordinal
     = matrix_scenario prof' category interface protocol gateway chain sz c requirements comparison ordinal"
proof -
  have "jremove ''profile'' (jput ''profile'' x (JObj kvs)) = jremove ''profile'' (JObj kvs)" for x kvs
    by (simp add: jremove_def jput_def) (induction kvs; auto)
  then show ?thesis by (simp add: matrix_scenario_def Let_def split: option.split)
qed

text \<open>Not every name of the smoke suite starts with its prefix: the limitations keep theirs.\<close>

lemma smoke_has_blocked:
  assumes "l \<in> set (ms_limitations spec)"
  shows "''blocked_'' @ li_name l \<in> fst ` set (smoke_plan spec)"
  proof -
  have "set (blocked_plan spec) \<subseteq> set (smoke_plan spec)" unfolding smoke_plan_def set_append by blast
  moreover have "(''blocked_'' @ li_name l, blocked_row l) \<in> set (blocked_plan spec)"
    using assms by (simp add: blocked_plan_def)
  ultimately show ?thesis by force
qed

end
