(* ===== verification/Gateway_Transport.thy ===== *)
theory Gateway_Transport
  imports Gateway_Path Gateway_Process Tcp_Write
begin

text \<open>
  Data planes through real gateways: starting and stopping the processes of a plan (\<open>src/src/gateway/mod.rs\<close>,
  \<open>start_gateways\<close>, \<open>RunningPath\<close>), the TCP, multi-class and UDP transports (\<open>src/src/transport/gateway.rs\<close>)
  and the transparent one (\<open>src/src/transport/tproxy.rs\<close>). What the kernel, a child process or a command
  answers is an argument; what the code does to the outside is a list of events.
\<close>

section \<open>Starting and stopping the gateways of a plan\<close>

text \<open>Leaving a scope drops the handles that are still owned.\<close>

definition drop_all :: "gateway_process list \<Rightarrow> proc_event list" where
  "drop_all ps = concat (map drop_process ps)"

fun start_loop ::
  "(gateway_config \<Rightarrow> 'e + gateway_config) \<Rightarrow> (gateway_config \<Rightarrow> string \<Rightarrow> 'e + gateway_process)
   \<Rightarrow> (gateway_process \<Rightarrow> 'e + unit) \<Rightarrow> named_gateway list \<Rightarrow> gateway_process list
   \<Rightarrow> ('e + gateway_process list) \<times> proc_event list" where
  "start_loop prepare spawn ready [] ps = (Inr ps, [])"
| "start_loop prepare spawn ready (g # gs) ps =
     (case prepare (ng_config g) of
        Inl e \<Rightarrow> (Inl e, drop_all ps)
      | Inr c \<Rightarrow>
          (case spawn c (ng_label g) of
             Inl e \<Rightarrow> (Inl e, drop_all ps)
           | Inr p \<Rightarrow>
               (case ready p of
                  Inl e \<Rightarrow> (Inl e, drop_process p @ drop_all ps)
                | Inr _ \<Rightarrow> start_loop prepare spawn ready gs (ps @ [p]))))"

text \<open>Downstream first: the gateways of the plan in reverse.\<close>

definition start_gateways ::
  "(gateway_config \<Rightarrow> 'e + gateway_config) \<Rightarrow> (gateway_config \<Rightarrow> string \<Rightarrow> 'e + gateway_process)
   \<Rightarrow> (gateway_process \<Rightarrow> 'e + unit) \<Rightarrow> named_gateway list \<Rightarrow> ('e + gateway_process list) \<times> proc_event list" where
  "start_gateways prepare spawn ready gateways = start_loop prepare spawn ready (rev gateways) []"

record running_path =
  rp_ingress_addr :: string
  rp_backend_addr :: string
  rp_processes :: "gateway_process list"

definition start_path ::
  "(gateway_config \<Rightarrow> 'e + gateway_config) \<Rightarrow> (gateway_config \<Rightarrow> string \<Rightarrow> 'e + gateway_process)
   \<Rightarrow> (gateway_process \<Rightarrow> 'e + unit) \<Rightarrow> path_plan \<Rightarrow> ('e + running_path) \<times> proc_event list" where
  "start_path prepare spawn ready plan =
     (case start_gateways prepare spawn ready (pp_gateways plan) of
        (Inl e, evs) \<Rightarrow> (Inl e, evs)
      | (Inr ps, evs) \<Rightarrow>
          (Inr \<lparr>rp_ingress_addr = pp_ingress_addr plan, rp_backend_addr = pp_backend_addr plan, rp_processes = ps\<rparr>, evs))"

definition start_multi_class_path ::
  "'e \<Rightarrow> (gateway_config \<Rightarrow> 'e + gateway_config) \<Rightarrow> (gateway_config \<Rightarrow> string \<Rightarrow> 'e + gateway_process)
   \<Rightarrow> (gateway_process \<Rightarrow> 'e + unit) \<Rightarrow> multi_class_plan \<Rightarrow> ('e + running_path) \<times> proc_event list" where
  "start_multi_class_path no_paths prepare spawn ready plan =
     (case mp_paths plan of
        [] \<Rightarrow> (Inl no_paths, [])
      | first # _ \<Rightarrow>
          (case start_gateways prepare spawn ready (mp_gateways plan) of
             (Inl e, evs) \<Rightarrow> (Inl e, evs)
           | (Inr ps, evs) \<Rightarrow>
               (Inr \<lparr>rp_ingress_addr = cp_ingress_addr first, rp_backend_addr = cp_backend_addr first,
                     rp_processes = ps\<rparr>, evs)))"

definition rp_pids :: "running_path \<Rightarrow> int list" where
  "rp_pids r = map gp_pid (rp_processes r)"

definition rp_log_paths :: "running_path \<Rightarrow> string list" where
  "rp_log_paths r = map gp_log_path (rp_processes r)"

definition rp_config_paths :: "running_path \<Rightarrow> string list" where
  "rp_config_paths r = map gp_config_path (rp_processes r)"

definition rp_first_process :: "running_path \<Rightarrow> gateway_process option" where
  "rp_first_process r = (case rp_processes r of [] \<Rightarrow> None | p # _ \<Rightarrow> Some p)"

definition rp_mgmt_socket_path :: "running_path \<Rightarrow> string option" where
  "rp_mgmt_socket_path r = Option.bind (rp_first_process r) gp_mgmt_socket"

text \<open>Each process is shut down in turn; the first failure leaves the others to the drop. What the kernel
  answers to the shutdown of a process is \<open>answer\<close>.\<close>

type_synonym 'e stop_answer = "nat \<times> ('e + bool) \<times> (nat \<times> ('e + bool)) list \<times> ('e + bool)"

definition shutdown_with :: "'e stop_answer \<Rightarrow> gateway_process \<Rightarrow> (proc_event list \<times> ('e + unit)) option" where
  "shutdown_with ans p = (case ans of (start, before, turns, after) \<Rightarrow> shutdown start before turns after p)"

fun shutdown_all :: "(gateway_process \<Rightarrow> 'e stop_answer) \<Rightarrow> gateway_process list \<Rightarrow> (proc_event list \<times> ('e + unit)) option" where
  "shutdown_all answer [] = Some ([], Inr ())"
| "shutdown_all answer (p # ps) =
     (case shutdown_with (answer p) p of
        None \<Rightarrow> None
      | Some (evs, Inl e) \<Rightarrow> Some (evs @ drop_all ps, Inl e)
      | Some (evs, Inr _) \<Rightarrow> map_option (\<lambda>(evs', r). (evs @ evs', r)) (shutdown_all answer ps))"

section \<open>Accepting forwarded connections\<close>

text \<open>A turn of the accept loop: the clock, then what \<open>accept\<close> gave, and for a connection whether its socket
  options could be set and what peeking one byte gave.\<close>

record 'c accept_turn =
  at_now :: nat
  at_answer :: "io_error + 'c \<times> (io_error + unit) \<times> (io_error + nat)"

fun accept_forwarded_on :: "nat \<Rightarrow> 'c accept_turn list \<Rightarrow> (io_error + 'c) option" where
  "accept_forwarded_on deadline [] = None"
| "accept_forwarded_on deadline (t # ts) =
     (if deadline \<le> at_now t then Some (Inl TimedOut)
      else (case at_answer t of
              Inl WouldBlock \<Rightarrow> accept_forwarded_on deadline ts
            | Inl e \<Rightarrow> Some (Inl e)
            | Inr (c, Inl e, _) \<Rightarrow> Some (Inl e)
            | Inr (c, Inr _, Inl e) \<Rightarrow>
                if e = WouldBlock \<or> e = TimedOut then Some (Inr c) else Some (Inl e)
            | Inr (c, Inr _, Inr n) \<Rightarrow> if n = 0 then accept_forwarded_on deadline ts else Some (Inr c)))"

text \<open>The transparent transport keeps a connection whose peek fails in any way.\<close>

fun tproxy_accept_forwarded :: "nat \<Rightarrow> 'c accept_turn list \<Rightarrow> (io_error + 'c) option" where
  "tproxy_accept_forwarded deadline [] = None"
| "tproxy_accept_forwarded deadline (t # ts) =
     (if deadline \<le> at_now t then Some (Inl TimedOut)
      else (case at_answer t of
              Inl WouldBlock \<Rightarrow> tproxy_accept_forwarded deadline ts
            | Inl e \<Rightarrow> Some (Inl e)
            | Inr (c, Inl e, _) \<Rightarrow> Some (Inl e)
            | Inr (c, Inr _, Inl _) \<Rightarrow> Some (Inr c)
            | Inr (c, Inr _, Inr n) \<Rightarrow> if n = 0 then tproxy_accept_forwarded deadline ts else Some (Inr c)))"

text \<open>Discarding what the readiness probes left: a turn is what \<open>accept\<close> gave and the clock behind it.\<close>

fun drain_readiness_probes :: "nat \<Rightarrow> ((io_error + unit) \<times> nat) list \<Rightarrow> (io_error + unit) option" where
  "drain_readiness_probes deadline [] = None"
| "drain_readiness_probes deadline ((ans, now) # ts) =
     (case ans of
        Inr _ \<Rightarrow> drain_readiness_probes deadline ts
      | Inl WouldBlock \<Rightarrow> if deadline \<le> now then Some (Inr ()) else drain_readiness_probes deadline ts
      | Inl e \<Rightarrow> Some (Inl e))"

section \<open>The connection-rate harness\<close>

definition conn_message_bytes :: "u32 \<Rightarrow> u32" where
  "conn_message_bytes msg_bytes = max msg_bytes (of_nat HEADER_LEN)"

definition conn_probe :: "u64 \<Rightarrow> u32 \<Rightarrow> (u8 list \<times> nat) option" where
  "conn_probe now msg_bytes =
     encode_message_at 0 (msg_bytes - of_nat HEADER_LEN) now (replicate (unat msg_bytes) 0)"

text \<open>One connection: connect, write the probe, read; the clock before and after. The result of the read is
  not looked at.\<close>

definition connect_once :: "u64 \<Rightarrow> 'e + unit \<Rightarrow> 'e + unit \<Rightarrow> 'e + nat \<Rightarrow> u64 \<Rightarrow> 'e + u64" where
  "connect_once start tcp_connected written read_back now =
     (case tcp_connected of
        Inl e \<Rightarrow> Inl e
      | Inr _ \<Rightarrow> (case written of Inl e \<Rightarrow> Inl e | Inr _ \<Rightarrow> Inr (sat_sub now start)))"

text \<open>The acceptor: how many connections it has served when it ends; a turn is the stop flag and the answer
  of \<open>accept\<close>.\<close>

fun serve_loop :: "(bool \<times> (io_error + unit)) list \<Rightarrow> nat option" where
  "serve_loop [] = None"
| "serve_loop ((stop, ans) # ts) =
     (if stop then Some 0
      else (case ans of
              Inr _ \<Rightarrow> map_option Suc (serve_loop ts)
            | Inl WouldBlock \<Rightarrow> serve_loop ts
            | Inl _ \<Rightarrow> Some 0))"

section \<open>Traffic classes of one transport\<close>

record 'l class_entry =
  ce_class :: string
  ce_ingress_addr :: string
  ce_backend :: 'l

definition class_entries :: "class_path list \<Rightarrow> 'l list \<Rightarrow> 'l class_entry list" where
  "class_entries paths backends =
     map (\<lambda>(path, backend). \<lparr>ce_class = cp_class path, ce_ingress_addr = cp_ingress_addr path, ce_backend = backend\<rparr>)
       (zip paths backends)"

definition entry_for_class :: "'l class_entry list \<Rightarrow> string \<Rightarrow> 'l class_entry option" where
  "entry_for_class entries cls = find (\<lambda>e. ce_class e = cls) entries"

section \<open>Transparent interception\<close>

definition iptables_bin :: "address_family \<Rightarrow> string" where
  "iptables_bin f = (if is_ipv6 f then ''ip6tables'' else ''iptables'')"

definition local_route_prefix :: "address_family \<Rightarrow> string" where
  "local_route_prefix f = (if is_ipv6 f then ''::/0'' else ''0/0'')"

definition ip_args :: "address_family \<Rightarrow> string list" where
  "ip_args f = (if is_ipv6 f then [''-6''] else [])"

type_synonym command = "string list"

definition new_chain_command :: "address_family \<Rightarrow> command" where
  "new_chain_command f = [iptables_bin f, ''-t'', ''mangle'', ''-N'', ''DIVERT'']"

definition setup_commands :: "u16 \<Rightarrow> u16 \<Rightarrow> address_family \<Rightarrow> command list" where
  "setup_commands listen_port gateway_port f =
     (let ipt = iptables_bin f in
      [[''ip''] @ ip_args f @ [''rule'', ''add'', ''fwmark'', ''1'', ''lookup'', ''100''],
       [''ip''] @ ip_args f @ [''route'', ''add'', ''local'', local_route_prefix f, ''dev'', ''lo'', ''table'', ''100''],
       [ipt, ''-t'', ''mangle'', ''-F'', ''DIVERT''],
       [ipt, ''-t'', ''mangle'', ''-A'', ''DIVERT'', ''-j'', ''MARK'', ''--set-mark'', ''0x1''],
       [ipt, ''-t'', ''mangle'', ''-A'', ''DIVERT'', ''-j'', ''ACCEPT''],
       [ipt, ''-t'', ''mangle'', ''-A'', ''PREROUTING'', ''-p'', ''tcp'', ''-m'', ''socket'', ''-j'', ''DIVERT''],
       [ipt, ''-t'', ''mangle'', ''-A'', ''PREROUTING'', ''-p'', ''tcp'', ''--dport'', show_word listen_port, ''-j'', ''TPROXY'',
        ''--on-port'', show_word gateway_port, ''--tproxy-mark'', ''0x1/0x1'']])"

definition teardown_commands :: "u16 \<Rightarrow> u16 \<Rightarrow> address_family \<Rightarrow> command list" where
  "teardown_commands listen_port gateway_port f =
     (let ipt = iptables_bin f in
      [[ipt, ''-t'', ''mangle'', ''-D'', ''PREROUTING'', ''-p'', ''tcp'', ''--dport'', show_word listen_port, ''-j'', ''TPROXY'',
        ''--on-port'', show_word gateway_port, ''--tproxy-mark'', ''0x1/0x1''],
       [ipt, ''-t'', ''mangle'', ''-D'', ''PREROUTING'', ''-p'', ''tcp'', ''-m'', ''socket'', ''-j'', ''DIVERT''],
       [ipt, ''-t'', ''mangle'', ''-F'', ''DIVERT''],
       [ipt, ''-t'', ''mangle'', ''-X'', ''DIVERT''],
       [''ip''] @ ip_args f @ [''route'', ''del'', ''local'', local_route_prefix f, ''dev'', ''lo'', ''table'', ''100''],
       [''ip''] @ ip_args f @ [''rule'', ''del'', ''fwmark'', ''1'', ''lookup'', ''100'']])"

text \<open>Running commands up to the first that fails: those that were run, and whether all succeeded.\<close>

fun run_strict :: "(command \<Rightarrow> bool) \<Rightarrow> command list \<Rightarrow> command list \<times> bool" where
  "run_strict ok [] = ([], True)"
| "run_strict ok (c # cs) =
     (if ok c then (case run_strict ok cs of (run, r) \<Rightarrow> (c # run, r)) else ([c], False))"

text \<open>Only a complete setup yields the guard whose drop tears the rules down.\<close>

record tproxy_rules =
  tr_listen_port :: u16
  tr_gateway_port :: u16
  tr_family :: address_family

definition tproxy_setup :: "(command \<Rightarrow> bool) \<Rightarrow> u16 \<Rightarrow> u16 \<Rightarrow> address_family \<Rightarrow> command list \<times> tproxy_rules option" where
  "tproxy_setup ok listen_port gateway_port f =
     (case run_strict ok (setup_commands listen_port gateway_port f) of
        (run, True) \<Rightarrow> (new_chain_command f # run,
          Some \<lparr>tr_listen_port = listen_port, tr_gateway_port = gateway_port, tr_family = f\<rparr>)
      | (run, False) \<Rightarrow> (new_chain_command f # run, None))"

definition tproxy_drop :: "tproxy_rules \<Rightarrow> command list" where
  "tproxy_drop r = teardown_commands (tr_listen_port r) (tr_gateway_port r) (tr_family r)"

definition single_transparent_routing_plan :: "u16 \<Rightarrow> string \<Rightarrow> address_family \<Rightarrow> path_plan" where
  "single_transparent_routing_plan gw_port backend_addr f =
     (let gw_addr = loopback_socket f gw_port;
          rule = rule_param ''transparent'' (JBool True)
            (rule_security ''routing'' (rule_config_new ''tproxy-encrypt'' ''encrypt'' gw_addr backend_addr))
      in \<lparr>pp_ingress_addr = gw_addr, pp_backend_addr = backend_addr,
          pp_gateways = [\<lparr>ng_label = ''scg'',
            ng_config = allow_all (with_log_level ''info'' (gateway_config_new [rule]))\<rparr>]\<rparr>)"

definition retarget :: "string \<Rightarrow> rule_config \<Rightarrow> rule_config" where
  "retarget gw_addr r =
     (if ru_direction r = ''encrypt'' then rule_param ''transparent'' (JBool True) (r\<lparr>ru_listen_addr := gw_addr\<rparr>) else r)"

definition retarget_gateway :: "string \<Rightarrow> named_gateway \<Rightarrow> named_gateway" where
  "retarget_gateway gw_addr g =
     g\<lparr>ng_config := (ng_config g)\<lparr>gc_rules := map (retarget gw_addr) (gc_rules (ng_config g))\<rparr>\<rparr>"

datatype 'e tproxy_error = NoEncryptRule | TproxyIo 'e | NoCapability

definition build_transparent_plan ::
  "(u16 \<Rightarrow> bool) \<Rightarrow> 'e + u16 \<Rightarrow> security_spec \<Rightarrow> path_topology \<Rightarrow> u16 \<Rightarrow> string \<Rightarrow> nat \<Rightarrow> u16
   \<Rightarrow> ('e tproxy_error + path_plan) \<times> u16" where
  "build_transparent_plan free ephemeral s topo gw_port backend_addr connections nxt =
     (case build_path free ephemeral s topo backend_addr connections nxt of
        (Inl e, nxt) \<Rightarrow> (Inl (TproxyIo e), nxt)
      | (Inr plan, nxt) \<Rightarrow>
          (if list_ex (\<lambda>g. list_ex (\<lambda>r. ru_direction r = ''encrypt'') (gc_rules (ng_config g))) (pp_gateways plan)
           then (Inr (plan\<lparr>pp_gateways := map (retarget_gateway (loopback_socket (se_address_family s) gw_port))
                        (pp_gateways plan)\<rparr>), nxt)
           else (Inl NoEncryptRule, nxt)))"

definition tproxy_plan ::
  "(u16 \<Rightarrow> bool) \<Rightarrow> 'e + u16 \<Rightarrow> security_spec \<Rightarrow> path_topology \<Rightarrow> u16 \<Rightarrow> string \<Rightarrow> nat \<Rightarrow> u16
   \<Rightarrow> ('e tproxy_error + path_plan) \<times> u16" where
  "tproxy_plan free ephemeral s topo gw_port backend_addr connections nxt =
     (if se_provider s = ''routing'' \<and> topo = SingleGateway
      then (Inr (single_transparent_routing_plan gw_port backend_addr (se_address_family s)), nxt)
      else build_transparent_plan free ephemeral s topo gw_port backend_addr connections nxt)"
section \<open>Properties\<close>

text \<open>What a failed start leaves behind: every process that came up is killed, waited for and cleaned up.\<close>

definition reaped :: "gateway_process \<Rightarrow> proc_event list \<Rightarrow> bool" where
  "reaped p evs =
     (Signal (gp_pid p) SIGKILL \<in> set evs \<and> Wait \<in> set evs \<and> Remove (gp_config_path p) \<in> set evs
      \<and> (case gp_mgmt_socket p of Some s \<Rightarrow> Remove s \<in> set evs | None \<Rightarrow> True))"

lemma reaped_drop: "\<not> gp_finished p \<Longrightarrow> reaped p (drop_process p)"
  by (auto simp: reaped_def drop_process_def cleanup_def split: option.split)

lemma reaped_mono: "reaped p evs \<Longrightarrow> set evs \<subseteq> set evs' \<Longrightarrow> reaped p evs'"
  by (auto simp: reaped_def split: option.splits)

lemma reaped_drop_all: "p \<in> set ps \<Longrightarrow> \<not> gp_finished p \<Longrightarrow> reaped p (drop_all ps)"
  by (rule reaped_mono [OF reaped_drop]) (auto simp: drop_all_def)

text \<open>The processes \<open>spawn\<close> was asked for and delivered before the loop ended.\<close>

fun launched ::
  "(gateway_config \<Rightarrow> 'e + gateway_config) \<Rightarrow> (gateway_config \<Rightarrow> string \<Rightarrow> 'e + gateway_process)
   \<Rightarrow> (gateway_process \<Rightarrow> 'e + unit) \<Rightarrow> named_gateway list \<Rightarrow> gateway_process list" where
  "launched prepare spawn ready [] = []"
| "launched prepare spawn ready (g # gs) =
     (case prepare (ng_config g) of
        Inl e \<Rightarrow> []
      | Inr c \<Rightarrow>
          (case spawn c (ng_label g) of
             Inl e \<Rightarrow> []
           | Inr p \<Rightarrow> p # (case ready p of Inl e \<Rightarrow> [] | Inr _ \<Rightarrow> launched prepare spawn ready gs)))"

lemma start_loop_result:
  "(case start_loop prepare spawn ready gs ps of
      (Inr qs, evs) \<Rightarrow> qs = ps @ launched prepare spawn ready gs \<and> length qs = length ps + length gs \<and> evs = []
    | (Inl e, evs) \<Rightarrow> set evs = (\<Union>p\<in>set (ps @ launched prepare spawn ready gs). set (drop_process p)))"
proof (induction gs arbitrary: ps)
  case (Cons g gs)
  show ?case
  proof (cases "prepare (ng_config g)")
    case c: (Inr c)
    show ?thesis
    proof (cases "spawn c (ng_label g)")
      case p: (Inr p)
      show ?thesis
      proof (cases "ready p")
        case (Inr u)
        then show ?thesis using Cons.IH [of "ps @ [p]"] c p by (auto split: prod.splits sum.splits)
      qed (use c p in \<open>auto simp: drop_all_def\<close>)
    qed (use c in \<open>auto simp: drop_all_def\<close>)
  qed (auto simp: drop_all_def)
qed simp

text \<open>
  Starting the gateways of a path is all or nothing: they come up in reverse, the decrypting side first,
  and either all of them run and are owned by the path, or the start fails and every process that was launched
  on the way has been killed, waited for and its files removed.
\<close>

theorem start_all_or_nothing:
  assumes "\<And>c l p. spawn c l = Inr p \<Longrightarrow> \<not> gp_finished p"
  shows "case start_gateways prepare spawn ready gateways of
      (Inr ps, evs) \<Rightarrow> ps = launched prepare spawn ready (rev gateways) \<and> length ps = length gateways \<and> evs = []
    | (Inl e, evs) \<Rightarrow> list_all (\<lambda>p. reaped p evs) (launched prepare spawn ready (rev gateways))"
proof -
  have running: "p \<in> set (launched prepare spawn ready gs) \<Longrightarrow> \<not> gp_finished p" for p gs
    by (induction gs) (use assms in \<open>auto split: sum.splits\<close>)
  have "reaped p evs" if "p \<in> set (launched prepare spawn ready (rev gateways))"
    and "set evs = (\<Union>p\<in>set (launched prepare spawn ready (rev gateways)). set (drop_process p))" for p evs
    using that by (intro reaped_mono [OF reaped_drop [OF running [OF that(1)]]]) auto
  then show ?thesis
    using start_loop_result [where ps = "[]" and gs = "rev gateways" and prepare = prepare and spawn = spawn and ready = ready]
    by (auto simp: start_gateways_def list_all_iff split: prod.splits sum.splits)
qed

theorem start_all_or_nothing_witness:
  "let spawn = (\<lambda>c l. Inr (spawned c ''/w'' l (if l = ''scg-b'' then 7 else 8)));
       gateways = [\<lparr>ng_label = ''scg-a'', ng_config = gateway_config_new []\<rparr>, \<lparr>ng_label = ''scg-b'', ng_config = gateway_config_new []\<rparr>];
       evs = snd (start_gateways Inr spawn (\<lambda>p. if gp_pid p = 8 then Inl ''late'' else Inr ()) gateways)
   in list_all (\<lambda>p. reaped p evs) [spawned (gateway_config_new []) ''/w'' ''scg-b'' 7, spawned (gateway_config_new []) ''/w'' ''scg-a'' 8]"
proof -
  let ?spawn = "\<lambda>c l. Inr (spawned c ''/w'' l (if l = ''scg-b'' then 7 else 8)) :: string + gateway_process"
  have "\<And>c l p. ?spawn c l = Inr p \<Longrightarrow> \<not> gp_finished p" by (auto simp: spawned_def)
  note start_all_or_nothing [where spawn = ?spawn and prepare = Inr and ready = "\<lambda>p. if gp_pid p = 8 then Inl ''late'' else Inr ()",
      OF this, where gateways = "[\<lparr>ng_label = ''scg-a'', ng_config = gateway_config_new []\<rparr>, \<lparr>ng_label = ''scg-b'', ng_config = gateway_config_new []\<rparr>]"]
  then show ?thesis by (simp add: Let_def start_gateways_def spawned_def)
qed
definition turn_conn :: "'c accept_turn \<Rightarrow> 'c option" where
  "turn_conn t =
     (case at_answer t of
        Inr (c, Inr _, Inl e) \<Rightarrow> if e = WouldBlock \<or> e = TimedOut then Some c else None
      | Inr (c, Inr _, Inr n) \<Rightarrow> if 0 < n then Some c else None
      | _ \<Rightarrow> None)"

definition turn_passed :: "'c accept_turn \<Rightarrow> bool" where
  "turn_passed t =
     (case at_answer t of
        Inl e \<Rightarrow> e = WouldBlock
      | Inr (c, Inr _, Inr n) \<Rightarrow> n = 0
      | _ \<Rightarrow> False)"

lemma accept_step:
  "accept_forwarded_on deadline (t # ts) =
     (if deadline \<le> at_now t then Some (Inl TimedOut)
      else if turn_passed t then accept_forwarded_on deadline ts
      else Some (case turn_conn t of Some c \<Rightarrow> Inr c
        | None \<Rightarrow> Inl (case at_answer t of Inl e \<Rightarrow> e | Inr (c, Inl e, _) \<Rightarrow> e | Inr (c, Inr _, Inl e) \<Rightarrow> e | _ \<Rightarrow> TimedOut)))"
  by (auto simp: turn_passed_def turn_conn_def split: sum.split io_error.split)

declare accept_forwarded_on.simps(2) [simp del]

text \<open>
  A transport never hands out a connection the gateway has already closed, and never passes over a live
  one: the connection accepted is that of the first turn before the deadline whose connection has data or is
  idle, every turn before it having brought no connection or one at its end.
\<close>

theorem accept_first_live:
  "accept_forwarded_on deadline ts = Some (Inr c) \<longleftrightarrow>
     (\<exists>pre t post. ts = pre @ t # post \<and> list_all (\<lambda>t. at_now t < deadline \<and> turn_passed t) pre
        \<and> at_now t < deadline \<and> \<not> turn_passed t \<and> turn_conn t = Some c)"
proof (induction ts)
  case (Cons t ts)
  show ?case (is "_ \<longleftrightarrow> ?live (t # ts)")
  proof (cases "at_now t < deadline \<and> turn_passed t")
    case True
    have "?live (t # ts) \<longleftrightarrow> ?live ts"
    proof
      assume "?live (t # ts)"
      then obtain pre u post where "t # ts = pre @ u # post" "list_all (\<lambda>t. at_now t < deadline \<and> turn_passed t) pre"
        "at_now u < deadline \<and> \<not> turn_passed u \<and> turn_conn u = Some c" by blast
      then show "?live ts" using True by (cases pre) auto
    next
      assume "?live ts"
      then obtain pre u post where "ts = pre @ u # post" "list_all (\<lambda>t. at_now t < deadline \<and> turn_passed t) pre"
        "at_now u < deadline \<and> \<not> turn_passed u \<and> turn_conn u = Some c" by blast
      then show "?live (t # ts)" using True by (intro exI [of _ "t # pre"] exI [of _ u] exI [of _ post]) simp
    qed
    then show ?thesis using Cons.IH True by (simp add: accept_step)
  next
    case False
    then have "?live (t # ts) \<longleftrightarrow> at_now t < deadline \<and> \<not> turn_passed t \<and> turn_conn t = Some c"
      by (auto simp: Cons_eq_append_conv intro: exI [of _ "[]"])
    then show ?thesis using False by (auto simp: accept_step split: option.splits)
  qed
qed simp

lemma accept_returns: "t \<in> set ts \<Longrightarrow> deadline \<le> at_now t \<Longrightarrow> accept_forwarded_on deadline ts \<noteq> None"
  by (induction ts) (auto simp: accept_step)

text \<open>The drain looks at its deadline only when no connection waits: as long as probes keep arriving it goes
  on, however late it is.\<close>

lemma drain_unbounded: "drain_readiness_probes deadline (replicate n (Inr (), deadline + k)) = None"
  by (induction n) simp_all

lemma drain_ok:
  "drain_readiness_probes deadline ts = Some (Inr ()) \<Longrightarrow>
     \<exists>pre now post. ts = pre @ (Inl WouldBlock, now) # post \<and> deadline \<le> now"
proof (induction ts)
  case (Cons x ts)
  obtain ans now where x: "x = (ans, now)" by (cases x)
  have "ans = Inl WouldBlock \<and> deadline \<le> now \<or> drain_readiness_probes deadline ts = Some (Inr ())"
    using Cons.prems by (auto simp: x split: sum.splits io_error.splits if_splits)
  then show ?case
  proof
    assume "ans = Inl WouldBlock \<and> deadline \<le> now"
    then show ?thesis unfolding x by blast
  next
    assume "drain_readiness_probes deadline ts = Some (Inr ())"
    then obtain pre n post where "ts = pre @ (Inl WouldBlock, n) # post \<and> deadline \<le> n"
      using Cons.IH by blast
    then show ?thesis by (intro exI [of _ "x # pre"]) auto
  qed
qed simp

text \<open>A connection whose path never completes is measured like any other: what reading back gave, an error or
  a timeout, does not count.\<close>

lemma connect_once_ignores_read: "connect_once start (Inr ()) (Inr ()) (Inl e) now = Inr (sat_sub now start)"
  by (simp add: connect_once_def)

text \<open>The classes of a transport.\<close>

lemma entry_for_class_found:
  assumes "length backends = length paths" "i < length paths" "distinct (map cp_class paths)"
  shows "entry_for_class (class_entries paths backends) (cp_class (paths ! i))
     = Some \<lparr>ce_class = cp_class (paths ! i), ce_ingress_addr = cp_ingress_addr (paths ! i), ce_backend = backends ! i\<rparr>"
  using assms
  by (auto simp: entry_for_class_def class_entries_def find_Some_iff distinct_conv_nth intro!: exI [of _ i])

text \<open>What a command adds, its inverse deletes; the commands on the \<open>DIVERT\<close> chain are its own.\<close>

definition undo :: "command \<Rightarrow> command" where
  "undo c = map (\<lambda>w. if w = ''-A'' then ''-D'' else if w = ''add'' then ''del'' else w) c"

definition on_chain :: "command \<Rightarrow> bool" where
  "on_chain c = (c ! 4 = ''DIVERT'')"

lemma show_word_not [simp]: "show_word w \<noteq> CHR ''-'' # cs" "show_word w \<noteq> CHR ''a'' # cs" "show_word w \<noteq> CHR ''D'' # cs"
  using show_nat_digits [of "unat w"] by (auto simp: show_word_def is_digit_def)

text \<open>
  The interception rules are taken down as they were put up: outside the chain of its own, the teardown
  runs exactly the inverse of every command of the setup, in reverse order, and it flushes and deletes the chain
  after the jump to it is gone.
\<close>

theorem tproxy_teardown_undoes:
  "filter (\<lambda>c. \<not> on_chain c) (teardown_commands lp gp f) = rev (map undo (filter (\<lambda>c. \<not> on_chain c) (setup_commands lp gp f)))
   \<and> filter on_chain (teardown_commands lp gp f)
       = [[iptables_bin f, ''-t'', ''mangle'', ''-F'', ''DIVERT''], [iptables_bin f, ''-t'', ''mangle'', ''-X'', ''DIVERT'']]
   \<and> takeWhile (\<lambda>c. \<not> on_chain c) (teardown_commands lp gp f) = map undo (rev (drop 5 (setup_commands lp gp f)))"
  by (simp add: teardown_commands_def setup_commands_def Let_def on_chain_def undo_def ip_args_def iptables_bin_def
      local_route_prefix_def)

text \<open>A setup that fails half way leaves the rules it added: there is no guard to drop.\<close>

lemma tproxy_setup_leaks:
  "\<exists>ok run. tproxy_setup ok lp gp f = (run, None)
     \<and> list_all (\<lambda>c. c \<in> set run \<and> ok c) (take 2 (setup_commands lp gp f))"
proof -
  let ?ok = "\<lambda>c. \<not> on_chain c"
  have "run_strict ?ok (setup_commands lp gp f) = (take 3 (setup_commands lp gp f), False)"
    by (simp add: setup_commands_def Let_def on_chain_def ip_args_def iptables_bin_def local_route_prefix_def)
  then have "tproxy_setup ?ok lp gp f = (new_chain_command f # take 3 (setup_commands lp gp f), None)"
    by (simp add: tproxy_setup_def)
  moreover have "list_all (\<lambda>c. c \<in> set (new_chain_command f # take 3 (setup_commands lp gp f)) \<and> ?ok c)
      (take 2 (setup_commands lp gp f))"
    by (simp add: setup_commands_def Let_def on_chain_def ip_args_def local_route_prefix_def)
  ultimately show ?thesis by blast
qed
text \<open>
  The transparent path is the secured path with its entry moved: building it fails only where the plan
  itself does, the one encrypt rule listens transparently on the interception port and the path behind it is
  as before, up to the backend, whatever the topology.
\<close>

theorem transparent_plan_wired:
  assumes "build_transparent_plan free eph s topo gw_port backend conns nxt = (r, nxt')"
  shows "(\<exists>e. r = Inl (TproxyIo e) \<and> build_path free eph s topo backend conns nxt = (Inl e, nxt'))
    \<or> (\<exists>plan e d mid. r = Inr plan
        \<and> gateway_rules (pp_gateways plan) = (case topo of SingleGateway \<Rightarrow> [[e, d]] | ScgToScg \<Rightarrow> [[e], [d]])
        \<and> ru_listen_addr e = loopback_socket (se_address_family s) gw_port
        \<and> ru_provider_params e ''transparent'' = Some (JBool True)
        \<and> ru_upstream_addr e = mid \<and> ru_listen_addr d = mid \<and> ru_upstream_addr d = backend
        \<and> ru_direction d = ''decrypt'' \<and> pp_backend_addr plan = backend)"
proof (cases "build_path free eph s topo backend conns nxt")
  case (Pair res n)
  show ?thesis
  proof (cases res)
    case (Inl e)
    then show ?thesis using assms Pair by (simp add: build_transparent_plan_def)
  next
    case (Inr plan)
    then obtain p1 p2 e d where
      ed: "build_rule_pair s ''seshat-encrypt'' ''seshat-decrypt'' (loopback_socket (se_address_family s) p1)
            (loopback_socket (se_address_family s) p2) backend = (e, d)" and
      pl: "plan = \<lparr>pp_ingress_addr = loopback_socket (se_address_family s) p1, pp_backend_addr = backend,
            pp_gateways = gateways_for_topology topo [e] [d] conns\<rparr>"
      using Pair by (auto simp: build_path_def Let_def split: prod.splits sum.splits)
    let ?gw = "loopback_socket (se_address_family s) gw_port"
    have w: "pair_wired s ''seshat-encrypt'' ''seshat-decrypt'' (loopback_socket (se_address_family s) p1)
        (loopback_socket (se_address_family s) p2) backend (e, d)"
      using build_rule_pair_wired [of s "''seshat-encrypt''" "''seshat-decrypt''"] unfolding ed [symmetric] .
    then have dirs: "ru_direction e = ''encrypt''" "ru_direction d = ''decrypt''"
      and addrs: "ru_upstream_addr e = ru_listen_addr d" "ru_upstream_addr d = backend"
      by (simp_all add: pair_wired_def)
    have rules: "gateway_rules (map (retarget_gateway ?gw) (pp_gateways plan))
        = map (map (retarget ?gw)) (gateway_rules (pp_gateways plan))"
      by (simp add: gateway_rules_def retarget_gateway_def comp_def)
    have enc: "list_ex (\<lambda>g. list_ex (\<lambda>r. ru_direction r = ''encrypt'') (gc_rules (ng_config g))) (pp_gateways plan)"
      using dirs by (auto simp: pl gateways_for_topology_def Let_def pool_for_connections_def allow_all_def
          with_log_level_def gateway_config_new_def split: path_topology.split)
    have d: "retarget ?gw d = d" using dirs by (simp add: retarget_def)
    have e: "ru_listen_addr (retarget ?gw e) = ?gw" "ru_upstream_addr (retarget ?gw e) = ru_listen_addr d"
      "ru_provider_params (retarget ?gw e) ''transparent'' = Some (JBool True)"
      using dirs addrs by (simp_all add: retarget_def rule_param_def)
    have r: "r = Inr (plan\<lparr>pp_gateways := map (retarget_gateway ?gw) (pp_gateways plan)\<rparr>)"
      using assms Pair Inr enc by (simp add: build_transparent_plan_def)
    have "gateway_rules (map (retarget_gateway ?gw) (pp_gateways plan))
        = (case topo of SingleGateway \<Rightarrow> [[retarget ?gw e, d]] | ScgToScg \<Rightarrow> [[retarget ?gw e], [d]])"
      unfolding rules by (simp add: pl gateways_for_topology_rules d split: path_topology.split)
    then show ?thesis
      using r e addrs dirs by (intro disjI2 exI [of _ "plan\<lparr>pp_gateways := map (retarget_gateway ?gw) (pp_gateways plan)\<rparr>"]
          exI [of _ "retarget ?gw e"] exI [of _ d] exI [of _ "ru_listen_addr d"]) (simp add: pl)
  qed
qed

theorem transparent_plan_wired_witness:
  "\<exists>r nxt'. build_transparent_plan (\<lambda>p. True) (Inl ''none'') routing_tcp ScgToScg 19001 ''127.0.0.1:5'' 1 0 = (r, nxt')
     \<and> (\<exists>plan e d. r = Inr plan \<and> gateway_rules (pp_gateways plan) = [[e], [d]] \<and> ru_upstream_addr d = ''127.0.0.1:5'')"
proof -
  obtain r nxt' where b: "build_transparent_plan (\<lambda>p. True) (Inl ''none'') routing_tcp ScgToScg 19001 ''127.0.0.1:5'' 1 0 = (r, nxt')"
    by fastforce
  have "fst (build_path (\<lambda>p. True) (Inl ''none'') routing_tcp ScgToScg ''127.0.0.1:5'' 1 0) \<noteq> Inl e" for e :: string
  proof -
    obtain n where "unat PORT_RANGE = Suc n" by (simp add: PORT_RANGE_def)
    then have "\<exists>p n'. reserve_local_port_for (\<lambda>p. True) (Inl ''none'' :: string + u16) k = (Inr p, n')" for k
      by (simp add: reserve_local_port_for_def Let_def)
    then show ?thesis
      by (auto simp: build_path_def Let_def split: prod.splits sum.splits) (metis Inl_Inr_False prod.inject)+
  qed
  then have "\<not> (\<exists>e. r = Inl (TproxyIo e) \<and> build_path (\<lambda>p. True) (Inl ''none'') routing_tcp ScgToScg ''127.0.0.1:5'' 1 0 = (Inl e, nxt'))"
    by (metis fst_conv)
  then show ?thesis using transparent_plan_wired [OF b] b by auto
qed

text \<open>The probe the connection-rate client writes is one whole message.\<close>

lemma conn_probe_valid:
  "\<exists>b. conn_probe now (conn_message_bytes mb) = Some (b, unat (conn_message_bytes mb))
     \<and> decode_message b = Inr (stamp_at 0 (conn_message_bytes mb - of_nat HEADER_LEN) now)"
proof -
  let ?m = "conn_message_bytes mb"
  have ge: "of_nat HEADER_LEN \<le> ?m" by (simp add: conn_message_bytes_def)
  have h: "unat (of_nat HEADER_LEN :: u32) = HEADER_LEN" by (simp add: HEADER_LEN_def)
  have len: "HEADER_LEN + unat (?m - of_nat HEADER_LEN) = unat ?m"
    using ge h by (simp add: unat_sub word_le_nat_alt)
  then have "conn_probe now ?m = Some (message_bytes (stamp_at 0 (?m - of_nat HEADER_LEN) now), unat ?m)"
    by (simp add: conn_probe_def encode_message_at_eq)
  then show ?thesis using decode_message_bytes [of _ "[]"] by simp
qed

end
