(* ===== verification/Sysinfo.thy ===== *)
theory Sysinfo
  imports System_Metrics Schema
begin

text \<open>
  The host fingerprint of \<open>src/src/sysinfo.rs\<close>: everything \<open>SysInfo::collect\<close> reads from \<open>/proc\<close> and
  \<open>/sys\<close>, the warnings of the preflight check and the formatting helpers. The files are an argument, and
  so are the answers of the probes (the kernel TLS socket, git, the parallelism of the standard library).
  Printing the table and the JSON text are not modelled.
\<close>

section \<open>Reading the files\<close>

definition read_trim :: "procfs \<Rightarrow> string \<Rightarrow> string option" where
  "read_trim fs path = map_option trim (pf_read fs path)"

text \<open>The first line that starts with \<open>p\<close> and has a colon behind it: what follows the colon.\<close>

fun first_value :: "string \<Rightarrow> string list \<Rightarrow> string option" where
  "first_value p [] = None"
| "first_value p (l # ls) =
     (case strip_prefix p l of
        Some v \<Rightarrow> (case split_once (CHR '':'') v of Some (_, x) \<Rightarrow> Some (trim x) | None \<Rightarrow> first_value p ls)
      | None \<Rightarrow> first_value p ls)"

definition trim_matches :: "char \<Rightarrow> string \<Rightarrow> string" where
  "trim_matches d s = rev (dropWhile (\<lambda>c. c = d) (rev (dropWhile (\<lambda>c. c = d) s)))"

fun first_stripped :: "string \<Rightarrow> string list \<Rightarrow> string option" where
  "first_stripped p [] = None"
| "first_stripped p (l # ls) = (case strip_prefix p l of Some v \<Rightarrow> Some v | None \<Rightarrow> first_stripped p ls)"

definition unwrap_or_unknown :: "string option \<Rightarrow> string" where
  "unwrap_or_unknown v = (case v of Some s \<Rightarrow> s | None \<Rightarrow> ''unknown'')"

definition os_pretty_name :: "procfs \<Rightarrow> string" where
  "os_pretty_name fs =
     unwrap_or_unknown (map_option (trim_matches DQUOTE)
       (Option.bind (pf_read fs ''/etc/os-release'') (\<lambda>text. first_stripped ''PRETTY_NAME='' (lines text))))"

definition cpu_model :: "procfs \<Rightarrow> string" where
  "cpu_model fs =
     unwrap_or_unknown (Option.bind (pf_read fs ''/proc/cpuinfo'') (\<lambda>text.
       case first_value ''model name'' (lines text) of
         Some v \<Rightarrow> Some v
       | None \<Rightarrow> first_value ''Model'' (lines text)))"

definition cpu_logical :: "procfs \<Rightarrow> nat option \<Rightarrow> nat" where
  "cpu_logical fs parallelism =
     (case parallelism of
        Some n \<Rightarrow> n
      | None \<Rightarrow>
          max 1 (case pf_read fs ''/proc/cpuinfo'' of
                   Some t \<Rightarrow> length (filter (\<lambda>l. starts_with l ''processor'') (lines t))
                 | None \<Rightarrow> 1))"

section \<open>Physical cores\<close>

type_synonym cpu_ids = "string option \<times> string option \<times> (string \<times> string) list"

definition insert_pair :: "string option \<Rightarrow> string option \<Rightarrow> (string \<times> string) list \<Rightarrow> (string \<times> string) list" where
  "insert_pair phys core pairs =
     (case (phys, core) of (Some p, Some c) \<Rightarrow> List.insert (p, c) pairs | _ \<Rightarrow> pairs)"

definition cpu_line :: "string \<Rightarrow> cpu_ids \<Rightarrow> cpu_ids" where
  "cpu_line line st =
     (let (phys, core, pairs) = st;
          (phys, core) = (case split_once (CHR '':'') line of
             Some (k, v) \<Rightarrow>
               (if trim k = ''physical id'' then (Some (trim v), core)
                else if trim k = ''core id'' then (phys, Some (trim v))
                else (phys, core))
           | None \<Rightarrow> (phys, core))
      in if trim line = [] then (None, None, insert_pair phys core pairs) else (phys, core, pairs))"

definition cpu_pairs :: "string list \<Rightarrow> (string \<times> string) list" where
  "cpu_pairs ls = (case fold cpu_line ls (None, None, []) of (phys, core, pairs) \<Rightarrow> insert_pair phys core pairs)"

definition cpu_physical :: "procfs \<Rightarrow> nat option" where
  "cpu_physical fs =
     Option.bind (pf_read fs ''/proc/cpuinfo'') (\<lambda>text.
       let pairs = cpu_pairs (lines text) in if pairs = [] then None else Some (length pairs))"

section \<open>Frequency, memory, ranges\<close>

definition cpu_mhz :: "procfs \<Rightarrow> f64 option" where
  "cpu_mhz fs =
     (case Option.bind (read_trim fs ''/sys/devices/system/cpu/cpu0/cpufreq/scaling_max_freq'') parse_f64 of
        Some khz \<Rightarrow> Some (khz / Fin 1000)
      | None \<Rightarrow>
          Option.bind (pf_read fs ''/proc/cpuinfo'') (\<lambda>text.
            Option.bind (first_value ''cpu MHz'' (lines text)) parse_f64))"

function trim_end_matches :: "string \<Rightarrow> string \<Rightarrow> string" where
  "trim_end_matches p s =
     (if p \<noteq> [] \<and> starts_with (rev s) (rev p)
      then trim_end_matches p (take (length s - length p) s) else s)"
  by pat_completeness auto
termination
proof (relation "measure (\<lambda>(p, s). length s)")
  fix p s :: string
  assume a: "p \<noteq> [] \<and> starts_with (rev s) (rev p)"
  then obtain t where "rev s = rev p @ t" by (auto simp: starts_with_iff)
  then have "length s = length p + length t" by (metis length_append length_rev)
  then show "((p, take (length s - length p) s), (p, s)) \<in> measure (\<lambda>(p, s). length s)"
    using a by (cases p) auto
qed simp

declare trim_end_matches.simps [simp del]

definition mem_total_kb :: "procfs \<Rightarrow> u64 option" where
  "mem_total_kb fs =
     Option.bind (pf_read fs ''/proc/meminfo'') (\<lambda>text.
       Option.bind (first_stripped ''MemTotal:'' (lines text)) (\<lambda>rest.
         parse_u64 (trim (trim_end_matches '' kB'' (trim rest)))))"

definition turbo_enabled :: "procfs \<Rightarrow> bool option" where
  "turbo_enabled fs =
     (case read_trim fs ''/sys/devices/system/cpu/intel_pstate/no_turbo'' of
        Some v \<Rightarrow> Some (trim v = ''0'')
      | None \<Rightarrow> map_option (\<lambda>v. trim v = ''1'') (read_trim fs ''/sys/devices/system/cpu/cpufreq/boost''))"

definition parse_usize :: "string \<Rightarrow> nat option" where
  "parse_usize s = parse_uint (2 ^ 64 - 1) s"

definition range_part :: "string \<Rightarrow> nat option" where
  "range_part part =
     (case split_once (CHR ''-'') part of
        Some (a, b) \<Rightarrow>
          (case (parse_usize (trim a), parse_usize (trim b)) of
             (Some a, Some b) \<Rightarrow> Some ((b - a) + 1)
           | _ \<Rightarrow> None)
      | None \<Rightarrow> if trim part \<noteq> [] then Some 1 else Some 0)"

fun range_parts :: "string list \<Rightarrow> nat \<Rightarrow> nat option" where
  "range_parts [] n = Some n"
| "range_parts (p # ps) n = (case range_part p of None \<Rightarrow> None | Some k \<Rightarrow> range_parts ps (n + k))"

definition parse_cpu_range_count :: "string \<Rightarrow> nat option" where
  "parse_cpu_range_count raw =
     (case range_parts (split_on (CHR '','') raw) 0 of
        Some n \<Rightarrow> if 0 < n then Some n else None
      | None \<Rightarrow> None)"

definition numa_nodes :: "procfs \<Rightarrow> nat option" where
  "numa_nodes fs = Option.bind (read_trim fs ''/sys/devices/system/node/online'') parse_cpu_range_count"

section \<open>Policies and probes\<close>

definition index_of :: "char \<Rightarrow> string \<Rightarrow> nat option" where
  "index_of d s = (if d \<in> set s then Some (length (takeWhile (\<lambda>c. c \<noteq> d) s)) else None)"

definition thp_active :: "string \<Rightarrow> string" where
  "thp_active raw =
     (case (index_of (CHR ''['') raw, index_of (CHR '']'') raw) of
        (Some a, Some b) \<Rightarrow> if a < b then take (b - (a + 1)) (drop (a + 1) raw) else raw
      | _ \<Rightarrow> raw)"

definition thp_policy :: "procfs \<Rightarrow> string option" where
  "thp_policy fs = map_option thp_active (read_trim fs ''/sys/kernel/mm/transparent_hugepage/enabled'')"

definition parse_u32 :: "string \<Rightarrow> u32 option" where
  "parse_u32 s = map_option of_nat (parse_uint (2 ^ 32 - 1) s)"

definition io_uring_available :: "string \<Rightarrow> bool option" where
  "io_uring_available release =
     (case split_if (\<lambda>c. c \<in> {CHR ''.'', CHR ''-'', CHR ''_''}) release of
        a # b # _ \<Rightarrow>
          (case (parse_u32 a, parse_u32 b) of
             (Some major, Some minor) \<Rightarrow> Some (5 < major \<or> major = 5 \<and> 1 \<le> minor)
           | _ \<Rightarrow> None)
      | _ \<Rightarrow> None)"

definition is_wsl :: "string \<Rightarrow> bool" where
  "is_wsl release = (let k = to_lower release in contains k ''microsoft'' \<or> contains k ''wsl'')"

text \<open>The probe: binding, the address, connecting, and what setting \<open>TCP_ULP\<close> returned.\<close>

definition ktls_usable :: "bool \<Rightarrow> bool \<Rightarrow> bool \<Rightarrow> int \<Rightarrow> bool" where
  "ktls_usable bound addr tcp_connected ret = (bound \<and> addr \<and> tcp_connected \<and> ret = 0)"

text \<open>What git answered: whether it succeeded and what it wrote.\<close>

definition git_short_hash :: "(bool \<times> string) option \<Rightarrow> string option" where
  "git_short_hash out =
     Option.bind out (\<lambda>(success, stdout).
       if \<not> success then None else let hash = trim stdout in if hash = [] then None else Some hash)"

section \<open>Network interfaces\<close>

record nic =
  ni_name :: string
  ni_mac :: "string option"
  ni_speed_mbps :: "int option"
  ni_mtu :: "u32 option"
  ni_operstate :: "string option"

definition parse_i64 :: "string \<Rightarrow> int option" where
  "parse_i64 s =
     (case s of
        c # cs \<Rightarrow>
          if c = CHR ''-''
          then (if cs = [] \<or> \<not> list_all is_digit cs \<or> 2 ^ 63 < digits_value cs then None
                else Some (- int (digits_value cs)))
          else map_option int (parse_uint (2 ^ 63 - 1) s)
      | [] \<Rightarrow> None)"

definition option_filter :: "('a \<Rightarrow> bool) \<Rightarrow> 'a option \<Rightarrow> 'a option" where
  "option_filter P v = Option.bind v (\<lambda>x. if P x then Some x else None)"

definition read_nic :: "procfs \<Rightarrow> string \<Rightarrow> nic" where
  "read_nic fs name =
     (let base = ''/sys/class/net/'' @ name in
      \<lparr>ni_name = name,
       ni_mac = option_filter (\<lambda>s. s \<noteq> ''00:00:00:00:00:00'') (read_trim fs (base @ ''/address'')),
       ni_speed_mbps = option_filter (\<lambda>s. 0 < s) (Option.bind (read_trim fs (base @ ''/speed'')) parse_i64),
       ni_mtu = Option.bind (read_trim fs (base @ ''/mtu'')) parse_u32,
       ni_operstate = read_trim fs (base @ ''/operstate'')\<rparr>)"

definition collect_nics :: "procfs \<Rightarrow> nic list" where
  "collect_nics fs =
     (case pf_dir fs ''/sys/class/net'' of
        None \<Rightarrow> []
      | Some entries \<Rightarrow> map (read_nic fs) (str_sort (filter (\<lambda>n. n \<noteq> ''lo'') entries)))"

section \<open>The fingerprint\<close>

record sys_info =
  si_hostname :: string
  si_os :: string
  si_kernel :: string
  si_arch :: string
  si_cpu_model :: string
  si_cpu_logical :: nat
  si_cpu_physical :: "nat option"
  si_cpu_mhz :: "f64 option"
  si_governor :: "string option"
  si_turbo :: "bool option"
  si_smt :: "bool option"
  si_isolated_cpus :: "string option"
  si_numa_nodes :: "nat option"
  si_mem_total_kb :: "u64 option"
  si_thp :: "string option"
  si_ktls :: bool
  si_ktls_usable :: bool
  si_wsl :: bool
  si_io_uring :: "bool option"
  si_nics :: "nic list"
  si_seshat_version :: string
  si_seshat_git :: "string option"
  si_scg_git :: "string option"

text \<open>What is not a file: the architecture, version and source directory baked into the binary, the existence
  of a path, and the probes.\<close>

record host_probe =
  hp_arch :: string
  hp_version :: string
  hp_manifest_dir :: string
  hp_exists :: "string \<Rightarrow> bool"
  hp_parallelism :: "nat option"
  hp_ktls_usable :: bool
  hp_git :: "string \<Rightarrow> (bool \<times> string) option"

definition sysinfo_collect :: "procfs \<Rightarrow> host_probe \<Rightarrow> sys_info" where
  "sysinfo_collect fs h =
     (let release = unwrap_or_unknown (read_trim fs ''/proc/sys/kernel/osrelease'') in
      \<lparr>si_hostname = unwrap_or_unknown (read_trim fs ''/proc/sys/kernel/hostname''),
       si_os = os_pretty_name fs, si_kernel = release, si_arch = hp_arch h, si_cpu_model = cpu_model fs,
       si_cpu_logical = cpu_logical fs (hp_parallelism h), si_cpu_physical = cpu_physical fs,
       si_cpu_mhz = cpu_mhz fs,
       si_governor = read_trim fs ''/sys/devices/system/cpu/cpu0/cpufreq/scaling_governor'',
       si_turbo = turbo_enabled fs,
       si_smt = map_option (\<lambda>v. v = ''1'') (read_trim fs ''/sys/devices/system/cpu/smt/active''),
       si_isolated_cpus = option_filter (\<lambda>s. s \<noteq> []) (read_trim fs ''/sys/devices/system/cpu/isolated''),
       si_numa_nodes = numa_nodes fs, si_mem_total_kb = mem_total_kb fs, si_thp = thp_policy fs,
       si_ktls = hp_exists h ''/sys/module/tls'', si_ktls_usable = hp_ktls_usable h, si_wsl = is_wsl release,
       si_io_uring = io_uring_available release, si_nics = collect_nics fs, si_seshat_version = hp_version h,
       si_seshat_git = git_short_hash (hp_git h (hp_manifest_dir h)),
       si_scg_git = git_short_hash (hp_git h (hp_manifest_dir h @ ''/../SCG''))\<rparr>)"

definition fmt_bool :: "bool option \<Rightarrow> string" where
  "fmt_bool v = (case v of Some True \<Rightarrow> ''yes'' | Some False \<Rightarrow> ''no'' | None \<Rightarrow> ''unknown'')"

definition fmt_mem :: "u64 option \<Rightarrow> string" where
  "fmt_mem kb =
     (case kb of
        Some kb \<Rightarrow> fmt_fixed 1 (real (unat kb) / (1024 * 1024)) @ '' GiB ('' @ show_word kb @ '' kB)''
      | None \<Rightarrow> ''unknown'')"

text \<open>A dash of the messages, in its three bytes.\<close>

definition EM_DASH :: string where "EM_DASH = [CHR 0xE2, CHR 0x80, CHR 0x94]"

definition preflight_warnings :: "sys_info \<Rightarrow> string list" where
  "preflight_warnings info =
     (case si_governor info of
        Some gov \<Rightarrow>
          if gov \<noteq> ''performance''
          then [''CPU governor is '' @ [CHR 0x27] @ gov @ [CHR 0x27] @ '', not '' @ [CHR 0x27] @ ''performance'' @ [CHR 0x27]
                @ '' '' @ EM_DASH @ '' clock scaling will add run-to-run variance. Pin it: ''
                @ [CHR 0x60] @ ''sudo cpupower frequency-set -g performance'' @ [CHR 0x60] @ ''.'']
          else []
      | None \<Rightarrow> [])
     @ (if si_turbo info = Some True
        then [''CPU turbo/boost is enabled '' @ EM_DASH @ '' per-run frequency depends on thermal headroom. ''
              @ ''Disable for stable numbers (Intel: '' @ [CHR 0x60]
              @ ''echo 1 | sudo tee /sys/devices/system/cpu/intel_pstate/no_turbo'' @ [CHR 0x60] @ ''; AMD: '' @ [CHR 0x60]
              @ ''echo 0 | sudo tee /sys/devices/system/cpu/cpufreq/boost'' @ [CHR 0x60] @ '').'']
        else [])
     @ (if si_smt info = Some True
        then [''SMT/Hyper-Threading is active '' @ EM_DASH
              @ '' sibling-thread contention can perturb pinned-core results; consider isolating physical cores.'']
        else [])
     @ (if 1 < (case si_numa_nodes info of Some n \<Rightarrow> n | None \<Rightarrow> 1) \<and> si_isolated_cpus info = None
        then [''Multi-node NUMA host with no isolated CPUs '' @ EM_DASH
              @ '' cross-socket memory latency may leak into results; pin with '' @ [CHR 0x60] @ ''isolcpus='' @ [CHR 0x60] @ ''/''
              @ [CHR 0x60] @ ''taskset'' @ [CHR 0x60] @ '' and keep sender, gateway, and receiver on one node.'']
        else [])"

section \<open>Properties\<close>

text \<open>A range list as sysfs prints it.\<close>

definition show_range :: "nat \<times> nat \<Rightarrow> string" where
  "show_range r = (if fst r = snd r then show_nat (fst r) else show_nat (fst r) @ CHR ''-'' # show_nat (snd r))"

lemma digit_not: "list_all is_digit s \<Longrightarrow> \<not> is_digit d \<Longrightarrow> d \<notin> set s"
  by (auto simp: list_all_iff)

lemma not_digits [simp]: "\<not> is_digit (CHR '','')" "\<not> is_digit (CHR ''-'')"
  by (simp_all add: is_digit_def)

lemma split_once_append: "d \<notin> set s \<Longrightarrow> split_once d (s @ d # t) = Some (s, t)"
proof -
  assume "d \<notin> set s"
  then have "takeWhile (\<lambda>c. c \<noteq> d) (s @ d # t) = s" "dropWhile (\<lambda>c. c \<noteq> d) (s @ d # t) = d # t"
    by (induction s) auto
  then show ?thesis by (simp add: split_once_def)
qed

lemma range_part_show:
  assumes "fst r \<le> snd r" "snd r < 2 ^ 64"
  shows "range_part (show_range r) = Some (snd r - fst r + 1)"
proof (cases "fst r = snd r")
  case True
  then show ?thesis
    by (simp add: show_range_def range_part_def split_once_def digit_not [OF show_nat_digits])
next
  case False
  have "split_once (CHR ''-'') (show_nat (fst r) @ CHR ''-'' # show_nat (snd r)) = Some (show_nat (fst r), show_nat (snd r))"
    using digit_not [OF show_nat_digits not_digits(2), of "fst r"] by (rule split_once_append)
  then show ?thesis using False assms by (simp add: show_range_def range_part_def parse_usize_def parse_show_nat)
qed

lemma range_parts_show:
  "list_all (\<lambda>r. fst r \<le> snd r \<and> snd r < 2 ^ 64) rs
     \<Longrightarrow> range_parts (map show_range rs) n = Some (n + (\<Sum>r\<leftarrow>rs. snd r - fst r + 1))"
  by (induction rs arbitrary: n) (auto simp: range_part_show)

lemma range_list_card:
  assumes "list_all (\<lambda>r. fst r \<le> snd r) rs" and "sorted_wrt (\<lambda>r s. snd r < fst s) rs"
  shows "(\<Sum>r\<leftarrow>rs. snd r - fst r + 1) = card (\<Union>r\<in>set rs. {fst r..snd r})"
  using assms
proof (induction rs)
  case (Cons r rs)
  have "{fst r..snd r} \<inter> (\<Union>s\<in>set rs. {fst s..snd s}) = {}" using Cons.prems by force
  then have "card (\<Union>s\<in>set (r # rs). {fst s..snd s}) = card {fst r..snd r} + card (\<Union>s\<in>set rs. {fst s..snd s})"
    by (simp add: card_Un_disjoint)
  then show ?case using Cons by (simp add: Suc_diff_le)
qed simp

lemma show_range_no_comma: "list_all (\<lambda>c. c \<noteq> CHR '','') (show_range r)"
proof -
  have "list_all (\<lambda>c. c \<noteq> CHR '','') (show_nat n)" for n
    by (rule list.pred_mono_strong [OF show_nat_digits]) (auto simp: is_digit_def)
  then show ?thesis by (simp add: show_range_def)
qed

text \<open>The number of processors in a sysfs list of ascending ranges is the number of its members.\<close>

lemma cpu_range_count_exact:
  assumes "rs \<noteq> []" and "list_all (\<lambda>r. fst r \<le> snd r \<and> snd r < 2 ^ 64) rs"
    and "sorted_wrt (\<lambda>r s. snd r < fst s) rs"
  shows "parse_cpu_range_count (join_with '','' (map show_range rs)) = Some (card (\<Union>r\<in>set rs. {fst r..snd r}))"
proof -
  have "split_on (CHR '','') (join_with '','' (map show_range rs)) = map show_range rs"
    unfolding split_on_def using assms(1) by (intro split_if_join) (simp_all add: list.pred_map comp_def show_range_no_comma list_all_iff [of "\<lambda>x. True"])
  moreover have "(\<Sum>r\<leftarrow>rs. snd r - fst r + 1) = card (\<Union>r\<in>set rs. {fst r..snd r})"
    using assms by (intro range_list_card) (auto simp: list_all_iff)
  moreover have "0 < (\<Sum>r\<leftarrow>rs. snd r - fst r + 1)" using assms(1) by (cases rs) auto
  ultimately show ?thesis using range_parts_show [OF assms(2), of 0] by (simp add: parse_cpu_range_count_def)
qed

text \<open>A part that is no number is counted all the same.\<close>

lemma range_part_unparsed: "parse_cpu_range_count ''offline'' = Some 1"
  by (simp add: parse_cpu_range_count_def split_on_def range_part_def split_once_def trim_def is_ws_def)

text \<open>The physical cores are the distinct pairs of the processor blocks, whatever other lines a block has.\<close>

definition cpu_block :: "string list \<Rightarrow> string \<times> string \<Rightarrow> string list" where
  "cpu_block other pc = [''physical id	: '' @ fst pc] @ other @ [''core id		: '' @ snd pc, []]"

definition plain_id :: "string \<Rightarrow> bool" where
  "plain_id s = (s \<noteq> [] \<and> list_all (\<lambda>c. \<not> is_ws c \<and> c \<noteq> CHR '':'') s)"

definition other_line :: "string \<Rightarrow> bool" where
  "other_line l = (trim l \<noteq> [] \<and> (case split_once (CHR '':'') l of
     Some (k, v) \<Rightarrow> trim k \<noteq> ''physical id'' \<and> trim k \<noteq> ''core id'' | None \<Rightarrow> True))"

lemma cpu_line_other: "other_line l \<Longrightarrow> cpu_line l st = st"
  by (cases st) (auto simp: other_line_def cpu_line_def split: option.splits)

lemma fold_cpu_other: "list_all other_line ls \<Longrightarrow> fold cpu_line ls st = st"
  by (induction ls arbitrary: st) (auto simp: cpu_line_other)

text \<open>A clean host gives no warning, and only a clean one.\<close>

definition controlled :: "sys_info \<Rightarrow> bool" where
  "controlled info =
     (si_governor info \<in> {None, Some ''performance''} \<and> si_turbo info \<noteq> Some True \<and> si_smt info \<noteq> Some True
      \<and> (case si_numa_nodes info of Some n \<Rightarrow> n \<le> 1 | None \<Rightarrow> True) \<or>
      si_governor info \<in> {None, Some ''performance''} \<and> si_turbo info \<noteq> Some True \<and> si_smt info \<noteq> Some True
      \<and> si_isolated_cpus info \<noteq> None)"

lemma preflight_clean_iff: "preflight_warnings info = [] \<longleftrightarrow> controlled info"
  unfolding preflight_warnings_def controlled_def by (cases "si_numa_nodes info"; cases "si_governor info") (auto simp: not_less)

lemma index_of_append: "d \<notin> set s \<Longrightarrow> index_of d (s @ d # t) = Some (length s)"
proof -
  assume "d \<notin> set s"
  then have "takeWhile (\<lambda>c. c \<noteq> d) (s @ d # t) = s" by (induction s) auto
  then show ?thesis by (simp add: index_of_def)
qed

lemma thp_active_bracketed:
  assumes "CHR ''['' \<notin> set p" "CHR '']'' \<notin> set p" "CHR '']'' \<notin> set v"
  shows "thp_active (p @ CHR ''['' # v @ CHR '']'' # s) = v"
  using index_of_append [OF assms(1), of "v @ CHR '']'' # s"]
    index_of_append [of "CHR '']''" "p @ CHR ''['' # v" s] assms(2,3)
  by (simp add: thp_active_def)

end
