(* ===== verification/Calendar.thy ===== *)
theory Calendar
  imports Text "HOL-Library.Signed_Division"
begin

text \<open>
  The time stamps of \<open>src/src/report/results.rs\<close>: the civil date of a Unix time and the two formats of it, and the
  calendar they are checked against.
\<close>

section \<open>Time stamps\<close>

text \<open>\<open>civil_from_unix\<close>: its quotients are of non-negative numbers, except the one under the test of \<open>z\<close>,
  which truncates.\<close>

definition civil_from_days :: "int \<Rightarrow> int \<times> int \<times> int" where
  "civil_from_days days =
     (let z = days + 719468;
          era = (if 0 \<le> z then z else z - 146096) sdiv 146097;
          doe = z - era * 146097;
          yoe = (doe - doe div 1460 + doe div 36524 - doe div 146096) div 365;
          y = yoe + era * 400;
          doy = doe - (365 * yoe + yoe div 4 - yoe div 100);
          mp = (5 * doy + 2) div 153;
          d = doy - (153 * mp + 2) div 5 + 1;
          m = (if mp < 10 then mp + 3 else mp - 9)
      in (if m \<le> 2 then y + 1 else y, m, d))"

definition civil_from_unix :: "u64 \<Rightarrow> (int \<times> int \<times> int) \<times> nat \<times> nat \<times> nat" where
  "civil_from_unix unix_secs =
     (let days = int (unat unix_secs div 86400); r = unat unix_secs mod 86400
      in (civil_from_days days, r div 3600, r mod 3600 div 60, r mod 60))"

definition pad2 :: "nat \<Rightarrow> string" where
  "pad2 n = pad_left 2 (CHR ''0'') (show_nat n)"

definition pad4 :: "int \<Rightarrow> string" where
  "pad4 y = pad_left 4 (CHR ''0'') (show_int y)"

definition format_timestamp :: "u64 \<Rightarrow> string" where
  "format_timestamp unix_secs =
     (case civil_from_unix unix_secs of ((y, m, d), hh, mm, ss) \<Rightarrow>
        pad4 y @ pad2 (nat m) @ pad2 (nat d) @ ''-'' @ pad2 hh @ pad2 mm @ pad2 ss)"

definition format_datetime :: "u64 \<Rightarrow> string" where
  "format_datetime unix_secs =
     (case civil_from_unix unix_secs of ((y, m, d), hh, mm, ss) \<Rightarrow>
        pad4 y @ ''-'' @ pad2 (nat m) @ ''-'' @ pad2 (nat d) @ '' '' @ pad2 hh @ '':'' @ pad2 mm @ '':'' @ pad2 ss
        @ '' UTC'')"

section \<open>The civil calendar\<close>

text \<open>The calendar as a successor on dates.\<close>

definition leap :: "int \<Rightarrow> bool" where
  "leap y = (4 dvd y \<and> (\<not> 100 dvd y \<or> 400 dvd y))"

definition month_days :: "int \<Rightarrow> int \<Rightarrow> int" where
  "month_days y m = (if m = 2 then (if leap y then 29 else 28) else if m \<in> {4, 6, 9, 11} then 30 else 31)"

definition next_day :: "int \<times> int \<times> int \<Rightarrow> int \<times> int \<times> int" where
  "next_day = (\<lambda>(y, m, d).
     if d < month_days y m then (y, m, d + 1) else if m < 12 then (y, m + 1, 1) else (y + 1, 1, 1))"

text \<open>The day of a 400-year era, its year, the day of that year counted from March, the month from March.\<close>

definition yoe_of :: "int \<Rightarrow> int" where
  "yoe_of doe = (doe - doe div 1460 + doe div 36524 - doe div 146096) div 365"

definition year_start :: "int \<Rightarrow> int" where
  "year_start y = 365 * y + y div 4 - y div 100"

definition month_day :: "int \<Rightarrow> int \<times> int" where
  "month_day doy =
     (let mp = (5 * doy + 2) div 153 in (if mp < 10 then mp + 3 else mp - 9, doy - (153 * mp + 2) div 5 + 1))"

definition date_of :: "int \<Rightarrow> int \<Rightarrow> int \<times> int \<times> int" where
  "date_of y doy = (let (m, d) = month_day doy in (if m \<le> 2 then y + 1 else y, m, d))"

lemma civil_eq:
  assumes "0 \<le> days"
  shows "civil_from_days days =
     (let z = days + 719468; doe = z mod 146097; yoe = yoe_of doe
      in date_of (yoe + z div 146097 * 400) (doe - year_start yoe))"
proof -
  have era: "(if 0 \<le> days + 719468 then days + 719468 else days + 719468 - 146096) sdiv 146097 = (days + 719468) div 146097"
    using assms by (simp add: signed_divide_int_def)
  have doe: "days + 719468 - (days + 719468) div 146097 * 146097 = (days + 719468) mod 146097"
    by (rule minus_div_mult_eq_mod)
  show ?thesis
    unfolding civil_from_days_def Let_def era doe
    unfolding date_of_def month_day_def yoe_of_def year_start_def Let_def prod.case ..
qed

text \<open>The year of an era is monotone in the day, so its values at the ends of a year settle the days in between.\<close>

lemma div_grows: "p \<le> q \<Longrightarrow> q div 4 - p div 4 \<le> q - p" for p q :: int
  by presburger

lemma quotient_step: "a2 \<le> a1 + 1 \<Longrightarrow> b1 \<le> b2 \<Longrightarrow> c - a1 + b1 - b1 div 4 \<le> c + 1 - a2 + b2 - b2 div 4"
  for a1 a2 b1 b2 c :: int
  using div_grows [of b1 b2] by (simp add: algebra_simps)

lemma yoe_step: "c - c div 1460 + c div 36524 - c div 146096
    \<le> (c + 1) - (c + 1) div 1460 + (c + 1) div 36524 - (c + 1) div 146096" for c :: int
proof -
  have q: "c div 146096 = c div 36524 div 4" "(c + 1) div 146096 = (c + 1) div 36524 div 4"
    using zdiv_zmult2_eq [of 4 c 36524] zdiv_zmult2_eq [of 4 "c + 1" 36524] by simp_all
  have "(c + 1) div 1460 \<le> (c + 1460) div 1460" by (rule zdiv_mono1) simp_all
  then have "(c + 1) div 1460 \<le> c div 1460 + 1" by simp
  moreover have "c div 36524 \<le> (c + 1) div 36524" by (rule zdiv_mono1) simp_all
  ultimately show ?thesis unfolding q by (rule quotient_step)
qed

lemma yoe_mono:
  assumes "a \<le> b"
  shows "yoe_of a \<le> yoe_of b"
proof -
  have "c - c div 1460 + c div 36524 - c div 146096
      \<le> (c + int n) - (c + int n) div 1460 + (c + int n) div 36524 - (c + int n) div 146096" for c n
  proof (induction n)
    case (Suc n)
    have "c + int (Suc n) = c + int n + 1" by simp
    then show ?case using Suc yoe_step [of "c + int n"] by (simp only:)
  qed simp
  from this [of a "nat (b - a)"] assms show ?thesis
    unfolding yoe_of_def by (intro zdiv_mono1) simp_all
qed

text \<open>The first and the last day of each of the 400 years.\<close>

definition year_end :: "int \<Rightarrow> int" where
  "year_end y = (if y = 399 then 146096 else year_start (y + 1) - 1)"

lemma yoe_ends: "list_all (\<lambda>y. yoe_of (year_start y) = y \<and> yoe_of (year_end y) = y) [0..399]"
  by code_simp

lemma year_lengths:
  "list_all (\<lambda>y. year_end y - year_start y = (if leap (y + 1) then 365 else 364) \<and> year_end y \<le> 146096 \<and> 0 \<le> year_start y) [0..399]"
  by code_simp

definition month_step :: "int \<Rightarrow> bool" where
  "month_step doy =
     (let (m, d) = month_day doy; (m', d') = month_day (doy + 1)
      in 1 \<le> m \<and> m \<le> 12 \<and> (m = 2 \<longrightarrow> d = doy - 336) \<and>
        (m' = m \<and> d' = d + 1 \<and> (m = 2 \<or> d < month_days 0 m) \<or>
         m \<noteq> 2 \<and> d = month_days 0 m \<and> d' = 1 \<and> m' = (if m = 12 then 1 else m + 1)))"

lemma month_steps: "list_all month_step [0..364]"
  by code_simp

lemma era_split: "0 \<le> r \<Longrightarrow> r < 146097 \<Longrightarrow> (e * 146097 + r) div 146097 = e \<and> (e * 146097 + r) mod 146097 = r"
  for e r :: int
  by (simp add: div_add1_eq)

lemma month_day_ends: "month_day 0 = (3, 1)" "month_day 364 = (2, 28)" "month_day 365 = (2, 29)"
  by code_simp+

lemma leap_era: "leap (y + 400 * e) = leap y"
proof -
  have "k dvd 400 * e" if "k dvd 400" for k using that by (rule dvd_mult2)
  then show ?thesis unfolding leap_def by (simp add: dvd_add_left_iff)
qed

lemma yoe_range:
  assumes "0 \<le> doe" "doe \<le> 146096"
  defines "y \<equiv> yoe_of doe"
  shows "0 \<le> y" "y \<le> 399" "year_start y \<le> doe" "doe \<le> year_end y"
proof -
  have ends: "yoe_of (year_start k) = k" "yoe_of (year_end k) = k" if "0 \<le> k" "k \<le> 399" for k
    using yoe_ends that by (simp_all add: list_all_iff)
  have "yoe_of 0 = 0" "yoe_of 146096 = 399" by code_simp+
  then show y: "0 \<le> y" "y \<le> 399" using yoe_mono [OF assms(1)] yoe_mono [OF assms(2)] by (simp_all add: y_def)
  show "year_start y \<le> doe"
  proof (rule ccontr)
    assume less: "\<not> year_start y \<le> doe"
    have "y \<noteq> 0" using less assms(1) by (auto simp: year_start_def)
    then have "doe \<le> year_end (y - 1)" using less y by (simp add: year_end_def)
    then have "y \<le> y - 1" using yoe_mono ends(2) [of "y - 1"] y \<open>y \<noteq> 0\<close> unfolding y_def by fastforce
    then show False by simp
  qed
  show "doe \<le> year_end y"
  proof (rule ccontr)
    assume more: "\<not> doe \<le> year_end y"
    then have "y \<noteq> 399" using assms(2) by (auto simp: year_end_def)
    then have "year_start (y + 1) \<le> doe" using more by (simp add: year_end_def)
    then have "y + 1 \<le> y" using yoe_mono ends(1) [of "y + 1"] y \<open>y \<noteq> 399\<close> unfolding y_def by fastforce
    then show False by simp
  qed
qed

lemma yoe_unique:
  assumes "0 \<le> y" "y \<le> 399" "year_start y \<le> doe" "doe \<le> year_end y"
  shows "yoe_of doe = y"
  using yoe_ends assms yoe_mono [OF assms(3)] yoe_mono [OF assms(4)] by (force simp: list_all_iff)

lemma date_step:
  assumes "0 \<le> doy" "doy \<le> 363 \<or> doy = 364 \<and> leap (y + 1)"
  shows "date_of y (doy + 1) = next_day (date_of y doy)"
proof -
  obtain m d where md: "month_day doy = (m, d)" by (cases "month_day doy")
  obtain m' d' where md': "month_day (doy + 1) = (m', d')" by (cases "month_day (doy + 1)")
  have "month_step doy" using month_steps assms by (auto simp: list_all_iff)
  then have step: "1 \<le> m" "m \<le> 12" "m = 2 \<longrightarrow> d = doy - 336"
      "m' = m \<and> d' = d + 1 \<and> (m = 2 \<or> d < month_days 0 m) \<or>
         m \<noteq> 2 \<and> d = month_days 0 m \<and> d' = 1 \<and> m' = (if m = 12 then 1 else m + 1)"
    by (simp_all add: month_step_def md md')
  have other: "month_days (y + 1) m = month_days 0 m" "month_days y m = month_days 0 m" if "m \<noteq> 2"
    using that by (simp_all add: month_days_def)
  have feb: "d < month_days (y + 1) 2" if "m = 2" using step(3) that assms(2) by (auto simp: month_days_def)
  show ?thesis
  proof (cases "m = 2")
    case True
    then have "m' = 2" "d' = d + 1" using step(4) by auto
    then show ?thesis using feb True by (simp add: date_of_def md md' next_day_def)
  next
    case False
    then show ?thesis using step other by (auto simp: date_of_def md md' next_day_def split: if_splits)
  qed
qed

lemma next_civil:
  assumes "0 \<le> days"
  shows "civil_from_days (days + 1) = next_day (civil_from_days days)"
proof -
  define era doe where "era = (days + 719468) div 146097" and "doe = (days + 719468) mod 146097"
  define y where "y = yoe_of doe"
  have z: "days + 719468 = era * 146097 + doe" by (simp add: era_def doe_def)
  have doe: "0 \<le> doe" "doe \<le> 146096" by (simp_all add: doe_def)
  note y = yoe_range [OF doe, folded y_def]
  have now: "civil_from_days days = date_of (y + era * 400) (doe - year_start y)"
    using civil_eq [OF assms] by (simp add: Let_def era_def doe_def y_def)
  have len: "year_end y - year_start y = (if leap (y + era * 400 + 1) then 365 else 364)" "year_end y \<le> 146096"
  proof -
    have "y \<in> set [0..399]" using y by simp
    then have "year_end y - year_start y = (if leap (y + 1) then 365 else 364)" and "year_end y \<le> 146096"
      using year_lengths unfolding list_all_iff by blast+
    moreover have "leap (y + era * 400 + 1) = leap (y + 1)" using leap_era [of "y + 1" era] by (simp add: algebra_simps)
    ultimately show "year_end y - year_start y = (if leap (y + era * 400 + 1) then 365 else 364)" "year_end y \<le> 146096"
      by simp_all
  qed
  have tomorrow: "civil_from_days (days + 1) = date_of (yoe_of r + e * 400) (r - year_start (yoe_of r))"
    if "days + 1 + 719468 = e * 146097 + r" "0 \<le> r" "r < 146097" for e r
    using civil_eq [of "days + 1"] assms era_split [of r e] that by (simp add: Let_def)
  show ?thesis
  proof (cases "doe = year_end y")
    case False
    then have less: "doe + 1 \<le> year_end y" using y(4) by simp
    have "yoe_of (doe + 1) = y" using yoe_unique [of y "doe + 1"] y less by simp
    then have "civil_from_days (days + 1) = date_of (y + era * 400) (doe - year_start y + 1)"
      using tomorrow [of era "doe + 1"] z doe less len(2) by (simp add: algebra_simps)
    also have "\<dots> = next_day (date_of (y + era * 400) (doe - year_start y))"
      using less len(1) y(3) by (intro date_step) (auto split: if_splits)
    finally show ?thesis using now by simp
  next
    case True
    have last: "next_day (date_of (y + era * 400) (doe - year_start y)) = (y + era * 400 + 1, 3, 1)"
      using len(1) unfolding True by (simp add: date_of_def month_day_ends next_day_def month_days_def)
    have "civil_from_days (days + 1) = (y + era * 400 + 1, 3, 1)"
    proof (cases "y = 399")
      case True
      have "yoe_of 0 = 0" by code_simp
      then show ?thesis
        using tomorrow [of "era + 1" 0] z \<open>doe = year_end y\<close> True
        by (simp add: year_end_def year_start_def date_of_def month_day_ends)
    next
      case False
      then have next_year: "doe + 1 = year_start (y + 1)" using True by (simp add: year_end_def)
      moreover have "year_start (y + 1) \<le> 146096"
      proof -
        have "y + 1 \<in> set [0..399]" using y False by simp
        then have "year_end (y + 1) - year_start (y + 1) = (if leap (y + 1 + 1) then 365 else 364)" "year_end (y + 1) \<le> 146096"
          using year_lengths unfolding list_all_iff by blast+
        then show ?thesis by (simp split: if_splits)
      qed
      moreover have "yoe_of (year_start (y + 1)) = y + 1" using yoe_ends y False by (simp add: list_all_iff)
      ultimately show ?thesis
        using tomorrow [of era "doe + 1"] z doe len(2) True False y
        by (simp add: date_of_def month_day_ends year_end_def algebra_simps)
    qed
    then show ?thesis using now last by simp
  qed
qed

lemma civil_days: "civil_from_days (int n) = (next_day ^^ n) (1970, 1, 1)"
proof (induction n)
  case 0
  show ?case by code_simp
next
  case (Suc n)
  then show ?case using next_civil [of "int n"] by (simp add: add.commute)
qed


end
