(* ===== verification/Results.thy ===== *)
theory Results
  imports Csv Capacity Streams Gateway_Process Overhead Sysinfo Validate Calendar
begin

text \<open>
  The result directory of \<open>src/src/report/results.rs\<close>: the tables a scenario leaves behind, the
  consolidated tables rebuilt from them, reading a table back, the comparison of interfaces, directory names
  and time stamps. The file system is a state of directories and files; what it answers to a write is an
  argument, so that a write may be refused or torn.
\<close>

section \<open>Names\<close>

definition sanitize :: "string \<Rightarrow> string" where
  "sanitize name =
     map (\<lambda>c. if is_ascii_alphanumeric c \<or> c \<in> {CHR ''.'', CHR ''_'', CHR ''-''} then c else CHR ''_'') name"

section \<open>Reading a table back\<close>

text \<open>The state of \<open>split_csv_line\<close>: the finished fields, the current field, inside quotes or not.\<close>

fun split_csv :: "string \<Rightarrow> string list \<Rightarrow> string \<Rightarrow> bool \<Rightarrow> string list" where
  "split_csv [] fs f q = fs @ [f]"
| "split_csv (c # cs) fs f True =
     (if c = DQUOTE
      then (case cs of
              x # cs' \<Rightarrow> if x = DQUOTE then split_csv cs' fs (f @ [DQUOTE]) True else split_csv cs fs f False
            | [] \<Rightarrow> split_csv cs fs f False)
      else split_csv cs fs (f @ [c]) True)"
| "split_csv (c # cs) fs f False =
     (if c = DQUOTE then split_csv cs fs f True
      else if c = CHR '','' then split_csv cs (fs @ [f]) [] False
      else split_csv cs fs (f @ [c]) False)"

definition split_csv_line :: "string \<Rightarrow> string list" where
  "split_csv_line line = split_csv line [] [] False"

definition kv_line :: "string \<Rightarrow> (string \<rightharpoonup> string) \<Rightarrow> (string \<rightharpoonup> string)" where
  "kv_line line m =
     (if line = [] then m
      else (case split_csv_line line of k # v # _ \<Rightarrow> m(k \<mapsto> v) | _ \<Rightarrow> m))"

definition read_key_value :: "string \<Rightarrow> (string \<rightharpoonup> string)" where
  "read_key_value text = fold kv_line (drop 1 (lines text)) Map.empty"

section \<open>Cells\<close>

text \<open>\<open>x.map(f).unwrap_or_default()\<close> of a cell; a key and value written only when there is a value.\<close>

definition opt_cell :: "('a \<Rightarrow> string) \<Rightarrow> 'a option \<Rightarrow> string" where
  "opt_cell f x = (case x of Some v \<Rightarrow> f v | None \<Rightarrow> [])"

definition opt_kv :: "string \<Rightarrow> ('a \<Rightarrow> string) \<Rightarrow> 'a option \<Rightarrow> (string \<times> string) list" where
  "opt_kv k f x = (case x of Some v \<Rightarrow> [(k, f v)] | None \<Rightarrow> [])"

definition opt_kvs :: "('a \<Rightarrow> (string \<times> string) list) \<Rightarrow> 'a option \<Rightarrow> (string \<times> string) list" where
  "opt_kvs f x = (case x of Some v \<Rightarrow> f v | None \<Rightarrow> [])"

definition show_bool :: "bool \<Rightarrow> string" where
  "show_bool b = (if b then ''true'' else ''false'')"

text \<open>A key/value table filled in order.\<close>

definition kv_table :: "(string \<times> string) list \<Rightarrow> csv" where
  "kv_table kvs = foldl (\<lambda>c (k, v). csv_kv k v c) key_value kvs"

text \<open>\<open>{:.d}\<close> of a float of any kind\<close>

definition fmt_f64 :: "nat \<Rightarrow> f64 \<Rightarrow> string" where
  "fmt_f64 d v = (case v of Fin a \<Rightarrow> fmt_fixed d a | PInf \<Rightarrow> ''inf'' | NInf \<Rightarrow> ''-inf'' | NaN \<Rightarrow> ''NaN'')"

text \<open>The micro sign, in its two bytes.\<close>

definition MICRO :: string where "MICRO = [CHR 0xC2, CHR 0xB5]"

definition outcome_headline :: "run_stats \<Rightarrow> string" where
  "outcome_headline stats =
     (case rs_rtt stats of
        Some r \<Rightarrow> ''rtt '' @ fmt_f64 1 (rtt_p50_us r) @ '' '' @ MICRO @ ''s  p99 '' @ fmt_f64 1 (rtt_p99_us r) @ '' '' @ MICRO @ ''s''
      | None \<Rightarrow>
          (case rs_conn stats of
             Some c \<Rightarrow> fmt_f64 0 (cn_conns_per_sec c) @ '' conn/s  hs p99 '' @ fmt_f64 1 (cn_handshake_p99_us c) @ '' '' @ MICRO @ ''s''
           | None \<Rightarrow>
               fmt_f64 3 (sm_mean (rs_throughput_gbps stats)) @ '' Gbit/s  p99 '' @ fmt_f64 1 (sm_mean (rs_latency_p99_us stats))
               @ '' '' @ MICRO @ ''s  loss '' @ fmt_f64 3 (rs_loss_pct stats) @ '' %''))"

definition mean_jitter :: "run_stats \<Rightarrow> f64" where
  "mean_jitter stats =
     (if rs_runs stats = [] then 0
      else fsum (map fs_jitter_us (rs_runs stats)) / f_of_nat (length (rs_runs stats)))"

definition total_messages :: "run_stats \<Rightarrow> u64" where
  "total_messages stats = sum_list (map fs_messages (rs_runs stats))"

definition analytical_overhead :: "scenario \<Rightarrow> run_params \<Rightarrow> u32 option" where
  "analytical_overhead s params =
     (let kind = pr_kind (sc_protocol s); of_profile = (\<lambda>p. Some (oh_total (compute p)))
      in case sn_interface (rn_sender params) of
           Unix \<Rightarrow> of_profile EncUds
         | Shm \<Rightarrow> of_profile EncShm
         | Udp \<Rightarrow> of_profile (if kind = Dtls then Dtls12Gcm else EncUdp)
         | _ \<Rightarrow>
             (case kind of
                Tls \<Rightarrow> of_profile (if pr_version (sc_protocol s) = V1_3 then Tls13Aead else Tls12Gcm)
              | Dtls \<Rightarrow> None
              | _ \<Rightarrow> of_profile EncTcp))"

section \<open>What is recorded with a scenario\<close>

record scenario_artifacts =
  ar_cal :: "calibration option"
  ar_sweep :: "sweep_result option"
  ar_sys :: "sys_agg option"
  ar_perf :: "perf_result option"
  ar_mem_copies :: "mem_copy_result option"
  ar_effective :: "effective option"
  ar_loss_threshold_pct :: f64

definition is_overloaded :: "run_stats \<Rightarrow> scenario_artifacts \<Rightarrow> bool" where
  "is_overloaded stats art = flt (ar_loss_threshold_pct art) (rs_loss_pct stats)"

definition effective_label :: "scenario \<Rightarrow> scenario_artifacts \<Rightarrow> string" where
  "effective_label s art =
     (case ar_effective art of
        Some e \<Rightarrow> effective_protocol_label (protocol_label s) e
      | None \<Rightarrow> protocol_label s)"

definition integrity_total :: "run_stats \<Rightarrow> u64" where
  "integrity_total stats = sum_list (map fs_integrity_failures (rs_runs stats))"

definition boundary_total :: "run_stats \<Rightarrow> u64" where
  "boundary_total stats = sum_list (map fs_boundary_violations (rs_runs stats))"

definition per_core :: "f64 \<Rightarrow> sys_agg \<Rightarrow> f64 option" where
  "per_core gbps a =
     (if flt 0 (sa_cpu_pct_peak a) then Some (gbps / (sa_cpu_pct_peak a / Fin 100)) else None)"

definition poll_syscalls :: "mem_copy_result \<Rightarrow> u64 option" where
  "poll_syscalls m = (case mc_poll m of Some v \<Rightarrow> Some v | None \<Rightarrow> mc_ppoll m)"

definition pattern_text :: "pattern_kind \<Rightarrow> string" where
  "pattern_text p =
     to_lower (case p of Sustained \<Rightarrow> ''Sustained'' | Periodic \<Rightarrow> ''Periodic'' | Burst \<Rightarrow> ''Burst'' | Ramp \<Rightarrow> ''Ramp'')"

definition as_secs :: "f64 \<Rightarrow> nat" where
  "as_secs d = (case d of Fin a \<Rightarrow> nat \<lfloor>a\<rfloor> | _ \<Rightarrow> 0)"


section \<open>The tables of a scenario\<close>

definition SUMMARY_HEADERS :: "string list" where
  "SUMMARY_HEADERS =
     [''scenario'', ''transport'', ''protocol'', ''message_bytes'', ''connections'', ''runs'', ''throughput_gbps_mean'',
      ''throughput_gbps_ci95'', ''throughput_gbps_min'', ''throughput_gbps_max'', ''latency_mean_us'', ''latency_mean_ci95'',
      ''latency_p99_us_mean'', ''latency_p99_us_ci95'', ''jitter_us_mean'', ''handshake_us_mean'', ''loss_pct'', ''total_lost'',
      ''integrity_failures'', ''boundary_violations'', ''encapsulation_overhead_bytes_analytical'',
      ''encapsulation_overhead_capture_verified'', ''ceiling_gbps'', ''headroom'', ''harness_limited'', ''dut'',
      ''saturation_gbps'', ''max_lossfree_gbps'', ''overloaded'', ''effective_protocol'', ''cpu_pct_peak'', ''cpu_pct_mean'',
      ''rss_peak_kib'', ''pss_peak_kib'', ''gbps_per_core'', ''bottleneck'', ''rtt_us_mean'', ''rtt_us_ci95'', ''rtt_us_p50'',
      ''rtt_us_p99'', ''conns_per_sec'', ''conns_per_sec_ci95'', ''conn_handshake_p50_us'', ''conn_handshake_p99_us'',
      ''perf_cycles'', ''perf_instructions'', ''perf_ipc'', ''perf_cache_references'', ''perf_cache_misses'',
      ''perf_context_switches'', ''perf_syscalls'', ''perf_task_clock_ms'', ''perf_duration_s'', ''co_corrected'',
      ''send_lag_mean_us'', ''send_lag_max_us'', ''ctx_switches_total'', ''ctx_switches_per_s'', ''cpu_seconds_total'',
      ''mem_copies_per_msg'', ''mem_copy_to_user'', ''mem_copy_from_user'', ''mem_splice_syscalls'', ''mem_poll_syscalls'',
      ''mem_io_uring_enter'', ''resumed_fraction'', ''cpu_hot_thread_pct_p95'', ''host_busy_frac_p95'', ''ceiling_transport'']"

definition RUNS_HEADERS :: "string list" where
  "RUNS_HEADERS =
     [''run'', ''throughput_gbps'', ''message_rate'', ''messages'', ''bytes'', ''duration_s'', ''latency_mean_us'', ''latency_p50_us'',
      ''latency_p90_us'', ''latency_p95_us'', ''latency_p99_us'', ''latency_p999_us'', ''latency_min_us'', ''latency_max_us'',
      ''jitter_us'', ''loss_pct'', ''lost'', ''duplicate'', ''reordered'', ''integrity_failures'', ''boundary_violations'',
      ''outliers_removed'']"

definition calibration_cells :: "calibration option \<Rightarrow> string list" where
  "calibration_cells cal =
     [opt_cell (\<lambda>c. num (ca_ceiling_gbps c) 4) cal, opt_cell (\<lambda>c. num (ca_headroom c) 2) cal,
      opt_cell (\<lambda>c. show_bool (ca_harness_limited c)) cal, opt_cell ca_dut cal]"

definition cpu_cells :: "f64 \<Rightarrow> sys_agg option \<Rightarrow> string list" where
  "cpu_cells gbps sys =
     [opt_cell (\<lambda>a. num (sa_cpu_pct_peak a) 1) sys, opt_cell (\<lambda>a. num (sa_cpu_pct_mean a) 1) sys,
      opt_cell (\<lambda>a. show_word (sa_rss_peak_kib a)) sys, opt_cell (\<lambda>a. show_word (sa_pss_peak_kib a)) sys,
      opt_cell (\<lambda>a. opt_cell (\<lambda>v. num v 4) (per_core gbps a)) sys]"

definition rtt_cells :: "run_stats \<Rightarrow> string list" where
  "rtt_cells stats =
     [opt_cell (\<lambda>r. num (rtt_mean_us r) 3) (rs_rtt stats), opt_cell (\<lambda>r. num (rtt_mean_ci95 r) 3) (rs_rtt stats),
      opt_cell (\<lambda>r. num (rtt_p50_us r) 3) (rs_rtt stats), opt_cell (\<lambda>r. num (rtt_p99_us r) 3) (rs_rtt stats)]"

definition conn_cells :: "run_stats \<Rightarrow> string list" where
  "conn_cells stats =
     [opt_cell (\<lambda>c. num (cn_conns_per_sec c) 1) (rs_conn stats),
      opt_cell (\<lambda>c. num (cn_conns_per_sec_ci95 c) 1) (rs_conn stats),
      opt_cell (\<lambda>c. num (cn_handshake_p50_us c) 3) (rs_conn stats),
      opt_cell (\<lambda>c. num (cn_handshake_p99_us c) 3) (rs_conn stats)]"

definition perf_cells :: "perf_result option \<Rightarrow> string list" where
  "perf_cells perf =
     [opt_cell (\<lambda>p. opt_cell show_word (System_Metrics.pr_cycles p)) perf,
      opt_cell (\<lambda>p. opt_cell show_word (pr_instructions p)) perf,
      opt_cell (\<lambda>p. opt_cell (\<lambda>v. num v 3) (pr_ipc p)) perf,
      opt_cell (\<lambda>p. opt_cell show_word (pr_cache_references p)) perf,
      opt_cell (\<lambda>p. opt_cell show_word (pr_cache_misses p)) perf,
      opt_cell (\<lambda>p. opt_cell show_word (pr_context_switches p)) perf,
      opt_cell (\<lambda>p. opt_cell show_word (pr_syscalls p)) perf,
      opt_cell (\<lambda>p. opt_cell (\<lambda>v. num v 3) (pr_task_clock_ms p)) perf,
      opt_cell (\<lambda>p. opt_cell (\<lambda>v. num v 6) (pr_duration_s p)) perf]"

definition summary_row :: "scenario \<Rightarrow> run_params \<Rightarrow> run_stats \<Rightarrow> scenario_artifacts \<Rightarrow> string list" where
  "summary_row s params stats art =
     (let thr = rs_throughput_gbps stats; lat = rs_latency_mean_us stats; p99 = rs_latency_p99_us stats in
      [sc_name s, interface_label (sn_interface (rn_sender params)), protocol_label s,
       show_word (rn_message_bytes params), show_nat (rn_connections params), show_nat (length (rs_runs stats)),
       num (sm_mean thr) 4, num (sm_ci95 thr) 4, num (sm_min thr) 4, num (sm_max thr) 4,
       num (sm_mean lat) 3, num (sm_ci95 lat) 3, num (sm_mean p99) 3, num (sm_ci95 p99) 3,
       num (mean_jitter stats) 3, num (sm_mean (rs_handshake_us stats)) 3, num (rs_loss_pct stats) 4,
       show_word (rs_total_lost stats), show_word (integrity_total stats), show_word (boundary_total stats),
       opt_cell show_word (analytical_overhead s params), ''false'']
      @ calibration_cells (ar_cal art)
      @ [opt_cell (\<lambda>r. num (sr_saturation_gbps r) 4) (ar_sweep art),
         opt_cell (\<lambda>r. num (sr_max_lossfree_gbps r) 4) (ar_sweep art),
         show_bool (is_overloaded stats art), effective_label s art]
      @ cpu_cells (sm_mean thr) (ar_sys art)
      @ [opt_cell ca_bottleneck (ar_cal art)]
      @ rtt_cells stats @ conn_cells stats @ perf_cells (ar_perf art)
      @ [show_bool (rs_co_corrected stats), num (rs_send_lag_mean_us stats) 3, num (rs_send_lag_max_us stats) 3,
         opt_cell (\<lambda>a. show_word (sa_ctx_switches_total a)) (ar_sys art),
         opt_cell (\<lambda>a. num (sa_ctx_switches_per_s a) 1) (ar_sys art),
         opt_cell (\<lambda>a. num (sa_cpu_seconds_total a) 4) (ar_sys art),
         opt_cell (\<lambda>v. num v 3) (Option.bind (ar_mem_copies art) (copies_per_msg (total_messages stats))),
         opt_cell show_word (Option.bind (ar_mem_copies art) mc_copy_to_user),
         opt_cell show_word (Option.bind (ar_mem_copies art) mc_copy_from_user),
         opt_cell show_word (Option.bind (ar_mem_copies art) mc_splice),
         opt_cell show_word (Option.bind (ar_mem_copies art) poll_syscalls),
         opt_cell show_word (Option.bind (ar_mem_copies art) mc_io_uring_enter),
         opt_cell (\<lambda>v. num v 3) (Option.bind (ar_effective art) resumed_fraction),
         opt_cell (\<lambda>a. num (sa_cpu_hot_thread_pct_p95 a) 1) (ar_sys art),
         opt_cell (\<lambda>a. num (sa_host_busy_frac_p95 a) 3) (ar_sys art),
         opt_cell ca_ceiling_transport (ar_cal art)])"

definition config_kvs :: "scenario \<Rightarrow> run_params \<Rightarrow> (string \<times> string) list" where
  "config_kvs s params =
     [(''name'', sc_name s), (''category'', opt_cell (\<lambda>c. c) (sc_category s)),
      (''transport'', interface_label (sn_interface (rn_sender params))), (''protocol'', protocol_label s),
      (''pattern'', pattern_text (sn_pattern (rn_sender params))),
      (''message_bytes'', show_word (rn_message_bytes params)),
      (''payload_bytes'', show_word (sat_sub (rn_message_bytes params) (of_nat HEADER_LEN))),
      (''encapsulation_overhead_bytes_analytical'', opt_cell show_word (analytical_overhead s params)),
      (''encapsulation_overhead_capture_verified'', ''false''),
      (''connections'', show_nat (rn_connections params)), (''gateway_enabled'', show_bool (gw_enabled (sc_gateway s))),
      (''runs'', show_nat (rn_runs params)), (''warmup_secs'', show_nat (as_secs (rn_warmup params))),
      (''measure_secs'', show_nat (as_secs (rn_measure params))), (''cooldown_secs'', show_nat (as_secs (rn_cooldown params))),
      (''outlier_removal'', show_bool (rn_remove_outliers params))]"

definition scenario_config_csv :: "scenario \<Rightarrow> run_params \<Rightarrow> csv" where
  "scenario_config_csv s params = kv_table (config_kvs s params)"

definition cal_kvs :: "calibration \<Rightarrow> (string \<times> string) list" where
  "cal_kvs c =
     [(''ceiling_gbps'', num (ca_ceiling_gbps c) 4), (''headroom'', num (ca_headroom c) 2),
      (''harness_limited'', show_bool (ca_harness_limited c)), (''dut'', ca_dut c), (''bottleneck'', ca_bottleneck c),
      (''ceiling_transport'', ca_ceiling_transport c)]"

definition sys_kvs :: "f64 \<Rightarrow> sys_agg \<Rightarrow> (string \<times> string) list" where
  "sys_kvs gbps a =
     [(''cpu_pct_peak'', num (sa_cpu_pct_peak a) 1), (''cpu_pct_mean'', num (sa_cpu_pct_mean a) 1),
      (''cpu_pct_p95'', num (sa_cpu_pct_p95 a) 1), (''cpu_hot_thread_pct_p95'', num (sa_cpu_hot_thread_pct_p95 a) 1),
      (''host_busy_frac_p95'', num (sa_host_busy_frac_p95 a) 3), (''cpu_seconds_total'', num (sa_cpu_seconds_total a) 4),
      (''ctx_switches_total'', show_word (sa_ctx_switches_total a)),
      (''ctx_switches_per_s'', num (sa_ctx_switches_per_s a) 1), (''rss_peak_kib'', show_word (sa_rss_peak_kib a)),
      (''pss_peak_kib'', show_word (sa_pss_peak_kib a))]
     @ opt_kv ''gbps_per_core'' (\<lambda>v. num v 4) (per_core gbps a)"

definition perf_kvs :: "perf_result \<Rightarrow> (string \<times> string) list" where
  "perf_kvs p =
     opt_kv ''perf_cycles'' show_word (System_Metrics.pr_cycles p)
     @ opt_kv ''perf_instructions'' show_word (pr_instructions p)
     @ opt_kv ''perf_ipc'' (\<lambda>v. num v 3) (pr_ipc p)
     @ opt_kv ''perf_cache_references'' show_word (pr_cache_references p)
     @ opt_kv ''perf_cache_misses'' show_word (pr_cache_misses p)
     @ opt_kv ''perf_context_switches'' show_word (pr_context_switches p)
     @ opt_kv ''perf_syscalls'' show_word (pr_syscalls p)
     @ opt_kv ''perf_task_clock_ms'' (\<lambda>v. num v 3) (pr_task_clock_ms p)
     @ opt_kv ''perf_duration_s'' (\<lambda>v. num v 6) (pr_duration_s p)"

definition mem_kvs :: "u64 \<Rightarrow> mem_copy_result \<Rightarrow> (string \<times> string) list" where
  "mem_kvs messages m =
     opt_kv ''mem_copies_per_msg'' (\<lambda>v. num v 3) (copies_per_msg messages m)
     @ opt_kv ''mem_copy_to_user'' show_word (mc_copy_to_user m)
     @ opt_kv ''mem_copy_from_user'' show_word (mc_copy_from_user m)
     @ opt_kv ''mem_splice_syscalls'' show_word (mc_splice m)
     @ opt_kv ''mem_poll_syscalls'' show_word (poll_syscalls m)
     @ opt_kv ''mem_io_uring_enter'' show_word (mc_io_uring_enter m)"

definition sweep_kvs :: "sweep_result \<Rightarrow> (string \<times> string) list" where
  "sweep_kvs r =
     [(''saturation_gbps'', num (sr_saturation_gbps r) 4), (''max_lossfree_gbps'', num (sr_max_lossfree_gbps r) 4),
      (''knee_offered_mbps'', num (sr_knee_offered_mbps r) 3)]"

definition rtt_kvs :: "rtt_summary \<Rightarrow> (string \<times> string) list" where
  "rtt_kvs r =
     [(''rtt_us_mean'', num (rtt_mean_us r) 3), (''rtt_us_ci95'', num (rtt_mean_ci95 r) 3),
      (''rtt_us_p50'', num (rtt_p50_us r) 3), (''rtt_us_p99'', num (rtt_p99_us r) 3),
      (''rtt_samples'', show_word (rtt_samples r))]"

definition conn_kvs :: "conn_summary \<Rightarrow> (string \<times> string) list" where
  "conn_kvs c =
     [(''conns_per_sec'', num (cn_conns_per_sec c) 1), (''conns_per_sec_ci95'', num (cn_conns_per_sec_ci95 c) 1),
      (''conn_handshake_p50_us'', num (cn_handshake_p50_us c) 3), (''conn_handshake_p99_us'', num (cn_handshake_p99_us c) 3),
      (''conn_total'', show_word (cn_total_conns c))]"

definition effective_kvs :: "effective \<Rightarrow> (string \<times> string) list" where
  "effective_kvs e =
     (case resumed_fraction e of
        Some r \<Rightarrow> [(''resumed_fraction'', num r 3), (''resumed_handshakes'', show_word (ef_resumed_handshakes e)),
                      (''full_handshakes'', show_word (ef_full_handshakes e))]
      | None \<Rightarrow> [])"

definition stats_kvs :: "scenario \<Rightarrow> run_params \<Rightarrow> run_stats \<Rightarrow> scenario_artifacts \<Rightarrow> (string \<times> string) list" where
  "stats_kvs s params stats art =
     (let thr = rs_throughput_gbps stats; lat = rs_latency_mean_us stats; p99 = rs_latency_p99_us stats in
      [(''runs'', show_nat (length (rs_runs stats))), (''throughput_gbps_mean'', num (sm_mean thr) 4),
       (''throughput_gbps_ci95'', num (sm_ci95 thr) 4), (''throughput_gbps_stddev'', num (sm_stddev thr) 4),
       (''throughput_gbps_min'', num (sm_min thr) 4), (''throughput_gbps_max'', num (sm_max thr) 4),
       (''throughput_gbps_cov'', num (sm_cov thr) 4), (''latency_mean_us'', num (sm_mean lat) 3),
       (''latency_mean_ci95'', num (sm_ci95 lat) 3), (''latency_p99_us_mean'', num (sm_mean p99) 3),
       (''latency_p99_us_ci95'', num (sm_ci95 p99) 3), (''handshake_us_mean'', num (sm_mean (rs_handshake_us stats)) 3),
       (''loss_pct'', num (rs_loss_pct stats) 4), (''total_lost'', show_word (rs_total_lost stats)),
       (''integrity_failures'', show_word (integrity_total stats)),
       (''boundary_violations'', show_word (boundary_total stats)),
       (''overloaded'', show_bool (is_overloaded stats art)), (''effective_protocol'', effective_label s art),
       (''encapsulation_overhead_bytes_analytical'', opt_cell show_word (analytical_overhead s params)),
       (''encapsulation_overhead_capture_verified'', ''false'')])"

definition summary_kvs :: "scenario \<Rightarrow> run_params \<Rightarrow> run_stats \<Rightarrow> scenario_artifacts \<Rightarrow> (string \<times> string) list" where
  "summary_kvs s params stats art =
     stats_kvs s params stats art
     @ opt_kvs cal_kvs (ar_cal art)
     @ opt_kvs (sys_kvs (sm_mean (rs_throughput_gbps stats))) (ar_sys art)
     @ opt_kvs perf_kvs (ar_perf art)
     @ opt_kvs (mem_kvs (total_messages stats)) (ar_mem_copies art)
     @ opt_kvs sweep_kvs (ar_sweep art)
     @ opt_kvs rtt_kvs (rs_rtt stats)
     @ opt_kvs conn_kvs (rs_conn stats)
     @ opt_kvs effective_kvs (ar_effective art)"

definition scenario_summary_csv :: "scenario \<Rightarrow> run_params \<Rightarrow> run_stats \<Rightarrow> scenario_artifacts \<Rightarrow> csv" where
  "scenario_summary_csv s params stats art = kv_table (summary_kvs s params stats art)"

definition run_row :: "nat \<Rightarrow> flow_summary \<Rightarrow> string list" where
  "run_row index r =
     (let l = fs_latency_us r in
      [show_nat (index + 1), num (fs_throughput_gbps r) 4, num (fs_message_rate r) 1, show_word (fs_messages r),
       show_word (fs_bytes r), num (fs_duration_s r) 4, num (sm_mean l) 3, num (sm_p50 l) 3, num (sm_p90 l) 3,
       num (sm_p95 l) 3, num (sm_p99 l) 3, num (sm_p999 l) 3, num (sm_min l) 3, num (sm_max l) 3, num (fs_jitter_us r) 3,
       num (fs_loss_pct r) 4, show_word (ig_lost (fs_integrity r)), show_word (ig_duplicate (fs_integrity r)),
       show_word (ig_reordered (fs_integrity r)), show_word (fs_integrity_failures r),
       show_word (fs_boundary_violations r), show_nat (fs_outliers_removed r)])"

definition runs_csv :: "run_stats \<Rightarrow> csv" where
  "runs_csv stats = foldl (\<lambda>c (i, r). csv_row (run_row i r) c) (csv_new RUNS_HEADERS) (enumerate 0 (rs_runs stats))"

definition saturation_headers :: "string list" where
  "saturation_headers =
     [''point'', ''offered_mbps'', ''throughput_gbps'', ''loss_pct'', ''latency_p99_us'', ''pct_of_peak_throughput'',
      ''past_lossfree_knee'']"

definition saturation_row :: "sweep_result \<Rightarrow> nat \<Rightarrow> sweep_point \<Rightarrow> string list" where
  "saturation_row sweep i p =
     (let peak = sr_saturation_gbps sweep;
          pct_of_peak = (if flt 0 peak then sp_throughput_gbps p / peak * Fin 100 else 0);
          past_knee = (flt 0 (sr_knee_offered_mbps sweep) \<and> flt (sr_knee_offered_mbps sweep) (sp_offered_mbps p))
      in [show_nat (i + 1), num (sp_offered_mbps p) 3, num (sp_throughput_gbps p) 4, num (sp_loss_pct p) 4,
          num (sp_latency_p99_us p) 3, num pct_of_peak 1, show_bool past_knee])"

definition saturation_csv :: "sweep_result \<Rightarrow> csv" where
  "saturation_csv sweep =
     foldl (\<lambda>c (i, p). csv_row (saturation_row sweep i p) c) (csv_new saturation_headers) (enumerate 0 (sr_points sweep))"

definition nic_detail :: "nic \<Rightarrow> string" where
  "nic_detail n =
     ''speed_mbps='' @ opt_cell show_int (ni_speed_mbps n) @ '' mtu='' @ opt_cell show_word (ni_mtu n)
     @ '' state='' @ opt_cell (\<lambda>s. s) (ni_operstate n)"

definition sysinfo_csv :: "sys_info \<Rightarrow> csv" where
  "sysinfo_csv info = kv_table
     ([(''hostname'', si_hostname info), (''os'', si_os info), (''kernel'', si_kernel info), (''arch'', si_arch info),
       (''cpu_model'', si_cpu_model info), (''cpu_logical'', show_nat (si_cpu_logical info)),
       (''cpu_physical'', opt_cell show_nat (si_cpu_physical info)), (''cpu_mhz'', opt_cell (\<lambda>v. num v 1) (si_cpu_mhz info)),
       (''governor'', opt_cell (\<lambda>s. s) (si_governor info)), (''turbo'', opt_cell show_bool (si_turbo info)),
       (''smt'', opt_cell show_bool (si_smt info)), (''isolated_cpus'', opt_cell (\<lambda>s. s) (si_isolated_cpus info)),
       (''numa_nodes'', opt_cell show_nat (si_numa_nodes info)), (''mem_total_kb'', opt_cell show_word (si_mem_total_kb info)),
       (''thp'', opt_cell (\<lambda>s. s) (si_thp info)), (''ktls'', show_bool (si_ktls info)),
       (''ktls_usable'', show_bool (si_ktls_usable info)), (''wsl'', show_bool (si_wsl info)),
       (''io_uring'', opt_cell show_bool (si_io_uring info)), (''seshat_version'', si_seshat_version info),
       (''seshat_git'', opt_cell (\<lambda>s. s) (si_seshat_git info)), (''scg_git'', opt_cell (\<lambda>s. s) (si_scg_git info)),
       (''nic_count'', show_nat (length (si_nics info)))]
      @ map (\<lambda>n. (''nic.'' @ ni_name n, nic_detail n)) (si_nics info))"

definition reconstruct_summary_row :: "(string \<rightharpoonup> string) \<Rightarrow> (string \<rightharpoonup> string) \<Rightarrow> string list" where
  "reconstruct_summary_row config summary =
     map (\<lambda>header.
         let key = (if header = ''scenario'' then ''name'' else header)
         in case summary key of Some v \<Rightarrow> v | None \<Rightarrow> (case config key of Some v \<Rightarrow> v | None \<Rightarrow> []))
       SUMMARY_HEADERS"

section \<open>The directory\<close>

text \<open>The files of the directory itself, the directories under \<open>scenarios\<close> in the order \<open>read_dir\<close> lists them,
  and the files of each.\<close>

type_synonym files = "string \<rightharpoonup> string"

record tree =
  tr_top :: files
  tr_dirs :: "string list"
  tr_files :: "string \<Rightarrow> files"

text \<open>What a write does: it succeeds, it is refused, or it stops after some bytes.\<close>

datatype write_answer = Written | Refused | Torn nat

type_synonym disk = "string \<Rightarrow> string \<Rightarrow> write_answer"

definition make_dir :: "string \<Rightarrow> tree \<Rightarrow> tree" where
  "make_dir d t = (if d \<in> set (tr_dirs t) then t else t\<lparr>tr_dirs := tr_dirs t @ [d]\<rparr>)"

definition put_file :: "string \<Rightarrow> string \<Rightarrow> string \<Rightarrow> tree \<Rightarrow> tree" where
  "put_file d f text t = t\<lparr>tr_files := (tr_files t)(d := (tr_files t d)(f \<mapsto> text))\<rparr>"

definition write_file :: "disk \<Rightarrow> string \<Rightarrow> string \<Rightarrow> string \<Rightarrow> tree \<Rightarrow> tree \<times> bool" where
  "write_file disk d f text t =
     (case disk d f of
        Written \<Rightarrow> (put_file d f text t, True)
      | Refused \<Rightarrow> (t, False)
      | Torn n \<Rightarrow> (put_file d f (take n text) t, False))"

text \<open>Writes in order, up to the first that fails (\<open>?\<close>).\<close>

fun write_files :: "disk \<Rightarrow> string \<Rightarrow> (string \<times> string) list \<Rightarrow> tree \<Rightarrow> tree \<times> bool" where
  "write_files disk d [] t = (t, True)"
| "write_files disk d ((f, text) # ws) t =
     (case write_file disk d f text t of
        (t', False) \<Rightarrow> (t', False)
      | (t', True) \<Rightarrow> write_files disk d ws t')"

definition write_top :: "disk \<Rightarrow> string \<Rightarrow> string \<Rightarrow> tree \<Rightarrow> tree \<times> bool" where
  "write_top disk f text t =
     (case disk [] f of
        Written \<Rightarrow> (t\<lparr>tr_top := (tr_top t)(f \<mapsto> text)\<rparr>, True)
      | Refused \<Rightarrow> (t, False)
      | Torn n \<Rightarrow> (t\<lparr>tr_top := (tr_top t)(f \<mapsto> take n text)\<rparr>, False))"

record scenario_outcome =
  oc_name :: string
  oc_throughput_gbps :: f64
  oc_loss_pct :: f64
  oc_headline :: string

record comparison_outcome =
  co_group :: string
  co_scenario :: string
  co_transport :: string
  co_reference :: string
  co_gateway_reference :: "string option"
  co_throughput_gbps :: f64
  co_latency_mean_us :: f64
  co_latency_p99_us :: f64
  co_jitter_us :: f64
  co_loss_pct :: f64
  co_cpu_pct_peak :: "f64 option"
  co_rss_peak_kib :: "u64 option"
  co_pss_peak_kib :: "u64 option"

record result_dir =
  rd_root :: string
  rd_comparisons :: "comparison_outcome list"
  rd_started_unix :: u64
  rd_outcomes :: "scenario_outcome list"
  rd_tree :: tree

section \<open>Operations\<close>

text \<open>The first of \<open>tag\<close>, \<open>tag-1\<close>, \<open>tag-2\<close>, ... that does not exist; \<open>fuel\<close> bounds the search.\<close>

fun fresh_root :: "(string \<Rightarrow> bool) \<Rightarrow> string \<Rightarrow> nat \<Rightarrow> string \<Rightarrow> nat \<Rightarrow> string option" where
  "fresh_root taken tag k path 0 = None"
| "fresh_root taken tag k path (Suc fuel) =
     (if taken path then fresh_root taken tag (k + 1) (tag @ ''-'' @ show_nat k) fuel
      else Some path)"

definition empty_tree :: tree where
  "empty_tree = \<lparr>tr_top = Map.empty, tr_dirs = [], tr_files = (\<lambda>_. Map.empty)\<rparr>"

text \<open>\<open>Some (Inl ())\<close> when the directory cannot be created, \<open>None\<close> when the fuel ran out.\<close>

definition result_dir_create :: "(string \<Rightarrow> bool) \<Rightarrow> (string \<Rightarrow> bool) \<Rightarrow> u64 \<Rightarrow> nat \<Rightarrow> (unit + result_dir) option" where
  "result_dir_create mkdir taken now_ns fuel =
     (let started = now_ns div 1000000000; tag = format_timestamp started in
      case fresh_root taken tag 1 tag fuel of
        None \<Rightarrow> None
      | Some path \<Rightarrow>
          Some (if mkdir path
                then Inr \<lparr>rd_root = path, rd_comparisons = [], rd_started_unix = started, rd_outcomes = [],
                          rd_tree = empty_tree\<rparr>
                else Inl ()))"

definition result_dir_open :: "string \<Rightarrow> tree option \<Rightarrow> u64 \<Rightarrow> result_dir option" where
  "result_dir_open path dir now_ns =
     map_option (\<lambda>t. \<lparr>rd_root = path, rd_comparisons = [], rd_started_unix = now_ns div 1000000000, rd_outcomes = [],
                      rd_tree = t\<rparr>) dir"

definition scenario_recorded :: "tree \<Rightarrow> string \<Rightarrow> bool" where
  "scenario_recorded t name =
     list_ex (\<lambda>f. tr_files t (sanitize name) f \<noteq> None)
       [''summary.csv'', ''skip.csv'', ''stream_summary.csv'', ''hotreload.csv'']"

definition one_row :: "string list \<Rightarrow> string list \<Rightarrow> csv" where
  "one_row headers cells = csv_row cells (csv_new headers)"

text \<open>The files of a scenario, in the order they are written.\<close>

definition scenario_files :: "scenario \<Rightarrow> run_params \<Rightarrow> run_stats \<Rightarrow> scenario_artifacts \<Rightarrow> (string \<times> string) list" where
  "scenario_files s params stats art =
     [(''config.csv'', render (scenario_config_csv s params)),
      (''summary.csv'', render (scenario_summary_csv s params stats art)),
      (''runs.csv'', render (runs_csv stats))]
     @ opt_kv ''saturation.csv'' (\<lambda>r. render (saturation_csv r)) (ar_sweep art)
     @ [(''summary_row.csv'', render_body (one_row SUMMARY_HEADERS (summary_row s params stats art)))]"

definition comparison_of :: "scenario \<Rightarrow> run_params \<Rightarrow> run_stats \<Rightarrow> scenario_artifacts \<Rightarrow> comparison \<Rightarrow> comparison_outcome" where
  "comparison_of s params stats art c =
     \<lparr>co_group = Schema.cp_group c, co_scenario = sc_name s, co_transport = interface_label (sn_interface (rn_sender params)),
      co_reference = cp_reference c, co_gateway_reference = cp_gateway_reference c,
      co_throughput_gbps = sm_mean (rs_throughput_gbps stats), co_latency_mean_us = sm_mean (rs_latency_mean_us stats),
      co_latency_p99_us = sm_mean (rs_latency_p99_us stats), co_jitter_us = mean_jitter stats,
      co_loss_pct = rs_loss_pct stats, co_cpu_pct_peak = map_option sa_cpu_pct_peak (ar_sys art),
      co_rss_peak_kib = map_option sa_rss_peak_kib (ar_sys art), co_pss_peak_kib = map_option sa_pss_peak_kib (ar_sys art)\<rparr>"

definition record_scenario ::
  "disk \<Rightarrow> scenario \<Rightarrow> run_params \<Rightarrow> run_stats \<Rightarrow> scenario_artifacts \<Rightarrow> result_dir \<Rightarrow> result_dir \<times> bool" where
  "record_scenario disk s params stats art rd =
     (let d = sanitize (sc_name s) in
      case write_files disk d (scenario_files s params stats art) (make_dir d (rd_tree rd)) of
        (t, False) \<Rightarrow> (rd\<lparr>rd_tree := t\<rparr>, False)
      | (t, True) \<Rightarrow>
          (rd\<lparr>rd_tree := t,
              rd_outcomes := rd_outcomes rd @
                [\<lparr>oc_name = sc_name s, oc_throughput_gbps = sm_mean (rs_throughput_gbps stats),
                  oc_loss_pct = rs_loss_pct stats, oc_headline = outcome_headline stats\<rparr>],
              rd_comparisons := rd_comparisons rd @
                (case sc_comparison s of Some c \<Rightarrow> [comparison_of s params stats art c] | None \<Rightarrow> [])\<rparr>, True))"

definition stream_headers :: "string list" where
  "stream_headers =
     [''stream'', ''traffic_class'', ''dscp_tag'', ''throughput_gbps'', ''latency_mean_us'', ''latency_p50_us'', ''latency_p95_us'',
      ''latency_p99_us'', ''jitter_us'', ''loss_pct'', ''lost'', ''duplicate'', ''reordered'', ''co_corrected'', ''send_lag_mean_us'',
      ''send_lag_max_us'', ''dscp_preserved'']"

definition stream_row :: "stream_result \<Rightarrow> string list" where
  "stream_row st =
     (let sm = sr_summary st; l = fs_latency_us sm in
      [Streams.sr_name st, Streams.sr_traffic_class st, sr_dscp_label st, num (fs_throughput_gbps sm) 4, num (sm_mean l) 3,
       num (sm_p50 l) 3, num (sm_p95 l) 3, num (sm_p99 l) 3, num (fs_jitter_us sm) 3, num (fs_loss_pct sm) 4,
       show_word (ig_lost (fs_integrity sm)), show_word (ig_duplicate (fs_integrity sm)),
       show_word (ig_reordered (fs_integrity sm)), show_bool (sr_paced st), num (sr_send_lag_mean_us st) 3,
       num (sr_send_lag_max_us st) 3, opt_cell show_bool (sr_dscp_preserved st)])"

definition stream_files :: "multi_stream_result \<Rightarrow> (string \<times> string) list" where
  "stream_files r =
     [(''streams.csv'', render (foldl (\<lambda>c st. csv_row (stream_row st) c) (csv_new stream_headers) (ms_streams r))),
      (''stream_summary.csv'', render (kv_table
         [(''fairness_ratio'', num (ms_fairness_ratio r) 4), (''safety_loss_free'', show_bool (ms_safety_loss_free r)),
          (''safety_p99_us'', opt_cell (\<lambda>v. num v 3) (ms_safety_p99_us r))]))]"

definition record_files :: "disk \<Rightarrow> string \<Rightarrow> (string \<times> string) list \<Rightarrow> result_dir \<Rightarrow> result_dir \<times> bool" where
  "record_files disk name ws rd =
     (let d = sanitize name in
      case write_files disk d ws (make_dir d (rd_tree rd)) of (t, ok) \<Rightarrow> (rd\<lparr>rd_tree := t\<rparr>, ok))"

definition record_stream_results :: "disk \<Rightarrow> string \<Rightarrow> multi_stream_result \<Rightarrow> result_dir \<Rightarrow> result_dir \<times> bool" where
  "record_stream_results disk name r = record_files disk name (stream_files r)"

record reload_artifact =
  ra_action :: string
  ra_fired :: bool
  ra_action_succeeded :: bool
  ra_reload_duration_us :: u64
  ra_connections_before :: nat
  ra_connections_after :: nat
  ra_inflight_packets_lost :: u64
  ra_latency_p99_us :: f64
  ra_throughput_gbps :: f64
  ra_rollback_continuity_passed :: "bool option"
  ra_change_applied :: "bool option"

definition reload_csv :: "reload_artifact \<Rightarrow> csv" where
  "reload_csv a = kv_table
     [(''action'', ra_action a), (''reload_fired'', show_bool (ra_fired a)),
      (''action_succeeded'', show_bool (ra_action_succeeded a)), (''reload_duration_us'', show_word (ra_reload_duration_us a)),
      (''connections_before'', show_nat (ra_connections_before a)), (''connections_after'', show_nat (ra_connections_after a)),
      (''inflight_packets_lost'', show_word (ra_inflight_packets_lost a)), (''latency_p99_us'', num (ra_latency_p99_us a) 3),
      (''throughput_during_reload_gbps'', num (ra_throughput_gbps a) 4),
      (''rollback_continuity_passed'', opt_cell show_bool (ra_rollback_continuity_passed a)),
      (''change_applied'', opt_cell show_bool (ra_change_applied a))]"

definition record_reload_artifact :: "disk \<Rightarrow> string \<Rightarrow> reload_artifact \<Rightarrow> result_dir \<Rightarrow> result_dir \<times> bool" where
  "record_reload_artifact disk name a = record_files disk name [(''hotreload.csv'', render (reload_csv a))]"

definition SKIP_HEADERS :: "string list" where "SKIP_HEADERS = [''scenario'', ''reason'']"

definition skip_files :: "string \<Rightarrow> string \<Rightarrow> (string \<times> string) list" where
  "skip_files name reason =
     [(''skip.csv'', render (kv_table [(''scenario'', name), (''reason'', reason)])),
      (''skip_row.csv'', render_body (one_row SKIP_HEADERS [name, reason]))]"

definition record_skipped :: "disk \<Rightarrow> string \<Rightarrow> string \<Rightarrow> result_dir \<Rightarrow> result_dir \<times> bool" where
  "record_skipped disk name reason = record_files disk name (skip_files name reason)"

section \<open>The consolidated tables\<close>

definition scenario_dirs :: "tree \<Rightarrow> string list" where
  "scenario_dirs t = str_sort (tr_dirs t)"

definition unwrap_or_empty :: "(string \<rightharpoonup> string) option \<Rightarrow> (string \<rightharpoonup> string)" where
  "unwrap_or_empty m = (case m of Some m \<Rightarrow> m | None \<Rightarrow> Map.empty)"

text \<open>What a directory adds to \<open>summary.csv\<close>: the stored row, or one put together from its key/value tables.\<close>

definition summary_entry :: "files \<Rightarrow> string option" where
  "summary_entry fs =
     (case fs ''summary_row.csv'' of
        Some text \<Rightarrow> Some text
      | None \<Rightarrow>
          map_option (\<lambda>kv. render_body (one_row SUMMARY_HEADERS
              (reconstruct_summary_row (unwrap_or_empty (map_option read_key_value (fs ''config.csv''))) (read_key_value kv))))
            (fs ''summary.csv''))"

definition unwrap_or_default :: "string option \<Rightarrow> string" where
  "unwrap_or_default v = (case v of Some s \<Rightarrow> s | None \<Rightarrow> [])"

definition skip_entry :: "files \<Rightarrow> string option" where
  "skip_entry fs =
     (case fs ''skip_row.csv'' of
        Some text \<Rightarrow> Some text
      | None \<Rightarrow>
          map_option (\<lambda>kv. let m = read_key_value kv in
              render_body (one_row SKIP_HEADERS [unwrap_or_default (m ''scenario''), unwrap_or_default (m ''reason'')]))
            (fs ''skip.csv''))"

definition rebuild_step :: "(files \<Rightarrow> string option) \<Rightarrow> tree \<Rightarrow> string \<Rightarrow> string \<times> nat \<Rightarrow> string \<times> nat" where
  "rebuild_step entry t d st =
     (case entry (tr_files t d) of
        Some text \<Rightarrow> (fst st @ text, snd st + 1)
      | None \<Rightarrow> st)"

definition rebuild_table :: "string list \<Rightarrow> (files \<Rightarrow> string option) \<Rightarrow> tree \<Rightarrow> string \<times> nat" where
  "rebuild_table headers entry t = fold (rebuild_step entry t) (scenario_dirs t) (render (csv_new headers), 0)"

definition rebuild_summary :: "disk \<Rightarrow> tree \<Rightarrow> tree \<times> nat option" where
  "rebuild_summary disk t =
     (let (out, n) = rebuild_table SUMMARY_HEADERS summary_entry t;
          (t, ok) = write_top disk ''summary.csv'' out t
      in (t, if ok then Some n else None))"

definition rebuild_skipped :: "disk \<Rightarrow> tree \<Rightarrow> tree \<times> nat option" where
  "rebuild_skipped disk t =
     (let (out, n) = rebuild_table SKIP_HEADERS skip_entry t;
          (t, ok) = write_top disk ''skipped.csv'' out t
      in (t, if ok then Some n else None))"

definition rebuild_consolidated :: "disk \<Rightarrow> tree \<Rightarrow> tree \<times> (nat \<times> nat) option" where
  "rebuild_consolidated disk t =
     (case rebuild_summary disk t of
        (t, None) \<Rightarrow> (t, None)
      | (t, Some executed) \<Rightarrow>
          (case rebuild_skipped disk t of
             (t, None) \<Rightarrow> (t, None)
           | (t, Some skipped) \<Rightarrow> (t, Some (executed, skipped))))"

definition comparison_headers :: "string list" where
  "comparison_headers =
     [''group'', ''scenario'', ''transport'', ''reference_scenario'', ''gateway_reference_scenario'', ''throughput_gbps'',
      ''latency_mean_us'', ''latency_p99_us'', ''jitter_us'', ''loss_pct'', ''cpu_pct_peak'', ''rss_peak_kib'', ''pss_peak_kib'',
      ''throughput_delta_vs_direct_gbps'', ''latency_p99_delta_vs_direct_us'', ''throughput_delta_vs_gateway_gbps'',
      ''latency_p99_delta_vs_gateway_us'']"

definition by_scenario :: "comparison_outcome list \<Rightarrow> (string \<rightharpoonup> comparison_outcome)" where
  "by_scenario rows = fold (\<lambda>r m. m(co_scenario r \<mapsto> r)) rows Map.empty"

definition comparison_csv_row :: "(string \<rightharpoonup> comparison_outcome) \<Rightarrow> comparison_outcome \<Rightarrow> string list" where
  "comparison_csv_row by_name r =
     (let direct = by_name (co_reference r); gateway = Option.bind (co_gateway_reference r) by_name in
      [co_group r, co_scenario r, co_transport r, co_reference r, opt_cell (\<lambda>s. s) (co_gateway_reference r),
       num (co_throughput_gbps r) 4, num (co_latency_mean_us r) 3, num (co_latency_p99_us r) 3, num (co_jitter_us r) 3,
       num (co_loss_pct r) 4, opt_cell (\<lambda>v. num v 1) (co_cpu_pct_peak r), opt_cell show_word (co_rss_peak_kib r),
       opt_cell show_word (co_pss_peak_kib r),
       opt_cell (\<lambda>x. num (co_throughput_gbps r - co_throughput_gbps x) 4) direct,
       opt_cell (\<lambda>x. num (co_latency_p99_us r - co_latency_p99_us x) 3) direct,
       opt_cell (\<lambda>x. num (co_throughput_gbps r - co_throughput_gbps x) 4) gateway,
       opt_cell (\<lambda>x. num (co_latency_p99_us r - co_latency_p99_us x) 3) gateway])"

definition write_interface_comparison :: "disk \<Rightarrow> comparison_outcome list \<Rightarrow> tree \<Rightarrow> tree \<times> bool" where
  "write_interface_comparison disk rows t =
     (if rows = [] then (t, True)
      else write_top disk ''interface_comparison.csv''
             (render (foldl (\<lambda>c r. csv_row (comparison_csv_row (by_scenario rows) r) c) (csv_new comparison_headers) rows)) t)"

definition meta_kvs :: "string \<Rightarrow> config \<Rightarrow> string \<Rightarrow> sys_info \<Rightarrow> u64 \<Rightarrow> nat \<Rightarrow> nat \<Rightarrow> (string \<times> string) list" where
  "meta_kvs version cfg config_path host started executed skipped =
     [(''tool'', ''seshat''), (''version'', version), (''config'', config_path),
      (''suite_name'', Schema.su_name (cf_suite cfg)), (''suite_version'', Schema.su_version (cf_suite cfg)),
      (''started_unix'', show_word started), (''started_utc'', format_datetime started),
      (''scenarios_executed'', show_nat executed), (''scenarios_skipped'', show_nat skipped),
      (''collect_system_metrics'', show_bool (df_collect_system_metrics (cf_defaults cfg))),
      (''metrics_backend'', metrics_backend_label (df_metrics_backend (cf_defaults cfg))),
      (''host_wsl'', show_bool (si_wsl host)), (''ktls_usable'', show_bool (si_ktls_usable host))]"

definition result_dir_finish :: "disk \<Rightarrow> string \<Rightarrow> config \<Rightarrow> string \<Rightarrow> sys_info \<Rightarrow> result_dir \<Rightarrow> tree \<times> (nat \<times> nat) option" where
  "result_dir_finish disk version cfg config_path host rd =
     (case rebuild_consolidated disk (rd_tree rd) of
        (t, None) \<Rightarrow> (t, None)
      | (t, Some (executed, skipped)) \<Rightarrow>
          (case write_top disk ''meta.csv''
                  (render (kv_table (meta_kvs version cfg config_path host (rd_started_unix rd) executed skipped))) t of
             (t, False) \<Rightarrow> (t, None)
           | (t, True) \<Rightarrow>
               (case write_interface_comparison disk (rd_comparisons rd) t of
                  (t, ok) \<Rightarrow> (t, if ok then Some (executed, skipped) else None))))"

definition write_sysinfo :: "disk \<Rightarrow> sys_info \<Rightarrow> result_dir \<Rightarrow> result_dir \<times> bool" where
  "write_sysinfo disk info rd =
     (case write_top disk ''sysinfo.csv'' (render (sysinfo_csv info)) (rd_tree rd) of (t, ok) \<Rightarrow> (rd\<lparr>rd_tree := t\<rparr>, ok))"

text \<open>The samples of each process, in the directory \<open>system_metrics\<close> of the scenario; nothing when there are none.\<close>

definition record_system_metrics :: "disk \<Rightarrow> int \<Rightarrow> string \<Rightarrow> system_sample list \<Rightarrow> result_dir \<Rightarrow> result_dir \<times> bool" where
  "record_system_metrics disk sc_clk_tck name samples rd =
     (if samples = [] then (rd, True)
      else record_files disk name (map (\<lambda>(f, x). (''system_metrics/'' @ f, x)) (sys_csv_files sc_clk_tck samples)) rd)"

end
