(* ===== verification/Result_Rows.thy ===== *)
theory Result_Rows
  imports Results
begin

text \<open>
  The tables of \<open>src/src/report/results.rs\<close> read back: the key/value tables as finite maps, the parts a summary
  row is made of, and the agreement of a row put together from the stored tables with the row recorded live.
\<close>

section \<open>Reading back what was written\<close>

lemma split_plain:
  "list_all (\<lambda>c. \<not> needs_quotes c) g \<Longrightarrow> split_csv (g @ s) fs f False = split_csv s fs (f @ g) False"
  by (induction g arbitrary: f) (auto simp: needs_quotes_def)

lemma split_quoted:
  assumes "s = [] \<or> hd s \<noteq> DQUOTE"
  shows "split_csv (concat (map (\<lambda>c. if c = DQUOTE then [DQUOTE, c] else [c]) g) @ DQUOTE # s) fs f True
       = split_csv s fs (f @ g) False"
proof (induction g arbitrary: f)
  case Nil
  then show ?case using assms by (cases s) auto
qed auto

lemma split_escaped:
  assumes "s = [] \<or> hd s \<noteq> DQUOTE"
  shows "split_csv (escape g @ s) fs [] False = split_csv s fs g False"
proof (cases "list_ex needs_quotes g")
  case True
  then show ?thesis using split_quoted [OF assms, of g fs "[]"] by (simp add: escape_def)
next
  case False
  then have "list_all (\<lambda>c. \<not> needs_quotes c) g" by (auto simp: list_ex_iff list_all_iff)
  then show ?thesis using False split_plain [of g s fs "[]"] by (simp add: escape_def)
qed

lemma split_record: "gs \<noteq> [] \<Longrightarrow> split_csv (join_with '','' (map escape gs)) fs [] False = fs @ gs"
proof (induction gs arbitrary: fs)
  case (Cons g gs)
  show ?case
  proof (cases gs)
    case Nil
    then show ?thesis using split_escaped [of "[]" g fs] by simp
  next
    case (Cons g' gs')
    then show ?thesis using Cons.IH [of "fs @ [g]"] split_escaped [of "CHR '','' # _" g fs] by simp
  qed
qed simp

lemma split_line_record: "gs \<noteq> [] \<Longrightarrow> split_csv_line (join_with '','' (map escape gs)) = gs"
  by (simp add: split_csv_line_def split_record)

text \<open>The lines of a text whose records hold no line feed.\<close>

lemma split_on_crlf:
  assumes "list_all (\<lambda>l. LF \<notin> set l) ls"
  shows "split_on LF (concat (map (\<lambda>l. l @ [CR, LF]) ls)) = map (\<lambda>l. l @ [CR]) ls @ [[]]"
  using assms
proof (induction ls)
  case Nil
  then show ?case by (simp add: split_on_def)
next
  case (Cons l ls)
  have "list_all (\<lambda>c. \<not> c = LF) (l @ [CR])" using Cons.prems by (auto simp: list_all_iff)
  then show ?case using Cons split_if_append [of "\<lambda>c. c = LF" "l @ [CR]" LF] by (simp add: split_on_def)
qed

lemma lines_crlf:
  "list_all (\<lambda>l. LF \<notin> set l) ls \<Longrightarrow> lines (concat (map (\<lambda>l. l @ [CR, LF]) ls)) = ls"
  by (simp add: lines_def split_on_crlf strip_cr_def rev_map comp_def)

definition no_lf :: "string \<Rightarrow> bool" where
  "no_lf s = (LF \<notin> set s)"

lemma no_lf_escape: "no_lf s \<Longrightarrow> no_lf (escape s)"
  by (auto simp: no_lf_def escape_def split: if_splits)

lemma no_lf_join: "list_all no_lf ws \<Longrightarrow> no_lf (join_with '','' ws)"
  by (induction "'',''" ws rule: join_with.induct) (auto simp: no_lf_def)

definition no_lf_kvs :: "(string \<times> string) list \<Rightarrow> bool" where
  "no_lf_kvs kvs = list_all (\<lambda>(k, v). no_lf k \<and> no_lf v) kvs"

lemma kv_table_rows: "kv_table kvs = \<lparr>cv_headers = [''key'', ''value''], cv_rows = map (\<lambda>(k, v). [k, v]) kvs\<rparr>"
proof -
  have "foldl (\<lambda>c (k, v). csv_kv k v c) c kvs = c\<lparr>cv_rows := cv_rows c @ map (\<lambda>(k, v). [k, v]) kvs\<rparr>" for c
    by (induction kvs arbitrary: c) (auto simp: csv_kv_def)
  then show ?thesis by (simp add: kv_table_def key_value_def csv_new_def)
qed

definition kv_lines :: "(string \<times> string) list \<Rightarrow> string list" where
  "kv_lines kvs = map (\<lambda>cells. join_with '','' (map escape cells)) ([''key'', ''value''] # map (\<lambda>(k, v). [k, v]) kvs)"

lemma render_kv_table: "render (kv_table kvs) = concat (map (\<lambda>l. l @ [CR, LF]) (kv_lines kvs))"
  unfolding kv_table_rows render_def csv.simps write_row_append [of "write_row _ _"] kv_lines_def
  by (simp add: write_row_def comp_def)

lemma kv_line_record: "kv_line (join_with '','' (map escape [k, v])) m = m(k \<mapsto> v)"
proof -
  have "join_with '','' (map escape [k, v]) \<noteq> []" by simp
  then show ?thesis using split_line_record [of "[k, v]"] by (simp add: kv_line_def del: join_with.simps)
qed

lemma fold_kv_lines:
  "fold kv_line (map (\<lambda>cells. join_with '','' (map escape cells)) (map (\<lambda>(k, v). [k, v]) kvs)) m = m ++ map_of (rev kvs)"
proof (induction kvs arbitrary: m)
  case (Cons kv kvs)
  then show ?case using kv_line_record [of "fst kv" "snd kv" m] by (cases kv) (simp add: map_add_def fun_eq_iff split: option.split)
qed simp

lemma read_back:
  assumes "no_lf_kvs kvs"
  shows "read_key_value (render (kv_table kvs)) = map_of (rev kvs)"
proof -
  have "no_lf (escape ''key'')" "no_lf (escape ''value'')"
    by (rule no_lf_escape, simp add: no_lf_def)+
  then have "list_all no_lf (kv_lines kvs)"
    unfolding kv_lines_def list.pred_map using assms
    by (auto simp: list_all_iff no_lf_kvs_def intro!: no_lf_join no_lf_escape) (simp add: no_lf_def)
  then have "lines (render (kv_table kvs)) = kv_lines kvs"
    unfolding render_kv_table no_lf_def by (rule lines_crlf)
  then show ?thesis using fold_kv_lines [of kvs Map.empty] by (simp add: read_key_value_def kv_lines_def)
qed

text \<open>
  The key/value artifacts read back as written: every key maps to the value last written under it,
  whatever commas, quotes and carriage returns keys and values hold, as long as they are free of line feeds.
\<close>

theorem key_value_round_trip:
  assumes "no_lf_kvs kvs"
  shows "read_key_value (render (kv_table kvs)) = map_of (rev kvs)"
  by (rule read_back [OF assms])

lemma key_value_round_trip_witness:
  "read_key_value (render (kv_table [(''a'', ''1''), (''b,c'', [DQUOTE, CR])])) = [''a'' \<mapsto> ''1'', ''b,c'' \<mapsto> [DQUOTE, CR]]"
  using key_value_round_trip [of "[(''a'', ''1''), (''b,c'', [DQUOTE, CR])]"]
  by (simp add: no_lf_kvs_def no_lf_def fun_upd_twist)

text \<open>A value with a line feed does not survive: the reader takes the lines for records.\<close>

lemma line_feed_lost: "read_key_value (render (kv_table [(''reason'', [CHR ''a'', LF, CHR ''b''])])) ''reason'' = Some ''a''"
  by (simp add: kv_table_def csv_kv_def key_value_def csv_new_def render_def write_row_def escape_def needs_quotes_def
      read_key_value_def lines_def split_on_def strip_cr_def kv_line_def split_csv_line_def)

section \<open>The row of a scenario\<close>

lemma length_summary_headers: "length SUMMARY_HEADERS = 69" by (simp add: SUMMARY_HEADERS_def)

lemma length_summary_row: "length (summary_row s params stats art) = 69"
  by (simp add: summary_row_def Let_def calibration_cells_def cpu_cells_def rtt_cells_def conn_cells_def perf_cells_def)

lemma length_run_row: "length (run_row i r) = length RUNS_HEADERS"
  by (simp add: run_row_def RUNS_HEADERS_def Let_def)

lemma length_stream_row: "length (stream_row st) = length stream_headers"
  by (simp add: stream_row_def stream_headers_def Let_def)

lemma length_saturation_row: "length (saturation_row sweep i p) = length saturation_headers"
  by (simp add: saturation_row_def saturation_headers_def Let_def)

lemma length_comparison_row: "length (comparison_csv_row m r) = length comparison_headers"
  by (simp add: comparison_csv_row_def comparison_headers_def Let_def)

lemma length_reconstructed: "length (reconstruct_summary_row c m) = 69"
  by (simp add: reconstruct_summary_row_def length_summary_headers)

text \<open>Looking a key up in a table of optional parts.\<close>

lemma lookup_append:
  "map_of (rev (xs @ ys)) k = (case map_of (rev ys) k of Some v \<Rightarrow> Some v | None \<Rightarrow> map_of (rev xs) k)"
  by (simp add: map_add_def)

lemma lookup_opt_kvs: "map_of (rev (opt_kvs f x)) k = Option.bind x (\<lambda>v. map_of (rev (f v)) k)"
  by (simp add: opt_kvs_def split: option.split)

lemma lookup_opt_kv: "map_of (rev (opt_kv k f x)) k' = (if k' = k then map_option f x else None)"
  by (auto simp: opt_kv_def split: option.split)

lemma lookup_Cons: "map_of (rev ((a, b) # xs)) k = (case map_of (rev xs) k of Some v \<Rightarrow> Some v | None \<Rightarrow> if k = a then Some b else None)"
  by (simp add: map_add_def split: option.split)

lemma lookup_Nil: "map_of (rev []) k = None" by simp

lemma bind_None: "Option.bind x (\<lambda>_. None) = None" by (cases x) auto

lemmas lookup_simps = lookup_append lookup_opt_kvs lookup_opt_kv lookup_Cons lookup_Nil bind_None

definition cell_of :: "string \<Rightarrow> (string \<rightharpoonup> string) \<Rightarrow> (string \<rightharpoonup> string) \<Rightarrow> string" where
  "cell_of k config summary = (case summary k of Some v \<Rightarrow> v | None \<Rightarrow> (case config k of Some v \<Rightarrow> v | None \<Rightarrow> []))"

definition unsaved_columns :: "string list" where
  "unsaved_columns = [''jitter_us_mean'', ''co_corrected'', ''send_lag_mean_us'', ''send_lag_max_us'']"

lemma opt_cell_bind:
  "(case Option.bind x f of None \<Rightarrow> [] | Some v \<Rightarrow> v) = opt_cell (\<lambda>y. case f y of None \<Rightarrow> [] | Some v \<Rightarrow> v) x"
  "(case map_option g x of None \<Rightarrow> [] | Some v \<Rightarrow> v) = opt_cell g x"
  "opt_cell q (Option.bind x h) = opt_cell (\<lambda>y. opt_cell q (h y)) x"
  by (cases x; simp add: opt_cell_def)+

lemma case_None_id: "(case x of None \<Rightarrow> None | Some v \<Rightarrow> Some v) = x" by (cases x) auto

lemma effective_kvs_opt:
  "effective_kvs e = opt_kvs (\<lambda>r. [(''resumed_fraction'', num r 3), (''resumed_handshakes'', show_word (ef_resumed_handshakes e)),
     (''full_handshakes'', show_word (ef_full_handshakes e))]) (resumed_fraction e)"
  by (simp add: effective_kvs_def opt_kvs_def split: option.split)

lemmas kvs_defs = summary_kvs_def stats_kvs_def cal_kvs_def sys_kvs_def perf_kvs_def mem_kvs_def sweep_kvs_def
  rtt_kvs_def conn_kvs_def effective_kvs_opt config_kvs_def

definition saved_cells :: "string list \<Rightarrow> string list" where
  "saved_cells row = map snd (filter (\<lambda>(h, c). h \<notin> set unsaved_columns) (zip SUMMARY_HEADERS row))"

text \<open>The keys of the parts of the key/value summary; no two parts share one.\<close>

definition part_keys :: "string list list" where
  "part_keys =
     [[''runs'', ''throughput_gbps_mean'', ''throughput_gbps_ci95'', ''throughput_gbps_stddev'', ''throughput_gbps_min'',
       ''throughput_gbps_max'', ''throughput_gbps_cov'', ''latency_mean_us'', ''latency_mean_ci95'', ''latency_p99_us_mean'',
       ''latency_p99_us_ci95'', ''handshake_us_mean'', ''loss_pct'', ''total_lost'', ''integrity_failures'',
       ''boundary_violations'', ''overloaded'', ''effective_protocol'', ''encapsulation_overhead_bytes_analytical'',
       ''encapsulation_overhead_capture_verified''],
      [''ceiling_gbps'', ''headroom'', ''harness_limited'', ''dut'', ''bottleneck'', ''ceiling_transport''],
      [''cpu_pct_peak'', ''cpu_pct_mean'', ''cpu_pct_p95'', ''cpu_hot_thread_pct_p95'', ''host_busy_frac_p95'',
       ''cpu_seconds_total'', ''ctx_switches_total'', ''ctx_switches_per_s'', ''rss_peak_kib'', ''pss_peak_kib'', ''gbps_per_core''],
      [''perf_cycles'', ''perf_instructions'', ''perf_ipc'', ''perf_cache_references'', ''perf_cache_misses'',
       ''perf_context_switches'', ''perf_syscalls'', ''perf_task_clock_ms'', ''perf_duration_s''],
      [''mem_copies_per_msg'', ''mem_copy_to_user'', ''mem_copy_from_user'', ''mem_splice_syscalls'', ''mem_poll_syscalls'',
       ''mem_io_uring_enter''],
      [''saturation_gbps'', ''max_lossfree_gbps'', ''knee_offered_mbps''],
      [''rtt_us_mean'', ''rtt_us_ci95'', ''rtt_us_p50'', ''rtt_us_p99'', ''rtt_samples''],
      [''conns_per_sec'', ''conns_per_sec_ci95'', ''conn_handshake_p50_us'', ''conn_handshake_p99_us'', ''conn_total''],
      [''resumed_fraction'', ''resumed_handshakes'', ''full_handshakes'']]"

definition summary_parts :: "scenario \<Rightarrow> run_params \<Rightarrow> run_stats \<Rightarrow> scenario_artifacts \<Rightarrow> (string \<times> string) list list" where
  "summary_parts s params stats art =
     [stats_kvs s params stats art, opt_kvs cal_kvs (ar_cal art),
      opt_kvs (sys_kvs (sm_mean (rs_throughput_gbps stats))) (ar_sys art), opt_kvs perf_kvs (ar_perf art),
      opt_kvs (mem_kvs (total_messages stats)) (ar_mem_copies art), opt_kvs sweep_kvs (ar_sweep art),
      opt_kvs rtt_kvs (rs_rtt stats), opt_kvs conn_kvs (rs_conn stats), opt_kvs effective_kvs (ar_effective art)]"

lemma summary_kvs_parts: "summary_kvs s params stats art = concat (summary_parts s params stats art)"
  by (simp add: summary_kvs_def summary_parts_def)

lemma opt_kvs_keys: "(\<And>v. set (map fst (f v)) \<subseteq> A) \<Longrightarrow> set (map fst (opt_kvs f x)) \<subseteq> A"
  by (cases x) (auto simp: opt_kvs_def)

lemma part_keys_cover:
  "list_all2 (\<lambda>ks part. set (map fst part) \<subseteq> set ks) part_keys (summary_parts s params stats art)"
  unfolding part_keys_def summary_parts_def
  by (simp only: list_all2_Cons list_all2_Nil, intro conjI TrueI opt_kvs_keys)
     (auto simp: cal_kvs_def sweep_kvs_def rtt_kvs_def conn_kvs_def effective_kvs_def mem_kvs_def perf_kvs_def sys_kvs_def
      stats_kvs_def Let_def opt_kv_def split: option.splits)

lemma distinct_part_keys: "distinct (concat part_keys)"
  by (simp add: part_keys_def)

lemma concat_keys:
  "list_all2 (\<lambda>ks part. set (map fst part) \<subseteq> set ks) kss parts \<Longrightarrow> set (map fst (concat parts)) \<subseteq> set (concat kss)"
proof (induction rule: list_all2_induct)
  case (Cons ks kss part parts)
  then show ?case unfolding concat.simps map_append set_append by (intro Un_mono)
qed simp

lemma lookup_part:
  assumes "list_all2 (\<lambda>ks part. set (map fst part) \<subseteq> set ks) kss parts" "distinct (concat kss)"
    and "i < length kss" "k \<in> set (kss ! i)"
  shows "map_of (rev (concat parts)) k = map_of (rev (parts ! i)) k"
  using assms
proof (induction kss parts arbitrary: i rule: list_all2_induct)
  case (Cons ks kss part parts)
  have all: "set (map fst (concat parts)) \<subseteq> set (concat kss)" by (rule concat_keys [OF Cons.hyps(2)])
  show ?case
  proof (cases i)
    case 0
    then have "k \<notin> set (concat kss)" using Cons.prems by auto
    then have "map_of (rev (concat parts)) k = None" using all by (auto simp: map_of_eq_None_iff)
    then show ?thesis using 0 by (simp add: map_add_def)
  next
    case (Suc j)
    then have "k \<in> set (concat kss)" using Cons.prems(2,3) by (auto intro!: bexI [of _ "kss ! j"])
    then have "k \<notin> set ks" using Cons.prems(1) by auto
    then have "map_of (rev part) k = None" using Cons.hyps(1) by (auto simp: map_of_eq_None_iff)
    moreover have "map_of (rev (concat parts)) k = map_of (rev (parts ! j)) k" using Cons.IH [of j] Cons.prems Suc by auto
    ultimately show ?thesis using Suc by (simp add: map_add_def split: option.split)
  qed
qed simp

lemma summary_lookup:
  "i < 9 \<Longrightarrow> k \<in> set (part_keys ! i) \<Longrightarrow>
     map_of (rev (summary_kvs s params stats art)) k = map_of (rev (summary_parts s params stats art ! i)) k"
  unfolding summary_kvs_parts by (rule lookup_part [OF part_keys_cover distinct_part_keys]) (simp_all add: part_keys_def)

lemma cell_part:
  assumes "k \<in> set (part_keys ! i)" "i < 9" "config k = None"
  shows "cell_of k config (map_of (rev (summary_kvs s params stats art)))
       = (case map_of (rev (summary_parts s params stats art ! i)) k of Some v \<Rightarrow> v | None \<Rightarrow> [])"
  by (simp add: cell_of_def summary_lookup [OF assms(2,1)] assms(3) split: option.split)

lemma cell_config:
  assumes "k \<notin> set (concat part_keys)"
  shows "cell_of k config (map_of (rev (summary_kvs s params stats art))) = (case config k of Some v \<Rightarrow> v | None \<Rightarrow> [])"
proof -
  have "k \<notin> set (map fst (summary_kvs s params stats art))"
    unfolding summary_kvs_parts using concat_keys [OF part_keys_cover] assms by blast
  then have "map_of (rev (summary_kvs s params stats art)) k = None" by (simp add: map_of_eq_None_iff)
  then show ?thesis by (simp add: cell_of_def)
qed

lemma opt_cell_id: "opt_cell id x = (case x of Some v \<Rightarrow> v | None \<Rightarrow> [])"
  by (simp add: opt_cell_def split: option.split)

lemma part_values:
  "k \<in> set (part_keys ! 1) \<Longrightarrow> config k = None \<Longrightarrow> cell_of k config (map_of (rev (summary_kvs s params stats art)))
     = opt_cell (\<lambda>c. opt_cell id (map_of (rev (cal_kvs c)) k)) (ar_cal art)"
  "k \<in> set (part_keys ! 2) \<Longrightarrow> config k = None \<Longrightarrow> cell_of k config (map_of (rev (summary_kvs s params stats art)))
     = opt_cell (\<lambda>a. opt_cell id (map_of (rev (sys_kvs (sm_mean (rs_throughput_gbps stats)) a)) k)) (ar_sys art)"
  "k \<in> set (part_keys ! 3) \<Longrightarrow> config k = None \<Longrightarrow> cell_of k config (map_of (rev (summary_kvs s params stats art)))
     = opt_cell (\<lambda>p. opt_cell id (map_of (rev (perf_kvs p)) k)) (ar_perf art)"
  "k \<in> set (part_keys ! 4) \<Longrightarrow> config k = None \<Longrightarrow> cell_of k config (map_of (rev (summary_kvs s params stats art)))
     = opt_cell (\<lambda>m. opt_cell id (map_of (rev (mem_kvs (total_messages stats) m)) k)) (ar_mem_copies art)"
  "k \<in> set (part_keys ! 5) \<Longrightarrow> config k = None \<Longrightarrow> cell_of k config (map_of (rev (summary_kvs s params stats art)))
     = opt_cell (\<lambda>w. opt_cell id (map_of (rev (sweep_kvs w)) k)) (ar_sweep art)"
  "k \<in> set (part_keys ! 6) \<Longrightarrow> config k = None \<Longrightarrow> cell_of k config (map_of (rev (summary_kvs s params stats art)))
     = opt_cell (\<lambda>r. opt_cell id (map_of (rev (rtt_kvs r)) k)) (rs_rtt stats)"
  "k \<in> set (part_keys ! 7) \<Longrightarrow> config k = None \<Longrightarrow> cell_of k config (map_of (rev (summary_kvs s params stats art)))
     = opt_cell (\<lambda>n. opt_cell id (map_of (rev (conn_kvs n)) k)) (rs_conn stats)"
  "k \<in> set (part_keys ! 8) \<Longrightarrow> config k = None \<Longrightarrow> cell_of k config (map_of (rev (summary_kvs s params stats art)))
     = opt_cell (\<lambda>e. opt_cell id (map_of (rev (effective_kvs e)) k)) (ar_effective art)"
  using cell_part [where i = 1] cell_part [where i = 2] cell_part [where i = 3] cell_part [where i = 4]
    cell_part [where i = 5] cell_part [where i = 6] cell_part [where i = 7] cell_part [where i = 8]
  by (simp_all add: summary_parts_def lookup_opt_kvs opt_cell_bind opt_cell_id [symmetric])

lemma cell_stats:
  "map_of (rev (stats_kvs s params stats art)) k = Some v \<Longrightarrow> k \<in> set (part_keys ! 0)
     \<Longrightarrow> cell_of k config (map_of (rev (summary_kvs s params stats art))) = v"
  using summary_lookup [of 0 k s params stats art] by (simp add: cell_of_def summary_parts_def)

lemma config_None: "k \<notin> set (map fst (config_kvs s params)) \<Longrightarrow> map_of (rev (config_kvs s params)) k = None"
  by (simp add: map_of_eq_None_iff)

lemma config_keys: "map fst (config_kvs s params) = [''name'', ''category'', ''transport'', ''protocol'', ''pattern'', ''message_bytes'',
    ''payload_bytes'', ''encapsulation_overhead_bytes_analytical'', ''encapsulation_overhead_capture_verified'', ''connections'',
    ''gateway_enabled'', ''runs'', ''warmup_secs'', ''measure_secs'', ''cooldown_secs'', ''outlier_removal'']"
  by (simp add: config_kvs_def)

lemma opt_cell_simps: "opt_cell f (Some v) = f v" "opt_cell f None = []" "opt_cell q (map_option f x) = opt_cell (\<lambda>y. q (f y)) x"
  "opt_cell q (case x of None \<Rightarrow> None | Some y \<Rightarrow> Some (f y)) = opt_cell (\<lambda>y. q (f y)) x"
  by (simp_all add: opt_cell_def split: option.split)

definition stored_cell :: "scenario \<Rightarrow> run_params \<Rightarrow> run_stats \<Rightarrow> scenario_artifacts \<Rightarrow> string \<Rightarrow> string" where
  "stored_cell s params stats art k =
     cell_of k (map_of (rev (config_kvs s params))) (map_of (rev (summary_kvs s params stats art)))"

lemma stored_config:
  "stored_cell s params stats art ''name'' = sc_name s"
  "stored_cell s params stats art ''transport'' = interface_label (sn_interface (rn_sender params))"
  "stored_cell s params stats art ''protocol'' = protocol_label s"
  "stored_cell s params stats art ''message_bytes'' = show_word (rn_message_bytes params)"
  "stored_cell s params stats art ''connections'' = show_nat (rn_connections params)"
  unfolding stored_cell_def by (simp_all add: cell_config part_keys_def config_kvs_def)

lemma stored_cal:
  "stored_cell s params stats art ''ceiling_gbps'' = opt_cell (\<lambda>y. num (ca_ceiling_gbps y) 4) (ar_cal art)"
  "stored_cell s params stats art ''headroom'' = opt_cell (\<lambda>y. num (ca_headroom y) 2) (ar_cal art)"
  "stored_cell s params stats art ''harness_limited'' = opt_cell (\<lambda>y. show_bool (ca_harness_limited y)) (ar_cal art)"
  "stored_cell s params stats art ''dut'' = opt_cell ca_dut (ar_cal art)"
  "stored_cell s params stats art ''bottleneck'' = opt_cell ca_bottleneck (ar_cal art)"
  "stored_cell s params stats art ''ceiling_transport'' = opt_cell ca_ceiling_transport (ar_cal art)"
  unfolding stored_cell_def
  by (subst part_values(1), simp add: part_keys_def, simp add: config_None config_keys,
      simp add: cal_kvs_def lookup_opt_kv opt_cell_simps map_add_def case_None_id
        cong: option.case_cong)+

lemma stored_sys:
  "stored_cell s params stats art ''cpu_pct_peak'' = opt_cell (\<lambda>y. num (sa_cpu_pct_peak y) 1) (ar_sys art)"
  "stored_cell s params stats art ''cpu_pct_mean'' = opt_cell (\<lambda>y. num (sa_cpu_pct_mean y) 1) (ar_sys art)"
  "stored_cell s params stats art ''cpu_hot_thread_pct_p95'' = opt_cell (\<lambda>y. num (sa_cpu_hot_thread_pct_p95 y) 1) (ar_sys art)"
  "stored_cell s params stats art ''host_busy_frac_p95'' = opt_cell (\<lambda>y. num (sa_host_busy_frac_p95 y) 3) (ar_sys art)"
  "stored_cell s params stats art ''cpu_seconds_total'' = opt_cell (\<lambda>y. num (sa_cpu_seconds_total y) 4) (ar_sys art)"
  "stored_cell s params stats art ''ctx_switches_total'' = opt_cell (\<lambda>y. show_word (sa_ctx_switches_total y)) (ar_sys art)"
  "stored_cell s params stats art ''ctx_switches_per_s'' = opt_cell (\<lambda>y. num (sa_ctx_switches_per_s y) 1) (ar_sys art)"
  "stored_cell s params stats art ''rss_peak_kib'' = opt_cell (\<lambda>y. show_word (sa_rss_peak_kib y)) (ar_sys art)"
  "stored_cell s params stats art ''pss_peak_kib'' = opt_cell (\<lambda>y. show_word (sa_pss_peak_kib y)) (ar_sys art)"
  "stored_cell s params stats art ''gbps_per_core'' = opt_cell (\<lambda>y. opt_cell (\<lambda>v. num v 4) (per_core (sm_mean (rs_throughput_gbps stats)) y)) (ar_sys art)"
  unfolding stored_cell_def
  by (subst part_values(2), simp add: part_keys_def, simp add: config_None config_keys,
      simp add: sys_kvs_def lookup_opt_kv opt_cell_simps map_add_def case_None_id
        cong: option.case_cong)+

lemma stored_perf:
  "stored_cell s params stats art ''perf_cycles'' = opt_cell (\<lambda>y. opt_cell show_word (System_Metrics.pr_cycles y)) (ar_perf art)"
  "stored_cell s params stats art ''perf_instructions'' = opt_cell (\<lambda>y. opt_cell show_word (pr_instructions y)) (ar_perf art)"
  "stored_cell s params stats art ''perf_ipc'' = opt_cell (\<lambda>y. opt_cell (\<lambda>v. num v 3) (pr_ipc y)) (ar_perf art)"
  "stored_cell s params stats art ''perf_cache_references'' = opt_cell (\<lambda>y. opt_cell show_word (pr_cache_references y)) (ar_perf art)"
  "stored_cell s params stats art ''perf_cache_misses'' = opt_cell (\<lambda>y. opt_cell show_word (pr_cache_misses y)) (ar_perf art)"
  "stored_cell s params stats art ''perf_context_switches'' = opt_cell (\<lambda>y. opt_cell show_word (pr_context_switches y)) (ar_perf art)"
  "stored_cell s params stats art ''perf_syscalls'' = opt_cell (\<lambda>y. opt_cell show_word (pr_syscalls y)) (ar_perf art)"
  "stored_cell s params stats art ''perf_task_clock_ms'' = opt_cell (\<lambda>y. opt_cell (\<lambda>v. num v 3) (pr_task_clock_ms y)) (ar_perf art)"
  "stored_cell s params stats art ''perf_duration_s'' = opt_cell (\<lambda>y. opt_cell (\<lambda>v. num v 6) (pr_duration_s y)) (ar_perf art)"
  unfolding stored_cell_def
  by (subst part_values(3), simp add: part_keys_def, simp add: config_None config_keys,
      simp add: perf_kvs_def lookup_opt_kv opt_cell_simps map_add_def case_None_id
        cong: option.case_cong)+

lemma stored_mem:
  "stored_cell s params stats art ''mem_copies_per_msg'' = opt_cell (\<lambda>v. num v 3) (Option.bind (ar_mem_copies art) (copies_per_msg (total_messages stats)))"
  "stored_cell s params stats art ''mem_copy_to_user'' = opt_cell show_word (Option.bind (ar_mem_copies art) mc_copy_to_user)"
  "stored_cell s params stats art ''mem_copy_from_user'' = opt_cell show_word (Option.bind (ar_mem_copies art) mc_copy_from_user)"
  "stored_cell s params stats art ''mem_splice_syscalls'' = opt_cell show_word (Option.bind (ar_mem_copies art) mc_splice)"
  "stored_cell s params stats art ''mem_poll_syscalls'' = opt_cell show_word (Option.bind (ar_mem_copies art) poll_syscalls)"
  "stored_cell s params stats art ''mem_io_uring_enter'' = opt_cell show_word (Option.bind (ar_mem_copies art) mc_io_uring_enter)"
  unfolding stored_cell_def
  by (subst part_values(4), simp add: part_keys_def, simp add: config_None config_keys,
      simp add: mem_kvs_def opt_cell_bind(3) lookup_opt_kv opt_cell_simps map_add_def case_None_id
        cong: option.case_cong)+

lemma stored_sweep:
  "stored_cell s params stats art ''saturation_gbps'' = opt_cell (\<lambda>y. num (sr_saturation_gbps y) 4) (ar_sweep art)"
  "stored_cell s params stats art ''max_lossfree_gbps'' = opt_cell (\<lambda>y. num (sr_max_lossfree_gbps y) 4) (ar_sweep art)"
  unfolding stored_cell_def
  by (subst part_values(5), simp add: part_keys_def, simp add: config_None config_keys,
      simp add: sweep_kvs_def lookup_opt_kv opt_cell_simps map_add_def case_None_id
        cong: option.case_cong)+

lemma stored_rtt:
  "stored_cell s params stats art ''rtt_us_mean'' = opt_cell (\<lambda>y. num (rtt_mean_us y) 3) (rs_rtt stats)"
  "stored_cell s params stats art ''rtt_us_ci95'' = opt_cell (\<lambda>y. num (rtt_mean_ci95 y) 3) (rs_rtt stats)"
  "stored_cell s params stats art ''rtt_us_p50'' = opt_cell (\<lambda>y. num (rtt_p50_us y) 3) (rs_rtt stats)"
  "stored_cell s params stats art ''rtt_us_p99'' = opt_cell (\<lambda>y. num (rtt_p99_us y) 3) (rs_rtt stats)"
  unfolding stored_cell_def
  by (subst part_values(6), simp add: part_keys_def, simp add: config_None config_keys,
      simp add: rtt_kvs_def lookup_opt_kv opt_cell_simps map_add_def case_None_id
        cong: option.case_cong)+

lemma stored_conn:
  "stored_cell s params stats art ''conns_per_sec'' = opt_cell (\<lambda>y. num (cn_conns_per_sec y) 1) (rs_conn stats)"
  "stored_cell s params stats art ''conns_per_sec_ci95'' = opt_cell (\<lambda>y. num (cn_conns_per_sec_ci95 y) 1) (rs_conn stats)"
  "stored_cell s params stats art ''conn_handshake_p50_us'' = opt_cell (\<lambda>y. num (cn_handshake_p50_us y) 3) (rs_conn stats)"
  "stored_cell s params stats art ''conn_handshake_p99_us'' = opt_cell (\<lambda>y. num (cn_handshake_p99_us y) 3) (rs_conn stats)"
  unfolding stored_cell_def
  by (subst part_values(7), simp add: part_keys_def, simp add: config_None config_keys,
      simp add: conn_kvs_def lookup_opt_kv opt_cell_simps map_add_def case_None_id
        cong: option.case_cong)+

lemma stored_effective:
  "stored_cell s params stats art ''resumed_fraction'' = opt_cell (\<lambda>v. num v 3) (Option.bind (ar_effective art) resumed_fraction)"
  unfolding stored_cell_def
  by (subst part_values(8), simp add: part_keys_def, simp add: config_None config_keys,
      simp add: effective_kvs_opt lookup_opt_kvs opt_cell_bind(3) lookup_opt_kv opt_cell_simps map_add_def case_None_id
        cong: option.case_cong)+

lemma stored_stats:
  "stored_cell s params stats art ''runs'' = show_nat (length (rs_runs stats))"
  "stored_cell s params stats art ''throughput_gbps_mean'' = num (sm_mean (rs_throughput_gbps stats)) 4"
  "stored_cell s params stats art ''throughput_gbps_ci95'' = num (sm_ci95 (rs_throughput_gbps stats)) 4"
  "stored_cell s params stats art ''throughput_gbps_min'' = num (sm_min (rs_throughput_gbps stats)) 4"
  "stored_cell s params stats art ''throughput_gbps_max'' = num (sm_max (rs_throughput_gbps stats)) 4"
  "stored_cell s params stats art ''latency_mean_us'' = num (sm_mean (rs_latency_mean_us stats)) 3"
  "stored_cell s params stats art ''latency_mean_ci95'' = num (sm_ci95 (rs_latency_mean_us stats)) 3"
  "stored_cell s params stats art ''latency_p99_us_mean'' = num (sm_mean (rs_latency_p99_us stats)) 3"
  "stored_cell s params stats art ''latency_p99_us_ci95'' = num (sm_ci95 (rs_latency_p99_us stats)) 3"
  "stored_cell s params stats art ''handshake_us_mean'' = num (sm_mean (rs_handshake_us stats)) 3"
  "stored_cell s params stats art ''loss_pct'' = num (rs_loss_pct stats) 4"
  "stored_cell s params stats art ''total_lost'' = show_word (rs_total_lost stats)"
  "stored_cell s params stats art ''integrity_failures'' = show_word (integrity_total stats)"
  "stored_cell s params stats art ''boundary_violations'' = show_word (boundary_total stats)"
  "stored_cell s params stats art ''overloaded'' = show_bool (is_overloaded stats art)"
  "stored_cell s params stats art ''effective_protocol'' = effective_label s art"
  "stored_cell s params stats art ''encapsulation_overhead_bytes_analytical'' = opt_cell show_word (analytical_overhead s params)"
  "stored_cell s params stats art ''encapsulation_overhead_capture_verified'' = ''false''"
  unfolding stored_cell_def
  by (rule cell_stats, simp add: stats_kvs_def Let_def, simp add: part_keys_def)+

lemmas stored_cells = stored_config stored_cal stored_sys stored_perf stored_mem stored_sweep stored_rtt stored_conn
  stored_effective stored_stats

lemma saved_map: "saved_cells (map g SUMMARY_HEADERS) = map g (filter (\<lambda>h. h \<notin> set unsaved_columns) SUMMARY_HEADERS)"
proof -
  have "map snd (filter (\<lambda>(h, c). P h) (zip hs (map g hs))) = map g (filter P hs)" for P and hs :: "string list"
    by (induction hs) auto
  then show ?thesis by (simp add: saved_cells_def)
qed

lemma saved_cells_live:
  "saved_cells (summary_row s params stats art) =
     map (\<lambda>h. stored_cell s params stats art (if h = ''scenario'' then ''name'' else h))
       (filter (\<lambda>h. h \<notin> set unsaved_columns) SUMMARY_HEADERS)"
  by (simp add: saved_cells_def unsaved_columns_def SUMMARY_HEADERS_def summary_row_def calibration_cells_def cpu_cells_def
      rtt_cells_def conn_cells_def perf_cells_def Let_def stored_cells)

section \<open>What a reconstructed row keeps\<close>

lemma no_lf_simps [simp]: "no_lf []" "no_lf (c # s) = (c \<noteq> LF \<and> no_lf s)" "no_lf (s @ t) = (no_lf s \<and> no_lf t)"
  by (auto simp: no_lf_def)

lemma no_lf_digits: "list_all is_digit s \<Longrightarrow> no_lf s"
  by (auto simp: no_lf_def list_all_iff is_digit_def)

lemma no_lf_show [simp]: "no_lf (show_nat n)" "no_lf (show_word w)" "no_lf (show_bool b)" "no_lf (num v d)"
proof -
  show "no_lf (show_nat n)" "no_lf (show_word w)" using no_lf_digits [OF show_nat_digits] by (simp_all add: show_word_def)
  show "no_lf (num v d)" unfolding no_lf_def num_def
    by (cases v) (auto dest!: set_fmt_fixed simp: is_digit_def)
qed (simp add: show_bool_def)

lemma no_lf_opt_cell [simp]: "(\<And>v. x = Some v \<Longrightarrow> no_lf (f v)) \<Longrightarrow> no_lf (opt_cell f x)"
  by (cases x) (simp_all add: opt_cell_simps)

lemma no_lf_kvs_simps [simp]:
  "no_lf_kvs []" "no_lf_kvs ((k, v) # kvs) = (no_lf k \<and> no_lf v \<and> no_lf_kvs kvs)" "no_lf_kvs (xs @ ys) = (no_lf_kvs xs \<and> no_lf_kvs ys)"
  "no_lf k \<Longrightarrow> (\<And>v. no_lf (f v)) \<Longrightarrow> no_lf_kvs (opt_kv k f x)"
  "(\<And>v. y = Some v \<Longrightarrow> no_lf_kvs (g v)) \<Longrightarrow> no_lf_kvs (opt_kvs g y)"
  by (auto simp: no_lf_kvs_def opt_kv_def opt_kvs_def split: option.split)

lemma pattern_text_eq:
  "pattern_text Sustained = ''sustained''" "pattern_text Periodic = ''periodic''"
  "pattern_text Burst = ''burst''" "pattern_text Ramp = ''ramp''"
  by code_simp+

lemma no_lf_label [simp]: "no_lf (interface_label i)" "no_lf (pattern_text p)"
  by (cases i; simp) (cases p; simp add: pattern_text_eq)

lemma no_lf_parts [simp]:
  "no_lf_kvs (sys_kvs g a)" "no_lf_kvs (perf_kvs p)" "no_lf_kvs (mem_kvs q m)" "no_lf_kvs (sweep_kvs w)" "no_lf_kvs (rtt_kvs r)"
  "no_lf_kvs (conn_kvs n)" "no_lf_kvs (effective_kvs e)"
  by (simp_all add: sys_kvs_def perf_kvs_def mem_kvs_def sweep_kvs_def rtt_kvs_def conn_kvs_def effective_kvs_opt)

text \<open>The texts that come from outside and hold no line feed.\<close>

definition printable :: "scenario \<Rightarrow> scenario_artifacts \<Rightarrow> bool" where
  "printable s art =
     (no_lf (sc_name s) \<and> no_lf (opt_cell (\<lambda>c. c) (sc_category s)) \<and> no_lf (protocol_label s) \<and> no_lf (effective_label s art)
      \<and> (case ar_cal art of None \<Rightarrow> True | Some c \<Rightarrow> no_lf (ca_dut c) \<and> no_lf (ca_bottleneck c) \<and> no_lf (ca_ceiling_transport c)))"

lemma printable_kvs:
  assumes "printable s art"
  shows "no_lf_kvs (config_kvs s params)" "no_lf_kvs (summary_kvs s params stats art)"
proof -
  show "no_lf_kvs (config_kvs s params)" using assms by (simp add: config_kvs_def printable_def)
  have "no_lf_kvs (stats_kvs s params stats art)" using assms by (simp add: stats_kvs_def printable_def Let_def)
  moreover have "no_lf_kvs (opt_kvs cal_kvs (ar_cal art))"
    using assms by (cases "ar_cal art") (simp_all add: cal_kvs_def printable_def opt_kvs_def)
  ultimately show "no_lf_kvs (summary_kvs s params stats art)" by (simp add: summary_kvs_def)
qed

definition reread_row :: "scenario \<Rightarrow> run_params \<Rightarrow> run_stats \<Rightarrow> scenario_artifacts \<Rightarrow> string list" where
  "reread_row s params stats art =
     reconstruct_summary_row (read_key_value (render (scenario_config_csv s params)))
       (read_key_value (render (scenario_summary_csv s params stats art)))"

text \<open>
  C37: A row put together from the artifacts of a scenario agrees with the row the scenario recorded in every
  column its artifacts hold, whatever was measured; only the jitter, the coordinated-omission flag and the two
  send-lag columns, which no artifact holds, are blank. Both rows have one cell for each of the distinct headers.
\<close>

theorem reconstructed_row_agrees:
  assumes "printable s art"
  shows "saved_cells (reread_row s params stats art) = saved_cells (summary_row s params stats art)
    \<and> length (reread_row s params stats art) = length SUMMARY_HEADERS
    \<and> length (summary_row s params stats art) = length SUMMARY_HEADERS \<and> distinct SUMMARY_HEADERS"
proof -
  have "reread_row s params stats art
      = map (\<lambda>h. stored_cell s params stats art (if h = ''scenario'' then ''name'' else h)) SUMMARY_HEADERS"
    unfolding reread_row_def scenario_config_csv_def scenario_summary_csv_def read_back [OF printable_kvs(1) [OF assms]]
      read_back [OF printable_kvs(2) [OF assms]] reconstruct_summary_row_def stored_cell_def cell_of_def Let_def ..
  then have "saved_cells (reread_row s params stats art) = saved_cells (summary_row s params stats art)"
    by (simp only: saved_map saved_cells_live)
  moreover have "distinct SUMMARY_HEADERS" by (simp add: SUMMARY_HEADERS_def)
  ultimately show ?thesis
    by (simp add: reread_row_def length_reconstructed length_summary_row length_summary_headers)
qed

definition no_artifacts :: scenario_artifacts where
  "no_artifacts = \<lparr>ar_cal = None, ar_sweep = None, ar_sys = None, ar_perf = None, ar_mem_copies = None, ar_effective = None,
     ar_loss_threshold_pct = 1\<rparr>"

definition sample_run :: run_params where
  "sample_run = \<lparr>rn_message_bytes = 1024, rn_connections = 1, rn_runs = 1, rn_warmup = 0, rn_measure = 1, rn_cooldown = 0,
     rn_remove_outliers = False, rn_sender_cores = [], rn_receiver_cores = [], rn_sender = sample_sender, rn_mode = ModeThroughput\<rparr>"

definition sample_stats :: run_stats where
  "sample_stats = \<lparr>rs_runs = [], rs_throughput_gbps = summary_empty, rs_latency_mean_us = summary_empty,
     rs_latency_p99_us = summary_empty, rs_handshake_us = summary_empty, rs_total_lost = 0, rs_loss_pct = 0,
     rs_mode = ModeThroughput, rs_rtt = None, rs_conn = None, rs_co_corrected = False, rs_send_lag_mean_us = 0,
     rs_send_lag_max_us = 0\<rparr>"

lemma printable_sample: "printable sample_scenario no_artifacts"
  by (simp add: printable_def sample_scenario_def no_artifacts_def effective_label_def protocol_label_def protocol_default_def
      opt_cell_def)

lemma reconstructed_row_agrees_witness:
  "saved_cells (reread_row sample_scenario sample_run sample_stats no_artifacts)
     = saved_cells (summary_row sample_scenario sample_run sample_stats no_artifacts)"
  using reconstructed_row_agrees [OF printable_sample] by blast

lemma unsaved_lost:
  assumes "k \<in> set unsaved_columns"
  shows "stored_cell s params stats art k = []"
proof -
  have "k \<notin> set (concat part_keys)" "k \<notin> set (map fst (config_kvs s params))"
    using assms by (auto simp: unsaved_columns_def part_keys_def config_kvs_def)
  then show ?thesis by (simp add: stored_cell_def cell_config config_None)
qed

lemma live_never_blank: "summary_row s params stats art ! 53 = show_bool (rs_co_corrected stats)" "show_bool b \<noteq> []"
  by (simp_all add: summary_row_def Let_def calibration_cells_def cpu_cells_def rtt_cells_def conn_cells_def perf_cells_def
      show_bool_def)

end
