(* ===== verification/Result_Tree.thy ===== *)
theory Result_Tree
  imports Result_Rows
begin

text \<open>
  The result directory of \<open>src/src/report/results.rs\<close> over time: what the recorded scenarios leave in it, the
  consolidated tables rebuilt from it, whatever was interrupted, and the search for a fresh directory.
\<close>

section \<open>Writes\<close>

definition all_written :: disk where
  "all_written = (\<lambda>d f. Written)"

lemma put_file_simps [simp]:
  "tr_dirs (put_file d f x t) = tr_dirs t" "tr_top (put_file d f x t) = tr_top t"
  "tr_files (put_file d f x t) d' = (if d' = d then (tr_files t d)(f \<mapsto> x) else tr_files t d')"
  by (simp_all add: put_file_def)

lemma make_dir_simps [simp]:
  "tr_files (make_dir d t) = tr_files t" "set (tr_dirs (make_dir d t)) = insert d (set (tr_dirs t))"
  "distinct (tr_dirs t) \<Longrightarrow> distinct (tr_dirs (make_dir d t))"
  by (auto simp: make_dir_def)

lemma write_file_other:
  "tr_dirs (fst (write_file disk d f x t)) = tr_dirs t"
  "d' \<noteq> d \<or> f' \<noteq> f \<Longrightarrow> tr_files (fst (write_file disk d f x t)) d' f' = tr_files t d' f'"
  by (auto simp: write_file_def split: write_answer.split)

lemma write_files_dirs [simp]: "tr_dirs (fst (write_files disk d ws t)) = tr_dirs t"
proof (induction ws arbitrary: t)
  case (Cons w ws)
  obtain t' ok where "write_file disk d (fst w) (snd w) t = (t', ok)" by (cases "write_file disk d (fst w) (snd w) t")
  then show ?case
    using Cons [of t'] write_file_other(1) [of disk d "fst w" "snd w" t] by (cases w; cases ok) auto
qed simp

lemma write_files_other:
  "d' \<noteq> d \<or> f' \<notin> fst ` set ws \<Longrightarrow> tr_files (fst (write_files disk d ws t)) d' f' = tr_files t d' f'"
proof (induction ws arbitrary: t)
  case (Cons w ws)
  obtain t' ok where "write_file disk d (fst w) (snd w) t = (t', ok)" by (cases "write_file disk d (fst w) (snd w) t")
  then show ?case
    using Cons.IH [of t'] Cons.prems write_file_other(2) [of d' d f' "fst w" disk "snd w" t] by (cases w; cases ok) auto
qed simp

lemma write_files_written:
  "write_files all_written d ws t = (fold (\<lambda>(f, x). put_file d f x) ws t, True)"
  by (induction ws arbitrary: t) (auto simp: all_written_def write_file_def)

lemma fold_put_files:
  "tr_files (fold (\<lambda>(f, x). put_file d f x) ws t) d' = (if d' = d then tr_files t d ++ map_of (rev ws) else tr_files t d')"
  by (induction ws arbitrary: t) (auto simp: map_add_def fun_eq_iff split: option.split)

section \<open>Recording into a directory\<close>

text \<open>A kind of record: where it goes, the text it leaves, how it is put and how it is found again.\<close>

locale row_store =
  fixes key :: "'r \<Rightarrow> string" and body :: "'r \<Rightarrow> string"
    and put :: "'r \<Rightarrow> tree \<Rightarrow> tree" and entry :: "files \<Rightarrow> string option"
  assumes entry_put: "entry (tr_files (put r t) d) = (if d = key r then Some (body r) else entry (tr_files t d))"
    and dirs_put: "set (tr_dirs (put r t)) = insert (key r) (set (tr_dirs t))"
    and distinct_put: "distinct (tr_dirs t) \<Longrightarrow> distinct (tr_dirs (put r t))"
    and entry_none: "entry Map.empty = None"
begin

lemma dirs_fold: "set (tr_dirs (fold put rs t)) = set (tr_dirs t) \<union> key ` set rs"
  by (induction rs arbitrary: t) (auto simp: dirs_put)

lemma distinct_fold: "distinct (tr_dirs t) \<Longrightarrow> distinct (tr_dirs (fold put rs t))"
  by (induction rs arbitrary: t) (auto simp: distinct_put)

lemma entry_fold:
  "distinct (map key rs) \<Longrightarrow> entry (tr_files (fold put rs t) d)
     = (case map_of (map (\<lambda>r. (key r, body r)) rs) d of Some x \<Rightarrow> Some x | None \<Rightarrow> entry (tr_files t d))"
proof (induction rs arbitrary: t)
  case (Cons r rs)
  have "map_of (map (\<lambda>r. (key r, body r)) rs) (key r) = None"
    using Cons.prems by (auto simp: map_of_eq_None_iff)
  then show ?case using Cons by (auto simp: entry_put split: option.split)
qed simp

text \<open>From an empty directory exactly the recorded keys have an entry.\<close>

lemma entry_recorded:
  assumes "distinct (map key rs)"
  shows "entry (tr_files (fold put rs empty_tree) d) = map_of (map (\<lambda>r. (key r, body r)) rs) d"
    and "set (tr_dirs (fold put rs empty_tree)) = key ` set rs" "distinct (tr_dirs (fold put rs empty_tree))"
  using assms by (auto simp: entry_fold dirs_fold distinct_fold empty_tree_def entry_none split: option.split)

end

type_synonym scenario_record = "scenario \<times> run_params \<times> run_stats \<times> scenario_artifacts"

definition record_key :: "scenario_record \<Rightarrow> string" where
  "record_key = (\<lambda>(s, params, stats, art). sanitize (sc_name s))"

definition record_row :: "scenario_record \<Rightarrow> string list" where
  "record_row = (\<lambda>(s, params, stats, art). summary_row s params stats art)"

definition put_record :: "scenario_record \<Rightarrow> tree \<Rightarrow> tree" where
  "put_record = (\<lambda>(s, params, stats, art) t.
     fst (write_files all_written (sanitize (sc_name s)) (scenario_files s params stats art) (make_dir (sanitize (sc_name s)) t)))"

definition put_skip :: "string \<times> string \<Rightarrow> tree \<Rightarrow> tree" where
  "put_skip = (\<lambda>(name, reason) t.
     fst (write_files all_written (sanitize name) (skip_files name reason) (make_dir (sanitize name) t)))"

text \<open>These are what the operations do to the tree when every write succeeds.\<close>

lemma record_scenario_tree:
  "rd_tree (fst (record_scenario all_written s params stats art rd)) = put_record (s, params, stats, art) (rd_tree rd)"
  by (simp add: record_scenario_def put_record_def Let_def write_files_written)

lemma record_skipped_tree:
  "rd_tree (fst (record_skipped all_written name reason rd)) = put_skip (name, reason) (rd_tree rd)"
  by (simp add: record_skipped_def record_files_def put_skip_def Let_def write_files_written)

lemma scenario_files_row:
  "map_of (rev (scenario_files s params stats art)) ''summary_row.csv''
     = Some (render_body (one_row SUMMARY_HEADERS (summary_row s params stats art)))"
  by (simp add: scenario_files_def)

lemma put_files:
  "tr_files (fst (write_files all_written d ws (make_dir d t))) d'
     = (if d' = d then tr_files t d ++ map_of (rev ws) else tr_files t d')"
  by (simp add: write_files_written fold_put_files)

interpretation scenario_rows: row_store record_key "\<lambda>r. render_body (one_row SUMMARY_HEADERS (record_row r))" put_record summary_entry
proof
  fix r :: scenario_record and t :: tree and d :: string
  obtain s params stats art where r: "r = (s, params, stats, art)" by (cases r)
  have here: "tr_files (put_record r t) d
      = (if d = record_key r then tr_files t d ++ map_of (rev (scenario_files s params stats art)) else tr_files t d)"
    unfolding r put_record_def record_key_def prod.case put_files by simp
  show "summary_entry (tr_files (put_record r t) d)
      = (if d = record_key r then Some (render_body (one_row SUMMARY_HEADERS (record_row r))) else summary_entry (tr_files t d))"
    unfolding here using scenario_files_row [of s params stats art]
    by (cases "d = record_key r") (simp_all add: summary_entry_def map_add_def r record_row_def)
  show "set (tr_dirs (put_record r t)) = insert (record_key r) (set (tr_dirs t))"
    by (simp add: r put_record_def record_key_def)
  show "distinct (tr_dirs (put_record r t))" if "distinct (tr_dirs t)"
    using that by (simp add: r put_record_def)
qed (simp add: summary_entry_def)

interpretation skip_rows: row_store "\<lambda>r. sanitize (fst r)" "\<lambda>r. render_body (one_row SKIP_HEADERS [fst r, snd r])" put_skip skip_entry
proof
  fix r :: "string \<times> string" and t :: tree and d :: string
  obtain name reason where r: "r = (name, reason)" by (cases r)
  have here: "tr_files (put_skip r t) d
      = (if d = sanitize (fst r) then tr_files t d ++ map_of (rev (skip_files name reason)) else tr_files t d)"
    unfolding r put_skip_def prod.case put_files by simp
  have "map_of (rev (skip_files name reason)) ''skip_row.csv'' = Some (render_body (one_row SKIP_HEADERS [name, reason]))"
    by (simp add: skip_files_def)
  then show "skip_entry (tr_files (put_skip r t) d)
      = (if d = sanitize (fst r) then Some (render_body (one_row SKIP_HEADERS [fst r, snd r])) else skip_entry (tr_files t d))"
    unfolding here by (cases "d = sanitize (fst r)") (simp_all add: skip_entry_def map_add_def r)
  show "set (tr_dirs (put_skip r t)) = insert (sanitize (fst r)) (set (tr_dirs t))"
    by (simp add: r put_skip_def)
  show "distinct (tr_dirs (put_skip r t))" if "distinct (tr_dirs t)"
    using that by (simp add: r put_skip_def)
qed (simp add: skip_entry_def)

section \<open>Rebuilding\<close>

lemma rebuild_fold:
  "fold (rebuild_step entry t) ds (out, n)
     = (out @ concat (List.map_filter (\<lambda>d. entry (tr_files t d)) ds), n + length (List.map_filter (\<lambda>d. entry (tr_files t d)) ds))"
  by (induction ds arbitrary: out n) (auto simp: rebuild_step_def List.map_filter_def split: option.split)

lemma rebuild_table_eq:
  "rebuild_table headers entry t
     = (let es = List.map_filter (\<lambda>d. entry (tr_files t d)) (scenario_dirs t) in (render (csv_new headers) @ concat es, length es))"
  by (simp add: rebuild_table_def rebuild_fold Let_def)

lemma render_one: "render_body (one_row headers cells) = write_row [] cells"
  by (simp add: render_body_def one_row_def csv_row_def csv_new_def)

lemma render_header: "render (csv_new headers) = write_row [] headers"
  by (simp add: render_def csv_new_def)

lemma parse_rows:
  assumes "list_all (\<lambda>r. r \<noteq> []) (headers # rows)"
  shows "csv_parse (render (csv_new headers) @ concat (map (write_row []) rows)) = Some (headers # rows)"
  using scan_rows [OF assms, of "[]" "[]"] by (simp add: csv_parse_def render_header)

text \<open>The order of directory names.\<close>

lemma str_le_linear: "str_le a b \<or> str_le b a"
  by (induction a b rule: str_le.induct) (auto simp: neq_iff)

lemma str_le_antisym: "str_le a b \<Longrightarrow> str_le b a \<Longrightarrow> a = b"
proof (induction a b rule: str_le.induct)
  case (1 b)
  then show ?case by (cases b) auto
qed auto

lemma str_le_trans: "str_le a b \<Longrightarrow> str_le b c \<Longrightarrow> str_le a c"
proof (induction a b arbitrary: c rule: str_le.induct)
  case (3 a as b bs)
  then show ?case by (cases c) auto
qed simp_all

lemma mset_str_insert: "mset (str_insert x ys) = add_mset x (mset ys)"
  by (induction ys) auto

lemma mset_str_sort: "mset (str_sort xs) = mset xs"
  by (induction xs) (auto simp: str_sort_def mset_str_insert)

lemma sorted_str_insert: "sorted_wrt str_le ys \<Longrightarrow> sorted_wrt str_le (str_insert x ys)"
proof (induction ys)
  case (Cons y ys)
  have set_ins: "set (str_insert x ys) = insert x (set ys)"
    using mset_str_insert [of x ys] by (metis set_mset_add_mset_insert set_mset_mset)
  show ?case
  proof (cases "str_le x y")
    case True
    then show ?thesis using Cons.prems str_le_trans [OF True] by auto
  next
    case False
    then show ?thesis using Cons str_le_linear [of x y] by (auto simp: set_ins)
  qed
qed simp

lemma sorted_str_sort: "sorted_wrt str_le (str_sort xs)"
  by (induction xs) (auto simp: str_sort_def sorted_str_insert)

lemma sorted_unique: "sorted_wrt str_le xs \<Longrightarrow> sorted_wrt str_le ys \<Longrightarrow> mset xs = mset ys \<Longrightarrow> xs = ys"
proof (induction xs arbitrary: ys)
  case (Cons x xs)
  then obtain y ys' where ys: "ys = y # ys'" by (cases ys) auto
  have "x \<in> set ys" "y \<in> set (x # xs)" using Cons.prems(3) ys by (metis list.set_intros(1) set_mset_mset)+
  then have "x = y" using Cons.prems(1,2) ys str_le_antisym by auto
  then show ?case using Cons ys by auto
qed simp

lemma str_sort_cong: "mset xs = mset ys \<Longrightarrow> str_sort xs = str_sort ys"
  by (rule sorted_unique) (simp_all add: sorted_str_sort mset_str_sort)

context row_store
begin

lemma rebuild_recorded:
  assumes "distinct (map key rs)"
  shows "\<exists>ss. mset ss = mset rs \<and> sorted_wrt str_le (map key ss)
     \<and> rebuild_table headers entry (fold put rs empty_tree) = (render (csv_new headers) @ concat (map body ss), length ss)"
proof -
  let ?t = "fold put rs empty_tree"
  define pick where "pick d = the (map_of (map (\<lambda>r. (key r, r)) rs) d)" for d
  have pick: "pick (key r) = r" if "r \<in> set rs" for r
    using assms that by (simp add: pick_def map_of_eq_Some_iff comp_def image_iff)
  have found: "entry (tr_files ?t (key r)) = Some (body r)" if "r \<in> set rs" for r
    using assms that by (subst entry_recorded(1)) (auto simp: map_of_eq_Some_iff comp_def)
  have "mset (tr_dirs ?t) = mset (map key rs)"
    using entry_recorded(2,3) [OF assms] assms by (subst set_eq_iff_mset_eq_distinct [symmetric]) auto
  then have dirs: "scenario_dirs ?t = str_sort (map key rs)" by (simp add: scenario_dirs_def str_sort_cong)
  define ss where "ss = map pick (str_sort (map key rs))"
  have "mset ss = image_mset pick (mset (map key rs))" by (simp add: ss_def mset_str_sort)
  also have "\<dots> = mset (map (\<lambda>r. pick (key r)) rs)" by (simp add: image_mset.compositionality comp_def)
  also have "map (\<lambda>r. pick (key r)) rs = rs" using pick by (simp add: map_idI)
  finally have mset: "mset ss = mset rs" .
  have keys: "d = key (pick d) \<and> pick d \<in> set rs" if "d \<in> set (str_sort (map key rs))" for d
  proof -
    have "d \<in> key ` set rs" using that mset_str_sort [of "map key rs"] by (metis list.set_map set_mset_mset)
    then show ?thesis using pick by auto
  qed
  have "map key ss = str_sort (map key rs)" using keys by (simp add: ss_def map_idI)
  moreover have "List.map_filter (\<lambda>d. entry (tr_files ?t d)) ds = map body (map pick ds)"
    if "set ds \<subseteq> set (str_sort (map key rs))" for ds
    using that
  proof (induction ds)
    case (Cons d ds)
    then show ?case using keys [of d] found [of "pick d"] by (simp add: List.map_filter_def)
  qed (simp add: List.map_filter_def)
  ultimately show ?thesis
    using mset sorted_str_sort [of "map key rs"]
    by (intro exI [of _ ss]) (simp add: rebuild_table_eq dirs ss_def Let_def)
qed

lemma sorted_records_unique:
  assumes "distinct (map key rs)" "mset ss = mset rs" "mset ss' = mset rs"
    and "sorted_wrt str_le (map key ss)" "sorted_wrt str_le (map key ss')"
  shows "ss = ss'"
proof -
  have "map key ss = map key ss'" using assms by (intro sorted_unique) (simp_all add: mset_map)
  moreover have "inj_on key (set ss \<union> set ss')"
    using assms(1-3) by (metis distinct_map set_mset_mset sup.idem)
  ultimately show ?thesis by (metis map_inj_on)
qed

lemma rebuild_order_independent:
  assumes "distinct (map key rs)" "mset rs' = mset rs"
  shows "rebuild_table headers entry (fold put rs' empty_tree) = rebuild_table headers entry (fold put rs empty_tree)"
proof -
  have "distinct (map key rs')" using assms by (metis mset_eq_imp_distinct_iff mset_map)
  then show ?thesis
    using rebuild_recorded [OF assms(1), of headers] rebuild_recorded [of rs' headers] assms sorted_records_unique [OF assms(1)]
    by metis
qed

end

lemma row_nonempty: "record_row r \<noteq> []" "SUMMARY_HEADERS \<noteq> []"
proof -
  obtain s params stats art where "r = (s, params, stats, art)" by (cases r)
  then have "length (record_row r) = 69" by (simp add: record_row_def length_summary_row)
  then show "record_row r \<noteq> []" by auto
  show "SUMMARY_HEADERS \<noteq> []" using length_summary_headers by auto
qed

text \<open>
  C4: The consolidated table is complete and reproducible: after the scenarios are recorded, in any order, the
  rebuilt summary reads as the header and one row per scenario, the very row recorded for it, the count is the
  number of scenarios, and the table is the same byte for byte whatever the order they were recorded in.
\<close>

theorem summary_table_complete:
  assumes "distinct (map record_key rs)" and "mset rs' = mset rs"
  shows "(\<exists>rows. csv_parse (fst (rebuild_table SUMMARY_HEADERS summary_entry (fold put_record rs empty_tree))) = Some (SUMMARY_HEADERS # rows)
            \<and> mset rows = mset (map record_row rs))
       \<and> snd (rebuild_table SUMMARY_HEADERS summary_entry (fold put_record rs empty_tree)) = length rs
       \<and> rebuild_table SUMMARY_HEADERS summary_entry (fold put_record rs' empty_tree)
          = rebuild_table SUMMARY_HEADERS summary_entry (fold put_record rs empty_tree)"
proof -
  obtain ss where ss: "mset ss = mset rs"
      "rebuild_table SUMMARY_HEADERS summary_entry (fold put_record rs empty_tree)
        = (render (csv_new SUMMARY_HEADERS) @ concat (map (\<lambda>r. render_body (one_row SUMMARY_HEADERS (record_row r))) ss), length ss)"
    using scenario_rows.rebuild_recorded [OF assms(1), of SUMMARY_HEADERS] by blast
  have "concat (map (\<lambda>r. render_body (one_row SUMMARY_HEADERS (record_row r))) ss) = concat (map (write_row []) (map record_row ss))"
    by (simp add: render_one comp_def)
  moreover have "list_all (\<lambda>r. r \<noteq> []) (SUMMARY_HEADERS # map record_row ss)"
    by (simp add: list_all_iff row_nonempty)
  ultimately have "csv_parse (fst (rebuild_table SUMMARY_HEADERS summary_entry (fold put_record rs empty_tree)))
      = Some (SUMMARY_HEADERS # map record_row ss)"
    using parse_rows [of SUMMARY_HEADERS "map record_row ss"] by (simp only: ss(2) fst_conv)
  moreover have "mset (map record_row ss) = mset (map record_row rs)" using ss(1) by (simp add: mset_map)
  moreover have "length ss = length rs" using ss(1) by (metis size_mset)
  ultimately show ?thesis using ss(2) scenario_rows.rebuild_order_independent [OF assms] by auto
qed

definition named_record :: "string \<Rightarrow> scenario_record" where
  "named_record name = (sample_scenario\<lparr>sc_name := name\<rparr>, sample_run, sample_stats, no_artifacts)"

lemma summary_table_complete_witness:
  "snd (rebuild_table SUMMARY_HEADERS summary_entry (fold put_record [named_record ''b'', named_record ''a''] empty_tree)) = 2
   \<and> rebuild_table SUMMARY_HEADERS summary_entry (fold put_record [named_record ''a'', named_record ''b''] empty_tree)
     = rebuild_table SUMMARY_HEADERS summary_entry (fold put_record [named_record ''b'', named_record ''a''] empty_tree)"
proof -
  have "distinct (map record_key [named_record ''b'', named_record ''a''])"
    by (simp add: record_key_def named_record_def sanitize_def is_ascii_alphanumeric_def is_digit_def)
  moreover have "mset [named_record ''a'', named_record ''b''] = mset [named_record ''b'', named_record ''a'']" by simp
  ultimately show ?thesis using summary_table_complete by fastforce
qed

section \<open>Interrupted runs\<close>

text \<open>The disks on which a stored row is written whole or not at all, and the trees that a run leaves behind
  that stopped after any operation, each operation with answers of its own.\<close>

definition rows_whole :: "disk \<Rightarrow> bool" where
  "rows_whole disk = (\<forall>d. case disk d ''summary_row.csv'' of Torn n \<Rightarrow> False | _ \<Rightarrow> True)"

inductive reachable :: "tree \<Rightarrow> bool" where
  start: "reachable empty_tree"
| scenario: "reachable t \<Longrightarrow> rows_whole disk \<Longrightarrow> rd_tree rd = t
    \<Longrightarrow> reachable (rd_tree (fst (record_scenario disk s params stats art rd)))"
| skipped: "reachable t \<Longrightarrow> rd_tree rd = t \<Longrightarrow> reachable (rd_tree (fst (record_skipped disk name reason rd)))"
| streams: "reachable t \<Longrightarrow> rd_tree rd = t \<Longrightarrow> reachable (rd_tree (fst (record_stream_results disk name result rd)))"
| reload: "reachable t \<Longrightarrow> rd_tree rd = t \<Longrightarrow> reachable (rd_tree (fst (record_reload_artifact disk name artifact rd)))"
| metrics: "reachable t \<Longrightarrow> rd_tree rd = t \<Longrightarrow> reachable (rd_tree (fst (record_system_metrics disk sc_clk_tck name samples rd)))"
| rebuild: "reachable t \<Longrightarrow> reachable (fst (rebuild_consolidated disk t))"

definition rows_ok :: "tree \<Rightarrow> bool" where
  "rows_ok t = (\<forall>d. case tr_files t d ''summary_row.csv'' of
     None \<Rightarrow> True | Some x \<Rightarrow> \<exists>row. length row = 69 \<and> x = write_row [] row)"

lemma rows_ok_same:
  "rows_ok t \<Longrightarrow> (\<And>d. tr_files t' d ''summary_row.csv'' = tr_files t d ''summary_row.csv'') \<Longrightarrow> rows_ok t'"
  by (simp add: rows_ok_def)

lemma rows_ok_write_file:
  assumes "rows_ok t" "rows_whole disk"
    and "f = ''summary_row.csv'' \<Longrightarrow> \<exists>row. length row = 69 \<and> x = write_row [] row"
  shows "rows_ok (fst (write_file disk d f x t))"
proof (cases "f = ''summary_row.csv''")
  case True
  have "disk d f \<noteq> Torn n" for n using assms(2) True by (auto simp: rows_whole_def split: write_answer.splits dest: spec [of _ d])
  then show ?thesis
    using assms(1) assms(3) [OF True] True by (cases "disk d f") (auto simp: rows_ok_def write_file_def)
next
  case False
  then show ?thesis using assms(1) write_file_other(2) by (intro rows_ok_same [OF assms(1)]) auto
qed

lemma rows_ok_write_files:
  assumes "rows_ok t" "rows_whole disk"
    and "list_all (\<lambda>(f, x). f = ''summary_row.csv'' \<longrightarrow> (\<exists>row. length row = 69 \<and> x = write_row [] row)) ws"
  shows "rows_ok (fst (write_files disk d ws t))"
  using assms(1,3)
proof (induction ws arbitrary: t)
  case (Cons w ws)
  obtain t' ok where w: "write_file disk d (fst w) (snd w) t = (t', ok)" by (cases "write_file disk d (fst w) (snd w) t")
  have "rows_ok t'" using rows_ok_write_file [OF Cons.prems(1) assms(2), of "fst w" "snd w" d] Cons.prems(2) w by (auto simp: case_prod_beta)
  then show ?case using Cons w by (cases w; cases ok) auto
qed simp

lemma rows_ok_other_files:
  assumes "rows_ok t" "''summary_row.csv'' \<notin> fst ` set ws"
  shows "rows_ok (fst (write_files disk d ws (make_dir d t)))"
  using write_files_other [of _ d "''summary_row.csv''" ws disk "make_dir d t"] assms(2)
  by (intro rows_ok_same [OF assms(1)]) auto

lemma record_trees:
  "rd_tree (fst (record_scenario disk s params stats art rd))
     = fst (write_files disk (sanitize (sc_name s)) (scenario_files s params stats art) (make_dir (sanitize (sc_name s)) (rd_tree rd)))"
  "rd_tree (fst (record_files disk name ws rd)) = fst (write_files disk (sanitize name) ws (make_dir (sanitize name) (rd_tree rd)))"
  by (auto simp: record_scenario_def record_files_def Let_def split: prod.split bool.split)

lemma rows_ok_record_files:
  assumes "rows_ok (rd_tree rd) \<and> distinct (tr_dirs (rd_tree rd))" "''summary_row.csv'' \<notin> fst ` set ws"
  shows "rows_ok (rd_tree (fst (record_files disk name ws rd))) \<and> distinct (tr_dirs (rd_tree (fst (record_files disk name ws rd))))"
  unfolding record_trees using assms rows_ok_other_files [of "rd_tree rd" ws disk "sanitize name"] by simp

lemma rebuild_keeps_files: "tr_files (fst (rebuild_consolidated disk t)) = tr_files t \<and> tr_dirs (fst (rebuild_consolidated disk t)) = tr_dirs t"
proof -
  have top: "tr_files (fst (write_top disk f x u)) = tr_files u \<and> tr_dirs (fst (write_top disk f x u)) = tr_dirs u" for f x u
    by (simp add: write_top_def split: write_answer.split)
  have one: "tr_files (fst (rebuild_summary disk u)) = tr_files u \<and> tr_dirs (fst (rebuild_summary disk u)) = tr_dirs u"
    "tr_files (fst (rebuild_skipped disk u)) = tr_files u \<and> tr_dirs (fst (rebuild_skipped disk u)) = tr_dirs u" for u
    using top by (simp_all add: rebuild_summary_def rebuild_skipped_def case_prod_beta Let_def)
  show ?thesis
    using one(1) [of t] one(2) [of "fst (rebuild_summary disk t)"]
    by (auto simp: rebuild_consolidated_def split: prod.split option.split)
qed

lemma reachable_rows_ok: "reachable t \<Longrightarrow> rows_ok t \<and> distinct (tr_dirs t)"
proof (induction rule: reachable.induct)
  case start
  show ?case by (simp add: rows_ok_def empty_tree_def)
next
  case (scenario t disk rd s params stats art)
  have "list_all (\<lambda>(f, x). f = ''summary_row.csv'' \<longrightarrow> (\<exists>row. length row = 69 \<and> x = write_row [] row)) (scenario_files s params stats art)"
    using length_summary_row [of s params stats art]
    by (cases "ar_sweep art") (auto simp: scenario_files_def opt_kv_def render_one)
  moreover have "rows_ok (make_dir (sanitize (sc_name s)) t)" using scenario.IH by (auto intro: rows_ok_same)
  ultimately show ?case
    using scenario rows_ok_write_files by (simp add: record_trees)
next
  case (rebuild t disk)
  then show ?case using rebuild_keeps_files [of disk t] rows_ok_same [of t] by metis
next
  case (skipped t rd disk name reason)
  then show ?case unfolding record_skipped_def by (intro rows_ok_record_files) (simp_all add: skip_files_def)
next
  case (streams t rd disk name result)
  then show ?case unfolding record_stream_results_def by (intro rows_ok_record_files) (simp_all add: stream_files_def)
next
  case (reload t rd disk name artifact)
  then show ?case unfolding record_reload_artifact_def by (intro rows_ok_record_files) simp_all
next
  case (metrics t rd disk sc_clk_tck name samples)
  have "''summary_row.csv'' \<notin> fst ` set (map (\<lambda>(f, x). (''system_metrics/'' @ f, x)) (sys_csv_files sc_clk_tck samples))"
    by auto
  then show ?case using metrics rows_ok_record_files by (simp add: record_system_metrics_def)
qed

lemma entry_row:
  assumes "rows_ok t" "summary_entry (tr_files t d) = Some x"
  shows "\<exists>row. length row = 69 \<and> x = write_row [] row"
proof (cases "tr_files t d ''summary_row.csv''")
  case None
  then show ?thesis using assms(2) length_reconstructed by (auto simp: summary_entry_def render_one)
next
  case (Some y)
  then show ?thesis using assms by (auto simp: summary_entry_def rows_ok_def split: option.splits dest: spec [of _ d])
qed

lemma entries_rows:
  assumes "rows_ok t"
  shows "\<exists>rows. List.map_filter (\<lambda>d. summary_entry (tr_files t d)) ds = map (write_row []) rows \<and> list_all (\<lambda>r. length r = 69) rows"
proof (induction ds)
  case (Cons d ds)
  then obtain rows where rows: "List.map_filter (\<lambda>d. summary_entry (tr_files t d)) ds = map (write_row []) rows"
      "list_all (\<lambda>r. length r = 69) rows" by blast
  show ?case
  proof (cases "summary_entry (tr_files t d)")
    case None
    then show ?thesis using rows by (auto simp: List.map_filter_def)
  next
    case (Some x)
    obtain row where "length row = 69" "x = write_row [] row" using entry_row [OF assms Some] by blast
    then show ?thesis using rows Some by (intro exI [of _ "row # rows"]) (simp add: List.map_filter_def)
  qed
qed (simp add: List.map_filter_def)


text \<open>A run killed after the key/value summary and before the stored row.\<close>

definition killed_disk :: disk where
  "killed_disk = (\<lambda>d f. if f = ''runs.csv'' then Torn 0 else Written)"

definition empty_result :: result_dir where
  "empty_result = \<lparr>rd_root = ''r'', rd_comparisons = [], rd_started_unix = 0, rd_outcomes = [], rd_tree = empty_tree\<rparr>"


text \<open>A torn stored row, though, is appended as it is and counted, and the scenario passes for recorded.\<close>

definition torn_disk :: disk where
  "torn_disk = (\<lambda>d f. if f = ''summary_row.csv'' then Torn 0 else Written)"

definition torn_tree :: "scenario \<Rightarrow> run_params \<Rightarrow> run_stats \<Rightarrow> tree" where
  "torn_tree s params stats = rd_tree (fst (record_scenario torn_disk s params stats no_artifacts empty_result))"

lemma torn_tree_files:
  "tr_files (torn_tree s params stats) (sanitize (sc_name s)) ''summary_row.csv'' = Some []"
  "tr_files (torn_tree s params stats) (sanitize (sc_name s)) ''summary.csv'' \<noteq> None"
  "tr_dirs (torn_tree s params stats) = [sanitize (sc_name s)]"
  by (simp_all add: torn_tree_def record_trees scenario_files_def no_artifacts_def opt_kv_def torn_disk_def write_file_def
      empty_result_def make_dir_def empty_tree_def)

lemma torn_row_counted:
  "rebuild_table SUMMARY_HEADERS summary_entry (torn_tree s params stats) = (render (csv_new SUMMARY_HEADERS), 1)"
  by (simp add: rebuild_table_eq scenario_dirs_def str_sort_def List.map_filter_def summary_entry_def torn_tree_files)

lemma torn_row_recorded: "scenario_recorded (torn_tree s params stats) (sc_name s)"
  using torn_tree_files by (simp add: scenario_recorded_def)

section \<open>A fresh directory\<close>

text \<open>The \<open>k\<close>-th candidate.\<close>

definition candidate :: "string \<Rightarrow> nat \<Rightarrow> string" where
  "candidate tag k = (if k = 0 then tag else tag @ ''-'' @ show_nat k)"

lemma candidate_inj: "inj (candidate tag)"
  by (auto simp: inj_def candidate_def show_nat_inj split: if_splits)

lemma fresh_root_from:
  "\<lbrakk>\<And>j. i \<le> j \<Longrightarrow> j < n \<Longrightarrow> taken (candidate tag j); \<not> taken (candidate tag n); i \<le> n; n - i < fuel\<rbrakk>
   \<Longrightarrow> fresh_root taken tag (i + 1) (candidate tag i) fuel = Some (candidate tag n)"
proof (induction fuel arbitrary: i)
  case (Suc fuel)
  show ?case
  proof (cases "i = n")
    case False
    then have "taken (candidate tag i)" "fresh_root taken tag (Suc i + 1) (candidate tag (Suc i)) fuel = Some (candidate tag n)"
      using Suc.prems Suc.IH [of "Suc i"] by auto
    then show ?thesis by (simp add: candidate_def)
  qed (use Suc.prems in simp)
qed simp

lemma fresh_candidate:
  assumes "finite {p. taken p}"
  obtains n where "\<not> taken (candidate tag n)" "\<And>j. j < n \<Longrightarrow> taken (candidate tag j)" "n \<le> card {p. taken p}"
proof -
  have "\<exists>n. \<not> taken (candidate tag n)"
  proof (rule ccontr)
    assume "\<not> ?thesis"
    then have "range (candidate tag) \<subseteq> {p. taken p}" by auto
    then show False using assms candidate_inj [of tag] finite_subset finite_imageD infinite_UNIV_nat by blast
  qed
  then have least: "\<not> taken (candidate tag (LEAST n. \<not> taken (candidate tag n)))" by (rule LeastI_ex)
  define n where "n = (LEAST n. \<not> taken (candidate tag n))"
  have below: "taken (candidate tag j)" if "j < n" for j using that not_less_Least unfolding n_def by blast
  then have "candidate tag ` {..<n} \<subseteq> {p. taken p}" by auto
  then have "card (candidate tag ` {..<n}) \<le> card {p. taken p}" by (intro card_mono [OF assms])
  moreover have "card (candidate tag ` {..<n}) = n"
    by (simp add: card_image inj_on_subset [OF candidate_inj])
  ultimately have "n \<le> card {p. taken p}" by linarith
  moreover have "\<not> taken (candidate tag n)" using least unfolding n_def .
  ultimately show ?thesis using below by (rule that [rotated 2])
qed

text \<open>C36: However many directories the same second has left, creating a result directory ends: it takes the first of
  the timestamp, the timestamp with \<open>-1\<close>, with \<open>-2\<close> and so on that does not exist, after at most one test more
  than there are directories.\<close>

theorem result_dir_create_ends:
  assumes "finite {p. taken p}" "card {p. taken p} < fuel"
  shows "\<exists>n. (\<forall>rd. result_dir_create mkdir taken now_ns fuel = Some (Inr rd)
                \<longrightarrow> rd_root rd = candidate (format_timestamp (now_ns div 1000000000)) n \<and> rd_tree rd = empty_tree)
            \<and> \<not> taken (candidate (format_timestamp (now_ns div 1000000000)) n)
            \<and> (\<forall>j<n. taken (candidate (format_timestamp (now_ns div 1000000000)) j))
            \<and> (if mkdir (candidate (format_timestamp (now_ns div 1000000000)) n)
               then \<exists>rd. result_dir_create mkdir taken now_ns fuel = Some (Inr rd)
               else result_dir_create mkdir taken now_ns fuel = Some (Inl ()))"
proof -
  let ?tag = "format_timestamp (now_ns div 1000000000)"
  obtain n where n: "\<not> taken (candidate ?tag n)" "\<And>j. j < n \<Longrightarrow> taken (candidate ?tag j)" "n \<le> card {p. taken p}"
    using fresh_candidate [OF assms(1), of ?tag] by blast
  have "fresh_root taken ?tag (0 + 1) (candidate ?tag 0) fuel = Some (candidate ?tag n)"
    using n assms(2) by (intro fresh_root_from) auto
  then have "fresh_root taken ?tag 1 ?tag fuel = Some (candidate ?tag n)" by (simp add: candidate_def)
  then show ?thesis using n(1,2) by (intro exI [of _ n]) (simp add: result_dir_create_def Let_def)
qed

lemma one_digit: "show_nat (Suc 0) = ''1''"
  by (subst show_nat.simps) (simp add: digit_char_def, code_simp)

lemma result_dir_create_ends_witness:
  "\<exists>rd. result_dir_create (\<lambda>_. True) (\<lambda>p. p = format_timestamp 0) 0 2 = Some (Inr rd)
      \<and> rd_root rd = format_timestamp 0 @ ''-1''"
proof -
  have "{p. p = format_timestamp 0} = {format_timestamp 0}" by auto
  then obtain n where n: "\<forall>rd. result_dir_create (\<lambda>_. True) (\<lambda>p. p = format_timestamp 0) 0 2 = Some (Inr rd)
        \<longrightarrow> rd_root rd = candidate (format_timestamp 0) n"
      "candidate (format_timestamp 0) n \<noteq> format_timestamp 0"
      "\<forall>j<n. candidate (format_timestamp 0) j = format_timestamp 0"
      "\<exists>rd. result_dir_create (\<lambda>_. True) (\<lambda>p. p = format_timestamp 0) 0 2 = Some (Inr rd)"
    using result_dir_create_ends [of "\<lambda>p. p = format_timestamp 0" 2 "\<lambda>_. True" 0] by auto
  have "n = 1"
  proof (rule ccontr)
    assume "n \<noteq> 1"
    moreover have "n \<noteq> 0" using n(2) by (cases n) (auto simp: candidate_def)
    ultimately have "candidate (format_timestamp 0) 1 = format_timestamp 0" using n(3) by auto
    then show False by (simp add: candidate_def)
  qed
  then show ?thesis using n(1,4) by (auto simp: candidate_def one_digit)
qed

section \<open>Names that share a directory\<close>

text \<open>The configuration check tells names apart as they are written, the directory by their sanitized form, and the run
  loop asks \<open>scenario_recorded\<close> whether it resumes or not. Of two scenarios whose names share a directory the second
  is therefore passed over as already recorded.\<close>

lemma shared_directory: "sanitize ''a b'' = sanitize ''a_b''" "''a b'' \<noteq> ''a_b''"
  by (simp_all add: sanitize_def is_ascii_alphanumeric_def is_digit_def)

lemma shared_recorded: "scenario_recorded t ''a b'' = scenario_recorded t ''a_b''"
  by (simp add: scenario_recorded_def shared_directory)

end
