(* ===== verification/Pki.thy ===== *)
theory Pki
  imports Gateway_Path Text
begin

text \<open>
  Benchmark certificates, \<open>src/src/pki.rs\<close>, and the \<open>pki\<close> command of \<open>src/src/commands.rs\<close>: the \<open>openssl\<close>
  invocations and file writes behind each identity, run in order up to the first that fails. What the host
  answers to each of them is an argument and may depend on what was done before.
\<close>

section \<open>Identities\<close>

record identity =
  id_cert :: string
  id_key :: string

datatype key_type = EcP256 | Rsa2048

fun newkey_args :: "key_type \<Rightarrow> string list" where
  "newkey_args EcP256 = [''-newkey'', ''ec'', ''-pkeyopt'', ''ec_paramgen_curve:prime256v1'']"
| "newkey_args Rsa2048 = [''-newkey'', ''rsa:2048'']"

section \<open>Actions and answers\<close>

datatype pki_action =
  CreateDir string
| PathArg string
| WriteText string string
| RunOpenssl "string list"
| SetMode string nat

datatype openssl_answer = NotSpawned string | OpensslExit bool string

record pki_host =
  ph_openssl_available :: bool
  ph_create_dir :: "string \<Rightarrow> string option"
  ph_utf8 :: "string \<Rightarrow> bool"
  ph_write :: "string \<Rightarrow> string \<Rightarrow> string option"
  ph_set_mode :: "string \<Rightarrow> nat \<Rightarrow> string option"
  ph_openssl :: "pki_action list \<Rightarrow> string list \<Rightarrow> openssl_answer"
  ph_exists :: "string \<Rightarrow> bool"

definition run_openssl :: "string list \<Rightarrow> openssl_answer \<Rightarrow> string option" where
  "run_openssl args ans =
     (case ans of
        NotSpawned e \<Rightarrow> Some (''failed to run openssl CLI: '' @ e)
      | OpensslExit ok stderr \<Rightarrow>
          if ok then None
          else Some (''openssl '' @ (case args of [] \<Rightarrow> [] | a # as \<Rightarrow> a) @ '' failed: '' @ trim stderr))"

definition path_arg :: "pki_host \<Rightarrow> string \<Rightarrow> string option" where
  "path_arg host p = (if ph_utf8 host p then None else Some ''non-UTF8 certificate path'')"

definition answer :: "pki_host \<Rightarrow> pki_action list \<Rightarrow> pki_action \<Rightarrow> string option" where
  "answer host past a =
     (case a of
        CreateDir d \<Rightarrow> ph_create_dir host d
      | PathArg p \<Rightarrow> path_arg host p
      | WriteText p t \<Rightarrow> ph_write host p t
      | RunOpenssl args \<Rightarrow> run_openssl args (ph_openssl host past args)
      | SetMode p m \<Rightarrow> ph_set_mode host p m)"

fun perform :: "pki_host \<Rightarrow> pki_action list \<Rightarrow> pki_action list \<Rightarrow> string option \<times> pki_action list" where
  "perform host past [] = (None, past)"
| "perform host past (a # as) =
     (case answer host past a of
        Some e \<Rightarrow> (Some e, past @ [a])
      | None \<Rightarrow> perform host (past @ [a]) as)"

text \<open>A helper runs its actions and returns a value when all succeed.\<close>

type_synonym 'a pki = "(string + 'a) \<times> pki_action list"

definition perform_for :: "pki_host \<Rightarrow> pki_action list \<Rightarrow> 'a \<Rightarrow> 'a pki" where
  "perform_for host as v =
     (case perform host [] as of (Some e, done) \<Rightarrow> (Inl e, done) | (None, done) \<Rightarrow> (Inr v, done))"

section \<open>Self-signed identities\<close>

definition LOOPBACK_SANS :: string where "LOOPBACK_SANS = ''DNS:localhost,IP:127.0.0.1,IP:::1''"

definition self_signed_identity :: "string \<Rightarrow> identity" where
  "self_signed_identity dir = \<lparr>id_cert = path_join dir ''server.crt'', id_key = path_join dir ''server.key''\<rparr>"

definition self_signed_actions :: "string \<Rightarrow> u32 \<Rightarrow> key_type \<Rightarrow> pki_action list" where
  "self_signed_actions dir days key_type =
     (let cert = path_join dir ''server.crt''; key = path_join dir ''server.key'' in
      [CreateDir dir, PathArg key, PathArg cert,
       RunOpenssl ([''req'', ''-x509''] @ newkey_args key_type
         @ [''-nodes'', ''-keyout'', key, ''-out'', cert, ''-days'', show_word days, ''-subj'', ''/CN=localhost'',
            ''-addext'', ''subjectAltName=DNS:localhost,IP:127.0.0.1,IP:::1''])])"

definition generate_self_signed_with :: "pki_host \<Rightarrow> string \<Rightarrow> u32 \<Rightarrow> key_type \<Rightarrow> identity pki" where
  "generate_self_signed_with host dir days key_type =
     perform_for host (self_signed_actions dir days key_type) (self_signed_identity dir)"

definition generate_self_signed :: "pki_host \<Rightarrow> string \<Rightarrow> u32 \<Rightarrow> identity pki" where
  "generate_self_signed host dir days = generate_self_signed_with host dir days EcP256"

section \<open>Leaves signed by a benchmark CA\<close>

definition san_list :: "string list \<Rightarrow> string" where
  "san_list extra = fold (\<lambda>entry san. san @ '','' @ entry) extra LOOPBACK_SANS"

definition leaf_identity :: "string \<Rightarrow> string \<Rightarrow> identity" where
  "leaf_identity dir name = \<lparr>id_cert = path_join dir (name @ ''.crt''), id_key = path_join dir (name @ ''.key'')\<rparr>"

definition leaf_extensions :: "string list \<Rightarrow> string \<Rightarrow> string" where
  "leaf_extensions sans eku =
     ''basicConstraints=CA:FALSE'' @ [CHR 0x0A] @ ''subjectAltName='' @ san_list sans @ [CHR 0x0A]
     @ ''keyUsage=digitalSignature'' @ [CHR 0x0A] @ ''extendedKeyUsage='' @ eku @ [CHR 0x0A]"

definition sign_leaf_actions ::
  "string \<Rightarrow> string \<Rightarrow> string \<Rightarrow> string \<Rightarrow> string \<Rightarrow> string \<Rightarrow> string \<Rightarrow> string list \<Rightarrow> pki_action list" where
  "sign_leaf_actions dir name cn ca_cert ca_key eku days extra_sans =
     (let key = path_join dir (name @ ''.key''); csr = path_join dir (name @ ''.csr'');
          cert = path_join dir (name @ ''.crt''); ext = path_join dir (name @ ''.ext'') in
      [WriteText ext (leaf_extensions extra_sans eku), PathArg key, PathArg csr,
       RunOpenssl [''req'', ''-new'', ''-newkey'', ''ec'', ''-pkeyopt'', ''ec_paramgen_curve:prime256v1'', ''-nodes'',
         ''-keyout'', key, ''-subj'', ''/CN='' @ cn, ''-out'', csr],
       PathArg csr, PathArg ca_cert, PathArg ca_key, PathArg ext, PathArg cert,
       RunOpenssl [''x509'', ''-req'', ''-in'', csr, ''-CA'', ca_cert, ''-CAkey'', ca_key, ''-CAcreateserial'',
         ''-days'', days, ''-extfile'', ext, ''-out'', cert]])"

definition ca_actions :: "string \<Rightarrow> string \<Rightarrow> pki_action list" where
  "ca_actions dir days =
     (let ca_cert = path_join dir ''ca.crt''; ca_key = path_join dir ''ca.key'' in
      [CreateDir dir, PathArg ca_key, PathArg ca_cert,
       RunOpenssl [''req'', ''-x509'', ''-newkey'', ''ec'', ''-pkeyopt'', ''ec_paramgen_curve:prime256v1'', ''-nodes'',
         ''-keyout'', ca_key, ''-out'', ca_cert, ''-days'', days, ''-subj'', ''/CN=SESHAT Test CA'',
         ''-addext'', ''basicConstraints=critical,CA:TRUE'', ''-addext'', ''keyUsage=critical,keyCertSign,cRLSign'']])"

definition mtls_actions :: "string \<Rightarrow> u32 \<Rightarrow> string list \<Rightarrow> pki_action list" where
  "mtls_actions dir days server_extra_sans =
     (let d = show_word days; ca_cert = path_join dir ''ca.crt''; ca_key = path_join dir ''ca.key'' in
      ca_actions dir d
      @ sign_leaf_actions dir ''server'' ''localhost'' ca_cert ca_key ''serverAuth'' d server_extra_sans
      @ sign_leaf_actions dir ''client'' ''seshat-client'' ca_cert ca_key ''clientAuth'' d [])"

definition mtls_bundle :: "string \<Rightarrow> ca_bundle" where
  "mtls_bundle dir =
     (let server = leaf_identity dir ''server''; client = leaf_identity dir ''client'' in
      \<lparr>cb_ca_cert = path_join dir ''ca.crt'', cb_server_cert = id_cert server, cb_server_key = id_key server,
       cb_client_cert = id_cert client, cb_client_key = id_key client\<rparr>)"

definition generate_mtls_bundle_with_sans :: "pki_host \<Rightarrow> string \<Rightarrow> u32 \<Rightarrow> string list \<Rightarrow> ca_bundle pki" where
  "generate_mtls_bundle_with_sans host dir days sans = perform_for host (mtls_actions dir days sans) (mtls_bundle dir)"

definition generate_mtls_bundle :: "pki_host \<Rightarrow> string \<Rightarrow> u32 \<Rightarrow> ca_bundle pki" where
  "generate_mtls_bundle host dir days = generate_mtls_bundle_with_sans host dir days []"

definition issue_server_leaf :: "pki_host \<Rightarrow> string \<Rightarrow> string \<Rightarrow> u32 \<Rightarrow> identity pki" where
  "issue_server_leaf host dir name days =
     (let ca_cert = path_join dir ''ca.crt''; ca_key = path_join dir ''ca.key'' in
      if \<not> ph_exists host ca_cert \<or> \<not> ph_exists host ca_key
      then (Inl ''no ca.crt/ca.key under dir (generate_mtls_bundle must run first)'', [])
      else perform_for host
             (sign_leaf_actions dir name ''localhost'' ca_cert ca_key ''serverAuth'' (show_word days) [])
             (leaf_identity dir name))"

section \<open>The command\<close>

definition pki_command :: "pki_host \<Rightarrow> string \<Rightarrow> u32 \<Rightarrow> string list \<Rightarrow> unit pki" where
  "pki_command host out days sans =
     (if \<not> ph_openssl_available host
      then (Inl ''the openssl CLI is required to mint a benchmark PKI bundle'', [])
      else (case generate_mtls_bundle_with_sans host out days sans of
              (Inl e, done) \<Rightarrow> (Inl e, done)
            | (Inr b, done) \<Rightarrow>
                (case perform host done [SetMode (cb_server_key b) 384, SetMode (cb_client_key b) 384] of
                   (Some e, done) \<Rightarrow> (Inl e, done)
                 | (None, done) \<Rightarrow> (Inr (), done))))"

section \<open>What the actions read and write\<close>

fun option_value :: "string \<Rightarrow> string list \<Rightarrow> string list" where
  "option_value flag (a # b # as) = (if a = flag then b # option_value flag as else option_value flag (b # as))"
| "option_value flag as = []"

fun outputs :: "pki_action \<Rightarrow> string list" where
  "outputs (WriteText p t) = [p]"
| "outputs (RunOpenssl args) = option_value ''-out'' args @ option_value ''-keyout'' args"
| "outputs _ = []"

fun inputs :: "pki_action \<Rightarrow> string list" where
  "inputs (RunOpenssl args) =
     option_value ''-in'' args @ option_value ''-CA'' args @ option_value ''-CAkey'' args @ option_value ''-extfile'' args"
| "inputs (SetMode p m) = [p]"
| "inputs _ = []"

text \<open>Every file that is read was written before.\<close>

fun fed :: "string list \<Rightarrow> pki_action list \<Rightarrow> bool" where
  "fed have [] = True"
| "fed have (a # as) = (set (inputs a) \<subseteq> set have \<and> fed (have @ outputs a) as)"

lemma fed_append: "fed have (as @ bs) = (fed have as \<and> fed (have @ concat (map outputs as)) bs)"
  by (induction as arbitrary: "have") auto

lemma fed_take: "fed have as \<Longrightarrow> fed have (take n as)"
  by (metis append_take_drop_id fed_append)

lemma perform_cases:
  "perform host past as = (None, past @ as)
   \<or> (\<exists>n e. n < length as \<and> perform host past as = (Some e, past @ take (Suc n) as)
        \<and> answer host (past @ take n as) (as ! n) = Some e)"
proof (induction as arbitrary: past)
  case (Cons a as)
  show ?case
  proof (cases "answer host past a")
    case None
    then show ?thesis using Cons [of "past @ [a]"] by (auto 4 3 simp: less_Suc_eq_0_disj)
  next
    case (Some e)
    then show ?thesis by (intro disjI2 exI [of _ 0]) simp
  qed
qed simp

section \<open>Reading only what was written\<close>

lemma path_join_split: "\<exists>p. path_join d n = p @ n"
  by (auto simp: path_join_def intro: exI [of _ "d @ ''/''"])

text \<open>A joined path differs from a flag that does not end in its last component.\<close>

lemma path_join_neq:
  assumes "drop (length f - length n) f \<noteq> n"
  shows "path_join d n \<noteq> f"
proof
  assume "path_join d n = f"
  then obtain p where "f = p @ n" using path_join_split [of d n] by auto
  then show False using assms by simp
qed

lemma path_join_ext_neq:
  assumes "drop (length f - length x) f \<noteq> x"
  shows "path_join d (name @ x) \<noteq> f"
proof
  assume "path_join d (name @ x) = f"
  then obtain p where "f = p @ name @ x" using path_join_split [of d "name @ x"] by auto
  then show False using assms by simp
qed

lemma days_not_flag: "show_word w \<noteq> CHR ''-'' # s"
proof
  assume "show_word w = CHR ''-'' # s"
  then have "list_all is_digit (CHR ''-'' # s)" using show_nat_digits [of "unat w"] by (simp add: show_word_def)
  then show False by (simp add: is_digit_def)
qed

lemmas flag_simps = path_join_neq path_join_ext_neq days_not_flag

lemma newkey_options [simp]:
  "option_value ''-out'' (newkey_args t @ ''-nodes'' # as) = option_value ''-out'' (''-nodes'' # as)"
  "option_value ''-keyout'' (newkey_args t @ ''-nodes'' # as) = option_value ''-keyout'' (''-nodes'' # as)"
  by (cases t; simp)+

abbreviation (input) leaf :: "string \<Rightarrow> string \<Rightarrow> string \<Rightarrow> string \<Rightarrow> u32 \<Rightarrow> string list \<Rightarrow> pki_action list" where
  "leaf dir name cn eku days sans \<equiv>
     sign_leaf_actions dir name cn (path_join dir ''ca.crt'') (path_join dir ''ca.key'') eku (show_word days) sans"

lemma leaf_outputs:
  "concat (map outputs (leaf dir name cn eku days sans))
     = [path_join dir (name @ ''.ext''), path_join dir (name @ ''.csr''), path_join dir (name @ ''.key''), path_join dir (name @ ''.crt'')]"
  by (simp add: sign_leaf_actions_def Let_def flag_simps)

lemma leaf_fed:
  "fed have (leaf dir name cn eku days sans)
     \<longleftrightarrow> path_join dir ''ca.crt'' \<in> set have \<union> {path_join dir (name @ ''.ext''), path_join dir (name @ ''.csr''), path_join dir (name @ ''.key'')}
        \<and> path_join dir ''ca.key'' \<in> set have \<union> {path_join dir (name @ ''.ext''), path_join dir (name @ ''.csr''), path_join dir (name @ ''.key'')}"
  by (auto simp: sign_leaf_actions_def Let_def flag_simps)

lemma ca_outputs: "concat (map outputs (ca_actions dir (show_word days))) = [path_join dir ''ca.crt'', path_join dir ''ca.key'']"
  by (simp add: ca_actions_def Let_def flag_simps)

lemma ca_fed: "fed have (ca_actions dir (show_word days))"
  by (simp add: ca_actions_def Let_def flag_simps)

lemma mtls_fed: "fed [] (mtls_actions dir days sans)"
  unfolding mtls_actions_def Let_def fed_append by (simp add: ca_fed ca_outputs leaf_outputs leaf_fed)

lemma mtls_outputs:
  "{cb_ca_cert b, cb_server_cert b, cb_server_key b, cb_client_cert b, cb_client_key b}
     \<subseteq> set (concat (map outputs (mtls_actions dir days sans)))" if "b = mtls_bundle dir"
  unfolding that mtls_actions_def Let_def map_append concat_append ca_outputs leaf_outputs
  by (simp add: mtls_bundle_def leaf_identity_def Let_def)

text \<open>Minting a mutual-TLS bundle either performs its whole plan, and then every certificate and key of the
  bundle is a file that one of its steps wrote, or it stops at the first step the host refuses and returns that
  step's error. In both cases no step reads a request, extension file or CA file that an earlier step did not write.\<close>

theorem mtls_bundle_complete:
  "fed [] (snd (generate_mtls_bundle_with_sans host dir days sans))
   \<and> (case generate_mtls_bundle_with_sans host dir days sans of
        (Inr b, done) \<Rightarrow>
          done = mtls_actions dir days sans
          \<and> {cb_ca_cert b, cb_server_cert b, cb_server_key b, cb_client_cert b, cb_client_key b}
              \<subseteq> set (concat (map outputs done))
      | (Inl e, done) \<Rightarrow>
          \<exists>n. n < length (mtls_actions dir days sans) \<and> done = take (Suc n) (mtls_actions dir days sans)
            \<and> answer host (take n (mtls_actions dir days sans)) (mtls_actions dir days sans ! n) = Some e)"
proof -
  let ?as = "mtls_actions dir days sans"
  consider "perform host [] ?as = (None, ?as)"
    | n e where "n < length ?as" "perform host [] ?as = (Some e, take (Suc n) ?as)" "answer host (take n ?as) (?as ! n) = Some e"
    using perform_cases [of host "[]" ?as] by auto
  then show ?thesis
  proof cases
    case 1
    then show ?thesis using mtls_fed mtls_outputs [OF refl, of dir days sans]
      by (simp add: generate_mtls_bundle_with_sans_def perform_for_def)
  next
    case 2
    then show ?thesis using fed_take [OF mtls_fed, of "Suc n" dir days sans]
      by (simp add: generate_mtls_bundle_with_sans_def perform_for_def) blast
  qed
qed

text \<open>The extra names are on the server leaf only, after those of loopback.\<close>

lemma san_list_join: "san_list extra = LOOPBACK_SANS @ concat (map (\<lambda>e. CHR '','' # e) extra)"
proof -
  have "fold (\<lambda>entry san. san @ '','' @ entry) extra acc = acc @ concat (map (\<lambda>e. CHR '','' # e) extra)" for acc
    by (induction extra arbitrary: acc) auto
  then show ?thesis by (simp add: san_list_def)
qed

lemma mtls_extensions:
  "[t. WriteText p t \<leftarrow> mtls_actions dir days sans]
     = [leaf_extensions sans ''serverAuth'', leaf_extensions [] ''clientAuth'']"
  by (simp add: mtls_actions_def ca_actions_def sign_leaf_actions_def Let_def)

text \<open>Every key of a bundle is an elliptic curve key, whatever the cipher suite of the scenario authenticates with.\<close>

lemma mtls_keys_ec:
  "list_all (\<lambda>a. case a of RunOpenssl args \<Rightarrow> \<forall>k \<in> set (option_value ''-newkey'' args). k = ''ec'' | _ \<Rightarrow> True)
     (mtls_actions dir days sans)"
  by (simp add: mtls_actions_def ca_actions_def sign_leaf_actions_def Let_def flag_simps)

end
