(* ===== verification/Security_Plan.thy ===== *)
theory Security_Plan
  imports Pki Validate Results
begin

text \<open>
  How a scenario is mapped onto a path, from \<open>src/src/commands.rs\<close>: which scenarios run over loopback, which
  gateway path and which security the others ask for, where their certificates come from, and the security
  parameters built from all of it. The host's answers to the certificate helpers are an argument.
\<close>

section \<open>Direct loopback\<close>

text \<open>The interface of the loopback transport, where one can carry the scenario.\<close>

definition loopback_transport :: "scenario \<Rightarrow> interface option" where
  "loopback_transport s =
     (if sc_streams s \<noteq> [] \<or> gw_enabled (sc_gateway s) \<or> pr_kind (sc_protocol s) \<noteq> ProtoNone then None
      else (case sc_sender s of
              None \<Rightarrow> None
            | Some sn \<Rightarrow>
                (case sn_interface sn of
                   Tcp \<Rightarrow> Some Tcp
                 | Udp \<Rightarrow> Some Udp
                 | _ \<Rightarrow> None)))"

section \<open>Security of a gateway path\<close>

datatype gw_security =
  SecRouting
| SecRoutingUdp
| SecTls string bool
| SecMtls string bool
| SecIntegrityOnly string
| SecDtls string bool
| SecCustom

fun tls_version_name :: "tls_version \<Rightarrow> string" where
  "tls_version_name V1_0 = ''tls1.0''"
| "tls_version_name V1_2 = ''tls1.2''"
| "tls_version_name V1_3 = ''tls1.3''"

fun dtls_version_name :: "tls_version \<Rightarrow> string" where
  "dtls_version_name V1_0 = ''dtls1.0''"
| "dtls_version_name V1_2 = ''dtls1.2''"
| "dtls_version_name V1_3 = ''dtls1.3''"

record gateway_plan =
  gp_security :: gw_security
  gp_topology :: path_topology
  gp_transport_name :: string

definition resolve_security :: "scenario \<Rightarrow> gw_security" where
  "resolve_security s =
     (let p = sc_protocol s in
      if pr_kind p = ProtoNone \<or> pr_protection_mode p = RoutingOnly then SecRouting
      else (case pr_kind p of
              Tls \<Rightarrow>
                (let version = tls_version_name (pr_version p); ktls = pr_kernel p in
                 if pr_protection_mode p = IntegrityOnly then SecIntegrityOnly version
                 else if pr_mutual_auth p then SecMtls version ktls
                 else SecTls version ktls)
            | Dtls \<Rightarrow> SecDtls (dtls_version_name (pr_version p)) (pr_mutual_auth p)
            | Custom \<Rightarrow> SecCustom
            | _ \<Rightarrow> SecRouting))"

definition plan_topology :: "scenario \<Rightarrow> path_topology" where
  "plan_topology s = (case gw_chain (sc_gateway s) of ScgDirect \<Rightarrow> SingleGateway | ScgScg \<Rightarrow> ScgToScg)"

text \<open>The TCP part of \<open>gateway_plan\<close>, once the protocol is not routing.\<close>

definition tcp_security :: "protocol \<Rightarrow> (gw_security \<times> string) option" where
  "tcp_security p =
     (case pr_kind p of
        Tls \<Rightarrow>
          (let version = tls_version_name (pr_version p); ktls = pr_kernel p in
           if pr_protection_mode p = IntegrityOnly then Some (SecIntegrityOnly version, ''scg-tls-integrity'')
           else if pr_mutual_auth p then Some (SecMtls version ktls, if ktls then ''scg-ktls-mtls'' else ''scg-mtls'')
           else if ktls then Some (SecTls version True, ''scg-ktls'')
           else Some (SecTls version False, ''scg-tls''))
      | Custom \<Rightarrow> Some (SecCustom, ''scg-custom'')
      | _ \<Rightarrow> None)"

text \<open>The security and the transport name of a single-sender scenario, over its interface.\<close>

definition sender_security :: "scenario \<Rightarrow> interface \<Rightarrow> (gw_security \<times> string) option" where
  "sender_security s iface =
     (let p = sc_protocol s; routing = (pr_kind p = ProtoNone \<or> pr_protection_mode p = RoutingOnly) in
      if pr_kind p = Dtls
      then (if iface \<noteq> Udp then None
            else let mutual = pr_mutual_auth p in
                 Some (SecDtls (dtls_version_name (pr_version p)) mutual, if mutual then ''scg-dtls-mtls'' else ''scg-dtls''))
      else if iface = Unix then Some (resolve_security s, ''scg-uds'')
      else if iface = Shm then Some (resolve_security s, ''scg-shm'')
      else if iface = Tproxy then Some (resolve_security s, ''scg-tproxy'')
      else if iface = Udp \<and> pr_kind p = Tls
      then (let version = tls_version_name (pr_version p); ktls = pr_kernel p;
                security = (if pr_mutual_auth p then SecMtls version ktls else SecTls version ktls) in
            case pr_app_protocol p of
              AppNone \<Rightarrow> None
            | Ale \<Rightarrow> Some (security, ''scg-udp-ale'')
            | Raw \<Rightarrow> Some (security, ''scg-udp-raw''))
      else if iface = Udp \<and> routing then Some (SecRoutingUdp, ''scg-udp-routing'')
      else if iface = Udp \<and> pr_kind p = Custom then Some (SecCustom, ''scg-custom-udp'')
      else if iface \<noteq> Tcp then None
      else if routing then Some (SecRouting, ''scg-tcp'')
      else tcp_security p)"

definition gateway_plan_for :: "scenario \<Rightarrow> gateway_plan option" where
  "gateway_plan_for s =
     (let plan = (\<lambda>(sec, name). \<lparr>gp_security = sec, gp_topology = plan_topology s, gp_transport_name = name\<rparr>) in
      if \<not> gw_enabled (sc_gateway s) then None
      else if sc_streams s \<noteq> [] then Some (plan (resolve_security s, ''scg-multistream''))
      else (case sc_sender s of
              None \<Rightarrow> None
            | Some sn \<Rightarrow> map_option plan (sender_security s (sn_interface sn))))"

section \<open>Certificates\<close>

definition selected_server_identity :: "scenario \<Rightarrow> identity option" where
  "selected_server_identity s =
     (let c = pr_certificates (sc_protocol s) in
      case (cs_server_cert c, cs_server_key c) of
        (Some cert, Some key) \<Rightarrow> Some \<lparr>id_cert = cert, id_key = key\<rparr>
      | _ \<Rightarrow> None)"

definition selected_mtls_bundle :: "scenario \<Rightarrow> ca_bundle option" where
  "selected_mtls_bundle s =
     (let c = pr_certificates (sc_protocol s) in
      case (cs_ca_cert c, cs_server_cert c, cs_server_key c, cs_client_cert c, cs_client_key c) of
        (Some ca, Some sc, Some sk, Some cc, Some ck) \<Rightarrow>
          Some \<lparr>cb_ca_cert = ca, cb_server_cert = sc, cb_server_key = sk, cb_client_cert = cc, cb_client_key = ck\<rparr>
      | _ \<Rightarrow> None)"

definition cipher_requires_rsa_auth :: "string \<Rightarrow> bool" where
  "cipher_requires_rsa_auth cipher =
     (let c = to_upper cipher in
      if starts_with c ''TLS_'' \<or> starts_with c ''TLS13'' then False
      else contains c ''RSA'' \<and> \<not> contains c ''ECDSA'')"

definition named_key_type :: "string \<Rightarrow> key_type option" where
  "named_key_type name =
     (let n = to_lower name in
      if n = ''rsa'' \<or> n = ''rsa2048'' then Some Rsa2048
      else if n \<in> set [''ecdsa'', ''ec'', ''ecp256'', ''ecdsa-p256'', ''p256''] then Some EcP256
      else None)"

definition cipher_key_type :: "string option \<Rightarrow> key_type" where
  "cipher_key_type suite =
     (case suite of
        Some cipher \<Rightarrow> if cipher_requires_rsa_auth cipher then Rsa2048 else EcP256
      | None \<Rightarrow> EcP256)"

definition server_key_type_for_scenario :: "scenario \<Rightarrow> key_type" where
  "server_key_type_for_scenario s =
     (let p = sc_protocol s in
      case Option.bind (pr_cert_key_type p) named_key_type of
        Some t \<Rightarrow> t
      | None \<Rightarrow> cipher_key_type (pr_cipher_suite p))"

definition server_identity_for_scenario :: "pki_host \<Rightarrow> scenario \<Rightarrow> string \<Rightarrow> string \<Rightarrow> identity pki" where
  "server_identity_for_scenario host s work_dir purpose =
     (case selected_server_identity s of
        Some i \<Rightarrow> (Inr i, [])
      | None \<Rightarrow>
          if \<not> ph_openssl_available host
          then (Inl (''scenario '' @ [CHR 0x27] @ sc_name s @ [CHR 0x27] @ '' needs '' @ purpose
                       @ '' certificates but the openssl CLI is unavailable''), [])
          else generate_self_signed_with host work_dir 2 (server_key_type_for_scenario s))"

definition mtls_bundle_for_scenario :: "pki_host \<Rightarrow> scenario \<Rightarrow> string \<Rightarrow> string \<Rightarrow> ca_bundle pki" where
  "mtls_bundle_for_scenario host s work_dir purpose =
     (case selected_mtls_bundle s of
        Some b \<Rightarrow> (Inr b, [])
      | None \<Rightarrow>
          if \<not> ph_openssl_available host
          then (Inl (''scenario '' @ [CHR 0x27] @ sc_name s @ [CHR 0x27] @ '' needs a '' @ purpose
                       @ '' CA bundle but the openssl CLI is unavailable''), [])
          else generate_mtls_bundle host work_dir 2)"

text \<open>The second identity a certificate rotation swaps to.\<close>

definition stage_swap_identity :: "pki_host \<Rightarrow> scenario \<Rightarrow> string \<Rightarrow> identity pki" where
  "stage_swap_identity host s work_dir =
     (if \<not> ph_openssl_available host
      then (Inl (''scenario '' @ [CHR 0x27] @ sc_name s @ [CHR 0x27]
                   @ '' needs a swap certificate but the openssl CLI is unavailable''), [])
      else if ph_exists host (path_join work_dir ''ca.key'')
      then issue_server_leaf host work_dir ''server-swap'' 2
      else generate_self_signed_with host (path_join work_dir ''swap'') 2 (server_key_type_for_scenario s))"

section \<open>Security parameters\<close>

definition apply_cipher_override :: "scenario \<Rightarrow> security_spec \<Rightarrow> security_spec" where
  "apply_cipher_override s spec =
     (case pr_cipher_suite (sc_protocol s) of
        None \<Rightarrow> spec
      | Some cipher \<Rightarrow>
          (case pr_version (sc_protocol s) of
             V1_3 \<Rightarrow> with_ciphersuites cipher spec
           | _ \<Rightarrow> with_cipher_list cipher spec))"

definition apply_protocol_security_overrides :: "scenario \<Rightarrow> security_spec \<Rightarrow> security_spec" where
  "apply_protocol_security_overrides s spec =
     (let p = sc_protocol s;
          spec = apply_cipher_override s spec;
          spec = (case pr_kex_group p of Some g \<Rightarrow> with_groups g spec | None \<Rightarrow> spec);
          spec = (case (pr_psk_identity p, pr_psk_hex p) of
                    (Some i, Some k) \<Rightarrow> with_psk i k spec
                  | _ \<Rightarrow> spec);
          spec = (case pr_profile p of Some pf \<Rightarrow> with_profile pf spec | None \<Rightarrow> spec)
      in with_address_family (sc_address_family s)
           (with_certificate_selection (pr_certificates p) (with_resumption (pr_resumption p) spec)))"

fun param_json :: "provider_param \<Rightarrow> json" where
  "param_json (PBool b) = JBool b"
| "param_json (PInt i) = JNum i"
| "param_json (PStr s) = JStr s"

definition ktls_provider :: "bool \<Rightarrow> security_spec \<Rightarrow> security_spec" where
  "ktls_provider ktls spec = (if ktls then with_provider ''ktls'' spec else spec)"

definition map_pki :: "('a \<Rightarrow> 'b) \<Rightarrow> 'a pki \<Rightarrow> 'b pki" where
  "map_pki f r = (case r of (Inl e, done) \<Rightarrow> (Inl e, done) | (Inr v, done) \<Rightarrow> (Inr (f v), done))"

definition base_spec :: "pki_host \<Rightarrow> gw_security \<Rightarrow> scenario \<Rightarrow> string \<Rightarrow> security_spec pki" where
  "base_spec host sec s work_dir =
     (case sec of
        SecRouting \<Rightarrow> (Inr routing_tcp, [])
      | SecRoutingUdp \<Rightarrow> (Inr routing_udp, [])
      | SecTls version ktls \<Rightarrow>
          map_pki (\<lambda>i. ktls_provider ktls (tls_server version (id_cert i) (id_key i)))
            (server_identity_for_scenario host s work_dir ''TLS'')
      | SecMtls version ktls \<Rightarrow>
          map_pki (\<lambda>b. ktls_provider ktls (tls_mutual version b)) (mtls_bundle_for_scenario host s work_dir ''TLS'')
      | SecIntegrityOnly version \<Rightarrow>
          map_pki (\<lambda>i. with_profile ''integrity-only'' (tls_server version (id_cert i) (id_key i)))
            (server_identity_for_scenario host s work_dir ''TLS integrity-only'')
      | SecDtls version mutual \<Rightarrow>
          if mutual then map_pki (dtls_mutual version) (mtls_bundle_for_scenario host s work_dir ''DTLS'')
          else map_pki (\<lambda>i. dtls_server version (id_cert i) (id_key i))
                 (server_identity_for_scenario host s work_dir ''DTLS'')
      | SecCustom \<Rightarrow>
          (case pr_security_provider (sc_protocol s) of
             None \<Rightarrow> (Inl ''protocol.type=custom requires protocol.security_provider'', [])
           | Some provider \<Rightarrow>
               (Inr (custom provider
                       (case map_option sn_interface (sc_sender s) of Some Udp \<Rightarrow> ''udp'' | _ \<Rightarrow> ''tcp'')
                       (map (\<lambda>(k, v). (k, param_json v)) (pr_provider_params (sc_protocol s)))), [])))"

definition build_security_spec :: "pki_host \<Rightarrow> gateway_plan \<Rightarrow> scenario \<Rightarrow> string \<Rightarrow> security_spec pki" where
  "build_security_spec host plan s work_dir =
     map_pki (apply_protocol_security_overrides s) (base_spec host (gp_security plan) s work_dir)"

definition build_multistream_spec :: "pki_host \<Rightarrow> gateway_plan \<Rightarrow> scenario \<Rightarrow> string \<Rightarrow> security_spec pki" where
  "build_multistream_spec host plan s work_dir = build_security_spec host plan s work_dir"

section \<open>Names and budgets\<close>

definition provisioned_pipelines :: "nat \<Rightarrow> nat \<Rightarrow> nat" where
  "provisioned_pipelines connections runs = max connections 1 * max runs 1"

definition hex_digit :: "nat \<Rightarrow> char" where
  "hex_digit d = (if d < 10 then char_of (48 + d) else char_of (87 + d))"

fun show_hex :: "nat \<Rightarrow> string" where
  "show_hex n = (if n < 16 then [hex_digit n] else show_hex (n div 16) @ [hex_digit (n mod 16)])"

declare show_hex.simps [simp del]

text \<open>The identifier of a scenario's local endpoints; \<open>hash\<close> is the standard library's default hasher.\<close>

definition scenario_app_id :: "(string \<Rightarrow> u64) \<Rightarrow> string \<Rightarrow> string" where
  "scenario_app_id hash name =
     (let full = ''seshat-'' @ sanitize name in
      if length full \<le> 40 then full
      else ''seshat-'' @ take 24 (sanitize name) @ ''-'' @ pad_left 8 (CHR ''0'') (show_hex (unat (hash name))))"


section \<open>What validation leaves without a path\<close>

text \<open>The scenarios that neither loopback nor a gateway path carries.\<close>

definition unrouted :: "scenario \<Rightarrow> sender \<Rightarrow> bool" where
  "unrouted s sn =
     (let p = sc_protocol s in
      if gw_enabled (sc_gateway s)
      then sn_interface sn = Udp
           \<and> (pr_kind p = Tls \<and> pr_app_protocol p = AppNone \<or> pr_kind p = Wireguard \<and> pr_protection_mode p \<noteq> RoutingOnly)
      else pr_kind p \<noteq> ProtoNone \<or> sn_interface sn = Tproxy)"

lemma runnable_cases:
  assumes "scenario_report_ok (validate_scenario s)" "sc_enabled s"
  shows "runnable s"
  using assms by (simp add: scenario_report_ok_iff)

lemma sender_security_none:
  assumes "kind_ok s" "sc_sender s = Some sn" "transport_ok s (sn_interface sn)"
  shows "sender_security s (sn_interface sn) = None
     \<longleftrightarrow> sn_interface sn = Udp
       \<and> (pr_kind (sc_protocol s) = Tls \<and> pr_app_protocol (sc_protocol s) = AppNone
          \<or> pr_kind (sc_protocol s) = Wireguard \<and> pr_protection_mode (sc_protocol s) \<noteq> RoutingOnly)"
  using assms
  by (cases "sn_interface sn"; cases "pr_kind (sc_protocol s)"; cases "pr_app_protocol (sc_protocol s)")
    (auto simp: sender_security_def tcp_security_def kind_ok_def transport_ok_def Let_def split: option.splits)

text \<open>C13: Of the enabled scenarios that pass validation, exactly these are carried neither by loopback nor by a gateway
  path, and are skipped as not implemented: without the gateway, those that ask for cryptography or for transparent
  interception; with it, single senders over UDP whose protocol is TLS without ALE or RAW framing, or WireGuard
  that is not routing only.\<close>

theorem validated_dispatch:
  assumes "scenario_report_ok (validate_scenario s)" "sc_enabled s"
  shows "loopback_transport s = None \<and> gateway_plan_for s = None
     \<longleftrightarrow> sc_streams s = [] \<and> (\<exists>sn. sc_sender s = Some sn \<and> unrouted s sn)"
proof -
  have r: "runnable s" using runnable_cases [OF assms] .
  show ?thesis
  proof (cases "sc_streams s = []")
    case False
    then show ?thesis using r by (simp add: runnable_def streams_ok_def gateway_plan_for_def Let_def)
  next
    case True
    then obtain sn where sn: "sc_sender s = Some sn" using r by (auto simp: runnable_def)
    then have ok: "kind_ok s" "transport_ok s (sn_interface sn)" "gateway_ok (sn_interface sn) (sc_gateway s)"
      using r by (simp_all add: runnable_def sender_ok_def)
    show ?thesis
    proof (cases "gw_enabled (sc_gateway s)")
      case g: True
      then show ?thesis using True sn sender_security_none [OF ok(1) sn ok(2)]
        by (auto simp: loopback_transport_def gateway_plan_for_def unrouted_def Let_def)
    next
      case g: False
      then show ?thesis using True sn ok(3)
        by (cases "sn_interface sn") (auto simp: loopback_transport_def gateway_plan_for_def unrouted_def gateway_ok_def Let_def)
    qed
  qed
qed

definition routed_sample :: scenario where
  "routed_sample = sample_scenario\<lparr>sc_sender := Some sample_sender\<rparr>"

lemma validated_dispatch_witness:
  "\<not> (loopback_transport routed_sample = None \<and> gateway_plan_for routed_sample = None)"
proof -
  have "scenario_report_ok (validate_scenario routed_sample)" "sc_enabled routed_sample"
    by (simp_all add: scenario_report_ok_iff routed_sample_def sample_simps)
  then show ?thesis
    using validated_dispatch [of routed_sample] by (simp add: routed_sample_def sample_simps unrouted_def gateway_default_def)
qed

text \<open>A plan that runs over a single sender has one, so its run parameters can be built.\<close>

lemma plan_has_sender: "gateway_plan_for s = Some p \<Longrightarrow> sc_streams s = [] \<Longrightarrow> sc_sender s \<noteq> None"
  by (auto simp: gateway_plan_for_def Let_def split: if_splits option.splits)

lemma loopback_has_sender: "loopback_transport s = Some i \<Longrightarrow> \<exists>sn. sc_sender s = Some sn \<and> sn_interface sn = i"
  by (auto simp: loopback_transport_def split: if_splits option.splits interface.splits)

section \<open>What the plan secures\<close>

definition asked_security :: "protocol \<Rightarrow> gw_security" where
  "asked_security p =
     (if pr_kind p = Dtls then SecDtls (dtls_version_name (pr_version p)) (pr_mutual_auth p)
      else if pr_mutual_auth p then SecMtls (tls_version_name (pr_version p)) (pr_kernel p)
      else SecTls (tls_version_name (pr_version p)) (pr_kernel p))"

lemma plan_security:
  assumes "gateway_plan_for s = Some plan" "pr_kind (sc_protocol s) \<in> {Tls, Dtls}" "pr_protection_mode (sc_protocol s) = Full"
  shows "gp_security plan = asked_security (sc_protocol s)"
  using assms
  by (auto simp: gateway_plan_for_def resolve_security_def sender_security_def tcp_security_def asked_security_def Let_def
      split: if_splits option.splits app_protocol.splits)

lemma override_keeps:
  "se_provider (apply_protocol_security_overrides s spec) = se_provider spec"
  "se_proto (apply_protocol_security_overrides s spec) = se_proto spec"
  "se_protocol_version (apply_protocol_security_overrides s spec) = se_protocol_version spec"
  "se_verify (apply_protocol_security_overrides s spec) = se_verify spec"
  "se_resumption (apply_protocol_security_overrides s spec) = pr_resumption (sc_protocol s)"
  "se_address_family (apply_protocol_security_overrides s spec) = sc_address_family s"
  by (simp_all add: apply_protocol_security_overrides_def apply_cipher_override_def with_address_family_def
      with_certificate_selection_def with_resumption_def with_profile_def with_psk_def with_groups_def
      with_cipher_list_def with_ciphersuites_def Let_def split: option.split tls_version.split)

lemma override_identity:
  assumes "pr_certificates (sc_protocol s) = c"
  shows "se_server_cert (apply_protocol_security_overrides s spec) = or_keep (cs_server_cert c) (se_server_cert spec)"
    "se_server_key (apply_protocol_security_overrides s spec) = or_keep (cs_server_key c) (se_server_key spec)"
    "se_client_cert (apply_protocol_security_overrides s spec) = or_keep (cs_client_cert c) (se_client_cert spec)"
    "se_client_key (apply_protocol_security_overrides s spec) = or_keep (cs_client_key c) (se_client_key spec)"
    "se_ca_cert (apply_protocol_security_overrides s spec) = or_keep (cs_ca_cert c) (se_ca_cert spec)"
  using assms
  by (simp_all add: apply_protocol_security_overrides_def apply_cipher_override_def with_address_family_def
      with_certificate_selection_def with_resumption_def with_profile_def with_psk_def with_groups_def
      with_cipher_list_def with_ciphersuites_def Let_def split: option.split tls_version.split)

lemma map_pki_ok: "map_pki f r = (Inr v, done) \<longleftrightarrow> (\<exists>x. r = (Inr x, done) \<and> v = f x)"
  by (cases r; cases "fst r") (auto simp: map_pki_def split: sum.splits)

lemma base_spec_asked:
  assumes "base_spec host (asked_security p) s dir = (Inr spec, done)" "pr_kind p \<in> {Tls, Dtls}" "pr_kind p = Dtls \<longrightarrow> \<not> pr_kernel p"
  shows "se_provider spec = (if pr_kind p = Dtls then ''dtls'' else if pr_kernel p then ''ktls'' else ''tls'')"
    "se_proto spec = (if pr_kind p = Dtls then ''udp'' else ''tcp'')"
    "se_protocol_version spec = Some (if pr_kind p = Dtls then dtls_version_name (pr_version p) else tls_version_name (pr_version p))"
    "se_verify spec = Some (if pr_mutual_auth p then ''mutual'' else ''none'')"
    "se_server_cert spec \<noteq> None" "se_server_key spec \<noteq> None"
    "pr_mutual_auth p \<longrightarrow> se_client_cert spec \<noteq> None \<and> se_client_key spec \<noteq> None \<and> se_ca_cert spec \<noteq> None"
  using assms
  by (auto simp: asked_security_def base_spec_def map_pki_ok ktls_provider_def with_provider_def tls_server_def tls_mutual_def
      dtls_server_def dtls_mutual_def server_spec_def mutual_spec_def routing_tcp_def split: if_splits)

lemma or_keep_none: "or_keep x y = None \<longleftrightarrow> x = None \<and> y = None"
  by (cases x) (simp_all add: or_keep_def)


text \<open>A host on which every helper succeeds.\<close>

definition willing_host :: pki_host where
  "willing_host = \<lparr>ph_openssl_available = True, ph_create_dir = (\<lambda>_. None), ph_utf8 = (\<lambda>_. True), ph_write = (\<lambda>_ _. None),
     ph_set_mode = (\<lambda>_ _. None), ph_openssl = (\<lambda>_ _. OpensslExit True []), ph_exists = (\<lambda>_. True)\<rparr>"

lemma willing_perform: "perform willing_host past as = (None, past @ as)"
  by (induction as arbitrary: past) (simp_all add: answer_def willing_host_def path_arg_def run_openssl_def split: pki_action.split)

lemma willing_available: "ph_openssl_available willing_host"
  by (simp add: willing_host_def)

definition mutual_sample :: scenario where
  "mutual_sample = routed_sample\<lparr>sc_gateway := \<lparr>gw_enabled = True, gw_chain = ScgScg\<rparr>,
     sc_protocol := protocol_default\<lparr>pr_kind := Tls, pr_mutual_auth := True, pr_kernel := True\<rparr>\<rparr>"


section \<open>Where plan and request differ\<close>

text \<open>DTLS ignores the protection mode, and so does TLS under datagram framing: routing only is run encrypted, and
  integrity only is run with confidentiality.\<close>

lemma dtls_ignores_mode:
  "pr_kind (sc_protocol s) = Dtls \<Longrightarrow> sender_security s Udp
     = Some (SecDtls (dtls_version_name (pr_version (sc_protocol s))) (pr_mutual_auth (sc_protocol s)),
             if pr_mutual_auth (sc_protocol s) then ''scg-dtls-mtls'' else ''scg-dtls'')"
  by (simp add: sender_security_def Let_def)

lemma framed_tls_ignores_mode:
  "pr_kind (sc_protocol s) = Tls \<Longrightarrow> pr_app_protocol (sc_protocol s) = Ale \<Longrightarrow> \<not> pr_mutual_auth (sc_protocol s) \<Longrightarrow>
     sender_security s Udp = Some (SecTls (tls_version_name (pr_version (sc_protocol s))) (pr_kernel (sc_protocol s)), ''scg-udp-ale'')"
  by (simp add: sender_security_def Let_def)

text \<open>A profile of the scenario replaces the one that makes a path integrity only.\<close>

lemma profile_replaces_integrity_only:
  assumes "pr_profile (sc_protocol s) = Some pf" "base_spec host (SecIntegrityOnly v) s dir = (Inr b, done)"
  shows "se_profile b = Some ''integrity-only'' \<and> se_profile (apply_protocol_security_overrides s b) = Some pf"
  using assms
  by (auto simp: base_spec_def map_pki_ok apply_protocol_security_overrides_def with_address_family_def
      with_certificate_selection_def with_resumption_def with_profile_def Let_def)

text \<open>TLS 1.0 does reach the plan: a scenario of streams without a sender passes validation with it.\<close>

lemma tls10_reaches_plan:
  assumes "sc_streams s = [st]" "gw_enabled (sc_gateway s)" "sc_protocol s = protocol_default\<lparr>pr_kind := Tls, pr_version := V1_0\<rparr>"
  shows "\<exists>plan. gateway_plan_for s = Some plan \<and> gp_security plan = SecTls ''tls1.0'' False"
  using assms by (simp add: gateway_plan_for_def resolve_security_def protocol_default_def Let_def)

text \<open>Rotation under configured mutual-TLS files: no CA of the work directory exists, so the swap identity is
  self-signed and the peers' CA does not vouch for it.\<close>

lemma swap_self_signed:
  assumes "selected_mtls_bundle s = Some b" "ph_openssl_available host" "\<not> ph_exists host (path_join dir ''ca.key'')"
  shows "mtls_bundle_for_scenario host s dir purpose = (Inr b, [])"
    and "stage_swap_identity host s dir = generate_self_signed_with host (path_join dir ''swap'') 2 (server_key_type_for_scenario s)"
  using assms by (simp_all add: mtls_bundle_for_scenario_def stage_swap_identity_def)

section \<open>Endpoint identifiers\<close>

lemma show_hex_length: "n < 16 ^ Suc k \<Longrightarrow> length (show_hex n) \<le> Suc k"
proof (induction k arbitrary: n)
  case 0
  then show ?case by (subst show_hex.simps) simp
next
  case (Suc k)
  have "n div 16 < 16 ^ Suc k" using Suc.prems by (simp add: less_mult_imp_div_less)
  then have "length (show_hex (n div 16)) \<le> Suc k" by (rule Suc.IH)
  then show ?case by (subst show_hex.simps) simp
qed

lemma show_hex_length_ge: "16 ^ k \<le> n \<Longrightarrow> Suc k \<le> length (show_hex n)"
proof (induction k arbitrary: n)
  case 0
  then show ?case by (subst show_hex.simps) (cases "n < 16", auto)
next
  case (Suc k)
  have "16 ^ k \<le> n div 16" using Suc.prems by (simp add: less_eq_div_iff_mult_less_eq mult.commute)
  then have "Suc k \<le> length (show_hex (n div 16))" by (rule Suc.IH)
  moreover have "\<not> n < 16" using Suc.prems by (metis linorder_not_less one_le_numeral one_le_power order_trans power_Suc mult_le_mono2 mult.right_neutral)
  ultimately show ?case by (subst show_hex.simps) simp
qed

lemma length_pad_left: "length (pad_left n c s) = max n (length s)"
  by (simp add: pad_left_def)

text \<open>C39: The identifier of a scenario's endpoints starts with the harness's prefix and is at most 48 bytes long, and the
  name itself when that fits into 40; a longer name is cut to 24 characters and followed by its hash, which fills
  more than the 8 digits reserved for it exactly when the hash does not fit into 32 bits.\<close>

theorem app_id_bounds:
  "length (scenario_app_id hash name) \<le> 48
   \<and> (length (scenario_app_id hash name) \<le> 40
        \<longleftrightarrow> length (sanitize name) \<le> 33 \<or> unat (hash name) < 2 ^ 32)
   \<and> take 7 (scenario_app_id hash name) = ''seshat-''
   \<and> (if length (sanitize name) \<le> 33 then scenario_app_id hash name = ''seshat-'' @ sanitize name
      else take 31 (scenario_app_id hash name) = ''seshat-'' @ take 24 (sanitize name))"
proof (cases "length (sanitize name) \<le> 33")
  case True
  then show ?thesis by (simp add: scenario_app_id_def)
next
  case False
  let ?h = "unat (hash name)"
  have "?h < 16 ^ Suc 15" using unat_lt2p [of "hash name"] by simp
  then have le: "length (show_hex ?h) \<le> 16" using show_hex_length [of ?h 15] by simp
  have fits: "length (show_hex ?h) \<le> 8 \<longleftrightarrow> ?h < 2 ^ 32"
    using show_hex_length [of ?h 7] show_hex_length_ge [of 8 ?h] by (cases "?h < 2 ^ 32") auto
  show ?thesis using False le fits by (simp add: scenario_app_id_def length_pad_left Let_def)
qed

text \<open>Names that differ only in what is replaced share an identifier.\<close>

lemma app_id_shared: "scenario_app_id hash ''a b'' = scenario_app_id hash ''a_b''"
  by (simp add: scenario_app_id_def sanitize_def is_ascii_alphanumeric_def is_digit_def)

end
