(* ===== verification/Run_Settings.thy ===== *)
theory Run_Settings
  imports Results Affinity Capacity Validate Security_Plan
begin

text \<open>
  What a run is made of before it starts, from \<open>src/src/commands.rs\<close> and \<open>src/src/cli.rs\<close>: the durations of the
  command line, the overrides it puts onto a configuration, the configurations of a suite, the requirements a
  host must meet, core pools, run parameters and time budgets, comparison rates, and the cached harness ceilings.
\<close>

section \<open>Durations on the command line\<close>

datatype duration_error = DurationEmpty | DurationInvalid string string | DurationRange string | DurationPanic

text \<open>\<open>Duration::from_secs_f64\<close>, to the nearest nanosecond; it panics on what does not fit.\<close>

definition duration_from_secs :: "f64 \<Rightarrow> duration_error + f64" where
  "duration_from_secs secs =
     (case secs of
        Fin x \<Rightarrow>
          (let ns = round_half_even_real (x * 10 ^ 9) in
           if 0 \<le> ns \<and> ns < 2 ^ 64 * 10 ^ 9 then Inr (Fin (real_of_int ns / 10 ^ 9)) else Inl DurationPanic)
      | _ \<Rightarrow> Inl DurationPanic)"

definition strip_suffix :: "string \<Rightarrow> string \<Rightarrow> string option" where
  "strip_suffix p s = map_option rev (strip_prefix (rev p) (rev s))"

definition duration_unit :: "string \<Rightarrow> string \<times> string \<times> real" where
  "duration_unit s =
     (case strip_suffix ''ms'' s of Some v \<Rightarrow> (v, ''ms'', 1 / 1000)
      | None \<Rightarrow> (case strip_suffix ''s'' s of Some v \<Rightarrow> (v, ''s'', 1)
      | None \<Rightarrow> (case strip_suffix ''m'' s of Some v \<Rightarrow> (v, ''m'', 60)
      | None \<Rightarrow> (case strip_suffix ''h'' s of Some v \<Rightarrow> (v, ''h'', 3600)
      | None \<Rightarrow> (s, ''s'', 1)))))"

definition parse_duration :: "string \<Rightarrow> duration_error + f64" where
  "parse_duration input =
     (let s = trim input in
      if s = [] then Inl DurationEmpty
      else (case duration_unit s of (v, unit, to_secs) \<Rightarrow>
              (case parse_f64 (trim v) of
                 None \<Rightarrow> Inl (DurationInvalid input unit)
               | Some value \<Rightarrow>
                   if flt value 0 \<or> \<not> is_finite value then Inl (DurationRange input)
                   else duration_from_secs (value * Fin to_secs))))"

section \<open>Overrides\<close>

record run_args =
  ra_config :: string
  ra_output_dir :: "string option"
  ra_runs :: "u32 option"
  ra_duration :: "f64 option"
  ra_warmup :: "f64 option"
  ra_cooldown :: "f64 option"
  ra_scenario :: "string option"
  ra_tag :: "string option"
  ra_cpu_affinity :: "nat list"
  ra_no_system_metrics :: bool
  ra_metrics_backend :: "metrics_backend option"
  ra_scg_pid :: "u32 option"
  ra_dry_run :: bool

datatype suite_tier = Smoke | Canonical | Nightly | Everything

fun tier_key :: "suite_tier \<Rightarrow> string" where
  "tier_key Smoke = ''smoke''"
| "tier_key Canonical = ''canonical''"
| "tier_key Nightly = ''nightly''"
| "tier_key Everything = ''everything''"

record suite_args =
  su_tier :: suite_tier
  su_config :: "string list"
  su_scenario_filter :: "string option"
  su_output_dir :: "string option"
  su_resume :: "string option"
  su_quick :: bool
  su_runs :: "u32 option"
  su_duration :: "f64 option"
  su_warmup :: "f64 option"
  su_cooldown :: "f64 option"
  su_tag :: "string option"
  su_cpu_affinity :: "nat list"
  su_no_system_metrics :: bool
  su_metrics_backend :: "metrics_backend option"

definition or_map :: "('a \<Rightarrow> 'b) \<Rightarrow> 'b \<Rightarrow> 'a option \<Rightarrow> 'b" where
  "or_map f d x = (case x of Some v \<Rightarrow> f v | None \<Rightarrow> d)"

definition whole_secs :: "f64 \<Rightarrow> u64" where
  "whole_secs d = of_nat (as_secs d)"

definition override_timing :: "u32 option \<Rightarrow> f64 option \<Rightarrow> f64 option \<Rightarrow> f64 option \<Rightarrow> defaults \<Rightarrow> defaults" where
  "override_timing runs duration warmup cooldown d =
     d\<lparr>df_runs := or_map (\<lambda>r. r) (df_runs d) runs,
       df_duration_secs := or_map whole_secs (df_duration_secs d) duration,
       df_warmup_secs := or_map whole_secs (df_warmup_secs d) warmup,
       df_cooldown_secs := or_map whole_secs (df_cooldown_secs d) cooldown\<rparr>"

definition override_metrics :: "metrics_backend option \<Rightarrow> bool \<Rightarrow> defaults \<Rightarrow> defaults" where
  "override_metrics backend none d =
     (let d = (case backend of
                 Some b \<Rightarrow> d\<lparr>df_metrics_backend := b, df_collect_system_metrics := (b \<noteq> BackendNone)\<rparr>
               | None \<Rightarrow> d)
      in if none then d\<lparr>df_collect_system_metrics := False, df_metrics_backend := BackendNone\<rparr> else d)"

text \<open>An error carries the missing name and the number of scenarios there were.\<close>

definition apply_overrides :: "run_args \<Rightarrow> config \<Rightarrow> (string \<times> nat) + config" where
  "apply_overrides a cfg =
     (let cfg = cfg\<lparr>cf_defaults := override_timing (ra_runs a) (ra_duration a) (ra_warmup a) (ra_cooldown a) (cf_defaults cfg)\<rparr>;
          finish = (\<lambda>cfg. cfg\<lparr>cf_defaults := override_metrics (ra_metrics_backend a) (ra_no_system_metrics a) (cf_defaults cfg)\<rparr>)
      in case ra_scenario a of
           None \<Rightarrow> Inr (finish cfg)
         | Some name \<Rightarrow>
             (let kept = filter (\<lambda>s. sc_name s = name) (cf_scenarios cfg) in
              if kept = [] then Inl (name, length (cf_scenarios cfg)) else Inr (finish (cfg\<lparr>cf_scenarios := kept\<rparr>))))"

definition apply_suite_overrides :: "suite_args \<Rightarrow> config \<Rightarrow> config" where
  "apply_suite_overrides a cfg =
     (let d = cf_defaults cfg;
          d = (if su_quick a then d\<lparr>df_duration_secs := 2, df_warmup_secs := 1, df_runs := 1\<rparr> else d);
          d = override_timing (su_runs a) (su_duration a) (su_warmup a) (su_cooldown a) d
      in cfg\<lparr>cf_defaults := override_metrics (su_metrics_backend a) (su_no_system_metrics a) d\<rparr>)"

section \<open>The configurations of a suite\<close>

fun duplicate_enabled :: "string list \<Rightarrow> string list \<Rightarrow> string option" where
  "duplicate_enabled seen [] = None"
| "duplicate_enabled seen (n # ns) = (if n \<in> set seen then Some n else duplicate_enabled (n # seen) ns)"

definition enabled_names :: "config \<Rightarrow> string list" where
  "enabled_names cfg = map sc_name (filter sc_enabled (cf_scenarios cfg))"

definition duplicate_scenario_name :: "(string \<times> config) list \<Rightarrow> string option" where
  "duplicate_scenario_name loaded = duplicate_enabled [] (concat (map (\<lambda>(_, cfg). enabled_names cfg) loaded))"

text \<open>\<open>file_name\<close> of a path: its last component, unless that is \<open>..\<close>.\<close>

definition path_file_name :: "string \<Rightarrow> string option" where
  "path_file_name p =
     (case filter (\<lambda>c. c \<noteq> [] \<and> c \<noteq> ''.'') (split_on (CHR ''/'') p) of
        [] \<Rightarrow> None
      | cs \<Rightarrow> if last cs = ''..'' then None else Some (last cs))"

datatype manifest_error = ManifestUnreadable string string | ManifestInvalid string string

definition parse_suite_manifest :: "(string \<Rightarrow> string + (string \<rightharpoonup> string list)) \<Rightarrow> string \<Rightarrow> suite_tier \<Rightarrow> string + string list" where
  "parse_suite_manifest json text tier =
     (case json text of
        Inl e \<Rightarrow> Inl e
      | Inr manifest \<Rightarrow>
          (case manifest (tier_key tier) of
             Some names \<Rightarrow> Inr names
           | None \<Rightarrow> Inl (''no '' @ [CHR 0x27] @ tier_key tier @ [CHR 0x27] @ '' tier'')))"

definition suite_config_dir :: "string option \<Rightarrow> string" where
  "suite_config_dir env = (case env of Some d \<Rightarrow> d | None \<Rightarrow> ''configs'')"

definition load_suite_manifest ::
  "(string \<Rightarrow> string + string) \<Rightarrow> (string \<Rightarrow> string + (string \<rightharpoonup> string list)) \<Rightarrow> string option \<Rightarrow> suite_tier
   \<Rightarrow> manifest_error + string list" where
  "load_suite_manifest read json env tier =
     (let dir = suite_config_dir env; manifest_path = path_join dir ''suites.json'' in
      case read manifest_path of
        Inl e \<Rightarrow> Inl (ManifestUnreadable manifest_path e)
      | Inr text \<Rightarrow>
          (case parse_suite_manifest json text tier of
             Inl e \<Rightarrow> Inl (ManifestInvalid manifest_path e)
           | Inr names \<Rightarrow> Inr (map (path_join dir) names)))"

definition name_matches :: "string \<Rightarrow> string \<Rightarrow> bool" where
  "name_matches part p = (case path_file_name p of Some n \<Rightarrow> contains n part | None \<Rightarrow> False)"

definition resolve_suite_configs ::
  "(string \<Rightarrow> string + string) \<Rightarrow> (string \<Rightarrow> string + (string \<rightharpoonup> string list)) \<Rightarrow> string option \<Rightarrow> suite_args
   \<Rightarrow> manifest_error + string list" where
  "resolve_suite_configs read json env a =
     map_sum id (\<lambda>paths. case su_scenario_filter a of Some f \<Rightarrow> filter (name_matches f) paths | None \<Rightarrow> paths)
       (if su_config a = [] then load_suite_manifest read json env (su_tier a) else Inr (su_config a))"

section \<open>Requirements of the host\<close>

text \<open>\<open>rh_command\<close> tells whether a command was started and succeeded.\<close>

record req_host =
  rh_ktls_usable :: bool
  rh_openssl :: bool
  rh_command :: "string list \<Rightarrow> bool"
  rh_perf_sampler :: bool
  rh_status :: "string option"
  rh_bpf_dir :: bool

fun hex_value :: "char \<Rightarrow> nat option" where
  "hex_value c =
     (let n = of_char c :: nat in
      if 48 \<le> n \<and> n \<le> 57 then Some (n - 48)
      else if 97 \<le> n \<and> n \<le> 102 then Some (n - 87)
      else if 65 \<le> n \<and> n \<le> 70 then Some (n - 55)
      else None)"

fun hex_digits_value :: "nat \<Rightarrow> string \<Rightarrow> nat option" where
  "hex_digits_value acc [] = Some acc"
| "hex_digits_value acc (c # cs) =
     (case hex_value c of Some d \<Rightarrow> hex_digits_value (acc * 16 + d) cs | None \<Rightarrow> None)"

text \<open>\<open>u64::from_str_radix(s, 16)\<close>\<close>

definition parse_hex_u64 :: "string \<Rightarrow> u64 option" where
  "parse_hex_u64 s =
     (let s = (case s of c # cs \<Rightarrow> if c = CHR ''+'' \<and> cs \<noteq> [] then cs else s | [] \<Rightarrow> []) in
      if s = [] then None
      else (case hex_digits_value 0 s of
              Some n \<Rightarrow> if n < 2 ^ 64 then Some (of_nat n) else None
            | None \<Rightarrow> None))"

fun find_cap_eff :: "string list \<Rightarrow> u64 option" where
  "find_cap_eff [] = None"
| "find_cap_eff (line # ls) =
     (case Option.bind (strip_prefix ''CapEff:'' line) (\<lambda>hex. parse_hex_u64 (trim hex)) of
        Some v \<Rightarrow> Some v
      | None \<Rightarrow> find_cap_eff ls)"

definition has_cap_net_admin :: "string option \<Rightarrow> bool" where
  "has_cap_net_admin status =
     (case Option.bind status (\<lambda>text. find_cap_eff (lines text)) of
        Some effective \<Rightarrow> bit effective 12
      | None \<Rightarrow> False)"

definition perf_available_for_current_process :: "req_host \<Rightarrow> bool" where
  "perf_available_for_current_process h =
     (rh_perf_sampler h \<and> rh_command h [''perf'', ''stat'', ''-x,'', ''-e'', ''task-clock'', ''--'', ''true''])"

definition dtls10_available :: "req_host \<Rightarrow> bool" where
  "dtls10_available h = (rh_openssl h \<and> rh_command h [''openssl'', ''ciphers'', ''-v'', ''ALL:@SECLEVEL=0''])"

definition cipher_suite_available :: "req_host \<Rightarrow> tls_version \<Rightarrow> string \<Rightarrow> bool" where
  "cipher_suite_available h version cipher =
     (if \<not> rh_openssl h \<or> trim cipher = [] then False
      else rh_command h (''openssl'' #
             (case version of
                V1_3 \<Rightarrow> [''ciphers'', ''-s'', ''-tls1_3'', ''-ciphersuites'', cipher]
              | _ \<Rightarrow> [''ciphers'', ''-s'', cipher])))"

definition missing_requirements :: "scenario \<Rightarrow> req_host \<Rightarrow> string list" where
  "missing_requirements s h =
     (let r = sc_requirements s in
      (if rq_openssl r \<and> \<not> rh_openssl h then [''openssl CLI unavailable''] else [])
      @ (if rq_ktls r \<and> \<not> rh_ktls_usable h then [''usable kTLS unavailable''] else [])
      @ (if rq_dtls10 r \<and> \<not> dtls10_available h then [''DTLS 1.0 unavailable in the local OpenSSL policy''] else [])
      @ (case pr_cipher_suite (sc_protocol s) of
           Some cipher \<Rightarrow>
             if cipher_suite_available h (pr_version (sc_protocol s)) cipher then []
             else [''configured OpenSSL cipher suite unavailable'']
         | None \<Rightarrow> [])
      @ (if rq_cap_net_admin r \<and> \<not> has_cap_net_admin (rh_status h) then [''CAP_NET_ADMIN unavailable''] else [])
      @ (if rq_perf r \<and> \<not> perf_available_for_current_process h then [''perf events unavailable or not permitted''] else [])
      @ (if rq_ebpf r \<and> \<not> rh_bpf_dir h then [''eBPF filesystem unavailable''] else []))"

definition unmet_requirements :: "scenario \<Rightarrow> req_host \<Rightarrow> string option" where
  "unmet_requirements s h =
     (let missing = missing_requirements s h in if missing = [] then None else Some (join_with ''; '' missing))"


section \<open>Common rates of a comparison\<close>

type_synonym group_ceilings = "string \<rightharpoonup> f64"

definition comparison_rate :: "scenario \<Rightarrow> group_ceilings \<Rightarrow> f64 option" where
  "comparison_rate s ceilings =
     (case sc_comparison s of
        None \<Rightarrow> None
      | Some c \<Rightarrow>
          (case (cp_calibration_group c, cp_calibration_fraction c) of
             (Some grp, Some fraction) \<Rightarrow>
               option_filter (\<lambda>mbps. flt 0 mbps) (map_option (\<lambda>gbps. gbps * Fin 1000 * fraction) (ceilings grp))
           | _ \<Rightarrow> None))"

definition pace_at :: "f64 \<Rightarrow> run_params \<Rightarrow> run_params" where
  "pace_at rate_mbps p =
     p\<lparr>rn_sender := (rn_sender p)\<lparr>sn_pattern := Sustained, sn_rate_limit_mbps := Some rate_mbps, sn_interval_us := None\<rparr>\<rparr>"

definition apply_comparison_rate :: "scenario \<Rightarrow> run_params \<Rightarrow> group_ceilings \<Rightarrow> run_params" where
  "apply_comparison_rate s p ceilings =
     (case comparison_rate s ceilings of Some rate \<Rightarrow> pace_at rate p | None \<Rightarrow> p)"

definition capture_comparison_ceiling :: "scenario \<Rightarrow> scenario_outcome list \<Rightarrow> f64 \<Rightarrow> group_ceilings \<Rightarrow> group_ceilings" where
  "capture_comparison_ceiling s outcomes loss_threshold_pct ceilings =
     (case sc_comparison s of
        None \<Rightarrow> ceilings
      | Some c \<Rightarrow>
          if sc_category s \<noteq> Some ''interface-comparison-throughput'' \<or> outcomes = [] then ceilings
          else
            (let o' = last outcomes; gbps = oc_throughput_gbps o' in
             if oc_name o' \<noteq> sc_name s \<or> flt loss_threshold_pct (oc_loss_pct o') \<or> fle gbps 0 then ceilings
             else ceilings(cp_group c \<mapsto>
                    (case ceilings (cp_group c) of Some cap \<Rightarrow> fmin cap gbps | None \<Rightarrow> gbps))))"

section \<open>Core pools\<close>

record core_plan =
  co_sender :: "nat list"
  co_receiver :: "nat list"
  co_gateway :: "nat list"

definition nth_or_empty :: "'a list list \<Rightarrow> nat \<Rightarrow> 'a list" where
  "nth_or_empty xs i = (if i < length xs then xs ! i else [])"

definition resolve_core_plan :: "nat \<Rightarrow> defaults \<Rightarrow> core_plan" where
  "resolve_core_plan logical d =
     (if df_auto_affinity d \<and> df_cpu_affinity_sender d = [] \<and> df_cpu_affinity_receiver d = [] \<and> df_cpu_affinity_gateway d = []
      then (let parts = partition_cores logical [2, 1, 1] in
            \<lparr>co_sender = nth_or_empty parts 1, co_receiver = nth_or_empty parts 2, co_gateway = nth_or_empty parts 0\<rparr>)
      else \<lparr>co_sender = df_cpu_affinity_sender d, co_receiver = df_cpu_affinity_receiver d, co_gateway = df_cpu_affinity_gateway d\<rparr>)"

section \<open>Run parameters\<close>

definition DEFAULT_MESSAGE_BYTES :: u32 where "DEFAULT_MESSAGE_BYTES = 1024"

definition from_secs :: "u64 \<Rightarrow> f64" where
  "from_secs n = f_of_word n"

fun run_mode_of :: "mode \<Rightarrow> run_mode" where
  "run_mode_of Throughput = ModeThroughput"
| "run_mode_of Pingpong = ModePingPong"
| "run_mode_of Connrate = ModeConnrate"

text \<open>\<open>None\<close> stands for the panic of \<open>expect\<close> on a scenario without a sender.\<close>

definition build_run_params :: "scenario \<Rightarrow> defaults \<Rightarrow> core_plan \<Rightarrow> run_params option" where
  "build_run_params s d cores =
     map_option (\<lambda>sn.
       \<lparr>rn_message_bytes = max (or_map (\<lambda>b. b) DEFAULT_MESSAGE_BYTES (sc_message_size_bytes s)) (of_nat HEADER_LEN),
        rn_connections = unat (max (sc_connections s) 1), rn_runs = unat (max (scenario_runs s d) 1),
        rn_warmup = from_secs (or_map (\<lambda>w. w) (df_warmup_secs d) (sc_warmup_secs s)),
        rn_measure = from_secs (max (or_map (\<lambda>m. m) (df_duration_secs d) (sc_duration_secs s)) 1),
        rn_cooldown = from_secs (or_map (\<lambda>c. c) (df_cooldown_secs d) (sc_cooldown_secs s)),
        rn_remove_outliers = (df_outlier_removal d = Iqr), rn_sender_cores = co_sender cores,
        rn_receiver_cores = co_receiver cores, rn_sender = sn, rn_mode = run_mode_of (sc_mode s)\<rparr>)
     (sc_sender s)"

definition system_metrics_rate :: "defaults \<Rightarrow> u32 option" where
  "system_metrics_rate d =
     (if df_collect_system_metrics d \<and> df_metrics_backend d \<noteq> BackendNone
      then Some (max (df_metrics_sample_rate_hz d) 1) else None)"

definition has_measurements :: "run_stats \<Rightarrow> bool" where
  "has_measurements stats = list_ex (\<lambda>r. 0 < fs_messages r) (rs_runs stats)"

section \<open>Time budgets\<close>

text \<open>Durations as nanoseconds, saturating at \<open>Duration::MAX\<close>.\<close>

definition DURATION_MAX :: nat where "DURATION_MAX = 2 ^ 64 * 10 ^ 9 - 1"

definition dur_add :: "nat \<Rightarrow> nat \<Rightarrow> nat" where "dur_add a b = min (a + b) DURATION_MAX"
definition dur_mul :: "nat \<Rightarrow> nat \<Rightarrow> nat" where "dur_mul a n = min (a * n) DURATION_MAX"

definition watchdog_cap :: "nat \<Rightarrow> nat \<Rightarrow> nat \<Rightarrow> nat \<Rightarrow> nat" where
  "watchdog_cap warmup window cooldown runs =
     (let nominal = dur_mul (dur_add (dur_add warmup window) cooldown) (max runs 1 mod 2 ^ 32)
      in max (dur_add (dur_mul nominal 5) (120 * 10 ^ 9)) (600 * 10 ^ 9))"

definition as_nanos :: "f64 \<Rightarrow> nat" where
  "as_nanos d = (case d of Fin a \<Rightarrow> nat \<lfloor>a * 10 ^ 9\<rfloor> | _ \<Rightarrow> 0)"

definition scenario_watchdog_cap :: "run_params \<Rightarrow> nat" where
  "scenario_watchdog_cap p = watchdog_cap (as_nanos (rn_warmup p)) (as_nanos (rn_measure p)) (as_nanos (rn_cooldown p)) (rn_runs p)"

definition sat_mul64 :: "nat \<Rightarrow> nat \<Rightarrow> nat" where "sat_mul64 a b = min (a * b) (2 ^ 64 - 1)"

text \<open>The trigger offset and the measurement window of a reload, in milliseconds; \<open>warmup\<close> in milliseconds too.\<close>

definition reload_timing :: "nat \<Rightarrow> nat \<Rightarrow> nat \<Rightarrow> nat \<Rightarrow> nat \<times> nat" where
  "reload_timing trigger_secs warmup_ms post_window_secs connections =
     (let allowance_ms = min (sat_mul64 20 connections) 10000
      in (warmup_ms + allowance_ms + trigger_secs * 1000, allowance_ms + (trigger_secs + post_window_secs + 2) * 1000))"

definition reload_is_noop_on_scg :: "reload_action \<Rightarrow> bool" where
  "reload_is_noop_on_scg a = (a = UpdateTlsProfile)"

section \<open>Harness ceilings\<close>

datatype ceiling_transport = CeilTcp | CeilUdp | CeilUds | CeilShm u64

fun ceiling_name :: "ceiling_transport \<Rightarrow> string" where
  "ceiling_name CeilTcp = ''tcp''"
| "ceiling_name CeilUdp = ''udp''"
| "ceiling_name CeilUds = ''uds-null''"
| "ceiling_name (CeilShm n) = ''shm-null''"

definition cache_key :: "ceiling_transport \<Rightarrow> string" where
  "cache_key t = (case t of CeilShm n \<Rightarrow> ''shm-null/'' @ show_word n | _ \<Rightarrow> ceiling_name t)"

definition ring_capacity_of :: "scenario \<Rightarrow> u64" where
  "ring_capacity_of s = of_nat (or_map (\<lambda>c. c) (1024 * 1024) (of_shm_ring_capacity (sc_optimization_flags s)))"

definition ceiling_transport_for :: "bool \<Rightarrow> bool \<Rightarrow> bool \<Rightarrow> scenario \<Rightarrow> ceiling_transport" where
  "ceiling_transport_for is_udp_like is_uds is_shm s =
     (if is_udp_like then CeilUdp
      else if is_uds then CeilUds
      else if is_shm then CeilShm (ring_capacity_of s)
      else CeilTcp)"

record ceiling_key =
  ck_transport :: string
  ck_message_bytes :: u32
  ck_connections :: nat
  ck_sender_cores :: "nat list"
  ck_receiver_cores :: "nat list"

type_synonym ceiling_cache = "ceiling_key \<rightharpoonup> f64"

definition key_for :: "ceiling_transport \<Rightarrow> run_params \<Rightarrow> ceiling_key" where
  "key_for t p =
     \<lparr>ck_transport = cache_key t, ck_message_bytes = rn_message_bytes p, ck_connections = rn_connections p,
      ck_sender_cores = rn_sender_cores p, ck_receiver_cores = rn_receiver_cores p\<rparr>"

text \<open>\<open>probe\<close> is what \<open>measure_ceiling\<close> answers for a transport and a probe.\<close>

definition calibrate_scenario ::
  "(ceiling_transport \<Rightarrow> probe_spec \<Rightarrow> 'e + f64) \<Rightarrow> ceiling_transport \<Rightarrow> run_params \<Rightarrow> f64 \<Rightarrow> ceiling_cache \<Rightarrow> bool
   \<Rightarrow> cpu_signals option \<Rightarrow> ('e + calibration) \<times> ceiling_cache" where
  "calibrate_scenario probe t p gbps cache is_scg cpu =
     (let key = key_for t p;
          result = (\<lambda>cap. with_transport (ceiling_name t)
                      (if is_scg then (case cpu of Some c \<Rightarrow> for_scg_with_cpu cap gbps c | None \<Rightarrow> for_scg cap gbps)
                       else calibration_baseline cap gbps))
      in case cache key of
           Some c \<Rightarrow> (Inr (result c), cache)
         | None \<Rightarrow>
             (case probe t (probe_for_params p) of
                Inl e \<Rightarrow> (Inl e, cache)
              | Inr c \<Rightarrow> (Inr (result c), cache(key \<mapsto> c))))"

definition saturation_plan :: "scenario \<Rightarrow> f64 \<Rightarrow> sweep_plan option" where
  "saturation_plan s loss_threshold_pct =
     map_option (\<lambda>sat. \<lparr>pl_start_mbps = st_start_mbps sat, pl_step_mbps = st_step_mbps sat, pl_max_mbps = st_max_mbps sat,
                        pl_loss_threshold_pct = loss_threshold_pct\<rparr>)
       (sc_saturation s)"

definition run_saturation_if_requested :: "(sweep_plan \<Rightarrow> 'e + sweep_result) \<Rightarrow> scenario \<Rightarrow> f64 \<Rightarrow> 'e + sweep_result option" where
  "run_saturation_if_requested sweep s loss_threshold_pct =
     (case saturation_plan s loss_threshold_pct of None \<Rightarrow> Inr None | Some plan \<Rightarrow> map_sum id Some (sweep plan))"

section \<open>Listing\<close>

definition human_bytes :: "u32 \<Rightarrow> string" where
  "human_bytes n =
     (if 1024 \<le> n \<and> unat n mod 1024 = 0 then show_word (n div 1024) @ '' KB''
      else if 1024 \<le> n then fmt_f64 1 (f_of_word n / Fin 1024) @ '' KB''
      else show_word n @ '' B'')"

definition scenario_interface :: "scenario \<Rightarrow> string" where
  "scenario_interface s = or_map (\<lambda>x. x) ''-'' (interface_summary s)"

definition scenario_conns :: "scenario \<Rightarrow> string" where
  "scenario_conns s =
     (if sc_sender s \<noteq> None then show_word (sc_connections s)
      else if sc_streams s \<noteq> [] then show_word (sum_list (map sr_connections (sc_streams s)))
      else ''-'')"

definition scenario_msgsize :: "scenario \<Rightarrow> string" where
  "scenario_msgsize s =
     (case sc_message_size_bytes s of
        Some b \<Rightarrow> human_bytes b
      | None \<Rightarrow>
          if sc_streams s \<noteq> []
          then join_with ''+'' (map human_bytes (remdups_adj (sort (map sr_message_size_bytes (sc_streams s)))))
          else ''-'')"

definition list_row :: "nat \<times> scenario \<Rightarrow> string list" where
  "list_row is =
     (case is of (i, s) \<Rightarrow>
        [if sc_enabled s then pad_left 2 (CHR ''0'') (show_nat (i + 1)) else [CHR 0xC3, CHR 0x97],
         sc_name s, or_map (\<lambda>c. c) ''-'' (sc_category s), scenario_interface s, protocol_label s, scenario_conns s,
         scenario_msgsize s])"

definition list_rows :: "config \<Rightarrow> string list list" where
  "list_rows cfg = map list_row (enumerate 0 (cf_scenarios cfg))"

section \<open>Durations\<close>

lemma round_half_even_int: "round_half_even_real (real_of_int k) = k"
  by (simp add: round_half_even_real_def)

lemma parse_decimal_show: "parse_decimal (show_nat n) = Some (real n)"
proof -
  have "takeWhile is_digit (show_nat n) = show_nat n" "dropWhile is_digit (show_nat n) = []"
    using show_nat_digits [of n] by (simp_all add: list_all_iff)
  then show ?thesis unfolding parse_decimal_def Let_def by (simp only:) (simp add: parse_exp_def scale10_def)
qed

lemma show_nat_hd: "\<exists>c cs. show_nat n = c # cs \<and> is_digit c"
  using show_nat_digits [of n] by (cases "show_nat n") auto

lemma lower_digit: "is_digit c \<Longrightarrow> lower_char c = c"
  by (simp add: lower_char_def is_digit_def)

lemma parse_f64_show: "parse_f64 (show_nat n) = Some (Fin (real n))"
proof -
  obtain c cs where c: "show_nat n = c # cs" "is_digit c" using show_nat_hd by blast
  then have "c \<noteq> CHR ''-''" "c \<noteq> CHR ''+''" "c \<noteq> CHR ''i''" "c \<noteq> CHR ''n''" by (auto simp: is_digit_def)
  moreover have "to_lower (show_nat n) = c # to_lower cs" using c by (simp add: to_lower_def lower_digit)
  ultimately show ?thesis using c(1) parse_decimal_show [of n] by (simp add: parse_f64_def Let_def)
qed

lemma trim_show_unit:
  assumes "u \<noteq> []" "\<not> is_ws (last u)"
  shows "trim (show_nat n @ u) = show_nat n @ u"
proof (rule trim_id)
  show "\<not> is_ws (hd (show_nat n @ u))" using show_nat_hd [of n] digit_not_ws by auto
qed (use assms in simp_all)

lemma strip_suffix_append: "strip_suffix p (s @ p) = Some s"
  by (simp add: strip_suffix_def strip_prefix_def starts_with_iff)

lemma strip_suffix_last: "s \<noteq> [] \<Longrightarrow> p \<noteq> [] \<Longrightarrow> last s \<noteq> last p \<Longrightarrow> strip_suffix p s = None"
  by (cases s rule: rev_cases; cases p rule: rev_cases) (auto simp: strip_suffix_def strip_prefix_def)

lemma digit_last: "is_digit (last (show_nat n))"
  using show_nat_digits [of n] by (simp add: list_all_iff)

lemma duration_whole:
  assumes "n * k < 2 ^ 64"
  shows "duration_from_secs (Fin (real n) * Fin (real k)) = Inr (Fin (real (n * k)))"
proof -
  have "round_half_even_real (real n * real k * 10 ^ 9) = int (n * k * 10 ^ 9)"
    using round_half_even_int [of "int (n * k * 10 ^ 9)"] by simp
  moreover have "int (n * k) < 2 ^ 64" using assms by (metis of_nat_less_iff of_nat_numeral of_nat_power)
  then have "int (n * k * 10 ^ 9) < 2 ^ 64 * 10 ^ 9" by (simp add: mult.commute)
  ultimately show ?thesis by (simp add: duration_from_secs_def f64_simps Let_def)
qed

lemma duration_unit_of:
  "duration_unit (show_nat n @ ''ms'') = (show_nat n, ''ms'', 1 / 1000)"
  "duration_unit (show_nat n @ ''s'') = (show_nat n, ''s'', 1)"
  "duration_unit (show_nat n @ ''m'') = (show_nat n, ''m'', 60)"
  "duration_unit (show_nat n @ ''h'') = (show_nat n, ''h'', 3600)"
  "duration_unit (show_nat n) = (show_nat n, ''s'', 1)"
proof -
  have d: "last (show_nat n) \<noteq> CHR ''s''" "last (show_nat n) \<noteq> CHR ''m''" "last (show_nat n) \<noteq> CHR ''h''"
    using digit_last [of n] by (auto simp: is_digit_def)
  have ms: "strip_suffix ''ms'' (show_nat n @ ''s'') = None"
  proof -
    obtain a cs where a: "show_nat n = cs @ [a]" "a \<noteq> CHR ''m''" using d(2) by (cases "show_nat n" rule: rev_cases) auto
    then show ?thesis by (simp add: strip_suffix_def strip_prefix_def)
  qed
  show "duration_unit (show_nat n @ ''ms'') = (show_nat n, ''ms'', 1 / 1000)"
    using strip_suffix_append [of "''ms''" "show_nat n"] by (simp add: duration_unit_def)
  show "duration_unit (show_nat n @ ''s'') = (show_nat n, ''s'', 1)"
    using ms strip_suffix_append [of "''s''" "show_nat n"] by (simp add: duration_unit_def)
  show "duration_unit (show_nat n @ ''m'') = (show_nat n, ''m'', 60)"
    using strip_suffix_append [of "''m''" "show_nat n"] by (simp add: duration_unit_def strip_suffix_last)
  show "duration_unit (show_nat n @ ''h'') = (show_nat n, ''h'', 3600)"
    using strip_suffix_append [of "''h''" "show_nat n"] by (simp add: duration_unit_def strip_suffix_last)
  show "duration_unit (show_nat n) = (show_nat n, ''s'', 1)"
    using d by (simp add: duration_unit_def strip_suffix_last)
qed

text \<open>A whole number reads as that many seconds, minutes or hours, with or without the unit of seconds, as long as
  the seconds fit into 64 bits; with more, the command panics. Every duration that is accepted is finite, not
  negative, and fits.\<close>

theorem parse_duration_units:
  "(n < 2 ^ 64 \<longrightarrow> parse_duration (show_nat n) = Inr (Fin (real n)) \<and> parse_duration (show_nat n @ ''s'') = Inr (Fin (real n)))
   \<and> (n * 60 < 2 ^ 64 \<longrightarrow> parse_duration (show_nat n @ ''m'') = Inr (Fin (real (n * 60))))
   \<and> (n * 3600 < 2 ^ 64 \<longrightarrow> parse_duration (show_nat n @ ''h'') = Inr (Fin (real (n * 3600))))
   \<and> (2 ^ 64 \<le> n \<longrightarrow> parse_duration (show_nat n) = Inl DurationPanic)
   \<and> (\<forall>input d. parse_duration input = Inr d \<longrightarrow> (\<exists>x. d = Fin x \<and> 0 \<le> x \<and> x < 2 ^ 64))"
proof -
  have plain: "parse_duration (show_nat n @ u) = duration_from_secs (Fin (real n) * Fin to_secs)"
    if "duration_unit (show_nat n @ u) = (show_nat n, v, to_secs)" "u = [] \<or> \<not> is_ws (last u)" for u v to_secs
  proof -
    have "trim (show_nat n @ u) = show_nat n @ u" using that(2) trim_show_nat trim_show_unit by (cases "u = []") auto
    then show ?thesis using that(1) by (simp add: parse_duration_def trim_show_nat parse_f64_show f64_simps Let_def is_finite_def)
  qed
  have ws: "\<not> is_ws CHR ''s''" "\<not> is_ws CHR ''m''" "\<not> is_ws CHR ''h''" by (simp_all add: is_ws_def)
  have p: "parse_duration (show_nat n) = duration_from_secs (Fin (real n) * Fin (real 1))"
      "parse_duration (show_nat n @ ''s'') = duration_from_secs (Fin (real n) * Fin (real 1))"
      "parse_duration (show_nat n @ ''m'') = duration_from_secs (Fin (real n) * Fin (real 60))"
      "parse_duration (show_nat n @ ''h'') = duration_from_secs (Fin (real n) * Fin (real 3600))"
    using plain [of "[]"] plain [of "''s''"] plain [of "''m''"] plain [of "''h''"] duration_unit_of [of n] ws by simp_all
  have panic: "duration_from_secs (Fin (real n) * Fin (real 1)) = Inl DurationPanic" if "2 ^ 64 \<le> n"
  proof -
    have "round_half_even_real (real n * 10 ^ 9) = int (n * 10 ^ 9)" using round_half_even_int [of "int (n * 10 ^ 9)"] by simp
    then show ?thesis using that by (simp add: duration_from_secs_def f64_simps Let_def)
  qed
  have range: "\<exists>x. d = Fin x \<and> 0 \<le> x \<and> x < 2 ^ 64" if ok: "parse_duration input = Inr d" for input d
  proof -
    obtain secs where "duration_from_secs secs = Inr d"
      using ok unfolding parse_duration_def Let_def by (auto split: if_splits prod.splits option.splits)
    then obtain ns where "0 \<le> ns" "ns < 2 ^ 64 * 10 ^ 9" "d = Fin (real_of_int ns / 10 ^ 9)"
      by (auto simp: duration_from_secs_def Let_def split: f64.splits if_splits)
    moreover from this(2) have "real_of_int ns / 10 ^ 9 < 2 ^ 64" by (simp add: field_simps)
    moreover have "0 \<le> real_of_int ns / 10 ^ 9" using calculation(1) by simp
    ultimately show ?thesis by blast
  qed
  show ?thesis using p duration_whole [of n 1] duration_whole [of n 60] duration_whole [of n 3600] panic range
    by (intro conjI impI allI) auto
qed

lemma parse_duration_units_witness:
  "parse_duration (show_nat 2 @ ''m'') = Inr (Fin 120) \<and> parse_duration (show_nat 45) = Inr (Fin 45)"
  using parse_duration_units [of 2] parse_duration_units [of 45] by simp


text \<open>The command line reads fractions of a second, and the overrides drop them.\<close>

lemma sub_second_dropped:
  "parse_duration ''500ms'' = Inr (Fin (1 / 2))"
  "whole_secs (Fin (1 / 2)) = 0"
  "df_warmup_secs (override_timing r d (Some (Fin (1 / 2))) c df) = 0"
proof -
  have "trim ''500ms'' = ''500ms''" "trim ''500'' = ''500''" by code_simp+
  moreover have "duration_unit ''500ms'' = (''500'', ''ms'', 1 / 1000)"
    using strip_suffix_append [of "''ms''" "''500''"] by (simp add: duration_unit_def)
  moreover have "show_nat 500 = ''500''" by code_simp
  then have "parse_f64 ''500'' = Some (Fin 500)" using parse_f64_show [of 500] by simp
  moreover have "round_half_even_real (500 * (1 / 1000) * 10 ^ 9) = 500000000"
    using round_half_even_int [of 500000000] by simp
  ultimately show "parse_duration ''500ms'' = Inr (Fin (1 / 2))"
    by (simp add: parse_duration_def duration_from_secs_def f64_simps is_finite_def Let_def)
qed (simp_all add: whole_secs_def as_secs_def override_timing_def or_map_def)

text \<open>What a scenario sets for itself wins over the command line.\<close>

lemma scenario_settings_win:
  assumes "sc_runs s = Some r" "sc_duration_secs s = Some d" "sc_warmup_secs s = Some w"
  shows "build_run_params s (override_timing r1 d1 w1 c1 df) cores
     = map_option (\<lambda>p. p\<lparr>rn_cooldown := from_secs (or_map (\<lambda>c. c) (or_map whole_secs (df_cooldown_secs df) c1) (sc_cooldown_secs s))\<rparr>)
         (build_run_params s df cores)"
  using assms
  by (cases "sc_sender s") (simp_all add: build_run_params_def override_timing_def or_map_def scenario_runs_def Validate.or_default_def)

text \<open>The tag, the pinned cores and the process id of the command line change nothing.\<close>

lemma overrides_ignore: "apply_overrides (a\<lparr>ra_tag := t, ra_cpu_affinity := cs, ra_scg_pid := p\<rparr>) cfg = apply_overrides a cfg"
  by (simp add: apply_overrides_def)

section \<open>Run parameters\<close>

lemma max_word_ge: "(a :: 'a::len word) \<le> max a b" "(b :: 'a::len word) \<le> max a b"
  by simp_all

lemma dur_mul_covers: "1 \<le> r \<Longrightarrow> min DURATION_MAX (5 * r * n) \<le> dur_mul (dur_mul (min n DURATION_MAX) r) 5"
proof (cases "n \<le> DURATION_MAX \<and> n * r \<le> DURATION_MAX")
  case True
  then show ?thesis by (simp add: dur_mul_def ac_simps)
next
  case False
  assume r: "1 \<le> r"
  have "DURATION_MAX \<le> min n DURATION_MAX * r"
  proof (cases "n \<le> DURATION_MAX")
    case True
    then show ?thesis using False by simp
  next
    case False
    then have "min n DURATION_MAX = DURATION_MAX" by simp
    moreover have "DURATION_MAX * 1 \<le> DURATION_MAX * r" using r by (rule mult_le_mono2)
    ultimately show ?thesis by simp
  qed
  then have "dur_mul (min n DURATION_MAX) r = DURATION_MAX" unfolding dur_mul_def by (rule min_absorb2)
  then show ?thesis by (simp add: dur_mul_def)
qed

lemma watchdog_covers:
  assumes "1 \<le> r" "r < 2 ^ 32"
  shows "min DURATION_MAX (5 * r * (w + m + c)) \<le> watchdog_cap w m c r"
proof -
  have "dur_add (dur_add w m) c = min (w + m + c) DURATION_MAX" by (simp add: dur_add_def min_def)
  moreover have "max r 1 mod 2 ^ 32 = r" using assms by simp
  ultimately have "watchdog_cap w m c r = max (dur_add (dur_mul (dur_mul (min (w + m + c) DURATION_MAX) r) 5) (120 * 10 ^ 9)) (600 * 10 ^ 9)"
    by (simp add: watchdog_cap_def Let_def)
  moreover have "dur_mul (dur_mul (min (w + m + c) DURATION_MAX) r) 5
      \<le> dur_add (dur_mul (dur_mul (min (w + m + c) DURATION_MAX) r) 5) (120 * 10 ^ 9)"
    unfolding dur_add_def dur_mul_def by (intro min.boundedI le_add1 min.cobounded2)
  ultimately show ?thesis using dur_mul_covers [OF assms(1), of "w + m + c"] by (simp only: le_max_iff_disj) (blast intro: order_trans)
qed

text \<open>C21: The parameters of every run are ones the engine can work with, whatever the configuration leaves out or sets to
  zero: a message has room for its header, there is at least one connection and one run, the measured window lasts
  at least a second, the sender is the scenario's, and the watchdog's budget covers five times the nominal length of
  the scenario, and ten minutes, or saturates.\<close>

theorem run_params_usable:
  assumes "build_run_params s d cores = Some p"
  shows "HEADER_LEN \<le> unat (rn_message_bytes p) \<and> 1 \<le> rn_connections p \<and> 1 \<le> rn_runs p \<and> rn_runs p < 2 ^ 32
    \<and> (\<exists>x. rn_measure p = Fin x \<and> 1 \<le> x) \<and> sc_sender s = Some (rn_sender p)
    \<and> 600 * 10 ^ 9 \<le> scenario_watchdog_cap p
    \<and> (min DURATION_MAX (5 * rn_runs p * (as_nanos (rn_warmup p) + as_nanos (rn_measure p) + as_nanos (rn_cooldown p)))
        \<le> scenario_watchdog_cap p)"
proof -
  have hl: "unat (of_nat HEADER_LEN :: u32) = HEADER_LEN" by (simp add: HEADER_LEN_def)
  obtain sn where sn: "sc_sender s = Some sn" using assms by (auto simp: build_run_params_def)
  have "HEADER_LEN \<le> unat (rn_message_bytes p)"
    using assms sn max_word_ge(2) [of "of_nat HEADER_LEN :: u32"] hl by (auto simp: build_run_params_def word_le_nat_alt)
  moreover have c: "1 \<le> unat (max w (1 :: u32))" for w
    using max_word_ge(2) [of "1 :: u32" w] by (simp add: word_le_nat_alt)
  moreover have m: "1 \<le> real (unat (max w (1 :: u64)))" for w
    using max_word_ge(2) [of "1 :: u64" w] by (simp only: word_le_nat_alt unat_1 one_of_nat_le_iff)
  moreover have runs: "rn_runs p < 2 ^ 32" using assms sn unat_lt2p [of "max (scenario_runs s d) 1"] by (auto simp: build_run_params_def)
  moreover have "\<exists>x. rn_measure p = Fin x \<and> 1 \<le> x"
    using assms sn m by (intro exI conjI) (auto simp: build_run_params_def from_secs_def f_of_word_def)
  moreover have "1 \<le> rn_connections p" "1 \<le> rn_runs p" using assms sn c by (auto simp: build_run_params_def)
  moreover have "sc_sender s = Some (rn_sender p)" using assms sn by (auto simp: build_run_params_def)
  moreover have "600 * 10 ^ 9 \<le> scenario_watchdog_cap p" by (simp add: scenario_watchdog_cap_def watchdog_cap_def Let_def)
  moreover have "min DURATION_MAX (5 * rn_runs p * (as_nanos (rn_warmup p) + as_nanos (rn_measure p) + as_nanos (rn_cooldown p)))
      \<le> scenario_watchdog_cap p"
    using runs c \<open>1 \<le> rn_runs p\<close> by (simp add: scenario_watchdog_cap_def watchdog_covers)
  ultimately show ?thesis by simp
qed

lemma run_params_usable_witness:
  "\<exists>p. build_run_params (routed_sample\<lparr>sc_connections := 0, sc_runs := Some 0, sc_duration_secs := Some 0\<rparr>) defaults_default
          \<lparr>co_sender = [], co_receiver = [], co_gateway = []\<rparr> = Some p
     \<and> 1 \<le> rn_connections p \<and> 1 \<le> rn_runs p \<and> 600 * 10 ^ 9 \<le> scenario_watchdog_cap p"
proof -
  obtain p where p: "build_run_params (routed_sample\<lparr>sc_connections := 0, sc_runs := Some 0, sc_duration_secs := Some 0\<rparr>)
      defaults_default \<lparr>co_sender = [], co_receiver = [], co_gateway = []\<rparr> = Some p"
    by (simp add: build_run_params_def routed_sample_def)
  show ?thesis using run_params_usable [OF p] p by blast
qed

section \<open>Core pools\<close>

lemma resolve_explicit:
  "\<not> df_auto_affinity d \<or> df_cpu_affinity_sender d \<noteq> [] \<or> df_cpu_affinity_receiver d \<noteq> [] \<or> df_cpu_affinity_gateway d \<noteq> []
   \<Longrightarrow> resolve_core_plan n d
     = \<lparr>co_sender = df_cpu_affinity_sender d, co_receiver = df_cpu_affinity_receiver d, co_gateway = df_cpu_affinity_gateway d\<rparr>"
  by (auto simp: resolve_core_plan_def)

section \<open>Reload windows\<close>

text \<open>The trigger lies after the set-up allowance and at least the asked time and two seconds before the window ends.\<close>

lemma reload_inside_window:
  assumes "reload_timing trigger warmup_ms post connections = (start, window)"
  shows "start = warmup_ms + min (20 * connections) 10000 + trigger * 1000"
    and "start + (post + 2) * 1000 = warmup_ms + window"
  using assms by (auto simp: reload_timing_def sat_mul64_def Let_def min_def split: if_splits)

section \<open>Ceilings of a comparison\<close>

definition rated :: "f64 \<Rightarrow> string \<Rightarrow> scenario \<times> scenario_outcome \<Rightarrow> bool" where
  "rated loss g so =
     (case so of (s, out) \<Rightarrow>
        (case sc_comparison s of None \<Rightarrow> False | Some c \<Rightarrow> cp_group c = g)
        \<and> sc_category s = Some ''interface-comparison-throughput'' \<and> oc_name out = sc_name s
        \<and> \<not> flt loss (oc_loss_pct out) \<and> \<not> fle (oc_throughput_gbps out) 0)"

fun finite_part :: "f64 \<Rightarrow> real" where
  "finite_part (Fin x) = x"
| "finite_part _ = 0"

definition rated_values :: "f64 \<Rightarrow> string \<Rightarrow> (scenario \<times> scenario_outcome) list \<Rightarrow> real list" where
  "rated_values loss g h = map (\<lambda>(s, out). finite_part (oc_throughput_gbps out)) (filter (rated loss g) h)"

definition capture_all :: "f64 \<Rightarrow> (scenario \<times> scenario_outcome) list \<Rightarrow> group_ceilings \<Rightarrow> group_ceilings" where
  "capture_all loss h m = fold (\<lambda>(s, out). capture_comparison_ceiling s [out] loss) h m"

lemma capture_last: "capture_comparison_ceiling s (os @ [out]) loss m = capture_comparison_ceiling s [out] loss m"
  by (simp add: capture_comparison_ceiling_def split: option.split)

lemma capture_one:
  "capture_comparison_ceiling s [out] loss m g
     = (if rated loss g (s, out)
        then Some (case m g of Some cap \<Rightarrow> fmin cap (oc_throughput_gbps out) | None \<Rightarrow> oc_throughput_gbps out)
        else m g)"
  by (auto simp: capture_comparison_ceiling_def rated_def Let_def split: option.split)

lemma capture_all_value:
  assumes "list_all (\<lambda>(s, out). \<exists>x. oc_throughput_gbps out = Fin x) h"
  shows "capture_all loss h m g
     = (let xs = rated_values loss g h in
        if xs = [] then m g
        else Some (case m g of None \<Rightarrow> Fin (Min (set xs)) | Some cap \<Rightarrow> fmin cap (Fin (Min (set xs)))))"
  using assms
proof (induction h arbitrary: m)
  case Nil
  then show ?case by (simp add: capture_all_def rated_values_def)
next
  case (Cons so h)
  obtain s out where so: "so = (s, out)" by (cases so)
  obtain x where x: "oc_throughput_gbps out = Fin x" using Cons.prems so by auto
  have step: "capture_all loss (so # h) m g = capture_all loss h (capture_comparison_ceiling s [out] loss m) g"
    by (simp add: capture_all_def so)
  show ?case
  proof (cases "rated loss g so")
    case False
    then have "rated_values loss g (so # h) = rated_values loss g h" by (simp add: rated_values_def)
    moreover have "capture_comparison_ceiling s [out] loss m g = m g" using False so by (subst capture_one) simp
    ultimately show ?thesis using Cons.IH [of "capture_comparison_ceiling s [out] loss m"] Cons.prems step by (simp add: Let_def)
  next
    case True
    then have v: "rated_values loss g (so # h) = x # rated_values loss g h" by (simp add: rated_values_def so x)
    have assoc: "fmin (fmin cap (Fin a)) (Fin b) = fmin cap (Fin (min a b))" for cap a b
      by (cases cap) (auto simp: fmin_def min_def less_f64_def)
    have one: "capture_comparison_ceiling s [out] loss m g = Some (case m g of Some cap \<Rightarrow> fmin cap (Fin x) | None \<Rightarrow> Fin x)"
      using True so x by (subst capture_one) (cases "m g"; simp)
    have ih: "capture_all loss (so # h) m g
        = (let xs = rated_values loss g h in
           if xs = [] then capture_comparison_ceiling s [out] loss m g
           else Some (case capture_comparison_ceiling s [out] loss m g of None \<Rightarrow> Fin (Min (set xs)) | Some cap \<Rightarrow> fmin cap (Fin (Min (set xs)))))"
      using Cons.IH [of "capture_comparison_ceiling s [out] loss m"] Cons.prems step by simp
    show ?thesis
    proof (cases "rated_values loss g h")
      case Nil
      then show ?thesis using ih one v by (cases "m g") (simp_all add: Let_def)
    next
      case (Cons y ys)
      then show ?thesis using ih one v assoc by (cases "m g") (simp_all add: Let_def f64_simps)
    qed
  qed
qed


text \<open>In the course of a campaign, the ceiling kept for a comparison group is the lowest throughput of its throughput
  rows that were recorded under their own name, stayed within the loss budget and carried traffic, in whatever order
  they ran, and nothing when there was none; a latency row of the group is paced at that throughput times its
  fraction, and keeps its own pacing when there is no ceiling or the rate is not positive.\<close>

theorem comparison_rate_lowest:
  assumes "list_all (\<lambda>(s, out). \<exists>x. oc_throughput_gbps out = Fin x) h"
    and "sc_comparison s = Some c" "cp_calibration_group c = Some g" "cp_calibration_fraction c = Some (Fin f)"
  shows "comparison_rate s (capture_all loss h Map.empty)
     = (let xs = rated_values loss g h in
        if xs = [] \<or> Min (set xs) * 1000 * f \<le> 0 then None else Some (Fin (Min (set xs) * 1000 * f)))
    \<and> (mset h' = mset h \<longrightarrow> comparison_rate s (capture_all loss h' Map.empty) = comparison_rate s (capture_all loss h Map.empty))"
proof -
  have rate: "comparison_rate s (capture_all loss k Map.empty)
     = (let xs = rated_values loss g k in
        if xs = [] \<or> Min (set xs) * 1000 * f \<le> 0 then None else Some (Fin (Min (set xs) * 1000 * f)))"
    if "list_all (\<lambda>(s, out). \<exists>x. oc_throughput_gbps out = Fin x) k" for k
    using assms(2-4) capture_all_value [OF that, of loss Map.empty g]
    by (simp add: comparison_rate_def option_filter_def Let_def f64_simps not_le)
  have same: "set (rated_values loss g k) = set (rated_values loss g h)"
      "list_all (\<lambda>(s, out). \<exists>x. oc_throughput_gbps out = Fin x) k" if "mset k = mset h" for k
    using mset_eq_setD [OF that] assms(1) by (simp_all add: rated_values_def list_all_iff)
  have "xs = [] \<longleftrightarrow> set xs = {}" for xs :: "real list" by simp
  then show ?thesis using rate assms(1) same by (smt (verit) Let_def)
qed

definition rated_sample :: "string \<Rightarrow> real \<Rightarrow> scenario \<times> scenario_outcome" where
  "rated_sample name gbps =
     (routed_sample\<lparr>sc_name := name, sc_category := Some ''interface-comparison-throughput'',
        sc_comparison := Some \<lparr>cp_group = ''g'', cp_reference = ''r'', cp_gateway_reference = None, cp_calibration_group = Some ''g'',
                               cp_calibration_fraction = Some (Fin (1 / 2))\<rparr>\<rparr>,
      \<lparr>oc_name = name, oc_throughput_gbps = Fin gbps, oc_loss_pct = Fin 0, oc_headline = []\<rparr>)"

lemma comparison_rate_lowest_witness:
  "comparison_rate (fst (rated_sample ''l'' 0)) (capture_all (Fin 1) [rated_sample ''a'' 4, rated_sample ''b'' 2] Map.empty)
     = Some (Fin 1000)"
proof -
  have "rated_values (Fin 1) ''g'' [rated_sample ''a'' 4, rated_sample ''b'' 2] = [4, 2]"
    by (simp add: rated_values_def rated_def rated_sample_def f64_simps)
  moreover have "list_all (\<lambda>(s, out). \<exists>x. oc_throughput_gbps out = Fin x) [rated_sample ''a'' 4, rated_sample ''b'' 2]"
    by (simp add: rated_sample_def)
  moreover obtain c where "sc_comparison (fst (rated_sample ''l'' 0)) = Some c" "cp_calibration_group c = Some ''g''"
      "cp_calibration_fraction c = Some (Fin (1 / 2))"
    by (simp add: rated_sample_def)
  ultimately show ?thesis
    using comparison_rate_lowest [of "[rated_sample ''a'' 4, rated_sample ''b'' 2]" "fst (rated_sample ''l'' 0)" c "''g''" "1 / 2" "Fin 1"]
    by simp
qed

text \<open>A resumed campaign starts without ceilings and passes over the throughput rows it finds recorded, so its latency
  rows keep their own pacing.\<close>

lemma resumed_unpaced: "comparison_rate s Map.empty = None" "apply_comparison_rate s p Map.empty = p"
  by (simp_all add: comparison_rate_def apply_comparison_rate_def option_filter_def split: option.split)

section \<open>Cached ceilings\<close>

text \<open>A ceiling is probed once: afterwards the cache answers, whatever a second probe would say.\<close>

lemma calibrate_cached:
  assumes "calibrate_scenario probe t p m cache scg cpu = (Inr cal, cache')"
  shows "cache' (key_for t p) \<noteq> None"
    and "key_for t p' = key_for t p \<Longrightarrow> snd (calibrate_scenario probe' t p' m' cache' scg' cpu') = cache'"
    and "key_for t p' = key_for t p
      \<Longrightarrow> \<exists>cal'. fst (calibrate_scenario probe' t p' m' cache' scg' cpu') = Inr cal' \<and> ca_ceiling_gbps cal' = ca_ceiling_gbps cal"
  using assms
  by (auto simp: calibrate_scenario_def with_transport_def for_scg_def for_scg_with_cpu_def calibration_baseline_def Let_def
      split: option.splits sum.splits prod.splits)

text \<open>Ceilings of transports that measure different things have different keys.\<close>

lemma cache_key_inj: "cache_key t = cache_key t' \<longleftrightarrow> t = t'"
  by (cases t; cases t') (auto simp: cache_key_def show_word_def show_nat_inj word_unat_eq_iff)

end
