(* ===== verification/Topology.thy ===== *)
theory Topology
  imports Schema Text
begin

text \<open>
  Virtual networks and impairment, \<open>src/src/topology\<close>: the commands that create a pair of virtual interfaces or two
  network namespaces, the ones that remove them, and the \<open>tc netem\<close> arguments of an impairment. What the host
  answers to a command is an argument and may depend on the commands before it; the printed form of a
  percentage is one too.
\<close>

section \<open>Commands\<close>

type_synonym net_command = "string list"

datatype command_answer = NoProgram string | Status bool string

text \<open>\<open>run_cmd\<close>: the error of a command that could not be started or did not succeed.\<close>

definition run_cmd :: "(net_command list \<Rightarrow> net_command \<Rightarrow> command_answer) \<Rightarrow> net_command list \<Rightarrow> net_command \<Rightarrow> string option" where
  "run_cmd host past c =
     (case host past c of
        NoProgram e \<Rightarrow> Some e
      | Status ok stderr \<Rightarrow> if ok then None else Some (join_with '' '' c @ '': '' @ stderr))"

text \<open>Commands in order, up to the first that fails (\<open>?\<close>), with those that were run.\<close>

fun run_all :: "(net_command list \<Rightarrow> net_command \<Rightarrow> command_answer) \<Rightarrow> net_command list \<Rightarrow> net_command list \<Rightarrow> string option \<times> net_command list" where
  "run_all host past [] = (None, past)"
| "run_all host past (c # cs) =
     (case run_cmd host past c of
        Some e \<Rightarrow> (Some e, past @ [c])
      | None \<Rightarrow> run_all host (past @ [c]) cs)"

section \<open>Topologies\<close>

datatype net_mode = NetLoopback | NetVeth | NetNetns

record provisioned =
  pv_mode :: net_mode
  pv_namespaces :: "string list"
  pv_veth_pair :: "(string \<times> string) option"
  pv_addrs :: "string \<times> string"

definition cidr :: "string \<Rightarrow> u8 \<Rightarrow> string" where
  "cidr ip prefix_len = ip @ ''/'' @ show_word prefix_len"

definition veth_commands :: "string \<Rightarrow> string \<Rightarrow> u8 \<Rightarrow> net_command list" where
  "veth_commands ip_a ip_b prefix_len =
     [[''ip'', ''link'', ''add'', ''seshat-a'', ''type'', ''veth'', ''peer'', ''name'', ''seshat-b''],
      [''ip'', ''addr'', ''add'', cidr ip_a prefix_len, ''dev'', ''seshat-a''],
      [''ip'', ''addr'', ''add'', cidr ip_b prefix_len, ''dev'', ''seshat-b''],
      [''ip'', ''link'', ''set'', ''seshat-a'', ''up''],
      [''ip'', ''link'', ''set'', ''seshat-b'', ''up'']]"

definition netns_commands :: "string \<Rightarrow> string \<Rightarrow> string \<Rightarrow> string \<Rightarrow> u8 \<Rightarrow> net_command list" where
  "netns_commands ns_a ns_b ip_a ip_b prefix_len =
     [[''ip'', ''netns'', ''add'', ns_a], [''ip'', ''netns'', ''add'', ns_b],
      [''ip'', ''link'', ''add'', ''seshat-a'', ''type'', ''veth'', ''peer'', ''name'', ''seshat-b''],
      [''ip'', ''link'', ''set'', ''seshat-a'', ''netns'', ns_a],
      [''ip'', ''link'', ''set'', ''seshat-b'', ''netns'', ns_b],
      [''ip'', ''netns'', ''exec'', ns_a, ''ip'', ''addr'', ''add'', cidr ip_a prefix_len, ''dev'', ''seshat-a''],
      [''ip'', ''netns'', ''exec'', ns_b, ''ip'', ''addr'', ''add'', cidr ip_b prefix_len, ''dev'', ''seshat-b''],
      [''ip'', ''netns'', ''exec'', ns_a, ''ip'', ''link'', ''set'', ''seshat-a'', ''up''],
      [''ip'', ''netns'', ''exec'', ns_a, ''ip'', ''link'', ''set'', ''lo'', ''up''],
      [''ip'', ''netns'', ''exec'', ns_b, ''ip'', ''link'', ''set'', ''seshat-b'', ''up''],
      [''ip'', ''netns'', ''exec'', ns_b, ''ip'', ''link'', ''set'', ''lo'', ''up'']]"

definition provision ::
  "bool \<Rightarrow> (net_command list \<Rightarrow> net_command \<Rightarrow> command_answer) \<Rightarrow> net_command list \<Rightarrow> provisioned \<Rightarrow> (string + provisioned) \<times> net_command list" where
  "provision net_admin host cs topo =
     (if \<not> net_admin then (Inl (''topology setup requires CAP_NET_ADMIN '' @ [CHR 0xE2, CHR 0x80, CHR 0x94] @ '' skipping''), [])
      else (case run_all host [] cs of
              (Some e, done) \<Rightarrow> (Inl e, done)
            | (None, done) \<Rightarrow> (Inr topo, done)))"

definition setup_veth ::
  "bool \<Rightarrow> (net_command list \<Rightarrow> net_command \<Rightarrow> command_answer) \<Rightarrow> string \<Rightarrow> string \<Rightarrow> u8 \<Rightarrow> (string + provisioned) \<times> net_command list" where
  "setup_veth net_admin host ip_a ip_b prefix_len =
     provision net_admin host (veth_commands ip_a ip_b prefix_len)
       \<lparr>pv_mode = NetVeth, pv_namespaces = [], pv_veth_pair = Some (''seshat-a'', ''seshat-b''), pv_addrs = (ip_a, ip_b)\<rparr>"

definition setup_netns ::
  "bool \<Rightarrow> (net_command list \<Rightarrow> net_command \<Rightarrow> command_answer) \<Rightarrow> string \<Rightarrow> string \<Rightarrow> string \<Rightarrow> string \<Rightarrow> u8
   \<Rightarrow> (string + provisioned) \<times> net_command list" where
  "setup_netns net_admin host ns_a ns_b ip_a ip_b prefix_len =
     provision net_admin host (netns_commands ns_a ns_b ip_a ip_b prefix_len)
       \<lparr>pv_mode = NetNetns, pv_namespaces = [ns_a, ns_b], pv_veth_pair = Some (''seshat-a'', ''seshat-b''), pv_addrs = (ip_a, ip_b)\<rparr>"

text \<open>The commands of the removal; their results are discarded.\<close>

definition teardown_topology :: "provisioned \<Rightarrow> net_command list" where
  "teardown_topology topo =
     (case pv_mode topo of
        NetLoopback \<Rightarrow> []
      | NetVeth \<Rightarrow> (case pv_veth_pair topo of Some (a, _) \<Rightarrow> [[''ip'', ''link'', ''del'', a]] | None \<Rightarrow> [])
      | NetNetns \<Rightarrow> map (\<lambda>ns. [''ip'', ''netns'', ''del'', ns]) (pv_namespaces topo))"

section \<open>Impairment\<close>

record impairment =
  im_delay_ms :: "u32 option"
  im_jitter_ms :: "u32 option"
  im_loss_pct :: "f64 option"
  im_bandwidth_mbit :: "u32 option"
  im_reorder_pct :: "f64 option"
  im_duplicate_pct :: "f64 option"

definition opt_args :: "('a \<Rightarrow> string list) \<Rightarrow> 'a option \<Rightarrow> string list" where
  "opt_args f x = (case x of Some v \<Rightarrow> f v | None \<Rightarrow> [])"

definition netem_args :: "(f64 \<Rightarrow> string) \<Rightarrow> string \<Rightarrow> impairment \<Rightarrow> net_command" where
  "netem_args disp iface imp =
     [''tc'', ''qdisc'', ''add'', ''dev'', iface, ''root'', ''netem'']
     @ opt_args (\<lambda>d. [''delay'', show_word d @ ''ms''] @ opt_args (\<lambda>j. [show_word j @ ''ms'']) (im_jitter_ms imp)) (im_delay_ms imp)
     @ opt_args (\<lambda>l. [''loss'', disp l @ ''%'']) (im_loss_pct imp)
     @ opt_args (\<lambda>r. [''reorder'', disp r @ ''%'']) (im_reorder_pct imp)
     @ opt_args (\<lambda>d. [''duplicate'', disp d @ ''%'']) (im_duplicate_pct imp)
     @ opt_args (\<lambda>b. [''rate'', show_word b @ ''mbit'']) (im_bandwidth_mbit imp)"

definition remove_args :: "string \<Rightarrow> net_command" where
  "remove_args iface = [''tc'', ''qdisc'', ''del'', ''dev'', iface, ''root'']"

text \<open>The interface of the applied state, whose drop runs \<open>remove_args\<close>.\<close>

definition apply_impairment ::
  "(f64 \<Rightarrow> string) \<Rightarrow> (net_command \<Rightarrow> command_answer) \<Rightarrow> string \<Rightarrow> impairment \<Rightarrow> string + string" where
  "apply_impairment disp host iface imp =
     (case run_cmd (\<lambda>_. host) [] (netem_args disp iface imp) of Some e \<Rightarrow> Inl e | None \<Rightarrow> Inr iface)"

text \<open>\<open>as u32\<close>\<close>

definition f_to_u32 :: "f64 \<Rightarrow> u32" where
  "f_to_u32 f = of_nat (min (f_to_nat f) (2 ^ 32 - 1))"

definition positive :: "(f64 \<Rightarrow> 'a) \<Rightarrow> f64 \<Rightarrow> 'a option" where
  "positive f v = (if flt 0 v then Some (f v) else None)"

definition impairment_of :: "network_impairment \<Rightarrow> impairment" where
  "impairment_of imp =
     \<lparr>im_delay_ms = positive f_to_u32 (ni_latency_ms imp), im_jitter_ms = positive f_to_u32 (ni_jitter_ms imp),
      im_loss_pct = positive (\<lambda>v. v) (ni_loss_percent imp),
      im_bandwidth_mbit = (if 0 < ni_bandwidth_limit_mbps imp then Some (ni_bandwidth_limit_mbps imp) else None),
      im_reorder_pct = positive (\<lambda>v. v) (ni_reorder_percent imp), im_duplicate_pct = positive (\<lambda>v. v) (ni_duplicate_percent imp)\<rparr>"

section \<open>What setting up and tearing down do to the host\<close>

lemma run_all_cases:
  "run_all host past cs = (None, past @ cs)
   \<or> (\<exists>n e. n < length cs \<and> run_all host past cs = (Some e, past @ take (Suc n) cs)
        \<and> run_cmd host (past @ take n cs) (cs ! n) = Some e)"
proof (induction cs arbitrary: past)
  case (Cons c cs)
  show ?case
  proof (cases "run_cmd host past c")
    case None
    then show ?thesis using Cons [of "past @ [c]"] by (auto 4 3 simp: less_Suc_eq_0_disj)
  next
    case (Some e)
    then show ?thesis by (intro disjI2 exI [of _ 0]) simp
  qed
qed simp

text \<open>Which namespaces and interfaces exist, over the commands that create, move and delete them.\<close>

record net_state =
  nt_namespaces :: "string set"
  nt_links :: "(string \<times> string option) set"

text \<open>Deleting a namespace or one end of a pair takes the interfaces in it, and their peers, along.\<close>

fun net_step :: "net_command \<Rightarrow> net_state \<Rightarrow> net_state" where
  "net_step c n =
     (case c of
        [a, b, d, e] \<Rightarrow>
          if [a, b, d] = [''ip'', ''netns'', ''add''] then n\<lparr>nt_namespaces := insert e (nt_namespaces n)\<rparr>
          else if [a, b, d] = [''ip'', ''netns'', ''del''] then
            n\<lparr>nt_namespaces := nt_namespaces n - {e},
              nt_links := (if \<exists>l. (l, Some e) \<in> nt_links n then {} else nt_links n)\<rparr>
          else if [a, b, d] = [''ip'', ''link'', ''del''] then n\<lparr>nt_links := {}\<rparr>
          else n
      | [a, b, d, e, f, g] \<Rightarrow>
          if [a, b, d, f] = [''ip'', ''link'', ''set'', ''netns'']
          then n\<lparr>nt_links := (\<lambda>(l, ns). if l = e then (l, Some g) else (l, ns)) ` nt_links n\<rparr> else n
      | [a, b, d, e, f, g, h, i, j] \<Rightarrow>
          if [a, b, d, f, g, h, i] = [''ip'', ''link'', ''add'', ''type'', ''veth'', ''peer'', ''name'']
          then n\<lparr>nt_links := insert (e, None) (insert (j, None) (nt_links n))\<rparr> else n
      | _ \<Rightarrow> n)"

definition net_run :: "net_command list \<Rightarrow> net_state \<Rightarrow> net_state" where
  "net_run cs n = fold net_step cs n"

definition bare_net :: "string set \<Rightarrow> net_state" where
  "bare_net ns = \<lparr>nt_namespaces = ns, nt_links = {}\<rparr>"



text \<open>A command that fails half way leaves what the earlier ones created: nothing is removed, since the value whose drop
  does that is not there yet.\<close>

definition address_refused :: "net_command list \<Rightarrow> net_command \<Rightarrow> command_answer" where
  "address_refused past c = Status (past = []) ''denied''"

lemma failed_setup_leaks:
  "\<exists>e done. setup_veth True address_refused ip_a ip_b len = (Inl e, done)
     \<and> nt_links (net_run done (bare_net ns)) = {(''seshat-a'', None), (''seshat-b'', None)}"
  by (simp add: setup_veth_def provision_def veth_commands_def run_cmd_def address_refused_def net_run_def bare_net_def)

text \<open>Jitter without a delay is dropped, and a delay below a millisecond becomes one of zero.\<close>

lemma jitter_needs_delay:
  "im_delay_ms imp = None \<Longrightarrow> netem_args disp iface imp = netem_args disp iface (imp\<lparr>im_jitter_ms := None\<rparr>)"
  by (simp add: netem_args_def opt_args_def)

lemma small_delay_zero: "0 < x \<Longrightarrow> x < 1 \<Longrightarrow> ni_latency_ms imp = Fin x \<Longrightarrow> im_delay_ms (impairment_of imp) = Some 0"
  by (simp add: impairment_of_def positive_def f_to_u32_def f64_simps)

end
