(* ===== verification/Cert_Swap.thy ===== *)
theory Cert_Swap
  imports Security_Plan "HOL-Library.AList"
begin

text \<open>
  The rotation of a server certificate in the configuration of a running gateway, \<open>rewrite_cert_paths\<close> of
  \<open>src/src/commands.rs\<close>, on the JSON document it reads and writes, and its effect on the rules that the document
  was emitted from.
\<close>

section \<open>The document\<close>

fun json_get :: "string \<Rightarrow> json \<Rightarrow> json option" where
  "json_get k (JObj kvs) = map_of kvs k"
| "json_get k _ = None"

text \<open>\<open>v[k] = x\<close> on an object\<close>

fun json_put :: "string \<Rightarrow> json \<Rightarrow> json \<Rightarrow> json" where
  "json_put k x (JObj kvs) = JObj (AList.update k x kvs)"
| "json_put k x v = v"

definition presents_identity :: "json \<Rightarrow> bool" where
  "presents_identity v = (json_get ''direction'' v = Some (JStr ''decrypt'') \<and> json_get ''cert_path'' v \<noteq> None)"

definition swap_paths :: "identity \<Rightarrow> json \<Rightarrow> json" where
  "swap_paths i v =
     (if presents_identity v then json_put ''key_path'' (JStr (id_key i)) (json_put ''cert_path'' (JStr (id_cert i)) v) else v)"

text \<open>The new document, or none when no rule was rewritten.\<close>

definition swap_document :: "identity \<Rightarrow> json \<Rightarrow> json option" where
  "swap_document i doc =
     (case json_get ''rules'' doc of
        Some (JArr rules) \<Rightarrow>
          if list_ex presents_identity rules then Some (json_put ''rules'' (JArr (map (swap_paths i) rules)) doc) else None
      | _ \<Rightarrow> None)"

text \<open>What reading and parsing the file gives, and whether the temporary file is written and renamed.\<close>

definition rewrite_cert_paths :: "string + json \<Rightarrow> (json \<Rightarrow> string option) \<Rightarrow> identity \<Rightarrow> string + bool" where
  "rewrite_cert_paths doc store i =
     (case doc of
        Inl e \<Rightarrow> Inl e
      | Inr cfg \<Rightarrow>
          (case swap_document i cfg of
             None \<Rightarrow> Inr False
           | Some cfg' \<Rightarrow> (case store cfg' of Some e \<Rightarrow> Inl e | None \<Rightarrow> Inr True)))"

section \<open>The rules\<close>

text \<open>A document was emitted from a rule when every key reads the same.\<close>

definition swap_emits :: "json \<Rightarrow> rule_config \<Rightarrow> bool" where
  "swap_emits v r = ((\<exists>kvs. v = JObj kvs) \<and> (\<forall>k. json_get k v = rule_lookup r k))"

definition swappable :: "rule_config \<Rightarrow> bool" where
  "swappable r = (ru_direction r = ''decrypt'' \<and> ru_provider_params r ''cert_path'' \<noteq> None)"

definition swap_rule :: "identity \<Rightarrow> rule_config \<Rightarrow> rule_config" where
  "swap_rule i r =
     (if swappable r then rule_param ''key_path'' (JStr (id_key i)) (rule_param ''cert_path'' (JStr (id_cert i)) r) else r)"

lemma json_get_put: "v = JObj kvs \<Longrightarrow> json_get k' (json_put k x v) = (if k' = k then Some x else json_get k' v)"
  by (simp add: update_conv')

lemma map_of_fields:
  "map_of (opt_field k f x) k' = (if k' = k then map_option f x else None)"
  "map_of (skip_field k b v) k' = (if k' = k \<and> \<not> b then Some v else None)"
  by (simp_all add: opt_field_def skip_field_def split: option.split)

lemma rule_fields_other: "map_of (rule_fields r) ''cert_path'' = None" "map_of (rule_fields r) ''key_path'' = None"
  by (simp_all add: rule_fields_def map_add_def map_of_fields)

lemma rule_fields_direction: "map_of (rule_fields r) ''direction'' = Some (JStr (ru_direction r))"
  by (simp add: rule_fields_def)

lemma rule_fields_param: "rule_fields (rule_param k x r) = rule_fields r"
  by (simp add: rule_fields_def rule_param_def)

lemma rule_lookup_param:
  "map_of (rule_fields r) k = None \<Longrightarrow> rule_lookup (rule_param k x r) k' = (if k' = k then Some x else rule_lookup r k')"
  unfolding rule_lookup_def rule_fields_param by (simp add: rule_param_def split: option.split)

lemma emits_presents:
  assumes "swap_emits v r" "ru_provider_params r ''direction'' = None"
  shows "presents_identity v = swappable r"
  using assms by (auto simp: swap_emits_def presents_identity_def swappable_def rule_lookup_def rule_fields_other rule_fields_direction
      split: option.split)

lemma emits_put:
  assumes "swap_emits v r" "map_of (rule_fields r) k = None"
  shows "swap_emits (json_put k x v) (rule_param k x r)"
  using assms by (auto simp: swap_emits_def rule_lookup_param update_conv')

lemma emits_swap:
  assumes "swap_emits v r" "ru_provider_params r ''direction'' = None"
  shows "swap_emits (swap_paths i v) (swap_rule i r)"
  using assms emits_presents [OF assms]
  by (auto simp: swap_paths_def swap_rule_def rule_fields_other rule_fields_param intro!: emits_put)

lemma emits_list:
  assumes "list_all2 swap_emits vs rs" "list_all (\<lambda>r. ru_provider_params r ''direction'' = None) rs"
  shows "list_all2 swap_emits (map (swap_paths i) vs) (map (swap_rule i) rs)" "list_ex presents_identity vs = list_ex swappable rs"
  using assms by (induction rule: list_all2_induct) (auto simp: emits_swap emits_presents)

text \<open>
  C15: Rotating the certificate in a running gateway's configuration is the rotation of its rules: for a document
  emitted from the rules of a gateway, the rewrite succeeds exactly when some decrypting rule presents a certificate,
  the new document is the one emitted from the rules in which exactly those rules present the new certificate and key,
  and every other entry of the document is as it was.
\<close>

theorem cert_swap_refines:
  assumes "doc = JObj kvs" "json_get ''rules'' doc = Some (JArr vs)" "list_all2 swap_emits vs (gc_rules c)"
    and "list_all (\<lambda>r. ru_provider_params r ''direction'' = None) (gc_rules c)"
  shows "case swap_document i doc of
      None \<Rightarrow> \<not> list_ex swappable (gc_rules c)
    | Some doc' \<Rightarrow> list_ex swappable (gc_rules c)
        \<and> (\<exists>vs'. json_get ''rules'' doc' = Some (JArr vs') \<and> list_all2 swap_emits vs' (map (swap_rule i) (gc_rules c)))
        \<and> (\<forall>k. k \<noteq> ''rules'' \<longrightarrow> json_get k doc' = json_get k doc)"
  using assms emits_list [OF assms(3,4)] by (auto simp: swap_document_def update_conv')

text \<open>A gateway with one decrypting rule.\<close>

definition sample_rule :: rule_config where
  "sample_rule = rule_param ''cert_path'' (JStr ''old.crt'') (rule_config_new ''d'' ''decrypt'' ''a'' ''b'')"

definition sample_document :: json where
  "sample_document = JObj [(''rules'', JArr [JObj ((''cert_path'', JStr ''old.crt'') # rule_fields sample_rule)])]"

lemma cert_swap_refines_witness:
  "\<exists>doc'. swap_document \<lparr>id_cert = ''new.crt'', id_key = ''new.key''\<rparr> sample_document = Some doc'"
proof -
  have "swap_emits (JObj ((''cert_path'', JStr ''old.crt'') # rule_fields sample_rule)) sample_rule"
    using rule_fields_other(1) [of sample_rule]
    by (auto simp: swap_emits_def rule_lookup_def sample_rule_def rule_param_def rule_config_new_def split: option.split)
  then have emitted: "list_all2 swap_emits [JObj ((''cert_path'', JStr ''old.crt'') # rule_fields sample_rule)] (gc_rules (gateway_config_new [sample_rule]))"
    by (simp add: gateway_config_new_def)
  have rules: "json_get ''rules'' sample_document = Some (JArr [JObj ((''cert_path'', JStr ''old.crt'') # rule_fields sample_rule)])"
    by (simp add: sample_document_def)
  have some: "list_ex swappable (gc_rules (gateway_config_new [sample_rule]))"
    and plain: "list_all (\<lambda>r. ru_provider_params r ''direction'' = None) (gc_rules (gateway_config_new [sample_rule]))"
    by (simp_all add: gateway_config_new_def sample_rule_def swappable_def rule_param_def rule_config_new_def)
  note swapped = cert_swap_refines [OF sample_document_def rules emitted plain, of "\<lparr>id_cert = ''new.crt'', id_key = ''new.key''\<rparr>"]
  show ?thesis
  proof (rule ccontr)
    assume "\<not> ?thesis"
    then have "swap_document \<lparr>id_cert = ''new.crt'', id_key = ''new.key''\<rparr> sample_document = None" by simp
    from swapped [unfolded this option.case] show False using some by blast
  qed
qed

section \<open>Which gateway\<close>

text \<open>
  The rewrite looks at the configuration of the first process only. Gateways are started from the receiving end, so
  of two in a chain that is the decrypting one: the rules that present the identity are there in either topology.
\<close>

lemma rotation_reaches_decrypt:
  assumes "list_ex swappable decrypts"
  shows "list_ex swappable (gc_rules (ng_config (hd (rev (gateways_for_topology topo encrypts decrypts n)))))"
  using assms
  by (cases topo) (auto simp: gateways_for_topology_def Let_def pool_for_connections_def allow_all_def with_log_level_def gateway_config_new_def)

end
