(* ===== verification/Campaign.thy ===== *)
theory Campaign
  imports Run_Settings Topology Result_Tree Cert_Swap
begin

text \<open>
  Running the scenarios of a configuration, from \<open>src/src/commands.rs\<close>: a scenario over loopback, through a gateway
  (\<open>run_gateway_scenario\<close>), with several streams (\<open>run_multistream_scenario\<close>) and with a reload
  (\<open>run_hotreload_scenario\<close>), and the loop over all of them with its shared state (\<open>RunContext\<close>, \<open>run_config\<close>).
  What processes, sockets, commands and the engine answer for a scenario is the record \<open>scenario_host\<close>. Progress
  and console output, the watchdog thread and the logging are not modelled.
\<close>

section \<open>The host of a scenario\<close>

text \<open>The transports, with what distinguishes their start.\<close>

datatype start_kind =
  StartUds string nat
| StartShm string nat u64 shm_tuning
| StartTproxy nat
| StartUdp nat
| StartTcp nat
| StartTcpManaged string nat
| StartMulti "string list" nat

record start_call =
  sk_kind :: start_kind
  sk_transport_name :: string
  sk_spec :: security_spec
  sk_topology :: path_topology
  sk_binary :: string
  sk_work_dir :: string
  sk_cores :: "nat list"

text \<open>A start fails for a missing permission or for another reason.\<close>

datatype start_answer = Started | StartDenied string | StartFailed string

record scenario_host =
  ho_pki :: pki_host
  ho_mkdir :: "string \<Rightarrow> string option"
  ho_net_admin :: bool
  ho_commands :: "net_command list \<Rightarrow> net_command \<Rightarrow> command_answer"
  ho_tc :: "net_command \<Rightarrow> command_answer"
  ho_disp :: "f64 \<Rightarrow> string"
  ho_hash :: "string \<Rightarrow> u64"
  ho_start :: "start_call \<Rightarrow> start_answer"
  ho_pids :: "u32 list"
  ho_samples :: "system_sample list"
  ho_clk_tck :: int
  ho_perf :: "perf_result option"
  ho_mem :: "mem_copy_result option"
  ho_run :: "run_params \<Rightarrow> string + run_stats"
  ho_probe :: "ceiling_transport \<Rightarrow> probe_spec \<Rightarrow> string + f64"
  ho_sweep :: "sweep_plan \<Rightarrow> string + sweep_result"
  ho_logs :: "string option list"
  ho_shutdown :: "string option"
  ho_disk :: disk
  ho_cpu_logical :: nat
  ho_pair :: "u32 \<Rightarrow> string \<Rightarrow> string option"
  ho_streams :: "stream_config list \<Rightarrow> f64 \<Rightarrow> f64 \<Rightarrow> string + multi_stream_result"
  ho_mgmt_socket :: bool
  ho_create_uds :: "string \<Rightarrow> string + u32"
  ho_close_endpoint :: "u32 \<Rightarrow> string option"
  ho_config_path :: bool
  ho_config_doc :: "string + json"
  ho_config_store :: "json \<Rightarrow> string option"
  ho_reload_us :: u64

text \<open>A part of a scenario ends the campaign, skips the scenario, or goes on.\<close>

datatype 'a part = Failed string | Skip string | Go 'a

fun then_part :: "'a part \<Rightarrow> ('a \<Rightarrow> 'b part) \<Rightarrow> 'b part" where
  "then_part (Failed e) f = Failed e"
| "then_part (Skip r) f = Skip r"
| "then_part (Go x) f = f x"

datatype scenario_verdict = Aborted string | Skipped string | Recorded

section \<open>Before the gateway runs\<close>

fun topology_mode_text :: "topology_mode \<Rightarrow> string" where
  "topology_mode_text Loopback = ''Loopback''"
| "topology_mode_text Veth = ''Veth''"
| "topology_mode_text Netns = ''Netns''"
| "topology_mode_text Physical = ''Physical''"
| "topology_mode_text Remote = ''Remote''"

definition provision_part :: "scenario_host \<Rightarrow> scenario \<Rightarrow> unit part" where
  "provision_part h s =
     (let t = sc_topology s in
      case tp_mode t of
        Loopback \<Rightarrow> Go ()
      | Veth \<Rightarrow>
          (case fst (setup_veth (ho_net_admin h) (ho_commands h) (tp_left_ip t) (tp_right_ip t) (tp_subnet_mask t)) of
             Inr _ \<Rightarrow> Go () | Inl e \<Rightarrow> Skip (''veth topology setup failed: '' @ e))
      | Netns \<Rightarrow>
          (case fst (setup_netns (ho_net_admin h) (ho_commands h) (tp_left_namespace t) (tp_right_namespace t)
                       (tp_left_ip t) (tp_right_ip t) (tp_subnet_mask t)) of
             Inr _ \<Rightarrow> Go () | Inl e \<Rightarrow> Skip (''netns topology setup failed: '' @ e))
      | m \<Rightarrow> Skip (''topology mode '' @ topology_mode_text m @ '' is not supported by this harness''))"

definition impair_part :: "scenario_host \<Rightarrow> scenario \<Rightarrow> unit part" where
  "impair_part h s =
     (case sc_network_impairment s of
        None \<Rightarrow> Go ()
      | Some imp \<Rightarrow>
          if ni_enabled imp
          then (case apply_impairment (ho_disp h) (ho_tc h) (ni_apply_to imp) (impairment_of imp) of
                  Inr _ \<Rightarrow> Go () | Inl e \<Rightarrow> Skip (''network impairment setup failed: '' @ e))
          else Go ())"

definition work_dir :: "string \<Rightarrow> scenario \<Rightarrow> string" where
  "work_dir root_dir s = path_join (path_join root_dir ''gateway'') (sanitize (sc_name s))"

definition spec_part :: "scenario_host \<Rightarrow> gateway_plan \<Rightarrow> scenario \<Rightarrow> string \<Rightarrow> security_spec part" where
  "spec_part h plan s dir =
     (case fst (build_security_spec (ho_pki h) plan s dir) of
        Inl e \<Rightarrow> Skip (''security spec build failed: '' @ e) | Inr spec \<Rightarrow> Go spec)"

definition framed_spec :: "scenario \<Rightarrow> security_spec \<Rightarrow> security_spec" where
  "framed_spec s spec =
     with_optimizations (sc_optimization_flags s)
       (case pr_app_protocol (sc_protocol s) of
          Ale \<Rightarrow> with_asymmetric_ale ''ale'' spec
        | Raw \<Rightarrow> with_asymmetric_ale ''raw'' spec
        | AppNone \<Rightarrow> spec)"

text \<open>The parameters, where a missing sender panics.\<close>

definition params_part :: "scenario \<Rightarrow> defaults \<Rightarrow> core_plan \<Rightarrow> run_params part" where
  "params_part s d cores =
     (case build_run_params s d cores of Some p \<Rightarrow> Go p | None \<Rightarrow> Failed ''loopback scenario has a sender'')"

section \<open>Starting the gateway\<close>

fun is_dtls :: "gw_security \<Rightarrow> bool" where
  "is_dtls (SecDtls _ _) = True"
| "is_dtls _ = False"

definition plan_is_udp :: "gateway_plan \<Rightarrow> bool" where
  "plan_is_udp plan =
     (is_dtls (gp_security plan) \<or> gp_transport_name plan = ''scg-udp-routing'' \<or> gp_transport_name plan = ''scg-custom-udp'')"

definition plan_is_framed :: "gateway_plan \<Rightarrow> bool" where
  "plan_is_framed plan = (gp_transport_name plan = ''scg-udp-ale'' \<or> gp_transport_name plan = ''scg-udp-raw'')"

definition or_else_opt :: "'a option \<Rightarrow> 'a option \<Rightarrow> 'a option" where
  "or_else_opt x y = (case x of Some v \<Rightarrow> Some v | None \<Rightarrow> y)"

definition shm_tuning_for :: "optimization_flags \<Rightarrow> nat \<Rightarrow> shm_tuning" where
  "shm_tuning_for fl msg_bytes =
     (let is_slot = (of_shm_ring_kind fl = Some ''slot'');
          segment = or_else_opt (of_shm_segment_size fl) (if is_slot then Some ((msg_bytes + 8 + 63) div 64 * 64) else None);
          seg = max (or_map (\<lambda>v. v) 1 segment) 1;
          num = or_else_opt (of_shm_num_segments fl)
                  (if is_slot then Some (min (max (4 * 1024 * 1024 div seg) 8) 256) else None)
      in \<lparr>sh_ring_kind = of_shm_ring_kind fl, sh_segment_size = segment, sh_num_segments = num,
          sh_g2c_notify = of_shm_g2c_notify fl\<rparr>)"

definition start_kind_for :: "scenario_host \<Rightarrow> gateway_plan \<Rightarrow> scenario \<Rightarrow> run_params \<Rightarrow> start_kind" where
  "start_kind_for h plan s p =
     (let pipelines = provisioned_pipelines (rn_connections p) (rn_runs p); app_id = scenario_app_id (ho_hash h) (sc_name s) in
      if gp_transport_name plan = ''scg-uds'' then StartUds app_id pipelines
      else if gp_transport_name plan = ''scg-shm''
      then StartShm app_id pipelines (ring_capacity_of s) (shm_tuning_for (sc_optimization_flags s) (unat (rn_message_bytes p)))
      else if gp_transport_name plan = ''scg-tproxy'' then StartTproxy (rn_connections p)
      else if plan_is_udp plan \<or> plan_is_framed plan then StartUdp (rn_connections p)
      else StartTcp (rn_connections p))"

fun start_reason :: "start_kind \<Rightarrow> start_answer \<Rightarrow> string option" where
  "start_reason _ Started = None"
| "start_reason (StartTproxy _) (StartDenied e) = Some ''TPROXY requires CAP_NET_ADMIN + iptables/routing setup''"
| "start_reason (StartTproxy _) (StartFailed e) = Some (''TPROXY gateway failed to start: '' @ e)"
| "start_reason (StartUds _ _) (StartDenied e) = Some (''UDS endpoint provisioning unavailable on this host: '' @ e)"
| "start_reason (StartUds _ _) (StartFailed e) = Some (''UDS endpoint provisioning unavailable on this host: '' @ e)"
| "start_reason (StartShm _ _ _ _) (StartDenied e) = Some (''SHM endpoint provisioning unavailable on this host: '' @ e)"
| "start_reason (StartShm _ _ _ _) (StartFailed e) = Some (''SHM endpoint provisioning unavailable on this host: '' @ e)"
| "start_reason _ (StartDenied e) = Some (''gateway failed to start: '' @ e)"
| "start_reason _ (StartFailed e) = Some (''gateway failed to start: '' @ e)"

definition start_part ::
  "scenario_host \<Rightarrow> start_kind \<Rightarrow> gateway_plan \<Rightarrow> security_spec \<Rightarrow> string \<Rightarrow> string \<Rightarrow> core_plan \<Rightarrow> unit part" where
  "start_part h kind plan spec binary dir cores =
     (case start_reason kind (ho_start h
              \<lparr>sk_kind = kind, sk_transport_name = gp_transport_name plan, sk_spec = spec, sk_topology = gp_topology plan,
               sk_binary = binary, sk_work_dir = dir, sk_cores = co_gateway cores\<rparr>) of
        None \<Rightarrow> Go () | Some reason \<Rightarrow> Skip reason)"

definition mkdir_part :: "scenario_host \<Rightarrow> string \<Rightarrow> unit part" where
  "mkdir_part h dir = (case ho_mkdir h dir of Some e \<Rightarrow> Failed e | None \<Rightarrow> Go ())"

text \<open>Everything up to the measurement of \<open>run_gateway_scenario\<close>.\<close>

definition open_gateway ::
  "scenario_host \<Rightarrow> scenario \<Rightarrow> defaults \<Rightarrow> gateway_plan \<Rightarrow> string \<Rightarrow> string \<Rightarrow> core_plan \<Rightarrow> f64 option \<Rightarrow> run_params part" where
  "open_gateway h s d plan binary root_dir cores rate =
     (if sc_mode s = Pingpong \<and> is_dtls (gp_security plan)
      then Skip ''ping-pong RTT over the DTLS/UDP gateway path is not supported''
      else (let dir = work_dir root_dir s in
        then_part (mkdir_part h dir) (\<lambda>_.
        then_part (provision_part h s) (\<lambda>_.
        then_part (impair_part h s) (\<lambda>_.
        then_part (spec_part h plan s dir) (\<lambda>spec.
        then_part (params_part s d cores) (\<lambda>p.
        let p = (case rate of Some r \<Rightarrow> pace_at r p | None \<Rightarrow> p) in
        then_part (start_part h (start_kind_for h plan s p) plan (framed_spec s spec) binary dir cores) (\<lambda>_.
        Go p))))))))"

section \<open>Measuring and recording\<close>

definition samples_of :: "scenario_host \<Rightarrow> u32 option \<Rightarrow> system_sample list option" where
  "samples_of h sys_rate = (if sys_rate \<noteq> None \<and> ho_pids h \<noteq> [] then Some (ho_samples h) else None)"

definition perf_of :: "scenario_host \<Rightarrow> defaults \<Rightarrow> perf_result option" where
  "perf_of h d =
     (if \<not> df_collect_system_metrics d \<or> df_metrics_backend d \<noteq> Perf then None else ho_perf h)"

definition mem_copies_of :: "scenario_host \<Rightarrow> defaults \<Rightarrow> mem_copy_result option" where
  "mem_copies_of h d =
     (if \<not> df_collect_system_metrics d \<or> df_metrics_backend d \<noteq> Ebpf then None else ho_mem h)"

definition kernel_requested :: "gateway_plan \<Rightarrow> bool" where
  "kernel_requested plan = (case gp_security plan of SecTls _ ktls \<Rightarrow> ktls | SecMtls _ ktls \<Rightarrow> ktls | _ \<Rightarrow> False)"

definition gateway_cpu :: "scenario_host \<Rightarrow> core_plan \<Rightarrow> sys_agg option \<Rightarrow> cpu_signals option" where
  "gateway_cpu h cores sys =
     map_option (\<lambda>a. \<lparr>gw_pool_pct_p95 = sa_cpu_pct_p95 a,
                      gw_pool_cores = (if co_gateway cores = [] then ho_cpu_logical h else length (co_gateway cores)),
                      gw_hot_thread_pct_p95 = sa_cpu_hot_thread_pct_p95 a, host_busy_frac_p95 = sa_host_busy_frac_p95 a\<rparr>) sys"

text \<open>A ceiling of the access interface, or of TCP when a null transport cannot be probed.\<close>

definition calibrate_gateway ::
  "scenario_host \<Rightarrow> ceiling_transport \<Rightarrow> run_params \<Rightarrow> f64 \<Rightarrow> ceiling_cache \<Rightarrow> cpu_signals option
   \<Rightarrow> (string + calibration) \<times> ceiling_cache" where
  "calibrate_gateway h t p gbps cache cpu =
     (case calibrate_scenario (ho_probe h) t p gbps cache True cpu of
        (Inl e, cache) \<Rightarrow>
          if ceiling_name t \<noteq> ''tcp'' \<and> ceiling_name t \<noteq> ''udp''
          then calibrate_scenario (ho_probe h) CeilTcp p gbps cache True cpu
          else (Inl e, cache)
      | r \<Rightarrow> r)"

definition save_samples :: "scenario_host \<Rightarrow> scenario \<Rightarrow> system_sample list option \<Rightarrow> result_dir \<Rightarrow> result_dir \<times> bool" where
  "save_samples h s samples rd =
     (case samples of
        Some xs \<Rightarrow> record_system_metrics (ho_disk h) (ho_clk_tck h) (sc_name s) xs rd
      | None \<Rightarrow> (rd, True))"

definition WRITE_FAILED :: string where "WRITE_FAILED = ''write failed''"

definition measure_gateway :: "scenario_host \<Rightarrow> run_params \<Rightarrow> run_stats part" where
  "measure_gateway h p =
     (case ho_run h p of
        Inl e \<Rightarrow> Skip (''gateway run did not complete at '' @ show_nat (rn_connections p) @ '' connection(s): '' @ e)
      | Inr stats \<Rightarrow>
          if has_measurements stats then Go stats
          else Skip ''no messages reached the receiver (zero-metric result)'')"

text \<open>Tear down, scan the logs and record, once the artifacts are known.\<close>

definition close_and_record ::
  "scenario_host \<Rightarrow> gateway_plan \<Rightarrow> scenario \<Rightarrow> run_params \<Rightarrow> run_stats \<Rightarrow> (effective \<Rightarrow> scenario_artifacts) \<Rightarrow> result_dir
   \<Rightarrow> scenario_verdict \<times> result_dir" where
  "close_and_record h plan s p stats art rd =
     (case ho_shutdown h of
        Some e \<Rightarrow> (Aborted e, rd)
      | None \<Rightarrow>
          (case record_scenario (ho_disk h) s p stats (art (scan_effective (ho_logs h) (kernel_requested plan))) rd of
             (rd, ok) \<Rightarrow> (if ok then Recorded else Aborted WRITE_FAILED, rd)))"

definition record_gateway ::
  "scenario_host \<Rightarrow> scenario \<Rightarrow> defaults \<Rightarrow> gateway_plan \<Rightarrow> core_plan \<Rightarrow> u32 option \<Rightarrow> run_params \<Rightarrow> run_stats
   \<Rightarrow> result_dir \<times> ceiling_cache \<Rightarrow> scenario_verdict \<times> result_dir \<times> ceiling_cache" where
  "record_gateway h s d plan cores sys_rate p stats st =
     (let samples = samples_of h sys_rate; sys = Option.bind samples (aggregate (ho_clk_tck h)); rd = fst st; cache = snd st;
          art = (\<lambda>cal sweep eff. \<lparr>ar_cal = cal, ar_sweep = sweep, ar_sys = sys, ar_perf = perf_of h d,
                   ar_mem_copies = mem_copies_of h d, ar_effective = Some eff, ar_loss_threshold_pct = df_loss_threshold_pct d\<rparr>)
      in case save_samples h s samples rd of
           (rd, False) \<Rightarrow> (Aborted WRITE_FAILED, rd, cache)
         | (rd, True) \<Rightarrow>
             if sc_mode s = Connrate \<or> sc_mode s = Pingpong
             then (case close_and_record h plan s p stats (art None None) rd of (v, rd) \<Rightarrow> (v, rd, cache))
             else
               (let t = ceiling_transport_for (plan_is_udp plan \<or> plan_is_framed plan) (gp_transport_name plan = ''scg-uds'')
                          (gp_transport_name plan = ''scg-shm'') s in
                case calibrate_gateway h t p (sm_mean (rs_throughput_gbps stats)) cache (gateway_cpu h cores sys) of
                  (Inl e, cache) \<Rightarrow> (Aborted e, rd, cache)
                | (Inr cal, cache) \<Rightarrow>
                    (case run_saturation_if_requested (ho_sweep h) s (df_loss_threshold_pct d) of
                       Inl e \<Rightarrow> (Aborted e, rd, cache)
                     | Inr sweep \<Rightarrow>
                         (case close_and_record h plan s p stats (art (Some cal) sweep) rd of (v, rd) \<Rightarrow> (v, rd, cache)))))"

definition run_gateway_scenario ::
  "scenario_host \<Rightarrow> scenario \<Rightarrow> defaults \<Rightarrow> gateway_plan \<Rightarrow> string \<Rightarrow> u32 option \<Rightarrow> core_plan \<Rightarrow> f64 option
   \<Rightarrow> result_dir \<times> ceiling_cache \<Rightarrow> scenario_verdict \<times> result_dir \<times> ceiling_cache" where
  "run_gateway_scenario h s d plan binary sys_rate cores rate st =
     (case then_part (open_gateway h s d plan binary (rd_root (fst st)) cores rate)
             (\<lambda>p. then_part (measure_gateway h p) (\<lambda>stats. Go (p, stats))) of
        Failed e \<Rightarrow> (Aborted e, st)
      | Skip reason \<Rightarrow> (Skipped reason, st)
      | Go (p, stats) \<Rightarrow> record_gateway h s d plan cores sys_rate p stats st)"

section \<open>Several streams\<close>

fun stream_role_text :: "stream_role \<Rightarrow> string" where
  "stream_role_text Safety = ''Safety''"
| "stream_role_text Bulk = ''Bulk''"
| "stream_role_text Monitoring = ''Monitoring''"

fun stream_class_list :: "stream list \<Rightarrow> string + string list" where
  "stream_class_list [] = Inr []"
| "stream_class_list (st # sts) =
     (case canonical_traffic_class (py_traffic_class (sr_priority st)) of
        None \<Rightarrow> Inl (''stream traffic_class '' @ [CHR 0x27] @ py_traffic_class (sr_priority st) @ [CHR 0x27]
                      @ '' is not recognised (validation should have rejected this scenario)'')
      | Some c \<Rightarrow> map_sum id ((#) c) (stream_class_list sts))"

definition first_seen :: "string list \<Rightarrow> string list" where
  "first_seen cs = foldl (\<lambda>acc c. if c \<in> set acc then acc else acc @ [c]) [] cs"

definition stream_message_bytes :: "stream \<Rightarrow> u32" where
  "stream_message_bytes st = max (sr_message_size_bytes st) (of_nat HEADER_LEN)"

definition stream_config_of :: "core_plan \<Rightarrow> nat \<times> stream \<times> string \<Rightarrow> stream_config" where
  "stream_config_of cores x =
     (case x of (i, st, class_name) \<Rightarrow>
        \<lparr>sg_name = stream_role_text (sr_role st) @ ''-'' @ show_nat i, sg_traffic_class = class_name,
         sg_dscp_label = to_upper (py_dscp_tag (sr_priority st)), sg_dscp_tag = parse_dscp_tag (py_dscp_tag (sr_priority st)),
         sg_message_bytes = stream_message_bytes st,
         sg_interval_us = (case sr_pattern st of Periodic \<Rightarrow> sr_interval_us st | _ \<Rightarrow> None),
         sg_sender_cores = co_sender cores, sg_receiver_cores = co_receiver cores\<rparr>)"

fun first_pair_error :: "scenario_host \<Rightarrow> (stream \<times> string) list \<Rightarrow> string option" where
  "first_pair_error h [] = None"
| "first_pair_error h ((st, c) # ps) =
     (case ho_pair h (stream_message_bytes st) c of Some e \<Rightarrow> Some e | None \<Rightarrow> first_pair_error h ps)"

definition stream_stats :: "stream_result \<Rightarrow> run_stats" where
  "stream_stats best =
     (let f = sr_summary best in
      \<lparr>rs_runs = [f], rs_throughput_gbps = summarize [fs_throughput_gbps f], rs_latency_mean_us = summarize [sm_mean (fs_latency_us f)],
       rs_latency_p99_us = summarize [sm_p99 (fs_latency_us f)], rs_handshake_us = summarize [0],
       rs_total_lost = ig_lost (fs_integrity f), rs_loss_pct = fs_loss_pct f, rs_mode = ModeThroughput, rs_rtt = None, rs_conn = None,
       rs_co_corrected = sr_paced best, rs_send_lag_mean_us = sr_send_lag_mean_us best, rs_send_lag_max_us = sr_send_lag_max_us best\<rparr>)"

definition stream_warmup :: "scenario \<Rightarrow> defaults \<Rightarrow> f64" where
  "stream_warmup s d = from_secs (or_map (\<lambda>w. w) (df_warmup_secs d) (sc_warmup_secs s))"

definition stream_measure :: "scenario \<Rightarrow> defaults \<Rightarrow> f64" where
  "stream_measure s d = from_secs (max (or_map (\<lambda>m. m) (df_duration_secs d) (sc_duration_secs s)) 1)"

definition stream_params :: "scenario \<Rightarrow> defaults \<Rightarrow> core_plan \<Rightarrow> stream \<Rightarrow> run_params" where
  "stream_params s d cores st =
     \<lparr>rn_message_bytes = stream_message_bytes st, rn_connections = length (sc_streams s), rn_runs = 1,
      rn_warmup = stream_warmup s d, rn_measure = stream_measure s d,
      rn_cooldown = from_secs (or_map (\<lambda>c. c) (df_cooldown_secs d) (sc_cooldown_secs s)),
      rn_remove_outliers = (df_outlier_removal d = Iqr), rn_sender_cores = co_sender cores, rn_receiver_cores = co_receiver cores,
      rn_sender = \<lparr>sn_interface = sr_interface st, sn_target_addr = sr_target_addr st, sn_pattern = sr_pattern st,
        sn_rate_limit_mbps = None, sn_interval_us = sr_interval_us st, sn_burst_count = None, sn_burst_pause_us = None,
        sn_ramp_start_mbps = None, sn_ramp_step_mbps = None, sn_ramp_step_interval_secs = None\<rparr>,
      rn_mode = ModeThroughput\<rparr>"

text \<open>Up to the streams' results.\<close>

definition open_streams ::
  "scenario_host \<Rightarrow> scenario \<Rightarrow> defaults \<Rightarrow> gateway_plan \<Rightarrow> string \<Rightarrow> string \<Rightarrow> core_plan \<Rightarrow> multi_stream_result part" where
  "open_streams h s d plan binary root_dir cores =
     (if is_dtls (gp_security plan) \<or> gp_security plan = SecRoutingUdp
      then Skip ''multi-stream scheduling requires a TCP-based protocol''
      else (let dir = work_dir root_dir s in
        then_part (mkdir_part h dir) (\<lambda>_.
        then_part (case stream_class_list (sc_streams s) of Inl e \<Rightarrow> Failed e | Inr cs \<Rightarrow> Go cs) (\<lambda>classes.
        then_part (case fst (build_multistream_spec (ho_pki h) plan s dir) of Inl e \<Rightarrow> Failed e | Inr spec \<Rightarrow> Go spec) (\<lambda>spec.
        then_part (start_part h (StartMulti (first_seen classes) (length (sc_streams s))) plan spec binary dir cores) (\<lambda>_.
        then_part (case first_pair_error h (zip (sc_streams s) classes) of Some e \<Rightarrow> Failed e | None \<Rightarrow> Go ()) (\<lambda>_.
        case ho_streams h (map (stream_config_of cores) (enumerate 0 (zip (sc_streams s) classes)))
               (stream_warmup s d) (stream_measure s d) of
          Inl e \<Rightarrow> Failed e
        | Inr r \<Rightarrow> Go r)))))))"

text \<open>A shutdown that fails ends the campaign, also on the way to a skip.\<close>

definition shutdown_then_skip :: "scenario_host \<Rightarrow> string \<Rightarrow> scenario_verdict" where
  "shutdown_then_skip h reason = (case ho_shutdown h of Some e \<Rightarrow> Aborted e | None \<Rightarrow> Skipped reason)"

text \<open>\<open>max_by\<close> on \<open>partial_cmp\<close>, incomparable ones taken for equal: the last that no later one is above.\<close>

definition best_stream :: "stream_result list \<Rightarrow> stream_result option" where
  "best_stream rs =
     (case rs of
        [] \<Rightarrow> None
      | x # xs \<Rightarrow> Some (foldl (\<lambda>best y. if flt (fs_throughput_gbps (sr_summary y)) (fs_throughput_gbps (sr_summary best))
                                          then best else y) x xs))"

definition record_streams ::
  "scenario_host \<Rightarrow> scenario \<Rightarrow> defaults \<Rightarrow> gateway_plan \<Rightarrow> u32 option \<Rightarrow> core_plan \<Rightarrow> multi_stream_result \<Rightarrow> result_dir
   \<Rightarrow> scenario_verdict \<times> result_dir" where
  "record_streams h s d plan sys_rate cores r rd =
     (let samples = samples_of h sys_rate; rd = fst (save_samples h s samples rd) in
      case record_stream_results (ho_disk h) (sc_name s) r rd of
        (rd, False) \<Rightarrow> (Aborted WRITE_FAILED, rd)
      | (rd, True) \<Rightarrow>
          (case (best_stream (ms_streams r), sc_streams s) of
             (None, _) \<Rightarrow> (shutdown_then_skip h ''no multi-stream results were produced'', rd)
           | (Some best, sts) \<Rightarrow>
               if fs_messages (sr_summary best) = 0
               then (shutdown_then_skip h ''no multi-stream messages reached a receiver (zero-metric result)'', rd)
               else close_and_record h plan s (stream_params s d cores (hd sts)) (stream_stats best)
                      (\<lambda>eff. \<lparr>ar_cal = None, ar_sweep = None, ar_sys = Option.bind samples (aggregate (ho_clk_tck h)),
                              ar_perf = perf_of h d, ar_mem_copies = None, ar_effective = Some eff,
                              ar_loss_threshold_pct = df_loss_threshold_pct d\<rparr>) rd))"

definition run_multistream_scenario ::
  "scenario_host \<Rightarrow> scenario \<Rightarrow> defaults \<Rightarrow> gateway_plan \<Rightarrow> string \<Rightarrow> u32 option \<Rightarrow> core_plan \<Rightarrow> result_dir \<Rightarrow> scenario_verdict \<times> result_dir" where
  "run_multistream_scenario h s d plan binary sys_rate cores rd =
     (case open_streams h s d plan binary (rd_root rd) cores of
        Failed e \<Rightarrow> (Aborted e, rd)
      | Skip reason \<Rightarrow> (Skipped reason, rd)
      | Go r \<Rightarrow> record_streams h s d plan sys_rate cores r rd)"

section \<open>Reloads\<close>

definition HOTRELOAD_APP_ID :: string where "HOTRELOAD_APP_ID = ''hotreload-probe''"

fun reload_action_text :: "reload_action \<Rightarrow> string" where
  "reload_action_text UpdateTlsProfile = ''UpdateTlsProfile''"
| "reload_action_text AddConnection = ''AddConnection''"
| "reload_action_text RemoveConnection = ''RemoveConnection''"
| "reload_action_text RotateCert = ''RotateCert''"
| "reload_action_text InvalidConfig = ''InvalidConfig''"

definition needs_management_endpoint :: "reload_action \<Rightarrow> bool" where
  "needs_management_endpoint a = (a = AddConnection \<or> a = RemoveConnection)"

text \<open>Whether the action of the timer thread succeeds; a gateway that was started has a process.\<close>

definition perform_reload :: "scenario_host \<Rightarrow> reload_action \<Rightarrow> identity option \<Rightarrow> bool" where
  "perform_reload h a swap =
     (if needs_management_endpoint a
      then ho_mgmt_socket h
           \<and> (case ho_create_uds h HOTRELOAD_APP_ID of Inr ep \<Rightarrow> ho_close_endpoint h ep = None | Inl _ \<Rightarrow> False)
      else if a = RotateCert
      then (case swap of Some i \<Rightarrow> ho_config_path h \<and> rewrite_cert_paths (ho_config_doc h) (ho_config_store h) i = Inr True | None \<Rightarrow> False)
      else ho_config_path h)"

definition extended_params :: "reload_event \<Rightarrow> run_params \<Rightarrow> run_params" where
  "extended_params ev p =
     p\<lparr>rn_measure := Fin (real (snd (reload_timing (unat (re_trigger_at_secs ev)) (as_nanos (rn_warmup p) div 10 ^ 6)
                                      (unat (max (re_measure_window_after_secs ev) 5)) (rn_connections p))) / 1000)\<rparr>"

definition open_reload ::
  "scenario_host \<Rightarrow> scenario \<Rightarrow> reload_event \<Rightarrow> defaults \<Rightarrow> gateway_plan \<Rightarrow> string \<Rightarrow> string \<Rightarrow> core_plan
   \<Rightarrow> (run_params \<times> identity option) part" where
  "open_reload h s ev d plan binary root_dir cores =
     (let dir = work_dir root_dir s in
      then_part (mkdir_part h dir) (\<lambda>_.
      then_part (spec_part h plan s dir) (\<lambda>spec.
      then_part (params_part s d cores) (\<lambda>p.
      then_part (start_part h (if needs_management_endpoint (re_action ev) then StartTcpManaged HOTRELOAD_APP_ID (rn_connections p)
                              else StartTcp (rn_connections p)) plan spec binary dir cores) (\<lambda>_.
      if re_action ev = RotateCert
      then (case fst (stage_swap_identity (ho_pki h) s dir) of
              Inr i \<Rightarrow> Go (p, Some i)
            | Inl e \<Rightarrow> (case ho_shutdown h of Some x \<Rightarrow> Failed x | None \<Rightarrow> Skip (''swap identity staging failed: '' @ e)))
      else Go (p, None))))))"

definition reload_artifact_of :: "scenario_host \<Rightarrow> reload_event \<Rightarrow> run_params \<Rightarrow> run_stats \<Rightarrow> bool \<Rightarrow> reload_artifact" where
  "reload_artifact_of h ev p stats ok =
     \<lparr>ra_action = reload_action_text (re_action ev), ra_fired = True, ra_action_succeeded = ok, ra_reload_duration_us = ho_reload_us h,
      ra_connections_before = rn_connections p, ra_connections_after = rn_connections p,
      ra_inflight_packets_lost = rs_total_lost stats, ra_latency_p99_us = sm_mean (rs_latency_p99_us stats),
      ra_throughput_gbps = sm_mean (rs_throughput_gbps stats),
      ra_rollback_continuity_passed = (if re_action ev = InvalidConfig then Some (ok \<and> rs_total_lost stats = 0) else None),
      ra_change_applied = (if reload_is_noop_on_scg (re_action ev) then Some False
                           else if re_action ev = RotateCert then Some ok else None)\<rparr>"

definition record_reload ::
  "scenario_host \<Rightarrow> scenario \<Rightarrow> reload_event \<Rightarrow> defaults \<Rightarrow> gateway_plan \<Rightarrow> u32 option \<Rightarrow> run_params \<Rightarrow> run_stats \<Rightarrow> bool \<Rightarrow> result_dir
   \<Rightarrow> scenario_verdict \<times> result_dir" where
  "record_reload h s ev d plan sys_rate p stats ok rd =
     (let samples = samples_of h sys_rate; rd = fst (save_samples h s samples rd) in
      case close_and_record h plan s p stats
             (\<lambda>eff. \<lparr>ar_cal = None, ar_sweep = None, ar_sys = Option.bind samples (aggregate (ho_clk_tck h)), ar_perf = perf_of h d,
                     ar_mem_copies = None, ar_effective = Some eff, ar_loss_threshold_pct = df_loss_threshold_pct d\<rparr>) rd of
        (Recorded, rd) \<Rightarrow>
          (case record_reload_artifact (ho_disk h) (sc_name s) (reload_artifact_of h ev p stats ok) rd of
             (rd, written) \<Rightarrow> (if written then Recorded else Aborted WRITE_FAILED, rd))
      | r \<Rightarrow> r)"

definition run_hotreload_scenario ::
  "scenario_host \<Rightarrow> scenario \<Rightarrow> reload_event \<Rightarrow> defaults \<Rightarrow> gateway_plan \<Rightarrow> string \<Rightarrow> u32 option \<Rightarrow> core_plan \<Rightarrow> result_dir
   \<Rightarrow> scenario_verdict \<times> result_dir" where
  "run_hotreload_scenario h s ev d plan binary sys_rate cores rd =
     (case open_reload h s ev d plan binary (rd_root rd) cores of
        Failed e \<Rightarrow> (Aborted e, rd)
      | Skip reason \<Rightarrow> (Skipped reason, rd)
      | Go (p, swap) \<Rightarrow>
          (case ho_run h (extended_params ev p) of
             Inl e \<Rightarrow> (shutdown_then_skip h (''hot-reload run did not complete at '' @ show_nat (rn_connections p)
                                             @ '' connection(s): '' @ e), rd)
           | Inr stats \<Rightarrow>
               (let ok = perform_reload h (re_action ev) swap in
                if \<not> has_measurements stats
                then (shutdown_then_skip h ''no messages reached the receiver (zero-metric result)'', rd)
                else if needs_management_endpoint (re_action ev) \<and> \<not> ok
                then (shutdown_then_skip h (''hot-reload action '' @ reload_action_text (re_action ev) @ '' did not complete''), rd)
                else record_reload h s ev d plan sys_rate p stats ok rd)))"

section \<open>The loop over the scenarios\<close>

record run_context =
  cx_rdir :: result_dir
  cx_host :: req_host
  cx_ceilings :: ceiling_cache
  cx_comparison_ceilings :: group_ceilings
  cx_gateway_binary :: "string option"
  cx_index :: nat
  cx_skipped :: nat

text \<open>A scenario over loopback: ping-pong and connection-rate runs are recorded as they are, the others calibrated first.\<close>

definition run_loopback ::
  "scenario_host \<Rightarrow> scenario \<Rightarrow> defaults \<Rightarrow> core_plan \<Rightarrow> interface \<Rightarrow> run_context \<Rightarrow> string option \<times> run_context" where
  "run_loopback h s d cores iface cx =
     (case params_part s d cores of
        Go p \<Rightarrow>
          (let p = apply_comparison_rate s p (cx_comparison_ceilings cx); loss = df_loss_threshold_pct d;
               art = (\<lambda>cal sweep. \<lparr>ar_cal = cal, ar_sweep = sweep, ar_sys = None, ar_perf = None, ar_mem_copies = None,
                        ar_effective = None, ar_loss_threshold_pct = loss\<rparr>);
               finish = (\<lambda>stats a cx. case record_scenario (ho_disk h) s p stats a (cx_rdir cx) of
                   (rd, False) \<Rightarrow> (Some WRITE_FAILED, cx\<lparr>cx_rdir := rd\<rparr>)
                 | (rd, True) \<Rightarrow> (None, cx\<lparr>cx_rdir := rd,
                       cx_comparison_ceilings := capture_comparison_ceiling s (rd_outcomes rd) loss (cx_comparison_ceilings cx)\<rparr>))
           in case ho_run h p of
                Inl e \<Rightarrow> (Some e, cx)
              | Inr stats \<Rightarrow>
                  if rn_mode p = ModePingPong \<or> rn_mode p = ModeConnrate then finish stats (art None None) cx
                  else (case calibrate_scenario (ho_probe h) (if iface = Udp then CeilUdp else CeilTcp) p
                               (sm_mean (rs_throughput_gbps stats)) (cx_ceilings cx) False None of
                          (Inl e, cache) \<Rightarrow> (Some e, cx\<lparr>cx_ceilings := cache\<rparr>)
                        | (Inr cal, cache) \<Rightarrow>
                            (case run_saturation_if_requested (ho_sweep h) s loss of
                               Inl e \<Rightarrow> (Some e, cx\<lparr>cx_ceilings := cache\<rparr>)
                             | Inr sweep \<Rightarrow> finish stats (art (Some cal) sweep) (cx\<lparr>cx_ceilings := cache\<rparr>))))
      | Failed e \<Rightarrow> (Some e, cx)
      | Skip r \<Rightarrow> (Some r, cx))"

definition skip_scenario :: "scenario_host \<Rightarrow> scenario \<Rightarrow> string \<Rightarrow> run_context \<Rightarrow> string option \<times> run_context" where
  "skip_scenario h s reason cx =
     (case record_skipped (ho_disk h) (sc_name s) reason (cx_rdir cx) of
        (rd, True) \<Rightarrow> (None, cx\<lparr>cx_rdir := rd, cx_skipped := cx_skipped cx + 1\<rparr>)
      | (rd, False) \<Rightarrow> (Some WRITE_FAILED, cx\<lparr>cx_rdir := rd\<rparr>))"

definition run_planned ::
  "scenario_host \<Rightarrow> scenario \<Rightarrow> defaults \<Rightarrow> gateway_plan \<Rightarrow> string \<Rightarrow> core_plan \<Rightarrow> run_context \<Rightarrow> scenario_verdict \<times> run_context" where
  "run_planned h s d plan binary cores cx =
     (let sys_rate = system_metrics_rate d in
      if sc_streams s \<noteq> []
      then (case run_multistream_scenario h s d plan binary sys_rate cores (cx_rdir cx) of (v, rd) \<Rightarrow> (v, cx\<lparr>cx_rdir := rd\<rparr>))
      else (case sc_reload_event s of
              Some ev \<Rightarrow>
                (case run_hotreload_scenario h s ev d plan binary sys_rate cores (cx_rdir cx) of (v, rd) \<Rightarrow> (v, cx\<lparr>cx_rdir := rd\<rparr>))
            | None \<Rightarrow>
                (case run_gateway_scenario h s d plan binary sys_rate cores (comparison_rate s (cx_comparison_ceilings cx))
                        (cx_rdir cx, cx_ceilings cx) of
                   (v, rd, cache) \<Rightarrow> (v, cx\<lparr>cx_rdir := rd, cx_ceilings := cache\<rparr>))))"

definition run_one :: "scenario_host \<Rightarrow> defaults \<Rightarrow> core_plan \<Rightarrow> scenario \<Rightarrow> run_context \<Rightarrow> string option \<times> run_context" where
  "run_one h d cores s cx =
     (let cx = cx\<lparr>cx_index := cx_index cx + 1\<rparr> in
      if scenario_recorded (rd_tree (cx_rdir cx)) (sc_name s) then (None, cx)
      else (case unmet_requirements s (cx_host cx) of
              Some reason \<Rightarrow> skip_scenario h s reason cx
            | None \<Rightarrow>
                (case loopback_transport s of
                   Some iface \<Rightarrow> run_loopback h s d cores iface cx
                 | None \<Rightarrow>
                     (case gateway_plan_for s of
                        None \<Rightarrow> skip_scenario h s ''scenario path is not implemented by this harness'' cx
                      | Some plan \<Rightarrow>
                          (case cx_gateway_binary cx of
                             None \<Rightarrow> skip_scenario h s ''no compatible SCG gateway binary found'' cx
                           | Some binary \<Rightarrow>
                               (case run_planned h s d plan binary cores cx of
                                  (Aborted e, cx) \<Rightarrow> (Some e, cx)
                                | (Skipped reason, cx) \<Rightarrow> skip_scenario h s reason cx
                                | (Recorded, cx) \<Rightarrow>
                                    (None, cx\<lparr>cx_comparison_ceilings := capture_comparison_ceiling s (rd_outcomes (cx_rdir cx))
                                                (df_loss_threshold_pct d) (cx_comparison_ceilings cx)\<rparr>)))))))"

fun run_loop ::
  "(scenario \<Rightarrow> scenario_host) \<Rightarrow> defaults \<Rightarrow> core_plan \<Rightarrow> scenario list \<Rightarrow> run_context \<Rightarrow> string option \<times> run_context" where
  "run_loop hosts d cores [] cx = (None, cx)"
| "run_loop hosts d cores (s # ss) cx =
     (case run_one (hosts s) d cores s cx of
        (Some e, cx) \<Rightarrow> (Some e, cx)
      | (None, cx) \<Rightarrow> run_loop hosts d cores ss cx)"

definition run_config :: "(scenario \<Rightarrow> scenario_host) \<Rightarrow> nat \<Rightarrow> config \<Rightarrow> run_context \<Rightarrow> string option \<times> run_context" where
  "run_config hosts logical cfg cx =
     run_loop hosts (cf_defaults cfg) (resolve_core_plan logical (cf_defaults cfg)) (filter sc_enabled (cf_scenarios cfg)) cx"

fun run_configs :: "(scenario \<Rightarrow> scenario_host) \<Rightarrow> nat \<Rightarrow> config list \<Rightarrow> run_context \<Rightarrow> string option \<times> run_context" where
  "run_configs hosts logical [] cx = (None, cx)"
| "run_configs hosts logical (cfg # cfgs) cx =
     (case run_config hosts logical cfg cx of
        (Some e, cx) \<Rightarrow> (Some e, cx)
      | (None, cx) \<Rightarrow> run_configs hosts logical cfgs cx)"

end
