(* ===== verification/Campaign_Runs.thy ===== *)
theory Campaign_Runs
  imports Campaign
begin

text \<open>
  What a campaign leaves in its result directory: the recording operations as an interface, its laws for what a
  scenario may touch and for the directories a run can leave behind, and resuming a campaign.
\<close>

section \<open>Relations kept by every recording operation\<close>

locale recording =
  fixes ok :: "disk \<Rightarrow> bool" and rel :: "string \<Rightarrow> tree \<Rightarrow> tree \<Rightarrow> bool"
  assumes rel_refl: "rel n t t"
    and rel_trans: "rel n t u \<Longrightarrow> rel n u v \<Longrightarrow> rel n t v"
    and rel_scenario: "ok disk \<Longrightarrow> record_scenario disk s p st a rd = (rd', b) \<Longrightarrow> rel (sc_name s) (rd_tree rd) (rd_tree rd')"
    and rel_skipped: "ok disk \<Longrightarrow> record_skipped disk n reason rd = (rd', b) \<Longrightarrow> rel n (rd_tree rd) (rd_tree rd')"
    and rel_streams: "ok disk \<Longrightarrow> record_stream_results disk n result rd = (rd', b) \<Longrightarrow> rel n (rd_tree rd) (rd_tree rd')"
    and rel_reload: "ok disk \<Longrightarrow> record_reload_artifact disk n artifact rd = (rd', b) \<Longrightarrow> rel n (rd_tree rd) (rd_tree rd')"
    and rel_metrics: "ok disk \<Longrightarrow> record_system_metrics disk tck n samples rd = (rd', b) \<Longrightarrow> rel n (rd_tree rd) (rd_tree rd')"
begin

lemma rel_save_samples:
  "ok (ho_disk h) \<Longrightarrow> save_samples h s samples rd = (rd', b) \<Longrightarrow> rel (sc_name s) (rd_tree rd) (rd_tree rd')"
  using rel_metrics rel_refl by (auto simp: save_samples_def split: option.splits)

lemma rel_close:
  "ok (ho_disk h) \<Longrightarrow> close_and_record h plan s p st art rd = (v, rd') \<Longrightarrow> rel (sc_name s) (rd_tree rd) (rd_tree rd')"
  using rel_scenario rel_refl by (auto simp: close_and_record_def split: option.splits prod.splits)

lemma rel_record_gateway:
  assumes "ok (ho_disk h)" "record_gateway h s d plan cores sys_rate p stats st = (v, rd', cache)"
  shows "rel (sc_name s) (rd_tree (fst st)) (rd_tree rd')"
proof -
  obtain rd1 b where saved: "save_samples h s (samples_of h sys_rate) (fst st) = (rd1, b)"
    by (cases "save_samples h s (samples_of h sys_rate) (fst st)")
  have "rel (sc_name s) (rd_tree rd1) (rd_tree rd')"
    using assms saved rel_refl
    by (auto simp: record_gateway_def Let_def split: if_splits prod.splits bool.splits sum.splits dest: rel_close [OF assms(1)])
  then show ?thesis using rel_save_samples [OF assms(1) saved] rel_trans by blast
qed

lemma rel_record_streams:
  assumes "ok (ho_disk h)" "record_streams h s d plan sys_rate cores r rd = (v, rd')"
  shows "rel (sc_name s) (rd_tree rd) (rd_tree rd')"
proof -
  obtain rd1 b where saved: "save_samples h s (samples_of h sys_rate) rd = (rd1, b)"
    by (cases "save_samples h s (samples_of h sys_rate) rd")
  obtain rd2 b2 where streams: "record_stream_results (ho_disk h) (sc_name s) r rd1 = (rd2, b2)"
    by (cases "record_stream_results (ho_disk h) (sc_name s) r rd1")
  have "rel (sc_name s) (rd_tree rd2) (rd_tree rd')"
    using assms saved streams rel_refl
    by (auto simp: record_streams_def Let_def split: if_splits prod.splits bool.splits option.splits dest: rel_close [OF assms(1)])
  then show ?thesis using rel_save_samples [OF assms(1) saved] rel_streams [OF assms(1) streams] rel_trans by blast
qed

lemma rel_record_reload:
  assumes "ok (ho_disk h)" "record_reload h s ev d plan sys_rate p stats done rd = (v, rd')"
  shows "rel (sc_name s) (rd_tree rd) (rd_tree rd')"
proof -
  let ?art = "\<lambda>eff. \<lparr>ar_cal = None, ar_sweep = None,
      ar_sys = Option.bind (samples_of h sys_rate) (aggregate (ho_clk_tck h)), ar_perf = perf_of h d, ar_mem_copies = None,
      ar_effective = Some eff, ar_loss_threshold_pct = df_loss_threshold_pct d\<rparr>"
  obtain rd1 b where saved: "save_samples h s (samples_of h sys_rate) rd = (rd1, b)"
    by (cases "save_samples h s (samples_of h sys_rate) rd")
  obtain v2 rd2 where close: "close_and_record h plan s p stats ?art rd1 = (v2, rd2)"
    by (cases "close_and_record h plan s p stats ?art rd1")
  have "rel (sc_name s) (rd_tree rd2) (rd_tree rd')"
    using assms saved close rel_refl
    by (cases v2) (auto simp: record_reload_def Let_def split: prod.splits dest: rel_reload [OF assms(1)])
  then show ?thesis using rel_save_samples [OF assms(1) saved] rel_close [OF assms(1) close] rel_trans by blast
qed

lemma rel_run_planned:
  assumes "ok (ho_disk h)" "run_planned h s d plan binary cores cx = (v, cx')"
  shows "rel (sc_name s) (rd_tree (cx_rdir cx)) (rd_tree (cx_rdir cx'))"
  using assms(2) rel_refl
  by (auto simp: run_planned_def run_multistream_scenario_def run_hotreload_scenario_def run_gateway_scenario_def Let_def
      split: if_splits prod.splits option.splits part.splits sum.splits
      dest: rel_record_gateway [OF assms(1)] rel_record_streams [OF assms(1)] rel_record_reload [OF assms(1)])

lemma rel_run_loopback:
  assumes "ok (ho_disk h)" "run_loopback h s d cores iface cx = (v, cx')"
  shows "rel (sc_name s) (rd_tree (cx_rdir cx)) (rd_tree (cx_rdir cx'))"
  using assms(2) rel_refl
  by (auto simp: run_loopback_def Let_def split: if_splits prod.splits bool.splits option.splits part.splits sum.splits
      dest: rel_scenario [OF assms(1)])

lemma rel_skip_scenario:
  "ok (ho_disk h) \<Longrightarrow> skip_scenario h s reason cx = (v, cx') \<Longrightarrow> rel (sc_name s) (rd_tree (cx_rdir cx)) (rd_tree (cx_rdir cx'))"
  by (auto simp: skip_scenario_def split: prod.splits bool.splits dest: rel_skipped)

lemma rel_run_one:
  assumes "ok (ho_disk h)" "run_one h d cores s cx = (r, cx')"
  shows "rel (sc_name s) (rd_tree (cx_rdir cx)) (rd_tree (cx_rdir cx'))"
proof -
  let ?cx = "cx\<lparr>cx_index := cx_index cx + 1\<rparr>"
  have skip: "skip_scenario h s reason cy = (r, cx') \<Longrightarrow> rel (sc_name s) (rd_tree (cx_rdir cy)) (rd_tree (cx_rdir cx'))" for reason cy
    using rel_skip_scenario [OF assms(1)] .
  show ?thesis
  proof (cases "scenario_recorded (rd_tree (cx_rdir cx)) (sc_name s)")
    case True
    then show ?thesis using assms(2) rel_refl by (auto simp: run_one_def Let_def)
  next
    case False
    show ?thesis
    proof (cases "unmet_requirements s (cx_host ?cx)")
      case (Some reason)
      then show ?thesis using assms(2) False skip [of reason ?cx] by (simp add: run_one_def Let_def)
    next
      case None
      note go = None
      show ?thesis
      proof (cases "loopback_transport s")
        case (Some iface)
        then show ?thesis using assms(2) False go rel_run_loopback [OF assms(1), of s d cores iface ?cx r cx'] by (simp add: run_one_def Let_def)
      next
        case None
        show ?thesis
        proof (cases "\<exists>plan binary. gateway_plan_for s = Some plan \<and> cx_gateway_binary cx = Some binary")
          case True
          then obtain plan binary where gw: "gateway_plan_for s = Some plan" "cx_gateway_binary cx = Some binary" by blast
          obtain v cy where ran: "run_planned h s d plan binary cores ?cx = (v, cy)"
            by (cases "run_planned h s d plan binary cores ?cx")
          note before = rel_run_planned [OF assms(1) ran]
          show ?thesis
          proof (cases v)
            case (Skipped reason)
            then have "skip_scenario h s reason cy = (r, cx')"
              using assms(2) False go None gw ran by (simp add: run_one_def Let_def)
            from skip [OF this] show ?thesis using before rel_trans by fastforce
          qed (use assms(2) False go None gw ran before in \<open>auto simp: run_one_def Let_def\<close>)
        next
          case False
          then obtain reason where "skip_scenario h s reason ?cx = (r, cx')"
            using assms(2) \<open>\<not> scenario_recorded _ _\<close> go None by (auto simp: run_one_def Let_def split: option.splits)
          from skip [OF this] show ?thesis by simp
        qed
      qed
    qed
  qed
qed

lemma rel_run_loop:
  assumes "\<And>s. s \<in> set ss \<Longrightarrow> ok (ho_disk (hosts s))" "run_loop hosts d cores ss cx = (r, cx')"
    and step: "\<And>s t u. s \<in> set ss \<Longrightarrow> rel (sc_name s) t u \<Longrightarrow> Q t u" and "\<And>t. Q t t" and "\<And>t u v. Q t u \<Longrightarrow> Q u v \<Longrightarrow> Q t v"
  shows "Q (rd_tree (cx_rdir cx)) (rd_tree (cx_rdir cx'))"
  using assms(1-3)
proof (induction ss arbitrary: cx)
  case Nil
  then show ?case using assms(4) by simp
next
  case (Cons s ss)
  obtain r1 cx1 where one: "run_one (hosts s) d cores s cx = (r1, cx1)" by (cases "run_one (hosts s) d cores s cx")
  have "Q (rd_tree (cx_rdir cx)) (rd_tree (cx_rdir cx1))" by (meson Cons.prems(1,3) list.set_intros(1) one rel_run_one)
  moreover have "Q (rd_tree (cx_rdir cx1)) (rd_tree (cx_rdir cx'))"
    using Cons.prems Cons.IH [of cx1] one assms(4) by (cases r1) auto
  ultimately show ?case by (rule assms(5))
qed

end

section \<open>What a scenario touches\<close>

text \<open>Only files of its own directory, of which none disappears.\<close>

definition touches :: "string \<Rightarrow> tree \<Rightarrow> tree \<Rightarrow> bool" where
  "touches n t u =
     ((\<forall>d. d \<noteq> sanitize n \<longrightarrow> tr_files u d = tr_files t d)
      \<and> (\<forall>f. tr_files t (sanitize n) f \<noteq> None \<longrightarrow> tr_files u (sanitize n) f \<noteq> None))"

lemma write_files_keep: "tr_files t d' f \<noteq> None \<Longrightarrow> tr_files (fst (write_files disk d ws t)) d' f \<noteq> None"
proof (induction ws arbitrary: t)
  case (Cons w ws)
  have keep: "tr_files (fst (write_file disk d (fst w) (snd w) t)) d' f \<noteq> None"
    using Cons.prems by (auto simp: write_file_def split: write_answer.split)
  obtain t' b where "write_file disk d (fst w) (snd w) t = (t', b)" by (cases "write_file disk d (fst w) (snd w) t")
  then show ?case using Cons.IH [of t'] keep by (cases w; cases b) auto
qed simp

lemma touches_write_files: "touches n t (fst (write_files disk (sanitize n) ws (make_dir (sanitize n) t)))"
  using write_files_other [of _ "sanitize n" _ ws disk "make_dir (sanitize n) t"]
    write_files_keep [of "make_dir (sanitize n) t" "sanitize n" _ disk "sanitize n" ws]
  by (auto simp: touches_def fun_eq_iff)

lemma touches_record_files: "record_files disk n ws rd = (rd', b) \<Longrightarrow> touches n (rd_tree rd) (rd_tree rd')"
  using touches_write_files record_trees(2) by (metis fst_conv)

lemmas record_defs = record_skipped_def record_stream_results_def record_reload_artifact_def record_system_metrics_def

interpretation kept: recording "\<lambda>_. True" touches
proof
  show "touches n t t" for n t by (simp add: touches_def)
  show "touches n t v" if "touches n t u" "touches n u v" for n t u v using that by (auto simp: touches_def)
  show "touches (sc_name s) (rd_tree rd) (rd_tree rd')" if "record_scenario disk s p st a rd = (rd', b)" for disk s p st a rd rd' b
    using touches_write_files record_trees(1) that by (metis fst_conv)
qed (auto simp: record_defs touches_def [of _ t t for t] intro: touches_record_files split: if_splits)

text \<open>And on a disk that writes rows whole, a reachable directory becomes a reachable directory.\<close>

interpretation orderly: recording rows_whole "\<lambda>n t u. reachable t \<longrightarrow> reachable u"
proof
  show "reachable (rd_tree rd) \<longrightarrow> reachable (rd_tree rd')"
    if "rows_whole disk" "record_scenario disk s p st a rd = (rd', b)" for disk s p st a rd rd' b
    using reachable.scenario [of "rd_tree rd" disk rd s p st a] that by simp
  show "reachable (rd_tree rd) \<longrightarrow> reachable (rd_tree rd')"
    if "record_skipped disk n reason rd = (rd', b)" for disk n reason rd rd' b
    using reachable.skipped [of "rd_tree rd" rd disk n reason] that by simp
  show "reachable (rd_tree rd) \<longrightarrow> reachable (rd_tree rd')"
    if "record_stream_results disk n result rd = (rd', b)" for disk n result rd rd' b
    using reachable.streams [of "rd_tree rd" rd disk n result] that by simp
  show "reachable (rd_tree rd) \<longrightarrow> reachable (rd_tree rd')"
    if "record_reload_artifact disk n artifact rd = (rd', b)" for disk n artifact rd rd' b
    using reachable.reload [of "rd_tree rd" rd disk n artifact] that by simp
  show "reachable (rd_tree rd) \<longrightarrow> reachable (rd_tree rd')"
    if "record_system_metrics disk tck n samples rd = (rd', b)" for disk tck n samples rd rd' b
    using reachable.metrics [of "rd_tree rd" rd disk tck n samples] that by simp
qed auto

section \<open>What is recorded\<close>

lemma touches_recorded: "touches n t u \<Longrightarrow> scenario_recorded t m \<Longrightarrow> scenario_recorded u m"
  by (cases "sanitize m = sanitize n") (auto simp: touches_def scenario_recorded_def)

lemma write_files_done: "write_files disk d ws t = (u, True) \<Longrightarrow> f \<in> fst ` set ws \<Longrightarrow> tr_files u d f \<noteq> None"
proof (induction ws arbitrary: t)
  case (Cons w ws)
  obtain g x where w: "w = (g, x)" by (cases w)
  obtain t' where first: "write_file disk d g x t = (t', True)" and rest: "write_files disk d ws t' = (u, True)"
    using Cons.prems(1) w by (auto split: prod.splits bool.splits)
  show ?case
  proof (cases "f = g")
    case True
    have "tr_files t' d g \<noteq> None" using first by (auto simp: write_file_def split: write_answer.splits)
    then show ?thesis using write_files_keep [of t' d g disk d ws] rest True by simp
  next
    case False
    then show ?thesis using Cons.IH [OF rest] Cons.prems(2) w by auto
  qed
qed simp

lemma recorded_writes:
  assumes "write_files disk (sanitize n) ws t = (u, True)" "f \<in> fst ` set ws"
    and "f \<in> {''summary.csv'', ''skip.csv'', ''stream_summary.csv'', ''hotreload.csv''}"
  shows "scenario_recorded u n"
  using write_files_done [OF assms(1,2)] assms(3) by (auto simp: scenario_recorded_def)

lemma recorded_scenario:
  assumes "record_scenario disk s p st a rd = (rd', True)"
  shows "scenario_recorded (rd_tree rd') (sc_name s)"
proof -
  obtain t where w: "write_files disk (sanitize (sc_name s)) (scenario_files s p st a) (make_dir (sanitize (sc_name s)) (rd_tree rd)) = (t, True)"
      and t: "rd_tree rd' = t"
    using assms unfolding record_scenario_def Let_def by (auto split: prod.splits bool.splits)
  show ?thesis unfolding t by (rule recorded_writes [OF w, of "''summary.csv''"]) (simp_all add: scenario_files_def)
qed

lemma recorded_skip:
  assumes "record_skipped disk n reason rd = (rd', True)"
  shows "scenario_recorded (rd_tree rd') n"
proof -
  obtain t where w: "write_files disk (sanitize n) (skip_files n reason) (make_dir (sanitize n) (rd_tree rd)) = (t, True)" and t: "rd_tree rd' = t"
    using assms unfolding record_skipped_def record_files_def Let_def by (auto split: prod.splits)
  show ?thesis unfolding t by (rule recorded_writes [OF w, of "''skip.csv''"]) (simp_all add: skip_files_def)
qed

lemma recorded_close:
  "close_and_record h plan s p st art rd = (Recorded, rd') \<Longrightarrow> scenario_recorded (rd_tree rd') (sc_name s)"
  by (auto simp: close_and_record_def split: option.splits prod.splits if_splits dest: recorded_scenario)

lemma recorded_reload:
  "record_reload h s ev d plan sys_rate p stats done rd = (Recorded, rd') \<Longrightarrow> scenario_recorded (rd_tree rd') (sc_name s)"
  by (auto simp: record_reload_def Let_def split: prod.splits scenario_verdict.splits if_splits dest!: recorded_close
      dest: touches_recorded [OF kept.rel_reload [OF TrueI]])

lemma recorded_planned:
  assumes "run_planned h s d plan binary cores cx = (Recorded, cx')"
  shows "scenario_recorded (rd_tree (cx_rdir cx')) (sc_name s)"
  using assms
  by (auto simp: run_planned_def run_multistream_scenario_def run_hotreload_scenario_def run_gateway_scenario_def
      record_gateway_def record_streams_def shutdown_then_skip_def Let_def
      split: if_splits prod.splits option.splits part.splits sum.splits bool.splits dest: recorded_close recorded_reload)

lemma recorded_loopback:
  assumes "loopback_transport s = Some iface" "run_loopback h s d cores iface cx = (None, cx')"
  shows "scenario_recorded (rd_tree (cx_rdir cx')) (sc_name s)"
  using assms(2)
  by (auto simp: run_loopback_def Let_def split: if_splits prod.splits bool.splits option.splits part.splits sum.splits
      dest: recorded_scenario)

lemma recorded_skip_scenario:
  "skip_scenario h s reason cx = (None, cx') \<Longrightarrow> scenario_recorded (rd_tree (cx_rdir cx')) (sc_name s)"
  by (auto simp: skip_scenario_def split: prod.splits bool.splits dest: recorded_skip)

lemma recorded_one:
  assumes "run_one h d cores s cx = (None, cx')"
  shows "scenario_recorded (rd_tree (cx_rdir cx')) (sc_name s)"
  using assms
  by (auto simp: run_one_def Let_def split: if_splits option.splits prod.splits scenario_verdict.splits
      dest: recorded_skip_scenario recorded_loopback recorded_planned)

lemma write_file_all: "write_file all_written d f x t = (put_file d f x t, True)"
  by (simp add: write_file_def all_written_def)

section \<open>The whole campaign\<close>

text \<open>The loop goes through the scenarios it could not have recorded before.\<close>

lemma untouched_one:
  assumes "run_one h d cores s cx = (r, cx')" "scenario_recorded (rd_tree (cx_rdir cx)) n"
  shows "tr_files (rd_tree (cx_rdir cx')) (sanitize n) = tr_files (rd_tree (cx_rdir cx)) (sanitize n)"
proof (cases "sanitize n = sanitize (sc_name s)")
  case True
  then have "scenario_recorded (rd_tree (cx_rdir cx)) (sc_name s)" using assms(2) by (simp add: scenario_recorded_def)
  then show ?thesis using assms(1) by (auto simp: run_one_def Let_def)
next
  case False
  then show ?thesis using kept.rel_run_one [OF TrueI assms(1)] by (simp add: touches_def)
qed

lemma recorded_grows:
  "run_one h d cores s cx = (r, cx') \<Longrightarrow> scenario_recorded (rd_tree (cx_rdir cx)) n \<Longrightarrow> scenario_recorded (rd_tree (cx_rdir cx')) n"
  using kept.rel_run_one [OF TrueI] touches_recorded by blast

lemma untouched_loop:
  assumes "run_loop hosts d cores ss cx = (r, cx')" "scenario_recorded (rd_tree (cx_rdir cx)) n"
  shows "tr_files (rd_tree (cx_rdir cx')) (sanitize n) = tr_files (rd_tree (cx_rdir cx)) (sanitize n)"
  using assms
proof (induction ss arbitrary: cx)
  case (Cons s ss)
  obtain r1 cx1 where one: "run_one (hosts s) d cores s cx = (r1, cx1)" by (cases "run_one (hosts s) d cores s cx")
  show ?case
    using Cons.IH [of cx1] Cons.prems untouched_one [OF one] recorded_grows [OF one] one by (cases r1) auto
qed simp

lemma recorded_loop_grows:
  "run_loop hosts d cores ss cx = (r, cx') \<Longrightarrow> scenario_recorded (rd_tree (cx_rdir cx)) n
   \<Longrightarrow> scenario_recorded (rd_tree (cx_rdir cx')) n"
  using untouched_loop by (fastforce simp: scenario_recorded_def)

lemma recorded_loop:
  assumes "run_loop hosts d cores ss cx = (None, cx')" "s \<in> set ss"
  shows "scenario_recorded (rd_tree (cx_rdir cx')) (sc_name s)"
  using assms
proof (induction ss arbitrary: cx)
  case (Cons s' ss)
  obtain r1 cx1 where one: "run_one (hosts s') d cores s' cx = (r1, cx1)" by (cases "run_one (hosts s') d cores s' cx")
  then have rest: "r1 = None" "run_loop hosts d cores ss cx1 = (None, cx')" using Cons.prems(1) by (cases r1; simp)+
  have "scenario_recorded (rd_tree (cx_rdir cx')) (sc_name s')"
    using recorded_one one rest recorded_loop_grows by blast
  then show ?case using Cons.IH [OF rest(2)] Cons.prems(2) by auto
qed simp

lemma loop_of_recorded:
  "(\<And>s. s \<in> set ss \<Longrightarrow> scenario_recorded (rd_tree (cx_rdir cx)) (sc_name s))
   \<Longrightarrow> run_loop hosts d cores ss cx = (None, cx\<lparr>cx_index := cx_index cx + length ss\<rparr>)"
  by (induction ss arbitrary: cx) (auto simp: run_one_def Let_def)

text \<open>The scenarios of a list of configurations, and the same facts over all of them.\<close>

definition enabled_scenarios :: "config list \<Rightarrow> scenario list" where
  "enabled_scenarios cfgs = concat (map (\<lambda>cfg. filter sc_enabled (cf_scenarios cfg)) cfgs)"

lemma run_configs_untouched:
  assumes "run_configs hosts logical cfgs cx = (r, cx')" "scenario_recorded (rd_tree (cx_rdir cx)) n"
  shows "tr_files (rd_tree (cx_rdir cx')) (sanitize n) = tr_files (rd_tree (cx_rdir cx)) (sanitize n)"
  using assms
proof (induction cfgs arbitrary: cx)
  case (Cons cfg cfgs)
  obtain r1 cx1 where one: "run_config hosts logical cfg cx = (r1, cx1)" by (cases "run_config hosts logical cfg cx")
  then have loop: "run_loop hosts (cf_defaults cfg) (resolve_core_plan logical (cf_defaults cfg)) (filter sc_enabled (cf_scenarios cfg)) cx
      = (r1, cx1)" by (simp add: run_config_def)
  show ?case
    using Cons.IH [of cx1] Cons.prems untouched_loop [OF loop] recorded_loop_grows [OF loop] one by (cases r1) auto
qed simp

lemma run_configs_recorded:
  assumes "run_configs hosts logical cfgs cx = (None, cx')" "s \<in> set (enabled_scenarios cfgs)"
  shows "scenario_recorded (rd_tree (cx_rdir cx')) (sc_name s)"
  using assms
proof (induction cfgs arbitrary: cx)
  case (Cons cfg cfgs)
  obtain r1 cx1 where one: "run_config hosts logical cfg cx = (r1, cx1)" by (cases "run_config hosts logical cfg cx")
  then have rest: "r1 = None" "run_configs hosts logical cfgs cx1 = (None, cx')" using Cons.prems(1) by (cases r1; simp)+
  show ?case
  proof (cases "s \<in> set (enabled_scenarios cfgs)")
    case True
    then show ?thesis using Cons.IH [OF rest(2)] by simp
  next
    case False
    then have "s \<in> set (filter sc_enabled (cf_scenarios cfg))" using Cons.prems(2) by (auto simp: enabled_scenarios_def)
    then have "scenario_recorded (rd_tree (cx_rdir cx1)) (sc_name s)"
      using one rest(1) recorded_loop unfolding run_config_def by blast
    then show ?thesis using run_configs_untouched [OF rest(2)] by (simp add: scenario_recorded_def)
  qed
qed (simp add: enabled_scenarios_def)

lemma run_configs_of_recorded:
  "(\<And>s. s \<in> set (enabled_scenarios cfgs) \<Longrightarrow> scenario_recorded (rd_tree (cx_rdir cx)) (sc_name s))
   \<Longrightarrow> run_configs hosts logical cfgs cx = (None, cx\<lparr>cx_index := cx_index cx + length (enabled_scenarios cfgs)\<rparr>)"
proof (induction cfgs arbitrary: cx)
  case (Cons cfg cfgs)
  have "run_config hosts logical cfg cx
      = (None, cx\<lparr>cx_index := cx_index cx + length (filter sc_enabled (cf_scenarios cfg))\<rparr>)"
    unfolding run_config_def using Cons.prems by (intro loop_of_recorded) (auto simp: enabled_scenarios_def)
  then show ?case using Cons by (simp add: enabled_scenarios_def add.assoc)
qed (simp add: enabled_scenarios_def)

lemma run_configs_reachable:
  assumes "run_configs hosts logical cfgs cx = (r, cx')" "\<And>s. rows_whole (ho_disk (hosts s))"
  shows "reachable (rd_tree (cx_rdir cx)) \<Longrightarrow> reachable (rd_tree (cx_rdir cx'))"
  using assms(1)
proof (induction cfgs arbitrary: cx)
  case (Cons cfg cfgs)
  obtain r1 cx1 where one: "run_config hosts logical cfg cx = (r1, cx1)" by (cases "run_config hosts logical cfg cx")
  have "reachable (rd_tree (cx_rdir cx)) \<longrightarrow> reachable (rd_tree (cx_rdir cx1))"
    by (rule orderly.rel_run_loop [OF _ one [unfolded run_config_def], of "\<lambda>t u. reachable t \<longrightarrow> reachable u"]) (use assms(2) in auto)
  then show ?case using Cons.IH [of cx1] Cons.prems one by (cases r1) auto
qed simp


text \<open>A scenario without a path, recorded as skipped on any host that can write.\<close>

definition sample_campaign :: "scenario_host \<Rightarrow> config \<Rightarrow> run_context \<Rightarrow> string option \<times> run_context" where
  "sample_campaign h cfg cx =
     run_configs (\<lambda>_. h\<lparr>ho_disk := all_written\<rparr>) 4 [cfg\<lparr>cf_scenarios := [sample_scenario]\<rparr>] (cx\<lparr>cx_rdir := empty_result\<rparr>)"

lemma sample_campaign_ends: "fst (sample_campaign h cfg cx) = None"
  by (simp add: sample_campaign_def run_config_def run_one_def Let_def skip_scenario_def record_skipped_def record_files_def
      skip_files_def write_file_all sample_scenario_def unmet_requirements_def missing_requirements_def protocol_default_def
      loopback_transport_def gateway_plan_for_def scenario_recorded_def empty_result_def empty_tree_def)




section \<open>Interrupted and refused scenarios\<close>

text \<open>A multi-stream scenario cut off after its stream tables passes for recorded, with no row in either consolidated table.\<close>

lemma stream_cut_recorded:
  "scenario_recorded (rd_tree (fst (record_stream_results all_written n r empty_result))) n
   \<and> summary_entry (tr_files (rd_tree (fst (record_stream_results all_written n r empty_result))) (sanitize n)) = None
   \<and> skip_entry (tr_files (rd_tree (fst (record_stream_results all_written n r empty_result))) (sanitize n)) = None"
  by (simp add: record_stream_results_def record_trees write_file_all stream_files_def scenario_recorded_def
      summary_entry_def skip_entry_def empty_result_def empty_tree_def)

text \<open>A security specification that cannot be built skips a scenario with one sender, and ends the campaign of one with streams.\<close>

lemma spec_failure_single:
  assumes "fst (build_security_spec (ho_pki h) plan s (work_dir (rd_root (fst st)) s)) = Inl e"
    and "ho_mkdir h (work_dir (rd_root (fst st)) s) = None" "provision_part h s = Go ()" "impair_part h s = Go ()"
    and "sc_mode s \<noteq> Pingpong"
  shows "run_gateway_scenario h s d plan binary sys_rate cores rate st = (Skipped (''security spec build failed: '' @ e), st)"
  using assms by (simp add: run_gateway_scenario_def open_gateway_def mkdir_part_def spec_part_def Let_def)

lemma spec_failure_streams:
  assumes "fst (build_multistream_spec (ho_pki h) plan s (work_dir (rd_root rd) s)) = Inl e"
    and "ho_mkdir h (work_dir (rd_root rd) s) = None" "stream_class_list (sc_streams s) = Inr classes"
    and "\<not> is_dtls (gp_security plan)" "gp_security plan \<noteq> SecRoutingUdp"
  shows "run_multistream_scenario h s d plan binary sys_rate cores rd = (Aborted e, rd)"
  using assms by (simp add: run_multistream_scenario_def open_streams_def mkdir_part_def Let_def)

end
