(* ===== verification/Overview.thy ===== *)
theory Overview
  imports Result_Tree
begin

text \<open>
  The performance overview of \<open>src/src/report/overview.rs\<close>: reading the consolidated \<open>summary.csv\<close> back and
  rendering its tables, the ranking and the statistics. Text is UTF-8 bytes, the box-drawing characters are written
  out, and a width counts characters. Reading and writing the two files is I/O.
\<close>

section \<open>Characters\<close>

definition DOUBLE :: string where "DOUBLE = [CHR 0xE2, CHR 0x95, CHR 0x90]"
definition BAR :: string where "BAR = [CHR 0xE2, CHR 0x94, CHR 0x82]"
definition RULE :: string where "RULE = [CHR 0xE2, CHR 0x94, CHR 0x80]"

definition glyph :: "char \<Rightarrow> string" where "glyph c = [CHR 0xE2, CHR 0x94, c]"

definition PLUS_MINUS :: string where "PLUS_MINUS = [CHR 0xC2, CHR 0xB1]"
definition TIMES_SIGN :: string where "TIMES_SIGN = [CHR 0xC3, CHR 0x97]"
definition DAGGER :: string where "DAGGER = [CHR 0xE2, CHR 0x80, CHR 0xA0]"

text \<open>\<open>chars().count()\<close>: the bytes that do not continue a character.\<close>

definition continuation :: "char \<Rightarrow> bool" where
  "continuation c = (128 \<le> ascii c \<and> ascii c < 192)"

definition char_count :: "string \<Rightarrow> nat" where
  "char_count s = length (filter (\<lambda>c. \<not> continuation c) s)"

definition pad_end :: "nat \<Rightarrow> string \<Rightarrow> string" where
  "pad_end w s = s @ replicate (w - char_count s) (CHR '' '')"

definition pad_start :: "nat \<Rightarrow> string \<Rightarrow> string" where
  "pad_start w s = replicate (w - char_count s) (CHR '' '') @ s"

section \<open>Reading the summary\<close>

text \<open>A record split at its commas, where quotes toggle.\<close>

function record_scan :: "bool \<Rightarrow> string \<Rightarrow> string list \<Rightarrow> string \<Rightarrow> string list" where
  "record_scan q field out [] = out @ [field]"
| "record_scan True field out (c # s) =
     (if c = DQUOTE
      then (if s \<noteq> [] \<and> hd s = DQUOTE then record_scan True (field @ [DQUOTE]) out (tl s) else record_scan False field out s)
      else record_scan True (field @ [c]) out s)"
| "record_scan False field out (c # s) =
     (if c = DQUOTE then record_scan True field out s
      else if c = CHR '','' then record_scan False [] (out @ [field]) s
      else record_scan False (field @ [c]) out s)"
  by pat_completeness auto

termination by (relation "measure (\<lambda>(q, field, out, s). length s)") auto

definition parse_record :: "string \<Rightarrow> string list" where
  "parse_record line = record_scan False [] [] line"

record overview_row =
  ov_scenario :: string
  ov_transport :: string
  ov_protocol :: string
  ov_effective_protocol :: string
  ov_message_bytes :: string
  ov_connections :: string
  ov_throughput_mean :: f64
  ov_throughput_ci95 :: f64
  ov_latency_mean_us :: f64
  ov_latency_p99_us :: f64
  ov_loss_pct :: f64
  ov_headroom :: f64
  ov_harness_limited :: bool
  ov_bottleneck :: string
  ov_saturation_gbps :: f64
  ov_max_lossfree_gbps :: f64
  ov_rtt_mean_us :: f64
  ov_rtt_p50_us :: f64
  ov_rtt_p99_us :: f64
  ov_conns_per_sec :: f64
  ov_handshake_p50_us :: f64
  ov_handshake_p99_us :: f64

definition shown_protocol :: "overview_row \<Rightarrow> string" where
  "shown_protocol r = (if ov_effective_protocol r = [] then ov_protocol r else ov_effective_protocol r)"

definition is_special :: "string \<Rightarrow> bool" where
  "is_special name = (starts_with name ''lat_'' \<or> starts_with name ''pp_'' \<or> starts_with name ''conn_'')"

text \<open>The cell under a header; of two columns of one name the later counts.\<close>

definition overview_cell :: "string list \<Rightarrow> string list \<Rightarrow> string \<Rightarrow> string option" where
  "overview_cell header f name =
     (case map_of (rev (zip header [0..<length header])) name of
        None \<Rightarrow> None | Some i \<Rightarrow> if i < length f then Some (f ! i) else None)"

definition cell_text :: "string list \<Rightarrow> string list \<Rightarrow> string \<Rightarrow> string" where
  "cell_text header f name = (case overview_cell header f name of Some v \<Rightarrow> v | None \<Rightarrow> [])"

definition cell_num :: "string list \<Rightarrow> string list \<Rightarrow> string \<Rightarrow> f64" where
  "cell_num header f name = (case Option.bind (overview_cell header f name) parse_f64 of Some x \<Rightarrow> x | None \<Rightarrow> 0)"

definition cell_flag :: "string list \<Rightarrow> string list \<Rightarrow> string \<Rightarrow> bool" where
  "cell_flag header f name = (case overview_cell header f name of Some v \<Rightarrow> v = ''true'' | None \<Rightarrow> False)"

definition overview_row_of :: "string list \<Rightarrow> string list \<Rightarrow> overview_row" where
  "overview_row_of header f =
     \<lparr>ov_scenario = cell_text header f ''scenario'', ov_transport = cell_text header f ''transport'',
      ov_protocol = cell_text header f ''protocol'', ov_effective_protocol = cell_text header f ''effective_protocol'',
      ov_message_bytes = cell_text header f ''message_bytes'', ov_connections = cell_text header f ''connections'',
      ov_throughput_mean = cell_num header f ''throughput_gbps_mean'', ov_throughput_ci95 = cell_num header f ''throughput_gbps_ci95'',
      ov_latency_mean_us = cell_num header f ''latency_mean_us'', ov_latency_p99_us = cell_num header f ''latency_p99_us_mean'',
      ov_loss_pct = cell_num header f ''loss_pct'', ov_headroom = cell_num header f ''headroom'',
      ov_harness_limited = cell_flag header f ''harness_limited'', ov_bottleneck = cell_text header f ''bottleneck'',
      ov_saturation_gbps = cell_num header f ''saturation_gbps'', ov_max_lossfree_gbps = cell_num header f ''max_lossfree_gbps'',
      ov_rtt_mean_us = cell_num header f ''rtt_us_mean'', ov_rtt_p50_us = cell_num header f ''rtt_us_p50'',
      ov_rtt_p99_us = cell_num header f ''rtt_us_p99'', ov_conns_per_sec = cell_num header f ''conns_per_sec'',
      ov_handshake_p50_us = cell_num header f ''conn_handshake_p50_us'',
      ov_handshake_p99_us = cell_num header f ''conn_handshake_p99_us''\<rparr>"

definition summary_lines :: "string \<Rightarrow> string list" where
  "summary_lines text = filter (\<lambda>l. l \<noteq> []) (map (\<lambda>l. rev (dropWhile (\<lambda>c. c = CR) (rev l))) (split_on LF text))"

definition parse_summary :: "string \<Rightarrow> overview_row list" where
  "parse_summary text =
     (case summary_lines text of
        [] \<Rightarrow> []
      | h # ls \<Rightarrow> map (\<lambda>l. overview_row_of (parse_record h) (parse_record l)) ls)"

section \<open>Plain text\<close>

definition WIDTH :: nat where "WIDTH = 72"

definition ov_section :: "string \<Rightarrow> string" where
  "ov_section title =
     (let head = DOUBLE @ DOUBLE @ DOUBLE @ '' '' @ title @ '' '' in
      head @ concat (replicate (WIDTH - char_count head) DOUBLE) @ [LF])"

definition ov_kv :: "string \<Rightarrow> string \<Rightarrow> string" where
  "ov_kv label value = ''  '' @ pad_end 18 label @ '': '' @ value @ [LF]"

definition ov_border :: "nat list \<Rightarrow> char \<Rightarrow> char \<Rightarrow> char \<Rightarrow> string" where
  "ov_border widths left mid right =
     '' '' @ glyph left @ join_with (glyph mid) (map (\<lambda>w. concat (replicate (w + 2) RULE)) widths) @ glyph right @ [LF]"

definition column_widths :: "string list \<Rightarrow> string list list \<Rightarrow> nat list" where
  "column_widths headers rows =
     map (\<lambda>i. fold (\<lambda>row w. if i < length row then max w (char_count (row ! i)) else w) rows (char_count (headers ! i)))
       [0..<length headers]"

datatype align = LeftAlign | RightAlign

text \<open>A line of cells; surplus cells are dropped, a column without an alignment is to the left.\<close>

definition table_line :: "nat list \<Rightarrow> align list \<Rightarrow> string list \<Rightarrow> string" where
  "table_line widths aligns row =
     '' '' @ BAR @ concat (map (\<lambda>(i, w, cell).
         '' '' @ (if i < length aligns \<and> aligns ! i = RightAlign then pad_start w cell else pad_end w cell) @ '' '' @ BAR)
       (enumerate 0 (zip widths row))) @ [LF]"

definition table_lines :: "string list \<Rightarrow> string list list \<Rightarrow> align list \<Rightarrow> string list" where
  "table_lines headers rows aligns =
     (let widths = column_widths headers rows in
      [ov_border widths (CHR 0x8C) (CHR 0xAC) (CHR 0x90), table_line widths [] headers,
       ov_border widths (CHR 0x9C) (CHR 0xBC) (CHR 0xA4)]
      @ map (table_line widths aligns) rows @ [ov_border widths (CHR 0x94) (CHR 0xB4) (CHR 0x98)])"

definition ov_table :: "string list \<Rightarrow> string list list \<Rightarrow> align list \<Rightarrow> string" where
  "ov_table headers rows aligns = (if headers = [] then [] else concat (table_lines headers rows aligns))"

section \<open>The tables\<close>

text \<open>\<open>sort_by\<close> on \<open>total_cmp\<close>, from the largest, equal ones in their order.\<close>

definition by_throughput :: "overview_row list \<Rightarrow> overview_row list" where
  "by_throughput rows = rev (sort_key ov_throughput_mean (rev rows))"

definition throughput_rows :: "overview_row list \<Rightarrow> overview_row list" where
  "throughput_rows rows =
     by_throughput (filter (\<lambda>r. flt (Fin (1 / 10)) (ov_throughput_mean r) \<and> \<not> is_special (ov_scenario r)) rows)"

definition throughput_cell :: "overview_row \<Rightarrow> string" where
  "throughput_cell r =
     fmt_f64 3 (ov_throughput_mean r) @ '' '' @ PLUS_MINUS @ '' '' @ fmt_f64 3 (ov_throughput_ci95 r)
     @ (if ov_bottleneck r = ''host-saturated'' then '' '' @ DAGGER else if ov_harness_limited r then '' *'' else [])"

definition US :: string where "US = MICRO @ ''s''"

definition ov_throughput :: "overview_row list \<Rightarrow> string" where
  "ov_throughput rows =
     (let thr = throughput_rows rows in
      if thr = [] then []
      else ov_section ''Throughput''
        @ ov_table [''Scenario'', ''Transport'', ''Protocol'', ''Bytes'', ''Conns'', ''Throughput Gbit/s'', ''p99 '' @ US, ''Loss %'', ''Headroom'']
            (map (\<lambda>r. [ov_scenario r, ov_transport r, shown_protocol r, ov_message_bytes r, ov_connections r, throughput_cell r,
                       fmt_f64 1 (ov_latency_p99_us r), fmt_f64 3 (ov_loss_pct r),
                       if flt 0 (ov_headroom r) then fmt_f64 1 (ov_headroom r) @ TIMES_SIGN else ''-'']) thr)
            (replicate 3 LeftAlign @ replicate 6 RightAlign)
        @ (if list_ex ov_harness_limited thr
           then ''  * harness-limited (<3'' @ TIMES_SIGN @ '' headroom): a lower bound, not the DUT'' @ [CHR 0x27] @ ''s capacity.'' @ [LF] else [])
        @ [LF])"

text \<open>A section with one table, left out when it has no rows.\<close>

definition ov_rows :: "string \<Rightarrow> string list \<Rightarrow> align list \<Rightarrow> (overview_row \<Rightarrow> string list) \<Rightarrow> overview_row list \<Rightarrow> string" where
  "ov_rows title headers aligns cells rows =
     (if rows = [] then [] else ov_section title @ ov_table headers (map cells rows) aligns @ [LF])"

definition ov_latency :: "overview_row list \<Rightarrow> string" where
  "ov_latency rows =
     ov_rows ''One-Way Latency'' [''Scenario'', ''Transport'', ''Protocol'', ''Mean '' @ US, ''p99 '' @ US, ''Loss %'']
       (replicate 3 LeftAlign @ replicate 3 RightAlign)
       (\<lambda>r. [ov_scenario r, ov_transport r, shown_protocol r, fmt_f64 1 (ov_latency_mean_us r), fmt_f64 1 (ov_latency_p99_us r),
             fmt_f64 3 (ov_loss_pct r)])
       (filter (\<lambda>r. starts_with (ov_scenario r) ''lat_'') rows)"

definition ov_roundtrip :: "overview_row list \<Rightarrow> string" where
  "ov_roundtrip rows =
     ov_rows ''Round-Trip Time'' [''Scenario'', ''Transport'', ''Protocol'', ''Mean '' @ US, ''p50 '' @ US, ''p99 '' @ US]
       (replicate 3 LeftAlign @ replicate 3 RightAlign)
       (\<lambda>r. [ov_scenario r, ov_transport r, shown_protocol r, fmt_f64 1 (ov_rtt_mean_us r), fmt_f64 1 (ov_rtt_p50_us r),
             fmt_f64 1 (ov_rtt_p99_us r)])
       (filter (\<lambda>r. starts_with (ov_scenario r) ''pp_'') rows)"

definition ov_saturation :: "overview_row list \<Rightarrow> string" where
  "ov_saturation rows =
     ov_rows ''Saturation Sweep'' [''Scenario'', ''Transport'', ''Ceiling Gbit/s'', ''Loss-free Gbit/s'']
       (replicate 2 LeftAlign @ replicate 2 RightAlign)
       (\<lambda>r. [ov_scenario r, ov_transport r, fmt_f64 3 (ov_saturation_gbps r), fmt_f64 3 (ov_max_lossfree_gbps r)])
       (filter (\<lambda>r. flt 0 (ov_saturation_gbps r)) rows)"

definition ov_connrate :: "overview_row list \<Rightarrow> string" where
  "ov_connrate rows =
     ov_rows ''Connection Rate'' [''Scenario'', ''Transport'', ''Protocol'', ''Conn/s'', ''hs p50 '' @ US, ''hs p99 '' @ US]
       (replicate 3 LeftAlign @ replicate 3 RightAlign)
       (\<lambda>r. [ov_scenario r, ov_transport r, shown_protocol r, fmt_f64 0 (ov_conns_per_sec r), fmt_f64 1 (ov_handshake_p50_us r),
             fmt_f64 1 (ov_handshake_p99_us r)])
       (filter (\<lambda>r. starts_with (ov_scenario r) ''conn_'' \<or> flt 0 (ov_conns_per_sec r)) rows)"

definition bandwidth_rows :: "overview_row list \<Rightarrow> overview_row list" where
  "bandwidth_rows rows = filter (\<lambda>r. flt 0 (ov_throughput_mean r) \<and> \<not> is_special (ov_scenario r)) rows"

definition leaderboard :: "overview_row list \<Rightarrow> overview_row list" where
  "leaderboard rows = by_throughput (bandwidth_rows rows)"

definition ov_leaderboard :: "overview_row list \<Rightarrow> string" where
  "ov_leaderboard rows =
     (let board = leaderboard rows in
      if board = [] then []
      else ov_section ''Throughput Leaderboard''
        @ ov_table [''Rank'', ''Scenario'', ''Protocol'', ''Throughput Gbit/s'']
            (map (\<lambda>(i, r). [show_nat (i + 1), ov_scenario r, shown_protocol r, fmt_f64 3 (ov_throughput_mean r)]) (enumerate 0 board))
            [RightAlign, LeftAlign, LeftAlign, RightAlign]
        @ [LF])"

definition best_row :: "overview_row list \<Rightarrow> overview_row option" where
  "best_row rows = max_by ov_throughput_mean (bandwidth_rows rows)"

definition worst_row :: "overview_row list \<Rightarrow> overview_row option" where
  "worst_row rows = min_by ov_throughput_mean (bandwidth_rows rows)"

definition mean_throughput :: "overview_row list \<Rightarrow> f64" where
  "mean_throughput rows =
     (let thr = bandwidth_rows rows in fsum (map ov_throughput_mean thr) / f_of_nat (length thr))"

definition rate_text :: "overview_row \<Rightarrow> string" where
  "rate_text r = ov_scenario r @ '' ('' @ fmt_f64 3 (ov_throughput_mean r) @ '' Gbit/s)''"

definition ov_statistics :: "overview_row list \<Rightarrow> string" where
  "ov_statistics rows =
     (if bandwidth_rows rows = [] then []
      else ov_section ''Summary Statistics''
        @ (case best_row rows of Some b \<Rightarrow> ov_kv ''Best throughput'' (rate_text b) | None \<Rightarrow> [])
        @ (case worst_row rows of Some w \<Rightarrow> ov_kv ''Worst throughput'' (rate_text w) | None \<Rightarrow> [])
        @ ov_kv ''Mean throughput'' (fmt_f64 3 (mean_throughput rows) @ '' Gbit/s'') @ [LF])"

definition render_overview :: "overview_row list \<Rightarrow> string" where
  "render_overview rows =
     (if rows = [] then []
      else ov_section ''PERFORMANCE OVERVIEW'' @ [LF] @ ov_throughput rows @ ov_latency rows @ ov_roundtrip rows
        @ ov_saturation rows @ ov_connrate rows @ ov_leaderboard rows @ ov_statistics rows)"

text \<open>What is written beside the tables: nothing for a missing or an empty summary.\<close>

definition render_and_write :: "string option \<Rightarrow> string option" where
  "render_and_write summary =
     (case summary of
        None \<Rightarrow> None
      | Some text \<Rightarrow> (let report = render_overview (parse_summary text) in if report = [] then None else Some report))"

section \<open>Reading what the harness wrote\<close>

lemma record_scan_plain:
  "list_all (\<lambda>c. \<not> needs_quotes c) g \<Longrightarrow> record_scan False field out (g @ s) = record_scan False (field @ g) out s"
  by (induction g arbitrary: field) (auto simp: needs_quotes_def)

lemma record_scan_quoted:
  "s = [] \<or> hd s \<noteq> DQUOTE
   \<Longrightarrow> record_scan True field out (concat (map (\<lambda>c. if c = DQUOTE then [DQUOTE, c] else [c]) g) @ DQUOTE # s)
     = record_scan False (field @ g) out s"
  by (induction g arbitrary: field) auto

lemma record_scan_field:
  assumes "s = [] \<or> hd s = CHR '',''"
  shows "record_scan False [] out (escape g @ s) = record_scan False g out s"
proof (cases "list_ex needs_quotes g")
  case True
  have "s = [] \<or> hd s \<noteq> DQUOTE" using assms by auto
  then show ?thesis using True record_scan_quoted [of s "[]" out g] by (simp add: escape_def)
next
  case False
  then have "list_all (\<lambda>c. \<not> needs_quotes c) g" by (auto simp: list_ex_iff list_all_iff)
  then show ?thesis using False record_scan_plain [of g "[]" out s] by (simp add: escape_def)
qed

lemma record_scan_cells: "gs \<noteq> [] \<Longrightarrow> record_scan False [] out (join_with '','' (map escape gs)) = out @ gs"
proof (induction gs arbitrary: out)
  case (Cons g gs)
  show ?case
  proof (cases gs)
    case Nil
    then show ?thesis using record_scan_field [of "[]" out g] by simp
  next
    case (Cons g' gs')
    then show ?thesis using Cons.IH [of "out @ [g]"] record_scan_field [of "CHR '','' # join_with '','' (map escape gs)" out g] by simp
  qed
qed simp

definition row_line :: "string list \<Rightarrow> string" where
  "row_line cells = join_with '','' (map escape cells)"

lemma parse_row_line: "cells \<noteq> [] \<Longrightarrow> parse_record (row_line cells) = cells"
  by (simp add: parse_record_def row_line_def record_scan_cells)

text \<open>A line is one record, as long as no cell holds a line feed.\<close>

lemma escape_no_cr_end: "escape g = [] \<or> last (escape g) \<noteq> CR"
proof (cases "list_ex needs_quotes g")
  case False
  then have "CR \<notin> set g" by (auto simp: list_ex_iff needs_quotes_def)
  then have "g = [] \<or> last g \<noteq> CR" by (metis last_in_set)
  then show ?thesis using False by (simp add: escape_def)
qed (simp add: escape_def)

lemma join_no_cr_end: "join_with '','' (map escape gs) = [] \<or> last (join_with '','' (map escape gs)) \<noteq> CR"
proof (induction gs)
  case (Cons g gs)
  then show ?case using escape_no_cr_end [of g] by (cases gs) (auto simp: last_append)
qed simp

lemma row_line_nonempty: "2 \<le> length r \<Longrightarrow> row_line r \<noteq> []"
  by (cases r; cases "tl r") (auto simp: row_line_def)

lemma strip_row_line: "rev (dropWhile (\<lambda>c. c = CR) (rev (row_line r @ [CR]))) = row_line r"
proof (cases "row_line r" rule: rev_cases)
  case (snoc l c)
  then have "c \<noteq> CR" using join_no_cr_end [of r] by (simp add: row_line_def)
  then show ?thesis using snoc by simp
qed simp

lemma no_lf_row_line: "list_all no_lf r \<Longrightarrow> no_lf (row_line r)"
  unfolding row_line_def by (rule no_lf_join) (auto simp: list_all_iff intro: no_lf_escape)

lemma split_rows:
  "list_all (list_all no_lf) rows
   \<Longrightarrow> split_on LF (concat (map (write_row []) rows)) = map (\<lambda>r. row_line r @ [CR]) rows @ [[]]"
proof (induction rows)
  case (Cons r rows)
  have "list_all (\<lambda>c. c \<noteq> LF) (row_line r @ [CR])"
    using no_lf_row_line [of r] Cons.prems by (auto simp: no_lf_def list_all_iff)
  then have "split_on LF ((row_line r @ [CR]) @ LF # concat (map (write_row []) rows))
      = (row_line r @ [CR]) # split_on LF (concat (map (write_row []) rows))"
    unfolding split_on_def by (intro split_if_append) auto
  moreover have "concat (map (write_row []) (r # rows)) = (row_line r @ [CR]) @ LF # concat (map (write_row []) rows)"
    by (simp add: write_row_def row_line_def)
  ultimately show ?case using Cons by simp
qed (simp add: split_on_def)

lemma summary_lines_rows:
  assumes "list_all (\<lambda>r. 2 \<le> length r \<and> list_all no_lf r) rows"
  shows "summary_lines (concat (map (write_row []) rows)) = map row_line rows"
proof -
  have "list_all (list_all no_lf) rows" using assms by (simp add: list_all_iff)
  then have "summary_lines (concat (map (write_row []) rows))
      = filter (\<lambda>l. l \<noteq> []) (map (\<lambda>r. rev (dropWhile (\<lambda>c. c = CR) (rev (row_line r @ [CR])))) rows @ [[]])"
    by (simp only: summary_lines_def split_rows map_append map_map comp_def list.map rev.simps dropWhile.simps)
  also have "\<dots> = filter (\<lambda>l. l \<noteq> []) (map row_line rows)" by (simp only: strip_row_line filter_append) simp
  also have "\<dots> = map row_line rows" using assms row_line_nonempty by (auto simp: list_all_iff intro!: filter_True)
  finally show ?thesis .
qed

lemma parse_summary_rows:
  assumes "list_all (\<lambda>r. 2 \<le> length r \<and> list_all no_lf r) (headers # rows)"
  shows "parse_summary (render (csv_new headers) @ concat (map (write_row []) rows)) = map (overview_row_of headers) rows"
proof -
  have "render (csv_new headers) @ concat (map (write_row []) rows) = concat (map (write_row []) (headers # rows))"
    by (simp add: render_header)
  moreover have "parse_record (row_line r) = r" if "r \<in> set (headers # rows)" for r
    using assms that by (intro parse_row_line) (auto simp: list_all_iff)
  ultimately show ?thesis using summary_lines_rows [OF assms] by (simp add: parse_summary_def comp_def)
qed

lemma summary_row_no_lf:
  assumes "printable s art"
  shows "list_all no_lf (summary_row s params stats art)"
proof -
  have cal: "no_lf (opt_cell ca_dut (ar_cal art))" "no_lf (opt_cell ca_bottleneck (ar_cal art))"
      "no_lf (opt_cell ca_ceiling_transport (ar_cal art))"
    using assms by (cases "ar_cal art"; simp add: printable_def opt_cell_def)+
  show ?thesis
    using assms cal by (simp add: summary_row_def printable_def Let_def calibration_cells_def cpu_cells_def rtt_cells_def
        conn_cells_def perf_cells_def)
qed

lemma headers_no_lf: "list_all no_lf SUMMARY_HEADERS"
  by (simp add: SUMMARY_HEADERS_def)

lemma overview_of_records:
  assumes "distinct (map record_key rs)" and printable: "\<And>s p st art. (s, p, st, art) \<in> set rs \<Longrightarrow> printable s art"
  shows "\<exists>ss. mset ss = mset rs
    \<and> parse_summary (fst (rebuild_table SUMMARY_HEADERS summary_entry (fold put_record rs empty_tree)))
      = map (\<lambda>r. overview_row_of SUMMARY_HEADERS (record_row r)) ss"
proof -
  obtain ss where ss: "mset ss = mset rs"
      "rebuild_table SUMMARY_HEADERS summary_entry (fold put_record rs empty_tree)
        = (render (csv_new SUMMARY_HEADERS) @ concat (map (\<lambda>r. render_body (one_row SUMMARY_HEADERS (record_row r))) ss), length ss)"
    using scenario_rows.rebuild_recorded [OF assms(1), of SUMMARY_HEADERS] by blast
  have "2 \<le> length (record_row r) \<and> list_all no_lf (record_row r)" if "r \<in> set ss" for r
  proof -
    obtain s p st art where r: "r = (s, p, st, art)" by (cases r)
    then have "printable s art" using printable that ss(1) by (metis set_mset_mset)
    then show ?thesis using r by (simp add: record_row_def length_summary_row summary_row_no_lf)
  qed
  then have "list_all (\<lambda>r. 2 \<le> length r \<and> list_all no_lf r) (SUMMARY_HEADERS # map record_row ss)"
    using headers_no_lf length_summary_headers by (auto simp: list_all_iff)
  from parse_summary_rows [OF this] show ?thesis
    using ss by (intro exI [of _ ss]) (simp add: render_one comp_def)
qed

lemma header_index:
  "map_of (rev (zip SUMMARY_HEADERS [0..<length SUMMARY_HEADERS])) ''scenario'' = Some 0"
  "map_of (rev (zip SUMMARY_HEADERS [0..<length SUMMARY_HEADERS])) ''protocol'' = Some 2"
  "map_of (rev (zip SUMMARY_HEADERS [0..<length SUMMARY_HEADERS])) ''effective_protocol'' = Some 29"
  "map_of (rev (zip SUMMARY_HEADERS [0..<length SUMMARY_HEADERS])) ''throughput_gbps_mean'' = Some 6"
  by code_simp+

lemma summary_row_nth:
  "summary_row s params stats art ! 0 = sc_name s"
  "summary_row s params stats art ! 2 = protocol_label s"
  "summary_row s params stats art ! 29 = effective_label s art"
  "summary_row s params stats art ! 6 = num (sm_mean (rs_throughput_gbps stats)) 4"
  by (simp_all add: summary_row_def Let_def calibration_cells_def)

lemma overview_fields:
  "ov_scenario (overview_row_of SUMMARY_HEADERS (summary_row s params stats art)) = sc_name s"
  "ov_protocol (overview_row_of SUMMARY_HEADERS (summary_row s params stats art)) = protocol_label s"
  "ov_effective_protocol (overview_row_of SUMMARY_HEADERS (summary_row s params stats art)) = effective_label s art"
  "ov_throughput_mean (overview_row_of SUMMARY_HEADERS (summary_row s params stats art))
     = (case parse_f64 (num (sm_mean (rs_throughput_gbps stats)) 4) of Some x \<Rightarrow> x | None \<Rightarrow> 0)"
  unfolding overview_row_of_def overview_row.select_convs cell_text_def cell_num_def overview_cell_def header_index
  by (simp_all add: length_summary_row summary_row_nth)



text \<open>A cell with a line feed is torn apart, although the table quotes it.\<close>

lemma overview_line_feed:
  "map ov_scenario (parse_summary (render (csv_new [''scenario'', ''transport'']) @ write_row [] [''a'' @ [LF] @ ''b'', ''tcp'']))
     = [''a'', ''b,tcp'']"
  by code_simp

section \<open>The ranking\<close>

lemma by_throughput_facts:
  "mset (by_throughput rows) = mset rows"
  "sorted_wrt (\<lambda>a b. ov_throughput_mean b \<le> ov_throughput_mean a) (by_throughput rows)"
  "filter (\<lambda>r. ov_throughput_mean r = x) (by_throughput rows) = filter (\<lambda>r. ov_throughput_mean r = x) rows"
proof -
  show "mset (by_throughput rows) = mset rows" by (simp add: by_throughput_def)
  have "sorted (map ov_throughput_mean (sort_key ov_throughput_mean (rev rows)))" by simp
  then show "sorted_wrt (\<lambda>a b. ov_throughput_mean b \<le> ov_throughput_mean a) (by_throughput rows)"
    by (simp add: by_throughput_def sorted_wrt_rev sorted_wrt_map)
  show "filter (\<lambda>r. ov_throughput_mean r = x) (by_throughput rows) = filter (\<lambda>r. ov_throughput_mean r = x) rows"
    by (simp add: by_throughput_def rev_filter [symmetric] sort_key_stable)
qed


section \<open>Alignment\<close>

lemma char_count_simps [simp]:
  "char_count [] = 0" "char_count (s @ t) = char_count s + char_count t"
  "char_count (c # s) = (if continuation c then 0 else 1) + char_count s"
  "char_count (replicate n (CHR '' '')) = n"
  by (simp_all add: char_count_def continuation_def)

lemma char_count_RULE [simp]: "char_count RULE = 1"
  by (simp add: RULE_def continuation_def)

lemma char_count_rule [simp]: "char_count (concat (replicate n RULE)) = n"
  by (induction n) simp_all

lemma char_count_glyph: "continuation c \<Longrightarrow> char_count (glyph c) = 1" "char_count BAR = 1"
  by (simp_all add: glyph_def BAR_def continuation_def)

lemma char_count_pads: "char_count s \<le> w \<Longrightarrow> char_count (pad_end w s) = w" "char_count s \<le> w \<Longrightarrow> char_count (pad_start w s) = w"
  by (simp_all add: pad_end_def pad_start_def)

lemma char_count_border:
  assumes "widths \<noteq> []" "continuation l" "continuation m" "continuation r"
  shows "char_count (ov_border widths l m r) = 3 + sum_list (map (\<lambda>w. w + 3) widths)"
proof -
  have "char_count (join_with (glyph m) (map (\<lambda>w. concat (replicate (w + 2) RULE)) ws)) + 1 = sum_list (map (\<lambda>w. w + 3) ws)"
    if "ws \<noteq> []" for ws
    using that
  proof (induction ws)
    case (Cons w ws)
    then show ?case using assms(3) by (cases ws) (simp_all add: char_count_glyph)
  qed simp
  from this [OF assms(1)] show ?thesis
    using assms by (simp add: ov_border_def char_count_glyph continuation_def)
qed

lemma char_count_cells:
  assumes "length row = length widths" "\<And>i. i < length row \<Longrightarrow> char_count (row ! i) \<le> widths ! i"
  shows "char_count (concat (map (\<lambda>(i, w, cell).
         '' '' @ (if i < length aligns \<and> aligns ! i = RightAlign then pad_start w cell else pad_end w cell) @ '' '' @ BAR)
       (enumerate n (zip widths row)))) = sum_list (map (\<lambda>w. w + 3) widths)"
  using assms
proof (induction row arbitrary: widths n)
  case (Cons cell row)
  then obtain w ws where widths: "widths = w # ws" by (cases widths) auto
  have fits: "char_count cell \<le> w" using Cons.prems(2) [of 0] widths by simp
  have "char_count (row ! i) \<le> ws ! i" if "i < length row" for i using Cons.prems(2) [of "Suc i"] widths that by simp
  then have "char_count (concat (map (\<lambda>(i, w, cell).
         '' '' @ (if i < length aligns \<and> aligns ! i = RightAlign then pad_start w cell else pad_end w cell) @ '' '' @ BAR)
       (enumerate (Suc n) (zip ws row)))) = sum_list (map (\<lambda>w. w + 3) ws)"
    using Cons.IH [of ws "Suc n"] Cons.prems(1) widths by simp
  then show ?case using widths fits by (simp add: char_count_pads char_count_glyph continuation_def)
qed simp

lemma fold_width:
  "w \<le> fold (\<lambda>row w. if i < length row then max w (g (row ! i)) else w) rows (w :: nat)"
  "row \<in> set rows \<Longrightarrow> i < length row \<Longrightarrow> g (row ! i) \<le> fold (\<lambda>row w. if i < length row then max w (g (row ! i)) else w) rows w"
proof (induction rows arbitrary: w)
  case (Cons r rows)
  { case 1
    show ?case using Cons.IH(1) [of "if i < length r then max w (g (r ! i)) else w"] by (auto intro: order_trans split: if_splits)
  next
    case 2
    then show ?case using Cons.IH(1) [of "max w (g (r ! i))"] Cons.IH(2) by (auto intro: order_trans) }
qed simp_all

lemma column_fits:
  "i < length headers \<Longrightarrow> char_count (headers ! i) \<le> column_widths headers rows ! i"
  "i < length headers \<Longrightarrow> row \<in> set rows \<Longrightarrow> i < length row \<Longrightarrow> char_count (row ! i) \<le> column_widths headers rows ! i"
proof -
  assume i: "i < length headers"
  have col: "column_widths headers rows ! i
      = fold (\<lambda>row w. if i < length row then max w (char_count (row ! i)) else w) rows (char_count (headers ! i))"
    using i by (simp add: column_widths_def cong: if_cong)
  show "char_count (headers ! i) \<le> column_widths headers rows ! i" unfolding col by (rule fold_width(1))
  show "char_count (row ! i) \<le> column_widths headers rows ! i" if "row \<in> set rows" "i < length row"
    unfolding col using that by (rule fold_width(2))
qed

text \<open>
  The box of a table closes: whatever the cells hold, in bytes or in characters of several bytes, the borders, the
  header and every row of the header's length have the same number of characters, three for each column, its widest
  cell, and the frame.
\<close>

theorem table_lines_aligned:
  assumes "headers \<noteq> []" and "\<forall>row\<in>set rows. length row = length headers"
  shows "\<forall>l\<in>set (table_lines headers rows aligns). char_count l = 3 + sum_list (map (\<lambda>w. w + 3) (column_widths headers rows))"
proof -
  let ?ws = "column_widths headers rows"
  have len: "length ?ws = length headers" by (simp add: column_widths_def)
  have line: "char_count (table_line ?ws as row) = 3 + sum_list (map (\<lambda>w. w + 3) ?ws)"
    if "row = headers \<or> row \<in> set rows" for as row
  proof -
    have "length row = length ?ws" using that assms(2) len by auto
    moreover have "char_count (row ! i) \<le> ?ws ! i" if "i < length row" for i
      using column_fits(1) [of i headers rows] column_fits(2) [of i headers row rows] \<open>row = headers \<or> row \<in> set rows\<close> that \<open>length row = length ?ws\<close> len by auto
    ultimately have "char_count (table_line ?ws as row) = char_count ('' '' @ BAR) + sum_list (map (\<lambda>w. w + 3) ?ws) + char_count [LF]"
      using char_count_cells [of row ?ws as 0] by (simp add: table_line_def)
    then show ?thesis by (simp add: BAR_def continuation_def)
  qed
  have "?ws \<noteq> []" using len assms(1) by auto
  then have "char_count (ov_border ?ws l m r) = 3 + sum_list (map (\<lambda>w. w + 3) ?ws)"
    if "continuation l" "continuation m" "continuation r" for l m r
    using that by (rule char_count_border)
  then show ?thesis using line by (auto simp: table_lines_def Let_def continuation_def)
qed

lemma table_lines_aligned_witness:
  "\<forall>l\<in>set (table_lines [''Scenario'', ''p99 '' @ US] [[''a'', ''12.5''], [''longer than it'', ''1'' @ TIMES_SIGN]] [LeftAlign, RightAlign]).
     char_count l = 29"
proof -
  have "column_widths [''Scenario'', ''p99 '' @ US] [[''a'', ''12.5''], [''longer than it'', ''1'' @ TIMES_SIGN]] = [14, 6]"
    by code_simp
  then show ?thesis
    using table_lines_aligned [of "[''Scenario'', ''p99 '' @ US]" "[[''a'', ''12.5''], [''longer than it'', ''1'' @ TIMES_SIGN]]"
        "[LeftAlign, RightAlign]"] by simp
qed

end
