(* ===== verification/Distributed.thy ===== *)
theory Distributed
  imports Loopback
begin

text \<open>
  The two halves of a distributed run, \<open>run_distributed_sender\<close> and \<open>run_distributed_receiver\<close> of
  \<open>src/src/run/engine.rs\<close>. A connection of the sender is driven by a list of turns: the phase it reads, the clock and what
  \<open>write_all\<close> answers. A connection of the receiver is the list of what its reads return. The threads, the pinning and
  the sleeps are not modelled; a list that ends before its loop does is a thread that has not finished (None).
\<close>

record distributed_params =
  dp_message_bytes :: u32
  dp_connections :: nat
  dp_warmup :: f64
  dp_measure :: f64
  dp_cooldown :: f64
  dp_cores :: "nat list"
  dp_sender :: sender
  dp_remove_outliers :: bool

definition payload_room :: "distributed_params \<Rightarrow> u32" where
  "payload_room p = max (dp_message_bytes p) (of_nat HEADER_LEN) - of_nat HEADER_LEN"

section \<open>The sender\<close>

text \<open>\<open>write_all\<close> writes everything, or fails behind some of the bytes.\<close>

datatype push = Pushed | Broken nat

definition stamped_message :: "u64 \<Rightarrow> u32 \<Rightarrow> u64 \<Rightarrow> u8 list \<Rightarrow> u8 list" where
  "stamped_message seq n now buf =
     (case encode (stamp seq n now) buf of
        Some (b, _) \<Rightarrow> blit b HEADER_LEN (fill_payload seq (drop HEADER_LEN b))
      | None \<Rightarrow> buf)"

text \<open>One connection: the messages it counted and the bytes it wrote.\<close>

fun send_conn :: "u32 \<Rightarrow> (u8 \<times> u64 \<times> push) list \<Rightarrow> u64 \<Rightarrow> u64 \<Rightarrow> u8 list \<Rightarrow> u8 list \<Rightarrow> (u64 \<times> u8 list) option" where
  "send_conn n [] seq counted buf out = None"
| "send_conn n ((phase, now, push) # ts) seq counted buf out =
     (if phase = PHASE_DONE then Some (counted, out)
      else let buf = stamped_message seq n now buf in
        case push of
          Broken k \<Rightarrow> Some (counted, out @ take k (butlast buf))
        | Pushed \<Rightarrow> send_conn n ts (seq + 1) (if phase = PHASE_MEASURE then counted + 1 else counted) buf (out @ buf))"

fun first_error :: "'e option list \<Rightarrow> 'e option" where
  "first_error [] = None"
| "first_error (x # xs) = (case x of Some e \<Rightarrow> Some e | None \<Rightarrow> first_error xs)"

text \<open>
  The count over all connections and what each of them wrote. \<open>resolved\<close> is the error of looking the target up, \<open>dial\<close> the error
  of each connection.
\<close>

definition run_distributed_sender ::
  "distributed_params \<Rightarrow> string option \<Rightarrow> (nat \<Rightarrow> string option) \<Rightarrow> (nat \<Rightarrow> (u8 \<times> u64 \<times> push) list)
   \<Rightarrow> (string + u64 \<times> u8 list list) option" where
  "run_distributed_sender p resolved dial turns =
     (let conns = [0..<max (dp_connections p) 1] in
      case resolved of
        Some e \<Rightarrow> Some (Inl e)
      | None \<Rightarrow>
          (case first_error (map dial conns) of
             Some e \<Rightarrow> Some (Inl e)
           | None \<Rightarrow>
               (let sent = map (\<lambda>i. send_conn (payload_room p) (turns i) 0 0
                                      (replicate (HEADER_LEN + unat (payload_room p)) 0) []) conns in
                if None \<in> set sent then None
                else Some (Inr (sum_list (map (fst \<circ> the) sent), map (snd \<circ> the) sent)))))"

section \<open>The receiver\<close>

text \<open>A read returns bytes, none at the end of the stream, or fails: the read timeout is one of the failures.\<close>

datatype read_answer = Bytes "u8 list" | ReadFailed

text \<open>\<open>read_exact\<close>: the bytes and the reads that are left; an error loses the bytes read so far.\<close>

function read_exact :: "nat \<Rightarrow> read_answer list \<Rightarrow> (u8 list \<times> read_answer list) option" where
  "read_exact n evs =
     (if n = 0 then Some ([], evs)
      else case evs of
        Bytes bs # evs' \<Rightarrow>
          if bs = [] then None
          else if length bs \<le> n then map_option (\<lambda>(xs, rest). (bs @ xs, rest)) (read_exact (n - length bs) evs')
          else Some (take n bs, Bytes (drop n bs) # evs')
      | _ \<Rightarrow> None)"
  by pat_completeness auto
termination by (relation "measure (\<lambda>(n, evs). length evs)") auto

declare read_exact.simps [simp del]

text \<open>The bytes that arrive before the stream ends or a read fails.\<close>

fun arrived :: "read_answer list \<Rightarrow> u8 list" where
  "arrived (Bytes bs # evs) = (if bs = [] then [] else bs @ arrived evs)"
| "arrived _ = []"

lemma read_exact_arrived:
  "case read_exact n evs of
     None \<Rightarrow> length (arrived evs) < n
   | Some (xs, rest) \<Rightarrow> xs = take n (arrived evs) \<and> arrived rest = drop n (arrived evs) \<and> n \<le> length (arrived evs)"
proof (induction n evs rule: read_exact.induct)
  case (1 n evs)
  show ?case
  proof (cases "n = 0 \<or> (\<nexists>bs evs'. evs = Bytes bs # evs' \<and> bs \<noteq> [])")
    case True
    then show ?thesis
      by (subst read_exact.simps, cases evs rule: arrived.cases) (auto split: if_splits)
  next
    case False
    then obtain bs evs' where evs: "n \<noteq> 0" "evs = Bytes bs # evs'" "bs \<noteq> []" by blast
    show ?thesis
    proof (cases "length bs \<le> n")
      case True
      then show ?thesis
        using 1 [OF evs(1,2) refl evs(3) True] evs by (subst read_exact.simps) (auto split: option.splits)
    next
      case False
      then show ?thesis using evs by (subst read_exact.simps) auto
    qed
  qed
qed

definition receive_one :: "nat \<Rightarrow> u8 list \<Rightarrow> u64 \<Rightarrow> flow_metrics \<Rightarrow> flow_metrics" where
  "receive_one len buf recv_ns m =
     (case decode buf of
        Inr h \<Rightarrow> record_msg (wh_seq h) (sat_sub recv_ns (wh_ts_ns h)) (of_nat len) m
      | Inl _ \<Rightarrow> m)"

text \<open>One connection, up to the first read that fails; the \<open>k\<close>-th message is stamped with the \<open>k\<close>-th clock reading.\<close>

function receive_conn :: "u32 \<Rightarrow> (nat \<Rightarrow> u64) \<Rightarrow> nat \<Rightarrow> read_answer list \<Rightarrow> flow_metrics \<Rightarrow> flow_metrics" where
  "receive_conn n clock k evs m =
     (case read_exact (HEADER_LEN + unat n) evs of
        None \<Rightarrow> m
      | Some (buf, rest) \<Rightarrow>
          receive_conn n clock (k + 1) rest (receive_one (HEADER_LEN + unat n) buf (clock k) m))"
  by pat_completeness auto
termination
proof (relation "measure (\<lambda>(n, clock, k, evs, m). length (arrived evs))", goal_cases)
  case (2 n clock k evs m x buf rest)
  then show ?case using read_exact_arrived [where n = "HEADER_LEN + unat n" and evs = evs] by (auto simp: HEADER_LEN_def)
qed simp

declare receive_conn.simps [simp del]

text \<open>The acceptor: connections until the cooldown or an error.\<close>

datatype 'c accept_answer = Accepted 'c | NotYet | AcceptFailed

fun accept_until :: "(u8 \<times> 'c accept_answer) list \<Rightarrow> 'c list \<Rightarrow> 'c list option" where
  "accept_until [] conns = None"
| "accept_until ((phase, a) # ts) conns =
     (if PHASE_COOLDOWN \<le> phase then Some conns
      else case a of
        Accepted c \<Rightarrow> accept_until ts (conns @ [c])
      | NotYet \<Rightarrow> accept_until ts conns
      | AcceptFailed \<Rightarrow> Some conns)"

definition run_distributed_receiver ::
  "distributed_params \<Rightarrow> string option \<Rightarrow> (u8 \<times> (read_answer list \<times> (nat \<Rightarrow> u64)) accept_answer) list \<Rightarrow> f64
   \<Rightarrow> (string + flow_summary) option" where
  "run_distributed_receiver p bound accepts measure_secs =
     (case bound of
        Some e \<Rightarrow> Some (Inl e)
      | None \<Rightarrow>
          map_option (\<lambda>conns.
            Inr (aggregate_run (map (\<lambda>(evs, clock). receive_conn (payload_room p) clock 0 evs flow_new) conns)
                   measure_secs (dp_remove_outliers p)))
            (accept_until accepts []))"

section \<open>What is written and what is recorded\<close>

text \<open>The turns in which a connection wrote a whole message.\<close>

definition pushes :: "(u8 \<times> u64 \<times> push) list \<Rightarrow> (u8 \<times> u64 \<times> push) list" where
  "pushes ts = takeWhile (\<lambda>(phase, now, push). phase \<noteq> PHASE_DONE \<and> push = Pushed) ts"

definition in_window :: "(u8 \<times> u64 \<times> push) list \<Rightarrow> nat" where
  "in_window ts = length (filter (\<lambda>(phase, now, push). phase = PHASE_MEASURE) (pushes ts))"

lemma stamped_message_eq:
  "length buf = HEADER_LEN + unat n \<Longrightarrow> stamped_message seq n now buf = message_bytes (stamp_at seq n now)"
  by (simp add: stamped_message_def encode_eq stamp_def fill_payload_pattern blit_def message_bytes_def stamp_at_def)

lemma send_conn_writes:
  assumes "send_conn n ts seq counted buf out = Some (c, out')" and "length buf = HEADER_LEN + unat n"
  shows "c = counted + of_nat (in_window ts)
    \<and> (\<exists>rest. out' = out @ concat (map message_bytes (numbered seq n (map (fst \<circ> snd) (pushes ts)))) @ rest
          \<and> length rest < HEADER_LEN + unat n)"
  using assms
proof (induction n ts seq counted buf out rule: send_conn.induct)
  case (2 n phase now push ts seq counted buf out)
  let ?m = "message_bytes (stamp_at seq n now)"
  have len: "length ?m = HEADER_LEN + unat n" by (simp add: stamp_at_def)
  show ?case
  proof (cases "phase = PHASE_DONE \<or> push \<noteq> Pushed")
    case True
    then show ?thesis
      using 2(2,3) len by (cases push) (auto simp: pushes_def in_window_def stamped_message_eq Let_def HEADER_LEN_def split: if_splits)
  next
    case False
    then have "push = Pushed" "phase \<noteq> PHASE_DONE" by simp_all
    then show ?thesis
      using 2(1) 2(2,3) len
      by (auto simp: pushes_def in_window_def stamped_message_eq Let_def split: if_splits)
  qed
qed simp

lemma receive_conn_prefix:
  assumes "prefix (arrived evs) (concat (map message_bytes hs) @ rest)" "length rest < HEADER_LEN + unat n"
    and "\<forall>h\<in>set hs. wh_payload_len h = n"
  shows "fm_seqs (receive_conn n clock k evs m) = fm_seqs m @ map wh_seq (take (length (arrived evs) div (HEADER_LEN + unat n)) hs)
    \<and> fm_bytes (receive_conn n clock k evs m)
        = fm_bytes m + of_nat (length (arrived evs) div (HEADER_LEN + unat n) * (HEADER_LEN + unat n))"
  using assms
proof (induction hs arbitrary: evs k m)
  case Nil
  then have "length (arrived evs) < HEADER_LEN + unat n" by (auto dest: prefix_length_le)
  then show ?case
    using read_exact_arrived [where n = "HEADER_LEN + unat n" and evs = evs]
    by (subst (1 2) receive_conn.simps) (auto split: option.splits)
next
  case (Cons h hs)
  let ?L = "HEADER_LEN + unat n"
  have h: "length (message_bytes h) = ?L" using Cons.prems(3) by simp
  show ?case
  proof (cases "read_exact ?L evs")
    case None
    then show ?thesis
      using read_exact_arrived [where n = ?L and evs = evs]
      by (subst (1 2) receive_conn.simps) simp
  next
    case (Some x)
    then obtain buf evs' where x: "read_exact ?L evs = Some (buf, evs')" by (cases x) auto
    then have r: "buf = take ?L (arrived evs)" "arrived evs' = drop ?L (arrived evs)" "?L \<le> length (arrived evs)"
      using read_exact_arrived [where n = ?L and evs = evs] by simp_all
    obtain z where z: "concat (map message_bytes (h # hs)) @ rest = arrived evs @ z" using Cons.prems(1) by (auto simp: prefix_def)
    have "buf = message_bytes h"
      using arg_cong [OF z, of "take ?L"] r(3) h by (simp add: r(1))
    then have one: "receive_one ?L buf now m = record_msg (wh_seq h) (sat_sub now (wh_ts_ns h)) (of_nat ?L) m" for now
      using decode_header_bytes [of h] by (simp add: receive_one_def message_bytes_def)
    have "prefix (arrived evs') (concat (map message_bytes hs) @ rest)"
      using arg_cong [OF z, of "drop ?L"] r(3) h by (simp add: r(2) prefix_def)
    then have IH: "fm_seqs (receive_conn n clock k' evs' m') = fm_seqs m' @ map wh_seq (take (length (arrived evs') div ?L) hs)"
        "fm_bytes (receive_conn n clock k' evs' m') = fm_bytes m' + of_nat (length (arrived evs') div ?L * ?L)" for k' m'
      using Cons.IH [of evs'] Cons.prems(2,3) by auto
    have div: "length (arrived evs) div ?L = Suc (length (arrived evs') div ?L)"
      using r(2,3) le_div_geq [of ?L "length (arrived evs)"] by (simp add: HEADER_LEN_def)
    show ?thesis
      unfolding receive_conn.simps [of n clock k evs m] x div
      by (simp add: IH one record_msg_def algebra_simps)
  qed
qed

lemma aggregate_sums:
  "fs_messages (aggregate_run ms d ro) = sum_list (map (\<lambda>m. ig_received (integrity (fm_seqs m))) ms)"
  "ig_lost (fs_integrity (aggregate_run ms d ro)) = sum_list (map (\<lambda>m. ig_lost (integrity (fm_seqs m))) ms)"
  "fs_bytes (aggregate_run ms d ro) = sum_list (map fm_bytes ms)"
proof -
  have "ag_integ (foldl agg_step a ms) = foldl (\<lambda>i m. add_integ i (integrity (fm_seqs m))) (ag_integ a) ms"
    "ag_bytes (foldl agg_step a ms) = ag_bytes a + sum_list (map fm_bytes ms)" for a
    by (induction ms arbitrary: a) (simp_all add: agg_step_def Let_def algebra_simps)
  moreover have "ig_received (foldl (\<lambda>i m. add_integ i (integrity (fm_seqs m))) i ms)
        = ig_received i + sum_list (map (\<lambda>m. ig_received (integrity (fm_seqs m))) ms)"
      "ig_lost (foldl (\<lambda>i m. add_integ i (integrity (fm_seqs m))) i ms)
        = ig_lost i + sum_list (map (\<lambda>m. ig_lost (integrity (fm_seqs m))) ms)" for i
    by (induction ms arbitrary: i) (simp_all add: add_integ_def algebra_simps)
  ultimately show
    "fs_messages (aggregate_run ms d ro) = sum_list (map (\<lambda>m. ig_received (integrity (fm_seqs m))) ms)"
    "ig_lost (fs_integrity (aggregate_run ms d ro)) = sum_list (map (\<lambda>m. ig_lost (integrity (fm_seqs m))) ms)"
    "fs_bytes (aggregate_run ms d ro) = sum_list (map fm_bytes ms)"
    by (simp_all add: aggregate_run_def Let_def agg_empty_def split: prod.split)
qed

lemma length_messages:
  "(\<forall>h\<in>set hs. wh_payload_len h = n) \<Longrightarrow> length (concat (map message_bytes hs)) = length hs * (HEADER_LEN + unat n)"
  by (induction hs) simp_all

lemma map_seq_numbered: "map wh_seq (numbered 0 n nows) = map of_nat [0..<length nows]"
  by (rule nth_equalityI) (simp_all add: nth_numbered stamp_at_def)

text \<open>One connection: what was counted where.\<close>

lemma connection_counts:
  assumes "send_conn n ts 0 0 (replicate (HEADER_LEN + unat n) 0) [] = Some (c, out)"
    and "prefix (arrived evs) out" "length out < 2 ^ 64"
  defines "j \<equiv> length (arrived evs) div (HEADER_LEN + unat n)"
  shows "c = of_nat (in_window ts)"
    and "integrity (fm_seqs (receive_conn n clock 0 evs flow_new))
          = \<lparr>ig_received = of_nat j, ig_distinct = of_nat j, ig_lost = 0, ig_duplicate = 0, ig_reordered = 0\<rparr>"
    and "fm_bytes (receive_conn n clock 0 evs flow_new) = of_nat (j * (HEADER_LEN + unat n))"
    and "arrived evs = out \<Longrightarrow> j = length (pushes ts)"
proof -
  let ?L = "HEADER_LEN + unat n" and ?hs = "numbered 0 n (map (fst \<circ> snd) (pushes ts))"
  obtain rest where out: "out = concat (map message_bytes ?hs) @ rest" "length rest < ?L" and c: "c = of_nat (in_window ts)"
    using send_conn_writes [OF assms(1)] by auto
  show "c = of_nat (in_window ts)" by (rule c)
  have pl: "\<forall>h\<in>set ?hs. wh_payload_len h = n" using payload_len_numbered by blast
  have rc: "fm_seqs (receive_conn n clock 0 evs flow_new) = map wh_seq (take j ?hs)"
      "fm_bytes (receive_conn n clock 0 evs flow_new) = of_nat (j * ?L)"
    using receive_conn_prefix [OF assms(2) [unfolded out(1)] out(2) pl, of clock 0 flow_new] by (simp_all add: j_def flow_new_def)
  show "fm_bytes (receive_conn n clock 0 evs flow_new) = of_nat (j * ?L)" by (rule rc(2))
  have total: "length out = length (pushes ts) * ?L + length rest" using out(1) length_messages [OF pl] by simp
  show "j = length (pushes ts)" if "arrived evs = out"
    using total out(2) that by (simp add: j_def HEADER_LEN_def)
  have "length (arrived evs) \<le> length out" using assms(2) by (rule prefix_length_le)
  then have "j \<le> length out div ?L" by (simp add: j_def div_le_mono)
  then have j: "j \<le> length (pushes ts)" using total out(2) by (simp add: HEADER_LEN_def)
  have "j \<le> length (arrived evs)" by (simp add: j_def)
  then have "j < 2 ^ 64" using assms(3) \<open>length (arrived evs) \<le> length out\<close> by linarith
  moreover have "map wh_seq (take j ?hs) = map of_nat [0..<j]"
    using map_seq_numbered [of n "map (fst \<circ> snd) (pushes ts)"] j by (simp add: take_map [symmetric]) (simp add: take_map)
  ultimately show "integrity (fm_seqs (receive_conn n clock 0 evs flow_new))
      = \<lparr>ig_received = of_nat j, ig_distinct = of_nat j, ig_lost = 0, ig_duplicate = 0, ig_reordered = 0\<rparr>"
    using integrity_consecutive [of 0 j] by (simp add: rc(1))
qed

lemma of_nat_sums: "of_nat (\<Sum>x\<leftarrow>xs. f x) = (\<Sum>x\<leftarrow>xs. of_nat (f x) :: 'a::semiring_1)"
  by (induction xs) simp_all

definition wire_len :: "distributed_params \<Rightarrow> nat" where
  "wire_len p = HEADER_LEN + unat (payload_room p)"

text \<open>The turns of the connections the sender opens.\<close>

definition all_turns :: "distributed_params \<Rightarrow> (nat \<Rightarrow> (u8 \<times> u64 \<times> push) list) \<Rightarrow> (u8 \<times> u64 \<times> push) list list" where
  "all_turns p turns = map turns [0..<max (dp_connections p) 1]"

lemma sender_connections:
  assumes "run_distributed_sender p resolved dial turns = Some (Inr (sent, outs))"
  obtains cs where "list_all2 (\<lambda>ts (c, out). send_conn (payload_room p) ts 0 0 (replicate (wire_len p) 0) [] = Some (c, out))
        (all_turns p turns) (zip cs outs)" "length cs = length outs" "sent = sum_list cs"
proof -
  let ?sent = "map (\<lambda>ts. send_conn (payload_room p) ts 0 0 (replicate (wire_len p) 0) []) (all_turns p turns)"
  have run: "None \<notin> set ?sent" "sent = sum_list (map (fst \<circ> the) ?sent)" "outs = map (snd \<circ> the) ?sent"
    using assms by (auto simp: run_distributed_sender_def all_turns_def wire_len_def Let_def comp_def split: option.splits if_splits)
  have "zip (map (fst \<circ> the) ?sent) outs = map the ?sent" by (simp add: run(3) zip_map_fst_snd [symmetric] zip_map_map zip_same_conv_map)
  moreover have "\<exists>x. send_conn (payload_room p) ts 0 0 (replicate (wire_len p) 0) [] = Some x" if "ts \<in> set (all_turns p turns)" for ts
    using run(1) that by (metis (no_types, lifting) image_eqI list.set_map not_None_eq)
  then have "list_all2 (\<lambda>ts (c, out). send_conn (payload_room p) ts 0 0 (replicate (wire_len p) 0) [] = Some (c, out))
      (all_turns p turns) (map the ?sent)"
    by (auto simp: list_all2_conv_all_nth split: prod.split)
  ultimately show thesis using that [of "map (fst \<circ> the) ?sent"] run by simp
qed

text \<open>
  C26: The receiver of a distributed run counts every message that arrived whole before its connection ended or paused, in
  whatever phase it was sent, and reports no loss; the sender counts the messages of its measurement window.
  When everything the sender wrote arrives, the receiver's count is that of all the messages, warm-up and cooldown included.
\<close>

theorem distributed_counts:
  assumes "run_distributed_sender p resolved dial turns = Some (Inr (sent, outs))"
    and "run_distributed_receiver p bound accepts measure_secs = Some (Inr summary)"
    and "accept_until accepts [] = Some conns"
    and "list_all2 (\<lambda>(evs, clock) out. prefix (arrived evs) out) conns outs" and "\<forall>out\<in>set outs. length out < 2 ^ 64"
  shows "fs_messages summary = of_nat (\<Sum>(evs, clock)\<leftarrow>conns. length (arrived evs) div wire_len p)
    \<and> fs_bytes summary = of_nat (\<Sum>(evs, clock)\<leftarrow>conns. length (arrived evs) div wire_len p * wire_len p)
    \<and> ig_lost (fs_integrity summary) = 0
    \<and> sent = of_nat (\<Sum>ts\<leftarrow>all_turns p turns. in_window ts)
    \<and> (list_all2 (\<lambda>(evs, clock) out. arrived evs = out) conns outs
       \<longrightarrow> fs_messages summary = of_nat (\<Sum>ts\<leftarrow>all_turns p turns. length (pushes ts)))"
proof -
  let ?n = "payload_room p" and ?rx = "\<lambda>(evs, clock). receive_conn (payload_room p) clock 0 evs flow_new"
  obtain cs where sends: "list_all2 (\<lambda>ts (c, out). send_conn ?n ts 0 0 (replicate (wire_len p) 0) [] = Some (c, out))
        (all_turns p turns) (zip cs outs)" "length cs = length outs" "sent = sum_list cs"
    using sender_connections [OF assms(1)] .
  have summary: "summary = aggregate_run (map ?rx conns) measure_secs (dp_remove_outliers p)"
    using assms(2,3) by (simp add: run_distributed_receiver_def split: option.splits)
  have len: "length conns = length outs" "length (all_turns p turns) = length outs"
    using assms(4) sends(1,2) by (auto dest: list_all2_lengthD)
  have one: "send_conn ?n (all_turns p turns ! i) 0 0 (replicate (HEADER_LEN + unat ?n) 0) [] = Some (cs ! i, outs ! i)"
      "prefix (arrived (fst (conns ! i))) (outs ! i)" "length (outs ! i) < 2 ^ 64" if "i < length outs" for i
    using that sends(1,2) assms(4,5) len by (auto simp: list_all2_conv_all_nth wire_len_def split_beta)
  note counts = connection_counts [OF one]
  have conn: "ig_received (integrity (fm_seqs (?rx c))) = of_nat (length (arrived (fst c)) div wire_len p)
      \<and> ig_lost (integrity (fm_seqs (?rx c))) = 0
      \<and> fm_bytes (?rx c) = of_nat (length (arrived (fst c)) div wire_len p * wire_len p)" if "c \<in> set conns" for c
    using that counts(2,3) len(1) unfolding in_set_conv_nth by (cases c) (force simp: wire_len_def)
  have sums: "fs_messages summary = (\<Sum>c\<leftarrow>conns. of_nat (length (arrived (fst c)) div wire_len p))"
      "ig_lost (fs_integrity summary) = 0"
      "fs_bytes summary = (\<Sum>c\<leftarrow>conns. of_nat (length (arrived (fst c)) div wire_len p * wire_len p))"
    using conn by (simp_all add: summary aggregate_sums comp_def cong: map_cong)
  have "cs = map (\<lambda>ts. of_nat (in_window ts)) (all_turns p turns)"
    using counts(1) len sends(2) by (intro nth_equalityI) simp_all
  then have sent: "sent = of_nat (\<Sum>ts\<leftarrow>all_turns p turns. in_window ts)" by (simp only: sends(3) of_nat_sums)
  have all: "map (\<lambda>c. length (arrived (fst c)) div wire_len p) conns = map (\<lambda>ts. length (pushes ts)) (all_turns p turns)"
    if "list_all2 (\<lambda>(evs, clock) out. arrived evs = out) conns outs"
    using that counts(4) len by (intro nth_equalityI) (auto simp: list_all2_conv_all_nth wire_len_def split_beta)
  have "fs_messages summary = of_nat (\<Sum>ts\<leftarrow>all_turns p turns. length (pushes ts))"
    if "list_all2 (\<lambda>(evs, clock) out. arrived evs = out) conns outs"
    using arg_cong [OF all [OF that], of "\<lambda>xs. of_nat (sum_list xs) :: u64"] by (simp only: sums(1) of_nat_sums)
  then show ?thesis using sums sent by (simp only: split_beta of_nat_sums) blast
qed

text \<open>A run of one connection, with a message of the warm-up and one of the window.\<close>

definition sample_params :: distributed_params where
  "sample_params = \<lparr>dp_message_bytes = 0, dp_connections = 0, dp_warmup = 1, dp_measure = 1, dp_cooldown = 1, dp_cores = [],
     dp_sender = \<lparr>sn_interface = Tcp, sn_target_addr = [], sn_pattern = Sustained, sn_rate_limit_mbps = None, sn_interval_us = None,
       sn_burst_count = None, sn_burst_pause_us = None, sn_ramp_start_mbps = None, sn_ramp_step_mbps = None,
       sn_ramp_step_interval_secs = None\<rparr>, dp_remove_outliers = False\<rparr>"

definition sample_turns :: "(u8 \<times> u64 \<times> push) list" where
  "sample_turns = [(PHASE_WARMUP, 5, Pushed), (PHASE_MEASURE, 6, Pushed), (PHASE_DONE, 7, Pushed)]"

definition sample_bytes :: "u8 list" where
  "sample_bytes = message_bytes (stamp_at 0 0 5) @ message_bytes (stamp_at 1 0 6)"

lemma distributed_counts_witness:
  "\<exists>summary. run_distributed_sender sample_params None (\<lambda>_. None) (\<lambda>_. sample_turns) = Some (Inr (1, [sample_bytes]))
     \<and> run_distributed_receiver sample_params None
         [(PHASE_WARMUP, Accepted ([Bytes (take 30 sample_bytes), Bytes (drop 30 sample_bytes)], \<lambda>_. 9)), (PHASE_COOLDOWN, NotYet)]
         1 = Some (Inr summary)
     \<and> fs_messages summary = 2"
proof -
  let ?c = "([Bytes (take 30 sample_bytes), Bytes (drop 30 sample_bytes)], \<lambda>_. 9 :: u64)"
  have phases: "PHASE_WARMUP \<noteq> PHASE_DONE" "PHASE_MEASURE \<noteq> PHASE_DONE" "PHASE_WARMUP \<noteq> PHASE_MEASURE"
      "\<not> PHASE_COOLDOWN \<le> PHASE_WARMUP"
    by (simp_all add: PHASE_WARMUP_def PHASE_MEASURE_def PHASE_DONE_def PHASE_COOLDOWN_def)
  have len: "payload_room sample_params = 0" "wire_len sample_params = 24" "length sample_bytes = 48" "dp_connections sample_params = 0"
      "all_turns sample_params (\<lambda>_. sample_turns) = [sample_turns]"
    by (simp_all add: payload_room_def wire_len_def sample_params_def sample_bytes_def stamp_at_def HEADER_LEN_def all_turns_def)
  have s: "run_distributed_sender sample_params None (\<lambda>_. None) (\<lambda>_. sample_turns) = Some (Inr (1, [sample_bytes]))"
    by (simp add: run_distributed_sender_def sample_turns_def phases stamped_message_eq stamp_at_def sample_bytes_def len Let_def)
  have accepts: "accept_until [(PHASE_WARMUP, Accepted ?c), (PHASE_COOLDOWN, NotYet)] [] = Some [?c]"
    by (simp add: phases)
  obtain summary where r: "run_distributed_receiver sample_params None
      [(PHASE_WARMUP, Accepted ?c), (PHASE_COOLDOWN, NotYet)] 1 = Some (Inr summary)"
    unfolding run_distributed_receiver_def accepts by simp
  have "arrived (fst ?c) = sample_bytes" using len(3) by (auto dest: arg_cong [of _ _ length])
  moreover have "length (pushes sample_turns) = 2" by (simp add: pushes_def sample_turns_def phases)
  ultimately have "fs_messages summary = 2"
    using distributed_counts [OF s r accepts] len by simp
  then show ?thesis using s r by blast
qed

text \<open>A pause longer than the read timeout ends a connection: what arrives behind it is not counted, neither as received nor as lost.\<close>

lemma pause_ends_connection: "arrived (evs @ ReadFailed # later) = arrived evs"
  by (induction evs rule: arrived.induct) auto

text \<open>The workload of the scenario's sender, its pattern and its rate, has no influence: messages are written back to back.\<close>

lemma workload_ignored: "run_distributed_sender (p\<lparr>dp_sender := s\<rparr>) = run_distributed_sender p"
proof -
  have "payload_room (p\<lparr>dp_sender := s\<rparr>) = payload_room p" "dp_connections (p\<lparr>dp_sender := s\<rparr>) = dp_connections p"
    by (simp_all add: payload_room_def)
  then show ?thesis by (intro ext) (simp only: run_distributed_sender_def)
qed

end
