(* ===== verification/Commands.thy ===== *)
theory Commands
  imports Campaign_Runs Overview Distributed
begin

text \<open>
  The subcommands of \<open>src/src/commands.rs\<close> that load configurations, run campaigns and report on them: \<open>run\<close>,
  \<open>suite\<close>, \<open>report\<close>, \<open>validate\<close>, \<open>list\<close>, the two halves of a distributed run, \<open>calibrate\<close>, \<open>setup\<close>,
  \<open>teardown\<close> and \<open>impair\<close>. Loading a file (\<open>serde\<close>), the host and the processes are arguments; console and log
  output are left out.
\<close>

section \<open>The host of a command\<close>

record command_host =
  ch_load :: "string \<Rightarrow> string + config"
  ch_read :: "string \<Rightarrow> string + string"
  ch_manifest :: "string \<Rightarrow> string + (string \<rightharpoonup> string list)"
  ch_config_dir :: "string option"
  ch_taken :: "string \<Rightarrow> bool"
  ch_mkdir :: "string \<Rightarrow> bool"
  ch_now :: u64
  ch_fuel :: nat
  ch_open :: "string \<Rightarrow> tree option"
  ch_info :: sys_info
  ch_req :: req_host
  ch_disk :: disk
  ch_binaries :: "string list"
  ch_comes_up :: "string \<Rightarrow> bool"
  ch_logical :: nat
  ch_hosts :: "scenario \<Rightarrow> scenario_host"
  ch_version :: string
  ch_net_admin :: bool
  ch_commands :: "net_command list \<Rightarrow> net_command \<Rightarrow> command_answer"
  ch_tc :: "net_command \<Rightarrow> command_answer"
  ch_disp :: "f64 \<Rightarrow> string"

text \<open>
  The result of a command: its error, if any, and the result tree it worked on, if it came to one. The outer option is
  None when the search for a free directory did not end within its fuel.
\<close>

type_synonym command_result = "(string option \<times> tree option) option"

definition command_error :: "string \<Rightarrow> command_result" where
  "command_error e = Some (Some e, None)"

section \<open>The context of a campaign\<close>

definition NO_DIRECTORY :: string where "NO_DIRECTORY = ''no such directory''"

definition create_under :: "command_host \<Rightarrow> string \<Rightarrow> (string + result_dir) option" where
  "create_under h base_dir =
     map_option (map_sum (\<lambda>_. NO_DIRECTORY) (\<lambda>rd. rd\<lparr>rd_root := path_join base_dir (rd_root rd)\<rparr>))
       (result_dir_create (\<lambda>p. ch_mkdir h (path_join base_dir p)) (\<lambda>p. ch_taken h (path_join base_dir p)) (ch_now h) (ch_fuel h))"

definition open_or_create :: "command_host \<Rightarrow> string \<Rightarrow> bool \<Rightarrow> (string + result_dir) option" where
  "open_or_create h base_dir resume =
     (if resume then Some (case result_dir_open base_dir (ch_open h base_dir) (ch_now h) of
                             None \<Rightarrow> Inl NO_DIRECTORY | Some rd \<Rightarrow> Inr rd)
      else create_under h base_dir)"

definition needs_gateway :: "config list \<Rightarrow> bool" where
  "needs_gateway cfgs = list_ex (\<lambda>s. gateway_plan_for s \<noteq> None) (enabled_scenarios cfgs)"

definition prepare_context :: "command_host \<Rightarrow> result_dir \<Rightarrow> config list \<Rightarrow> run_context \<times> bool" where
  "prepare_context h rd cfgs =
     (case write_sysinfo (ch_disk h) (ch_info h) rd of
        (rd, written) \<Rightarrow>
          (\<lparr>cx_rdir = rd, cx_host = ch_req h, cx_ceilings = Map.empty, cx_comparison_ceilings = Map.empty,
            cx_gateway_binary = (if needs_gateway cfgs then locate_working_binary (ch_comes_up h) (ch_binaries h) else None),
            cx_index = 0, cx_skipped = 0\<rparr>, written))"

text \<open>The consolidated tables, then the overview over them.\<close>

definition write_overview :: "disk \<Rightarrow> tree \<Rightarrow> tree \<times> string option" where
  "write_overview disk t =
     (case render_and_write (tr_top t ''summary.csv'') of
        None \<Rightarrow> (t, None)
      | Some report \<Rightarrow>
          (case write_top disk ''PERFORMANCE_OVERVIEW.txt'' report t of (t, ok) \<Rightarrow> (t, if ok then None else Some WRITE_FAILED)))"

definition finish_context :: "command_host \<Rightarrow> run_context \<Rightarrow> config \<Rightarrow> string \<Rightarrow> string option \<times> tree" where
  "finish_context h cx cfg config_path =
     (case result_dir_finish (ch_disk h) (ch_version h) cfg config_path (ch_info h) (cx_rdir cx) of
        (t, None) \<Rightarrow> (Some WRITE_FAILED, t)
      | (t, Some _) \<Rightarrow> (case write_overview (ch_disk h) t of (t, e) \<Rightarrow> (e, t)))"

definition campaign :: "command_host \<Rightarrow> string \<Rightarrow> bool \<Rightarrow> (string \<times> config) list \<Rightarrow> command_result" where
  "campaign h base_dir resume loaded =
     (case open_or_create h base_dir resume of
        None \<Rightarrow> None
      | Some (Inl e) \<Rightarrow> command_error e
      | Some (Inr rd) \<Rightarrow>
          (case prepare_context h rd (map snd loaded) of
             (cx, False) \<Rightarrow> Some (Some WRITE_FAILED, Some (rd_tree (cx_rdir cx)))
           | (cx, True) \<Rightarrow>
               (case run_configs (ch_hosts h) (ch_logical h) (map snd loaded) cx of
                  (Some e, cx) \<Rightarrow> Some (Some e, Some (rd_tree (cx_rdir cx)))
                | (None, cx) \<Rightarrow>
                    (case loaded of
                       [] \<Rightarrow> Some (Some ''no config files selected for this suite'', Some (rd_tree (cx_rdir cx)))
                     | (path, cfg) # _ \<Rightarrow>
                         (case finish_context h cx cfg path of (e, t) \<Rightarrow> Some (e, Some t))))))"

section \<open>Running\<close>

definition quoted :: "string \<Rightarrow> string" where
  "quoted s = [CHR 0x27] @ s @ [CHR 0x27]"

definition no_scenario_message :: "string \<times> nat \<Rightarrow> string" where
  "no_scenario_message x =
     (case x of (name, n) \<Rightarrow> ''no scenario named '' @ quoted name @ '' (config has '' @ show_nat n @ '' scenario(s))'')"

definition or_results :: "string option \<Rightarrow> string" where
  "or_results dir = (case dir of Some d \<Rightarrow> d | None \<Rightarrow> ''results'')"

definition run_command :: "command_host \<Rightarrow> run_args \<Rightarrow> command_result" where
  "run_command h a =
     (case ch_load h (ra_config a) of
        Inl e \<Rightarrow> command_error e
      | Inr cfg \<Rightarrow>
          (case apply_overrides a cfg of
             Inl missing \<Rightarrow> command_error (no_scenario_message missing)
           | Inr cfg \<Rightarrow>
               (let ok = validation_report_ok (validate cfg) in
                if ra_dry_run a then (if ok then Some (None, None) else command_error (''config invalid '' @ EM_DASH @ '' see report above''))
                else if \<not> ok then command_error (''config invalid '' @ EM_DASH @ '' fix errors before running'')
                else campaign h (or_results (ra_output_dir a)) False [(ra_config a, cfg)])))"

fun load_suite :: "command_host \<Rightarrow> suite_args \<Rightarrow> string list \<Rightarrow> string + (string \<times> config) list" where
  "load_suite h a [] = Inr []"
| "load_suite h a (p # ps) =
     (case ch_load h p of
        Inl e \<Rightarrow> Inl e
      | Inr cfg \<Rightarrow>
          (let cfg = apply_suite_overrides a cfg in
           if \<not> validation_report_ok (validate cfg) then Inl (''config invalid: '' @ p)
           else map_sum id ((#) (p, cfg)) (load_suite h a ps)))"

fun manifest_message :: "manifest_error \<Rightarrow> string" where
  "manifest_message (ManifestUnreadable p e) = ''cannot read suite manifest '' @ quoted p @ '': '' @ e"
| "manifest_message (ManifestInvalid p e) = ''invalid suite manifest '' @ quoted p @ '': '' @ e"

definition suite_command :: "command_host \<Rightarrow> suite_args \<Rightarrow> command_result" where
  "suite_command h a =
     (case resolve_suite_configs (ch_read h) (ch_manifest h) (ch_config_dir h) a of
        Inl e \<Rightarrow> command_error (manifest_message e)
      | Inr paths \<Rightarrow>
          if paths = [] then command_error ''no config files selected for this suite''
          else (case load_suite h a paths of
                  Inl e \<Rightarrow> command_error e
                | Inr loaded \<Rightarrow>
                    (case duplicate_scenario_name loaded of
                       Some dup \<Rightarrow> command_error (''scenario name '' @ quoted dup
                           @ '' appears in more than one suite config; names must be unique across a suite run'')
                     | None \<Rightarrow>
                         (case su_resume a of
                            Some dir \<Rightarrow> campaign h dir True loaded
                          | None \<Rightarrow> campaign h (or_results (su_output_dir a)) False loaded))))"

section \<open>Reporting and validating\<close>

definition report_command :: "command_host \<Rightarrow> string \<Rightarrow> command_result" where
  "report_command h dir =
     (case ch_open h dir of
        None \<Rightarrow> command_error (''results directory not found: '' @ dir)
      | Some t \<Rightarrow>
          (let rebuilt = (if tr_top t ''summary.csv'' \<noteq> None then (t, None)
                          else (case rebuild_consolidated (ch_disk h) t of
                                  (t, None) \<Rightarrow> (t, Some WRITE_FAILED)
                                | (t, Some (executed, skipped)) \<Rightarrow>
                                    (t, if executed = 0 \<and> skipped = 0 then Some (''no scenario results under '' @ dir @ '' '' @ EM_DASH
                                      @ '' run `seshat run` or `seshat suite` first'') else None)))
           in case rebuilt of
                (t, Some e) \<Rightarrow> Some (Some e, Some t)
              | (t, None) \<Rightarrow> (case write_overview (ch_disk h) t of (t, e) \<Rightarrow> Some (e, Some t))))"

definition error_count :: "validation_report \<Rightarrow> nat" where
  "error_count r = length (vr_suite_errors r) + sum_list (map (\<lambda>s. length (rp_errors s)) (vr_scenarios r))"

definition validate_command :: "command_host \<Rightarrow> string \<Rightarrow> command_result" where
  "validate_command h path =
     (case ch_load h path of
        Inl e \<Rightarrow> command_error e
      | Inr cfg \<Rightarrow>
          (let report = validate cfg in
           if validation_report_ok report then Some (None, None)
           else command_error (''config invalid: '' @ show_nat (error_count report) @ '' error(s)'')))"

section \<open>The two halves of a distributed run\<close>

definition sustained_tcp :: "string \<Rightarrow> sender" where
  "sustained_tcp addr =
     \<lparr>sn_interface = Tcp, sn_target_addr = addr, sn_pattern = Sustained, sn_rate_limit_mbps = None, sn_interval_us = None,
      sn_burst_count = None, sn_burst_pause_us = None, sn_ramp_start_mbps = None, sn_ramp_step_mbps = None,
      sn_ramp_step_interval_secs = None\<rparr>"

definition distributed_of :: "config \<Rightarrow> scenario \<Rightarrow> string \<Rightarrow> nat list \<Rightarrow> distributed_params" where
  "distributed_of cfg s addr cores =
     \<lparr>dp_message_bytes = max (or_map (\<lambda>v. v) 1024 (sc_message_size_bytes s)) (of_nat HEADER_LEN),
      dp_connections = unat (max (sc_connections s) 1),
      dp_warmup = from_secs (or_map (\<lambda>v. v) (df_warmup_secs (cf_defaults cfg)) (sc_warmup_secs s)),
      dp_measure = from_secs (max (or_map (\<lambda>v. v) (df_duration_secs (cf_defaults cfg)) (sc_duration_secs s)) 1),
      dp_cooldown = from_secs (or_map (\<lambda>v. v) (df_cooldown_secs (cf_defaults cfg)) (sc_cooldown_secs s)),
      dp_cores = cores,
      dp_sender = (case sc_sender s of Some sn \<Rightarrow> sn | None \<Rightarrow> sustained_tcp addr),
      dp_remove_outliers = (df_outlier_removal (cf_defaults cfg) = Iqr)\<rparr>"

text \<open>\<open>sender\<close> and \<open>receiver\<close>: the scenario of the name, then the run of that half; None is a run that has not ended.\<close>

definition distributed_command ::
  "command_host \<Rightarrow> string \<Rightarrow> string \<Rightarrow> string \<Rightarrow> nat list \<Rightarrow> (distributed_params \<Rightarrow> (string + 'a) option) \<Rightarrow> string \<Rightarrow> (string + 'a) option" where
  "distributed_command h config_path name addr cores run_half failure =
     (case ch_load h config_path of
        Inl e \<Rightarrow> Some (Inl e)
      | Inr cfg \<Rightarrow>
          (case find (\<lambda>s. sc_name s = name) (cf_scenarios cfg) of
             None \<Rightarrow> Some (Inl (''scenario '' @ quoted name @ '' not found in config''))
           | Some s \<Rightarrow> map_option (map_sum (\<lambda>e. failure @ e) id) (run_half (distributed_of cfg s addr cores))))"

definition sender_command ::
  "command_host \<Rightarrow> string \<Rightarrow> string \<Rightarrow> string \<Rightarrow> nat list \<Rightarrow> string option \<Rightarrow> (nat \<Rightarrow> string option)
   \<Rightarrow> (nat \<Rightarrow> (u8 \<times> u64 \<times> push) list) \<Rightarrow> (string + u64 \<times> u8 list list) option" where
  "sender_command h config_path name target cores resolved dial turns =
     distributed_command h config_path name target cores (\<lambda>p. run_distributed_sender p resolved dial turns) ''sender failed: ''"

definition receiver_command ::
  "command_host \<Rightarrow> string \<Rightarrow> string \<Rightarrow> string \<Rightarrow> nat list \<Rightarrow> string option
   \<Rightarrow> (u8 \<times> (read_answer list \<times> (nat \<Rightarrow> u64)) accept_answer) list \<Rightarrow> f64 \<Rightarrow> (string + flow_summary) option" where
  "receiver_command h config_path name bind_addr cores bound accepts measure_secs =
     distributed_command h config_path name bind_addr cores (\<lambda>p. run_distributed_receiver p bound accepts measure_secs) ''receiver failed: ''"

section \<open>Calibration\<close>

record calibrate_args =
  cb_message_sizes :: "u32 list"
  cb_connections :: u32
  cb_duration :: f64
  cb_warmup :: f64
  cb_probes :: u32
  cb_tcp :: bool
  cb_udp :: bool
  cb_output_dir :: "string option"

definition calibrate_spec :: "calibrate_args \<Rightarrow> u32 \<Rightarrow> probe_spec" where
  "calibrate_spec a msg_bytes =
     \<lparr>pb_message_bytes = msg_bytes, pb_connections = unat (cb_connections a), pb_warmup = cb_warmup a, pb_measure = cb_duration a,
      pb_probes = unat (max (cb_probes a) 1), pb_sender_cores = [], pb_receiver_cores = []\<rparr>"

definition calibrate_points :: "calibrate_args \<Rightarrow> (string \<times> u32) list" where
  "calibrate_points a =
     concat (map (\<lambda>n. map (\<lambda>label. (label, max n (of_nat HEADER_LEN)))
         ((if cb_tcp a then [''tcp''] else []) @ (if cb_udp a then [''udp''] else []))) (cb_message_sizes a))"

text \<open>The rows of the table, up to the first probe that fails; a probe answers its throughput and message rate.\<close>

fun calibrate_rows ::
  "(string \<Rightarrow> probe_spec \<Rightarrow> string + f64 \<times> f64) \<Rightarrow> calibrate_args \<Rightarrow> (string \<times> u32) list \<Rightarrow> string + string list list" where
  "calibrate_rows probe a [] = Inr []"
| "calibrate_rows probe a ((label, msg_bytes) # ps) =
     (case probe label (calibrate_spec a msg_bytes) of
        Inl e \<Rightarrow> Inl e
      | Inr (gbps, rate) \<Rightarrow>
          map_sum id ((#) [label, show_word msg_bytes, show_word (cb_connections a), num gbps 4, num rate 1]) (calibrate_rows probe a ps))"

definition calibrate_command ::
  "(string \<Rightarrow> probe_spec \<Rightarrow> string + f64 \<times> f64) \<Rightarrow> calibrate_args \<Rightarrow> string + (string \<times> string) option" where
  "calibrate_command probe a =
     (if \<not> cb_tcp a \<and> \<not> cb_udp a then Inl ''nothing to probe: enable at least one of --tcp/--udp''
      else map_sum id (\<lambda>rows. map_option (\<lambda>dir. (path_join dir ''calibration.csv'',
               render \<lparr>cv_headers = [''transport'', ''message_bytes'', ''connections'', ''throughput_gbps'', ''message_rate''],
                       cv_rows = rows\<rparr>)) (cb_output_dir a))
             (calibrate_rows probe a (calibrate_points a)))"

section \<open>Topologies by hand\<close>

datatype topology_kind = KindVeth | KindNetns

record topology_args =
  ta_topology :: topology_kind
  ta_left_namespace :: string
  ta_right_namespace :: string
  ta_left_ip :: string
  ta_right_ip :: string
  ta_subnet_mask :: u8
  ta_mtu :: u32

text \<open>The commands that were run, and the error.\<close>

definition setup_command :: "command_host \<Rightarrow> topology_args \<Rightarrow> string option \<times> net_command list" where
  "setup_command h a =
     (if \<not> ch_net_admin h then (Some ''CAP_NET_ADMIN required'', [])
      else case ta_topology a of
        KindVeth \<Rightarrow>
          (case setup_veth (ch_net_admin h) (ch_commands h) (ta_left_ip a) (ta_right_ip a) (ta_subnet_mask a) of
             (Inl e, cs) \<Rightarrow> (Some (''veth setup failed: '' @ e), cs) | (Inr _, cs) \<Rightarrow> (None, cs))
      | KindNetns \<Rightarrow>
          (case setup_netns (ch_net_admin h) (ch_commands h) (ta_left_namespace a) (ta_right_namespace a) (ta_left_ip a)
                  (ta_right_ip a) (ta_subnet_mask a) of
             (Inl e, cs) \<Rightarrow> (Some (''netns setup failed: '' @ e), cs) | (Inr _, cs) \<Rightarrow> (None, cs)))"

definition teardown_command :: "command_host \<Rightarrow> topology_args \<Rightarrow> string option \<times> net_command list" where
  "teardown_command h a =
     (if \<not> ch_net_admin h then (Some ''CAP_NET_ADMIN required'', [])
      else (None, teardown_topology
        \<lparr>pv_mode = (case ta_topology a of KindVeth \<Rightarrow> NetVeth | KindNetns \<Rightarrow> NetNetns),
         pv_namespaces = [ta_left_namespace a, ta_right_namespace a], pv_veth_pair = Some (''seshat-a'', ''seshat-b''),
         pv_addrs = ([], [])\<rparr>))"

definition impair_command :: "command_host \<Rightarrow> string \<Rightarrow> network_impairment \<Rightarrow> string option" where
  "impair_command h iface imp =
     (case apply_impairment (ch_disp h) (ch_tc h) iface (impairment_of imp) of
        Inl e \<Rightarrow> Some (''impairment failed: '' @ e) | Inr _ \<Rightarrow> None)"

text \<open>The MTU of the link has an option and no effect.\<close>

lemma mtu_ignored: "setup_command h (a\<lparr>ta_mtu := m\<rparr>) = setup_command h a"
  by (cases "ta_topology a") (simp_all add: setup_command_def)

section \<open>What a suite starts with\<close>

lemma load_suite_facts:
  "load_suite h a paths = Inr loaded
   \<Longrightarrow> map fst loaded = paths \<and> list_all (\<lambda>(p, cfg). validation_report_ok (validate cfg)) loaded"
  by (induction paths arbitrary: loaded) (auto simp: Let_def split: sum.splits if_splits)

lemma duplicate_enabled_none: "duplicate_enabled seen ns = None \<longleftrightarrow> distinct ns \<and> set ns \<inter> set seen = {}"
  by (induction seen ns rule: duplicate_enabled.induct) auto

lemma enabled_names_scenarios:
  "concat (map (\<lambda>(_, cfg). enabled_names cfg) loaded) = map sc_name (enabled_scenarios (map snd loaded))"
  by (induction loaded) (auto simp: enabled_names_def enabled_scenarios_def)

lemma suite_command_tree:
  assumes "suite_command h a = Some (e, Some t)"
  obtains paths loaded where
    "resolve_suite_configs (ch_read h) (ch_manifest h) (ch_config_dir h) a = Inr paths" "paths \<noteq> []"
    "load_suite h a paths = Inr loaded" "distinct (map sc_name (enabled_scenarios (map snd loaded)))"
    "campaign h (case su_resume a of Some dir \<Rightarrow> dir | None \<Rightarrow> or_results (su_output_dir a)) (su_resume a \<noteq> None) loaded
       = Some (e, Some t)"
proof -
  obtain paths where paths: "resolve_suite_configs (ch_read h) (ch_manifest h) (ch_config_dir h) a = Inr paths" "paths \<noteq> []"
    using assms by (auto simp: suite_command_def command_error_def split: sum.splits if_splits)
  obtain loaded where loaded: "load_suite h a paths = Inr loaded"
    using assms paths by (auto simp: suite_command_def command_error_def split: sum.splits)
  have none: "duplicate_scenario_name loaded = None"
    using assms paths loaded by (auto simp: suite_command_def command_error_def split: option.splits)
  then have "distinct (map sc_name (enabled_scenarios (map snd loaded)))"
    by (simp only: duplicate_scenario_name_def enabled_names_scenarios duplicate_enabled_none)
  moreover have "campaign h (case su_resume a of Some dir \<Rightarrow> dir | None \<Rightarrow> or_results (su_output_dir a)) (su_resume a \<noteq> None) loaded
      = Some (e, Some t)"
    using assms paths loaded none by (cases "su_resume a") (simp_all add: suite_command_def)
  ultimately show thesis using that paths loaded by blast
qed

text \<open>
  C16: A suite touches no result directory before everything it is going to run has been checked: whenever one was opened
  or created, however the suite ended, all its configuration files were loaded, each passed validation as overridden,
  and no two enabled scenarios of all of them share a name.
\<close>

theorem suite_checked_first:
  assumes "suite_command h a = Some (e, Some t)"
  shows "\<exists>paths loaded. resolve_suite_configs (ch_read h) (ch_manifest h) (ch_config_dir h) a = Inr paths \<and> paths \<noteq> []
     \<and> load_suite h a paths = Inr loaded \<and> map fst loaded = paths
     \<and> list_all (\<lambda>(p, cfg). validation_report_ok (validate cfg)) loaded
     \<and> distinct (map sc_name (enabled_scenarios (map snd loaded)))"
  by (rule suite_command_tree [OF assms]) (use load_suite_facts in blast)

section \<open>What a suite ends with\<close>

lemma write_top_facts:
  "write_top disk f x t = (u, b) \<Longrightarrow> tr_files u = tr_files t \<and> tr_dirs u = tr_dirs t \<and> (\<forall>g. g \<noteq> f \<longrightarrow> tr_top u g = tr_top t g)
     \<and> (b \<longrightarrow> tr_top u f = Some x)"
  by (auto simp: write_top_def split: write_answer.splits)

lemma rebuild_table_same:
  "tr_files u = tr_files t \<Longrightarrow> tr_dirs u = tr_dirs t \<Longrightarrow> rebuild_table headers entry u = rebuild_table headers entry t"
  by (simp add: rebuild_table_eq scenario_dirs_def)

definition consolidated :: "tree \<Rightarrow> bool" where
  "consolidated t = (tr_top t ''summary.csv'' = Some (fst (rebuild_table SUMMARY_HEADERS summary_entry t)))"

lemma rebuild_summary_done:
  assumes "rebuild_summary disk t = (u, Some n)"
  shows "tr_files u = tr_files t \<and> tr_dirs u = tr_dirs t \<and> consolidated u"
proof -
  obtain out k where table: "rebuild_table SUMMARY_HEADERS summary_entry t = (out, k)"
    by (cases "rebuild_table SUMMARY_HEADERS summary_entry t")
  obtain b where w: "write_top disk ''summary.csv'' out t = (u, b)" "b"
    using assms table by (cases "write_top disk ''summary.csv'' out t") (auto simp: rebuild_summary_def split: if_splits)
  then have same: "tr_files u = tr_files t" "tr_dirs u = tr_dirs t" "tr_top u ''summary.csv'' = Some out"
    using write_top_facts [OF w(1)] by simp_all
  then show ?thesis using rebuild_table_same [OF same(1,2), of SUMMARY_HEADERS summary_entry] table by (simp add: consolidated_def)
qed

lemma rebuild_skipped_done:
  assumes "rebuild_skipped disk t = (u, r)"
  shows "tr_files u = tr_files t \<and> tr_dirs u = tr_dirs t \<and> tr_top u ''summary.csv'' = tr_top t ''summary.csv''"
proof -
  obtain out b where "write_top disk ''skipped.csv'' out t = (u, b)"
    using assms by (auto simp: rebuild_skipped_def Let_def split: prod.splits)
  from write_top_facts [OF this] show ?thesis by simp
qed

lemma consolidated_same:
  "tr_files u = tr_files t \<Longrightarrow> tr_dirs u = tr_dirs t \<Longrightarrow> tr_top u ''summary.csv'' = tr_top t ''summary.csv''
   \<Longrightarrow> consolidated t \<Longrightarrow> consolidated u"
  using rebuild_table_same [of u t] by (simp add: consolidated_def)

lemma rebuild_consolidated_done:
  assumes "rebuild_consolidated disk t = (u, Some n)"
  shows "tr_files u = tr_files t \<and> tr_dirs u = tr_dirs t \<and> consolidated u"
proof -
  obtain u1 k m where one: "rebuild_summary disk t = (u1, Some k)" and two: "rebuild_skipped disk u1 = (u, Some m)"
    using assms by (auto simp: rebuild_consolidated_def split: prod.splits option.splits)
  have same: "tr_files u = tr_files u1" "tr_dirs u = tr_dirs u1" "tr_top u ''summary.csv'' = tr_top u1 ''summary.csv''"
    using rebuild_skipped_done [OF two] by simp_all
  show ?thesis using rebuild_summary_done [OF one] same consolidated_same [OF same] by simp
qed

lemma result_dir_finish_done:
  assumes "result_dir_finish disk version cfg path host rd = (u, Some n)"
  shows "tr_files u = tr_files (rd_tree rd) \<and> tr_dirs u = tr_dirs (rd_tree rd) \<and> consolidated u"
proof -
  obtain t k where one: "rebuild_consolidated disk (rd_tree rd) = (t, Some k)"
    using assms by (auto simp: result_dir_finish_def split: prod.splits option.splits)
  obtain t2 x where two: "write_top disk ''meta.csv'' x t = (t2, True)"
      and three: "\<exists>b. write_interface_comparison disk (rd_comparisons rd) t2 = (u, b)"
    using assms one by (auto simp: result_dir_finish_def split: prod.splits option.splits bool.splits)
  have t2: "tr_files t2 = tr_files t \<and> tr_dirs t2 = tr_dirs t \<and> tr_top t2 ''summary.csv'' = tr_top t ''summary.csv''"
    using write_top_facts [OF two] by simp
  have "tr_files u = tr_files t2 \<and> tr_dirs u = tr_dirs t2 \<and> tr_top u ''summary.csv'' = tr_top t2 ''summary.csv''"
    using three by (auto simp: write_interface_comparison_def split: if_splits dest!: write_top_facts)
  then have same: "tr_files u = tr_files t" "tr_dirs u = tr_dirs t" "tr_top u ''summary.csv'' = tr_top t ''summary.csv''"
    using t2 by simp_all
  show ?thesis using rebuild_consolidated_done [OF one] same consolidated_same [OF same] by simp
qed

text \<open>The overview beside a consolidated table.\<close>

definition overviewed :: "tree \<Rightarrow> bool" where
  "overviewed t =
     (let report = render_overview (parse_summary (fst (rebuild_table SUMMARY_HEADERS summary_entry t))) in
      report = [] \<or> tr_top t ''PERFORMANCE_OVERVIEW.txt'' = Some report)"

lemma write_overview_done:
  assumes "write_overview disk t = (u, None)" "consolidated t"
  shows "tr_files u = tr_files t \<and> tr_dirs u = tr_dirs t \<and> consolidated u \<and> overviewed u"
proof (cases "render_and_write (tr_top t ''summary.csv'')")
  case None
  then have "render_overview (parse_summary (fst (rebuild_table SUMMARY_HEADERS summary_entry t))) = []"
    using assms(2) by (auto simp: render_and_write_def consolidated_def Let_def split: if_splits)
  then show ?thesis using assms None by (simp add: write_overview_def overviewed_def Let_def)
next
  case (Some report)
  then obtain b where w: "write_top disk ''PERFORMANCE_OVERVIEW.txt'' report t = (u, b)" "b"
    using assms(1) by (auto simp: write_overview_def split: prod.splits if_splits)
  have same: "tr_files u = tr_files t" "tr_dirs u = tr_dirs t" "tr_top u ''summary.csv'' = tr_top t ''summary.csv''"
      "tr_top u ''PERFORMANCE_OVERVIEW.txt'' = Some report"
    using write_top_facts [OF w(1)] w(2) by simp_all
  have "report = render_overview (parse_summary (fst (rebuild_table SUMMARY_HEADERS summary_entry t)))"
    using Some assms(2) by (auto simp: render_and_write_def consolidated_def Let_def split: if_splits)
  then have "overviewed u" using same rebuild_table_same [OF same(1,2)] by (simp add: overviewed_def Let_def)
  then show ?thesis using same consolidated_same [OF same(1-3) assms(2)] by simp
qed

lemma campaign_done:
  assumes "campaign h base_dir resume loaded = Some (None, Some t)"
  obtains rd cx cx' where "open_or_create h base_dir resume = Some (Inr rd)"
    "tr_files (rd_tree (cx_rdir cx)) = tr_files (rd_tree rd)"
    "run_configs (ch_hosts h) (ch_logical h) (map snd loaded) cx = (None, cx')"
    "tr_files t = tr_files (rd_tree (cx_rdir cx'))" "consolidated t" "overviewed t"
proof -
  obtain rd where rd: "open_or_create h base_dir resume = Some (Inr rd)"
    using assms by (auto simp: campaign_def command_error_def split: option.splits sum.splits)
  obtain cx where cx: "prepare_context h rd (map snd loaded) = (cx, True)"
    using assms rd by (auto simp: campaign_def split: prod.splits bool.splits)
  obtain cx' where ran: "run_configs (ch_hosts h) (ch_logical h) (map snd loaded) cx = (None, cx')"
    using assms rd cx by (auto simp: campaign_def split: prod.splits option.splits)
  obtain cfg path where finish: "finish_context h cx' cfg path = (None, t)"
    using assms rd cx ran by (auto simp: campaign_def split: prod.splits list.splits)
  then obtain u n where fin: "result_dir_finish (ch_disk h) (ch_version h) cfg path (ch_info h) (cx_rdir cx') = (u, Some n)"
      and over: "write_overview (ch_disk h) u = (t, None)"
    by (auto simp: finish_context_def split: prod.splits option.splits)
  have "tr_files (rd_tree (cx_rdir cx)) = tr_files (rd_tree rd)"
    using cx by (auto simp: prepare_context_def write_sysinfo_def split: prod.splits dest!: write_top_facts)
  then show thesis
    using that rd ran result_dir_finish_done [OF fin] write_overview_done [OF over] by metis
qed


text \<open>A suite of one file, its scenario asking for a tool the host does not have.\<close>

definition suite_sample :: config where
  "suite_sample = \<lparr>cf_schema = None, cf_suite = \<lparr>su_name = ''s'', su_description = [], su_author = [], su_version = ''s''\<rparr>,
     cf_defaults = defaults_default,
     cf_scenarios = [routed_sample\<lparr>sc_requirements := (sc_requirements sample_scenario)\<lparr>rq_openssl := True\<rparr>\<rparr>]\<rparr>"

definition sample_suite_args :: suite_args where
  "sample_suite_args = \<lparr>su_tier = Smoke, su_config = [''c''], su_scenario_filter = None, su_output_dir = None, su_resume = Some ''r'',
     su_quick = False, su_runs = None, su_duration = None, su_warmup = None, su_cooldown = None, su_tag = None,
     su_cpu_affinity = [], su_no_system_metrics = False, su_metrics_backend = None\<rparr>"

definition sample_host :: "command_host \<Rightarrow> scenario_host \<Rightarrow> command_host" where
  "sample_host h sh = h\<lparr>ch_load := \<lambda>_. Inr suite_sample, ch_open := \<lambda>_. Some empty_tree, ch_disk := all_written,
     ch_hosts := \<lambda>_. sh\<lparr>ho_disk := all_written\<rparr>, ch_req := (ch_req h)\<lparr>rh_openssl := False\<rparr>\<rparr>"

lemma write_top_all: "write_top all_written f x t = (t\<lparr>tr_top := (tr_top t)(f \<mapsto> x)\<rparr>, True)"
  by (simp add: write_top_def all_written_def)

lemma suite_sample_valid: "validation_report_ok (validate suite_sample)"
  by (simp add: suite_sample_def validate_iff sample_simps defaults_default_def routed_sample_def) (intro exI [of _ "19 / 20"], simp)

lemma suite_sample_loaded: "load_suite (sample_host h sh) sample_suite_args [''c''] = Inr [(''c'', suite_sample)]"
proof -
  have "apply_suite_overrides sample_suite_args suite_sample = suite_sample"
    by (simp add: apply_suite_overrides_def sample_suite_args_def override_timing_def override_metrics_def suite_sample_def Let_def
        or_map_def defaults_default_def)
  then show ?thesis using suite_sample_valid by (simp add: sample_host_def Let_def)
qed

lemma suite_sample_resolved: "resolve_suite_configs read json env sample_suite_args = Inr [''c'']"
  by (simp add: resolve_suite_configs_def sample_suite_args_def)

lemma suite_sample_unique: "duplicate_scenario_name [(''c'', suite_sample)] = None"
  by (simp add: duplicate_scenario_name_def enabled_names_def suite_sample_def routed_sample_def sample_scenario_def)

lemma sample_suite_ends: "\<exists>t. suite_command (sample_host h sh) sample_suite_args = Some (None, Some t)"
proof -
  let ?h = "sample_host h sh"
  let ?rd = "\<lparr>rd_root = ''r'', rd_comparisons = [], rd_started_unix = ch_now h div 1000000000, rd_outcomes = [], rd_tree = empty_tree\<rparr>"
  have opened: "open_or_create ?h ''r'' True = Some (Inr ?rd)"
    by (simp add: open_or_create_def result_dir_open_def sample_host_def)
  obtain cx where cx: "prepare_context ?h ?rd [suite_sample] = (cx, True)" "tr_files (rd_tree (cx_rdir cx)) = tr_files empty_tree"
      "cx_host cx = ch_req ?h"
    by (simp add: prepare_context_def write_sysinfo_def sample_host_def write_top_all)
  let ?s = "routed_sample\<lparr>sc_requirements := (sc_requirements sample_scenario)\<lparr>rq_openssl := True\<rparr>\<rparr>"
  have "unmet_requirements ?s (ch_req ?h) \<noteq> None"
    by (simp add: unmet_requirements_def missing_requirements_def sample_host_def Let_def)
  moreover have "\<not> scenario_recorded (rd_tree (cx_rdir cx)) (sc_name ?s)"
    using cx(2) by (simp add: scenario_recorded_def empty_tree_def)
  moreover have "fst (skip_scenario (ch_hosts ?h ?s) ?s reason cy) = None" for reason cy
    by (simp add: skip_scenario_def record_skipped_def record_files_def skip_files_def write_file_all sample_host_def Let_def)
  ultimately have "fst (run_one (ch_hosts ?h ?s) d cores ?s cx) = None" for d cores
    using cx(3) by (auto simp: run_one_def Let_def)
  then have "fst (run_configs (ch_hosts ?h) (ch_logical ?h) [suite_sample] cx) = None"
    by (simp add: run_config_def suite_sample_def routed_sample_def sample_scenario_def split: prod.split option.split)
      (metis fst_conv not_None_eq option.distinct(1))
  then obtain cx' where ran: "run_configs (ch_hosts ?h) (ch_logical ?h) [suite_sample] cx = (None, cx')"
    by (metis prod.collapse)
  have finish: "\<exists>t. finish_context ?h cx' suite_sample ''c'' = (None, t)"
    by (simp add: finish_context_def result_dir_finish_def rebuild_consolidated_def rebuild_summary_def rebuild_skipped_def
        write_top_all write_interface_comparison_def write_overview_def sample_host_def Let_def split: prod.split option.split)
  have resume: "su_resume sample_suite_args = Some ''r''" by (simp add: sample_suite_args_def)
  have "suite_command ?h sample_suite_args = campaign ?h ''r'' True [(''c'', suite_sample)]"
    unfolding suite_command_def suite_sample_resolved sum.case suite_sample_loaded suite_sample_unique option.case resume by simp
  also have "\<dots> = (case finish_context ?h cx' suite_sample ''c'' of (e, t) \<Rightarrow> Some (e, Some t))"
    unfolding campaign_def opened option.case sum.case list.map snd_conv cx(1) prod.case bool.case ran list.case ..
  finally show ?thesis using finish by auto
qed


lemma suite_checked_first_witness:
  "\<forall>h sh. distinct (map sc_name (enabled_scenarios (map snd (projr (load_suite (sample_host h sh) sample_suite_args [''c''])))))"
proof (intro allI)
  fix h sh
  obtain t where t: "suite_command (sample_host h sh) sample_suite_args = Some (None, Some t)"
    using sample_suite_ends by blast
  show "distinct (map sc_name (enabled_scenarios (map snd (projr (load_suite (sample_host h sh) sample_suite_args [''c''])))))"
    using suite_checked_first [OF t] by (auto simp: suite_sample_resolved)
qed

text \<open>
  A resumed suite, though, writes the interface comparison from the scenarios of its own process alone: the rows of those
  recorded before are not read back, and with any new row they are lost from the file.
\<close>

lemma resumed_comparison_lost:
  "map_option rd_comparisons (result_dir_open dir (Some t) now) = Some []"
  "rows \<noteq> [] \<Longrightarrow> tr_top (fst (write_interface_comparison all_written rows t)) ''interface_comparison.csv''
     = Some (render (foldl (\<lambda>c r. csv_row (comparison_csv_row (by_scenario rows) r) c) (csv_new comparison_headers) rows))"
  by (simp_all add: result_dir_open_def write_interface_comparison_def write_top_all)

end
