(* ===== verification/Gateway_Start.thy ===== *)
theory Gateway_Start
  imports Gateway_Transport Local_Transports
begin

text \<open>
  The transports over real gateways as a whole: how each of them comes up (\<open>start\<close> of \<open>src/src/transport/gateway.rs\<close>,
  \<open>tproxy.rs\<close>, \<open>uds.rs\<close> and \<open>shm.rs\<close>), how a connected pair is made over one, and \<open>GatewayDut\<close>, which hides
  which of them a scenario runs over. A start is what it prepares (ports, plan, listeners), then the gateways of the plan, then
  what follows them. What the host answers is the record \<open>start_host\<close>; ports come from the counter of the process.
\<close>

section \<open>Coming up\<close>

record start_host =
  gh_mkdir :: "io_error option"
  gh_free :: "address_family \<Rightarrow> u16 \<Rightarrow> bool"
  gh_ephemeral :: "address_family \<Rightarrow> io_error + u16"
  gh_template_dir :: "io_error + string"
  gh_runtime_dir :: "string \<Rightarrow> u64 \<Rightarrow> io_error + string"
  gh_uid :: u32
  gh_bind :: "string \<Rightarrow> io_error option"
  gh_nonblocking :: "string \<Rightarrow> io_error option"
  gh_prepare :: "gateway_config \<Rightarrow> io_error + gateway_config"
  gh_spawn :: "gateway_config \<Rightarrow> string \<Rightarrow> io_error + gateway_process"
  gh_ready :: "gateway_process \<Rightarrow> io_error + unit"
  gh_drain :: "string \<Rightarrow> nat \<times> ((io_error + unit) \<times> nat) list"
  gh_net_admin :: bool
  gh_command :: "command \<Rightarrow> bool"

datatype start_error =
  StartIo io_error
| StartTemplate "io_error template_error"
| StartPath "io_error path_error"
| StartTproxy "io_error tproxy_error"
| StartCommand

text \<open>What is prepared, and the counters: the next port, for local transports also the next runtime directory.\<close>

type_synonym ('s, 'a) prepared = "(start_error + 'a) \<times> 's"

text \<open>The result, what happened to processes, and the counters; None while a drain has not ended.\<close>

type_synonym ('s, 'a) start_result = "((start_error + 'a) \<times> proc_event list \<times> 's) option"

definition reserve_port :: "start_host \<Rightarrow> address_family \<Rightarrow> u16 \<Rightarrow> (u16, u16) prepared" where
  "reserve_port h f nxt =
     (case reserve_local_port_for (gh_free h f) (gh_ephemeral h f) nxt of (r, nxt) \<Rightarrow> (map_sum StartIo id r, nxt))"

definition planned_path :: "start_host \<Rightarrow> security_spec \<Rightarrow> path_topology \<Rightarrow> string \<Rightarrow> nat \<Rightarrow> u16 \<Rightarrow> (u16, path_plan) prepared" where
  "planned_path h s topo backend_addr connections nxt =
     (let f = se_address_family s in
      case build_path (gh_free h f) (gh_ephemeral h f) s topo backend_addr connections nxt of
        (r, nxt) \<Rightarrow> (map_sum StartIo id r, nxt))"

fun then_prepare :: "('s, 'a) prepared \<Rightarrow> ('a \<Rightarrow> 's \<Rightarrow> ('s, 'b) prepared) \<Rightarrow> ('s, 'b) prepared" where
  "then_prepare (Inl e, s) f = (Inl e, s)"
| "then_prepare (Inr x, s) f = f x s"

definition check_io :: "io_error option \<Rightarrow> 's \<Rightarrow> ('s, unit) prepared" where
  "check_io r s = (case r of Some e \<Rightarrow> Inl (StartIo e) | None \<Rightarrow> Inr (), s)"

text \<open>A listener that is bound before the gateways start, and does not block.\<close>

definition listen_on :: "start_host \<Rightarrow> string \<Rightarrow> io_error option" where
  "listen_on h addr = (case gh_bind h addr of Some e \<Rightarrow> Some e | None \<Rightarrow> gh_nonblocking h addr)"

definition drain_at :: "start_host \<Rightarrow> string \<Rightarrow> (io_error + unit) option" where
  "drain_at h addr = (case gh_drain h addr of (deadline, turns) \<Rightarrow> drain_readiness_probes deadline turns)"

text \<open>The gateways, then a last step; when it fails the path that runs is dropped.\<close>

definition come_up ::
  "(io_error + running_path) \<times> proc_event list \<Rightarrow> (io_error + unit) option \<Rightarrow> (running_path \<Rightarrow> 'a) \<Rightarrow> 's \<Rightarrow> ('s, 'a) start_result" where
  "come_up started last_step build nxt =
     (case started of
        (Inl e, evs) \<Rightarrow> Some (Inl (StartIo e), evs, nxt)
      | (Inr r, evs) \<Rightarrow>
          (case last_step of
             None \<Rightarrow> None
           | Some (Inl e) \<Rightarrow> Some (Inl (StartIo e), evs @ drop_all (rp_processes r), nxt)
           | Some (Inr _) \<Rightarrow> Some (Inr (build r), evs, nxt)))"

definition launch :: "start_host \<Rightarrow> path_plan \<Rightarrow> (io_error + running_path) \<times> proc_event list" where
  "launch h plan = start_path (gh_prepare h) (gh_spawn h) (gh_ready h) plan"

section \<open>TCP\<close>

record gateway_transport =
  gt_name :: string
  gt_ingress_addr :: string
  gt_backend :: string
  gt_running :: "running_path option"

definition with_template :: "start_host \<Rightarrow> string option \<Rightarrow> path_plan \<Rightarrow> start_error + path_plan" where
  "with_template h app_id plan =
     (case app_id of
        None \<Rightarrow> Inr plan
      | Some a \<Rightarrow>
          (case add_management_uds_template (gh_template_dir h) (gh_uid h) a plan of
             (_, Inl e) \<Rightarrow> Inl (StartTemplate e)
           | (plan, Inr _) \<Rightarrow> Inr plan))"

text \<open>The plan and the backend that listens for it.\<close>

definition tcp_prepare ::
  "start_host \<Rightarrow> security_spec \<Rightarrow> path_topology \<Rightarrow> string option \<Rightarrow> nat \<Rightarrow> u16 \<Rightarrow> (u16, path_plan \<times> string) prepared" where
  "tcp_prepare h s topo app_id connections nxt =
     then_prepare (check_io (gh_mkdir h) nxt) (\<lambda>_ nxt.
     then_prepare (reserve_port h (se_address_family s) nxt) (\<lambda>port nxt.
       let backend_addr = loopback_socket (se_address_family s) port in
       then_prepare (planned_path h s topo backend_addr connections nxt) (\<lambda>plan nxt.
       then_prepare (with_template h app_id plan, nxt) (\<lambda>plan nxt.
       then_prepare (check_io (listen_on h backend_addr) nxt) (\<lambda>_ nxt. (Inr (plan, backend_addr), nxt))))))"

definition tcp_start_inner ::
  "start_host \<Rightarrow> string \<Rightarrow> security_spec \<Rightarrow> path_topology \<Rightarrow> string option \<Rightarrow> nat \<Rightarrow> u16 \<Rightarrow> (u16, gateway_transport) start_result" where
  "tcp_start_inner h name s topo app_id connections nxt =
     (case tcp_prepare h s topo app_id connections nxt of
        (Inl e, nxt) \<Rightarrow> Some (Inl e, [], nxt)
      | (Inr (plan, backend_addr), nxt) \<Rightarrow>
          come_up (launch h plan) (drain_at h backend_addr)
            (\<lambda>r. \<lparr>gt_name = name, gt_ingress_addr = pp_ingress_addr plan, gt_backend = backend_addr, gt_running = Some r\<rparr>) nxt)"

definition tcp_start ::
  "start_host \<Rightarrow> string \<Rightarrow> security_spec \<Rightarrow> path_topology \<Rightarrow> nat \<Rightarrow> u16 \<Rightarrow> (u16, gateway_transport) start_result" where
  "tcp_start h name s topo connections nxt = tcp_start_inner h name s topo None connections nxt"

definition tcp_start_managed ::
  "start_host \<Rightarrow> string \<Rightarrow> security_spec \<Rightarrow> path_topology \<Rightarrow> string \<Rightarrow> nat \<Rightarrow> u16 \<Rightarrow> (u16, gateway_transport) start_result" where
  "tcp_start_managed h name s topo app_id connections nxt = tcp_start_inner h name s topo (Some app_id) connections nxt"

section \<open>UDP\<close>

text \<open>Datagrams: nothing to drain, and the socket blocks.\<close>

definition udp_prepare ::
  "start_host \<Rightarrow> security_spec \<Rightarrow> path_topology \<Rightarrow> nat \<Rightarrow> u16 \<Rightarrow> (u16, path_plan \<times> string) prepared" where
  "udp_prepare h s topo connections nxt =
     then_prepare (check_io (gh_mkdir h) nxt) (\<lambda>_ nxt.
     then_prepare (reserve_port h (se_address_family s) nxt) (\<lambda>port nxt.
       let backend_addr = loopback_socket (se_address_family s) port in
       then_prepare (planned_path h s topo backend_addr connections nxt) (\<lambda>plan nxt.
       then_prepare (check_io (gh_bind h backend_addr) nxt) (\<lambda>_ nxt. (Inr (plan, backend_addr), nxt)))))"

definition udp_start ::
  "start_host \<Rightarrow> string \<Rightarrow> security_spec \<Rightarrow> path_topology \<Rightarrow> nat \<Rightarrow> u16 \<Rightarrow> (u16, gateway_transport) start_result" where
  "udp_start h name s topo connections nxt =
     (case udp_prepare h s topo connections nxt of
        (Inl e, nxt) \<Rightarrow> Some (Inl e, [], nxt)
      | (Inr (plan, backend_addr), nxt) \<Rightarrow>
          come_up (launch h plan) (Some (Inr ()))
            (\<lambda>r. \<lparr>gt_name = name, gt_ingress_addr = pp_ingress_addr plan, gt_backend = backend_addr, gt_running = Some r\<rparr>) nxt)"

section \<open>One listener for every traffic class\<close>

record multi_class_transport =
  gm_name :: string
  gm_entries :: "string class_entry list"
  gm_running :: "running_path option"

fun bind_classes :: "start_host \<Rightarrow> address_family \<Rightarrow> string list \<Rightarrow> u16 \<Rightarrow> (u16, (string \<times> string) list) prepared" where
  "bind_classes h f [] nxt = (Inr [], nxt)"
| "bind_classes h f (c # cs) nxt =
     then_prepare (reserve_port h f nxt) (\<lambda>port nxt.
       let backend_addr = loopback_socket f port in
       then_prepare (check_io (listen_on h backend_addr) nxt) (\<lambda>_ nxt.
       then_prepare (bind_classes h f cs nxt) (\<lambda>bs nxt. (Inr ((c, backend_addr) # bs), nxt))))"

definition multi_prepare ::
  "start_host \<Rightarrow> security_spec \<Rightarrow> path_topology \<Rightarrow> string list \<Rightarrow> nat \<Rightarrow> u16 \<Rightarrow> (u16, multi_class_plan \<times> string list) prepared" where
  "multi_prepare h s topo classes connections nxt =
     (let f = se_address_family s in
      then_prepare (check_io (gh_mkdir h) nxt) (\<lambda>_ nxt.
      then_prepare (bind_classes h f classes nxt) (\<lambda>backends nxt.
        case build_multi_class_path (gh_free h f) (gh_ephemeral h f) s topo backends connections nxt of
          (r, nxt) \<Rightarrow> (map_sum StartPath (\<lambda>plan. (plan, map snd backends)) r, nxt))))"

fun drain_each :: "start_host \<Rightarrow> string list \<Rightarrow> (io_error + unit) option" where
  "drain_each h [] = Some (Inr ())"
| "drain_each h (b # bs) =
     (case drain_at h b of
        None \<Rightarrow> None
      | Some (Inl e) \<Rightarrow> Some (Inl e)
      | Some (Inr _) \<Rightarrow> drain_each h bs)"

definition multi_class_start ::
  "start_host \<Rightarrow> string \<Rightarrow> security_spec \<Rightarrow> path_topology \<Rightarrow> string list \<Rightarrow> nat \<Rightarrow> u16 \<Rightarrow> (u16, multi_class_transport) start_result" where
  "multi_class_start h name s topo classes connections nxt =
     (case multi_prepare h s topo classes connections nxt of
        (Inl e, nxt) \<Rightarrow> Some (Inl e, [], nxt)
      | (Inr (plan, backends), nxt) \<Rightarrow>
          come_up (start_multi_class_path (OtherErr 0) (gh_prepare h) (gh_spawn h) (gh_ready h) plan)
            (drain_each h (map snd (zip (mp_paths plan) backends)))
            (\<lambda>r. \<lparr>gm_name = name, gm_entries = class_entries (mp_paths plan) backends, gm_running = Some r\<rparr>) nxt)"

section \<open>Transparent interception\<close>

record transparent_transport =
  ty_name :: string
  ty_target_addr :: string
  ty_backend :: string
  ty_running :: "running_path option"
  ty_rules :: "tproxy_rules option"

text \<open>The ports of the target, the gateway and the backend, and the plan; the target address always parses.\<close>

definition tproxy_prepare ::
  "start_host \<Rightarrow> security_spec \<Rightarrow> path_topology \<Rightarrow> nat \<Rightarrow> u16 \<Rightarrow> (u16, path_plan \<times> u16 \<times> u16 \<times> string) prepared" where
  "tproxy_prepare h s topo connections nxt =
     (let f = se_address_family s in
      then_prepare (if gh_net_admin h then Inr () else Inl (StartTproxy NoCapability), nxt) (\<lambda>_ nxt.
      then_prepare (check_io (gh_mkdir h) nxt) (\<lambda>_ nxt.
      then_prepare (reserve_port h f nxt) (\<lambda>target_port nxt.
      then_prepare (reserve_port h f nxt) (\<lambda>gw_port nxt.
      then_prepare (reserve_port h f nxt) (\<lambda>backend_port nxt.
        let backend_addr = loopback_socket f backend_port in
        then_prepare (check_io (listen_on h backend_addr) nxt) (\<lambda>_ nxt.
          case tproxy_plan (gh_free h f) (gh_ephemeral h f) s topo gw_port backend_addr connections nxt of
            (r, nxt) \<Rightarrow> (map_sum StartTproxy (\<lambda>plan. (plan, target_port, gw_port, backend_addr)) r, nxt))))))))"

text \<open>The rules are put up before the gateways; when those do not come up they are dropped.\<close>

definition tproxy_start ::
  "start_host \<Rightarrow> string \<Rightarrow> security_spec \<Rightarrow> path_topology \<Rightarrow> nat \<Rightarrow> u16
   \<Rightarrow> (u16, transparent_transport) start_result \<times> command list" where
  "tproxy_start h name s topo connections nxt =
     (case tproxy_prepare h s topo connections nxt of
        (Inl e, nxt) \<Rightarrow> (Some (Inl e, [], nxt), [])
      | (Inr (plan, target_port, gw_port, backend_addr), nxt) \<Rightarrow>
          (case tproxy_setup (gh_command h) target_port gw_port (se_address_family s) of
             (run, None) \<Rightarrow> (Some (Inl StartCommand, [], nxt), run)
           | (run, Some rules) \<Rightarrow>
               (case launch h plan of
                  (Inl e, evs) \<Rightarrow> (Some (Inl (StartIo e), evs, nxt), run @ tproxy_drop rules)
                | (Inr r, evs) \<Rightarrow>
                    (Some (Inr \<lparr>ty_name = name, ty_target_addr = loopback_socket (se_address_family s) target_port,
                                ty_backend = backend_addr, ty_running = Some r, ty_rules = Some rules\<rparr>, evs, nxt), run))))"

section \<open>Local endpoints\<close>

text \<open>Only the shared-memory transport keeps the capacity of its ring.\<close>

record endpoint_transport =
  et_name :: string
  et_mgmt_socket :: string
  et_decrypt_mgmt_socket :: string
  et_app_id :: string
  et_connections :: nat
  et_next_conn :: nat
  et_ring_capacity :: nat
  et_running :: "running_path option"

fun reserve_upstreams :: "start_host \<Rightarrow> nat \<Rightarrow> u16 \<Rightarrow> (u16, string list) prepared" where
  "reserve_upstreams h 0 nxt = (Inr [], nxt)"
| "reserve_upstreams h (Suc n) nxt =
     then_prepare (reserve_port h Ipv4 nxt) (\<lambda>port nxt.
     then_prepare (reserve_upstreams h n nxt) (\<lambda>us nxt. (Inr ((''127.0.0.1:'' @ show_word port) # us), nxt)))"

text \<open>
  The shared part of the two starts: \<open>proto\<close> and \<open>pre\<close> tell them apart, and \<open>api\<close> is the management API over a runtime
  directory. The counters are those of ports and of runtime directories. A plan and the two management sockets result.
\<close>

definition local_prepare ::
  "start_host \<Rightarrow> string \<Rightarrow> string \<Rightarrow> (string \<Rightarrow> api_config) \<Rightarrow> security_spec \<Rightarrow> path_topology \<Rightarrow> string \<Rightarrow> nat
   \<Rightarrow> traffic_class list \<Rightarrow> u16 \<times> u64 \<Rightarrow> (u16 \<times> u64, path_plan \<times> string \<times> string) prepared" where
  "local_prepare h proto pre api s topo app_id connections classes counters =
     then_prepare (check_io (gh_mkdir h) counters) (\<lambda>_ (nxt, i).
     then_prepare (case reserve_upstreams h connections nxt of (r, nxt) \<Rightarrow> (r, (nxt, i))) (\<lambda>upstreams (nxt, i).
       let rules = build_rules_for_classes proto s app_id (gh_uid h) upstreams (normalize_classes classes) in
       then_prepare (map_sum StartIo id (gh_runtime_dir h pre i), (nxt, i + 1)) (\<lambda>dir (nxt, i).
       then_prepare (case topo of
                       SingleGateway \<Rightarrow> (Inr dir, (nxt, i))
                     | ScgToScg \<Rightarrow> (map_sum StartIo id (gh_runtime_dir h pre i), (nxt, i + 1))) (\<lambda>dir2 (nxt, i).
         case local_gateways topo rules (api dir) (api dir2) of
           (gateways, decrypt_sock) \<Rightarrow>
             (Inr (\<lparr>pp_ingress_addr = ''unused'', pp_backend_addr = hd upstreams, pp_gateways = gateways\<rparr>,
                   path_join dir ''mgmt.sock'', decrypt_sock), (nxt, i))))))"

definition local_start ::
  "start_host \<Rightarrow> string \<Rightarrow> string \<Rightarrow> (string \<Rightarrow> api_config) \<Rightarrow> nat \<Rightarrow> string \<Rightarrow> security_spec \<Rightarrow> path_topology \<Rightarrow> string \<Rightarrow> nat
   \<Rightarrow> traffic_class list \<Rightarrow> u16 \<times> u64 \<Rightarrow> (u16 \<times> u64, endpoint_transport) start_result" where
  "local_start h proto pre api ring name s topo app_id connections classes counters =
     (let connections = max connections 1 in
      case local_prepare h proto pre api s topo app_id connections classes counters of
        (Inl e, counters) \<Rightarrow> Some (Inl e, [], counters)
      | (Inr (plan, sock, decrypt_sock), counters) \<Rightarrow>
          come_up (launch h plan) (Some (Inr ()))
            (\<lambda>r. \<lparr>et_name = name, et_mgmt_socket = sock, et_decrypt_mgmt_socket = decrypt_sock, et_app_id = app_id,
                  et_connections = connections, et_next_conn = 0, et_ring_capacity = ring, et_running = Some r\<rparr>) counters)"

definition UDS_RING_CAPACITY :: nat where "UDS_RING_CAPACITY = 1024 * 1024"

definition uds_start_with_classes ::
  "start_host \<Rightarrow> string \<Rightarrow> security_spec \<Rightarrow> path_topology \<Rightarrow> string \<Rightarrow> nat \<Rightarrow> traffic_class list \<Rightarrow> u16 \<times> u64
   \<Rightarrow> (u16 \<times> u64, endpoint_transport) start_result" where
  "uds_start_with_classes h name s topo app_id connections classes counters =
     local_start h ''uds'' ''su'' (\<lambda>dir. api_config_new (path_join dir ''mgmt.sock'') dir UDS_RING_CAPACITY) UDS_RING_CAPACITY
       name s topo app_id connections classes counters"

definition uds_start ::
  "start_host \<Rightarrow> string \<Rightarrow> security_spec \<Rightarrow> path_topology \<Rightarrow> string \<Rightarrow> nat \<Rightarrow> u16 \<times> u64
   \<Rightarrow> (u16 \<times> u64, endpoint_transport) start_result" where
  "uds_start h name s topo app_id connections counters = uds_start_with_classes h name s topo app_id connections [TcNormal] counters"

definition shm_start_with_classes ::
  "start_host \<Rightarrow> string \<Rightarrow> security_spec \<Rightarrow> path_topology \<Rightarrow> string \<Rightarrow> nat \<Rightarrow> u64 \<Rightarrow> shm_tuning \<Rightarrow> traffic_class list \<Rightarrow> u16 \<times> u64
   \<Rightarrow> (u16 \<times> u64, endpoint_transport) start_result" where
  "shm_start_with_classes h name s topo app_id connections ring_capacity tuning classes counters =
     local_start h ''shm'' ''ss'' (local_api (unat ring_capacity) tuning)
       (if ring_capacity = 0 then DEFAULT_RING_CAPACITY else unat ring_capacity)
       name s topo app_id connections classes counters"

definition shm_start ::
  "start_host \<Rightarrow> string \<Rightarrow> security_spec \<Rightarrow> path_topology \<Rightarrow> string \<Rightarrow> nat \<Rightarrow> u64 \<Rightarrow> shm_tuning \<Rightarrow> u16 \<times> u64
   \<Rightarrow> (u16 \<times> u64, endpoint_transport) start_result" where
  "shm_start h name s topo app_id connections ring_capacity tuning counters =
     shm_start_with_classes h name s topo app_id connections ring_capacity tuning [TcNormal] counters"

section \<open>What runs behind a transport\<close>

definition or_nil :: "('a \<Rightarrow> 'b list) \<Rightarrow> 'a option \<Rightarrow> 'b list" where
  "or_nil f x = (case x of Some r \<Rightarrow> f r | None \<Rightarrow> [])"

definition stop_running ::
  "(gateway_process \<Rightarrow> io_error stop_answer) \<Rightarrow> running_path option \<Rightarrow> (proc_event list \<times> (io_error + unit)) option" where
  "stop_running answer r = (case r of Some r \<Rightarrow> shutdown_all answer (rp_processes r) | None \<Rightarrow> Some ([], Inr ()))"

datatype gateway_dut =
  DutTcp gateway_transport
| DutUdp gateway_transport
| DutUds endpoint_transport
| DutShm endpoint_transport
| DutTproxy transparent_transport

fun dut_running :: "gateway_dut \<Rightarrow> running_path option" where
  "dut_running (DutTcp t) = gt_running t"
| "dut_running (DutUdp t) = gt_running t"
| "dut_running (DutUds t) = et_running t"
| "dut_running (DutShm t) = et_running t"
| "dut_running (DutTproxy t) = ty_running t"

definition dut_pids :: "gateway_dut \<Rightarrow> int list" where
  "dut_pids d = or_nil rp_pids (dut_running d)"

definition dut_log_paths :: "gateway_dut \<Rightarrow> string list" where
  "dut_log_paths d = or_nil rp_log_paths (dut_running d)"

text \<open>A shutdown: the interception rules first, then the processes.\<close>

definition dut_shutdown ::
  "(gateway_process \<Rightarrow> io_error stop_answer) \<Rightarrow> gateway_dut \<Rightarrow> command list \<times> (proc_event list \<times> (io_error + unit)) option" where
  "dut_shutdown answer d =
     (case d of DutTproxy t \<Rightarrow> or_nil tproxy_drop (ty_rules t) | _ \<Rightarrow> [], stop_running answer (dut_running d))"

fun dut_config_paths :: "gateway_dut \<Rightarrow> string list" where
  "dut_config_paths (DutTcp t) = or_nil rp_config_paths (gt_running t)"
| "dut_config_paths (DutUdp t) = or_nil rp_config_paths (gt_running t)"
| "dut_config_paths _ = []"

fun dut_first_process :: "gateway_dut \<Rightarrow> gateway_process option" where
  "dut_first_process (DutTcp t) = Option.bind (gt_running t) rp_first_process"
| "dut_first_process (DutUdp t) = Option.bind (gt_running t) rp_first_process"
| "dut_first_process _ = None"

fun dut_mgmt_socket_path :: "gateway_dut \<Rightarrow> string option" where
  "dut_mgmt_socket_path (DutTcp t) = Option.bind (gt_running t) rp_mgmt_socket_path"
| "dut_mgmt_socket_path (DutUdp t) = Option.bind (gt_running t) rp_mgmt_socket_path"
| "dut_mgmt_socket_path (DutUds t) = Some (et_mgmt_socket t)"
| "dut_mgmt_socket_path (DutShm t) = Some (et_mgmt_socket t)"
| "dut_mgmt_socket_path (DutTproxy t) = None"

section \<open>A connected pair\<close>

text \<open>
  The sender connects to the ingress, then the connection that the gateways forward is accepted as the receiver's. The
  socket options follow: on the client before the accept, on the server behind it.
\<close>

definition forwarded_pair ::
  "io_error + 'a option \<Rightarrow> ('a \<Rightarrow> io_error + 'c) \<Rightarrow> ('c \<Rightarrow> io_error option) \<Rightarrow> nat \<Rightarrow> 'c accept_turn list \<Rightarrow> ('c \<Rightarrow> io_error option)
   \<Rightarrow> (io_error + 'c \<times> 'c) option" where
  "forwarded_pair resolved dial client_options deadline turns server_options =
     (case resolved of
        Inl e \<Rightarrow> Some (Inl e)
      | Inr None \<Rightarrow> Some (Inl (OtherErr 0))
      | Inr (Some addr) \<Rightarrow>
          (case dial addr of
             Inl e \<Rightarrow> Some (Inl e)
           | Inr client \<Rightarrow>
               (case client_options client of
                  Some e \<Rightarrow> Some (Inl e)
                | None \<Rightarrow>
                    map_option (\<lambda>r. case r of
                        Inl e \<Rightarrow> Inl e
                      | Inr server \<Rightarrow> (case server_options server of Some e \<Rightarrow> Inl e | None \<Rightarrow> Inr (client, server)))
                      (accept_forwarded_on deadline turns))))"

definition tcp_pair ::
  "(string \<Rightarrow> io_error + 'a option) \<Rightarrow> ('a \<Rightarrow> io_error + 'c) \<Rightarrow> ('c \<Rightarrow> io_error option) \<Rightarrow> nat \<Rightarrow> (string \<Rightarrow> 'c accept_turn list)
   \<Rightarrow> ('c \<Rightarrow> io_error option) \<Rightarrow> gateway_transport \<Rightarrow> (io_error + 'c \<times> 'c) option" where
  "tcp_pair resolve dial client_options deadline turns server_options t =
     forwarded_pair (resolve (gt_ingress_addr t)) dial client_options deadline (turns (gt_backend t)) server_options"

definition tcp_pingpong_pair ::
  "(string \<Rightarrow> io_error + 'a option) \<Rightarrow> ('a \<Rightarrow> io_error + 'c) \<Rightarrow> ('c \<Rightarrow> io_error option) \<Rightarrow> ('c \<Rightarrow> io_error option) \<Rightarrow> nat
   \<Rightarrow> (string \<Rightarrow> 'c accept_turn list) \<Rightarrow> ('c \<Rightarrow> io_error option) \<Rightarrow> gateway_transport \<Rightarrow> (io_error + 'c \<times> 'c) option" where
  "tcp_pingpong_pair resolve dial nodelay read_timeout deadline turns server_options t =
     forwarded_pair (resolve (gt_ingress_addr t)) dial
       (\<lambda>c. case nodelay c of Some e \<Rightarrow> Some e | None \<Rightarrow> read_timeout c) deadline (turns (gt_backend t)) server_options"

text \<open>A class the transport was not started with is an error, not another class's pair.\<close>

definition pair_for_class ::
  "(string \<Rightarrow> io_error + 'a option) \<Rightarrow> ('a \<Rightarrow> io_error + 'c) \<Rightarrow> ('c \<Rightarrow> io_error option) \<Rightarrow> nat \<Rightarrow> (string \<Rightarrow> 'c accept_turn list)
   \<Rightarrow> ('c \<Rightarrow> io_error option) \<Rightarrow> string \<Rightarrow> multi_class_transport \<Rightarrow> (io_error + 'c \<times> 'c) option" where
  "pair_for_class resolve dial client_options deadline turns server_options cls t =
     (case entry_for_class (gm_entries t) cls of
        None \<Rightarrow> Some (Inl (OtherErr 0))
      | Some e \<Rightarrow> forwarded_pair (resolve (ce_ingress_addr e)) dial client_options deadline (turns (ce_backend e)) server_options)"

text \<open>Datagrams: a connected socket, and a second handle of the backend's.\<close>

definition udp_pair ::
  "(string \<Rightarrow> io_error + 'a option) \<Rightarrow> ('a \<Rightarrow> io_error + 'c) \<Rightarrow> (string \<Rightarrow> io_error + 'c) \<Rightarrow> ('c \<Rightarrow> io_error option)
   \<Rightarrow> gateway_transport \<Rightarrow> io_error + 'c \<times> 'c" where
  "udp_pair resolve sink_connected_to try_clone read_timeout t =
     (case resolve (gt_ingress_addr t) of
        Inl e \<Rightarrow> Inl e
      | Inr None \<Rightarrow> Inl (OtherErr 0)
      | Inr (Some target) \<Rightarrow>
          (case sink_connected_to target of
             Inl e \<Rightarrow> Inl e
           | Inr sink \<Rightarrow>
               (case try_clone (gt_backend t) of
                  Inl e \<Rightarrow> Inl e
                | Inr src \<Rightarrow> (case read_timeout src of Some e \<Rightarrow> Inl e | None \<Rightarrow> Inr (sink, src)))))"

text \<open>The transparent pair dials the target, not the gateway.\<close>

definition tproxy_pair ::
  "(string \<Rightarrow> io_error + 'c) \<Rightarrow> ('c \<Rightarrow> io_error option) \<Rightarrow> nat \<Rightarrow> (string \<Rightarrow> 'c accept_turn list) \<Rightarrow> ('c \<Rightarrow> io_error option)
   \<Rightarrow> transparent_transport \<Rightarrow> (io_error + 'c \<times> 'c) option" where
  "tproxy_pair dial client_options deadline turns server_options t =
     (case dial (ty_target_addr t) of
        Inl e \<Rightarrow> Some (Inl e)
      | Inr client \<Rightarrow>
          (case client_options client of
             Some e \<Rightarrow> Some (Inl e)
           | None \<Rightarrow>
               map_option (\<lambda>r. case r of
                   Inl e \<Rightarrow> Inl e
                 | Inr server \<Rightarrow> (case server_options server of Some e \<Rightarrow> Inl e | None \<Rightarrow> Inr (client, server)))
                 (tproxy_accept_forwarded deadline (turns (ty_backend t)))))"

text \<open>
  The pairs of the local transports: each takes the next connection's application id, created or not. A ping-pong pair has
  both endpoints on the client's side.
\<close>

definition uds_pair ::
  "(string \<Rightarrow> string \<Rightarrow> string \<Rightarrow> string \<Rightarrow> string + 'c) \<Rightarrow> traffic_class \<Rightarrow> endpoint_transport
   \<Rightarrow> (provision_error + 'c \<times> 'c) \<times> endpoint_transport" where
  "uds_pair create c t =
     (case provision_pair create (et_mgmt_socket t) (et_decrypt_mgmt_socket t) (et_app_id t) (et_connections t) c (et_next_conn t) of
        (r, nxt) \<Rightarrow> (r, t\<lparr>et_next_conn := nxt\<rparr>))"

definition uds_pingpong_pair ::
  "(string \<Rightarrow> string \<Rightarrow> string \<Rightarrow> string \<Rightarrow> string + 'c) \<Rightarrow> traffic_class \<Rightarrow> endpoint_transport
   \<Rightarrow> (provision_error + ('c \<times> 'c) \<times> unit) \<times> endpoint_transport" where
  "uds_pingpong_pair create c t = (case uds_pair create c t of (r, t) \<Rightarrow> (map_sum id (\<lambda>ends. (ends, ())) r, t))"

definition shm_pair ::
  "(nat \<Rightarrow> string \<Rightarrow> string \<Rightarrow> string \<Rightarrow> string \<Rightarrow> string + 'c) \<Rightarrow> traffic_class \<Rightarrow> endpoint_transport
   \<Rightarrow> (provision_error + 'c \<times> 'c) \<times> endpoint_transport" where
  "shm_pair create c t = uds_pair (create (et_ring_capacity t)) c t"

definition shm_pingpong_pair ::
  "(nat \<Rightarrow> string \<Rightarrow> string \<Rightarrow> string \<Rightarrow> string \<Rightarrow> string + 'c) \<Rightarrow> traffic_class \<Rightarrow> endpoint_transport
   \<Rightarrow> (provision_error + ('c \<times> 'c) \<times> unit) \<times> endpoint_transport" where
  "shm_pingpong_pair create c t = uds_pingpong_pair (create (et_ring_capacity t)) c t"

section \<open>A transport comes up whole, and leaves nothing behind\<close>

text \<open>The processes that are launched for gateways, and what is left of a process that is gone.\<close>

definition brought_up :: "start_host \<Rightarrow> named_gateway list \<Rightarrow> gateway_process list" where
  "brought_up h gws = launched (gh_prepare h) (gh_spawn h) (gh_ready h) (rev gws)"

definition waits :: "proc_event list \<Rightarrow> nat" where
  "waits evs = length (filter ((=) Wait) evs)"

definition files_gone :: "gateway_process \<Rightarrow> proc_event list \<Rightarrow> bool" where
  "files_gone p evs =
     (Remove (gp_config_path p) \<in> set evs \<and> (case gp_mgmt_socket p of Some s \<Rightarrow> Remove s \<in> set evs | None \<Rightarrow> True))"

text \<open>
  The contract of a start. \<open>planned\<close> is an error or the gateways. A failure launched nothing, or every process it launched is
  reaped; after a success the transport owns a running process for each gateway, and however its shutdown goes, every one of
  them is waited for once and its files are removed.
\<close>

definition start_contract ::
  "start_host \<Rightarrow> start_error + named_gateway list \<Rightarrow> ('a \<Rightarrow> running_path option) \<Rightarrow> ('s, 'a) start_result \<Rightarrow> bool" where
  "start_contract h planned running res =
     (case res of
        None \<Rightarrow> True
      | Some (Inl e, evs, _) \<Rightarrow>
          (case planned of Inl e' \<Rightarrow> e = e' \<and> evs = [] | Inr gws \<Rightarrow> list_all (\<lambda>p. reaped p evs) (brought_up h gws))
      | Some (Inr t, evs, _) \<Rightarrow>
          \<exists>gws r. planned = Inr gws \<and> running t = Some r \<and> evs = []
            \<and> rp_processes r = brought_up h gws \<and> length (rp_processes r) = length gws
            \<and> (\<forall>answer evs' res. stop_running answer (running t) = Some (evs', res) \<longrightarrow>
                 waits evs' = length gws \<and> list_all (\<lambda>p. files_gone p evs') (rp_processes r)))"

lemma waits_simps [simp]: "waits [] = 0" "waits (e # evs) = (if e = Wait then Suc (waits evs) else waits evs)"
    "waits (evs @ evs') = waits evs + waits evs'" "waits (cleanup p) = 1"
  by (auto simp: waits_def cleanup_def split: option.split)

lemma files_gone_simps: "files_gone p (cleanup p)" "files_gone p evs \<Longrightarrow> files_gone p (evs @ evs')"
    "files_gone p evs' \<Longrightarrow> files_gone p (evs @ evs')" "files_gone p evs \<Longrightarrow> files_gone p (e # evs)"
  by (auto simp: files_gone_def cleanup_def split: option.splits)

lemma drop_process_gone: "\<not> gp_finished p \<Longrightarrow> waits (drop_process p) = 1 \<and> files_gone p (drop_process p)"
  by (simp add: drop_process_def files_gone_simps)

lemma drop_all_gone:
  "list_all (\<lambda>p. \<not> gp_finished p) ps \<Longrightarrow> waits (drop_all ps) = length ps \<and> list_all (\<lambda>p. files_gone p (drop_all ps)) ps"
  by (induction ps) (auto simp: drop_all_def drop_process_gone files_gone_simps list_all_iff)

lemma shutdown_gone:
  assumes "shutdown start exited0 turns exited1 p = Some (evs, r)" and "\<not> gp_finished p"
  shows "waits evs = 1 \<and> files_gone p evs"
proof -
  obtain p' evs' where t: "terminate start exited0 turns exited1 p = Some (p', evs', r)" and evs: "evs = evs' @ drop_process p'"
    using assms(1) by (auto simp: shutdown_def)
  from t assms(2) show ?thesis
    by (cases rule: terminate_cases)
      (use evs assms(2) in \<open>auto simp: drop_process_def files_gone_simps\<close>)
qed

lemma shutdown_all_gone:
  assumes "shutdown_all answer ps = Some (evs, r)" and "list_all (\<lambda>p. \<not> gp_finished p) ps"
  shows "waits evs = length ps \<and> list_all (\<lambda>p. files_gone p evs) ps"
  using assms
proof (induction ps arbitrary: evs)
  case (Cons p ps)
  then obtain evs1 r1 where s: "shutdown_with (answer p) p = Some (evs1, r1)" by (auto split: option.splits)
  then have one: "waits evs1 = 1 \<and> files_gone p evs1"
    using Cons.prems(2) by (auto simp: shutdown_with_def dest: shutdown_gone split: prod.splits)
  show ?case
  proof (cases r1)
    case (Inl e)
    then show ?thesis
      using Cons.prems s one drop_all_gone [of ps] by (auto simp: files_gone_simps list_all_iff)
  next
    case (Inr u)
    then obtain evs2 where "shutdown_all answer ps = Some (evs2, r)" "evs = evs1 @ evs2" using Cons.prems(1) s by auto
    then show ?thesis using Cons.IH Cons.prems(2) one by (auto simp: files_gone_simps list_all_iff)
  qed
qed simp

text \<open>The start of the processes, as the contract needs it.\<close>

definition spawns_running :: "start_host \<Rightarrow> bool" where
  "spawns_running h = (\<forall>c l p. gh_spawn h c l = Inr p \<longrightarrow> \<not> gp_finished p)"

lemma brought_up_running:
  assumes "spawns_running h"
  shows "list_all (\<lambda>p. \<not> gp_finished p) (brought_up h gws)"
proof -
  have "p \<in> set (launched (gh_prepare h) (gh_spawn h) (gh_ready h) gs) \<Longrightarrow> \<not> gp_finished p" for p gs
    by (induction gs) (use assms in \<open>auto simp: spawns_running_def split: sum.splits\<close>)
  then show ?thesis by (simp add: brought_up_def list_all_iff)
qed

lemma gateways_started:
  assumes "spawns_running h"
  shows "case start_gateways (gh_prepare h) (gh_spawn h) (gh_ready h) gws of
      (Inr ps, evs) \<Rightarrow> ps = brought_up h gws \<and> length ps = length gws \<and> evs = []
    | (Inl e, evs) \<Rightarrow> list_all (\<lambda>p. reaped p evs) (brought_up h gws)"
proof -
  have "reaped p evs" if "p \<in> set (brought_up h gws)"
    and "set evs = (\<Union>p\<in>set (brought_up h gws). set (drop_process p))" for p evs
    using that brought_up_running [of h gws] assms
    by (intro reaped_mono [OF reaped_drop]) (auto simp: list_all_iff)
  then show ?thesis
    using start_loop_result [where ps = "[]" and gs = "rev gws" and prepare = "gh_prepare h" and spawn = "gh_spawn h"
        and ready = "gh_ready h"]
    by (auto simp: start_gateways_def brought_up_def list_all_iff split: prod.splits sum.splits)
qed

text \<open>The processes of a path that came up are those of its gateways.\<close>

definition path_started :: "start_host \<Rightarrow> named_gateway list \<Rightarrow> (io_error + running_path) \<times> proc_event list \<Rightarrow> bool" where
  "path_started h gws started =
     (case started of
        (Inr r, evs) \<Rightarrow> rp_processes r = brought_up h gws \<and> length (rp_processes r) = length gws \<and> evs = []
      | (Inl e, evs) \<Rightarrow> list_all (\<lambda>p. reaped p evs) (brought_up h gws))"

lemma launch_started:
  assumes "spawns_running h"
  shows "path_started h (pp_gateways plan) (launch h plan)"
  using gateways_started [OF assms, where gws = "pp_gateways plan"]
  by (auto simp: path_started_def launch_def start_path_def split: prod.splits sum.splits)

lemma multi_started:
  assumes "spawns_running h" and "mp_paths plan \<noteq> []"
  shows "path_started h (mp_gateways plan) (start_multi_class_path e (gh_prepare h) (gh_spawn h) (gh_ready h) plan)"
  using gateways_started [OF assms(1), where gws = "mp_gateways plan"] assms(2)
  by (auto simp: path_started_def start_multi_class_path_def neq_Nil_conv split: prod.splits sum.splits)

lemma running_contract:
  assumes "spawns_running h"
    and "running t = Some r" "rp_processes r = brought_up h gws" "length (rp_processes r) = length gws"
  shows "start_contract h (Inr gws) running (Some (Inr t, [], nxt))"
  using assms brought_up_running [OF assms(1), where gws = gws]
  by (auto simp: start_contract_def stop_running_def dest: shutdown_all_gone)

lemma come_up_contract:
  assumes "spawns_running h"
    and "path_started h gws started" and "\<And>r. running (build r) = Some r"
  shows "start_contract h (Inr gws) running (come_up started last_step build nxt)"
proof -
  obtain res evs where started: "started = (res, evs)" by (cases started)
  show ?thesis
  proof (cases res)
    case (Inl e)
    then show ?thesis using assms(2) by (simp add: started come_up_def path_started_def start_contract_def)
  next
    case (Inr r)
    then have r: "rp_processes r = brought_up h gws" "length (rp_processes r) = length gws" "evs = []"
      using assms(2) unfolding started Inr path_started_def by auto
    have dropped: "list_all (\<lambda>p. reaped p (drop_all (rp_processes r))) (brought_up h gws)"
      using brought_up_running [OF assms(1), where gws = gws] r(1) by (auto simp: list_all_iff reaped_drop_all)
    show ?thesis
      using running_contract [where running = running and t = "build r", OF assms(1) assms(3) r(1,2)] dropped
      by (auto simp: started Inr r(3) come_up_def start_contract_def split: option.split sum.split)
  qed
qed

lemma prepared_contract: "start_contract h (Inl e) running (Some (Inl e, [], nxt))"
  by (simp add: start_contract_def)

text \<open>What each transport plans to run.\<close>

lemma multi_prepare_paths:
  "multi_prepare h s topo classes connections nxt = (Inr (plan, backends), nxt') \<Longrightarrow> mp_paths plan \<noteq> []"
  by (auto simp: multi_prepare_def list_all2_Cons1 build_multi_class_path_def neq_Nil_conv Let_def check_io_def
      split: prod.splits sum.splits if_splits option.splits elim!: then_prepare.elims dest!: class_rules_wired)

lemma tproxy_setup_rules:
  "tproxy_setup ok lp gp f = (run, Some rules) \<Longrightarrow> tproxy_drop rules = teardown_commands lp gp f"
  by (auto simp: tproxy_setup_def tproxy_drop_def split: prod.splits bool.splits)

lemma tproxy_start_launches:
  assumes "tproxy_prepare h s topo connections nxt = (Inr (plan, lp, gp, backend), nxt')"
    and "tproxy_setup (gh_command h) lp gp (se_address_family s) = (run, Some rules)"
  shows "fst (tproxy_start h name s topo connections nxt) = come_up (launch h plan) (Some (Inr ()))
      (\<lambda>r. \<lparr>ty_name = name, ty_target_addr = loopback_socket (se_address_family s) lp,
            ty_backend = backend, ty_running = Some r, ty_rules = Some rules\<rparr>) nxt'"
    and "snd (tproxy_start h name s topo connections nxt)
      = run @ (case fst (tproxy_start h name s topo connections nxt) of
                 Some (Inr t, _) \<Rightarrow> []
               | _ \<Rightarrow> teardown_commands lp gp (se_address_family s))"
  by (simp_all add: tproxy_start_def assms tproxy_setup_rules [OF assms(2)] come_up_def split: prod.split sum.split)


text \<open>A pair never holds a connection that the gateways have closed already.\<close>

lemma forwarded_pair_live:
  assumes "forwarded_pair resolved dial client_options deadline turns server_options = Some (Inr (client, server))"
  shows "\<exists>t\<in>set turns. at_now t < deadline \<and> \<not> turn_passed t \<and> turn_conn t = Some server"
proof -
  have "accept_forwarded_on deadline turns = Some (Inr server)"
    using assms
    by (cases "accept_forwarded_on deadline turns"; cases "the (accept_forwarded_on deadline turns)")
      (auto simp: forwarded_pair_def split: sum.splits option.splits)
  then show ?thesis unfolding accept_first_live by auto
qed

lemma pair_for_class_own:
  assumes "pair_for_class resolve dial client_options deadline turns server_options cls t = Some (Inr (client, server))"
  shows "\<exists>e\<in>set (gm_entries t). ce_class e = cls
      \<and> (\<exists>u\<in>set (turns (ce_backend e)). at_now u < deadline \<and> turn_conn u = Some server)"
proof -
  obtain e where e: "entry_for_class (gm_entries t) cls = Some e"
    and p: "forwarded_pair (resolve (ce_ingress_addr e)) dial client_options deadline (turns (ce_backend e)) server_options
        = Some (Inr (client, server))"
    using assms by (auto simp: pair_for_class_def split: option.splits)
  have "e \<in> set (gm_entries t)" "ce_class e = cls"
    using e by (auto simp: entry_for_class_def find_Some_iff)
  then show ?thesis using forwarded_pair_live [OF p] by blast
qed

text \<open>
  A local transport hands out exactly the pipelines it was started with: the first \<open>et_connections\<close> pairs are asked for under
  their own application ids, decrypt side first, and every later one is refused.
\<close>

fun take_pairs :: "(string \<Rightarrow> string \<Rightarrow> string \<Rightarrow> string \<Rightarrow> string + 'c) \<Rightarrow> traffic_class \<Rightarrow> nat \<Rightarrow> endpoint_transport
    \<Rightarrow> (provision_error + 'c \<times> 'c) list" where
  "take_pairs create c 0 t = []"
| "take_pairs create c (Suc n) t = (case uds_pair create c t of (r, t) \<Rightarrow> r # take_pairs create c n t)"

lemma pairs_handed_out:
  "take_pairs create c n t = map (\<lambda>i.
     if et_connections t \<le> i then Inl (Exhausted i)
     else (case create (et_decrypt_mgmt_socket t) (conn_app_id (et_app_id t) i) (class_label c) ''decrypt'' of
             Inl e \<Rightarrow> Inl (CreateFailed e)
           | Inr rx \<Rightarrow>
               (case create (et_mgmt_socket t) (conn_app_id (et_app_id t) i) (class_label c) ''encrypt'' of
                  Inl e \<Rightarrow> Inl (CreateFailed e)
                | Inr tx \<Rightarrow> Inr (tx, rx)))) [et_next_conn t..<et_next_conn t + n]"
proof (induction n arbitrary: t)
  case (Suc n)
  have "[et_next_conn t..<et_next_conn t + Suc n] = et_next_conn t # [Suc (et_next_conn t)..<Suc (et_next_conn t) + n]"
    by (simp add: upt_rec)
  moreover have "snd (uds_pair create c t) = t\<lparr>et_next_conn := Suc (et_next_conn t)\<rparr>"
    by (auto simp: uds_pair_def provision_pair_def next_conn_app_id_def split: prod.split sum.split)
  ultimately show ?case
    using Suc.IH [of "t\<lparr>et_next_conn := Suc (et_next_conn t)\<rparr>"]
    by (simp add: split_beta) (simp add: uds_pair_def provision_pair_def next_conn_app_id_def split: sum.split)
qed simp

text \<open>A host on which the second gateway of a pair never gets ready.\<close>

definition late_host :: start_host where
  "late_host =
     \<lparr>gh_mkdir = None, gh_free = (\<lambda>_ _. True), gh_ephemeral = (\<lambda>_. Inl TimedOut), gh_template_dir = Inl TimedOut,
      gh_runtime_dir = (\<lambda>_ _. Inl TimedOut), gh_uid = 0, gh_bind = (\<lambda>_. None), gh_nonblocking = (\<lambda>_. None), gh_prepare = Inr,
      gh_spawn = (\<lambda>c l. Inr (spawned c ''/w'' l (if l = ''scg-b'' then 7 else 8))),
      gh_ready = (\<lambda>p. if gp_pid p = 8 then Inl TimedOut else Inr ()), gh_drain = (\<lambda>_. (0, [])),
      gh_net_admin = False, gh_command = (\<lambda>_. True)\<rparr>"

lemma reserve_first: "reserve_local_port_for (\<lambda>_. True) e nxt = (Inr (PORT_BASE + nxt mod PORT_RANGE), nxt + 1)"
proof -
  obtain n where "unat PORT_RANGE = Suc n" by (simp add: PORT_RANGE_def)
  then show ?thesis by (simp add: reserve_local_port_for_def)
qed


end
